(* ===== verification/Crypto.thy ===== *)
theory Crypto
  imports Prelude
begin

text \<open>
  \<open>crates/crypto/src/lib.rs\<close>: the canonical \<open>Order\<close>, the byte layout of every signed
  message and the hashes built from them. BCS, SHA-256 and Ed25519 are third-party crates:
  they are the fields of the parameter record \<open>crypto\<close>, and what the code relies on is stated
  as the named hypotheses \<open>bcs_order_total\<close>, \<open>bcs_order_inj\<close>, \<open>sha256_len\<close> and
  \<open>ed25519_ok\<close>. A failed \<open>expect\<close> is the value \<open>None\<close>.
\<close>

record order =
  o_nft_id :: u64
  o_symbol :: bytes
  o_side :: u8
  o_price :: u64
  o_quantity :: u64
  o_batch_id :: u64
  o_nonce :: bytes

datatype crypto_error =
    BcsError string
  | VerificationFailed
  | InvalidKeyLength u64 u64

record crypto =
  bcs_order :: "order \<Rightarrow> string + bytes"
  bcs_vec :: "bytes \<Rightarrow> string + bytes"
  bcs_u64 :: "u64 \<Rightarrow> string + bytes"
  bcs_u8 :: "u8 \<Rightarrow> string + bytes"
  bcs_read_order :: "bytes \<Rightarrow> order option"
  sha256 :: "bytes \<Rightarrow> bytes"
  ed25519_public :: "bytes \<Rightarrow> bytes"
  ed25519_sign :: "bytes \<Rightarrow> bytes \<Rightarrow> bytes"
  ed25519_verify :: "bytes \<Rightarrow> bytes \<Rightarrow> bytes \<Rightarrow> bool"

section \<open>Signing and verification\<close>

definition sign :: "crypto \<Rightarrow> bytes \<Rightarrow> bytes \<Rightarrow> bytes" where
  "sign C secret message = ed25519_sign C secret message"

definition verify :: "crypto \<Rightarrow> bytes \<Rightarrow> bytes \<Rightarrow> bytes \<Rightarrow> bool" where
  "verify C public message signature =
     (if length signature \<noteq> 64 then False else ed25519_verify C public message signature)"

section \<open>Order operations\<close>

definition encode_order :: "crypto \<Rightarrow> order \<Rightarrow> crypto_error + bytes" where
  "encode_order C ord = map_err BcsError (bcs_order C ord)"

definition order_hash :: "crypto \<Rightarrow> order \<Rightarrow> bytes option" where
  "order_hash C ord =
     (case encode_order C ord of Inl _ \<Rightarrow> None | Inr b \<Rightarrow> Some (sha256 C b))"

definition commit_hash :: "crypto \<Rightarrow> order \<Rightarrow> bytes option" where
  "commit_hash C ord = order_hash C ord"

definition sign_order :: "crypto \<Rightarrow> bytes \<Rightarrow> order \<Rightarrow> bytes option" where
  "sign_order C secret ord =
     (case encode_order C ord of Inl _ \<Rightarrow> None | Inr b \<Rightarrow> Some (sign C secret b))"

definition sign_commit :: "crypto \<Rightarrow> bytes \<Rightarrow> u64 \<Rightarrow> u64 \<Rightarrow> bytes \<Rightarrow> bytes" where
  "sign_commit C secret batch_id pool_id hash =
     sign C secret (le64 batch_id @ le64 pool_id @ hash)"

definition compute_match_hash :: "crypto \<Rightarrow> u64 \<Rightarrow> bytes \<Rightarrow> bytes \<Rightarrow> u64 \<Rightarrow> bytes" where
  "compute_match_hash C batch_id buyer_order_hash seller_order_hash fill_quantity =
     sha256 C (le64 batch_id @ buyer_order_hash @ seller_order_hash @ le64 fill_quantity)"

section \<open>BatchComplete and SettlementReport messages\<close>

definition batch_complete_message ::
  "crypto \<Rightarrow> u64 \<Rightarrow> u64 \<Rightarrow> bytes \<Rightarrow> u64 \<Rightarrow> u64 \<Rightarrow> u64 \<Rightarrow> bytes option" where
  "batch_complete_message C batch_id pool_id symbol avg_settlement_price volume match_count =
     (case bcs_vec C symbol of
        Inl _ \<Rightarrow> None
      | Inr symbol_bcs \<Rightarrow>
          Some (le64 batch_id @ le64 pool_id @ symbol_bcs @ le64 avg_settlement_price
            @ le64 volume @ le64 match_count))"

definition sign_batch_complete ::
  "crypto \<Rightarrow> bytes \<Rightarrow> u64 \<Rightarrow> u64 \<Rightarrow> bytes \<Rightarrow> u64 \<Rightarrow> u64 \<Rightarrow> u64 \<Rightarrow> bytes option" where
  "sign_batch_complete C secret batch_id pool_id symbol avg_settlement_price volume match_count =
     (case bcs_vec C symbol of
        Inl _ \<Rightarrow> None
      | Inr symbol_bcs \<Rightarrow>
          Some (sign C secret (le64 batch_id @ le64 pool_id @ symbol_bcs
            @ le64 avg_settlement_price @ le64 volume @ le64 match_count)))"

definition settlement_report_message :: "u64 \<Rightarrow> bytes \<Rightarrow> bool \<Rightarrow> u64 \<Rightarrow> bytes" where
  "settlement_report_message batch_id match_hash settled bailer_nft =
     le64 batch_id @ match_hash @ [if settled then 1 else 0] @ le64 bailer_nft"

definition sign_settlement_report ::
  "crypto \<Rightarrow> bytes \<Rightarrow> u64 \<Rightarrow> bytes \<Rightarrow> bool \<Rightarrow> u64 \<Rightarrow> bytes" where
  "sign_settlement_report C secret batch_id match_hash settled bailer_nft =
     sign C secret (settlement_report_message batch_id match_hash settled bailer_nft)"

section \<open>What the code relies on\<close>

definition bcs_order_total :: "crypto \<Rightarrow> bool" where
  "bcs_order_total C = (\<forall>ord. \<exists>b. bcs_order C ord = Inr b)"

definition bcs_order_inj :: "crypto \<Rightarrow> bool" where
  "bcs_order_inj C = (\<forall>x y b. bcs_order C x = Inr b \<longrightarrow> bcs_order C y = Inr b \<longrightarrow> x = y)"

definition sha256_len :: "crypto \<Rightarrow> bool" where
  "sha256_len C = (\<forall>b. length (sha256 C b) = 32)"

definition ed25519_ok :: "crypto \<Rightarrow> bool" where
  "ed25519_ok C = (\<forall>sk m. length (ed25519_sign C sk m) = 64 \<and>
     ed25519_verify C (ed25519_public C sk) m (ed25519_sign C sk m))"

text \<open>A concrete instance of the parameter, for evaluating examples: a byte layout of the
  order's fields, a truncating digest and a constant signature.\<close>

definition example_order_bytes :: "order \<Rightarrow> bytes" where
  "example_order_bytes x = le64 (o_nft_id x) @ [o_side x] @ le64 (o_price x) @ le64 (o_quantity x)
     @ le64 (o_batch_id x) @ le64 (word_of_nat (length (o_symbol x))) @ o_symbol x @ o_nonce x"

definition example_crypto :: crypto where
  "example_crypto = \<lparr>bcs_order = (\<lambda>x. Inr (example_order_bytes x)), bcs_vec = Inr, bcs_u64 = (\<lambda>w. Inr (le64 w)),
     bcs_u8 = (\<lambda>w. Inr [w]), bcs_read_order = (\<lambda>_. None),
     sha256 = (\<lambda>b. take 32 (b @ replicate 32 0)), ed25519_public = (\<lambda>sk. sk),
     ed25519_sign = (\<lambda>sk m. replicate 64 0), ed25519_verify = (\<lambda>pk m s. s = replicate 64 0)\<rparr>"

lemma example_crypto_ok [simp]:
  "bcs_order_total example_crypto" "sha256_len example_crypto" "ed25519_ok example_crypto"
  by (auto simp: bcs_order_total_def sha256_len_def ed25519_ok_def example_crypto_def min_def)

section \<open>Lemmas\<close>

lemma verify_len: "verify C pk m s \<Longrightarrow> length s = 64"
  by (auto simp: verify_def split: if_splits)

lemma verify_sign: "ed25519_ok C \<Longrightarrow> verify C (ed25519_public C sk) m (sign C sk m)"
  by (simp add: verify_def sign_def ed25519_ok_def)

lemma order_hash_total: "bcs_order_total C \<Longrightarrow> \<exists>h. order_hash C x = Some h"
  by (auto simp: order_hash_def encode_order_def bcs_order_total_def split: sum.splits)
    (metis map_err_simps(2) sum.distinct(1))

lemma order_hash_len: "sha256_len C \<Longrightarrow> order_hash C x = Some h \<Longrightarrow> length h = 32"
  by (auto simp: order_hash_def sha256_len_def split: sum.splits)

lemma batch_complete_signs_message:
  "sign_batch_complete C sk b p s a v c =
     map_option (sign C sk) (batch_complete_message C b p s a v c)"
  by (simp add: sign_batch_complete_def batch_complete_message_def split: sum.splits)

lemma commit_message_inject:
  "le64 b @ le64 p @ h = le64 b' @ le64 p' @ h' \<longleftrightarrow> b = b' \<and> p = p' \<and> h = h'"
  by auto

lemma settlement_report_message_inject:
  assumes "length h = 32" "length h' = 32"
  shows "settlement_report_message b h s n = settlement_report_message b' h' s' n'
    \<longleftrightarrow> b = b' \<and> h = h' \<and> s = s' \<and> n = n'"
  using assms by (auto simp: settlement_report_message_def split: if_splits)

end
