(* ===== verification/Batch.thy ===== *)
theory Batch
  imports Crypto
begin

text \<open>
  \<open>crates/chain/src/batch.rs\<close> with the \<open>BatchParams\<close> and \<open>BatchEpoch\<close> structs of
  \<open>crates/chain/src/types.rs\<close>: the shared clock of all nodes. Batch number and phase are pure
  functions of the block height; a division by a zero \<open>blocks_per_batch\<close> or \<open>num_pools\<close>
  panics (\<open>None\<close>).
\<close>

datatype phase = Commit | Reveal | Match | Swap

record batch_params =
  blocks_per_batch :: u64
  commit_blocks :: u64
  reveal_blocks :: u64
  match_blocks :: u64
  swap_blocks :: u64
  commits_per_batch :: u64

record batch_epoch =
  anchor_block :: u64
  anchor_batch_id :: u64

fun phase_display :: "phase \<Rightarrow> string" where
  "phase_display Commit = ''COMMIT''"
| "phase_display Reveal = ''REVEAL''"
| "phase_display Match = ''MATCH''"
| "phase_display Swap = ''SWAP''"

definition compute_batch_id :: "u64 \<Rightarrow> batch_epoch \<Rightarrow> batch_params \<Rightarrow> u64 option" where
  "compute_batch_id block_height epoch params =
     (let blocks_since = saturating_sub block_height (anchor_block epoch)
      in map_option (\<lambda>q. anchor_batch_id epoch + q)
           (checked_div blocks_since (blocks_per_batch params)))"

definition compute_phase :: "u64 \<Rightarrow> batch_epoch \<Rightarrow> batch_params \<Rightarrow> phase option" where
  "compute_phase block_height epoch params =
     (let blocks_since = saturating_sub block_height (anchor_block epoch)
      in case checked_rem blocks_since (blocks_per_batch params) of
           None \<Rightarrow> None
         | Some block_in_batch \<Rightarrow>
             (let commit_end = commit_blocks params;
                  reveal_end = commit_end + reveal_blocks params;
                  match_end = reveal_end + match_blocks params
              in Some (if block_in_batch < commit_end then Commit
                 else if block_in_batch < reveal_end then Reveal
                 else if block_in_batch < match_end then Match
                 else Swap)))"

definition is_phase_boundary ::
  "u64 \<Rightarrow> u64 \<Rightarrow> batch_epoch \<Rightarrow> batch_params \<Rightarrow> bool option" where
  "is_phase_boundary old_block new_block epoch params =
     (case compute_phase old_block epoch params of
        None \<Rightarrow> None
      | Some p \<Rightarrow> (case compute_phase new_block epoch params of
                     None \<Rightarrow> None
                   | Some q \<Rightarrow> Some (p \<noteq> q)))"

definition compute_new_epoch :: "batch_epoch \<Rightarrow> batch_params \<Rightarrow> u64 \<Rightarrow> batch_epoch" where
  "compute_new_epoch old_epoch old_params effective_at_batch =
     (let batches_ahead = saturating_sub effective_at_batch (anchor_batch_id old_epoch)
      in \<lparr>anchor_block = anchor_block old_epoch + batches_ahead * blocks_per_batch old_params,
          anchor_batch_id = effective_at_batch\<rparr>)"

text \<open>The first eight digest bytes, little-endian, modulo the number of pools. The slice
  \<open>hash[0..8]\<close> is in range because a SHA-256 digest has 32 bytes.\<close>

definition compute_pool_assignment :: "crypto \<Rightarrow> u64 \<Rightarrow> u64 \<Rightarrow> u64 \<Rightarrow> u64 option" where
  "compute_pool_assignment C nft_id batch_id num_pools =
     (let hash = sha256 C (le64 nft_id @ le64 batch_id);
          val = from_le64 (take 8 hash)
      in checked_rem val num_pools)"

definition should_start_next_batch :: "bool \<Rightarrow> bool" where
  "should_start_next_batch is_paused = (\<not> is_paused)"

section \<open>The clock over natural numbers\<close>

text \<open>The specification: block \<open>n\<close> since the anchor is block \<open>n mod L\<close> of batch \<open>n div L\<close>, and
  the phases partition \<open>[0, L)\<close> at the cumulative phase lengths.\<close>

definition params_ok :: "batch_params \<Rightarrow> bool" where
  "params_ok p = (0 < unat (blocks_per_batch p) \<and>
     unat (commit_blocks p) + unat (reveal_blocks p) + unat (match_blocks p) < 2 ^ 64)"

definition phase_of_offset :: "batch_params \<Rightarrow> nat \<Rightarrow> phase" where
  "phase_of_offset p n =
     (if n < unat (commit_blocks p) then Commit
      else if n < unat (commit_blocks p) + unat (reveal_blocks p) then Reveal
      else if n < unat (commit_blocks p) + unat (reveal_blocks p) + unat (match_blocks p) then Match
      else Swap)"

lemma compute_batch_id_Some:
  "compute_batch_id h e p = Some b \<longleftrightarrow> blocks_per_batch p \<noteq> 0 \<and>
     b = anchor_batch_id e + saturating_sub h (anchor_block e) div blocks_per_batch p"
  by (auto simp: compute_batch_id_def checked_div_def)

lemma compute_batch_id_unat:
  assumes "0 < unat (blocks_per_batch p)" "a = anchor_batch_id e"
    and "unat a + (unat h - unat (anchor_block e)) div unat (blocks_per_batch p) < 2 ^ 64"
  shows "\<exists>b. compute_batch_id h e p = Some b \<and>
    unat b = unat a + (unat h - unat (anchor_block e)) div unat (blocks_per_batch p)"
  using assms by (auto simp: compute_batch_id_Some unat_word_ariths unat_div)

lemma compute_phase_refines:
  assumes "params_ok p"
  shows "compute_phase h e p =
    Some (phase_of_offset p ((unat h - unat (anchor_block e)) mod unat (blocks_per_batch p)))"
proof -
  have nz: "blocks_per_batch p \<noteq> 0" using assms by (auto simp: params_ok_def)
  have r: "unat (commit_blocks p + reveal_blocks p) = unat (commit_blocks p) + unat (reveal_blocks p)"
    using assms by (intro unat_add_no_wrap) (simp add: params_ok_def)
  then have m: "unat (commit_blocks p + reveal_blocks p + match_blocks p)
      = unat (commit_blocks p) + unat (reveal_blocks p) + unat (match_blocks p)"
    using assms by (subst unat_add_no_wrap) (simp_all add: params_ok_def)
  show ?thesis
    using nz by (simp add: compute_phase_def checked_rem_def phase_of_offset_def word_less_nat_alt
        unat_mod r m)
qed

fun phase_rank :: "phase \<Rightarrow> nat" where
  "phase_rank Commit = 0"
| "phase_rank Reveal = 1"
| "phase_rank Match = 2"
| "phase_rank Swap = 3"

text \<open>The phases in the order in which a batch passes them.\<close>

instantiation phase :: linorder
begin

definition less_eq_phase :: "phase \<Rightarrow> phase \<Rightarrow> bool" where
  "less_eq_phase a b = (phase_rank a \<le> phase_rank b)"

definition less_phase :: "phase \<Rightarrow> phase \<Rightarrow> bool" where
  "less_phase a b = (phase_rank a < phase_rank b)"

instance
proof
  fix a b c :: phase
  show "a < b \<longleftrightarrow> a \<le> b \<and> \<not> b \<le> a" "a \<le> a" "a \<le> b \<or> b \<le> a"
    by (auto simp: less_eq_phase_def less_phase_def)
  show "a \<le> b \<Longrightarrow> b \<le> c \<Longrightarrow> a \<le> c" by (simp add: less_eq_phase_def)
  show "a \<le> b \<Longrightarrow> b \<le> a \<Longrightarrow> a = b" by (cases a; cases b) (simp_all add: less_eq_phase_def)
qed

end

lemma phase_of_offset_mono: "n \<le> m \<Longrightarrow> phase_of_offset p n \<le> phase_of_offset p m"
  by (auto simp: phase_of_offset_def less_eq_phase_def)

lemma offset_mono_in_batch:
  assumes "(a :: nat) \<le> b" "a div L = b div L"
  shows "a mod L \<le> b mod L"
  using assms by (metis add_le_cancel_left mult_div_mod_eq)

lemma unat_new_anchor:
  assumes "unat (anchor_block e)
      + (unat eff - unat (anchor_batch_id e)) * unat (blocks_per_batch p) < 2 ^ 64"
  shows "unat (anchor_block (compute_new_epoch e p eff))
    = unat (anchor_block e) + (unat eff - unat (anchor_batch_id e)) * unat (blocks_per_batch p)"
proof -
  have "unat (saturating_sub eff (anchor_batch_id e) * blocks_per_batch p)
      = (unat eff - unat (anchor_batch_id e)) * unat (blocks_per_batch p)"
    using assms by (simp add: unat_word_ariths)
  with assms show ?thesis
    by (simp add: compute_new_epoch_def Let_def unat_word_ariths)
qed

section \<open>Properties\<close>

text \<open>
  C39. The batch clock. For a non-zero batch length, phase lengths whose sum does not overflow,
  and two block heights \<open>h\<close> and \<open>h'\<close>, \<open>h'\<close> not before \<open>h\<close>, up to which the batch number does
  not overflow: batch number and phase are defined at both. With \<open>d\<close> the distance of the block
  to the anchor block (zero before it), the batch number is the anchor's plus the quotient of \<open>d\<close>
  by the batch length, and the phase is Commit, Reveal, Match or Swap as the remainder lies in
  the first \<open>commit_blocks\<close>, the next \<open>reveal_blocks\<close>, the next \<open>match_blocks\<close> or beyond them. The
  later block is in no earlier batch, and in the same batch in no earlier phase.
\<close>

theorem phase_clock:
  assumes "0 < unat (blocks_per_batch p)"
    and "unat (commit_blocks p) + unat (reveal_blocks p) + unat (match_blocks p) < 2 ^ 64"
    and "h \<le> h'"
    and "unat (anchor_batch_id e)
      + (unat h' - unat (anchor_block e)) div unat (blocks_per_batch p) < 2 ^ 64"
  shows "\<exists>b b' q q'. compute_batch_id h e p = Some b \<and> compute_batch_id h' e p = Some b' \<and>
    compute_phase h e p = Some q \<and> compute_phase h' e p = Some q' \<and>
    unat b = unat (anchor_batch_id e)
      + (unat h - unat (anchor_block e)) div unat (blocks_per_batch p) \<and>
    (let n = (unat h - unat (anchor_block e)) mod unat (blocks_per_batch p);
         c = unat (commit_blocks p); r = unat (reveal_blocks p); m = unat (match_blocks p)
     in (q = Commit \<longleftrightarrow> n < c) \<and>
        (q = Reveal \<longleftrightarrow> c \<le> n \<and> n < c + r) \<and>
        (q = Match \<longleftrightarrow> c + r \<le> n \<and> n < c + r + m) \<and>
        (q = Swap \<longleftrightarrow> c + r + m \<le> n)) \<and>
    b \<le> b' \<and> (b = b' \<longrightarrow> q \<le> q')"
proof -
  let ?L = "unat (blocks_per_batch p)"
  let ?d = "\<lambda>h. unat h - unat (anchor_block e)"
  have ok: "params_ok p" using assms(1,2) by (simp add: params_ok_def)
  have le: "?d h div ?L \<le> ?d h' div ?L"
    using assms(3) by (intro div_le_mono diff_le_mono) (simp add: word_le_nat_alt)
  obtain b where b: "compute_batch_id h e p = Some b"
      "unat b = unat (anchor_batch_id e) + ?d h div ?L"
    using compute_batch_id_unat [OF assms(1) refl, of e h] assms(4) le by auto
  obtain b' where b': "compute_batch_id h' e p = Some b'"
      "unat b' = unat (anchor_batch_id e) + ?d h' div ?L"
    using compute_batch_id_unat [OF assms(1) refl assms(4)] by auto
  have later: "b \<le> b'" using b(2) b'(2) le by (simp add: word_le_nat_alt)
  have order: "phase_of_offset p (?d h mod ?L) \<le> phase_of_offset p (?d h' mod ?L)" if "b = b'"
    using that b(2) b'(2) assms(3)
    by (intro phase_of_offset_mono offset_mono_in_batch) (auto simp: word_le_nat_alt)
  show ?thesis
    using b b' later order
    by (auto simp: compute_phase_refines [OF ok] phase_of_offset_def Let_def)
qed

definition example_params :: batch_params where
  "example_params = \<lparr>blocks_per_batch = 10, commit_blocks = 4, reveal_blocks = 3, match_blocks = 1,
     swap_blocks = 2, commits_per_batch = 3\<rparr>"

definition example_epoch :: batch_epoch where
  "example_epoch = \<lparr>anchor_block = 100, anchor_batch_id = 7\<rparr>"

lemma phase_clock_witness:
  "compute_batch_id 123 example_epoch example_params = Some 9 \<and>
   compute_phase 123 example_epoch example_params = Some Commit"
proof -
  obtain b q where b: "compute_batch_id 123 example_epoch example_params = Some b" "unat b = 9"
      and q: "compute_phase 123 example_epoch example_params = Some q" "q = Commit"
    using phase_clock [of example_params 123 127 example_epoch]
    by (auto simp: example_epoch_def example_params_def Let_def)
  then show ?thesis by (auto simp: word_unat_eq_iff)
qed

text \<open>
  A parameter change does not skip or repeat a batch: with \<open>compute_new_epoch\<close> taken at a
  batch not before the old anchor (and no overflow of the new anchor block), the new anchor
  block is the first block of that batch under the old parameters, it has that batch number
  under the new epoch whatever the new parameters are, and every block before it has a
  smaller batch number.
\<close>

theorem epoch_change_continuous:
  assumes "params_ok p" "blocks_per_batch p' \<noteq> 0" "anchor_batch_id e \<le> eff"
    and "unat (anchor_block e)
      + (unat eff - unat (anchor_batch_id e)) * unat (blocks_per_batch p) < 2 ^ 64"
  shows "compute_batch_id (anchor_block (compute_new_epoch e p eff)) e p = Some eff
    \<and> compute_batch_id (anchor_block (compute_new_epoch e p eff)) (compute_new_epoch e p eff) p'
        = Some eff
    \<and> (\<forall>h. h < anchor_block (compute_new_epoch e p eff) \<longrightarrow> anchor_batch_id e < eff \<longrightarrow>
        (\<exists>b. compute_batch_id h e p = Some b \<and> b < eff))"
proof (intro conjI allI impI)
  let ?e' = "compute_new_epoch e p eff"
  let ?L = "unat (blocks_per_batch p)" and ?D = "unat eff - unat (anchor_batch_id e)"
  have L: "0 < ?L" using assms(1) by (simp add: params_ok_def)
  have le: "unat (anchor_batch_id e) \<le> unat eff" using assms(3) by (simp add: word_le_nat_alt)
  have anchor: "unat (anchor_block ?e') - unat (anchor_block e) = ?D * ?L"
    using unat_new_anchor [OF assms(4)] by simp
  have "unat (anchor_batch_id e) + (unat (anchor_block ?e') - unat (anchor_block e)) div ?L = unat eff"
    using L le by (simp add: anchor)
  then show "compute_batch_id (anchor_block ?e') e p = Some eff"
    using compute_batch_id_unat [of p "anchor_batch_id e" e "anchor_block ?e'"] L unat_bound [of eff]
    by (auto simp: word_unat_eq_iff)
  show "compute_batch_id (anchor_block ?e') ?e' p' = Some eff"
    using assms(2) by (simp add: compute_batch_id_Some compute_new_epoch_def Let_def)
  fix h assume h: "h < anchor_block ?e'" and lt: "anchor_batch_id e < eff"
  have "0 < ?D * ?L" using lt L by (simp add: word_less_nat_alt)
  with h anchor have "unat h - unat (anchor_block e) < ?D * ?L"
    unfolding word_less_nat_alt by linarith
  then have d: "(unat h - unat (anchor_block e)) div ?L < ?D"
    using L by (simp add: less_mult_imp_div_less)
  then have lt': "unat (anchor_batch_id e) + (unat h - unat (anchor_block e)) div ?L < unat eff"
    by linarith
  then have "unat (anchor_batch_id e) + (unat h - unat (anchor_block e)) div ?L < 2 ^ 64"
    using unat_bound [of eff] by simp
  from compute_batch_id_unat [OF L refl this] lt'
  show "\<exists>b. compute_batch_id h e p = Some b \<and> b < eff"
    by (auto simp: word_less_nat_alt)
qed

lemma epoch_change_continuous_witness:
  "compute_batch_id 160 example_epoch example_params = Some 13 \<and>
   compute_batch_id 160 (compute_new_epoch example_epoch example_params 13)
     (example_params\<lparr>blocks_per_batch := 25\<rparr>) = Some 13"
proof -
  have a: "anchor_block (compute_new_epoch example_epoch example_params 13) = 160"
    by (simp add: compute_new_epoch_def example_epoch_def example_params_def saturating_sub_def)
  show ?thesis
    using epoch_change_continuous [of example_params "example_params\<lparr>blocks_per_batch := 25\<rparr>"
        example_epoch 13] a
    by (simp add: params_ok_def example_params_def example_epoch_def)
qed

end
