(* ===== verification/Matching.thy ===== *)
theory Matching
  imports Crypto
begin

text \<open>
  \<open>crates/matching/src/lib.rs\<close>: the deterministic matching engine. Orders are sorted per
  symbol (\<open>sort_orders\<close>), a two-pointer walk over the sorted books emits the matches
  (\<open>generate_matches\<close>), and \<open>run_matching\<close> runs it symbol by symbol in sorted symbol order.
  The loop variables of the walk are the record \<open>walk\<close>; one iteration is \<open>walk_step\<close>
  (\<open>None\<close> is the \<open>break\<close>), and \<open>match_loop\<close> is the \<open>while\<close> loop, total by the measure
  that counts the orders not yet passed.
\<close>

record revealed_order =
  r_order :: order
  r_signature :: bytes
  r_order_hash :: bytes

record match_rec =
  m_batch_id :: u64
  m_pool_id :: u64
  m_symbol :: bytes
  buyer :: revealed_order
  seller :: revealed_order
  fill_quantity :: u64
  settlement_price :: u64
  match_hash :: bytes
  gas_payer_nft_id :: u64

record market_config =
  mc_symbol :: bytes
  mc_min_quantity :: u64

record matching_input =
  mi_batch_id :: u64
  mi_pool_id :: u64
  mi_reveals :: "revealed_order list"
  mi_markets :: "market_config list"

abbreviation r_price :: "revealed_order \<Rightarrow> u64" where "r_price r \<equiv> o_price (r_order r)"
abbreviation r_nft :: "revealed_order \<Rightarrow> u64" where "r_nft r \<equiv> o_nft_id (r_order r)"
abbreviation r_qty :: "revealed_order \<Rightarrow> u64" where "r_qty r \<equiv> o_quantity (r_order r)"
abbreviation r_symbol :: "revealed_order \<Rightarrow> bytes" where "r_symbol r \<equiv> o_symbol (r_order r)"
abbreviation r_side :: "revealed_order \<Rightarrow> u8" where "r_side r \<equiv> o_side (r_order r)"

section \<open>Sorting\<close>

definition buy_le :: "revealed_order \<Rightarrow> revealed_order \<Rightarrow> bool" where
  "buy_le a b = (r_price b < r_price a \<or> r_price a = r_price b \<and> r_order_hash a \<le> r_order_hash b)"

definition sell_le :: "revealed_order \<Rightarrow> revealed_order \<Rightarrow> bool" where
  "sell_le a b = (r_price a < r_price b \<or> r_price a = r_price b \<and> r_order_hash a \<le> r_order_hash b)"

definition sort_orders ::
  "revealed_order list \<Rightarrow> revealed_order list \<Rightarrow> revealed_order list \<times> revealed_order list" where
  "sort_orders buys sells = (sort_by buy_le buys, sort_by sell_le sells)"

section \<open>The walk over the sorted books\<close>

definition determine_gas_payer :: "bytes \<Rightarrow> bytes \<Rightarrow> u64 \<Rightarrow> u64 \<Rightarrow> u64" where
  "determine_gas_payer buyer_hash seller_hash buyer_nft_id seller_nft_id =
     (if buyer_hash < seller_hash then buyer_nft_id else seller_nft_id)"

record walk =
  buy_idx :: nat
  sell_idx :: nat
  buy_remaining :: u64
  sell_remaining :: u64

text \<open>\<open>xs.get(i).map(|o| o.order.quantity).unwrap_or(0)\<close>\<close>

definition quantity_at :: "revealed_order list \<Rightarrow> nat \<Rightarrow> u64" where
  "quantity_at xs i = (if i < length xs then r_qty (xs ! i) else 0)"

definition advance_buy :: "revealed_order list \<Rightarrow> walk \<Rightarrow> walk" where
  "advance_buy buys w =
     w\<lparr>buy_idx := Suc (buy_idx w), buy_remaining := quantity_at buys (Suc (buy_idx w))\<rparr>"

definition advance_sell :: "revealed_order list \<Rightarrow> walk \<Rightarrow> walk" where
  "advance_sell sells w =
     w\<lparr>sell_idx := Suc (sell_idx w), sell_remaining := quantity_at sells (Suc (sell_idx w))\<rparr>"

definition consume :: "revealed_order list \<Rightarrow> revealed_order list \<Rightarrow> u64 \<Rightarrow> walk \<Rightarrow> walk" where
  "consume buys sells fill_qty w =
     (let w1 = w\<lparr>buy_remaining := buy_remaining w - fill_qty,
                 sell_remaining := sell_remaining w - fill_qty\<rparr>;
          w2 = (if buy_remaining w1 = 0 then advance_buy buys w1 else w1)
      in if sell_remaining w2 = 0 then advance_sell sells w2 else w2)"

definition mk_match ::
  "crypto \<Rightarrow> u64 \<Rightarrow> u64 \<Rightarrow> bytes \<Rightarrow> revealed_order \<Rightarrow> revealed_order \<Rightarrow> u64 \<Rightarrow> match_rec" where
  "mk_match C batch_id pool_id symbol b s fill_qty =
     \<lparr>m_batch_id = batch_id, m_pool_id = pool_id, m_symbol = symbol, buyer = b, seller = s,
      fill_quantity = fill_qty,
      settlement_price = (r_price b + r_price s) div 2,
      match_hash = compute_match_hash C batch_id (r_order_hash b) (r_order_hash s) fill_qty,
      gas_payer_nft_id =
        determine_gas_payer (r_order_hash b) (r_order_hash s) (r_nft b) (r_nft s)\<rparr>"

definition walk_step ::
  "crypto \<Rightarrow> u64 \<Rightarrow> u64 \<Rightarrow> bytes \<Rightarrow> revealed_order list \<Rightarrow> revealed_order list \<Rightarrow> u64 \<Rightarrow> walk
    \<Rightarrow> (walk \<times> match_rec option) option" where
  "walk_step C batch_id pool_id symbol buys sells min_quantity w =
     (let b = buys ! buy_idx w; s = sells ! sell_idx w in
      if r_price b < r_price s then None
      else if r_nft b = r_nft s then
        (let buy_has_alt = list_ex (\<lambda>s'. r_price s' \<le> r_price b \<and> r_nft b \<noteq> r_nft s')
               (drop (sell_idx w) sells);
             sell_has_alt = list_ex (\<lambda>b'. r_price s \<le> r_price b' \<and> r_nft b' \<noteq> r_nft s)
               (drop (buy_idx w) buys)
         in if buy_has_alt \<and> \<not> sell_has_alt then Some (advance_sell sells w, None)
            else Some (advance_buy buys w, None))
      else
        (let fill_qty = min (buy_remaining w) (sell_remaining w) in
         if fill_qty < min_quantity then
           (if buy_remaining w \<le> sell_remaining w then Some (advance_buy buys w, None)
            else Some (advance_sell sells w, None))
         else Some (consume buys sells fill_qty w,
                Some (mk_match C batch_id pool_id symbol b s fill_qty))))"

definition in_books :: "revealed_order list \<Rightarrow> revealed_order list \<Rightarrow> walk \<Rightarrow> bool" where
  "in_books buys sells w = (buy_idx w < length buys \<and> sell_idx w < length sells)"

definition orders_left :: "revealed_order list \<Rightarrow> revealed_order list \<Rightarrow> walk \<Rightarrow> nat" where
  "orders_left buys sells w = (length buys - buy_idx w) + (length sells - sell_idx w)"

lemmas walk_defs = advance_buy_def advance_sell_def consume_def Let_def

lemma consume_min:
  "consume buys sells (min (buy_remaining w) (sell_remaining w)) w =
    (if buy_remaining w \<le> sell_remaining w then
       (if sell_remaining w = buy_remaining w then
          advance_sell sells (advance_buy buys (w\<lparr>sell_remaining := 0\<rparr>))
        else advance_buy buys (w\<lparr>sell_remaining := sell_remaining w - buy_remaining w\<rparr>))
     else advance_sell sells (w\<lparr>buy_remaining := buy_remaining w - sell_remaining w\<rparr>))"
  by (auto simp: walk_defs min_def)

lemma walk_step_cases:
  assumes "walk_step C bid pid symb buys sells q w = Some (w', em)"
  obtains (skip_buy) "em = None" "w' = advance_buy buys w"
  | (skip_sell) "em = None" "w' = advance_sell sells w"
  | (fill) fq where "fq = min (buy_remaining w) (sell_remaining w)" "q \<le> fq"
      "r_price (sells ! sell_idx w) \<le> r_price (buys ! buy_idx w)"
      "r_nft (buys ! buy_idx w) \<noteq> r_nft (sells ! sell_idx w)"
      "w' = consume buys sells fq w"
      "em = Some (mk_match C bid pid symb (buys ! buy_idx w) (sells ! sell_idx w) fq)"
  using assms by (auto simp: walk_step_def Let_def not_less split: if_splits)

lemma orders_left_advance:
  "in_books buys sells w \<Longrightarrow> orders_left buys sells (advance_buy buys w) < orders_left buys sells w"
  "in_books buys sells w \<Longrightarrow> orders_left buys sells (advance_sell sells w) < orders_left buys sells w"
  by (auto simp: in_books_def orders_left_def walk_defs)

lemma orders_left_consume:
  "in_books buys sells w \<Longrightarrow>
    orders_left buys sells (consume buys sells (min (buy_remaining w) (sell_remaining w)) w)
      < orders_left buys sells w"
  unfolding consume_min by (auto simp: in_books_def orders_left_def walk_defs)

lemma orders_left_step:
  "walk_step C bid pid symb buys sells q w = Some (w', em) \<Longrightarrow> in_books buys sells w \<Longrightarrow>
    orders_left buys sells w' < orders_left buys sells w"
  by (erule walk_step_cases) (simp_all add: orders_left_advance orders_left_consume)

function match_loop ::
  "crypto \<Rightarrow> u64 \<Rightarrow> u64 \<Rightarrow> bytes \<Rightarrow> revealed_order list \<Rightarrow> revealed_order list \<Rightarrow> u64 \<Rightarrow> walk
    \<Rightarrow> match_rec list" where
  "match_loop C batch_id pool_id symbol buys sells min_quantity w =
     (if in_books buys sells w then
        (case walk_step C batch_id pool_id symbol buys sells min_quantity w of
           None \<Rightarrow> []
         | Some (w', None) \<Rightarrow> match_loop C batch_id pool_id symbol buys sells min_quantity w'
         | Some (w', Some m) \<Rightarrow> m # match_loop C batch_id pool_id symbol buys sells min_quantity w')
      else [])"
  by pat_completeness auto
termination
  by (relation "measure (\<lambda>(_, _, _, _, buys, sells, _, w). orders_left buys sells w)")
    (auto simp: orders_left_step)

declare match_loop.simps [simp del]

definition generate_matches ::
  "crypto \<Rightarrow> u64 \<Rightarrow> u64 \<Rightarrow> bytes \<Rightarrow> revealed_order list \<Rightarrow> revealed_order list \<Rightarrow> u64
    \<Rightarrow> match_rec list" where
  "generate_matches C batch_id pool_id symbol buys sells min_quantity =
     (if buys = [] \<or> sells = [] then []
      else match_loop C batch_id pool_id symbol buys sells min_quantity
        \<lparr>buy_idx = 0, sell_idx = 0, buy_remaining = r_qty (buys ! 0),
         sell_remaining = r_qty (sells ! 0)\<rparr>)"

section \<open>All symbols\<close>

definition group_by_symbol :: "revealed_order list \<Rightarrow> (bytes, revealed_order list) hmap" where
  "group_by_symbol reveals =
     foldl (\<lambda>by_symbol reveal. hm_insert (r_symbol reveal)
              (hm_get_or [] by_symbol (r_symbol reveal) @ [reveal]) by_symbol) [] reveals"

definition match_symbol ::
  "crypto \<Rightarrow> u64 \<Rightarrow> u64 \<Rightarrow> (bytes, u64) hmap \<Rightarrow> (bytes, revealed_order list) hmap \<Rightarrow> bytes
    \<Rightarrow> match_rec list" where
  "match_symbol C batch_id pool_id market_map by_symbol symbol =
     (case hm_get market_map symbol of
        None \<Rightarrow> []
      | Some min_quantity \<Rightarrow>
          (let reveals = hm_get_or [] by_symbol symbol;
               (buys, sells) = sort_orders (filter (\<lambda>r. r_side r = 1) reveals)
                                           (filter (\<lambda>r. r_side r = 0) reveals)
           in generate_matches C batch_id pool_id symbol buys sells min_quantity))"

definition run_matching :: "crypto \<Rightarrow> matching_input \<Rightarrow> match_rec list" where
  "run_matching C inp =
     (let market_map = hm_collect (map (\<lambda>m. (mc_symbol m, mc_min_quantity m)) (mi_markets inp));
          by_symbol = group_by_symbol (mi_reveals inp);
          symbols = sort (hm_keys by_symbol)
      in concat (map (match_symbol C (mi_batch_id inp) (mi_pool_id inp) market_map by_symbol) symbols))"

definition compute_order_hash :: "crypto \<Rightarrow> order \<Rightarrow> bytes option" where
  "compute_order_hash C ord =
     (case encode_order C ord of Inl _ \<Rightarrow> None | Inr b \<Rightarrow> Some (sha256 C b))"

section \<open>What one run of the walk emits\<close>

text \<open>Case analysis of the loop: it stops, skips one order, or emits a match.\<close>

lemma match_loop_induct [consumes 0, case_names stop skip emit]:
  assumes stop: "\<And>w. match_loop C bid pid symb buys sells q w = [] \<Longrightarrow>
      (in_books buys sells w \<Longrightarrow> r_price (buys ! buy_idx w) < r_price (sells ! sell_idx w)) \<Longrightarrow> P w"
    and skip: "\<And>w w'. in_books buys sells w \<Longrightarrow>
      walk_step C bid pid symb buys sells q w = Some (w', None) \<Longrightarrow>
      match_loop C bid pid symb buys sells q w = match_loop C bid pid symb buys sells q w' \<Longrightarrow>
      w' = advance_buy buys w \<or> w' = advance_sell sells w \<Longrightarrow> P w' \<Longrightarrow> P w"
    and emit: "\<And>w fq. in_books buys sells w \<Longrightarrow>
      fq = min (buy_remaining w) (sell_remaining w) \<Longrightarrow> q \<le> fq \<Longrightarrow>
      r_price (sells ! sell_idx w) \<le> r_price (buys ! buy_idx w) \<Longrightarrow>
      r_nft (buys ! buy_idx w) \<noteq> r_nft (sells ! sell_idx w) \<Longrightarrow>
      match_loop C bid pid symb buys sells q w =
        mk_match C bid pid symb (buys ! buy_idx w) (sells ! sell_idx w) fq #
        match_loop C bid pid symb buys sells q (consume buys sells fq w) \<Longrightarrow>
      P (consume buys sells fq w) \<Longrightarrow> P w"
  shows "P w"
proof (induction "orders_left buys sells w" arbitrary: w rule: less_induct)
  case less
  show ?case
  proof (cases "in_books buys sells w")
    case False
    then show ?thesis by (intro stop) (simp_all add: match_loop.simps)
  next
    case True
    show ?thesis
    proof (cases "walk_step C bid pid symb buys sells q w")
      case None
      with True show ?thesis
        by (intro stop) (auto simp: match_loop.simps walk_step_def Let_def split: if_splits)
    next
      case (Some p)
      then obtain w' em where st: "walk_step C bid pid symb buys sells q w = Some (w', em)"
        by (cases p) auto
      have IH: "P w'" by (rule less) (rule orders_left_step [OF st True])
      from st show ?thesis
      proof (cases rule: walk_step_cases)
        case skip_buy
        with st True IH show ?thesis by (intro skip [of w w']) (simp_all add: match_loop.simps [of C bid pid symb buys sells q w])
      next
        case skip_sell
        with st True IH show ?thesis by (intro skip [of w w']) (simp_all add: match_loop.simps [of C bid pid symb buys sells q w])
      next
        case (fill fq)
        with st True IH show ?thesis
          by (intro emit [of w fq]) (simp_all add: match_loop.simps [of C bid pid symb buys sells q w])
      qed
    qed
  qed
qed

lemma idx_mono_advance:
  "buy_idx w \<le> buy_idx (advance_buy buys w)" "sell_idx (advance_buy buys w) = sell_idx w"
  "buy_idx (advance_sell sells w) = buy_idx w" "sell_idx w \<le> sell_idx (advance_sell sells w)"
  by (simp_all add: walk_defs)

lemma idx_mono_consume:
  "buy_idx w \<le> buy_idx (consume buys sells f w)" "sell_idx w \<le> sell_idx (consume buys sells f w)"
  by (auto simp: walk_defs)

definition match_of :: "crypto \<Rightarrow> u64 \<Rightarrow> u64 \<Rightarrow> bytes \<Rightarrow> revealed_order list \<Rightarrow> revealed_order list
    \<Rightarrow> u64 \<Rightarrow> nat \<Rightarrow> nat \<Rightarrow> match_rec \<Rightarrow> bool" where
  "match_of C bid pid symb buys sells q lo_b lo_s m = (\<exists>i j f. lo_b \<le> i \<and> i < length buys \<and>
     lo_s \<le> j \<and> j < length sells \<and> q \<le> f \<and> r_price (sells ! j) \<le> r_price (buys ! i) \<and>
     r_nft (buys ! i) \<noteq> r_nft (sells ! j) \<and> m = mk_match C bid pid symb (buys ! i) (sells ! j) f)"

lemma match_of_mono:
  "match_of C bid pid symb buys sells q i j m \<Longrightarrow> i' \<le> i \<Longrightarrow> j' \<le> j \<Longrightarrow>
    match_of C bid pid symb buys sells q i' j' m"
  unfolding match_of_def by (blast intro: le_trans)

lemma match_loop_sound:
  "m \<in> set (match_loop C bid pid symb buys sells q w) \<Longrightarrow>
    match_of C bid pid symb buys sells q (buy_idx w) (sell_idx w) m"
proof (induction w rule: match_loop_induct [where C = C and bid = bid and pid = pid and symb = symb
      and buys = buys and sells = sells and q = q])
  case (stop w)
  then show ?case by simp
next
  case (skip w w')
  then have "match_of C bid pid symb buys sells q (buy_idx w') (sell_idx w') m" by simp
  moreover have "buy_idx w \<le> buy_idx w'" "sell_idx w \<le> sell_idx w'"
    using skip(4) by (auto simp: walk_defs)
  ultimately show ?case by (rule match_of_mono)
next
  case (emit w fq)
  show ?case
  proof (cases "m \<in> set (match_loop C bid pid symb buys sells q (consume buys sells fq w))")
    case True
    with emit(7) show ?thesis by (blast intro: match_of_mono idx_mono_consume)
  next
    case False
    with emit show ?thesis
      unfolding match_of_def in_books_def
      by (intro exI [of _ "buy_idx w"] exI [of _ "sell_idx w"] exI [of _ fq]) simp
  qed
qed

lemma length_match_loop:
  "length (match_loop C bid pid symb buys sells q w) \<le> orders_left buys sells w - 1"
proof (induction w rule: match_loop_induct [where C = C and bid = bid and pid = pid and symb = symb
      and buys = buys and sells = sells and q = q])
  case (stop w)
  then show ?case by simp
next
  case (skip w w')
  have "orders_left buys sells w' < orders_left buys sells w"
    using skip(2,1) by (rule orders_left_step)
  with skip show ?case by simp
next
  case (emit w fq)
  have lt: "orders_left buys sells (consume buys sells fq w) < orders_left buys sells w"
    using orders_left_consume [OF emit(1)] emit(2) by simp
  have two: "2 \<le> orders_left buys sells w"
    using emit(1) by (auto simp: in_books_def orders_left_def)
  show ?case
  proof (cases "orders_left buys sells (consume buys sells fq w) = 0")
    case True
    then have "match_loop C bid pid symb buys sells q (consume buys sells fq w) = []"
      by (simp add: match_loop.simps in_books_def orders_left_def)
    with two emit(6) show ?thesis by simp
  next
    case False
    with emit(6,7) lt show ?thesis by simp
  qed
qed

section \<open>No order is filled beyond its quantity\<close>

definition bought :: "bytes \<Rightarrow> match_rec list \<Rightarrow> nat" where
  "bought h ms = (\<Sum>m\<leftarrow>ms. if r_order_hash (buyer m) = h then unat (fill_quantity m) else 0)"

definition sold :: "bytes \<Rightarrow> match_rec list \<Rightarrow> nat" where
  "sold h ms = (\<Sum>m\<leftarrow>ms. if r_order_hash (seller m) = h then unat (fill_quantity m) else 0)"

lemma bought_simps [simp]:
  "bought h [] = 0"
  "bought h (m # ms) = (if r_order_hash (buyer m) = h then unat (fill_quantity m) else 0) + bought h ms"
  "bought h (ms @ ns) = bought h ms + bought h ns"
  by (simp_all add: bought_def)

lemma sold_simps [simp]:
  "sold h [] = 0"
  "sold h (m # ms) = (if r_order_hash (seller m) = h then unat (fill_quantity m) else 0) + sold h ms"
  "sold h (ms @ ns) = sold h ms + sold h ns"
  by (simp_all add: sold_def)

lemma mk_match_simps [simp]:
  "buyer (mk_match C bid pid symb b s f) = b" "seller (mk_match C bid pid symb b s f) = s"
  "fill_quantity (mk_match C bid pid symb b s f) = f"
  "m_symbol (mk_match C bid pid symb b s f) = symb"
  "m_batch_id (mk_match C bid pid symb b s f) = bid"
  "m_pool_id (mk_match C bid pid symb b s f) = pid"
  by (simp_all add: mk_match_def)

text \<open>What is left of order \<open>i\<close> at a state of the walk.\<close>

definition buy_left :: "revealed_order list \<Rightarrow> walk \<Rightarrow> nat \<Rightarrow> nat" where
  "buy_left buys w i = (if i < buy_idx w then 0
     else if i = buy_idx w then unat (buy_remaining w) else unat (quantity_at buys i))"

definition sell_left :: "revealed_order list \<Rightarrow> walk \<Rightarrow> nat \<Rightarrow> nat" where
  "sell_left sells w i = (if i < sell_idx w then 0
     else if i = sell_idx w then unat (sell_remaining w) else unat (quantity_at sells i))"

lemma left_advance:
  "buy_left buys (advance_buy buys w) i \<le> buy_left buys w i"
  "sell_left sells (advance_buy buys w) = sell_left sells w"
  "buy_left buys (advance_sell sells w) = buy_left buys w"
  "sell_left sells (advance_sell sells w) i \<le> sell_left sells w i"
  by (auto simp: buy_left_def sell_left_def walk_defs fun_eq_iff)

lemma left_consume:
  assumes "fq = min (buy_remaining w) (sell_remaining w)"
  shows "buy_left buys (consume buys sells fq w) i + (if i = buy_idx w then unat fq else 0)
      = buy_left buys w i"
    and "sell_left sells (consume buys sells fq w) i + (if i = sell_idx w then unat fq else 0)
      = sell_left sells w i"
  unfolding assms consume_min
  by (auto simp: buy_left_def sell_left_def walk_defs min_def unat_sub word_le_nat_alt not_le)

lemma hash_index:
  "distinct (map r_order_hash xs) \<Longrightarrow> i < length xs \<Longrightarrow> j < length xs \<Longrightarrow>
    r_order_hash (xs ! i) = r_order_hash (xs ! j) \<longleftrightarrow> i = j"
  by (metis length_map nth_eq_iff_index_eq nth_map)

lemma bought_le_left:
  assumes "distinct (map r_order_hash buys)" "i < length buys"
  shows "bought (r_order_hash (buys ! i)) (match_loop C bid pid symb buys sells q w) \<le> buy_left buys w i"
proof (induction w rule: match_loop_induct [where C = C and bid = bid and pid = pid and symb = symb
      and buys = buys and sells = sells and q = q])
  case (stop w)
  then show ?case by simp
next
  case (skip w w')
  have "buy_left buys w' i \<le> buy_left buys w i"
    using skip(4) left_advance(1,3) by auto
  with skip show ?case by simp
next
  case (emit w fq)
  have "r_order_hash (buys ! buy_idx w) = r_order_hash (buys ! i) \<longleftrightarrow> i = buy_idx w"
    using hash_index [OF assms(1) _ assms(2)] emit(1) by (auto simp: in_books_def)
  with emit(6,7) left_consume(1) [OF emit(2), of buys sells i] show ?case
    by (auto split: if_splits)
qed

lemma sold_le_left:
  assumes "distinct (map r_order_hash sells)" "i < length sells"
  shows "sold (r_order_hash (sells ! i)) (match_loop C bid pid symb buys sells q w) \<le> sell_left sells w i"
proof (induction w rule: match_loop_induct [where C = C and bid = bid and pid = pid and symb = symb
      and buys = buys and sells = sells and q = q])
  case (stop w)
  then show ?case by simp
next
  case (skip w w')
  have "sell_left sells w' i \<le> sell_left sells w i"
    using skip(4) left_advance(2,4) by auto
  with skip show ?case by simp
next
  case (emit w fq)
  have "r_order_hash (sells ! sell_idx w) = r_order_hash (sells ! i) \<longleftrightarrow> i = sell_idx w"
    using hash_index [OF assms(1) _ assms(2)] emit(1) by (auto simp: in_books_def)
  with emit(6,7) left_consume(2) [OF emit(2), where i = i and sells = sells and buys = buys] show ?case
    by (auto split: if_splits)
qed

section \<open>No crossing pair is left behind\<close>

text \<open>Where no NFT stands on both sides, a crossing pair of orders ends with one of the two filled
  up to a rest below the market's minimum (up to nothing when the minimum is at most one).\<close>

lemma sorted_buy_prices:
  assumes "sorted_wrt buy_le buys" "i \<le> j" "j < length buys"
  shows "r_price (buys ! j) \<le> r_price (buys ! i)"
proof (cases "i = j")
  case False
  with assms have "buy_le (buys ! i) (buys ! j)" by (auto intro: sorted_wrt_nth_less)
  then show ?thesis by (auto simp: buy_le_def)
qed simp

lemma sorted_sell_prices:
  assumes "sorted_wrt sell_le sells" "i \<le> j" "j < length sells"
  shows "r_price (sells ! i) \<le> r_price (sells ! j)"
proof (cases "i = j")
  case False
  with assms have "sell_le (sells ! i) (sells ! j)" by (auto intro: sorted_wrt_nth_less)
  then show ?thesis by (auto simp: sell_le_def)
qed simp

lemma left_beyond:
  "buy_idx w < i \<Longrightarrow> buy_left buys (advance_buy buys w) i = buy_left buys w i"
  "sell_idx w < j \<Longrightarrow> sell_left sells (advance_sell sells w) j = sell_left sells w j"
  by (auto simp: buy_left_def sell_left_def walk_defs)

lemma no_crossing_left:
  assumes hb: "distinct (map r_order_hash buys)" and hs: "distinct (map r_order_hash sells)"
    and sb: "sorted_wrt buy_le buys" and ss: "sorted_wrt sell_le sells"
    and nft: "\<And>b s. b \<in> set buys \<Longrightarrow> s \<in> set sells \<Longrightarrow> r_nft b \<noteq> r_nft s"
  shows "i < length buys \<Longrightarrow> j < length sells \<Longrightarrow>
    buy_idx w \<le> i \<Longrightarrow> sell_idx w \<le> j \<Longrightarrow> r_price (sells ! j) \<le> r_price (buys ! i) \<Longrightarrow>
    buy_left buys w i < bought (r_order_hash (buys ! i)) (match_loop C bid pid symb buys sells q w)
      + max 1 (unat q) \<or>
    sell_left sells w j < sold (r_order_hash (sells ! j)) (match_loop C bid pid symb buys sells q w)
      + max 1 (unat q)"
proof (induction w rule: match_loop_induct [where C = C and bid = bid and pid = pid and symb = symb
      and buys = buys and sells = sells and q = q])
  case (stop w)
  have "in_books buys sells w" using stop.prems by (auto simp: in_books_def)
  then have lt: "r_price (buys ! buy_idx w) < r_price (sells ! sell_idx w)" by (rule stop(2))
  have "r_price (buys ! i) \<le> r_price (buys ! buy_idx w)"
    by (rule sorted_buy_prices [OF sb stop.prems(3,1)])
  moreover have "r_price (sells ! sell_idx w) \<le> r_price (sells ! j)"
    by (rule sorted_sell_prices [OF ss stop.prems(4,2)])
  ultimately show ?case using lt stop.prems(5) by (meson leD order_trans)
next
  case (skip w w')
  have ib: "buys ! buy_idx w \<in> set buys" "sells ! sell_idx w \<in> set sells"
    using skip(1) by (auto simp: in_books_def)
  from skip(2) nft [OF ib] consider
      (b) "buy_remaining w < q" "w' = advance_buy buys w"
    | (s) "sell_remaining w < q" "w' = advance_sell sells w"
    by (auto simp: walk_step_def Let_def min_def split: if_splits)
  then show ?case
  proof cases
    case b
    show ?thesis
    proof (cases "i = buy_idx w")
      case True
      with b show ?thesis by (auto simp: buy_left_def word_less_nat_alt)
    next
      case False
      with skip.prems(3) have i: "buy_idx w < i" by simp
      then show ?thesis
        using skip(3,5) skip.prems by (auto simp: b(2) left_beyond(1) left_advance(2))
          (auto simp: walk_defs)
    qed
  next
    case s
    show ?thesis
    proof (cases "j = sell_idx w")
      case True
      with s show ?thesis by (auto simp: sell_left_def word_less_nat_alt)
    next
      case False
      with skip.prems(4) have "sell_idx w < j" by simp
      then show ?thesis
        using skip(3,5) skip.prems by (auto simp: s(2) left_beyond(2) left_advance(3))
          (auto simp: walk_defs)
    qed
  qed
next
  case (emit w fq)
  let ?w = "consume buys sells fq w" and ?i = "buy_idx w" and ?j = "sell_idx w"
  let ?ms = "match_loop C bid pid symb buys sells q ?w"
  have hi: "r_order_hash (buys ! ?i) = r_order_hash (buys ! i) \<longleftrightarrow> i = ?i"
    using hash_index [OF hb, of ?i i] emit(1) emit.prems(1) by (auto simp: in_books_def)
  have hj: "r_order_hash (sells ! ?j) = r_order_hash (sells ! j) \<longleftrightarrow> j = ?j"
    using hash_index [OF hs, of ?j j] emit(1) emit.prems(2) by (auto simp: in_books_def)
  note lb = left_consume(1) [OF emit(2), of buys sells i]
  note ls = left_consume(2) [OF emit(2), where i = j and sells = sells and buys = buys]
  consider (b) "i < buy_idx ?w" | (s) "j < sell_idx ?w" | (rest) "buy_idx ?w \<le> i" "sell_idx ?w \<le> j"
    by linarith
  then show ?case
  proof cases
    case b
    then have "buy_left buys ?w i = 0" by (simp add: buy_left_def)
    with bought_le_left [OF hb, of i C bid pid symb sells q ?w] lb hi emit(6) emit.prems show ?thesis
      by auto
  next
    case s
    then have "sell_left sells ?w j = 0" by (simp add: sell_left_def)
    with sold_le_left [OF hs, of j C bid pid symb buys q ?w] ls hj emit(6) emit.prems show ?thesis
      by auto
  next
    case rest
    from emit(7) [OF emit.prems(1,2) rest emit.prems(5)] lb ls hi hj emit(6)
    show ?thesis by auto
  qed
qed

section \<open>The whole run, symbol by symbol\<close>

definition reveals_of :: "u8 \<Rightarrow> bytes \<Rightarrow> revealed_order list \<Rightarrow> revealed_order list" where
  "reveals_of side symb rs = filter (\<lambda>r. r_symbol r = symb \<and> r_side r = side) rs"

definition market_pairs :: "market_config list \<Rightarrow> (bytes \<times> u64) list" where
  "market_pairs ms = map (\<lambda>m. (mc_symbol m, mc_min_quantity m)) ms"

definition symbol_matches ::
  "crypto \<Rightarrow> u64 \<Rightarrow> u64 \<Rightarrow> (bytes \<rightharpoonup> u64) \<Rightarrow> revealed_order list \<Rightarrow> bytes \<Rightarrow> match_rec list" where
  "symbol_matches C bid pid markets rs symb =
     (case markets symb of
        None \<Rightarrow> []
      | Some q \<Rightarrow> generate_matches C bid pid symb (sort_by buy_le (reveals_of 1 symb rs))
                    (sort_by sell_le (reveals_of 0 symb rs)) q)"

lemma group_by_symbol_snoc:
  "group_by_symbol (rs @ [r]) = hm_insert (r_symbol r)
     (hm_get_or [] (group_by_symbol rs) (r_symbol r) @ [r]) (group_by_symbol rs)"
  by (simp add: group_by_symbol_def)

lemma hm_get_or_group: "hm_get_or [] (group_by_symbol rs) s = filter (\<lambda>r. r_symbol r = s) rs"
proof (induction rs rule: rev_induct)
  case Nil
  then show ?case by (simp add: group_by_symbol_def hm_get_or_def)
next
  case (snoc r rs)
  then show ?case by (auto simp: group_by_symbol_snoc hm_get_or_def)
qed

lemma set_keys_insert: "set (hm_keys (hm_insert k v m)) = insert k (set (hm_keys m))"
  by (induction m) (auto simp: hm_keys_def hm_insert_def)

lemma hm_wf_group: "hm_wf (group_by_symbol rs)"
  by (induction rs rule: rev_induct) (simp_all add: group_by_symbol_snoc, simp add: group_by_symbol_def)

lemma keys_group: "set (hm_keys (group_by_symbol rs)) = r_symbol ` set rs"
proof (induction rs rule: rev_induct)
  case Nil
  then show ?case by (simp add: group_by_symbol_def hm_keys_def)
next
  case (snoc r rs)
  then show ?case by (simp only: group_by_symbol_snoc set_keys_insert) auto
qed

lemma sort_keys_group: "sort (hm_keys (group_by_symbol rs)) = sorted_list_of_set (r_symbol ` set rs)"
proof -
  have "distinct (hm_keys (group_by_symbol rs))"
    using hm_wf_group by (simp add: hm_wf_def hm_keys_def)
  then show ?thesis
    by (metis keys_group distinct_remdups_id sorted_list_of_set_sort_remdups)
qed

lemma match_symbol_eq:
  "match_symbol C bid pid mm (group_by_symbol rs) = symbol_matches C bid pid (hm_get mm) rs"
  by (rule ext) (simp add: match_symbol_def symbol_matches_def hm_get_or_group sort_orders_def reveals_of_def
      conj_commute split: option.split)

lemma run_matching_spec:
  "run_matching C inp = concat (map (symbol_matches C (mi_batch_id inp) (mi_pool_id inp)
     (hm_get (hm_collect (market_pairs (mi_markets inp)))) (mi_reveals inp))
     (sorted_list_of_set (r_symbol ` set (mi_reveals inp))))"
  by (simp add: run_matching_def Let_def sort_keys_group match_symbol_eq market_pairs_def)

lemma generate_matches_sound:
  assumes "m \<in> set (generate_matches C bid pid symb buys sells q)"
  shows "match_of C bid pid symb buys sells q 0 0 m"
  using assms match_loop_sound [of m C bid pid symb buys sells q
      "\<lparr>buy_idx = 0, sell_idx = 0, buy_remaining = r_qty (buys ! 0), sell_remaining = r_qty (sells ! 0)\<rparr>"]
  by (auto simp: generate_matches_def split: if_splits)

lemma match_of_elem:
  "match_of C bid pid symb buys sells q i j m \<Longrightarrow>
    buyer m \<in> set buys \<and> seller m \<in> set sells \<and> q \<le> fill_quantity m \<and>
    r_price (seller m) \<le> r_price (buyer m) \<and> r_nft (buyer m) \<noteq> r_nft (seller m) \<and>
    m = mk_match C bid pid symb (buyer m) (seller m) (fill_quantity m)"
  by (auto simp: match_of_def)

lemma symbol_matches_sound:
  assumes "m \<in> set (symbol_matches C bid pid mk rs s)"
  obtains q where "mk s = Some q" "q \<le> fill_quantity m"
    "buyer m \<in> set (reveals_of 1 s rs)" "seller m \<in> set (reveals_of 0 s rs)"
    "r_price (seller m) \<le> r_price (buyer m)" "r_nft (buyer m) \<noteq> r_nft (seller m)"
    "m = mk_match C bid pid s (buyer m) (seller m) (fill_quantity m)"
proof -
  from assms obtain q where q: "mk s = Some q"
    and m: "m \<in> set (generate_matches C bid pid s (sort_by buy_le (reveals_of 1 s rs))
      (sort_by sell_le (reveals_of 0 s rs)) q)"
    by (cases "mk s") (auto simp: symbol_matches_def)
  from match_of_elem [OF generate_matches_sound [OF m]] show ?thesis
    by (intro that [OF q]) simp_all
qed

lemma hm_get_collect_distinct:
  "distinct (map fst kvs) \<Longrightarrow> hm_get (hm_collect kvs) = map_of kvs"
proof (induction kvs rule: rev_induct)
  case Nil
  then show ?case by (simp add: hm_collect_def)
next
  case (snoc kv kvs)
  then have "hm_get (hm_collect (kvs @ [kv])) = (map_of kvs)(fst kv \<mapsto> snd kv)"
    by (simp add: hm_collect_def case_prod_unfold)
  with snoc.prems show ?case
    by (auto simp: fun_eq_iff map_add_def map_of_eq_None_iff [symmetric] split: option.split)
qed

lemma map_of_perm:
  assumes "mset kvs = mset kvs'" "distinct (map fst kvs)"
  shows "map_of kvs = map_of kvs'"
proof -
  have "distinct (map fst kvs')"
    using assms by (metis mset_eq_imp_distinct_iff mset_map)
  moreover have "set kvs = set kvs'" using assms(1) by (metis set_mset_mset)
  ultimately show ?thesis using assms(2) by (simp add: map_of_inject_set)
qed

lemma buy_le_total: "\<not> buy_le a b \<Longrightarrow> buy_le b a"
  by (auto simp: buy_le_def)

lemma buy_le_trans: "buy_le a b \<Longrightarrow> buy_le b c \<Longrightarrow> buy_le a c"
  by (auto simp: buy_le_def)

lemma sell_le_total: "\<not> sell_le a b \<Longrightarrow> sell_le b a"
  by (auto simp: sell_le_def)

lemma sell_le_trans: "sell_le a b \<Longrightarrow> sell_le b c \<Longrightarrow> sell_le a c"
  by (auto simp: sell_le_def)

lemmas sorted_books = sorted_sort_by [OF buy_le_total buy_le_trans] sorted_sort_by [OF sell_le_total sell_le_trans]

lemma symbol_matches_perm:
  assumes "inj_on r_order_hash (set rs)" "mset rs = mset rs'"
  shows "symbol_matches C bid pid mk rs s = symbol_matches C bid pid mk rs' s"
proof -
  have perm: "mset (reveals_of sd s rs) = mset (reveals_of sd s rs')" for sd
    using assms(2) by (simp add: reveals_of_def mset_filter)
  have anti: "a = b" if "a \<in> set (reveals_of sd s rs)" "b \<in> set (reveals_of sd s rs)"
      "r_order_hash a = r_order_hash b" for a b sd
    using assms(1) that by (auto simp: reveals_of_def dest: inj_onD)
  have "sort_by buy_le (reveals_of 1 s rs) = sort_by buy_le (reveals_of 1 s rs')"
    by (rule sort_by_perm [OF buy_le_total buy_le_trans _ perm])
      (auto intro!: anti simp: buy_le_def)
  moreover have "sort_by sell_le (reveals_of 0 s rs) = sort_by sell_le (reveals_of 0 s rs')"
    by (rule sort_by_perm [OF sell_le_total sell_le_trans _ perm])
      (auto intro!: anti simp: sell_le_def)
  ultimately show ?thesis by (simp add: symbol_matches_def split: option.split)
qed

lemma initial_left:
  assumes "i < length buys" "j < length sells"
    "w = \<lparr>buy_idx = 0, sell_idx = 0, buy_remaining = r_qty (buys ! 0), sell_remaining = r_qty (sells ! 0)\<rparr>"
  shows "buy_left buys w i = unat (r_qty (buys ! i))" "sell_left sells w j = unat (r_qty (sells ! j))"
  using assms by (auto simp: buy_left_def sell_left_def quantity_at_def)

lemma generate_bought:
  assumes "distinct (map r_order_hash buys)" "b \<in> set buys"
  shows "bought (r_order_hash b) (generate_matches C bid pid symb buys sells q) \<le> unat (r_qty b)"
proof (cases "sells = []")
  case False
  then have j: "0 < length sells" by simp
  from assms(2) obtain i where i: "i < length buys" "buys ! i = b" by (auto simp: in_set_conv_nth)
  show ?thesis
    using bought_le_left [OF assms(1) i(1)] initial_left(1) [OF i(1) j refl] i False
    by (metis generate_matches_def length_greater_0_conv less_nat_zero_code not_gr_zero)
qed (simp add: generate_matches_def)

lemma generate_sold:
  assumes "distinct (map r_order_hash sells)" "s \<in> set sells"
  shows "sold (r_order_hash s) (generate_matches C bid pid symb buys sells q) \<le> unat (r_qty s)"
proof (cases "buys = []")
  case False
  then have i: "0 < length buys" by simp
  from assms(2) obtain j where j: "j < length sells" "sells ! j = s" by (auto simp: in_set_conv_nth)
  show ?thesis
    using sold_le_left [OF assms(1) j(1)] initial_left(2) [OF i j(1) refl] j False
    by (metis generate_matches_def length_greater_0_conv less_nat_zero_code not_gr_zero)
qed (simp add: generate_matches_def)

definition filled :: "bytes \<Rightarrow> match_rec list \<Rightarrow> nat" where
  "filled h ms = bought h ms + sold h ms"

lemma filled_concat: "filled h (concat xss) = (\<Sum>xs\<leftarrow>xss. filled h xs)"
  by (induction xss) (auto simp: filled_def)

lemma bought_0: "(\<And>m. m \<in> set ms \<Longrightarrow> r_order_hash (buyer m) \<noteq> h) \<Longrightarrow> bought h ms = 0"
  by (induction ms) auto

lemma sold_0: "(\<And>m. m \<in> set ms \<Longrightarrow> r_order_hash (seller m) \<noteq> h) \<Longrightarrow> sold h ms = 0"
  by (induction ms) auto

lemma sum_list_one:
  assumes "distinct ss" "\<And>s. s \<in> set ss \<Longrightarrow> s \<noteq> s0 \<Longrightarrow> f s = (0 :: nat)"
  shows "sum_list (map f ss) \<le> f s0"
  using assms
proof (induction ss)
  case (Cons s ss)
  show ?case
  proof (cases "s = s0")
    case True
    with Cons.prems have "\<forall>x\<in>set ss. f x = 0" by auto
    then have "sum_list (map f ss) = 0" by simp
    with True show ?thesis by simp
  next
    case False
    with Cons show ?thesis by simp
  qed
qed simp

lemma distinct_book:
  "distinct (map r_order_hash rs) \<Longrightarrow> distinct (map r_order_hash (sort_by le (reveals_of sd s rs)))"
  by (metis (no_types, lifting) distinct_map_filter mset_eq_imp_distinct_iff mset_map mset_sort_by
      reveals_of_def)

lemma symbol_filled:
  assumes d: "distinct (map r_order_hash rs)" and r: "r \<in> set rs"
  shows "filled (r_order_hash r) (symbol_matches C bid pid mk rs s)
    \<le> (if s = r_symbol r then unat (r_qty r) else 0)"
proof -
  let ?h = "r_order_hash r" and ?ms = "symbol_matches C bid pid mk rs s"
  have inj: "x = r" if "x \<in> set (reveals_of sd s rs)" "r_order_hash x = ?h" for x sd
    using d r that by (auto simp: reveals_of_def distinct_map dest: inj_onD)
  have nob: "bought ?h ?ms = 0" if "r \<notin> set (reveals_of 1 s rs)"
    using inj that by (intro bought_0) (auto elim!: symbol_matches_sound)
  have nos: "sold ?h ?ms = 0" if "r \<notin> set (reveals_of 0 s rs)"
    using inj that by (intro sold_0) (auto elim!: symbol_matches_sound)
  have b: "bought ?h ?ms \<le> unat (r_qty r)" if "r \<in> set (reveals_of 1 s rs)"
    using that generate_bought [OF distinct_book [OF d]]
    by (auto simp: symbol_matches_def split: option.split)
  have s: "sold ?h ?ms \<le> unat (r_qty r)" if "r \<in> set (reveals_of 0 s rs)"
    using that generate_sold [OF distinct_book [OF d]]
    by (auto simp: symbol_matches_def split: option.split)
  show ?thesis
    using nob nos b s r
    by (cases "r_side r = 1"; cases "r_side r = 0"; cases "s = r_symbol r")
      (auto simp: filled_def reveals_of_def)
qed

lemma run_matching_filled:
  assumes "distinct (map r_order_hash (mi_reveals inp))" "r \<in> set (mi_reveals inp)"
  shows "filled (r_order_hash r) (run_matching C inp) \<le> unat (r_qty r)"
proof -
  let ?f = "\<lambda>s. filled (r_order_hash r) (symbol_matches C (mi_batch_id inp) (mi_pool_id inp)
     (hm_get (hm_collect (market_pairs (mi_markets inp)))) (mi_reveals inp) s)"
  have "filled (r_order_hash r) (run_matching C inp)
      = sum_list (map ?f (sorted_list_of_set (r_symbol ` set (mi_reveals inp))))"
    by (simp add: run_matching_spec filled_concat comp_def)
  also have "\<dots> \<le> ?f (r_symbol r)"
  proof (rule sum_list_one)
    show "?f s = 0" if "s \<noteq> r_symbol r" for s
      using symbol_filled [OF assms, of C "mi_batch_id inp" "mi_pool_id inp"
          "hm_get (hm_collect (market_pairs (mi_markets inp)))" s] that
      by simp
  qed simp
  also have "\<dots> \<le> unat (r_qty r)"
    using symbol_filled [OF assms, where s = "r_symbol r"] by simp
  finally show ?thesis .
qed

section \<open>The interface its clients use\<close>

text \<open>What the batch state and the orchestrator rely on: the result is a function of the set of
  reveals, its matches are between reveals of the input, never between one NFT's own orders, and
  no order is filled beyond its quantity.\<close>

locale matching_engine =
  fixes run :: "matching_input \<Rightarrow> match_rec list"
  assumes run_perm: "inj_on r_order_hash (set (mi_reveals i)) \<Longrightarrow>
      mset (mi_reveals i) = mset (mi_reveals j) \<Longrightarrow>
      distinct (map mc_symbol (mi_markets i)) \<Longrightarrow> mset (mi_markets i) = mset (mi_markets j) \<Longrightarrow>
      mi_batch_id i = mi_batch_id j \<Longrightarrow> mi_pool_id i = mi_pool_id j \<Longrightarrow> run i = run j"
    and run_sound: "m \<in> set (run i) \<Longrightarrow> buyer m \<in> set (mi_reveals i) \<and> seller m \<in> set (mi_reveals i) \<and>
      m_batch_id m = mi_batch_id i \<and> r_nft (buyer m) \<noteq> r_nft (seller m)"
    and run_filled: "distinct (map r_order_hash (mi_reveals i)) \<Longrightarrow> r \<in> set (mi_reveals i) \<Longrightarrow>
      filled (r_order_hash r) (run i) \<le> unat (r_qty r)"
begin

lemma run_no_reveals: "mi_reveals i = [] \<Longrightarrow> run i = []"
  using run_sound [of _ i] by (cases "run i") auto

end

lemma run_matching_perm:
  assumes "inj_on r_order_hash (set (mi_reveals i))" "mset (mi_reveals i) = mset (mi_reveals j)"
    and "distinct (map mc_symbol (mi_markets i))" "mset (mi_markets i) = mset (mi_markets j)"
    and "mi_batch_id i = mi_batch_id j" "mi_pool_id i = mi_pool_id j"
  shows "run_matching C i = run_matching C j"
proof -
  have d: "distinct (map fst (market_pairs (mi_markets i)))"
    using assms(3) by (simp add: market_pairs_def comp_def)
  have p: "mset (market_pairs (mi_markets i)) = mset (market_pairs (mi_markets j))"
    using assms(4) by (simp add: market_pairs_def)
  then have "distinct (map fst (market_pairs (mi_markets j)))"
    using d by (metis mset_eq_imp_distinct_iff mset_map)
  then have mk: "hm_get (hm_collect (market_pairs (mi_markets i)))
      = hm_get (hm_collect (market_pairs (mi_markets j)))"
    using d map_of_perm [OF p d] by (simp add: hm_get_collect_distinct)
  have "set (mi_reveals i) = set (mi_reveals j)" using assms(2) by (metis set_mset_mset)
  then show ?thesis
    by (simp add: run_matching_spec mk assms(5,6) symbol_matches_perm [OF assms(1,2)] cong: map_cong)
qed

lemma run_matching_elem:
  assumes "m \<in> set (run_matching C i)"
  obtains s q where "hm_get (hm_collect (market_pairs (mi_markets i))) s = Some q"
    "q \<le> fill_quantity m" "buyer m \<in> set (reveals_of 1 s (mi_reveals i))"
    "seller m \<in> set (reveals_of 0 s (mi_reveals i))" "r_price (seller m) \<le> r_price (buyer m)"
    "r_nft (buyer m) \<noteq> r_nft (seller m)"
    "m = mk_match C (mi_batch_id i) (mi_pool_id i) s (buyer m) (seller m) (fill_quantity m)"
  using assms unfolding run_matching_spec by (auto elim!: symbol_matches_sound)

lemma run_matching_in_reveals:
  assumes "m \<in> set (run_matching C i)"
  shows "buyer m \<in> set (mi_reveals i) \<and> seller m \<in> set (mi_reveals i) \<and>
    m_batch_id m = mi_batch_id i \<and> r_nft (buyer m) \<noteq> r_nft (seller m)"
proof -
  from assms obtain s where "buyer m \<in> set (reveals_of 1 s (mi_reveals i))"
    "seller m \<in> set (reveals_of 0 s (mi_reveals i))" "r_nft (buyer m) \<noteq> r_nft (seller m)"
    "m = mk_match C (mi_batch_id i) (mi_pool_id i) s (buyer m) (seller m) (fill_quantity m)"
    by (rule run_matching_elem)
  then show ?thesis by (auto simp: reveals_of_def) (metis mk_match_simps(5))
qed

interpretation engine: matching_engine "run_matching C" for C
  by unfold_locales (rule run_matching_perm run_matching_in_reveals run_matching_filled; assumption)+

section \<open>Properties\<close>

definition example_reveal :: "u64 \<Rightarrow> u8 \<Rightarrow> u64 \<Rightarrow> u64 \<Rightarrow> u8 \<Rightarrow> revealed_order" where
  "example_reveal nft side price qty h =
     \<lparr>r_order = \<lparr>o_nft_id = nft, o_symbol = [69, 47, 75], o_side = side, o_price = price,
        o_quantity = qty, o_batch_id = 100, o_nonce = [h]\<rparr>,
      r_signature = replicate 64 0, r_order_hash = [h]\<rparr>"

definition example_input :: "revealed_order list \<Rightarrow> matching_input" where
  "example_input rs = \<lparr>mi_batch_id = 100, mi_pool_id = 3, mi_reveals = rs,
     mi_markets = [\<lparr>mc_symbol = [69, 47, 75], mc_min_quantity = 1\<rparr>]\<rparr>"

lemmas example_matching_simps = example_reveal_def example_input_def run_matching_spec market_pairs_def
  hm_collect_def hm_insert_def symbol_matches_def reveals_of_def buy_le_def sell_le_def
  generate_matches_def match_loop.simps walk_step_def in_books_def consume_def advance_buy_def
  advance_sell_def quantity_at_def

text \<open>
  C24. Matching is deterministic across nodes: two nodes that hold the same revealed orders in any
  order (no two different reveals with the same order hash), the same market configurations in any
  order and the same batch and pool compute the same match list, element by element.
\<close>

theorem matching_deterministic:
  assumes "inj_on r_order_hash (set (mi_reveals i))" "mset (mi_reveals i) = mset (mi_reveals j)"
    and "distinct (map mc_symbol (mi_markets i))" "mset (mi_markets i) = mset (mi_markets j)"
    and "mi_batch_id i = mi_batch_id j" "mi_pool_id i = mi_pool_id j"
  shows "run_matching C i = run_matching C j"
  by (rule engine.run_perm [OF assms])

lemma matching_deterministic_witness:
  "run_matching example_crypto (example_input [example_reveal 1 1 50 10 7, example_reveal 2 0 48 4 9])
   = run_matching example_crypto (example_input [example_reveal 2 0 48 4 9, example_reveal 1 1 50 10 7])
   \<and> length (run_matching example_crypto (example_input [example_reveal 2 0 48 4 9, example_reveal 1 1 50 10 7])) = 1"
proof
  show "run_matching example_crypto (example_input [example_reveal 1 1 50 10 7, example_reveal 2 0 48 4 9])
   = run_matching example_crypto (example_input [example_reveal 2 0 48 4 9, example_reveal 1 1 50 10 7])"
    by (rule matching_deterministic) (simp_all add: example_input_def example_reveal_def add_mset_commute)
  show "length (run_matching example_crypto (example_input [example_reveal 2 0 48 4 9, example_reveal 1 1 50 10 7])) = 1"
    by (simp add: example_matching_simps)
qed

text \<open>
  C1. No order is overfilled: when the revealed orders have distinct order hashes, the fills of
  every order, summed over all matches of the run on either side, stay within its quantity.
\<close>

theorem matching_never_overfills:
  assumes "distinct (map r_order_hash (mi_reveals i))" "r \<in> set (mi_reveals i)"
  shows "filled (r_order_hash r) (run_matching C i) \<le> unat (o_quantity (r_order r))"
  by (rule engine.run_filled [OF assms])

lemma matching_never_overfills_witness:
  "filled [7] (run_matching example_crypto (example_input [example_reveal 1 1 50 10 7, example_reveal 2 0 48 4 9,
      example_reveal 3 0 49 9 5])) = 10"
proof -
  let ?i = "example_input [example_reveal 1 1 50 10 7, example_reveal 2 0 48 4 9, example_reveal 3 0 49 9 5]"
  have "filled (r_order_hash (example_reveal 1 1 50 10 7)) (run_matching example_crypto ?i)
      \<le> unat (o_quantity (r_order (example_reveal 1 1 50 10 7)))"
    by (rule matching_never_overfills) (simp_all add: example_input_def example_reveal_def)
  moreover have "10 \<le> filled [7] (run_matching example_crypto ?i)"
    by (simp add: example_matching_simps filled_def)
  ultimately show ?thesis by (simp add: example_reveal_def)
qed

text \<open>
  C6. Every match the node emits is settleable by the contract's rules: it pairs a revealed BUY
  with a revealed SELL of the match's own symbol, which is a configured market, the two NFTs differ
  (\<open>E_SELF_TRADE\<close>), the prices cross, the fill is at least the market's minimum quantity, and the
  match hash and gas payer are those of the two order hashes.
\<close>

theorem match_settleable:
  assumes "m \<in> set (run_matching C i)"
  shows "\<exists>q. hm_get (hm_collect (market_pairs (mi_markets i))) (m_symbol m) = Some q \<and>
    q \<le> fill_quantity m \<and> buyer m \<in> set (mi_reveals i) \<and> seller m \<in> set (mi_reveals i) \<and>
    r_side (buyer m) = 1 \<and> r_side (seller m) = 0 \<and>
    r_symbol (buyer m) = m_symbol m \<and> r_symbol (seller m) = m_symbol m \<and>
    r_nft (buyer m) \<noteq> r_nft (seller m) \<and> r_price (seller m) \<le> r_price (buyer m) \<and>
    match_hash m = compute_match_hash C (mi_batch_id i) (r_order_hash (buyer m))
      (r_order_hash (seller m)) (fill_quantity m) \<and>
    gas_payer_nft_id m = (if r_order_hash (buyer m) < r_order_hash (seller m)
      then r_nft (buyer m) else r_nft (seller m))"
proof -
  obtain s q where sq: "hm_get (hm_collect (market_pairs (mi_markets i))) s = Some q"
    "q \<le> fill_quantity m" "buyer m \<in> set (reveals_of 1 s (mi_reveals i))"
    "seller m \<in> set (reveals_of 0 s (mi_reveals i))" "r_price (seller m) \<le> r_price (buyer m)"
    "r_nft (buyer m) \<noteq> r_nft (seller m)"
    and m: "m = mk_match C (mi_batch_id i) (mi_pool_id i) s (buyer m) (seller m) (fill_quantity m)"
    using assms by (rule run_matching_elem)
  have "m_symbol m = s" by (subst m) simp
  moreover have "match_hash m = compute_match_hash C (mi_batch_id i) (r_order_hash (buyer m))
      (r_order_hash (seller m)) (fill_quantity m)"
    by (subst m) (simp add: mk_match_def)
  moreover have "gas_payer_nft_id m = (if r_order_hash (buyer m) < r_order_hash (seller m)
      then r_nft (buyer m) else r_nft (seller m))"
    by (subst m) (simp add: mk_match_def determine_gas_payer_def)
  ultimately show ?thesis using sq by (auto simp: reveals_of_def)
qed

lemma match_settleable_witness:
  "\<exists>m q. run_matching example_crypto (example_input [example_reveal 1 1 50 10 7, example_reveal 2 0 48 4 9]) = [m] \<and>
    hm_get (hm_collect (market_pairs (mi_markets (example_input [])))) (m_symbol m) = Some q \<and>
    q \<le> fill_quantity m"
proof -
  let ?i = "example_input [example_reveal 1 1 50 10 7, example_reveal 2 0 48 4 9]"
  obtain m where m: "run_matching example_crypto ?i = [m]" by (simp add: example_matching_simps)
  then have "m \<in> set (run_matching example_crypto ?i)" by simp
  from match_settleable [OF this] m show ?thesis by (auto simp: example_input_def)
qed

text \<open>
  The settlement price of a match lies between the seller's and the buyer's limit exactly when
  the sum of the two prices fits in 64 bits: the midpoint is computed as \<open>(b + s) / 2\<close> on \<open>u64\<close>,
  which wraps in the release profile, so two prices whose sum overflows settle below the seller's
  limit.
\<close>

theorem settlement_price_in_range:
  assumes "m \<in> set (run_matching C i)"
  shows "(r_price (seller m) \<le> settlement_price m \<and> settlement_price m \<le> r_price (buyer m))
    \<longleftrightarrow> unat (r_price (buyer m)) + unat (r_price (seller m)) < 2 ^ 64"
proof -
  let ?b = "unat (r_price (buyer m))" and ?s = "unat (r_price (seller m))"
  obtain s where cross: "r_price (seller m) \<le> r_price (buyer m)"
    and m: "m = mk_match C (mi_batch_id i) (mi_pool_id i) s (buyer m) (seller m) (fill_quantity m)"
    using assms by (rule run_matching_elem)
  have "settlement_price m = (r_price (buyer m) + r_price (seller m)) div 2"
    by (subst m) (simp add: mk_match_def)
  then have mid: "unat (settlement_price m) = ((?b + ?s) mod 2 ^ 64) div 2"
    by (simp add: unat_div unat_word_ariths)
  have le: "?s \<le> ?b" using cross by (simp add: word_le_nat_alt)
  have bb: "?b < 2 ^ 64" and sb: "?s < 2 ^ 64" using unat_bound [where 'a = 64] by auto
  show ?thesis
  proof (cases "?b + ?s < 2 ^ 64")
    case True
    then have "unat (settlement_price m) = (?b + ?s) div 2" by (simp add: mid)
    moreover have "?s \<le> (?b + ?s) div 2" "(?b + ?s) div 2 \<le> ?b" using le by presburger+
    ultimately show ?thesis using True by (simp add: word_le_nat_alt)
  next
    case False
    then have "(?b + ?s) mod 2 ^ 64 = ?b + ?s - 2 ^ 64" using bb sb by (simp add: mod_if)
    then have "unat (settlement_price m) < ?s" using bb sb False by (simp add: mid)
    with False show ?thesis by (auto simp: word_le_nat_alt)
  qed
qed

lemma settlement_price_in_range_witness:
  "\<exists>m. run_matching example_crypto (example_input [example_reveal 1 1 (2 ^ 63) 10 7,
      example_reveal 2 0 (2 ^ 63) 4 9]) = [m] \<and>
    \<not> (r_price (seller m) \<le> settlement_price m \<and> settlement_price m \<le> r_price (buyer m))"
proof -
  let ?i = "example_input [example_reveal 1 1 (2 ^ 63) 10 7, example_reveal 2 0 (2 ^ 63) 4 9]"
  obtain m where m: "run_matching example_crypto ?i = [m]" "buyer m = example_reveal 1 1 (2 ^ 63) 10 7"
      "seller m = example_reveal 2 0 (2 ^ 63) 4 9"
    by (simp add: example_matching_simps)
  then have "m \<in> set (run_matching example_crypto ?i)" by simp
  from settlement_price_in_range [OF this] m show ?thesis
    by (intro exI [of _ m]) (simp add: example_reveal_def)
qed

text \<open>
  C38. The walk leaves no trade on the table it could make. Of orders with distinct hashes, where no
  NFT quotes on both sides, take any buy and sell of the sorted books whose prices cross: what is
  left of one of the two after the run is less than the market's minimum quantity, and nothing when
  the minimum is zero or one. Both orders stay within their quantities.
\<close>

theorem no_crossing_pair_left:
  assumes "distinct (map r_order_hash bs)" "distinct (map r_order_hash ss)"
    and "\<And>b s. b \<in> set bs \<Longrightarrow> s \<in> set ss \<Longrightarrow> r_nft b \<noteq> r_nft s"
    and "b \<in> set bs" "s \<in> set ss" "r_price s \<le> r_price b"
    and "ms = generate_matches C bid pid symb (sort_by buy_le bs) (sort_by sell_le ss) q"
  shows "bought (r_order_hash b) ms \<le> unat (r_qty b) \<and> sold (r_order_hash s) ms \<le> unat (r_qty s) \<and>
    (unat (r_qty b) - bought (r_order_hash b) ms < max 1 (unat q) \<or>
     unat (r_qty s) - sold (r_order_hash s) ms < max 1 (unat q))"
proof -
  let ?B = "sort_by buy_le bs" and ?S = "sort_by sell_le ss"
  let ?w = "\<lparr>buy_idx = 0, sell_idx = 0, buy_remaining = r_qty (?B ! 0), sell_remaining = r_qty (?S ! 0)\<rparr>"
  obtain i j where i: "i < length ?B" "?B ! i = b" and j: "j < length ?S" "?S ! j = s"
    using assms(4,5) by (metis in_set_conv_nth set_sort_by)
  have ne: "?B \<noteq> []" "?S \<noteq> []"
    using i(1) j(1) by (metis length_0_conv less_nat_zero_code)+
  have d: "distinct (map r_order_hash ?B)" "distinct (map r_order_hash ?S)"
    using assms(1,2) by (metis mset_eq_imp_distinct_iff mset_map mset_sort_by)+
  have "buy_left ?B ?w i < bought (r_order_hash (?B ! i)) (match_loop C bid pid symb ?B ?S q ?w)
        + max 1 (unat q) \<or>
      sell_left ?S ?w j < sold (r_order_hash (?S ! j)) (match_loop C bid pid symb ?B ?S q ?w)
        + max 1 (unat q)"
    using assms(3,6) i j sorted_books by (intro no_crossing_left [OF d]) auto
  moreover have "bought (r_order_hash b) ms \<le> unat (r_qty b)"
    using generate_bought [OF d(1), of b] assms(4) by (simp add: assms(7))
  moreover have "sold (r_order_hash s) ms \<le> unat (r_qty s)"
    using generate_sold [OF d(2), of s] assms(5) by (simp add: assms(7))
  ultimately show ?thesis
    using i j ne
    by (auto simp: assms(7) generate_matches_def initial_left [OF i(1) j(1) refl])
qed

lemma no_crossing_pair_left_witness:
  "let ms = generate_matches example_crypto 1 1 [] (sort_by buy_le [example_reveal 1 1 50 10 7])
       (sort_by sell_le [example_reveal 2 0 48 4 9]) 3
   in bought [7] ms \<le> 10 \<and> sold [9] ms \<le> 4 \<and> (10 - bought [7] ms < 3 \<or> 4 - sold [9] ms < 3)"
  using no_crossing_pair_left [OF _ _ _ _ _ _ refl, of "[example_reveal 1 1 50 10 7]"
      "[example_reveal 2 0 48 4 9]" "example_reveal 1 1 50 10 7" "example_reveal 2 0 48 4 9"
      example_crypto 1 1 "[]" 3]
  by (simp add: example_reveal_def Let_def)

text \<open>
  Price priority and size: along the match list of a symbol the buyers' limits never rise and
  the sellers' limits never fall, and there are fewer matches than orders.
\<close>

theorem match_list_priority:
  "sorted_wrt (\<lambda>m m'. r_price (buyer m') \<le> r_price (buyer m) \<and> r_price (seller m) \<le> r_price (seller m'))
     (generate_matches C bid pid symb (sort_by buy_le bs) (sort_by sell_le ss) q)
   \<and> length (generate_matches C bid pid symb (sort_by buy_le bs) (sort_by sell_le ss) q)
     \<le> length bs + length ss - 1"
proof -
  let ?B = "sort_by buy_le bs" and ?S = "sort_by sell_le ss"
  have loop: "sorted_wrt (\<lambda>m m'. r_price (buyer m') \<le> r_price (buyer m) \<and>
      r_price (seller m) \<le> r_price (seller m')) (match_loop C bid pid symb ?B ?S q w)" for w
  proof (induction w rule: match_loop_induct [where C = C and bid = bid and pid = pid and symb = symb
      and buys = ?B and sells = ?S and q = q])
    case (emit w fq)
    have "r_price (buyer m) \<le> r_price (?B ! buy_idx w) \<and> r_price (?S ! sell_idx w) \<le> r_price (seller m)"
      if m: "m \<in> set (match_loop C bid pid symb ?B ?S q (consume ?B ?S fq w))" for m
    proof -
      from match_of_mono [OF match_loop_sound [OF m] idx_mono_consume]
      show ?thesis unfolding match_of_def
        by (auto intro: sorted_buy_prices [OF sorted_books(1)] sorted_sell_prices [OF sorted_books(2)]
            simp del: length_sort_by)
    qed
    with emit show ?case by simp
  qed simp_all
  show ?thesis
    using loop length_match_loop [of C bid pid symb ?B ?S q
        "\<lparr>buy_idx = 0, sell_idx = 0, buy_remaining = r_qty (?B ! 0), sell_remaining = r_qty (?S ! 0)\<rparr>"]
    by (simp add: generate_matches_def orders_left_def)
qed

end
