(* ===== verification/GossipValidation.thy ===== *)
theory GossipValidation
  imports Batch
begin

text \<open>
  \<open>crates/gossip_validation/src/lib.rs\<close>: the validator of gossip messages. The three provider
  traits are the parameter record \<open>providers\<close>; \<open>validate_commit\<close>, \<open>validate_reveal\<close> and
  \<open>validate_batch_complete\<close> are the code's guards in the code's order and return the new
  validator with the verdict, or \<open>None\<close> where the code panics (\<open>% 0\<close> on the number of pools,
  a failed BCS \<open>expect\<close>). The quota tracker is reached through the locale \<open>commit_quota\<close>.
\<close>

record providers =
  get_pubkey :: "u64 \<Rightarrow> bytes option"
  is_registered :: "u64 \<Rightarrow> bool"
  is_blocked :: "u64 \<Rightarrow> bool"

record validation_context =
  current_batch_id :: u64
  my_pool_id :: u64
  num_pools :: u64
  vc_commits_per_batch :: u64

datatype commit_reject_reason =
    CWrongBatch | CWrongPool | CBadPoolAssignment | CBlockedNft | CUnregisteredNft
  | CInvalidSignature | CDuplicateHash | COverQuota

datatype commit_result = CAccepted | CRejected commit_reject_reason

datatype reveal_reject_reason = RWrongBatch | RNoMatchingCommit | RNftIdMismatch | RInvalidSignature

datatype reveal_result = RAccepted | RRejected reveal_reject_reason | RDuplicateIgnored

datatype batch_complete_reject_reason =
  BWrongBatch | BBadPoolAssignment | BInvalidSignature | BDuplicateSender

datatype batch_complete_result = BAccepted | BRejected batch_complete_reject_reason

record violation_evidence =
  accused_nft_id :: u64
  ev_batch_id :: u64
  ev_pool_id :: u64
  commit_hashes :: "bytes list"
  commit_signatures :: "bytes list"

record commit_record =
  cr_batch_id :: u64
  cr_pool_id :: u64
  cr_hash :: bytes
  cr_nft_id :: u64
  cr_signature :: bytes
  cr_revealed :: bool

section \<open>Commit quota tracker\<close>

record quota_tracker =
  counts :: "u64 \<rightharpoonup> u64"
  evidence :: "(u64, violation_evidence) hmap"
  quota_limit :: u64

definition quota_new :: "u64 \<Rightarrow> quota_tracker" where
  "quota_new commits = \<lparr>counts = Map.empty, evidence = [], quota_limit = commits\<rparr>"

definition check_and_record ::
  "u64 \<Rightarrow> u64 \<Rightarrow> u64 \<Rightarrow> bytes \<Rightarrow> bytes \<Rightarrow> quota_tracker \<Rightarrow> quota_tracker \<times> bool" where
  "check_and_record nft_id batch_id pool_id hash signature q =
     (let count = (case counts q nft_id of None \<Rightarrow> 0 | Some c \<Rightarrow> c);
          ev = (case hm_get (evidence q) nft_id of
                  None \<Rightarrow> \<lparr>accused_nft_id = nft_id, ev_batch_id = batch_id, ev_pool_id = pool_id,
                           commit_hashes = [], commit_signatures = []\<rparr>
                | Some e \<Rightarrow> e);
          ev' = ev\<lparr>commit_hashes := commit_hashes ev @ [hash],
                   commit_signatures := commit_signatures ev @ [signature]\<rparr>;
          q' = q\<lparr>counts := (counts q)(nft_id \<mapsto> count), evidence := hm_insert nft_id ev' (evidence q)\<rparr>
      in if quota_limit q \<le> count then (q', False)
         else (q'\<lparr>counts := (counts q')(nft_id \<mapsto> count + 1)\<rparr>, True))"

text \<open>\<open>commit_hashes.len() as u64 > commits_per_batch\<close>\<close>

definition get_reportable_evidence :: "quota_tracker \<Rightarrow> violation_evidence list" where
  "get_reportable_evidence q =
     filter (\<lambda>e. quota_limit q < word_of_nat (length (commit_hashes e))) (hm_values (evidence q))"

definition quota_reset :: "quota_tracker \<Rightarrow> quota_tracker" where
  "quota_reset q = q\<lparr>counts := Map.empty, evidence := []\<rparr>"

definition quota_used :: "quota_tracker \<Rightarrow> u64 \<Rightarrow> nat" where
  "quota_used q nft_id = (case counts q nft_id of None \<Rightarrow> 0 | Some c \<Rightarrow> unat c)"

text \<open>The contract of the tracker: a message is accepted exactly while its NFT has quota left,
  and an accepted message uses one unit of that NFT's quota only.\<close>

locale commit_quota =
  fixes check :: "u64 \<Rightarrow> u64 \<Rightarrow> u64 \<Rightarrow> bytes \<Rightarrow> bytes \<Rightarrow> 'q \<Rightarrow> 'q \<times> bool"
    and used :: "'q \<Rightarrow> u64 \<Rightarrow> nat"
    and limit :: "'q \<Rightarrow> nat"
  assumes check_verdict: "check n b p h s q = (q', ok) \<Longrightarrow> ok \<longleftrightarrow> used q n < limit q"
    and check_used: "check n b p h s q = (q', ok) \<Longrightarrow>
      used q' m = used q m + (if ok \<and> m = n then 1 else 0)"
    and check_limit: "check n b p h s q = (q', ok) \<Longrightarrow> limit q' = limit q"
begin

lemma within_limit:
  "check n b p h s q = (q', ok) \<Longrightarrow> used q m \<le> limit q \<Longrightarrow> used q' m \<le> limit q'"
  using check_verdict [of n b p h s q q' ok] check_used [of n b p h s q q' ok m]
    check_limit [of n b p h s q q' ok] by (auto split: if_splits)

lemma exhausted_rejects: "check n b p h s q = (q', ok) \<Longrightarrow> used q n = limit q \<Longrightarrow> \<not> ok"
  using check_verdict [of n b p h s q q' ok] by simp

end

lemma quota_used_check:
  assumes "check_and_record n b p h s q = (q', ok)"
  shows "ok \<longleftrightarrow> quota_used q n < unat (quota_limit q)"
    and "quota_used q' m = quota_used q m + (if ok \<and> m = n then 1 else 0)"
    and "quota_limit q' = quota_limit q"
proof -
  define c where "c = (case counts q n of None \<Rightarrow> 0 | Some c \<Rightarrow> c)"
  have u: "quota_used q n = unat c" by (simp add: quota_used_def c_def split: option.split)
  from assms show ok: "ok \<longleftrightarrow> quota_used q n < unat (quota_limit q)"
    by (auto simp: check_and_record_def Let_def u c_def [symmetric] word_le_nat_alt split: if_splits)
  from assms show "quota_limit q' = quota_limit q"
    by (auto simp: check_and_record_def Let_def split: if_splits)
  have suc: "unat (c + 1) = Suc (unat c)" if "unat c < unat (quota_limit q)"
    using that unat_bound [of "quota_limit q"] by (subst unat_add_no_wrap) simp_all
  from assms have "counts q' = (counts q)(n \<mapsto> (if ok then c + 1 else c))"
    by (auto simp: check_and_record_def Let_def c_def split: if_splits)
  then show "quota_used q' m = quota_used q m + (if ok \<and> m = n then 1 else 0)"
    using ok suc u by (auto simp: quota_used_def)
qed

interpretation quota: commit_quota check_and_record quota_used "\<lambda>q. unat (quota_limit q)"
  by unfold_locales (erule quota_used_check(1), erule quota_used_check(2), simp add: quota_used_check(3))

section \<open>The validator\<close>

record gossip_validator =
  gv_context :: validation_context
  pending_commits :: "bytes \<rightharpoonup> commit_record"
  gv_quota_tracker :: quota_tracker
  revealed_hashes :: "bytes set"
  batch_complete_seen :: "(u64 \<times> bytes) set"

definition gv_new :: "validation_context \<Rightarrow> gossip_validator" where
  "gv_new ctx = \<lparr>gv_context = ctx, pending_commits = Map.empty,
     gv_quota_tracker = quota_new (vc_commits_per_batch ctx), revealed_hashes = {},
     batch_complete_seen = {}\<rparr>"

definition validate_commit ::
  "crypto \<Rightarrow> providers \<Rightarrow> u64 \<Rightarrow> u64 \<Rightarrow> bytes \<Rightarrow> u64 \<Rightarrow> bytes \<Rightarrow> gossip_validator
    \<Rightarrow> (gossip_validator \<times> commit_result) option" where
  "validate_commit C P batch_id pool_id hash nft_id signature v =
     (if batch_id \<noteq> current_batch_id (gv_context v) then Some (v, CRejected CWrongBatch)
      else if pool_id \<noteq> my_pool_id (gv_context v) then Some (v, CRejected CWrongPool)
      else case compute_pool_assignment C nft_id batch_id (num_pools (gv_context v)) of
        None \<Rightarrow> None
      | Some expected_pool \<Rightarrow>
         (if expected_pool \<noteq> pool_id then Some (v, CRejected CBadPoolAssignment)
          else if is_blocked P nft_id then Some (v, CRejected CBlockedNft)
          else if \<not> is_registered P nft_id then Some (v, CRejected CUnregisteredNft)
          else case get_pubkey P nft_id of
            None \<Rightarrow> Some (v, CRejected CInvalidSignature)
          | Some pubkey \<Rightarrow>
             (if \<not> verify C pubkey (le64 batch_id @ le64 pool_id @ hash) signature
              then Some (v, CRejected CInvalidSignature)
              else
                (let (q, ok) = check_and_record nft_id batch_id pool_id hash signature (gv_quota_tracker v);
                     v1 = v\<lparr>gv_quota_tracker := q\<rparr>
                 in if \<not> ok then Some (v1, CRejected COverQuota)
                    else if pending_commits v1 hash \<noteq> None then Some (v1, CRejected CDuplicateHash)
                    else Some (v1\<lparr>pending_commits := (pending_commits v1)(hash \<mapsto>
                           \<lparr>cr_batch_id = batch_id, cr_pool_id = pool_id, cr_hash = hash,
                            cr_nft_id = nft_id, cr_signature = signature, cr_revealed = False\<rparr>)\<rparr>,
                         CAccepted)))))"

definition validate_reveal ::
  "crypto \<Rightarrow> providers \<Rightarrow> u64 \<Rightarrow> u64 \<Rightarrow> order \<Rightarrow> bytes \<Rightarrow> gossip_validator
    \<Rightarrow> (gossip_validator \<times> reveal_result) option" where
  "validate_reveal C P batch_id pool_id ord signature v =
     (if batch_id \<noteq> current_batch_id (gv_context v) then Some (v, RRejected RWrongBatch)
      else case encode_order C ord of
        Inl _ \<Rightarrow> None
      | Inr order_bytes \<Rightarrow>
         (let reveal_hash = sha256 C order_bytes in
          case pending_commits v reveal_hash of
            None \<Rightarrow> Some (v, RRejected RNoMatchingCommit)
          | Some commit \<Rightarrow>
             (if reveal_hash \<in> revealed_hashes v then Some (v, RDuplicateIgnored)
              else if o_nft_id ord \<noteq> cr_nft_id commit then Some (v, RRejected RNftIdMismatch)
              else case get_pubkey P (o_nft_id ord) of
                None \<Rightarrow> Some (v, RRejected RInvalidSignature)
              | Some pubkey \<Rightarrow>
                 (if \<not> verify C pubkey order_bytes signature
                  then Some (v, RRejected RInvalidSignature)
                  else Some (v\<lparr>revealed_hashes := insert reveal_hash (revealed_hashes v),
                               pending_commits := (pending_commits v)(reveal_hash \<mapsto>
                                 commit\<lparr>cr_revealed := True\<rparr>)\<rparr>, RAccepted)))))"

definition validate_batch_complete ::
  "crypto \<Rightarrow> providers \<Rightarrow> u64 \<Rightarrow> u64 \<Rightarrow> bytes \<Rightarrow> u64 \<Rightarrow> u64 \<Rightarrow> u64 \<Rightarrow> u64 \<Rightarrow> bytes
    \<Rightarrow> gossip_validator \<Rightarrow> (gossip_validator \<times> batch_complete_result) option" where
  "validate_batch_complete C P batch_id pool_id symbol avg_settlement_price volume match_count
       sender_nft_id signature v =
     (if batch_id \<noteq> current_batch_id (gv_context v) then Some (v, BRejected BWrongBatch)
      else case compute_pool_assignment C sender_nft_id batch_id (num_pools (gv_context v)) of
        None \<Rightarrow> None
      | Some expected_pool \<Rightarrow>
         (if expected_pool \<noteq> pool_id then Some (v, BRejected BBadPoolAssignment)
          else case get_pubkey P sender_nft_id of
            None \<Rightarrow> Some (v, BRejected BInvalidSignature)
          | Some pubkey \<Rightarrow>
             (case batch_complete_message C batch_id pool_id symbol avg_settlement_price volume match_count of
                None \<Rightarrow> None
              | Some msg \<Rightarrow>
                 (if \<not> verify C pubkey msg signature then Some (v, BRejected BInvalidSignature)
                  else if (sender_nft_id, symbol) \<in> batch_complete_seen v
                  then Some (v, BRejected BDuplicateSender)
                  else Some (v\<lparr>batch_complete_seen :=
                         insert (sender_nft_id, symbol) (batch_complete_seen v)\<rparr>, BAccepted)))))"

definition gv_reset_for_new_batch :: "validation_context \<Rightarrow> gossip_validator \<Rightarrow> gossip_validator" where
  "gv_reset_for_new_batch new_context v =
     v\<lparr>gv_context := new_context, pending_commits := Map.empty,
       gv_quota_tracker := quota_reset (gv_quota_tracker v), revealed_hashes := {},
       batch_complete_seen := {}\<rparr>"

section \<open>Invariant of the validator\<close>

text \<open>Every pending commit is stored under its own hash, belongs to the current batch and pool, and
  its \<open>revealed\<close> flag agrees with the set of revealed hashes; every pending commit has used quota,
  and no NFT has used more than the tracker's limit.\<close>

definition commits_of :: "gossip_validator \<Rightarrow> u64 \<Rightarrow> bytes set" where
  "commits_of v n = {h. \<exists>c. pending_commits v h = Some c \<and> cr_nft_id c = n}"

definition gv_inv :: "gossip_validator \<Rightarrow> bool" where
  "gv_inv v \<longleftrightarrow>
     (\<forall>h c. pending_commits v h = Some c \<longrightarrow> cr_hash c = h \<and>
        cr_batch_id c = current_batch_id (gv_context v) \<and> cr_pool_id c = my_pool_id (gv_context v) \<and>
        (cr_revealed c \<longleftrightarrow> h \<in> revealed_hashes v)) \<and>
     revealed_hashes v \<subseteq> dom (pending_commits v) \<and>
     (\<forall>n. finite (commits_of v n) \<and> card (commits_of v n) \<le> quota_used (gv_quota_tracker v) n \<and>
        quota_used (gv_quota_tracker v) n \<le> unat (quota_limit (gv_quota_tracker v)))"

lemma quota_used_new [simp]: "quota_used (quota_new l) n = 0" "quota_limit (quota_new l) = l"
  by (simp_all add: quota_new_def quota_used_def)

lemma quota_used_reset [simp]:
  "quota_used (quota_reset q) n = 0" "quota_limit (quota_reset q) = quota_limit q"
  by (simp_all add: quota_reset_def quota_used_def)

lemma gv_inv_new [wf_intros]: "gv_inv (gv_new ctx)"
  by (simp add: gv_inv_def gv_new_def commits_of_def)

lemma gv_inv_reset [wf_intros]: "gv_inv (gv_reset_for_new_batch ctx v)"
  by (simp add: gv_inv_def gv_reset_for_new_batch_def commits_of_def)

text \<open>The three outcomes of \<open>validate_commit\<close> past the guards that leave the state alone.\<close>

lemma validate_commit_cases:
  assumes "validate_commit C P b p h n s v = Some (v', res)"
  obtains (guard) r where "res = CRejected r" "v' = v" "r \<noteq> COverQuota" "r \<noteq> CDuplicateHash"
  | (tracked) q ok pk where "check_and_record n b p h s (gv_quota_tracker v) = (q, ok)"
      "b = current_batch_id (gv_context v)" "p = my_pool_id (gv_context v)"
      "compute_pool_assignment C n b (num_pools (gv_context v)) = Some p"
      "\<not> is_blocked P n" "is_registered P n" "get_pubkey P n = Some pk"
      "verify C pk (le64 b @ le64 p @ h) s"
      "(\<not> ok \<and> res = CRejected COverQuota \<and> v' = v\<lparr>gv_quota_tracker := q\<rparr>) \<or>
       (ok \<and> pending_commits v h \<noteq> None \<and> res = CRejected CDuplicateHash \<and>
         v' = v\<lparr>gv_quota_tracker := q\<rparr>) \<or>
       (ok \<and> pending_commits v h = None \<and> res = CAccepted \<and>
         v' = v\<lparr>gv_quota_tracker := q, pending_commits := (pending_commits v)(h \<mapsto>
           \<lparr>cr_batch_id = b, cr_pool_id = p, cr_hash = h, cr_nft_id = n, cr_signature = s,
            cr_revealed = False\<rparr>)\<rparr>)"
  using assms
  by (auto simp: validate_commit_def Let_def split: if_splits option.splits prod.splits)

lemma validate_reveal_cases:
  assumes "validate_reveal C P b p ord s v = Some (v', res)"
  obtains (same) "res \<noteq> RAccepted" "v' = v"
  | (accepted) ob c pk where "res = RAccepted" "encode_order C ord = Inr ob"
      "b = current_batch_id (gv_context v)" "pending_commits v (sha256 C ob) = Some c"
      "sha256 C ob \<notin> revealed_hashes v" "o_nft_id ord = cr_nft_id c"
      "get_pubkey P (o_nft_id ord) = Some pk" "verify C pk ob s"
      "v' = v\<lparr>revealed_hashes := insert (sha256 C ob) (revealed_hashes v),
         pending_commits := (pending_commits v)(sha256 C ob \<mapsto> c\<lparr>cr_revealed := True\<rparr>)\<rparr>"
proof (cases "res = RAccepted")
  case False
  then show ?thesis using assms same
    by (fastforce simp: validate_reveal_def Let_def split: if_splits option.splits sum.splits)
next
  case True
  from assms True obtain ob where ob: "encode_order C ord = Inr ob" "b = current_batch_id (gv_context v)"
    by (auto simp: validate_reveal_def split: if_splits sum.splits)
  from assms True ob obtain c where c: "pending_commits v (sha256 C ob) = Some c"
    "sha256 C ob \<notin> revealed_hashes v" "o_nft_id ord = cr_nft_id c"
    by (auto simp: validate_reveal_def Let_def split: if_splits option.splits)
  from assms True ob c obtain pk where pk: "get_pubkey P (o_nft_id ord) = Some pk" "verify C pk ob s"
    by (auto simp: validate_reveal_def Let_def split: if_splits option.splits)
  from assms True ob c pk show ?thesis
    by (intro accepted [OF True ob(1,2) c pk])
      (auto simp: validate_reveal_def Let_def split: if_splits option.splits)
qed

lemma validate_reveal_accepts:
  assumes "encode_order C ord = Inr ob" "b = current_batch_id (gv_context v)"
    "pending_commits v (sha256 C ob) = Some c" "sha256 C ob \<notin> revealed_hashes v"
    "cr_nft_id c = o_nft_id ord" "get_pubkey P (o_nft_id ord) = Some pk" "verify C pk ob s"
  shows "\<exists>v'. validate_reveal C P b p ord s v = Some (v', RAccepted)"
  using assms by (simp add: validate_reveal_def Let_def)

lemma commits_of_upd:
  "commits_of (v\<lparr>gv_quota_tracker := q, pending_commits := (pending_commits v)(h \<mapsto> c)\<rparr>) n
    \<subseteq> (if cr_nft_id c = n then insert h (commits_of v n) else commits_of v n)"
  by (auto simp: commits_of_def)

lemma gv_inv_tracked:
  assumes "gv_inv v" "check_and_record n b p h s (gv_quota_tracker v) = (q, ok)"
  shows "gv_inv (v\<lparr>gv_quota_tracker := q\<rparr>)"
proof -
  have "quota_used q m \<le> unat (quota_limit q)" "quota_used (gv_quota_tracker v) m \<le> quota_used q m" for m
    using assms(1) quota.within_limit [OF assms(2), of m] quota_used_check(2) [OF assms(2), of m]
    by (auto simp: gv_inv_def)
  with assms(1) show ?thesis
    unfolding gv_inv_def commits_of_def by (auto intro: le_trans)
qed

lemma gv_inv_commit [wf_intros]:
  assumes "gv_inv v" "validate_commit C P b p h n s v = Some (v', res)"
  shows "gv_inv v'"
  using assms(2)
proof (cases rule: validate_commit_cases)
  case (tracked q ok pk)
  let ?c = "\<lparr>cr_batch_id = b, cr_pool_id = p, cr_hash = h, cr_nft_id = n, cr_signature = s, cr_revealed = False\<rparr>"
  let ?v = "v\<lparr>gv_quota_tracker := q, pending_commits := (pending_commits v)(h \<mapsto> ?c)\<rparr>"
  have tr: "gv_inv (v\<lparr>gv_quota_tracker := q\<rparr>)" by (rule gv_inv_tracked [OF assms(1) tracked(1)])
  have "gv_inv ?v" if ok: "ok" and fresh: "pending_commits v h = None"
  proof -
    have "h \<notin> revealed_hashes v" using assms(1) fresh by (auto simp: gv_inv_def)
    moreover have "finite (commits_of ?v m) \<and> card (commits_of ?v m) \<le> quota_used q m" for m
    proof -
      have c: "finite (commits_of v m)" "card (commits_of v m) \<le> quota_used (gv_quota_tracker v) m"
        using assms(1) by (auto simp: gv_inv_def)
      have sub: "commits_of ?v m \<subseteq> (if n = m then insert h (commits_of v m) else commits_of v m)"
        using commits_of_upd [where v = v and q = q and h = h and c = ?c and n = m] by simp
      then have "card (commits_of ?v m) \<le> card (if n = m then insert h (commits_of v m) else commits_of v m)"
        using c(1) by (intro card_mono) auto
      also have "\<dots> \<le> quota_used q m"
        using c quota_used_check(2) [OF tracked(1), of m] ok by (auto simp: card_insert_if)
      finally show ?thesis using sub c(1) by (auto intro: finite_subset)
    qed
    ultimately show ?thesis using tr fresh tracked(2,3) by (auto simp: gv_inv_def)
  qed
  with tracked(9) tr show ?thesis by auto
qed (use assms(1) in simp)

lemma gv_inv_reveal [wf_intros]:
  assumes "gv_inv v" "validate_reveal C P b p ord s v = Some (v', res)"
  shows "gv_inv v'"
  using assms(2)
proof (cases rule: validate_reveal_cases)
  case (accepted ob c pk)
  have "commits_of v' n = commits_of v n" for n
    using accepted by (auto simp: commits_of_def)
  with accepted assms(1) show ?thesis by (auto simp: gv_inv_def)
qed (use assms(1) in simp)

lemma gv_inv_batch_complete [wf_intros]:
  assumes "gv_inv v" "validate_batch_complete C P b p y a vol mc n s v = Some (v', res)"
  shows "gv_inv v'"
proof -
  have "v' = v \<or> v' = v\<lparr>batch_complete_seen := insert (n, y) (batch_complete_seen v)\<rparr>"
    using assms(2) by (auto simp: validate_batch_complete_def split: if_splits option.splits)
  with assms(1) show ?thesis by (auto simp: gv_inv_def commits_of_def)
qed

section \<open>Runs of the validator\<close>

datatype gossip_event =
    CommitMsg u64 u64 bytes u64 bytes
  | RevealMsg u64 u64 order bytes
  | BatchCompleteMsg u64 u64 bytes u64 u64 u64 u64 bytes
  | NewBatch validation_context

definition gv_step :: "crypto \<Rightarrow> providers \<Rightarrow> gossip_event \<Rightarrow> gossip_validator \<Rightarrow> gossip_validator option" where
  "gv_step C P e v = (case e of
     CommitMsg b p h n s \<Rightarrow> map_option fst (validate_commit C P b p h n s v)
   | RevealMsg b p ord s \<Rightarrow> map_option fst (validate_reveal C P b p ord s v)
   | BatchCompleteMsg b p y a vol mc n s \<Rightarrow>
       map_option fst (validate_batch_complete C P b p y a vol mc n s v)
   | NewBatch ctx \<Rightarrow> Some (gv_reset_for_new_batch ctx v))"

inductive gv_reach :: "crypto \<Rightarrow> providers \<Rightarrow> validation_context \<Rightarrow> gossip_validator \<Rightarrow> bool"
  for C P ctx where
  gv_start: "gv_reach C P ctx (gv_new ctx)"
| gv_next: "gv_reach C P ctx v \<Longrightarrow> gv_step C P e v = Some v' \<Longrightarrow> gv_reach C P ctx v'"

lemma gv_step_inv: "gv_inv v \<Longrightarrow> gv_step C P e v = Some v' \<Longrightarrow> gv_inv v'"
  by (cases e) (auto simp: gv_step_def intro: wf_intros)

lemma gv_reach_inv: "gv_reach C P ctx v \<Longrightarrow> gv_inv v"
  by (induction rule: gv_reach.induct) (auto intro: gv_inv_new gv_step_inv)

lemma gv_step_limit:
  assumes "gv_step C P e v = Some v'"
  shows "quota_limit (gv_quota_tracker v') = quota_limit (gv_quota_tracker v)"
proof (cases e)
  case (CommitMsg b p h n s)
  then obtain r where r: "validate_commit C P b p h n s v = Some (v', r)"
    using assms by (auto simp: gv_step_def)
  then show ?thesis
    by (cases rule: validate_commit_cases) (auto dest: quota_used_check(3))
next
  case (RevealMsg b p ord s)
  then obtain r where "validate_reveal C P b p ord s v = Some (v', r)"
    using assms by (auto simp: gv_step_def)
  then show ?thesis by (cases rule: validate_reveal_cases) auto
next
  case (BatchCompleteMsg b p y a vol mc n s)
  with assms show ?thesis
    by (auto simp: gv_step_def validate_batch_complete_def split: if_splits option.splits)
next
  case (NewBatch ctx)
  with assms show ?thesis by (auto simp: gv_step_def gv_reset_for_new_batch_def)
qed

lemma gv_reach_limit:
  "gv_reach C P ctx v \<Longrightarrow> quota_limit (gv_quota_tracker v) = vc_commits_per_batch ctx"
  by (induction rule: gv_reach.induct) (simp_all add: gv_step_limit, simp add: gv_new_def)

section \<open>Replays\<close>

text \<open>The guards before the quota check, which read the context and the providers only.\<close>

definition commit_guards ::
  "crypto \<Rightarrow> providers \<Rightarrow> u64 \<Rightarrow> u64 \<Rightarrow> bytes \<Rightarrow> u64 \<Rightarrow> bytes \<Rightarrow> validation_context \<Rightarrow> bool" where
  "commit_guards C P b p h n s ctx = (b = current_batch_id ctx \<and> p = my_pool_id ctx \<and>
     compute_pool_assignment C n b (num_pools ctx) = Some p \<and> \<not> is_blocked P n \<and> is_registered P n \<and>
     (case get_pubkey P n of None \<Rightarrow> False | Some pk \<Rightarrow> verify C pk (le64 b @ le64 p @ h) s))"

lemma validate_commit_guarded:
  assumes "commit_guards C P b p h n s (gv_context v)"
  shows "validate_commit C P b p h n s v =
    (let (q, ok) = check_and_record n b p h s (gv_quota_tracker v); v1 = v\<lparr>gv_quota_tracker := q\<rparr>
     in if \<not> ok then Some (v1, CRejected COverQuota)
        else if pending_commits v1 h \<noteq> None then Some (v1, CRejected CDuplicateHash)
        else Some (v1\<lparr>pending_commits := (pending_commits v1)(h \<mapsto>
               \<lparr>cr_batch_id = b, cr_pool_id = p, cr_hash = h, cr_nft_id = n, cr_signature = s,
                cr_revealed = False\<rparr>)\<rparr>, CAccepted))"
  using assms by (auto simp: commit_guards_def validate_commit_def Let_def split: option.splits prod.splits)

fun replay_commit ::
  "crypto \<Rightarrow> providers \<Rightarrow> u64 \<Rightarrow> u64 \<Rightarrow> bytes \<Rightarrow> u64 \<Rightarrow> bytes \<Rightarrow> nat \<Rightarrow> gossip_validator
    \<Rightarrow> gossip_validator option" where
  "replay_commit C P b p h n s 0 v = Some v"
| "replay_commit C P b p h n s (Suc k) v =
     (case validate_commit C P b p h n s v of None \<Rightarrow> None
      | Some (v', _) \<Rightarrow> replay_commit C P b p h n s k v')"

lemma check_and_record_evidence:
  assumes "check_and_record n b p h s q = (q', ok)"
  shows "\<exists>e. hm_get (evidence q') n = Some e \<and> commit_hashes e =
    (case hm_get (evidence q) n of None \<Rightarrow> [] | Some e \<Rightarrow> commit_hashes e) @ [h]"
  using assms by (auto simp: check_and_record_def Let_def split: if_splits option.splits)

lemma guarded_step:
  assumes g: "commit_guards C P b p h n s (gv_context v)"
  obtains v' r where "validate_commit C P b p h n s v = Some (v', r)"
    "gv_context v' = gv_context v"
    "quota_limit (gv_quota_tracker v') = quota_limit (gv_quota_tracker v)"
    "quota_used (gv_quota_tracker v') n = quota_used (gv_quota_tracker v) n +
      (if quota_used (gv_quota_tracker v) n < unat (quota_limit (gv_quota_tracker v)) then 1 else 0)"
    "commits_of v' n \<subseteq> insert h (commits_of v n)"
    "\<exists>e. hm_get (evidence (gv_quota_tracker v')) n = Some e \<and> commit_hashes e =
      (case hm_get (evidence (gv_quota_tracker v)) n of None \<Rightarrow> [] | Some e \<Rightarrow> commit_hashes e) @ [h]"
proof -
  obtain q ok where q: "check_and_record n b p h s (gv_quota_tracker v) = (q, ok)"
    by (cases "check_and_record n b p h s (gv_quota_tracker v)")
  have "validate_commit C P b p h n s v \<noteq> None"
    by (simp add: validate_commit_guarded [OF g] q Let_def)
  then obtain v' r where vr: "validate_commit C P b p h n s v = Some (v', r)" by auto
  have tr: "gv_quota_tracker v' = q" and rest: "gv_context v' = gv_context v"
    "commits_of v' n \<subseteq> insert h (commits_of v n)"
    using vr unfolding validate_commit_guarded [OF g]
    by (auto simp: q Let_def commits_of_def split: if_splits)
  show ?thesis
    by (rule that [OF vr rest(1) _ _ rest(2)])
      (use quota_used_check [OF q] check_and_record_evidence [OF q] in \<open>auto simp: tr\<close>)
qed

lemma replay_exhausts:
  assumes "commit_guards C P b p h n s (gv_context v)"
    and "quota_used (gv_quota_tracker v) n \<le> unat (quota_limit (gv_quota_tracker v))"
    and "unat (quota_limit (gv_quota_tracker v)) - quota_used (gv_quota_tracker v) n \<le> k"
  shows "\<exists>v'. replay_commit C P b p h n s k v = Some v' \<and> gv_context v' = gv_context v \<and>
    quota_limit (gv_quota_tracker v') = quota_limit (gv_quota_tracker v) \<and>
    quota_used (gv_quota_tracker v') n = unat (quota_limit (gv_quota_tracker v)) \<and>
    commits_of v' n \<subseteq> insert h (commits_of v n) \<and>
    (case hm_get (evidence (gv_quota_tracker v')) n of None \<Rightarrow> [] | Some e \<Rightarrow> commit_hashes e) =
    (case hm_get (evidence (gv_quota_tracker v)) n of None \<Rightarrow> [] | Some e \<Rightarrow> commit_hashes e)
      @ replicate k h"
  using assms
proof (induction k arbitrary: v)
  case 0
  then show ?case by auto
next
  case (Suc k)
  from Suc.prems(1) obtain v' r where v': "validate_commit C P b p h n s v = Some (v', r)"
    "gv_context v' = gv_context v"
    "quota_limit (gv_quota_tracker v') = quota_limit (gv_quota_tracker v)"
    "quota_used (gv_quota_tracker v') n = quota_used (gv_quota_tracker v) n +
      (if quota_used (gv_quota_tracker v) n < unat (quota_limit (gv_quota_tracker v)) then 1 else 0)"
    "commits_of v' n \<subseteq> insert h (commits_of v n)"
    "\<exists>e. hm_get (evidence (gv_quota_tracker v')) n = Some e \<and> commit_hashes e =
      (case hm_get (evidence (gv_quota_tracker v)) n of None \<Rightarrow> [] | Some e \<Rightarrow> commit_hashes e) @ [h]"
    by (rule guarded_step)
  have "commit_guards C P b p h n s (gv_context v')"
    "quota_used (gv_quota_tracker v') n \<le> unat (quota_limit (gv_quota_tracker v'))"
    "unat (quota_limit (gv_quota_tracker v')) - quota_used (gv_quota_tracker v') n \<le> k"
    using Suc.prems v'(2,3,4) by auto
  from Suc.IH [OF this] show ?case
    using v' by (auto simp: replicate_app_Cons_same) blast
qed

section \<open>Properties\<close>

definition example_context :: validation_context where
  "example_context = \<lparr>current_batch_id = 100, my_pool_id = 1, num_pools = 4, vc_commits_per_batch = 3\<rparr>"

definition example_providers :: providers where
  "example_providers = \<lparr>get_pubkey = (\<lambda>_. Some [1]), is_registered = (\<lambda>_. True), is_blocked = (\<lambda>_. False)\<rparr>"

definition example_order :: "u64 \<Rightarrow> u8 \<Rightarrow> order" where
  "example_order price nonce = \<lparr>o_nft_id = 5, o_symbol = [69, 47, 75], o_side = 1, o_price = price,
     o_quantity = 10, o_batch_id = 100, o_nonce = [nonce]\<rparr>"

lemma example_pool: "compute_pool_assignment example_crypto 5 b 4 = Some 1"
proof -
  have "take 8 (take 32 ((le64 5 @ le64 b) @ replicate 32 0)) = le64 5" by simp
  then have "from_le64 (take 8 (sha256 example_crypto (le64 5 @ le64 b))) = 5"
    by (simp only: example_crypto_def crypto.simps le64_roundtrip)
  then show ?thesis by (simp add: compute_pool_assignment_def checked_rem_def)
qed

lemma example_guards:
  "length s = 64 \<Longrightarrow> s = replicate 64 0 \<Longrightarrow>
    commit_guards example_crypto example_providers 100 1 h 5 s example_context"
  by (simp add: commit_guards_def example_context_def example_pool example_providers_def verify_def)
    (simp add: example_crypto_def)

text \<open>
  C17. The commit quota the validator was built with holds in every state it reaches, whatever
  commits, reveals, batch-complete messages and batch changes it has seen: no NFT has more pending
  commits than the \<open>commits_per_batch\<close> of the context given to the constructor. A batch change
  installs the new context but keeps that limit, so the quota of the current batch is enforced
  exactly as long as it is the constructor's: it holds when it is not lower, and no commit beyond
  the constructor's is accepted when it is higher. Every pending commit is stored under its own
  hash and belongs to the current batch and pool, and exactly the revealed ones are marked.
\<close>

theorem commit_quota_enforced:
  assumes "gv_reach C P ctx v"
  shows "card (commits_of v n) \<le> unat (vc_commits_per_batch ctx) \<and> finite (commits_of v n) \<and>
    (\<forall>h c. pending_commits v h = Some c \<longrightarrow> cr_hash c = h \<and>
       cr_batch_id c = current_batch_id (gv_context v) \<and> cr_pool_id c = my_pool_id (gv_context v) \<and>
       (cr_revealed c \<longleftrightarrow> h \<in> revealed_hashes v)) \<and>
    (\<forall>ctx'. gv_context (gv_reset_for_new_batch ctx' v) = ctx' \<and>
       quota_limit (gv_quota_tracker (gv_reset_for_new_batch ctx' v)) = vc_commits_per_batch ctx) \<and>
    (vc_commits_per_batch ctx \<le> vc_commits_per_batch (gv_context v) \<longrightarrow>
       card (commits_of v n) \<le> unat (vc_commits_per_batch (gv_context v)))"
proof -
  have "card (commits_of v n) \<le> unat (vc_commits_per_batch ctx)"
    using gv_reach_inv [OF assms] gv_reach_limit [OF assms] by (auto simp: gv_inv_def intro: le_trans)
  moreover have "finite (commits_of v n) \<and> (\<forall>h c. pending_commits v h = Some c \<longrightarrow> cr_hash c = h \<and>
       cr_batch_id c = current_batch_id (gv_context v) \<and> cr_pool_id c = my_pool_id (gv_context v) \<and>
       (cr_revealed c \<longleftrightarrow> h \<in> revealed_hashes v))"
    using gv_reach_inv [OF assms] by (auto simp: gv_inv_def)
  ultimately show ?thesis
    using gv_reach_limit [OF assms]
    by (auto simp: word_le_nat_alt gv_reset_for_new_batch_def quota_reset_def)
qed

lemma commit_quota_enforced_witness:
  "\<exists>v. gv_reach example_crypto example_providers example_context v \<and> commits_of v 5 \<noteq> {} \<and>
     card (commits_of v 5) \<le> 3"
proof -
  have g: "commit_guards example_crypto example_providers 100 1 [7] 5 (replicate 64 0)
      (gv_context (gv_new example_context))"
    by (simp add: gv_new_def example_guards)
  obtain v' r where r: "validate_commit example_crypto example_providers 100 1 [7] 5 (replicate 64 0)
      (gv_new example_context) = Some (v', r)" "commits_of v' 5 \<noteq> {}"
    unfolding validate_commit_guarded [OF g]
    by (auto simp: gv_new_def check_and_record_def quota_new_def commits_of_def example_context_def)
  have "gv_reach example_crypto example_providers example_context v'"
    by (rule gv_next [OF gv_start, where e = "CommitMsg 100 1 [7] 5 (replicate 64 0)"])
      (simp add: gv_step_def r(1))
  from this commit_quota_enforced [OF this, of 5] r(2) show ?thesis
    by (intro exI [of _ v']) (simp add: example_context_def)
qed

text \<open>
  A commit is accepted exactly when it is for the current batch and pool, its NFT is assigned
  to that pool, not blocked, registered and its signature over (batch, pool, hash) verifies, the
  NFT has quota left, and the hash is not already pending.
\<close>

theorem commit_accept_iff:
  "(\<exists>v'. validate_commit C P b p h n s v = Some (v', CAccepted)) \<longleftrightarrow>
    commit_guards C P b p h n s (gv_context v) \<and>
    quota_used (gv_quota_tracker v) n < unat (quota_limit (gv_quota_tracker v)) \<and>
    pending_commits v h = None"
proof
  assume "\<exists>v'. validate_commit C P b p h n s v = Some (v', CAccepted)"
  then obtain v' where "validate_commit C P b p h n s v = Some (v', CAccepted)" ..
  then show "commit_guards C P b p h n s (gv_context v) \<and>
    quota_used (gv_quota_tracker v) n < unat (quota_limit (gv_quota_tracker v)) \<and>
    pending_commits v h = None"
    by (cases rule: validate_commit_cases) (auto simp: commit_guards_def dest: quota_used_check(1))
next
  assume a: "commit_guards C P b p h n s (gv_context v) \<and>
    quota_used (gv_quota_tracker v) n < unat (quota_limit (gv_quota_tracker v)) \<and>
    pending_commits v h = None"
  obtain q ok where q: "check_and_record n b p h s (gv_quota_tracker v) = (q, ok)"
    by (cases "check_and_record n b p h s (gv_quota_tracker v)")
  with a quota.check_verdict [OF q] show "\<exists>v'. validate_commit C P b p h n s v = Some (v', CAccepted)"
    by (simp add: validate_commit_guarded Let_def)
qed

text \<open>
  C18. Commit and reveal bind: an accepted reveal is an order whose SHA-256 of the BCS bytes is a
  pending commit of the same NFT, not revealed before, signed by that NFT's key; it is marked
  revealed, and the same reveal sent again is ignored without changing the state.
\<close>

theorem reveal_binds_commit:
  assumes "validate_reveal C P b p ord s v = Some (v', RAccepted)"
  shows "\<exists>h c pk bytes. order_hash C ord = Some h \<and> pending_commits v h = Some c \<and>
    cr_nft_id c = o_nft_id ord \<and> h \<notin> revealed_hashes v \<and> h \<in> revealed_hashes v' \<and>
    get_pubkey P (o_nft_id ord) = Some pk \<and> encode_order C ord = Inr bytes \<and> verify C pk bytes s \<and>
    validate_reveal C P b p' ord s' v' = Some (v', RDuplicateIgnored)"
  using assms
proof (cases rule: validate_reveal_cases)
  case (accepted ob c pk)
  then have h: "order_hash C ord = Some (sha256 C ob)" by (simp add: order_hash_def)
  have "validate_reveal C P b p' ord s' v' = Some (v', RDuplicateIgnored)"
    using accepted by (simp add: validate_reveal_def Let_def)
  with accepted h show ?thesis
    by (intro exI [of _ "sha256 C ob"] exI [of _ c] exI [of _ pk] exI [of _ ob]) simp
qed simp

lemma reveal_binds_commit_witness:
  "\<exists>v v'. validate_reveal example_crypto example_providers 100 1 (example_order 50 7) (replicate 64 0) v
      = Some (v', RAccepted) \<and>
    validate_reveal example_crypto example_providers 100 1 (example_order 50 7) (replicate 64 0) v'
      = Some (v', RDuplicateIgnored)"
proof -
  let ?h = "sha256 example_crypto (example_order_bytes (example_order 50 7))"
  let ?v = "(gv_new example_context)\<lparr>pending_commits := [?h \<mapsto> \<lparr>cr_batch_id = 100, cr_pool_id = 1,
     cr_hash = ?h, cr_nft_id = 5, cr_signature = [], cr_revealed = False\<rparr>]\<rparr>"
  have e: "encode_order example_crypto (example_order 50 7) = Inr (example_order_bytes (example_order 50 7))"
    by (simp add: encode_order_def example_crypto_def)
  have vf: "verify example_crypto pk m (replicate 64 0)" for pk m
    by (simp add: verify_def) (simp add: example_crypto_def)
  obtain v' where "validate_reveal example_crypto example_providers 100 1 (example_order 50 7)
      (replicate 64 0) ?v = Some (v', RAccepted)"
    using validate_reveal_accepts [OF e, of 100 ?v, where P = example_providers and pk = "[1]"
        and p = 1 and s = "replicate 64 0"]
    by (simp add: vf) (auto simp: gv_new_def example_context_def example_providers_def example_crypto_def
        example_order_def)
  from this reveal_binds_commit [OF this, of 1 "replicate 64 0"] show ?thesis by blast
qed

text \<open>
  An honest commit and its reveal pass: with a correct signature scheme, a registered,
  unblocked NFT with quota left that is assigned to this pool gets its own \<open>sign_commit\<close> accepted
  by any validator that has not seen the hash, and then its \<open>sign_order\<close> reveal accepted.
\<close>

theorem honest_commit_reveal_accepted:
  assumes "ed25519_ok C" "order_hash C ord = Some h" "gv_inv v"
    and "b = current_batch_id (gv_context v)" "p = my_pool_id (gv_context v)"
    and "compute_pool_assignment C (o_nft_id ord) b (num_pools (gv_context v)) = Some p"
    and "\<not> is_blocked P (o_nft_id ord)" "is_registered P (o_nft_id ord)"
    and "get_pubkey P (o_nft_id ord) = Some (ed25519_public C sk)"
    and "quota_used (gv_quota_tracker v) (o_nft_id ord) < unat (quota_limit (gv_quota_tracker v))"
    and "pending_commits v h = None"
  shows "\<exists>v1 v2 s. validate_commit C P b p h (o_nft_id ord) (sign_commit C sk b p h) v = Some (v1, CAccepted)
    \<and> sign_order C sk ord = Some s \<and> validate_reveal C P b p ord s v1 = Some (v2, RAccepted)"
proof -
  let ?n = "o_nft_id ord" and ?s = "sign_commit C sk b p h"
  have g: "commit_guards C P b p h ?n ?s (gv_context v)"
    using assms(4-9) by (simp add: commit_guards_def sign_commit_def verify_sign [OF assms(1)])
  obtain ob where ob: "encode_order C ord = Inr ob" "h = sha256 C ob"
    using assms(2) by (auto simp: order_hash_def split: sum.splits)
  obtain q ok where q: "check_and_record ?n b p h ?s (gv_quota_tracker v) = (q, ok)"
    by (cases "check_and_record ?n b p h ?s (gv_quota_tracker v)")
  have fresh: "h \<notin> revealed_hashes v" using assms(3,11) by (auto simp: gv_inv_def)
  have okq: "ok" using quota.check_verdict [OF q] assms(10) by simp
  let ?c = "\<lparr>cr_batch_id = b, cr_pool_id = p, cr_hash = h, cr_nft_id = ?n, cr_signature = ?s,
      cr_revealed = False\<rparr>"
  let ?v1 = "v\<lparr>gv_quota_tracker := q, pending_commits := (pending_commits v)(h \<mapsto> ?c)\<rparr>"
  have c: "validate_commit C P b p h ?n ?s v = Some (?v1, CAccepted)"
    using okq assms(11) by (simp add: validate_commit_guarded [OF g] q Let_def)
  have r: "\<exists>v2. validate_reveal C P b p ord (sign C sk ob) ?v1 = Some (v2, RAccepted)"
    by (rule validate_reveal_accepts [where c = ?c and ob = ob and pk = "ed25519_public C sk"])
      (use assms(4,9) fresh ob verify_sign [OF assms(1)] in simp_all)
  have s: "sign_order C sk ord = Some (sign C sk ob)" using ob by (simp add: sign_order_def)
  from c r s show ?thesis by blast
qed

lemma honest_commit_reveal_accepted_witness:
  "\<exists>v1 v2 s. validate_commit example_crypto (example_providers\<lparr>get_pubkey := (\<lambda>_. Some [1])\<rparr>) 100 1
      (sha256 example_crypto (example_order_bytes (example_order 50 7))) 5
      (sign_commit example_crypto [1] 100 1
        (sha256 example_crypto (example_order_bytes (example_order 50 7)))) (gv_new example_context)
      = Some (v1, CAccepted)
    \<and> sign_order example_crypto [1] (example_order 50 7) = Some s
    \<and> validate_reveal example_crypto (example_providers\<lparr>get_pubkey := (\<lambda>_. Some [1])\<rparr>) 100 1
        (example_order 50 7) s v1 = Some (v2, RAccepted)"
proof -
  have n: "o_nft_id (example_order 50 7) = 5" by (simp add: example_order_def)
  have h: "order_hash example_crypto (example_order 50 7)
      = Some (sha256 example_crypto (example_order_bytes (example_order 50 7)))"
    by (simp add: order_hash_def encode_order_def example_crypto_def)
  show ?thesis
    using honest_commit_reveal_accepted [OF example_crypto_ok(3) h gv_inv_new [of example_context],
        where b = 100 and p = 1 and sk = "[1]"
        and P = "example_providers\<lparr>get_pubkey := (\<lambda>_. Some [1])\<rparr>"]
    by (simp add: n gv_new_def example_context_def example_pool example_providers_def)
      (simp add: example_crypto_def)
qed

text \<open>
  A replayed commit burns its NFT's quota: the quota is taken before the duplicate check, so
  delivering one validly signed commit of an NFT \<open>k\<close> times, \<open>k\<close> more than the limit, to a fresh
  validator leaves that NFT with a single pending commit, rejects its next valid commit as over
  quota, and makes it reportable with evidence that repeats one hash.
\<close>

theorem replayed_commit_exhausts_quota:
  assumes "commit_guards C P b p h n s ctx" "commit_guards C P b p h' n s' ctx"
    and "unat (vc_commits_per_batch ctx) < k" "k < 2 ^ 64"
  shows "\<exists>v v' e. replay_commit C P b p h n s k (gv_new ctx) = Some v \<and> commits_of v n \<subseteq> {h} \<and>
    validate_commit C P b p h' n s' v = Some (v', CRejected COverQuota) \<and>
    e \<in> set (get_reportable_evidence (gv_quota_tracker v)) \<and> commit_hashes e = replicate k h"
proof -
  have "commit_guards C P b p h n s (gv_context (gv_new ctx))" using assms(1) by (simp add: gv_new_def)
  from replay_exhausts [OF this, of k] assms(3)
  obtain v where v: "replay_commit C P b p h n s k (gv_new ctx) = Some v"
      "gv_context v = ctx" "quota_limit (gv_quota_tracker v) = vc_commits_per_batch ctx"
      "quota_used (gv_quota_tracker v) n = unat (vc_commits_per_batch ctx)"
      "commits_of v n \<subseteq> {h}"
      "(case hm_get (evidence (gv_quota_tracker v)) n of None \<Rightarrow> [] | Some e \<Rightarrow> commit_hashes e)
        = replicate k h"
    by (auto simp: gv_new_def quota_used_def quota_new_def commits_of_def)
  obtain e where e: "hm_get (evidence (gv_quota_tracker v)) n = Some e" "commit_hashes e = replicate k h"
    using v(6) assms(3) by (cases "hm_get (evidence (gv_quota_tracker v)) n") auto
  have "vc_commits_per_batch ctx < (word_of_nat k :: u64)"
    using assms(3,4) by (simp add: word_less_nat_alt unat_of_nat)
  then have rep: "e \<in> set (get_reportable_evidence (gv_quota_tracker v))"
    using e v(3) by (auto simp: get_reportable_evidence_def hm_values_def dest: map_of_SomeD
        intro!: image_eqI [where x = "(n, e)"])
  obtain q ok where q: "check_and_record n b p h' s' (gv_quota_tracker v) = (q, ok)"
    by (cases "check_and_record n b p h' s' (gv_quota_tracker v)")
  have "\<not> ok" using quota.exhausted_rejects [OF q] v(3,4) by simp
  then have "validate_commit C P b p h' n s' v = Some (v\<lparr>gv_quota_tracker := q\<rparr>, CRejected COverQuota)"
    using assms(2) v(2) by (simp add: validate_commit_guarded q Let_def)
  with v e rep show ?thesis by blast
qed

lemma replayed_commit_exhausts_quota_witness:
  "\<exists>v v' e. replay_commit example_crypto example_providers 100 1 [7] 5 (replicate 64 0) 4
      (gv_new example_context) = Some v \<and> commits_of v 5 \<subseteq> {[7]} \<and>
    validate_commit example_crypto example_providers 100 1 [8] 5 (replicate 64 0) v
      = Some (v', CRejected COverQuota) \<and>
    e \<in> set (get_reportable_evidence (gv_quota_tracker v)) \<and> commit_hashes e = replicate 4 [7]"
  by (rule replayed_commit_exhausts_quota)
    (simp_all add: example_guards, simp_all add: example_context_def)

end
