(* ===== verification/NodeState.thy ===== *)
theory NodeState
  imports Prelude
begin

text \<open>
  \<open>crates/node_state/src/lib.rs\<close>: the node's state machine. \<open>transition\<close> is the \<open>match\<close>
  of the code in the code's order of arms; an invalid pair of state and event leaves the machine
  as it is and returns the error. \<open>sm_reach\<close> is the set of machines reachable from
  \<open>sm_new\<close> by valid and invalid events.
\<close>

datatype node_state = Setup | Connected | Observing | Trading | Paused | Limited | Shutdown

datatype node_event =
    SetupComplete | StrategyConnected | StrategyDisconnected | FirstBatchEntered
  | PauseDetected (after_batch: u64) | ResumeDetected | InactiveDetected | Reactivated
  | ShutdownRequested | GasCritical | GasReplenished

datatype state_error = InvalidTransition (st_from: node_state) (st_event: node_event)

record state_machine =
  sm_state :: node_state
  sm_previous_state :: "node_state option"
  sm_gas_critical :: bool

definition sm_new :: state_machine where
  "sm_new = \<lparr>sm_state = Setup, sm_previous_state = None, sm_gas_critical = False\<rparr>"

definition transition :: "node_event \<Rightarrow> state_machine \<Rightarrow> state_machine \<times> (state_error + node_state)" where
  "transition ev m =
     (let ok = (\<lambda>m'. (m', Inr (sm_state m'))) in
      case (sm_state m, ev) of
        (Setup, SetupComplete) \<Rightarrow> ok (m\<lparr>sm_state := Connected\<rparr>)
      | (Connected, StrategyConnected) \<Rightarrow> ok (m\<lparr>sm_state := Observing\<rparr>)
      | (Observing, FirstBatchEntered) \<Rightarrow> ok (m\<lparr>sm_state := Trading\<rparr>)
      | (Observing, StrategyDisconnected) \<Rightarrow> ok (m\<lparr>sm_state := Connected\<rparr>)
      | (Trading, StrategyDisconnected) \<Rightarrow> ok (m\<lparr>sm_state := Connected\<rparr>)
      | (Trading, PauseDetected _) \<Rightarrow> ok (m\<lparr>sm_previous_state := Some Trading, sm_state := Paused\<rparr>)
      | (Observing, PauseDetected _) \<Rightarrow> ok (m\<lparr>sm_previous_state := Some Observing, sm_state := Paused\<rparr>)
      | (Paused, ResumeDetected) \<Rightarrow>
          ok (m\<lparr>sm_state := (case sm_previous_state m of None \<Rightarrow> Trading | Some s \<Rightarrow> s),
                sm_previous_state := None\<rparr>)
      | (Trading, InactiveDetected) \<Rightarrow> ok (m\<lparr>sm_state := Limited\<rparr>)
      | (Observing, InactiveDetected) \<Rightarrow> ok (m\<lparr>sm_state := Limited\<rparr>)
      | (Limited, Reactivated) \<Rightarrow> ok (m\<lparr>sm_state := Trading\<rparr>)
      | (_, GasCritical) \<Rightarrow> ok (m\<lparr>sm_gas_critical := True\<rparr>)
      | (_, GasReplenished) \<Rightarrow> ok (m\<lparr>sm_gas_critical := False\<rparr>)
      | (_, ShutdownRequested) \<Rightarrow> ok (m\<lparr>sm_state := Shutdown\<rparr>)
      | (Paused, StrategyConnected) \<Rightarrow> ok m
      | (Limited, StrategyConnected) \<Rightarrow> ok m
      | _ \<Rightarrow> (m, Inl (InvalidTransition (sm_state m) ev)))"

definition can_commit :: "state_machine \<Rightarrow> bool" where
  "can_commit m = (sm_state m = Trading \<and> \<not> sm_gas_critical m)"

definition can_gossip :: "state_machine \<Rightarrow> bool" where
  "can_gossip m = (sm_state m \<in> {Connected, Observing, Trading, Paused, Limited})"

definition is_active_node :: "state_machine \<Rightarrow> bool" where
  "is_active_node m = (sm_state m = Trading)"

section \<open>Reachability and the invariant\<close>

inductive sm_reach :: "state_machine \<Rightarrow> bool" where
  sm_start: "sm_reach sm_new"
| sm_event: "sm_reach m \<Longrightarrow> sm_reach (fst (transition ev m))"

inductive_cases sm_reachE: "sm_reach m"

definition sm_inv :: "state_machine \<Rightarrow> bool" where
  "sm_inv m \<longleftrightarrow>
     (sm_state m = Paused \<longrightarrow> sm_previous_state m \<in> {Some Trading, Some Observing}) \<and>
     (sm_state m \<notin> {Paused, Shutdown} \<longrightarrow> sm_previous_state m = None)"

lemmas transition_cases = transition_def Let_def

lemma sm_inv_new [wf_intros]: "sm_inv sm_new"
  by (simp add: sm_inv_def sm_new_def)

lemma sm_inv_transition [wf_intros]: "sm_inv m \<Longrightarrow> sm_inv (fst (transition ev m))"
  by (cases "sm_state m"; cases ev)
    (auto simp: sm_inv_def transition_cases split: option.split)

lemma sm_reach_inv: "sm_reach m \<Longrightarrow> sm_inv m"
  by (induction rule: sm_reach.induct) (auto intro: wf_intros)

text \<open>The events of a run, applied left to right; an invalid event is skipped.\<close>

definition run_events :: "node_event list \<Rightarrow> state_machine \<Rightarrow> state_machine" where
  "run_events evs m = foldl (\<lambda>m ev. fst (transition ev m)) m evs"

lemma run_events_simps [simp]:
  "run_events [] m = m" "run_events (ev # evs) m = run_events evs (fst (transition ev m))"
  by (simp_all add: run_events_def)

lemma sm_reach_run: "sm_reach m \<Longrightarrow> sm_reach (run_events evs m)"
  by (induction evs arbitrary: m) (auto intro: sm_event)

text \<open>The gas flag after a run is decided by the last gas event of the run.\<close>

fun gas_flag :: "bool \<Rightarrow> node_event list \<Rightarrow> bool" where
  "gas_flag b [] = b"
| "gas_flag b (GasCritical # evs) = gas_flag True evs"
| "gas_flag b (GasReplenished # evs) = gas_flag False evs"
| "gas_flag b (_ # evs) = gas_flag b evs"

lemma transition_gas:
  "sm_gas_critical (fst (transition ev m)) =
     (if ev = GasCritical then True else if ev = GasReplenished then False else sm_gas_critical m)"
  by (cases "sm_state m"; cases ev) (auto simp: transition_cases)

lemma run_events_gas: "sm_gas_critical (run_events evs m) = gas_flag (sm_gas_critical m) evs"
proof (induction evs arbitrary: m)
  case Nil
  then show ?case by simp
next
  case (Cons ev evs)
  then show ?case by (cases ev) (simp_all add: transition_gas)
qed

lemma transition_Shutdown:
  "sm_state m = Shutdown \<Longrightarrow> sm_state (fst (transition ev m)) = Shutdown"
  by (cases ev) (auto simp: transition_cases)

lemma run_events_Shutdown: "sm_state m = Shutdown \<Longrightarrow> sm_state (run_events evs m) = Shutdown"
  by (induction evs arbitrary: m) (auto simp: transition_Shutdown)

lemma transition_error:
  "snd (transition ev m) = Inl e \<Longrightarrow> fst (transition ev m) = m \<and> e = InvalidTransition (sm_state m) ev"
  by (cases "sm_state m"; cases ev) (auto simp: transition_cases)

lemma transition_ok: "snd (transition ev m) = Inr s \<Longrightarrow> sm_state (fst (transition ev m)) = s"
  by (cases "sm_state m"; cases ev) (auto simp: transition_cases)

section \<open>Properties\<close>

text \<open>
  Commits are only possible in \<open>Trading\<close> with gas: from every reachable machine, after any
  run of events, \<open>can_commit\<close> is false once the machine has been shut down, and is false while
  the last gas event of the run is \<open>GasCritical\<close>; a shut-down machine stays shut down whatever
  follows and never gossips.
\<close>

theorem shutdown_absorbing:
  assumes "sm_reach m"
  shows "\<not> can_gossip (run_events (ShutdownRequested # evs) m)
    \<and> \<not> can_commit (run_events (ShutdownRequested # evs) m)
    \<and> (gas_flag (sm_gas_critical m) evs \<longrightarrow> \<not> can_commit (run_events evs m))"
proof -
  have "sm_state (fst (transition ShutdownRequested m)) = Shutdown"
    by (cases "sm_state m") (simp_all add: transition_cases)
  then have "sm_state (run_events (ShutdownRequested # evs) m) = Shutdown"
    by (simp add: run_events_Shutdown)
  then show ?thesis by (simp add: can_gossip_def can_commit_def run_events_gas)
qed

lemma shutdown_absorbing_witness:
  "\<not> can_gossip (run_events [ShutdownRequested, GasReplenished, SetupComplete] sm_new)
   \<and> \<not> can_commit (run_events [SetupComplete, StrategyConnected, FirstBatchEntered, GasCritical] sm_new)
   \<and> can_commit (run_events [SetupComplete, StrategyConnected, FirstBatchEntered] sm_new)"
  using shutdown_absorbing [OF sm_start, of "[GasReplenished, SetupComplete]"]
    shutdown_absorbing [OF sm_start, of "[SetupComplete, StrategyConnected, FirstBatchEntered, GasCritical]"]
  by (simp add: transition_cases sm_new_def can_commit_def)

text \<open>
  A pause is transparent: in every reachable machine a pause that is accepted followed by the
  resume brings back exactly the machine before the pause, whatever gas events and refused events
  came in between, up to the gas flag; and the default of \<open>unwrap_or(Trading)\<close> is never used.
\<close>

theorem pause_resume_roundtrip:
  assumes "sm_reach m" "snd (transition (PauseDetected b) m) = Inr s"
    and "\<forall>ev \<in> set evs. ev \<notin> {ResumeDetected, ShutdownRequested}"
  shows "run_events (PauseDetected b # evs @ [ResumeDetected]) m =
    m\<lparr>sm_gas_critical := gas_flag (sm_gas_critical m) evs\<rparr>"
proof -
  have inv: "sm_inv m" by (rule sm_reach_inv [OF assms(1)])
  define p where "p = fst (transition (PauseDetected b) m)"
  have st: "sm_state m \<in> {Trading, Observing}" "sm_previous_state m = None"
    and p: "p = m\<lparr>sm_previous_state := Some (sm_state m), sm_state := Paused\<rparr>"
    using assms(2) inv unfolding p_def
    by (cases "sm_state m"; simp add: transition_cases sm_inv_def)+
  have stay: "run_events evs q = q\<lparr>sm_gas_critical := gas_flag (sm_gas_critical q) evs\<rparr>"
    if "sm_state q = Paused" for q
    using that assms(3)
  proof (induction evs arbitrary: q)
    case Nil
    then show ?case by simp
  next
    case (Cons ev evs)
    then show ?case by (cases ev) (auto simp: transition_cases)
  qed
  have "run_events (PauseDetected b # evs @ [ResumeDetected]) m
      = fst (transition ResumeDetected (run_events evs p))"
    by (simp add: p_def run_events_def)
  also have "\<dots> = m\<lparr>sm_gas_critical := gas_flag (sm_gas_critical m) evs\<rparr>"
    using st by (subst stay) (simp_all add: p transition_cases)
  finally show ?thesis .
qed

lemma pause_resume_roundtrip_witness:
  "run_events [PauseDetected 9, GasCritical, StrategyConnected, ResumeDetected]
     (run_events [SetupComplete, StrategyConnected, FirstBatchEntered] sm_new)
   = \<lparr>sm_state = Trading, sm_previous_state = None, sm_gas_critical = True\<rparr>"
  using pause_resume_roundtrip [OF sm_reach_run [OF sm_start],
      of 9 "[SetupComplete, StrategyConnected, FirstBatchEntered]" Paused "[GasCritical, StrategyConnected]"]
  by (simp add: transition_cases sm_new_def)

text \<open>
  A strategy that disconnects while the node is paused or limited is forgotten: the event is
  refused, and the resume (or the reactivation) brings the node back to a state in which it may
  commit, although no strategy is connected.
\<close>

theorem disconnect_while_suspended_ignored:
  assumes "sm_reach m" "sm_state m = Trading"
  shows "sm_state (run_events [PauseDetected b, StrategyDisconnected, ResumeDetected] m) = Trading
    \<and> sm_state (run_events [InactiveDetected, StrategyDisconnected, Reactivated] m) = Trading
    \<and> can_commit (run_events [PauseDetected b, StrategyDisconnected, ResumeDetected] m)
        = (\<not> sm_gas_critical m)"
  using assms(2) by (simp add: transition_cases can_commit_def)

lemma disconnect_while_suspended_ignored_witness:
  "can_commit (run_events [PauseDetected 3, StrategyDisconnected, ResumeDetected]
     (run_events [SetupComplete, StrategyConnected, FirstBatchEntered] sm_new))"
  using disconnect_while_suspended_ignored [OF sm_reach_run [OF sm_start],
      of "[SetupComplete, StrategyConnected, FirstBatchEntered]" 3]
  by (simp add: transition_cases sm_new_def)

end
