(* ===== verification/Gas.thy ===== *)
theory Gas
  imports Text
begin

text \<open>
  \<open>crates/gas_manager/src/lib.rs\<close>: the gas balance with its two thresholds, and the two decisions
  the main loop of \<open>src/run.rs\<close> takes at a batch boundary from the gas and liveness state: the
  trading pause with hysteresis (\<open>gas_pause_step\<close>) and the batch in which a heartbeat is sent
  (\<open>heartbeat_due\<close>).
\<close>

datatype gas_status = GasNormal | GasLow | GasCriticalStatus

record bond_reclaim_check =
  reclaimable :: bool
  brc_unlock_at :: u64
  brc_current_block :: u64

record gas_manager =
  gm_balance :: u64
  warn_threshold :: u64
  critical_threshold :: u64
  gm_decimals :: u8

text \<open>\<open>10u64.pow(decimals)\<close> wraps in the release profile.\<close>

definition gm_factor :: "u8 \<Rightarrow> u64" where
  "gm_factor d = 10 ^ unat d"

definition gm_new :: "u8 \<Rightarrow> gas_manager" where
  "gm_new d = \<lparr>gm_balance = 0, warn_threshold = 10 * gm_factor d,
     critical_threshold = 1 * gm_factor d, gm_decimals = d\<rparr>"

definition with_thresholds :: "u8 \<Rightarrow> u64 \<Rightarrow> u64 \<Rightarrow> gas_manager" where
  "with_thresholds d warn critical = \<lparr>gm_balance = 0, warn_threshold = warn,
     critical_threshold = critical, gm_decimals = d\<rparr>"

definition check_status :: "gas_manager \<Rightarrow> gas_status" where
  "check_status g =
     (if gm_balance g < critical_threshold g then GasCriticalStatus
      else if gm_balance g < warn_threshold g then GasLow
      else GasNormal)"

definition should_trade :: "gas_manager \<Rightarrow> bool" where
  "should_trade g = (check_status g \<noteq> GasCriticalStatus)"

definition update_balance :: "u64 \<Rightarrow> gas_manager \<Rightarrow> gas_manager \<times> (gas_status \<times> gas_status)" where
  "update_balance new_balance g =
     (let old_status = check_status g; g' = g\<lparr>gm_balance := new_balance\<rparr>
      in (g', (old_status, check_status g')))"

text \<open>\<open>{:0>width$}\<close> pads on the left with zeros. A factor that wrapped to zero divides by zero.\<close>

definition pad_left :: "nat \<Rightarrow> string \<Rightarrow> string" where
  "pad_left n s = replicate (n - length s) CHR ''0'' @ s"

definition balance_display :: "gas_manager \<Rightarrow> string option" where
  "balance_display g =
     (let factor = gm_factor (gm_decimals g) in
      case checked_div (gm_balance g) factor of
        None \<Rightarrow> None
      | Some whole \<Rightarrow>
         (case checked_rem (gm_balance g) factor of
            None \<Rightarrow> None
          | Some frac \<Rightarrow>
              Some (u64_str whole @ ''.'' @ pad_left (unat (gm_decimals g)) (u64_str frac))))"

definition check_bond_reclaim :: "u64 \<Rightarrow> u64 \<Rightarrow> bond_reclaim_check" where
  "check_bond_reclaim unlock current_block =
     \<lparr>reclaimable = (unlock \<le> current_block), brc_unlock_at = unlock,
      brc_current_block = current_block\<rparr>"

section \<open>The trading pause of the main loop\<close>

record gas_pause =
  trading_paused :: bool
  paused_since_batch :: u64

definition gas_pause_start :: gas_pause where
  "gas_pause_start = \<lparr>trading_paused = False, paused_since_batch = 0\<rparr>"

definition gas_pause_step :: "u64 \<Rightarrow> gas_status \<Rightarrow> gas_pause \<Rightarrow> gas_pause" where
  "gas_pause_step new_batch_id gas_status p =
     (if \<not> trading_paused p \<and> gas_status = GasCriticalStatus
      then \<lparr>trading_paused = True, paused_since_batch = new_batch_id\<rparr>
      else if trading_paused p \<and> gas_status = GasNormal
      then \<lparr>trading_paused = False, paused_since_batch = 0\<rparr>
      else p)"

text \<open>Batch boundary by batch boundary, with the status read at each.\<close>

definition gas_pause_run :: "(u64 \<times> gas_status) list \<Rightarrow> gas_pause" where
  "gas_pause_run obs = foldl (\<lambda>p (b, s). gas_pause_step b s p) gas_pause_start obs"

text \<open>The batches since the last \<open>Normal\<close> reading, in order.\<close>

definition since_normal :: "(u64 \<times> gas_status) list \<Rightarrow> (u64 \<times> gas_status) list" where
  "since_normal obs = rev (takeWhile (\<lambda>(b, s). s \<noteq> GasNormal) (rev obs))"

lemma since_normal_snoc [simp]:
  "since_normal (obs @ [(b, s)]) = (if s = GasNormal then [] else since_normal obs @ [(b, s)])"
  by (simp add: since_normal_def)

lemma gas_pause_run_snoc [simp]:
  "gas_pause_run (obs @ [(b, s)]) = gas_pause_step b s (gas_pause_run obs)"
  by (simp add: gas_pause_run_def)

section \<open>The heartbeat schedule of the main loop\<close>

text \<open>\<open>has_capital && !settlement_refreshed && heartbeat_interval > 0 && new_batch_id % interval ==
  nft_id % interval\<close>; a zero interval is caught by the third conjunct before the remainder.\<close>

definition settlement_refreshed :: "u64 \<Rightarrow> u64 \<Rightarrow> u64 \<Rightarrow> bool" where
  "settlement_refreshed last_settlement_batch new_batch_id heartbeat_interval =
     (0 < last_settlement_batch \<and>
      saturating_sub new_batch_id last_settlement_batch < heartbeat_interval)"

definition heartbeat_due :: "bool \<Rightarrow> u64 \<Rightarrow> u64 \<Rightarrow> u64 \<Rightarrow> u64 \<Rightarrow> bool" where
  "heartbeat_due has_capital last_settlement_batch heartbeat_interval nft_id new_batch_id =
     (has_capital \<and> \<not> settlement_refreshed last_settlement_batch new_batch_id heartbeat_interval \<and>
      0 < heartbeat_interval \<and>
      new_batch_id mod heartbeat_interval = nft_id mod heartbeat_interval)"

definition clamp_heartbeat_interval :: "u64 \<Rightarrow> u64" where
  "clamp_heartbeat_interval new_interval = (if new_interval = 0 then 10 else new_interval)"

section \<open>Properties\<close>

lemma unat_gm_factor: "unat d \<le> 19 \<Longrightarrow> unat (gm_factor d) = 10 ^ unat d"
proof -
  assume "unat d \<le> 19"
  then have "(10::nat) ^ unat d \<le> 10 ^ 19" by (rule power_increasing) simp
  then have "(10::nat) ^ unat d < 2 ^ 64" by (rule le_less_trans) simp
  moreover have "gm_factor d = word_of_nat (10 ^ unat d)" by (simp add: gm_factor_def)
  ultimately show ?thesis by (simp only: unat_of_nat) simp
qed

text \<open>
  The default thresholds are 10 and 1 whole units: for up to 18 decimals they do not wrap, the
  status is decided by the balance in whole units, and trading is allowed from one unit on.
\<close>

theorem gas_thresholds:
  assumes "unat d \<le> 18" and g: "g = fst (update_balance bal (gm_new d))"
  shows "check_status g = (if unat bal < 10 ^ unat d then GasCriticalStatus
      else if unat bal < 10 * 10 ^ unat d then GasLow else GasNormal)
    \<and> should_trade g = (1 \<le> unat bal div 10 ^ unat d)"
proof -
  have "(10::nat) ^ unat d \<le> 10 ^ 18" using assms(1) by (intro power_increasing) simp_all
  then have u: "unat (10 * gm_factor d) = 10 * 10 ^ unat d" "unat (gm_factor d) = 10 ^ unat d"
    using assms(1) by (simp_all add: unat_word_ariths unat_gm_factor)
  have "(1 \<le> unat bal div 10 ^ unat d) = (10 ^ unat d \<le> unat bal)"
    by (simp add: Suc_le_eq div_greater_zero_iff)
  then show ?thesis
    by (auto simp: g update_balance_def Let_def gm_new_def check_status_def should_trade_def
        word_less_nat_alt u)
qed

lemma gas_thresholds_witness:
  "check_status (fst (update_balance 999999999 (gm_new 8))) = GasLow
   \<and> should_trade (fst (update_balance 100000000 (gm_new 8)))
   \<and> \<not> should_trade (fst (update_balance 99999999 (gm_new 8)))"
  using gas_thresholds [of 8 _ 999999999] gas_thresholds [of 8 _ 100000000]
    gas_thresholds [of 8 _ 99999999] by simp

text \<open>
  The trading pause has hysteresis: after any sequence of batch boundaries the node is paused
  exactly when a critical reading was made since the last normal one, and \<open>paused_since_batch\<close> is
  then the batch of the first such reading; low readings alone neither pause nor resume.
\<close>

theorem gas_pause_hysteresis:
  "gas_pause_run obs =
     (case filter (\<lambda>(b, s). s = GasCriticalStatus) (since_normal obs) of
        [] \<Rightarrow> \<lparr>trading_paused = False, paused_since_batch = 0\<rparr>
      | (b, s) # _ \<Rightarrow> \<lparr>trading_paused = True, paused_since_batch = b\<rparr>)"
proof (induction obs rule: rev_induct)
  case Nil
  then show ?case by (simp add: gas_pause_run_def gas_pause_start_def since_normal_def)
next
  case (snoc x obs)
  obtain b s where [simp]: "x = (b, s)" by (cases x)
  show ?case
    by (cases s) (simp_all add: snoc.IH gas_pause_step_def split: list.split prod.split)
qed

lemma mod_slot:
  fixes b n i :: nat
  assumes "0 < i"
  obtains k where "k < i" "(b + k) mod i = n mod i"
proof
  define k where "k = (n mod i + (i - b mod i)) mod i"
  show "k < i" using assms by (simp add: k_def)
  have "b mod i \<le> i" using assms by (simp add: less_imp_le)
  then have "b mod i + (n mod i + (i - b mod i)) = n mod i + i" by simp
  then have "(b mod i + (n mod i + (i - b mod i))) mod i = n mod i" by simp
  then have "(b + (n mod i + (i - b mod i))) mod i = n mod i" by (metis mod_add_left_eq)
  then show "(b + k) mod i = n mod i" by (simp only: k_def mod_add_right_eq)
qed

text \<open>
  Liveness of the heartbeat: with capital in escrow and a positive interval, once the last
  settlement is at least one interval old (or there was none) a heartbeat falls due within the next
  interval of batches, and no two heartbeats fall due in fewer batches than the interval.
\<close>

theorem heartbeat_liveness:
  assumes "0 < interval" "\<not> settlement_refreshed last_settle b interval"
    and "unat b + unat interval < 2 ^ 64"
  shows "(\<exists>k < interval. heartbeat_due True last_settle interval nft (b + k))
    \<and> (\<forall>k < interval. 0 < k \<longrightarrow> heartbeat_due True last_settle interval nft b \<longrightarrow>
        \<not> heartbeat_due True last_settle interval nft (b + k))"
proof
  have i: "0 < unat interval" using assms(1) by (simp add: word_less_nat_alt)
  have fresh: "\<not> settlement_refreshed last_settle (b + k) interval"
    and sum: "unat (b + k) = unat b + unat k" if "k < interval" for k
  proof -
    show s: "unat (b + k) = unat b + unat k"
      using that assms(3) by (intro unat_add_no_wrap) (simp add: word_less_nat_alt)
    show "\<not> settlement_refreshed last_settle (b + k) interval"
      using assms(2) s by (auto simp: settlement_refreshed_def word_less_nat_alt)
  qed
  obtain k where k: "k < unat interval" "(unat b + k) mod unat interval = unat nft mod unat interval"
    using mod_slot [OF i] .
  define w :: u64 where "w = word_of_nat k"
  have "k < 2 ^ 64" using k(1) unat_bound [of interval] by simp
  then have w: "unat w = k" by (simp add: w_def unat_of_nat)
  then have "w < interval" using k(1) by (simp add: word_less_nat_alt)
  then show "\<exists>k < interval. heartbeat_due True last_settle interval nft (b + k)"
    using k(2) w fresh sum assms(1)
    by (auto simp: heartbeat_due_def word_arith_nat_mod intro!: exI [of _ w])
  show "\<forall>k < interval. 0 < k \<longrightarrow> heartbeat_due True last_settle interval nft b \<longrightarrow>
        \<not> heartbeat_due True last_settle interval nft (b + k)"
  proof (intro allI impI notI)
    fix k assume k: "k < interval" "0 < k" "heartbeat_due True last_settle interval nft b"
      "heartbeat_due True last_settle interval nft (b + k)"
    then have "(b + k) mod interval = b mod interval" by (simp add: heartbeat_due_def)
    then have "(unat b + unat k) mod unat interval = unat b mod unat interval"
      by (metis sum [OF k(1)] unat_mod_distrib)
    then have "unat interval dvd unat k"
      by (metis add_diff_cancel_left' le_add1 mod_eq_dvd_iff_nat)
    then show False using k(1,2)
      by (auto simp: word_less_nat_alt dest: dvd_imp_le)
  qed
qed

lemma heartbeat_liveness_witness:
  "\<exists>k < 10. heartbeat_due True 95 10 7 (105 + k)"
  using heartbeat_liveness [of 10 95 105 7] by (simp add: settlement_refreshed_def saturating_sub_def)

end
