(* ===== verification/Escrow.thy ===== *)
theory Escrow
  imports Text
begin

text \<open>
  \<open>crates/escrow_tracker/src/lib.rs\<close>: the projected balances behind the node's own orders. Every
  operation is a function on the tracker that also returns the code's \<open>Result\<close>; \<open>entry().or_default()\<close>
  leaves a default balance behind on the error paths too. Sums of \<open>u64\<close> wrap as in the release
  profile; \<open>apply_match\<close> is \<open>None\<close> where \<open>/ divisor\<close> panics on a zero divisor.
\<close>

datatype escrow_error =
    InsufficientBalance (ib_need: u64) (ib_have: u64)
  | UnknownToken string
  | DuplicatePending string
  | PendingNotFound string
  | EarmarkExceedsProjected (ee_need: u64) (ee_have: u64)

datatype escrow_side = Buy | Sell

record token_balance =
  confirmed :: u64
  pending_out :: "(string, u64) hmap"
  pending_in :: "(string, u64) hmap"
  earmarked :: u64

definition default_balance :: token_balance where
  "default_balance = \<lparr>confirmed = 0, pending_out = [], pending_in = [], earmarked = 0\<rparr>"

definition total_pending_out :: "token_balance \<Rightarrow> u64" where
  "total_pending_out b = sum_list (hm_values (pending_out b))"

definition total_pending_in :: "token_balance \<Rightarrow> u64" where
  "total_pending_in b = sum_list (hm_values (pending_in b))"

definition tb_projected :: "token_balance \<Rightarrow> u64" where
  "tb_projected b =
     saturating_sub (saturating_sub (confirmed b) (sum_list (hm_values (pending_out b)))) (earmarked b)"

record escrow_tracker =
  balances :: "(string, token_balance) hmap"

definition escrow_new :: escrow_tracker where
  "escrow_new = \<lparr>balances = []\<rparr>"

definition entry_or_default :: "string \<Rightarrow> escrow_tracker \<Rightarrow> token_balance" where
  "entry_or_default token t = hm_get_or default_balance (balances t) token"

definition put_balance :: "string \<Rightarrow> token_balance \<Rightarrow> escrow_tracker \<Rightarrow> escrow_tracker" where
  "put_balance token b t = t\<lparr>balances := hm_insert token b (balances t)\<rparr>"

definition set_confirmed :: "string \<Rightarrow> u64 \<Rightarrow> escrow_tracker \<Rightarrow> escrow_tracker" where
  "set_confirmed token amount t = put_balance token ((entry_or_default token t)\<lparr>confirmed := amount\<rparr>) t"

definition reserve_outflow ::
  "string \<Rightarrow> string \<Rightarrow> u64 \<Rightarrow> escrow_tracker \<Rightarrow> escrow_tracker \<times> (escrow_error + unit)" where
  "reserve_outflow token match_hash amount t =
     (let bal = entry_or_default token t; t0 = put_balance token bal t in
      if hm_contains (pending_out bal) match_hash then (t0, Inl (DuplicatePending match_hash))
      else if tb_projected bal < amount
      then (t0, Inl (InsufficientBalance amount (tb_projected bal)))
      else (put_balance token (bal\<lparr>pending_out := hm_insert match_hash amount (pending_out bal)\<rparr>) t,
            Inr ()))"

definition track_inflow ::
  "string \<Rightarrow> string \<Rightarrow> u64 \<Rightarrow> escrow_tracker \<Rightarrow> escrow_tracker \<times> (escrow_error + unit)" where
  "track_inflow token match_hash amount t =
     (let bal = entry_or_default token t; t0 = put_balance token bal t in
      if hm_contains (pending_in bal) match_hash then (t0, Inl (DuplicatePending match_hash))
      else (put_balance token (bal\<lparr>pending_in := hm_insert match_hash amount (pending_in bal)\<rparr>) t,
            Inr ()))"

text \<open>The body of the loop over \<open>values_mut\<close> in \<open>confirm_settlement\<close> and in \<open>release_pending\<close>, and
  whether some balance held an entry.\<close>

definition holds_pending :: "string \<Rightarrow> token_balance \<Rightarrow> bool" where
  "holds_pending match_hash b =
     (hm_contains (pending_out b) match_hash \<or> hm_contains (pending_in b) match_hash)"

definition confirm_balance :: "string \<Rightarrow> token_balance \<Rightarrow> token_balance" where
  "confirm_balance match_hash b =
     (let b1 = b\<lparr>pending_out := hm_remove match_hash (pending_out b)\<rparr> in
      case hm_get (pending_in b1) match_hash of
        None \<Rightarrow> b1
      | Some inflow \<Rightarrow> b1\<lparr>pending_in := hm_remove match_hash (pending_in b1),
                          confirmed := confirmed b1 + inflow\<rparr>)"

definition release_balance :: "string \<Rightarrow> token_balance \<Rightarrow> token_balance" where
  "release_balance match_hash b =
     b\<lparr>pending_out := hm_remove match_hash (pending_out b),
       pending_in := hm_remove match_hash (pending_in b)\<rparr>"

definition has_pending :: "string \<Rightarrow> escrow_tracker \<Rightarrow> bool" where
  "has_pending match_hash t = list_ex (holds_pending match_hash) (hm_values (balances t))"

definition confirm_settlement ::
  "string \<Rightarrow> escrow_tracker \<Rightarrow> escrow_tracker \<times> (escrow_error + unit)" where
  "confirm_settlement match_hash t =
     (t\<lparr>balances := hm_map_values (confirm_balance match_hash) (balances t)\<rparr>,
      if has_pending match_hash t then Inr () else Inl (PendingNotFound match_hash))"

definition release_pending ::
  "string \<Rightarrow> escrow_tracker \<Rightarrow> escrow_tracker \<times> (escrow_error + unit)" where
  "release_pending match_hash t =
     (t\<lparr>balances := hm_map_values (release_balance match_hash) (balances t)\<rparr>,
      if has_pending match_hash t then Inr () else Inl (PendingNotFound match_hash))"

definition earmark_withdrawal ::
  "string \<Rightarrow> u64 \<Rightarrow> escrow_tracker \<Rightarrow> escrow_tracker \<times> (escrow_error + unit)" where
  "earmark_withdrawal token amount t =
     (let bal = entry_or_default token t in
      if tb_projected bal < amount
      then (put_balance token bal t, Inl (EarmarkExceedsProjected amount (tb_projected bal)))
      else (put_balance token (bal\<lparr>earmarked := earmarked bal + amount\<rparr>) t, Inr ()))"

definition release_earmark ::
  "string \<Rightarrow> u64 \<Rightarrow> bool \<Rightarrow> escrow_tracker \<Rightarrow> escrow_tracker \<times> (escrow_error + unit)" where
  "release_earmark token amount executed t =
     (case hm_get (balances t) token of
        None \<Rightarrow> (t, Inl (UnknownToken token))
      | Some bal \<Rightarrow>
         (let b1 = bal\<lparr>earmarked := saturating_sub (earmarked bal) amount\<rparr>;
              b2 = (if executed then b1\<lparr>confirmed := saturating_sub (confirmed b1) amount\<rparr> else b1)
          in (put_balance token b2 t, Inr ())))"

definition projected :: "string \<Rightarrow> escrow_tracker \<Rightarrow> u64" where
  "projected token t = (case hm_get (balances t) token of None \<Rightarrow> 0 | Some b \<Rightarrow> tb_projected b)"

definition get_balance :: "string \<Rightarrow> escrow_tracker \<Rightarrow> token_balance option" where
  "get_balance token t = hm_get (balances t) token"

definition can_afford :: "string \<Rightarrow> u64 \<Rightarrow> escrow_tracker \<Rightarrow> bool" where
  "can_afford token amount t = (amount \<le> projected token t)"

definition safe_transfer_max :: "string \<Rightarrow> u64 \<Rightarrow> escrow_tracker \<Rightarrow> u64" where
  "safe_transfer_max token base_capital t = saturating_sub (projected token t) base_capital"

text \<open>\<open>base_decimals as u32 + 8 - quote_decimals as u32\<close> wraps at 32 bits, \<open>10u128.pow\<close> at 128,
  and the quotient is truncated to 64.\<close>

definition price_exponent :: "u8 \<Rightarrow> u8 \<Rightarrow> u32" where
  "price_exponent base_decimals quote_decimals = ucast base_decimals + 8 - ucast quote_decimals"

definition price_divisor :: "u8 \<Rightarrow> u8 \<Rightarrow> u128" where
  "price_divisor base_decimals quote_decimals = 10 ^ unat (price_exponent base_decimals quote_decimals)"

definition quote_amount :: "u64 \<Rightarrow> u64 \<Rightarrow> u128 \<Rightarrow> u64 option" where
  "quote_amount quantity price divisor =
     map_option ucast (checked_div (ucast quantity * ucast price :: u128) divisor)"

definition apply_match ::
  "string \<Rightarrow> escrow_side \<Rightarrow> string \<Rightarrow> string \<Rightarrow> u64 \<Rightarrow> u64 \<Rightarrow> u64 \<Rightarrow> u8 \<Rightarrow> u8 \<Rightarrow> escrow_tracker
    \<Rightarrow> (escrow_tracker \<times> (escrow_error + unit)) option" where
  "apply_match match_hash my_side base_token quote_token fill_quantity buyer_price settlement_price
       base_decimals quote_decimals t =
     (let divisor = price_divisor base_decimals quote_decimals in
      case my_side of
        Buy \<Rightarrow>
         (case quote_amount fill_quantity buyer_price divisor of
            None \<Rightarrow> None
          | Some quote_outflow \<Rightarrow>
             (case reserve_outflow quote_token match_hash quote_outflow t of
                (t1, Inl e) \<Rightarrow> Some (t1, Inl e)
              | (t1, Inr _) \<Rightarrow> Some (track_inflow base_token match_hash fill_quantity t1)))
      | Sell \<Rightarrow>
         (case quote_amount fill_quantity settlement_price divisor of
            None \<Rightarrow> None
          | Some quote_inflow \<Rightarrow>
             (case reserve_outflow base_token match_hash fill_quantity t of
                (t1, Inl e) \<Rightarrow> Some (t1, Inl e)
              | (t1, Inr _) \<Rightarrow> Some (track_inflow quote_token match_hash quote_inflow t1))))"

definition tracked_tokens :: "escrow_tracker \<Rightarrow> string list" where
  "tracked_tokens t = hm_keys (balances t)"

section \<open>Solvency\<close>

text \<open>Over natural numbers: what a balance has committed, and that the confirmed balance covers it.\<close>

definition out_total :: "token_balance \<Rightarrow> nat" where
  "out_total b = sum_list (map unat (hm_values (pending_out b)))"

definition tb_ok :: "token_balance \<Rightarrow> bool" where
  "tb_ok b \<longleftrightarrow> hm_wf (pending_out b) \<and> hm_wf (pending_in b) \<and>
     out_total b + unat (earmarked b) \<le> unat (confirmed b)"

definition esc_ok :: "escrow_tracker \<Rightarrow> bool" where
  "esc_ok t \<longleftrightarrow> hm_wf (balances t) \<and> (\<forall>k b. hm_get (balances t) k = Some b \<longrightarrow> tb_ok b)"

lemma unat_sum_list:
  fixes ws :: "'a::len word list"
  assumes "sum_list (map unat ws) < 2 ^ LENGTH('a)"
  shows "unat (sum_list ws) = sum_list (map unat ws)"
  using assms by (induction ws) (simp_all add: unat_add_no_wrap)

lemma hm_values_Cons [simp]: "hm_values [] = []" "hm_values ((k, v) # m) = v # hm_values m"
  by (simp_all add: hm_values_def)

lemma sum_insert_absent:
  "hm_get m k = None \<Longrightarrow> sum_list (map f (hm_values (hm_insert k v m))) = sum_list (map f (hm_values m)) + (f v :: nat)"
  by (simp add: hm_insert_absent hm_values_def)

lemma sum_remove:
  "hm_wf m \<Longrightarrow> sum_list (map f (hm_values (hm_remove k m))) + (case hm_get m k of None \<Rightarrow> 0 | Some v \<Rightarrow> f v)
     = (sum_list (map f (hm_values m)) :: nat)"
proof (induction m)
  case Nil
  then show ?case by (simp add: hm_remove_def)
next
  case (Cons p m)
  then show ?case
    by (cases p; cases "fst p = k")
      (auto simp: hm_wf_def hm_remove_def hm_values_def delete_id map_of_eq_None_iff [THEN iffD2] image_iff)
qed

lemma tb_ok_projected:
  "tb_ok b \<Longrightarrow> unat (tb_projected b) + out_total b + unat (earmarked b) = unat (confirmed b)"
  using unat_bound [of "confirmed b"]
  by (simp add: tb_ok_def tb_projected_def out_total_def unat_sum_list)

lemma tb_ok_default [simp, wf_intros]: "tb_ok default_balance"
  by (simp add: tb_ok_def default_balance_def out_total_def)

lemma esc_ok_entry: "esc_ok t \<Longrightarrow> tb_ok (entry_or_default token t)"
  by (auto simp: esc_ok_def entry_or_default_def hm_get_or_def split: option.split)

lemma tb_ok_reserve:
  assumes "tb_ok b" "hm_get (pending_out b) h = None" "a \<le> tb_projected b"
  shows "tb_ok (b\<lparr>pending_out := hm_insert h a (pending_out b)\<rparr>)"
  using assms(1,3) tb_ok_projected [OF assms(1)]
  by (simp add: tb_ok_def out_total_def sum_insert_absent [OF assms(2)] word_le_nat_alt)

lemma tb_ok_track: "tb_ok b \<Longrightarrow> tb_ok (b\<lparr>pending_in := hm_insert h a (pending_in b)\<rparr>)"
  by (simp add: tb_ok_def out_total_def)

lemma tb_ok_earmark:
  assumes "tb_ok b" "a \<le> tb_projected b"
  shows "tb_ok (b\<lparr>earmarked := earmarked b + a\<rparr>)"
proof -
  have "unat (earmarked b) + unat a \<le> unat (confirmed b)"
    using tb_ok_projected [OF assms(1)] assms(2) by (simp add: word_le_nat_alt)
  then have "unat (earmarked b + a) = unat (earmarked b) + unat a"
    using unat_bound [of "confirmed b"] by (intro unat_add_no_wrap) simp
  then show ?thesis
    using assms tb_ok_projected [OF assms(1)] by (simp add: tb_ok_def out_total_def word_le_nat_alt)
qed

lemma tb_ok_release: "tb_ok b \<Longrightarrow> tb_ok (release_balance h b)"
  using sum_remove [of "pending_out b" unat h]
  by (auto simp: tb_ok_def release_balance_def out_total_def)

text \<open>What holds of every balance, solvent or not: the committed outflows do not wrap.\<close>

definition tb_sane :: "token_balance \<Rightarrow> bool" where
  "tb_sane b \<longleftrightarrow> hm_wf (pending_out b) \<and> hm_wf (pending_in b) \<and> out_total b < 2 ^ 64"

definition esc_sane :: "escrow_tracker \<Rightarrow> bool" where
  "esc_sane t \<longleftrightarrow> hm_wf (balances t) \<and> (\<forall>k b. hm_get (balances t) k = Some b \<longrightarrow> tb_sane b)"

lemma tb_sane_projected:
  "tb_sane b \<Longrightarrow> unat (tb_projected b) = unat (confirmed b) - out_total b - unat (earmarked b)"
  by (simp add: tb_sane_def tb_projected_def out_total_def unat_sum_list)

lemma tb_ok_sane: "tb_ok b \<longleftrightarrow> tb_sane b \<and> out_total b + unat (earmarked b) \<le> unat (confirmed b)"
  using unat_bound [of "confirmed b"] by (auto simp: tb_ok_def tb_sane_def)

lemma tb_sane_default [simp]: "tb_sane default_balance"
  using tb_ok_default by (simp only: tb_ok_sane)

lemma tb_sane_update [simp]:
  "tb_sane (b\<lparr>confirmed := a\<rparr>) = tb_sane b" "tb_sane (b\<lparr>earmarked := a\<rparr>) = tb_sane b"
  by (simp_all add: tb_sane_def out_total_def)

lemma tb_sane_track: "tb_sane b \<Longrightarrow> tb_sane (b\<lparr>pending_in := hm_insert h a (pending_in b)\<rparr>)"
  by (simp add: tb_sane_def out_total_def)

lemma tb_sane_reserve:
  assumes "tb_sane b" "hm_get (pending_out b) h = None" "a \<le> tb_projected b"
  shows "tb_sane (b\<lparr>pending_out := hm_insert h a (pending_out b)\<rparr>)"
proof -
  have "unat a \<le> unat (confirmed b) - out_total b - unat (earmarked b)"
    using assms(3) tb_sane_projected [OF assms(1)] by (simp add: word_le_nat_alt)
  then have "out_total b + unat a < 2 ^ 64"
    using assms(1) unat_bound [of "confirmed b"] by (cases "unat a = 0") (auto simp: tb_sane_def)
  then show ?thesis
    using assms(1) by (simp add: tb_sane_def out_total_def sum_insert_absent [OF assms(2)])
qed

lemma tb_sane_release: "tb_sane b \<Longrightarrow> tb_sane (release_balance h b)"
  using sum_remove [of "pending_out b" unat h]
  by (auto simp: tb_sane_def release_balance_def out_total_def)

lemma tb_sane_confirm: "tb_sane b \<Longrightarrow> tb_sane (confirm_balance h b)"
  using sum_remove [of "pending_out b" unat h]
  by (auto simp: tb_sane_def confirm_balance_def Let_def out_total_def split: option.split)

lemma esc_sane_entry: "esc_sane t \<Longrightarrow> tb_sane (entry_or_default token t)"
  by (auto simp: esc_sane_def entry_or_default_def hm_get_or_def split: option.split)

lemma esc_sane_put: "esc_sane t \<Longrightarrow> tb_sane b \<Longrightarrow> esc_sane (put_balance token b t)"
  by (auto simp: esc_sane_def put_balance_def)

lemma esc_sane_map:
  "esc_sane t \<Longrightarrow> (\<And>b. tb_sane b \<Longrightarrow> tb_sane (f b)) \<Longrightarrow>
     esc_sane (t\<lparr>balances := hm_map_values f (balances t)\<rparr>)"
  by (auto simp: esc_sane_def)

lemmas esc_sane_intros = esc_sane_put esc_sane_map esc_sane_entry tb_sane_track tb_sane_reserve
  tb_sane_release tb_sane_confirm

text \<open>The inflow that a confirmation adds to one balance.\<close>

definition inflow_of :: "string \<Rightarrow> token_balance \<Rightarrow> u64" where
  "inflow_of h b = (case hm_get (pending_in b) h of None \<Rightarrow> 0 | Some v \<Rightarrow> v)"

definition outflow_of :: "string \<Rightarrow> token_balance \<Rightarrow> u64" where
  "outflow_of h b = (case hm_get (pending_out b) h of None \<Rightarrow> 0 | Some v \<Rightarrow> v)"

lemma tb_ok_confirm:
  assumes "tb_ok b" "unat (confirmed b) + unat (inflow_of h b) < 2 ^ 64"
  shows "tb_ok (confirm_balance h b)"
proof -
  have "unat (confirmed b + inflow_of h b) = unat (confirmed b) + unat (inflow_of h b)"
    using assms(2) by (intro unat_add_no_wrap) simp
  then show ?thesis
    using assms(1) sum_remove [of "pending_out b" unat h]
    by (auto simp: tb_ok_def confirm_balance_def Let_def out_total_def inflow_of_def split: option.split)
qed

section \<open>Operations as steps\<close>

datatype escrow_op =
    OSetConfirmed string u64
  | OReserve string string u64
  | OTrack string string u64
  | OConfirm string
  | ORelease string
  | OEarmark string u64
  | OReleaseEarmark string u64 bool
  | OApply string escrow_side string string u64 u64 u64 u8 u8

fun escrow_step :: "escrow_op \<Rightarrow> escrow_tracker \<Rightarrow> (escrow_tracker \<times> (escrow_error + unit)) option" where
  "escrow_step (OSetConfirmed k a) t = Some (set_confirmed k a t, Inr ())"
| "escrow_step (OReserve k h a) t = Some (reserve_outflow k h a t)"
| "escrow_step (OTrack k h a) t = Some (track_inflow k h a t)"
| "escrow_step (OConfirm h) t = Some (confirm_settlement h t)"
| "escrow_step (ORelease h) t = Some (release_pending h t)"
| "escrow_step (OEarmark k a) t = Some (earmark_withdrawal k a t)"
| "escrow_step (OReleaseEarmark k a x) t = Some (release_earmark k a x t)"
| "escrow_step (OApply h s b q f bp sp bd qd) t = apply_match h s b q f bp sp bd qd t"

inductive escrow_reach :: "escrow_tracker \<Rightarrow> bool" where
  er_start: "escrow_reach escrow_new"
| er_op: "escrow_reach t \<Longrightarrow> escrow_step op t = Some (t', r) \<Longrightarrow> escrow_reach t'"

lemma apply_match_cases:
  assumes "apply_match h s b q f bp sp bd qd t = Some (t', r)"
  obtains k a k' a' where
    "(\<exists>e. reserve_outflow k h a t = (t', Inl e) \<and> r = Inl e) \<or>
     (\<exists>t1. reserve_outflow k h a t = (t1, Inr ()) \<and> track_inflow k' h a' t1 = (t', r))"
    "(k, k') = (case s of Buy \<Rightarrow> (q, b) | Sell \<Rightarrow> (b, q))"
proof (cases s)
  case Buy
  with assms that [of q _ b f] show thesis
    by (auto simp: apply_match_def Let_def split: option.splits prod.splits sum.splits)
next
  case Sell
  with assms that [of b f q] show thesis
    by (auto simp: apply_match_def Let_def split: option.splits prod.splits sum.splits)
qed

lemma esc_sane_reserve: "esc_sane t \<Longrightarrow> reserve_outflow k h a t = (t', r) \<Longrightarrow> esc_sane t'"
  by (auto simp: reserve_outflow_def Let_def hm_contains_def not_less simp del: hm_contains_iff
      intro!: esc_sane_intros split: if_splits)

lemma esc_sane_inflow: "esc_sane t \<Longrightarrow> track_inflow k h a t = (t', r) \<Longrightarrow> esc_sane t'"
  by (auto simp: track_inflow_def Let_def intro!: esc_sane_intros split: if_splits)

lemma esc_sane_release_earmark:
  assumes "esc_sane t" "release_earmark k a x t = (t', r)"
  shows "esc_sane t'"
proof (cases "hm_get (balances t) k")
  case None
  with assms show ?thesis by (simp add: release_earmark_def)
next
  case (Some b)
  then have "tb_sane b" using assms(1) by (simp add: esc_sane_def)
  with assms Some show ?thesis
    by (auto simp: release_earmark_def Let_def intro!: esc_sane_put split: if_splits)
qed

lemma esc_sane_apply:
  assumes "esc_sane t" "apply_match h s b q f bp sp bd qd t = Some (t', r)"
  shows "esc_sane t'"
  using assms(2) by (rule apply_match_cases) (metis assms(1) esc_sane_reserve esc_sane_inflow)

lemma escrow_step_sane:
  assumes "esc_sane t" "escrow_step op t = Some (t', r)"
  shows "esc_sane t'"
proof (cases op)
  case (OEarmark k a)
  with assms show ?thesis
    by (auto simp: earmark_withdrawal_def Let_def intro!: esc_sane_intros split: if_splits)
next
  case (OSetConfirmed k a)
  with assms show ?thesis by (auto simp: set_confirmed_def intro!: esc_sane_intros)
next
  case (OConfirm h)
  with assms show ?thesis by (auto simp: confirm_settlement_def intro!: esc_sane_intros)
next
  case (ORelease h)
  with assms show ?thesis by (auto simp: release_pending_def intro!: esc_sane_intros)
next
  case (OReleaseEarmark k a x)
  with assms show ?thesis using esc_sane_release_earmark by auto
qed (use assms in \<open>auto intro: esc_sane_reserve esc_sane_inflow esc_sane_apply\<close>)

lemma esc_sane_new: "esc_sane escrow_new"
  by (simp add: esc_sane_def escrow_new_def)

lemma escrow_reach_sane: "escrow_reach t \<Longrightarrow> esc_sane t"
  by (induction rule: escrow_reach.induct) (simp add: esc_sane_new, rule escrow_step_sane)

section \<open>The interface of the settlement manager\<close>

text \<open>What a client that books, confirms and releases settlements relies on: which match hashes
  have pending entries, and that an operation on one hash leaves the others alone.\<close>

locale settlement_ledger =
  fixes book :: "string \<Rightarrow> 'm \<Rightarrow> 'l \<Rightarrow> ('l \<times> ('e + unit)) option"
    and settle :: "string \<Rightarrow> 'l \<Rightarrow> 'l \<times> ('e + unit)"
    and drop_entry :: "string \<Rightarrow> 'l \<Rightarrow> 'l \<times> ('e + unit)"
    and pending :: "string \<Rightarrow> 'l \<Rightarrow> bool"
    and ok :: "'l \<Rightarrow> bool"
  assumes book_pending: "book h m l = Some (l', Inr ()) \<Longrightarrow> pending h l'"
    and book_other: "ok l \<Longrightarrow> book h m l = Some (l', r) \<Longrightarrow> h \<noteq> h' \<Longrightarrow> pending h' l' = pending h' l"
    and book_ok: "ok l \<Longrightarrow> book h m l = Some (l', r) \<Longrightarrow> ok l'"
    and settle_pending: "pending h' (fst (settle h l)) = (h' \<noteq> h \<and> pending h' l)"
    and settle_verdict: "snd (settle h l) = Inr () \<longleftrightarrow> pending h l"
    and book_err: "ok l \<Longrightarrow> book h m l = Some (l', Inl e) \<Longrightarrow> pending h l' = pending h l"
    and settle_ok: "ok l \<Longrightarrow> ok (fst (settle h l))"
    and drop_pending: "pending h' (fst (drop_entry h l)) = (h' \<noteq> h \<and> pending h' l)"
    and drop_verdict: "snd (drop_entry h l) = Inr () \<longleftrightarrow> pending h l"
    and drop_ok: "ok l \<Longrightarrow> ok (fst (drop_entry h l))"
begin

lemma drop_after_book:
  "ok l \<Longrightarrow> book h m l = Some (l', Inr ()) \<Longrightarrow> h' \<noteq> h \<Longrightarrow>
     pending h' (fst (drop_entry h l')) = pending h' l"
  using book_other [of l h m l' "Inr ()" h'] by (simp add: drop_pending)

text \<open>A set of keys kept beside the ledger stays in step with it.\<close>

lemma in_step_book:
  assumes "ok l" "\<And>h'. h' \<in> K \<longleftrightarrow> pending h' l" "book h m l = Some (l', r)"
  shows "h' \<in> (if r = Inr () then insert h K else K) \<longleftrightarrow> pending h' l'"
proof (cases r)
  case (Inl e)
  then show ?thesis
    using assms book_err [of l h m l' e] book_other [of l h m l' r h'] by (cases "h' = h") auto
next
  case (Inr u)
  then show ?thesis
    using assms book_pending [of h m l l'] book_other [of l h m l' r h'] by (cases "h' = h") auto
qed

lemma in_step_settle:
  "(\<And>h'. h' \<in> K \<longleftrightarrow> pending h' l) \<Longrightarrow> h' \<in> K - {h} \<longleftrightarrow> pending h' (fst (settle h l))"
  by (auto simp: settle_pending)

lemma in_step_drop:
  "(\<And>h'. h' \<in> K \<longleftrightarrow> pending h' l) \<Longrightarrow> h' \<in> K - {h} \<longleftrightarrow> pending h' (fst (drop_entry h l))"
  by (auto simp: drop_pending)

lemma drop_twice: "snd (drop_entry h (fst (drop_entry h l))) \<noteq> Inr ()"
  by (simp add: drop_verdict drop_pending)

end

lemma has_pending_iff:
  "has_pending h t \<longleftrightarrow> (\<exists>b \<in> set (hm_values (balances t)). holds_pending h b)"
  by (simp add: has_pending_def list_ex_iff)

lemma hm_values_get: "hm_wf m \<Longrightarrow> v \<in> set (hm_values m) \<longleftrightarrow> (\<exists>k. hm_get m k = Some v)"
  by (simp flip: hm_wf_get) (force simp: hm_values_def)

lemma holds_default [simp]: "\<not> holds_pending h default_balance"
  by (simp add: holds_pending_def default_balance_def)

lemma has_pending_entry:
  "hm_wf (balances t) \<Longrightarrow> has_pending h t \<longleftrightarrow> (\<exists>k. holds_pending h (entry_or_default k t))"
proof -
  assume "hm_wf (balances t)"
  then have "has_pending h t \<longleftrightarrow> (\<exists>k b. hm_get (balances t) k = Some b \<and> holds_pending h b)"
    by (simp add: has_pending_iff Bex_def hm_values_get) blast
  also have "(\<exists>b. hm_get (balances t) k = Some b \<and> holds_pending h b) \<longleftrightarrow>
      holds_pending h (entry_or_default k t)" for k
    by (simp add: entry_or_default_def hm_get_or_def split: option.split)
  then have "(\<exists>k b. hm_get (balances t) k = Some b \<and> holds_pending h b) \<longleftrightarrow>
      (\<exists>k. holds_pending h (entry_or_default k t))" by simp
  finally show ?thesis .
qed

lemma entry_put [simp]:
  "entry_or_default k (put_balance k' b t) = (if k = k' then b else entry_or_default k t)"
  by (simp add: entry_or_default_def put_balance_def hm_get_or_def)

lemma wf_put [simp]: "hm_wf (balances t) \<Longrightarrow> hm_wf (balances (put_balance k b t))"
  by (simp add: put_balance_def)

lemma entry_map:
  "f default_balance = default_balance \<Longrightarrow>
    entry_or_default k (t\<lparr>balances := hm_map_values f (balances t)\<rparr>) = f (entry_or_default k t)"
  by (simp add: entry_or_default_def hm_get_or_def split: option.split)

lemma entry_confirm [simp]:
  "entry_or_default k (fst (confirm_settlement h t)) = confirm_balance h (entry_or_default k t)"
  by (simp add: confirm_settlement_def entry_map confirm_balance_def default_balance_def hm_remove_def)

lemma entry_release [simp]:
  "entry_or_default k (fst (release_pending h t)) = release_balance h (entry_or_default k t)"
  by (simp add: release_pending_def entry_map release_balance_def default_balance_def hm_remove_def)

text \<open>A successful or failed reservation, seen through the entries.\<close>

lemma reserve_outflow_Inr:
  "reserve_outflow k h a t = (t', Inr ()) \<longleftrightarrow>
     hm_get (pending_out (entry_or_default k t)) h = None \<and> a \<le> tb_projected (entry_or_default k t) \<and>
     t' = put_balance k ((entry_or_default k t)\<lparr>pending_out :=
            hm_insert h a (pending_out (entry_or_default k t))\<rparr>) t"
  by (auto simp: reserve_outflow_def Let_def hm_contains_def not_le simp del: hm_contains_iff)

lemma track_inflow_Inr:
  "track_inflow k h a t = (t', Inr ()) \<longleftrightarrow>
     hm_get (pending_in (entry_or_default k t)) h = None \<and>
     t' = put_balance k ((entry_or_default k t)\<lparr>pending_in :=
            hm_insert h a (pending_in (entry_or_default k t))\<rparr>) t"
  by (auto simp: track_inflow_def Let_def hm_contains_def simp del: hm_contains_iff)

lemma holds_after_reserve:
  "reserve_outflow k h a t = (t', r) \<Longrightarrow> h \<noteq> h' \<Longrightarrow>
     holds_pending h' (entry_or_default j t') = holds_pending h' (entry_or_default j t)"
  by (auto simp: reserve_outflow_def Let_def holds_pending_def hm_contains_def
      simp del: hm_contains_iff split: if_splits)

lemma holds_after_track:
  "track_inflow k h a t = (t', r) \<Longrightarrow> h \<noteq> h' \<Longrightarrow>
     holds_pending h' (entry_or_default j t') = holds_pending h' (entry_or_default j t)"
  by (auto simp: track_inflow_def Let_def holds_pending_def hm_contains_def
      simp del: hm_contains_iff split: if_splits)

lemma holds_confirm: "holds_pending h' (confirm_balance h b) = (h' \<noteq> h \<and> holds_pending h' b)"
  by (auto simp: holds_pending_def confirm_balance_def Let_def hm_contains_def
      simp del: hm_contains_iff split: option.splits)

lemma holds_release: "holds_pending h' (release_balance h b) = (h' \<noteq> h \<and> holds_pending h' b)"
  by (auto simp: holds_pending_def release_balance_def hm_contains_def simp del: hm_contains_iff)

lemma values_map [simp]: "hm_values (hm_map_values f m) = map f (hm_values m)"
  by (simp add: hm_values_def hm_map_values_def case_prod_unfold)

lemma has_pending_confirm: "has_pending h' (fst (confirm_settlement h t)) = (h' \<noteq> h \<and> has_pending h' t)"
  by (auto simp: has_pending_iff confirm_settlement_def holds_confirm)

lemma has_pending_release: "has_pending h' (fst (release_pending h t)) = (h' \<noteq> h \<and> has_pending h' t)"
  by (auto simp: has_pending_iff release_pending_def holds_release)

text \<open>The arguments of \<open>apply_match\<close> other than the match hash.\<close>

type_synonym booking = "escrow_side \<times> string \<times> string \<times> u64 \<times> u64 \<times> u64 \<times> u8 \<times> u8"

fun book_match :: "string \<Rightarrow> booking \<Rightarrow> escrow_tracker \<Rightarrow> (escrow_tracker \<times> (escrow_error + unit)) option" where
  "book_match h (s, b, q, f, bp, sp, bd, qd) t = apply_match h s b q f bp sp bd qd t"

lemma apply_match_pending:
  assumes "apply_match h s b q f bp sp bd qd t = Some (t', Inr ())"
  shows "has_pending h t'"
  using assms
proof (rule apply_match_cases)
  fix k a k' a'
  assume "(\<exists>e. reserve_outflow k h a t = (t', Inl e) \<and> Inr () = Inl e) \<or>
     (\<exists>t1. reserve_outflow k h a t = (t1, Inr ()) \<and> track_inflow k' h a' t1 = (t', Inr ()))"
  then obtain t1 where "track_inflow k' h a' t1 = (t', Inr ())" by auto
  then have "hm_get (balances t') k' = Some ((entry_or_default k' t1)\<lparr>pending_in :=
            hm_insert h a' (pending_in (entry_or_default k' t1))\<rparr>)"
    by (simp add: track_inflow_Inr put_balance_def)
  then show ?thesis
    by (auto simp: has_pending_iff hm_values_def image_iff holds_pending_def hm_contains_def
        simp del: hm_contains_iff intro!: bexI [of _ "(k', _)"] dest: map_of_SomeD)
qed

definition esc_wf :: "escrow_tracker \<Rightarrow> bool" where
  "esc_wf t = hm_wf (balances t)"

lemma wf_reserve: "esc_wf t \<Longrightarrow> reserve_outflow k h a t = (t', r) \<Longrightarrow> esc_wf t'"
  by (auto simp: esc_wf_def reserve_outflow_def Let_def split: if_splits)

lemma wf_track: "esc_wf t \<Longrightarrow> track_inflow k h a t = (t', r) \<Longrightarrow> esc_wf t'"
  by (auto simp: esc_wf_def track_inflow_def Let_def split: if_splits)

lemma wf_apply:
  assumes "esc_wf t" "apply_match h s b q f bp sp bd qd t = Some (t', r)"
  shows "esc_wf t'"
  using assms(2) by (rule apply_match_cases) (metis assms(1) wf_reserve wf_track)

lemma wf_map_balances: "esc_wf t \<Longrightarrow> esc_wf (t\<lparr>balances := hm_map_values f (balances t)\<rparr>)"
  by (simp add: esc_wf_def)

lemma apply_match_other:
  assumes "esc_wf t" "apply_match h s b q f bp sp bd qd t = Some (t', r)" "h \<noteq> h'"
  shows "has_pending h' t' = has_pending h' t"
  using assms(2)
proof (rule apply_match_cases)
  fix k a k' a'
  have wf: "hm_wf (balances t)" "hm_wf (balances t')"
    using assms(1) wf_apply [OF assms(1,2)] by (simp_all add: esc_wf_def)
  assume "(\<exists>e. reserve_outflow k h a t = (t', Inl e) \<and> r = Inl e) \<or>
     (\<exists>t1. reserve_outflow k h a t = (t1, Inr ()) \<and> track_inflow k' h a' t1 = (t', r))"
  then have "holds_pending h' (entry_or_default j t') = holds_pending h' (entry_or_default j t)" for j
    using assms(3) by (metis holds_after_reserve holds_after_track)
  then show ?thesis by (simp add: has_pending_entry wf)
qed

text \<open>A booking that fails leaves no entry behind that was not there: the inflow is refused only
  when the hash already has one.\<close>

lemma apply_match_err:
  assumes "esc_wf t" "apply_match h s b q f bp sp bd qd t = Some (t', Inl e)"
  shows "has_pending h t' = has_pending h t"
  using assms(2)
proof (rule apply_match_cases)
  fix k a k' a'
  have wf: "hm_wf (balances t)" "hm_wf (balances t')"
    using assms(1) wf_apply [OF assms] by (simp_all add: esc_wf_def)
  assume "(\<exists>e'. reserve_outflow k h a t = (t', Inl e') \<and> Inl e = Inl e') \<or>
     (\<exists>t1. reserve_outflow k h a t = (t1, Inr ()) \<and> track_inflow k' h a' t1 = (t', Inl e))"
  then show ?thesis
  proof (elim disjE exE conjE)
    fix e' assume "reserve_outflow k h a t = (t', Inl e')"
    then have "t' = put_balance k (entry_or_default k t) t"
      by (auto simp: reserve_outflow_def Let_def split: if_splits)
    then have "entry_or_default j t' = entry_or_default j t" for j by simp
    then show ?thesis by (simp add: has_pending_entry wf)
  next
    fix t1
    assume res: "reserve_outflow k h a t = (t1, Inr ())"
      and "track_inflow k' h a' t1 = (t', Inl e)"
    then have "t' = put_balance k' (entry_or_default k' t1) t1"
      "hm_get (pending_in (entry_or_default k' t1)) h \<noteq> None"
      by (auto simp: track_inflow_def Let_def hm_contains_def simp del: hm_contains_iff split: if_splits)
    moreover from res have "pending_in (entry_or_default k' t1) = pending_in (entry_or_default k' t)"
      by (auto simp: reserve_outflow_Inr)
    ultimately have "holds_pending h (entry_or_default k' t')" "holds_pending h (entry_or_default k' t)"
      by (auto simp: holds_pending_def hm_contains_def simp del: hm_contains_iff)
    then show ?thesis using has_pending_entry wf by blast
  qed
qed

interpretation ledger: settlement_ledger book_match confirm_settlement release_pending has_pending esc_wf
proof unfold_locales
  show "book_match h m l = Some (l', Inr ()) \<Longrightarrow> has_pending h l'" for h m l l'
    by (cases m) (auto intro: apply_match_pending)
  show "esc_wf l \<Longrightarrow> book_match h m l = Some (l', r) \<Longrightarrow> h \<noteq> h' \<Longrightarrow> has_pending h' l' = has_pending h' l"
    for h m l l' r h' by (cases m) (auto simp: apply_match_other)
  show "esc_wf l \<Longrightarrow> book_match h m l = Some (l', Inl e) \<Longrightarrow> has_pending h l' = has_pending h l"
    for h m l l' e by (cases m) (auto simp: apply_match_err)
  show "esc_wf l \<Longrightarrow> book_match h m l = Some (l', r) \<Longrightarrow> esc_wf l'" for h m l l' r
    by (cases m) (auto intro: wf_apply)
  show "has_pending h' (fst (confirm_settlement h l)) = (h' \<noteq> h \<and> has_pending h' l)" for h h' l
    by (rule has_pending_confirm)
  show "has_pending h' (fst (release_pending h l)) = (h' \<noteq> h \<and> has_pending h' l)" for h h' l
    by (rule has_pending_release)
  show "snd (confirm_settlement h l) = Inr () \<longleftrightarrow> has_pending h l" for h l
    by (simp add: confirm_settlement_def)
  show "snd (release_pending h l) = Inr () \<longleftrightarrow> has_pending h l" for h l
    by (simp add: release_pending_def)
  show "esc_wf l \<Longrightarrow> esc_wf (fst (confirm_settlement h l))" for h l
    by (simp add: confirm_settlement_def wf_map_balances)
  show "esc_wf l \<Longrightarrow> esc_wf (fst (release_pending h l))" for h l
    by (simp add: release_pending_def wf_map_balances)
qed

section \<open>What makes a token insolvent\<close>

text \<open>The only steps that can leave a token with less confirmed than committed: a confirmed balance
  that does not cover the commitments is set, a confirmation's inflow wraps, a withdrawal larger
  than the earmark is executed.\<close>

fun uncovers :: "escrow_op \<Rightarrow> string \<Rightarrow> token_balance \<Rightarrow> bool" where
  "uncovers (OSetConfirmed k a) token b = (k = token \<and> unat a < out_total b + unat (earmarked b))"
| "uncovers (OConfirm h) token b = (2 ^ 64 \<le> unat (confirmed b) + unat (inflow_of h b))"
| "uncovers (OReleaseEarmark k a x) token b = (k = token \<and> x \<and> earmarked b < a)"
| "uncovers _ token b = False"

lemma entry_reserve_ok:
  "tb_ok (entry_or_default j t) \<Longrightarrow> reserve_outflow k h a t = (t', r) \<Longrightarrow> tb_ok (entry_or_default j t')"
  by (auto simp: reserve_outflow_def Let_def hm_contains_def not_less simp del: hm_contains_iff
      intro!: tb_ok_reserve split: if_splits)

lemma entry_track_ok:
  "tb_ok (entry_or_default j t) \<Longrightarrow> track_inflow k h a t = (t', r) \<Longrightarrow> tb_ok (entry_or_default j t')"
  by (auto simp: track_inflow_def Let_def intro!: tb_ok_track split: if_splits)

lemma entry_of_get: "hm_get (balances t) k = Some b \<Longrightarrow> entry_or_default k t = b"
  by (simp add: entry_or_default_def hm_get_or_def)

lemma tb_ok_release_earmark:
  assumes "tb_ok (entry_or_default j t)" "\<not> uncovers (OReleaseEarmark k a x) j (entry_or_default j t)"
    and "release_earmark k a x t = (t', r)"
  shows "tb_ok (entry_or_default j t')"
proof (cases "hm_get (balances t) k")
  case None
  with assms show ?thesis by (simp add: release_earmark_def)
next
  case (Some b)
  with assms show ?thesis
    by (auto simp: release_earmark_def Let_def tb_ok_def out_total_def entry_of_get word_less_nat_alt
        split: if_splits)
qed

lemma tb_ok_earmarked:
  "tb_ok (entry_or_default j t) \<Longrightarrow> earmark_withdrawal k a t = (t', r) \<Longrightarrow> tb_ok (entry_or_default j t')"
  by (auto simp: earmark_withdrawal_def Let_def not_less intro!: tb_ok_earmark split: if_splits)

lemma entry_step_ok:
  assumes "tb_ok (entry_or_default j t)" "escrow_step op t = Some (t', r)"
    and "\<not> uncovers op j (entry_or_default j t)"
  shows "tb_ok (entry_or_default j t')"
proof (cases op)
  case (OSetConfirmed k a)
  with assms show ?thesis by (auto simp: set_confirmed_def tb_ok_def out_total_def)
next
  case (OConfirm h)
  with assms have "t' = fst (confirm_settlement h t)" by auto
  with OConfirm assms show ?thesis by (simp add: tb_ok_confirm not_le)
next
  case (ORelease h)
  with assms have "t' = fst (release_pending h t)" by auto
  with assms show ?thesis by (simp add: tb_ok_release)
next
  case (OEarmark k a)
  with assms(2) show ?thesis by (intro tb_ok_earmarked [OF assms(1)]) simp
next
  case (OReleaseEarmark k a x)
  with assms tb_ok_release_earmark [of j t k a x t' r] show ?thesis by simp
next
  case (OApply h s b q f bp sp bd qd)
  with assms(2) have "apply_match h s b q f bp sp bd qd t = Some (t', r)" by simp
  then show ?thesis
    by (rule apply_match_cases) (metis assms(1) entry_reserve_ok entry_track_ok)
next
  case (OReserve k h a)
  with assms(2) show ?thesis by (intro entry_reserve_ok [OF assms(1)]) simp
next
  case (OTrack k h a)
  with assms(2) show ?thesis by (intro entry_track_ok [OF assms(1)]) simp
qed

text \<open>A tracked token stays tracked.\<close>

definition tracked :: "string \<Rightarrow> escrow_tracker \<Rightarrow> bool" where
  "tracked k t = (hm_get (balances t) k \<noteq> None)"

lemma tracked_put [simp]: "tracked k (put_balance k' b t) = (k = k' \<or> tracked k t)"
  by (simp add: tracked_def put_balance_def)

lemma tracked_map [simp]: "tracked k (t\<lparr>balances := hm_map_values f (balances t)\<rparr>) = tracked k t"
  by (simp add: tracked_def)

lemma tracked_reserve: "tracked k t \<Longrightarrow> reserve_outflow j h a t = (t', r) \<Longrightarrow> tracked k t'"
  by (auto simp: reserve_outflow_def Let_def split: if_splits)

lemma tracked_inflow: "tracked k t \<Longrightarrow> track_inflow j h a t = (t', r) \<Longrightarrow> tracked k t'"
  by (auto simp: track_inflow_def Let_def split: if_splits)

lemma tracked_step:
  assumes "tracked k t" "escrow_step op t = Some (t', r)"
  shows "tracked k t'"
proof (cases op)
  case (OApply h s b q f bp sp bd qd)
  with assms(2) have "apply_match h s b q f bp sp bd qd t = Some (t', r)" by simp
  then show ?thesis
    by (rule apply_match_cases) (metis assms(1) tracked_reserve tracked_inflow)
qed (use assms in \<open>auto simp: set_confirmed_def confirm_settlement_def release_pending_def
    earmark_withdrawal_def release_earmark_def Let_def intro: tracked_reserve tracked_inflow
    split: if_splits option.splits\<close>)

lemma tracked_entry: "tracked k t \<Longrightarrow> get_balance k t = Some (entry_or_default k t)"
  by (auto simp: tracked_def get_balance_def entry_or_default_def hm_get_or_def)

lemma projected_entry: "projected k t = tb_projected (entry_or_default k t)"
  by (auto simp: projected_def entry_or_default_def hm_get_or_def default_balance_def tb_projected_def
      split: option.split)

lemma projected_reserve_exact:
  assumes "tb_sane b" "entry_or_default k t = b" "reserve_outflow k h a t = (t', Inr ())"
  shows "unat (projected k t') + unat a = unat (projected k t)"
proof -
  have new: "hm_get (pending_out b) h = None" "a \<le> tb_projected b"
      "entry_or_default k t' = b\<lparr>pending_out := hm_insert h a (pending_out b)\<rparr>"
    using assms(2,3) by (auto simp: reserve_outflow_Inr)
  then show ?thesis
    using tb_sane_projected [OF assms(1)] tb_sane_projected [OF tb_sane_reserve [OF assms(1) new(1,2)]]
    by (simp add: projected_entry assms(2) out_total_def sum_insert_absent word_le_nat_alt)
qed

lemma projected_earmark_exact:
  assumes "tb_sane b" "entry_or_default k t = b" "earmark_withdrawal k a t = (t', Inr ())"
  shows "unat (projected k t') + unat a = unat (projected k t)"
proof -
  have le: "a \<le> tb_projected b" and e: "entry_or_default k t' = b\<lparr>earmarked := earmarked b + a\<rparr>"
    using assms(2,3) by (auto simp: earmark_withdrawal_def Let_def not_less split: if_splits)
  note p = tb_sane_projected [OF assms(1)]
  have a: "unat a \<le> unat (confirmed b) - out_total b - unat (earmarked b)"
    using le p by (simp add: word_le_nat_alt)
  have "unat (earmarked b + a) = unat (earmarked b) + unat a"
  proof (cases "unat a = 0")
    case False
    with a unat_bound [of "confirmed b"] show ?thesis by (intro unat_add_no_wrap) simp
  qed (simp add: unat_eq_zero)
  with a p tb_sane_projected [of "b\<lparr>earmarked := earmarked b + a\<rparr>"] assms(1) show ?thesis
    by (simp add: projected_entry assms(2) e) (simp add: out_total_def)
qed

section \<open>Properties\<close>

definition example_tracker :: escrow_tracker where
  "example_tracker = set_confirmed ''KAY'' 1000 (set_confirmed ''EMM'' 500 escrow_new)"

lemmas example_tracker_simps = example_tracker_def set_confirmed_def put_balance_def
  entry_or_default_def hm_get_or_def hm_insert_def escrow_new_def default_balance_def

lemma example_tracker_reach: "escrow_reach example_tracker"
proof -
  have "escrow_reach (set_confirmed ''EMM'' 500 escrow_new)"
    by (rule er_op [OF er_start, of "OSetConfirmed ''EMM'' 500"]) simp
  then show ?thesis unfolding example_tracker_def
    by (rule er_op [of _ "OSetConfirmed ''KAY'' 1000"]) simp
qed

lemma example_tracker_ok: "esc_ok example_tracker"
  by (auto simp: esc_ok_def tb_ok_def example_tracker_simps out_total_def hm_wf_def split: if_splits)

text \<open>
  C3. The tracker knows what it can spend. In every state the tracker reaches, whatever confirmed
  balances are set and whatever else is asked of it, and for every token it tracks: the pending
  outflows sum up without wrapping, and the projected balance is the confirmed balance less the
  pending outflows less the earmark, and zero where they exceed it. An accepted reservation or
  earmark takes exactly its amount from the projected balance, so it was covered. A token whose
  confirmed balance covers its pending outflows and its earmark stays covered by every step but
  three: setting a confirmed balance below them, a confirmation whose inflow overflows 64 bits, and
  executing a withdrawal larger than the earmark.
\<close>

theorem escrow_projected_exact:
  assumes "escrow_reach t" "get_balance token t = Some b"
  shows "out_total b < 2 ^ 64 \<and>
    unat (projected token t) = unat (confirmed b) - out_total b - unat (earmarked b) \<and>
    (\<forall>h a t'. reserve_outflow token h a t = (t', Inr ()) \<longrightarrow>
       unat (projected token t') + unat a = unat (projected token t)) \<and>
    (\<forall>a t'. earmark_withdrawal token a t = (t', Inr ()) \<longrightarrow>
       unat (projected token t') + unat a = unat (projected token t)) \<and>
    (\<forall>op t' r. escrow_step op t = Some (t', r) \<and> out_total b + unat (earmarked b) \<le> unat (confirmed b) \<longrightarrow>
       (\<exists>b'. get_balance token t' = Some b' \<and>
          (out_total b' + unat (earmarked b') \<le> unat (confirmed b') \<or>
           (\<exists>a. op = OSetConfirmed token a \<and> unat a < out_total b + unat (earmarked b)) \<or>
           (\<exists>h. op = OConfirm h \<and> 2 ^ 64 \<le> unat (confirmed b) + unat (inflow_of h b)) \<or>
           (\<exists>a. op = OReleaseEarmark token a True \<and> earmarked b < a))))"
proof (intro conjI allI impI)
  have t: "tracked token t" and e: "entry_or_default token t = b"
    using assms(2) by (auto simp: tracked_def get_balance_def entry_of_get)
  have sane: "tb_sane b" using esc_sane_entry [OF escrow_reach_sane [OF assms(1)], of token] e by simp
  then show "out_total b < 2 ^ 64" by (simp add: tb_sane_def)
  show p: "unat (projected token t) = unat (confirmed b) - out_total b - unat (earmarked b)"
    by (simp add: projected_entry e tb_sane_projected [OF sane])
  show "unat (projected token t') + unat a = unat (projected token t)"
    if "reserve_outflow token h a t = (t', Inr ())" for h a t'
    by (rule projected_reserve_exact [OF sane e that])
  show "unat (projected token t') + unat a = unat (projected token t)"
    if "earmark_withdrawal token a t = (t', Inr ())" for a t'
    by (rule projected_earmark_exact [OF sane e that])
  fix op t' r
  assume st: "escrow_step op t = Some (t', r) \<and> out_total b + unat (earmarked b) \<le> unat (confirmed b)"
  then have "tb_ok b" using sane by (simp add: tb_ok_sane)
  with st have "tb_ok (entry_or_default token t') \<or> uncovers op token b"
    using entry_step_ok [of token t op t' r] e by auto
  moreover have "get_balance token t' = Some (entry_or_default token t')"
    using st by (intro tracked_entry tracked_step [OF t]) auto
  ultimately show "\<exists>b'. get_balance token t' = Some b' \<and>
          (out_total b' + unat (earmarked b') \<le> unat (confirmed b') \<or>
           (\<exists>a. op = OSetConfirmed token a \<and> unat a < out_total b + unat (earmarked b)) \<or>
           (\<exists>h. op = OConfirm h \<and> 2 ^ 64 \<le> unat (confirmed b) + unat (inflow_of h b)) \<or>
           (\<exists>a. op = OReleaseEarmark token a True \<and> earmarked b < a))"
    by (cases op) (auto simp: tb_ok_sane)
qed

lemma escrow_projected_exact_witness:
  "let t = fst (reserve_outflow ''KAY'' ''m1'' 300 example_tracker)
   in escrow_reach (set_confirmed ''KAY'' 200 t) \<and> unat (projected ''KAY'' t) = 700 \<and>
      unat (projected ''KAY'' (set_confirmed ''KAY'' 200 t)) = 0"
proof -
  define t where "t = fst (reserve_outflow ''KAY'' ''m1'' 300 example_tracker)"
  define u where "u = set_confirmed ''KAY'' 200 t"
  have t: "escrow_reach t" unfolding t_def
    by (rule er_op [OF example_tracker_reach, of "OReserve ''KAY'' ''m1'' 300" _
          "snd (reserve_outflow ''KAY'' ''m1'' 300 example_tracker)"]) simp
  then have u: "escrow_reach u" unfolding u_def
    by (rule er_op [of _ "OSetConfirmed ''KAY'' 200"]) simp
  have b: "get_balance ''KAY'' t = Some \<lparr>confirmed = 1000, pending_out = [(''m1'', 300)],
      pending_in = [], earmarked = 0\<rparr>"
    by (simp add: t_def reserve_outflow_def Let_def get_balance_def example_tracker_simps
        tb_projected_def saturating_sub_def word_less_nat_alt)
  then have "get_balance ''KAY'' u = Some \<lparr>confirmed = 200, pending_out = [(''m1'', 300)],
      pending_in = [], earmarked = 0\<rparr>"
    by (simp add: u_def set_confirmed_def put_balance_def get_balance_def entry_or_default_def hm_get_or_def)
  with escrow_projected_exact [OF t b] escrow_projected_exact [OF u] u
  have "escrow_reach u \<and> unat (projected ''KAY'' t) = 700 \<and> unat (projected ''KAY'' u) = 0"
    by (simp add: out_total_def)
  then show ?thesis unfolding t_def u_def Let_def .
qed

text \<open>
  Booking a match and releasing it again is the identity: after a successful \<open>apply_match\<close> for a
  match hash with no pending entry, \<open>release_pending\<close> succeeds and every token's balance, down to
  the order of its pending entries, is what it was; a second release is refused.
\<close>

theorem book_release_roundtrip:
  assumes "esc_ok t" "\<not> has_pending h t"
    and "apply_match h s b q f bp sp bd qd t = Some (t', Inr ())"
  shows "snd (release_pending h t') = Inr ()
    \<and> (\<forall>k. entry_or_default k (fst (release_pending h t')) = entry_or_default k t)
    \<and> snd (release_pending h (fst (release_pending h t'))) = Inl (PendingNotFound h)"
proof (intro conjI allI)
  have p: "has_pending h t'" by (rule apply_match_pending [OF assms(3)])
  then show "snd (release_pending h t') = Inr ()" by (simp add: release_pending_def)
  show "snd (release_pending h (fst (release_pending h t'))) = Inl (PendingNotFound h)"
    using has_pending_release [of h h t'] by (simp add: release_pending_def)
  have none: "hm_get (pending_out (entry_or_default k t)) h = None"
    "hm_get (pending_in (entry_or_default k t)) h = None" for k
    using assms(1,2) by (auto simp: has_pending_entry esc_ok_def holds_pending_def hm_contains_def
        simp del: hm_contains_iff)
  fix k
  show "entry_or_default k (fst (release_pending h t')) = entry_or_default k t"
    using assms(3)
  proof (rule apply_match_cases)
    fix j a j' a'
    assume "(\<exists>e. reserve_outflow j h a t = (t', Inl e) \<and> Inr () = Inl e) \<or>
     (\<exists>t1. reserve_outflow j h a t = (t1, Inr ()) \<and> track_inflow j' h a' t1 = (t', Inr ()))"
    then obtain t1 where "reserve_outflow j h a t = (t1, Inr ())" "track_inflow j' h a' t1 = (t', Inr ())"
      by auto
    then show ?thesis using none
      by (auto simp: reserve_outflow_Inr track_inflow_Inr release_balance_def
          hm_remove_insert_absent hm_remove_absent split: if_splits)
  qed
qed

lemma book_release_roundtrip_witness:
  "\<exists>t'. apply_match ''m1'' Buy ''EMM'' ''KAY'' 300 200000000 100000000 5 5 example_tracker = Some (t', Inr ())
     \<and> projected ''KAY'' t' = 400
     \<and> entry_or_default ''KAY'' (fst (release_pending ''m1'' t')) = entry_or_default ''KAY'' example_tracker"
proof -
  have d: "price_divisor 5 5 = 100000000" by (simp add: price_divisor_def price_exponent_def)
  have q: "quote_amount 300 200000000 100000000 = Some 600"
    by (simp add: quote_amount_def checked_div_def)
  obtain t' where t': "apply_match ''m1'' Buy ''EMM'' ''KAY'' 300 200000000 100000000 5 5 example_tracker
      = Some (t', Inr ())" and p: "projected ''KAY'' t' = 400"
    by (simp add: apply_match_def d q Let_def reserve_outflow_def track_inflow_def example_tracker_simps
        tb_projected_def saturating_sub_def projected_def)
  have "\<not> has_pending ''m1'' example_tracker"
    by (simp add: has_pending_iff holds_pending_def example_tracker_simps)
  from book_release_roundtrip [OF example_tracker_ok this t'] t' p
  show ?thesis by blast
qed

text \<open>
  A confirmation gives the outflow back: after a match is booked as a buyer and confirmed, the
  inflow has reached the confirmed balance of the base token, but the quote token is exactly as
  before the match. Its confirmed balance is not reduced by what was paid, so the spent amount counts
  as spendable until the next \<open>set_confirmed\<close>.
\<close>

theorem confirm_returns_outflow:
  assumes "esc_ok t" "\<not> has_pending h t" "base \<noteq> quote"
    and "apply_match h Buy base quote f bp sp bd qd t = Some (t', Inr ())"
  shows "snd (confirm_settlement h t') = Inr ()
    \<and> entry_or_default quote (fst (confirm_settlement h t')) = entry_or_default quote t
    \<and> entry_or_default base (fst (confirm_settlement h t')) =
        (entry_or_default base t)\<lparr>confirmed := confirmed (entry_or_default base t) + f\<rparr>"
proof -
  have none: "hm_get (pending_out (entry_or_default k t)) h = None"
    "hm_get (pending_in (entry_or_default k t)) h = None" for k
    using assms(1,2) by (auto simp: has_pending_entry esc_ok_def holds_pending_def hm_contains_def
        simp del: hm_contains_iff)
  have "snd (confirm_settlement h t') = Inr ()"
    using apply_match_pending [OF assms(4)] by (simp add: confirm_settlement_def)
  moreover obtain a t1 where "reserve_outflow quote h a t = (t1, Inr ())"
    "track_inflow base h f t1 = (t', Inr ())"
    using assms(4) by (auto simp: apply_match_def Let_def split: option.splits prod.splits sum.splits)
  ultimately show ?thesis using none assms(3)
    by (auto simp: reserve_outflow_Inr track_inflow_Inr confirm_balance_def Let_def
        hm_remove_insert_absent hm_remove_absent)
qed

lemma confirm_returns_outflow_witness:
  "\<exists>t'. apply_match ''m1'' Buy ''EMM'' ''KAY'' 300 200000000 100000000 5 5 example_tracker = Some (t', Inr ())
     \<and> projected ''KAY'' t' = 400
     \<and> tb_projected (entry_or_default ''KAY'' (fst (confirm_settlement ''m1'' t'))) = 1000"
proof -
  have d: "price_divisor 5 5 = 100000000" by (simp add: price_divisor_def price_exponent_def)
  have q: "quote_amount 300 200000000 100000000 = Some 600"
    by (simp add: quote_amount_def checked_div_def)
  obtain t' where t': "apply_match ''m1'' Buy ''EMM'' ''KAY'' 300 200000000 100000000 5 5 example_tracker
      = Some (t', Inr ())" and p: "projected ''KAY'' t' = 400"
    by (simp add: apply_match_def d q Let_def reserve_outflow_def track_inflow_def example_tracker_simps
        tb_projected_def saturating_sub_def projected_def)
  have "\<not> has_pending ''m1'' example_tracker"
    by (simp add: has_pending_iff holds_pending_def example_tracker_simps)
  from confirm_returns_outflow [OF example_tracker_ok this _ t'] t' p
  show ?thesis by (auto simp: example_tracker_simps tb_projected_def saturating_sub_def)
qed

lemma coprime_two_five: "coprime ((2::nat) ^ m) (5 ^ n)"
proof -
  have "coprime (2::nat) 5" by code_simp
  then show ?thesis by (simp only: coprime_power_left_iff coprime_power_right_iff) simp
qed

lemma ten_power_zero: "(10 :: u128) ^ n = 0 \<longleftrightarrow> 128 \<le> n"
proof -
  have "(10 :: u128) ^ n = word_of_nat (10 ^ n)" by simp
  then have "(10 :: u128) ^ n = 0 \<longleftrightarrow> (2::nat) ^ 128 dvd 10 ^ n"
    by (simp only: word_of_nat_eq_0_iff) simp
  also have "(10::nat) ^ n = 2 ^ n * 5 ^ n" by (simp flip: power_mult_distrib)
  also have "(2::nat) ^ 128 dvd 2 ^ n * 5 ^ n \<longleftrightarrow> (2::nat) ^ 128 dvd 2 ^ n"
    by (rule coprime_dvd_mult_left_iff [OF coprime_two_five])
  also have "\<dots> \<longleftrightarrow> 128 \<le> n" by (rule dvd_power_iff_le) simp
  finally show ?thesis .
qed

lemma unat_price_exponent:
  "unat (price_exponent bd qd) =
     (if unat qd \<le> unat bd + 8 then unat bd + 8 - unat qd else 2 ^ 32 + unat bd + 8 - unat qd)"
proof -
  have u: "unat (ucast x :: u32) = unat x" "unat x < 256" for x :: u8
    using unat_bound [of x] by (simp_all add: unsigned_ucast_eq take_bit_nat_eq_self)
  have "unat (ucast bd + 8 :: u32) = unat bd + 8"
    using u(2) [of bd] by (subst unat_add_no_wrap) (simp_all add: u(1))
  then show ?thesis
    using u(2) [of qd] by (simp add: price_exponent_def unat_sub_if' u(1) word_le_nat_alt)
qed

text \<open>
  When \<open>apply_match\<close> panics: exactly when the quote token has more than eight decimals more than
  the base token (the exponent wraps) or the base token at least 120 more than the quote token. In
  every other case the price conversion is exact: the divisor is 10 to the eight plus the difference.
\<close>

theorem apply_match_panics_iff:
  "(apply_match h s b q f bp sp bd qd t = None) =
     (unat bd + 8 < unat qd \<or> unat qd + 120 \<le> unat bd)
   \<and> (unat qd \<le> unat bd + 8 \<and> unat bd + 8 - unat qd \<le> 38 \<longrightarrow>
       unat (price_divisor bd qd) = 10 ^ (unat bd + 8 - unat qd))"
proof
  have "(apply_match h s b q f bp sp bd qd t = None) = (price_divisor bd qd = 0)"
    by (auto simp: apply_match_def Let_def quote_amount_def checked_div_def
        split: escrow_side.split prod.split sum.split)
  also have "\<dots> = (unat bd + 8 < unat qd \<or> unat qd + 120 \<le> unat bd)"
    using unat_bound [of qd]
    by (auto simp: price_divisor_def ten_power_zero unat_price_exponent)
  finally show "(apply_match h s b q f bp sp bd qd t = None) =
     (unat bd + 8 < unat qd \<or> unat qd + 120 \<le> unat bd)" .
  show "unat qd \<le> unat bd + 8 \<and> unat bd + 8 - unat qd \<le> 38 \<longrightarrow>
       unat (price_divisor bd qd) = 10 ^ (unat bd + 8 - unat qd)"
  proof
    assume le: "unat qd \<le> unat bd + 8 \<and> unat bd + 8 - unat qd \<le> 38"
    then have "(10::nat) ^ (unat bd + 8 - unat qd) \<le> 10 ^ 38" by (intro power_increasing) simp_all
    then have "(10::nat) ^ (unat bd + 8 - unat qd) < 2 ^ 128" by (rule le_less_trans) simp
    moreover have "price_divisor bd qd = word_of_nat (10 ^ (unat bd + 8 - unat qd))"
      using le by (simp add: price_divisor_def unat_price_exponent)
    ultimately show "unat (price_divisor bd qd) = 10 ^ (unat bd + 8 - unat qd)"
      by (simp only: unat_of_nat) simp
  qed
qed

lemma apply_match_panics_iff_witness:
  "apply_match ''m'' Buy ''B'' ''Q'' 1 1 1 5 18 escrow_new = None
   \<and> unat (price_divisor 5 5) = 100000000"
  using apply_match_panics_iff [of "''m''" Buy "''B''" "''Q''" 1 1 1 5 18 escrow_new]
    apply_match_panics_iff [of "''m''" Buy "''B''" "''Q''" 1 1 1 5 5 escrow_new]
  by simp

end
