(* ===== verification/SettlementTx.thy ===== *)
theory SettlementTx
  imports Matching Text
begin

text \<open>
  The first half of \<open>crates/settlement/src/lib.rs\<close>: abort codes and their parser, the arguments of
  \<open>settle_match\<close>, addresses, transaction building and signing, the submission pipelines; and
  \<open>crates/settlement/src/worker.rs\<close>: the background worker with its local sequence number. BCS,
  SHA3, Ed25519 and the text of a \<open>hex::decode\<close> error belong to third-party crates: they are the
  record \<open>tx_codec\<close> (with the integer encoders of \<open>crypto\<close>). The three calls to the RPC node are
  the record \<open>settle_rpc\<close>: what the node answers is not the program's to decide.
\<close>

datatype settlement_error =
    ChainErr string
  | BcsErr string
  | SimulationFailed string
  | SubmissionFailed string
  | InvalidAddress string
  | ConfirmationTimeout string
  | BackstopExpired string

section \<open>Abort codes\<close>

datatype abort_code =
    AlreadySettled | AInsufficientBalance | BuyerInactive | SellerInactive | BuyerOverfill
  | SellerOverfill | NftBlocked | NftBurned | BatchTooOld | QuantityTooSmall | SelfTrade
  | InvalidSide | SignatureVerifyFailed | MarketNotActive | QuoteAmountZero | OtherAbort u64

fun abort_display :: "abort_code \<Rightarrow> string" where
  "abort_display AlreadySettled = ''E_ALREADY_SETTLED''"
| "abort_display AInsufficientBalance = ''E_INSUFFICIENT_BALANCE''"
| "abort_display BuyerInactive = ''E_BUYER_INACTIVE''"
| "abort_display SellerInactive = ''E_SELLER_INACTIVE''"
| "abort_display BuyerOverfill = ''E_BUYER_OVERFILL''"
| "abort_display SellerOverfill = ''E_SELLER_OVERFILL''"
| "abort_display NftBlocked = ''E_NFT_BLOCKED''"
| "abort_display NftBurned = ''E_NFT_BURNED''"
| "abort_display BatchTooOld = ''E_BATCH_TOO_OLD''"
| "abort_display QuantityTooSmall = ''E_QUANTITY_TOO_SMALL''"
| "abort_display SelfTrade = ''E_SELF_TRADE''"
| "abort_display InvalidSide = ''E_INVALID_SIDE''"
| "abort_display SignatureVerifyFailed = ''E_SIGNATURE_VERIFY_FAILED''"
| "abort_display MarketNotActive = ''E_MARKET_NOT_ACTIVE''"
| "abort_display QuoteAmountZero = ''E_QUOTE_AMOUNT_ZERO''"
| "abort_display (OtherAbort code) = ''E_UNKNOWN('' @ u64_str code @ '')''"

definition from_code :: "u64 \<Rightarrow> abort_code" where
  "from_code code =
     (let reason = (if 0xFFFF < code then and code 0xFFFF else code) in
      if reason = 0 then BatchTooOld
      else if reason = 3 then InvalidSide
      else if reason = 8 then SelfTrade
      else if reason = 11 \<or> reason = 12 then SignatureVerifyFailed
      else if reason = 13 then BuyerInactive
      else if reason = 14 then SellerInactive
      else if reason = 15 then AlreadySettled
      else if reason = 17 then MarketNotActive
      else if reason = 18 then QuantityTooSmall
      else if reason = 20 then QuoteAmountZero
      else if reason = 21 then BuyerOverfill
      else if reason = 22 then SellerOverfill
      else if reason = 23 then NftBurned
      else if reason = 28 then NftBlocked
      else OtherAbort code)"

text \<open>A number written in hexadecimal with \<open>0x\<close>, or in decimal.\<close>

definition parse_code :: "string \<Rightarrow> u64 option" where
  "parse_code s = (case strip_prefix ''0x'' s of Some h \<Rightarrow> parse_hex_u64 h | None \<Rightarrow> parse_u64 s)"

text \<open>The text between the last opening parenthesis and the next closing one.\<close>

definition last_parenthesised :: "string \<Rightarrow> string option" where
  "last_parenthesised status =
     (if CHR ''('' \<in> set status
      then map_option fst (split_first (CHR '')'') (after_last (CHR ''('') status))
      else None)"

definition from_vm_status :: "string \<Rightarrow> abort_code option" where
  "from_vm_status status =
     (if \<not> contains_str ''Move abort'' status then None
      else case (case last_parenthesised status of
                   None \<Rightarrow> None | Some inner \<Rightarrow> parse_code (trim inner)) of
        Some code \<Rightarrow> Some (from_code code)
      | None \<Rightarrow>
         (let code_str = trim (after_last (CHR '':'') status) in
          if code_str = [] then
            (let segments = split_on (CHR '':'') status in
             if 2 \<le> length segments
             then map_option from_code (parse_code (trim (segments ! (length segments - 2))))
             else None)
          else map_option from_code (parse_code code_str)))"

section \<open>Transactions\<close>

record module_id =
  mod_address :: bytes
  mod_name :: string

record entry_function =
  ef_module :: module_id
  ef_function :: string
  ef_args :: "bytes list"

datatype transaction_payload = Script | ModuleBundle | EntryFunction entry_function

record raw_transaction =
  rt_sender :: bytes
  rt_sequence_number :: u64
  rt_payload :: transaction_payload
  rt_max_gas_amount :: u64
  rt_gas_unit_price :: u64
  rt_expiration :: u64
  rt_chain_id :: u8

record signed_transaction =
  st_raw_txn :: raw_transaction
  st_public_key :: bytes
  st_signature :: bytes

record tx_codec =
  bcs_payload :: "transaction_payload \<Rightarrow> string + bytes"
  bcs_raw_tx :: "raw_transaction \<Rightarrow> string + bytes"
  bcs_signed_tx :: "signed_transaction \<Rightarrow> string + bytes"
  sha3_256 :: "bytes \<Rightarrow> bytes"
  hex_error :: "string \<Rightarrow> string"

definition build_settle_args :: "crypto \<Rightarrow> match_rec \<Rightarrow> settlement_error + bytes list" where
  "build_settle_args C m =
     (let u = (\<lambda>w. map_err BcsErr (bcs_u64 C w));
          b = (\<lambda>w. map_err BcsErr (bcs_u8 C w));
          v = (\<lambda>w. map_err BcsErr (bcs_vec C w));
          bo = r_order (buyer m); so = r_order (seller m)
      in collect_results
           [u (m_batch_id m), u (m_pool_id m),
            u (o_nft_id bo), b (o_side bo), u (o_price bo), u (o_quantity bo), u (o_batch_id bo),
            v (o_nonce bo), v (r_signature (buyer m)),
            u (o_nft_id so), b (o_side so), u (o_price so), u (o_quantity so), u (o_batch_id so),
            v (o_nonce so), v (r_signature (seller m)),
            v (m_symbol m), u (fill_quantity m)])"

definition parse_address :: "tx_codec \<Rightarrow> string \<Rightarrow> settlement_error + bytes" where
  "parse_address X addr =
     (let hex_str = strip_0x addr;
          padded = (if odd (length hex_str) then CHR ''0'' # hex_str else hex_str)
      in case hex_decode padded of
           None \<Rightarrow> Inl (InvalidAddress (hex_error X padded))
         | Some bs \<Rightarrow>
             (if 32 < length bs
              then Inl (InvalidAddress (''address too long: '' @ nat_str (length bs) @ '' bytes''))
              else Inr (replicate (32 - length bs) 0 @ bs)))"

definition signing_prefix :: "tx_codec \<Rightarrow> bytes" where
  "signing_prefix X = sha3_256 X (char_bytes ''SUPRA::RawTransaction'')"

definition build_raw_tx ::
  "bytes \<Rightarrow> bytes \<Rightarrow> string \<Rightarrow> string \<Rightarrow> bytes list \<Rightarrow> u64 \<Rightarrow> u64 \<Rightarrow> u8 \<Rightarrow> u64 \<Rightarrow> u64 \<Rightarrow> raw_transaction" where
  "build_raw_tx sender contract module_name function_name args seq expiration chain max_gas gas_price =
     \<lparr>rt_sender = sender, rt_sequence_number = seq,
      rt_payload = EntryFunction \<lparr>ef_module = \<lparr>mod_address = contract, mod_name = module_name\<rparr>,
                                  ef_function = function_name, ef_args = args\<rparr>,
      rt_max_gas_amount = max_gas, rt_gas_unit_price = gas_price,
      rt_expiration = expiration, rt_chain_id = chain\<rparr>"

definition encode_signed_tx ::
  "crypto \<Rightarrow> tx_codec \<Rightarrow> raw_transaction \<Rightarrow> bytes \<Rightarrow> bool \<Rightarrow> settlement_error + bytes" where
  "encode_signed_tx C X raw_tx signing_key do_sign =
     res_bind
       (if do_sign
        then res_bind (map_err BcsErr (bcs_raw_tx X raw_tx))
               (\<lambda>raw_tx_bytes. Inr (ed25519_sign C signing_key (signing_prefix X @ raw_tx_bytes)))
        else Inr (replicate 64 0))
       (\<lambda>signature. map_err BcsErr (bcs_signed_tx X
          \<lparr>st_raw_txn = raw_tx, st_public_key = ed25519_public C signing_key,
           st_signature = signature\<rparr>))"

definition build_and_sign_entry_function ::
  "crypto \<Rightarrow> tx_codec \<Rightarrow> bytes \<Rightarrow> bytes \<Rightarrow> bytes \<Rightarrow> string \<Rightarrow> string \<Rightarrow> bytes list \<Rightarrow> u64 \<Rightarrow> u64 \<Rightarrow> u8
    \<Rightarrow> u64 \<Rightarrow> u64 \<Rightarrow> settlement_error + bytes" where
  "build_and_sign_entry_function C X signing_key sender contract module_name function_name args seq
       expiration chain max_gas gas_price =
     encode_signed_tx C X (build_raw_tx sender contract module_name function_name args seq expiration
       chain max_gas gas_price) signing_key True"

definition build_simulation_entry_function ::
  "crypto \<Rightarrow> tx_codec \<Rightarrow> bytes \<Rightarrow> bytes \<Rightarrow> bytes \<Rightarrow> string \<Rightarrow> string \<Rightarrow> bytes list \<Rightarrow> u64 \<Rightarrow> u64 \<Rightarrow> u8
    \<Rightarrow> u64 \<Rightarrow> u64 \<Rightarrow> settlement_error + bytes" where
  "build_simulation_entry_function C X signing_key sender contract module_name function_name args seq
       expiration chain max_gas gas_price =
     encode_signed_tx C X (build_raw_tx sender contract module_name function_name args seq expiration
       chain max_gas gas_price) signing_key False"

section \<open>The submitter\<close>

record submitter =
  sub_signing_key :: bytes
  sub_contract_addr :: bytes
  sub_sender_addr :: bytes
  sub_chain_id :: u8
  sub_max_gas :: u64
  sub_gas_price :: u64

definition submitter_new ::
  "tx_codec \<Rightarrow> bytes \<Rightarrow> string \<Rightarrow> string \<Rightarrow> u8 \<Rightarrow> settlement_error + submitter" where
  "submitter_new X signing_key contract sender chain =
     res_bind (parse_address X contract) (\<lambda>c. res_bind (parse_address X sender) (\<lambda>s.
       Inr \<lparr>sub_signing_key = signing_key, sub_contract_addr = c, sub_sender_addr = s,
            sub_chain_id = chain, sub_max_gas = 200, sub_gas_price = 100000\<rparr>))"

definition set_gas_config :: "u64 \<Rightarrow> u64 \<Rightarrow> submitter \<Rightarrow> submitter" where
  "set_gas_config max_gas gas_price s = s\<lparr>sub_max_gas := max_gas, sub_gas_price := gas_price\<rparr>"

definition build_entry_function_payload ::
  "crypto \<Rightarrow> tx_codec \<Rightarrow> submitter \<Rightarrow> match_rec \<Rightarrow> settlement_error + bytes" where
  "build_entry_function_payload C X s m =
     res_bind (build_settle_args C m) (\<lambda>args.
       map_err BcsErr (bcs_payload X (EntryFunction
         \<lparr>ef_module = \<lparr>mod_address = sub_contract_addr s, mod_name = ''settlement''\<rparr>,
          ef_function = ''settle_match'', ef_args = args\<rparr>)))"

definition settle_raw_tx :: "submitter \<Rightarrow> bytes list \<Rightarrow> u64 \<Rightarrow> u64 \<Rightarrow> raw_transaction" where
  "settle_raw_tx s args seq expiration =
     build_raw_tx (sub_sender_addr s) (sub_contract_addr s) ''settlement'' ''settle_match'' args seq
       expiration (sub_chain_id s) (sub_max_gas s) (sub_gas_price s)"

definition build_signed_tx ::
  "crypto \<Rightarrow> tx_codec \<Rightarrow> submitter \<Rightarrow> match_rec \<Rightarrow> u64 \<Rightarrow> u64 \<Rightarrow> settlement_error + bytes" where
  "build_signed_tx C X s m seq expiration =
     res_bind (build_settle_args C m) (\<lambda>args.
       encode_signed_tx C X (settle_raw_tx s args seq expiration) (sub_signing_key s) True)"

definition build_sim_tx ::
  "crypto \<Rightarrow> tx_codec \<Rightarrow> submitter \<Rightarrow> match_rec \<Rightarrow> u64 \<Rightarrow> u64 \<Rightarrow> settlement_error + bytes" where
  "build_sim_tx C X s m seq expiration =
     res_bind (build_settle_args C m) (\<lambda>args.
       encode_signed_tx C X (settle_raw_tx s args seq expiration) (sub_signing_key s) False)"

text \<open>What the RPC node answers: the account's sequence number, a simulation (gas used, success,
  VM status) and the hash of a submitted transaction. Errors carry their displayed text.\<close>

record settle_rpc =
  rpc_sequence_number :: "string \<Rightarrow> string + u64"
  rpc_simulate :: "bytes \<Rightarrow> string + (u64 \<times> bool \<times> string)"
  rpc_submit :: "bytes \<Rightarrow> string + string"
  rpc_unix_time :: u64

record gas_estimate =
  ge_gas_units :: u64
  ge_success :: bool
  ge_abort_code :: "abort_code option"
  ge_vm_status :: string

datatype settlement_outcome =
  Confirmed string | OutAlreadySettled | Aborted abort_code | Pending string

definition estimate_gas :: "settle_rpc \<Rightarrow> bytes \<Rightarrow> settlement_error + gas_estimate" where
  "estimate_gas N sim_tx =
     res_bind (map_err ChainErr (rpc_simulate N sim_tx)) (\<lambda>(gas_used, success, vm_status).
       Inr \<lparr>ge_gas_units = gas_used, ge_success = success,
            ge_abort_code = (if \<not> success then from_vm_status vm_status else None),
            ge_vm_status = vm_status\<rparr>)"

definition submit_tx :: "settle_rpc \<Rightarrow> bytes \<Rightarrow> settlement_error + string" where
  "submit_tx N signed_tx = map_err SubmissionFailed (rpc_submit N signed_tx)"

definition sender_hex :: "submitter \<Rightarrow> string" where
  "sender_hex s = ''0x'' @ hex_encode (sub_sender_addr s)"

definition get_sequence_number :: "settle_rpc \<Rightarrow> submitter \<Rightarrow> settlement_error + u64" where
  "get_sequence_number N s = map_err ChainErr (rpc_sequence_number N (sender_hex s))"

definition submit_settlement ::
  "crypto \<Rightarrow> tx_codec \<Rightarrow> settle_rpc \<Rightarrow> submitter \<Rightarrow> match_rec \<Rightarrow> settlement_error + settlement_outcome" where
  "submit_settlement C X N s m =
     res_bind (get_sequence_number N s) (\<lambda>seq.
     let expiry = rpc_unix_time N + 60 in
     res_bind (build_signed_tx C X s m seq expiry) (\<lambda>signed_tx.
     res_bind (build_sim_tx C X s m seq expiry) (\<lambda>sim_tx.
     res_bind (estimate_gas N sim_tx) (\<lambda>estimate.
       if \<not> ge_success estimate then
         (case ge_abort_code estimate of
            Some code \<Rightarrow>
              (if code = AlreadySettled then Inr OutAlreadySettled else Inr (Aborted code))
          | None \<Rightarrow> Inl (SimulationFailed (''unparseable vm_status: '' @ ge_vm_status estimate)))
       else res_bind (submit_tx N signed_tx) (\<lambda>tx_hash. Inr (Pending tx_hash))))))"

definition submit_settlement_direct ::
  "crypto \<Rightarrow> tx_codec \<Rightarrow> settle_rpc \<Rightarrow> submitter \<Rightarrow> match_rec \<Rightarrow> u64 option
    \<Rightarrow> settlement_error + (settlement_outcome \<times> u64)" where
  "submit_settlement_direct C X N s m seq_override =
     res_bind (case seq_override of Some q \<Rightarrow> Inr q | None \<Rightarrow> get_sequence_number N s) (\<lambda>seq.
     let expiry = rpc_unix_time N + 60 in
     res_bind (build_signed_tx C X s m seq expiry) (\<lambda>signed_tx.
     res_bind (submit_tx N signed_tx) (\<lambda>tx_hash. Inr (Pending tx_hash, seq + 1))))"

section \<open>The worker\<close>

record settle_request =
  sr_match_data :: match_rec
  sr_match_hash :: string
  sr_is_gas_payer :: bool

datatype settle_result =
    Submitted string string
  | RAlreadySettled string
  | RFailed string abort_code
  | RpcError string string

fun result_match_hash :: "settle_result \<Rightarrow> string" where
  "result_match_hash (Submitted h tx) = h"
| "result_match_hash (RAlreadySettled h) = h"
| "result_match_hash (RFailed h code) = h"
| "result_match_hash (RpcError h err) = h"

text \<open>\<open>Display\<close> of a settlement error, as the worker reports it.\<close>

fun settlement_error_display :: "settlement_error \<Rightarrow> string" where
  "settlement_error_display (ChainErr e) = ''chain error: '' @ e"
| "settlement_error_display (BcsErr e) = ''bcs serialization error: '' @ e"
| "settlement_error_display (SimulationFailed e) = ''tx simulation failed: '' @ e"
| "settlement_error_display (SubmissionFailed e) = ''tx submission failed: '' @ e"
| "settlement_error_display (InvalidAddress e) = ''invalid contract address: '' @ e"
| "settlement_error_display (ConfirmationTimeout e) = ''timeout waiting for confirmation: '' @ e"
| "settlement_error_display (BackstopExpired e) = ''backstop window expired without settlement: '' @ e"

text \<open>One request: the new local sequence number and the result sent back, if any.\<close>

definition worker_step ::
  "crypto \<Rightarrow> tx_codec \<Rightarrow> submitter \<Rightarrow> settle_rpc \<Rightarrow> settle_request \<Rightarrow> u64 option
    \<Rightarrow> u64 option \<times> settle_result option" where
  "worker_step C X s N req next_seq =
     (if \<not> sr_is_gas_payer req then (next_seq, None)
      else case submit_settlement_direct C X N s (sr_match_data req) next_seq of
        Inr (Pending tx_hash, new_seq) \<Rightarrow> (Some new_seq, Some (Submitted (sr_match_hash req) tx_hash))
      | Inr (Confirmed tx_hash, _) \<Rightarrow> (None, Some (Submitted (sr_match_hash req) tx_hash))
      | Inr (_, _) \<Rightarrow>
          (None, Some (RpcError (sr_match_hash req) ''unexpected outcome from direct submit''))
      | Inl e \<Rightarrow> (None, Some (RpcError (sr_match_hash req) (settlement_error_display e))))"

text \<open>The verification task of a submitted transaction: the VM status of a transaction that failed
  on chain becomes a \<open>Failed\<close> result; success and time-out send nothing.\<close>

definition verify_submitted :: "string \<Rightarrow> (string + (bool \<times> string)) \<Rightarrow> settle_result option" where
  "verify_submitted hash tx_res =
     (case tx_res of
        Inr (success, vm_status) \<Rightarrow>
          (if \<not> success
           then Some (RFailed hash
                  (case from_vm_status vm_status of None \<Rightarrow> OtherAbort 0 | Some code \<Rightarrow> code))
           else None)
      | Inl _ \<Rightarrow> None)"

text \<open>The worker's loop over the request channel, with the node's answers per request.\<close>

fun worker_run ::
  "crypto \<Rightarrow> tx_codec \<Rightarrow> submitter \<Rightarrow> (settle_rpc \<times> settle_request) list \<Rightarrow> u64 option
    \<Rightarrow> settle_result list" where
  "worker_run C X s [] next_seq = []"
| "worker_run C X s ((N, req) # reqs) next_seq =
     (case worker_step C X s N req next_seq of
        (next_seq', None) \<Rightarrow> worker_run C X s reqs next_seq'
      | (next_seq', Some r) \<Rightarrow> r # worker_run C X s reqs next_seq')"

section \<open>Abort codes: lemmas and properties\<close>

lemma from_code_reason:
  "0xFFFF < code \<Longrightarrow> (\<And>c. from_code (and code 0xFFFF) \<noteq> OtherAbort c) \<Longrightarrow>
     from_code code = from_code (and code 0xFFFF)"
proof -
  assume big: "0xFFFF < code" and known: "\<And>c. from_code (and code 0xFFFF) \<noteq> OtherAbort c"
  have "\<not> 0xFFFF < and code 0xFFFF" using word_and_le1 [of code "0xFFFF"] by (simp add: not_less)
  then show ?thesis using big known [of "and code 0xFFFF"]
    by (auto simp: from_code_def Let_def split: if_splits)
qed

lemma from_code_insufficient: "from_code code \<noteq> AInsufficientBalance"
  by (simp add: from_code_def Let_def)

lemma strip_prefix_number: "strip_prefix ''0x'' (u64_str w) = None"
proof -
  have "CHR ''x'' \<notin> set (nat_str (unat w))"
    using set_nat_str [of "CHR ''x''" "unat w"] by (auto simp: char_digit_def)
  moreover have "starts_with ''0x'' s \<Longrightarrow> CHR ''x'' \<in> set s" for s :: string
    by (cases s; cases "tl s") (auto simp: starts_with_def)
  ultimately show ?thesis by (auto simp: strip_prefix_def u64_str_def)
qed

lemma parse_code_number [simp]: "parse_code (u64_str w) = Some w"
  by (simp add: parse_code_def strip_prefix_number)

lemma number_no_white: "c \<in> set (u64_str w) \<Longrightarrow> \<not> is_white c \<and> c \<noteq> CHR '':'' \<and> c \<noteq> CHR ''('' \<and> c \<noteq> CHR '')''"
  using set_nat_str [of c "unat w"]
  by (auto simp: u64_str_def is_white_def char_digit_def Let_def split: if_splits)

lemma dropWhile_none: "(\<And>x. x \<in> set xs \<Longrightarrow> \<not> P x) \<Longrightarrow> dropWhile P xs = xs"
  by (cases xs) auto

lemma trim_number [simp]: "trim (u64_str w) = u64_str w" "trim (CHR '' '' # u64_str w) = u64_str w"
proof -
  have "dropWhile is_white (u64_str w) = u64_str w" "dropWhile is_white (rev (u64_str w)) = rev (u64_str w)"
    by (rule dropWhile_none; simp add: number_no_white)+
  then show "trim (u64_str w) = u64_str w" "trim (CHR '' '' # u64_str w) = u64_str w"
    by (simp_all add: trim_def is_white_def)
qed

lemma number_not_Nil [simp]: "u64_str w \<noteq> []"
  by (simp add: u64_str_def)

text \<open>
  Both formats in which the chain reports an abort are read back: the plain code after the last
  colon and the named format with the code in parentheses, for every module path without
  parentheses and every code; and the error category in the upper bits does not matter: a code
  above 65535 whose reason is a known one gives the same abort code as the reason alone. No status
  at all is read as \<open>E_INSUFFICIENT_BALANCE\<close>: that variant has no reason code.
\<close>

theorem abort_status_roundtrip:
  assumes "CHR ''('' \<notin> set loc" and "CHR ''('' \<notin> set name"
  shows "from_vm_status (''Move abort in '' @ loc @ '': '' @ u64_str code) = Some (from_code code)
    \<and> from_vm_status (''Move abort in '' @ loc @ '': '' @ name @ ''('' @ u64_str code @ ''): '')
        = Some (from_code code)
    \<and> (0xFFFF < code \<and> (\<forall>c. from_code (and code 0xFFFF) \<noteq> OtherAbort c)
          \<longrightarrow> from_code code = from_code (and code 0xFFFF))
    \<and> from_vm_status status \<noteq> Some AInsufficientBalance"
proof (intro conjI allI impI)
  have m: "contains_str ''Move abort'' (''Move abort in '' @ x)" for x
    using contains_str_append [of "''Move abort''" "[]" "'' in '' @ x"] by simp
  have colon: "CHR '':'' \<notin> set (CHR '' '' # u64_str code)" "CHR ''('' \<notin> set (u64_str code)"
    "CHR '')'' \<notin> set (u64_str code)"
    using number_no_white [of _ code] by auto
  have "after_last CHR '':'' (''Move abort in '' @ loc @ '': '' @ u64_str code) = CHR '' '' # u64_str code"
    using after_last_append [OF colon(1), of "''Move abort in '' @ loc"] by simp
  moreover have "last_parenthesised (''Move abort in '' @ loc @ '': '' @ u64_str code) = None"
    using assms(1) colon(2) by (simp add: last_parenthesised_def)
  ultimately show "from_vm_status (''Move abort in '' @ loc @ '': '' @ u64_str code) = Some (from_code code)"
    using m [of "loc @ '': '' @ u64_str code"] by (simp add: from_vm_status_def Let_def)
  have paren: "CHR ''('' \<notin> set (u64_str code @ ''): '')" using colon(2) by simp
  have "after_last CHR ''('' (''Move abort in '' @ loc @ '': '' @ name @ ''('' @ u64_str code @ ''): '')
      = u64_str code @ ''): ''"
    using after_last_append [OF paren, of "''Move abort in '' @ loc @ '': '' @ name"] by simp
  then have "last_parenthesised (''Move abort in '' @ loc @ '': '' @ name @ ''('' @ u64_str code @ ''): '')
      = Some (u64_str code)"
    using colon(3) by (simp add: last_parenthesised_def)
  then show "from_vm_status (''Move abort in '' @ loc @ '': '' @ name @ ''('' @ u64_str code @ ''): '')
        = Some (from_code code)"
    using m [of "loc @ '': '' @ name @ ''('' @ u64_str code @ ''): ''"]
    by (simp add: from_vm_status_def Let_def)
  show "from_vm_status status \<noteq> Some AInsufficientBalance"
    using from_code_insufficient by (auto simp: from_vm_status_def Let_def split: if_splits option.splits)
qed (auto intro: from_code_reason)

lemma abort_status_roundtrip_witness:
  "from_vm_status (''Move abort in 0xDEAD::settlement: '' @ u64_str 65557) = Some BuyerOverfill"
  using abort_status_roundtrip [of "''0xDEAD::settlement''" "''E''" 65557]
  by (simp add: from_code_def)

section \<open>Arguments and addresses\<close>

text \<open>What the code relies on of BCS: equal encodings come from equal values.\<close>

definition bcs_inj :: "crypto \<Rightarrow> bool" where
  "bcs_inj C \<longleftrightarrow> (\<forall>x y b. bcs_u64 C x = Inr b \<longrightarrow> bcs_u64 C y = Inr b \<longrightarrow> x = y) \<and>
     (\<forall>x y b. bcs_u8 C x = Inr b \<longrightarrow> bcs_u8 C y = Inr b \<longrightarrow> x = y) \<and>
     (\<forall>x y b. bcs_vec C x = Inr b \<longrightarrow> bcs_vec C y = Inr b \<longrightarrow> x = y)"

lemma map_err_Inr [simp]: "map_err f r = Inr a \<longleftrightarrow> r = Inr a"
  by (cases r) auto

text \<open>
  The arguments of a settlement transaction determine the trade: they are always 18, and two
  matches with the same arguments agree in batch, pool, symbol, fill, both signatures and every
  signed field of both orders but the symbol, which is passed once.
\<close>

theorem settle_args_determine:
  assumes "bcs_inj C" "build_settle_args C m = Inr args" "build_settle_args C m' = Inr args"
  shows "length args = 18 \<and> m_batch_id m = m_batch_id m' \<and> m_pool_id m = m_pool_id m'
    \<and> m_symbol m = m_symbol m' \<and> fill_quantity m = fill_quantity m'
    \<and> r_signature (buyer m) = r_signature (buyer m') \<and> r_signature (seller m) = r_signature (seller m')
    \<and> r_order (buyer m) = (r_order (buyer m'))\<lparr>o_symbol := o_symbol (r_order (buyer m))\<rparr>
    \<and> r_order (seller m) = (r_order (seller m'))\<lparr>o_symbol := o_symbol (r_order (seller m))\<rparr>"
proof -
  have inj: "bcs_u64 C x = Inr b \<Longrightarrow> bcs_u64 C y = Inr b \<Longrightarrow> x = y"
    "bcs_u8 C z = Inr b \<Longrightarrow> bcs_u8 C w = Inr b \<Longrightarrow> z = w"
    "bcs_vec C s = Inr b \<Longrightarrow> bcs_vec C t = Inr b \<Longrightarrow> s = t" for x y z w s t b
    using assms(1) unfolding bcs_inj_def by blast+
  from assms(2) have l: "length args = 18"
    unfolding build_settle_args_def Let_def collect_results_Inr
    by (auto dest: arg_cong [where f = length])
  then obtain a1 a2 a3 a4 a5 a6 a7 a8 a9 a10 a11 a12 a13 a14 a15 a16 a17 a18 where
    args: "args = [a1, a2, a3, a4, a5, a6, a7, a8, a9, a10, a11, a12, a13, a14, a15, a16, a17, a18]"
    by (auto simp: numeral_eq_Suc length_Suc_conv)
  note eqs = assms(2,3) [unfolded args build_settle_args_def Let_def collect_results_Inr list.map
      list.inject map_err_Inr]
  show ?thesis using eqs l
    by (intro conjI order.equality) (simp; blast intro: inj)+
qed

lemma example_bcs_inj: "bcs_inj example_crypto"
  by (simp add: bcs_inj_def example_crypto_def)

lemma settle_args_determine_witness:
  "\<exists>args m. build_settle_args example_crypto m = Inr args \<and> length args = 18 \<and> fill_quantity m = 4"
proof -
  define m where "m = mk_match example_crypto 100 1 [69] (example_reveal 1 1 50 10 7)
    (example_reveal 2 0 48 4 9) 4"
  have "\<exists>args. build_settle_args example_crypto m = Inr args"
    by (simp add: build_settle_args_def Let_def example_crypto_def)
  then obtain args where "build_settle_args example_crypto m = Inr args" ..
  with settle_args_determine [OF example_bcs_inj this this] show ?thesis
    by (intro exI [of _ args] exI [of _ m]) (simp add: m_def mk_match_def)
qed

definition example_codec :: tx_codec where
  "example_codec = \<lparr>bcs_payload = (\<lambda>_. Inr []), bcs_raw_tx = (\<lambda>t. Inr (le64 (rt_sequence_number t))),
     bcs_signed_tx = (\<lambda>t. Inr (le64 (rt_sequence_number (st_raw_txn t)))), sha3_256 = (\<lambda>_. []),
     hex_error = (\<lambda>_. [])\<rparr>"

text \<open>
  Addresses: the full form of a 32-byte address parses back to it; a short form is the address
  padded with zeros on the left, with an odd number of digits as well; whatever parses has 32 bytes;
  and more than 64 digits are refused.
\<close>

theorem address_roundtrip:
  shows "parse_address X (''0x'' @ hex_encode bs) =
      (if length bs \<le> 32 then Inr (replicate (32 - length bs) 0 @ bs)
       else Inl (InvalidAddress (''address too long: '' @ nat_str (length bs) @ '' bytes'')))
    \<and> (length bs < 32 \<longrightarrow> d < 16 \<longrightarrow> parse_address X (''0x'' @ hex_char d # hex_encode bs) =
         Inr (replicate (31 - length bs) 0 @ word_of_nat d # bs))
    \<and> (parse_address X addr = Inr a \<longrightarrow> length a = 32)"
proof (intro conjI impI)
  have strip: "strip_0x (''0x'' @ s) = s" for s
    by (simp add: strip_0x_def starts_with_def)
  show "parse_address X (''0x'' @ hex_encode bs) =
      (if length bs \<le> 32 then Inr (replicate (32 - length bs) 0 @ bs)
       else Inl (InvalidAddress (''address too long: '' @ nat_str (length bs) @ '' bytes'')))"
    unfolding parse_address_def Let_def strip by simp
  show "parse_address X (''0x'' @ hex_char d # hex_encode bs) =
         Inr (replicate (31 - length bs) 0 @ word_of_nat d # bs)" if "length bs < 32" "d < 16"
  proof -
    have "hex_digit CHR ''0'' = Some 0" by (simp add: hex_digit_def)
    then show ?thesis unfolding parse_address_def Let_def strip using that by simp
  qed
  show "length a = 32" if "parse_address X addr = Inr a"
    using that by (auto simp: parse_address_def Let_def split: option.splits if_splits)
qed

lemma address_roundtrip_witness:
  "parse_address example_codec ''0x1'' = Inr (replicate 31 0 @ [1])"
proof -
  have "hex_char 1 = CHR ''1''" by code_simp
  then show ?thesis using address_roundtrip [of example_codec "[]" 1 "''0x1''"] by simp
qed

section \<open>The worker's sequence numbers\<close>

lemma worker_step_submitted:
  assumes "sr_is_gas_payer req"
    and "next_seq = Some q \<or> next_seq = None \<and> rpc_sequence_number N (sender_hex s) = Inr q"
    and "build_signed_tx C X s (sr_match_data req) q (rpc_unix_time N + 60) = Inr b"
    and "rpc_submit N b = Inr tx"
  shows "worker_step C X s N req next_seq = (Some (q + 1), Some (Submitted (sr_match_hash req) tx))"
  using assms
  by (auto simp: worker_step_def submit_settlement_direct_def get_sequence_number_def submit_tx_def)

text \<open>
  The worker numbers its transactions without gaps: when its requests are the gas payer's and
  the node accepts the transaction it is offered for each, the i-th request is submitted with the
  starting sequence number plus i, whether the start was kept from before or fetched for the first
  request, and one result comes back per request, in order.
\<close>

theorem worker_sequence:
  assumes "\<And>i. i < length reqs \<Longrightarrow> sr_is_gas_payer (snd (reqs ! i)) \<and>
      (\<exists>b. build_signed_tx C X s (sr_match_data (snd (reqs ! i))) (q + word_of_nat i)
             (rpc_unix_time (fst (reqs ! i)) + 60) = Inr b \<and> rpc_submit (fst (reqs ! i)) b = Inr (tx i))"
    and "next_seq = Some q \<or>
      next_seq = None \<and> reqs \<noteq> [] \<and> rpc_sequence_number (fst (hd reqs)) (sender_hex s) = Inr q"
  shows "worker_run C X s reqs next_seq =
    map (\<lambda>i. Submitted (sr_match_hash (snd (reqs ! i))) (tx i)) [0..<length reqs]"
  using assms
proof (induction reqs arbitrary: next_seq q tx)
  case Nil
  then show ?case by simp
next
  case (Cons p reqs)
  obtain N req where p: "p = (N, req)" by (cases p)
  from Cons.prems(1) [of 0] obtain b where
    "sr_is_gas_payer req" "build_signed_tx C X s (sr_match_data req) q (rpc_unix_time N + 60) = Inr b"
    "rpc_submit N b = Inr (tx 0)"
    by (auto simp: p)
  with Cons.prems(2) have step: "worker_step C X s N req next_seq =
      (Some (q + 1), Some (Submitted (sr_match_hash req) (tx 0)))"
    by (intro worker_step_submitted) (auto simp: p)
  have "worker_run C X s reqs (Some (q + 1)) =
      map (\<lambda>i. Submitted (sr_match_hash (snd (reqs ! i))) (tx (Suc i))) [0..<length reqs]"
  proof (rule Cons.IH [where q = "q + 1" and tx = "\<lambda>i. tx (Suc i)"])
    fix i assume "i < length reqs"
    then show "sr_is_gas_payer (snd (reqs ! i)) \<and>
      (\<exists>b. build_signed_tx C X s (sr_match_data (snd (reqs ! i))) (q + 1 + word_of_nat i)
             (rpc_unix_time (fst (reqs ! i)) + 60) = Inr b \<and> rpc_submit (fst (reqs ! i)) b = Inr (tx (Suc i)))"
      using Cons.prems(1) [of "Suc i"] by (simp add: add.assoc)
  qed simp
  then show ?case by (simp add: p step upt_conv_Cons map_Suc_upt [symmetric] del: upt_Suc)
qed

text \<open>A node that answers with the bytes it was sent, in hexadecimal.\<close>

definition example_rpc :: settle_rpc where
  "example_rpc = \<lparr>rpc_sequence_number = (\<lambda>_. Inr 41), rpc_simulate = (\<lambda>_. Inr (1, True, [])),
     rpc_submit = (\<lambda>b. Inr (hex_encode b)), rpc_unix_time = 0\<rparr>"

definition example_request :: settle_request where
  "example_request = \<lparr>sr_match_data = mk_match example_crypto 100 1 [69] (example_reveal 1 1 50 10 7)
     (example_reveal 2 0 48 4 9) 4, sr_match_hash = ''m'', sr_is_gas_payer = True\<rparr>"

definition example_submitter :: submitter where
  "example_submitter = \<lparr>sub_signing_key = [], sub_contract_addr = [], sub_sender_addr = [],
     sub_chain_id = 8, sub_max_gas = 200, sub_gas_price = 100000\<rparr>"

lemma worker_sequence_witness:
  "worker_run example_crypto example_codec example_submitter
     [(example_rpc, example_request), (example_rpc, example_request)] None =
   [Submitted ''m'' (hex_encode (le64 41)), Submitted ''m'' (hex_encode (le64 42))]"
proof -
  have args: "\<exists>args. build_settle_args example_crypto (sr_match_data example_request) = Inr args"
    by (simp add: build_settle_args_def Let_def example_crypto_def)
  then obtain args where args: "build_settle_args example_crypto (sr_match_data example_request) = Inr args" ..
  have tx: "build_signed_tx example_crypto example_codec example_submitter
      (sr_match_data example_request) q e = Inr (le64 q)" for q e
    by (simp add: build_signed_tx_def args encode_signed_tx_def example_codec_def settle_raw_tx_def
        build_raw_tx_def)
  let ?reqs = "[(example_rpc, example_request), (example_rpc, example_request)]"
  have "worker_run example_crypto example_codec example_submitter ?reqs None =
     map (\<lambda>i. Submitted (sr_match_hash (snd (?reqs ! i))) (hex_encode (le64 (41 + word_of_nat i))))
       [0..<length ?reqs]"
  proof (rule worker_sequence)
    fix i assume "i < length ?reqs"
    then have "?reqs ! i = (example_rpc, example_request)" by (auto simp: less_Suc_eq)
    then show "sr_is_gas_payer (snd (?reqs ! i)) \<and>
      (\<exists>b. build_signed_tx example_crypto example_codec example_submitter
             (sr_match_data (snd (?reqs ! i))) (41 + word_of_nat i)
             (rpc_unix_time (fst (?reqs ! i)) + 60) = Inr b \<and>
           rpc_submit (fst (?reqs ! i)) b = Inr (hex_encode (le64 (41 + word_of_nat i))))"
      by (simp add: tx) (simp add: example_rpc_def example_request_def)
  qed (simp add: example_rpc_def)
  then show ?thesis by (simp add: example_request_def upt_rec)
qed

end
