(* ===== verification/SettlementManager.thy ===== *)
theory SettlementManager
  imports SettlementTx Escrow
begin

text \<open>
  The second half of \<open>crates/settlement/src/lib.rs\<close>: the settlement manager. The tracker it shares
  with the main loop (\<open>Arc<Mutex<EscrowTracker>>\<close>) is the field \<open>mg_tracker\<close>; only the manager
  books and releases matches, the main loop sets confirmed balances. The manager reaches the tracker
  through the interface \<open>settlement_ledger\<close> of theory Escrow. \<open>pending\<close> is a hash map that the code
  iterates over: its order is the order of the association list.
\<close>

datatype settlement_action = KeepPending | ReleasePending | EnterLimited

datatype skip_reason = SkipInactive u64

record pending_settlement =
  ps_m :: match_rec
  ps_is_gas_payer :: bool
  ps_submitted_at :: "u64 option"
  ps_tx_hash :: "string option"
  ps_backstop_eligible_at :: u64
  ps_created_at_batch :: u64

record settlement_manager =
  mg_tracker :: escrow_tracker
  mg_pending :: "(string, pending_settlement) hmap"
  mg_own_nft_id :: u64
  mg_already_settled_count :: u32
  mg_total_settlement_count :: u32
  mg_skipped_inactive_total :: u64
  mg_skipped_last :: "string \<rightharpoonup> skip_reason"

record settled_event =
  se_batch_id :: u64
  se_pool_id :: u64
  se_trade_id :: string
  se_buyer_nft_id :: u64
  se_seller_nft_id :: u64
  se_symbol :: bytes
  se_buyer_price :: u64
  se_seller_price :: u64
  se_clearing_price :: u64
  se_base_amount :: u64
  se_quote_amount :: u64
  se_buyer_order_hash :: string
  se_seller_order_hash :: string
  se_gas_payer :: string
  se_timestamp :: u64

definition manager_new :: "escrow_tracker \<Rightarrow> u64 \<Rightarrow> settlement_manager" where
  "manager_new tracker own_nft_id =
     \<lparr>mg_tracker = tracker, mg_pending = [], mg_own_nft_id = own_nft_id, mg_already_settled_count = 0,
      mg_total_settlement_count = 0, mg_skipped_inactive_total = 0, mg_skipped_last = Map.empty\<rparr>"

definition release_pending_internal :: "string \<Rightarrow> settlement_manager \<Rightarrow> settlement_manager" where
  "release_pending_internal h M =
     (if hm_contains (mg_pending M) h
      then M\<lparr>mg_pending := hm_remove h (mg_pending M),
             mg_tracker := fst (release_pending h (mg_tracker M))\<rparr>
      else M)"

definition register_skipped :: "string \<Rightarrow> skip_reason \<Rightarrow> settlement_manager \<Rightarrow> settlement_manager" where
  "register_skipped h reason M =
     (let M1 = (if hm_contains (mg_pending M) h
                then M\<lparr>mg_pending := hm_remove h (mg_pending M),
                       mg_tracker := fst (release_pending h (mg_tracker M))\<rparr>
                else M)
      in M1\<lparr>mg_skipped_inactive_total := mg_skipped_inactive_total M1 + 1,
            mg_skipped_last := (mg_skipped_last M1)(h \<mapsto> reason)\<rparr>)"

text \<open>\<open>format!("escrow error: {}", e)\<close>\<close>

fun escrow_error_display :: "escrow_error \<Rightarrow> string" where
  "escrow_error_display (InsufficientBalance need hv) =
     ''insufficient projected balance: need '' @ u64_str need @ '', have '' @ u64_str hv"
| "escrow_error_display (UnknownToken t) = ''unknown token: '' @ t"
| "escrow_error_display (DuplicatePending h) = ''duplicate pending entry: '' @ h"
| "escrow_error_display (PendingNotFound h) = ''pending entry not found: '' @ h"
| "escrow_error_display (EarmarkExceedsProjected need hv) =
     ''earmark exceeds projected: need '' @ u64_str need @ '', have '' @ u64_str hv"

definition match_booking ::
  "u64 \<Rightarrow> match_rec \<Rightarrow> string \<Rightarrow> string \<Rightarrow> u8 \<Rightarrow> u8 \<Rightarrow> booking" where
  "match_booking own_nft_id m base_token quote_token base_decimals quote_decimals =
     ((if r_nft (buyer m) = own_nft_id then Buy else Sell), base_token, quote_token, fill_quantity m,
      r_price (buyer m), settlement_price m, base_decimals, quote_decimals)"

definition register_match ::
  "match_rec \<Rightarrow> bool \<Rightarrow> u64 \<Rightarrow> u64 \<Rightarrow> string \<Rightarrow> string \<Rightarrow> u8 \<Rightarrow> u8 \<Rightarrow> settlement_manager
    \<Rightarrow> (settlement_manager \<times> (settlement_error + unit)) option" where
  "register_match m is_gas_payer swap_start_block blocks base_token quote_token
       base_decimals quote_decimals M =
     (let h = hex_encode (match_hash m) in
      case book_match h (match_booking (mg_own_nft_id M) m base_token quote_token base_decimals
                           quote_decimals) (mg_tracker M) of
        None \<Rightarrow> None
      | Some (t, Inl e) \<Rightarrow>
          Some (M\<lparr>mg_tracker := t\<rparr>, Inl (BcsErr (''escrow error: '' @ escrow_error_display e)))
      | Some (t, Inr _) \<Rightarrow>
          Some (M\<lparr>mg_tracker := t,
                  mg_pending := hm_insert h
                    \<lparr>ps_m = m, ps_is_gas_payer = is_gas_payer, ps_submitted_at = None,
                     ps_tx_hash = None, ps_backstop_eligible_at = swap_start_block + blocks,
                     ps_created_at_batch = m_batch_id m\<rparr> (mg_pending M)\<rparr>, Inr ()))"

definition event_matches :: "settled_event \<Rightarrow> pending_settlement \<Rightarrow> bool" where
  "event_matches ev ps =
     (m_batch_id (ps_m ps) = se_batch_id ev \<and> r_nft (buyer (ps_m ps)) = se_buyer_nft_id ev \<and>
      r_nft (seller (ps_m ps)) = se_seller_nft_id ev \<and> fill_quantity (ps_m ps) = se_base_amount ev)"

definition find_pending_for_event :: "settled_event \<Rightarrow> settlement_manager \<Rightarrow> string option" where
  "find_pending_for_event ev M =
     (if hm_contains (mg_pending M) (se_trade_id ev) then Some (se_trade_id ev)
      else map_option fst (find (\<lambda>(k, ps). event_matches ev ps) (mg_pending M)))"

definition mgr_settlement_confirmed :: "settled_event \<Rightarrow> settlement_manager \<Rightarrow> settlement_manager \<times> bool" where
  "mgr_settlement_confirmed ev M =
     (case find_pending_for_event ev M of
        None \<Rightarrow> (M, False)
      | Some key \<Rightarrow>
          (M\<lparr>mg_tracker := fst (confirm_settlement key (mg_tracker M)),
             mg_pending := hm_remove key (mg_pending M)\<rparr>, True))"

definition count_failure :: "abort_code \<Rightarrow> settlement_manager \<Rightarrow> settlement_manager" where
  "count_failure code M =
     (let M1 = M\<lparr>mg_total_settlement_count := mg_total_settlement_count M + 1\<rparr>
      in if code = AlreadySettled
         then M1\<lparr>mg_already_settled_count := mg_already_settled_count M1 + 1\<rparr> else M1)"

text \<open>Which side of a pending match the abort blames, if it is this node's.\<close>

definition own_buyer :: "string \<Rightarrow> settlement_manager \<Rightarrow> bool" where
  "own_buyer h M = (case hm_get (mg_pending M) h of
     None \<Rightarrow> False | Some ps \<Rightarrow> r_nft (buyer (ps_m ps)) = mg_own_nft_id M)"

definition own_seller :: "string \<Rightarrow> settlement_manager \<Rightarrow> bool" where
  "own_seller h M = (case hm_get (mg_pending M) h of
     None \<Rightarrow> False | Some ps \<Rightarrow> r_nft (seller (ps_m ps)) = mg_own_nft_id M)"

definition on_settlement_failed ::
  "string \<Rightarrow> abort_code \<Rightarrow> settlement_manager \<Rightarrow> settlement_manager \<times> settlement_action" where
  "on_settlement_failed h code M0 =
     (let M = count_failure code M0;
          released = release_pending_internal h M
      in case code of
           AlreadySettled \<Rightarrow> (M, KeepPending)
         | AInsufficientBalance \<Rightarrow> (M, KeepPending)
         | BuyerInactive \<Rightarrow> (released, if own_buyer h M then EnterLimited else ReleasePending)
         | SellerInactive \<Rightarrow> (released, if own_seller h M then EnterLimited else ReleasePending)
         | NftBlocked \<Rightarrow>
             (released, if own_buyer h M \<or> own_seller h M then EnterLimited else ReleasePending)
         | NftBurned \<Rightarrow>
             (released, if own_buyer h M \<or> own_seller h M then EnterLimited else ReleasePending)
         | _ \<Rightarrow> (released, ReleasePending))"

definition check_backstop_eligible :: "u64 \<Rightarrow> settlement_manager \<Rightarrow> string list" where
  "check_backstop_eligible current_block M =
     map fst (filter (\<lambda>(k, ps). \<not> ps_is_gas_payer ps \<and> ps_tx_hash ps = None \<and>
                        ps_backstop_eligible_at ps \<le> current_block) (mg_pending M))"

definition update_pending ::
  "string \<Rightarrow> (pending_settlement \<Rightarrow> pending_settlement) \<Rightarrow> settlement_manager \<Rightarrow> settlement_manager" where
  "update_pending h f M =
     (case hm_get (mg_pending M) h of
        None \<Rightarrow> M | Some ps \<Rightarrow> M\<lparr>mg_pending := hm_insert h (f ps) (mg_pending M)\<rparr>)"

definition backstop_submit ::
  "crypto \<Rightarrow> tx_codec \<Rightarrow> settle_rpc \<Rightarrow> submitter \<Rightarrow> string \<Rightarrow> settlement_manager
    \<Rightarrow> settlement_manager \<times> (settlement_error + settlement_outcome)" where
  "backstop_submit C X N s h M =
     (case hm_get (mg_pending M) h of
        None \<Rightarrow> (M, Inl (BackstopExpired (''no pending settlement for '' @ h)))
      | Some ps \<Rightarrow>
         (case submit_settlement C X N s (ps_m ps) of
            Inl e \<Rightarrow> (M, Inl e)
          | Inr outcome \<Rightarrow>
             ((case outcome of
                 Pending tx_hash \<Rightarrow> update_pending h (\<lambda>ps. ps\<lparr>ps_tx_hash := Some tx_hash\<rparr>) M
               | OutAlreadySettled \<Rightarrow>
                   M\<lparr>mg_total_settlement_count := mg_total_settlement_count M + 1,
                     mg_already_settled_count := mg_already_settled_count M + 1\<rparr>
               | _ \<Rightarrow> M), Inr outcome)))"

definition expire_stale :: "u64 \<Rightarrow> u64 \<Rightarrow> settlement_manager \<Rightarrow> settlement_manager" where
  "expire_stale current_batch_id settlement_max_age M =
     foldl (\<lambda>M key. release_pending_internal key M) M
       (map fst (filter (\<lambda>(k, ps). ps_created_at_batch ps + settlement_max_age < current_batch_id)
          (mg_pending M)))"

text \<open>\<open>already as f64 / total as f64 > 0.5\<close>. Both counts are exact as doubles, and the rounded
  quotient of two 32-bit numbers exceeds one half exactly when the exact quotient does: a quotient
  above one half is at least \<open>1/2 + 1/(2 * total)\<close>, far from the spacing of doubles.\<close>

definition is_potentially_isolated :: "settlement_manager \<Rightarrow> bool" where
  "is_potentially_isolated M =
     (if mg_total_settlement_count M < 5 then False
      else unat (mg_total_settlement_count M) < 2 * unat (mg_already_settled_count M))"

definition reset_isolation_counters :: "settlement_manager \<Rightarrow> settlement_manager" where
  "reset_isolation_counters M =
     M\<lparr>mg_already_settled_count := 0, mg_total_settlement_count := 0\<rparr>"

definition pending_count :: "settlement_manager \<Rightarrow> nat" where
  "pending_count M = length (mg_pending M)"

definition is_pending :: "string \<Rightarrow> settlement_manager \<Rightarrow> bool" where
  "is_pending h M = hm_contains (mg_pending M) h"

definition get_pending :: "string \<Rightarrow> settlement_manager \<Rightarrow> pending_settlement option" where
  "get_pending h M = hm_get (mg_pending M) h"

definition pending_summary :: "settlement_manager \<Rightarrow> (string \<times> u64 \<times> string) list" where
  "pending_summary M =
     map (\<lambda>(h, ps). (h, ps_created_at_batch ps,
            if ps_tx_hash ps \<noteq> None then ''submitted'' else ''queued'')) (mg_pending M)"

definition mark_submitted :: "string \<Rightarrow> string \<Rightarrow> u64 \<Rightarrow> settlement_manager \<Rightarrow> settlement_manager" where
  "mark_submitted h tx_hash block_height M =
     update_pending h (\<lambda>ps. ps\<lparr>ps_tx_hash := Some tx_hash, ps_submitted_at := Some block_height\<rparr>) M"

fun process_result ::
  "settle_result \<Rightarrow> settlement_manager \<Rightarrow> settlement_manager \<times> settlement_action option" where
  "process_result (Submitted h tx_hash) M = (mark_submitted h tx_hash 0 M, None)"
| "process_result (RAlreadySettled h) M =
     (let (M', a) = on_settlement_failed h AlreadySettled M in (M', Some a))"
| "process_result (RFailed h code) M =
     (let (M', a) = on_settlement_failed h code M in (M', Some a))"
| "process_result (RpcError h err) M = (M, None)"

section \<open>The manager and the ledger stay in step\<close>

text \<open>Every pending settlement has its escrow entries and every escrow entry its pending
  settlement: no reservation is leaked and none is lost.\<close>

definition in_step :: "settlement_manager \<Rightarrow> bool" where
  "in_step M \<longleftrightarrow> esc_wf (mg_tracker M) \<and> hm_wf (mg_pending M) \<and>
     (\<forall>h. h \<in> dom (hm_get (mg_pending M)) \<longleftrightarrow> has_pending h (mg_tracker M))"

lemma in_step_new [wf_intros]: "esc_wf t \<Longrightarrow> (\<And>h. \<not> has_pending h t) \<Longrightarrow> in_step (manager_new t n)"
  by (simp add: in_step_def manager_new_def)

lemma in_step_drop_entry:
  assumes "in_step M"
  shows "in_step (M\<lparr>mg_pending := hm_remove h (mg_pending M),
     mg_tracker := fst (release_pending h (mg_tracker M))\<rparr>)"
proof -
  have "h' \<in> dom (hm_get (mg_pending M)) - {h} \<longleftrightarrow> has_pending h' (fst (release_pending h (mg_tracker M)))" for h'
    using assms by (intro ledger.in_step_drop) (simp add: in_step_def)
  then show ?thesis using assms by (simp add: in_step_def ledger.drop_ok)
qed

lemma in_step_settle_entry:
  assumes "in_step M"
  shows "in_step (M\<lparr>mg_tracker := fst (confirm_settlement h (mg_tracker M)),
     mg_pending := hm_remove h (mg_pending M)\<rparr>)"
proof -
  have "h' \<in> dom (hm_get (mg_pending M)) - {h} \<longleftrightarrow> has_pending h' (fst (confirm_settlement h (mg_tracker M)))" for h'
    using assms by (intro ledger.in_step_settle) (simp add: in_step_def)
  then show ?thesis using assms by (simp add: in_step_def ledger.settle_ok)
qed

lemma in_step_release [wf_intros]: "in_step M \<Longrightarrow> in_step (release_pending_internal h M)"
  by (simp add: release_pending_internal_def in_step_drop_entry)

lemma in_step_skipped [wf_intros]: "in_step M \<Longrightarrow> in_step (register_skipped h r M)"
  using in_step_drop_entry [of M h] by (simp add: register_skipped_def Let_def in_step_def)

lemma in_step_confirmed [wf_intros]: "in_step M \<Longrightarrow> in_step (fst (mgr_settlement_confirmed ev M))"
  by (auto simp: mgr_settlement_confirmed_def in_step_settle_entry split: option.split)

lemma in_step_count [simp]: "in_step (count_failure c M) = in_step M"
  by (simp add: count_failure_def Let_def in_step_def)

lemma in_step_failed [wf_intros]: "in_step M \<Longrightarrow> in_step (fst (on_settlement_failed h c M))"
  by (cases c) (simp_all add: on_settlement_failed_def Let_def in_step_release)

lemma in_step_update: "in_step M \<Longrightarrow> in_step (update_pending h f M)"
proof (cases "hm_get (mg_pending M) h")
  case (Some ps)
  assume "in_step M"
  moreover have "dom (hm_get (hm_insert h (f ps) (mg_pending M))) = dom (hm_get (mg_pending M))"
    using Some by auto
  ultimately show ?thesis using Some by (simp add: update_pending_def in_step_def del: hm_get_insert)
qed (simp add: update_pending_def)

lemma in_step_process [wf_intros]: "in_step M \<Longrightarrow> in_step (fst (process_result r M))"
  using in_step_failed by (cases r) (auto simp: mark_submitted_def in_step_update case_prod_unfold Let_def)

lemma in_step_expire [wf_intros]: "in_step M \<Longrightarrow> in_step (expire_stale b a M)"
proof -
  have "in_step M \<Longrightarrow> in_step (foldl (\<lambda>M key. release_pending_internal key M) M ks)" for M ks
    by (induction ks arbitrary: M) (auto intro: in_step_release)
  then show "in_step M \<Longrightarrow> in_step (expire_stale b a M)" by (simp add: expire_stale_def)
qed

lemma in_step_backstop [wf_intros]: "in_step M \<Longrightarrow> in_step (fst (backstop_submit C X N s h M))"
  by (auto simp: backstop_submit_def in_step_update split: option.split sum.split settlement_outcome.split)
    (simp add: in_step_def)

lemma in_step_register:
  assumes "in_step M" "register_match m g sb bb bt qt bd qd M = Some (M', r)"
  shows "in_step M'"
proof -
  let ?h = "hex_encode (match_hash m)"
  from assms(2) obtain t x where b: "book_match ?h (match_booking (mg_own_nft_id M) m bt qt bd qd)
      (mg_tracker M) = Some (t, x)" and t: "mg_tracker M' = t"
    and p: "mg_pending M' = mg_pending M \<and> x \<noteq> Inr () \<or>
       (\<exists>ps. mg_pending M' = hm_insert ?h ps (mg_pending M)) \<and> x = Inr ()"
    by (auto simp: register_match_def Let_def split: option.splits prod.splits sum.splits) blast
  have "h' \<in> (if x = Inr () then insert ?h (dom (hm_get (mg_pending M))) else dom (hm_get (mg_pending M)))
      \<longleftrightarrow> has_pending h' t" for h'
    using assms(1) b by (intro ledger.in_step_book) (auto simp: in_step_def)
  moreover have "esc_wf t" using ledger.book_ok [OF _ b] assms(1) by (simp add: in_step_def)
  moreover have "dom (hm_get (mg_pending M')) =
      (if x = Inr () then insert ?h (dom (hm_get (mg_pending M))) else dom (hm_get (mg_pending M)))"
    using p by (auto simp del: dom_fun_upd)
  moreover have "hm_wf (mg_pending M')" using p assms(1) by (auto simp: in_step_def)
  ultimately show ?thesis using t by (simp add: in_step_def)
qed

section \<open>Runs of the manager\<close>

datatype manager_event =
    MRegister match_rec bool u64 u64 string string u8 u8
  | MSkipped string skip_reason
  | MConfirmed settled_event
  | MResult settle_result
  | MExpire u64 u64
  | MSetConfirmed string u64

fun manager_step :: "manager_event \<Rightarrow> settlement_manager \<Rightarrow> settlement_manager option" where
  "manager_step (MRegister m g sb bb bt qt bd qd) M = map_option fst (register_match m g sb bb bt qt bd qd M)"
| "manager_step (MSkipped h r) M = Some (register_skipped h r M)"
| "manager_step (MConfirmed ev) M = Some (fst (mgr_settlement_confirmed ev M))"
| "manager_step (MResult r) M = Some (fst (process_result r M))"
| "manager_step (MExpire b a) M = Some (expire_stale b a M)"
| "manager_step (MSetConfirmed k a) M = Some (M\<lparr>mg_tracker := set_confirmed k a (mg_tracker M)\<rparr>)"

inductive manager_reach :: "u64 \<Rightarrow> settlement_manager \<Rightarrow> bool" for own where
  mr_start: "manager_reach own (manager_new escrow_new own)"
| mr_step: "manager_reach own M \<Longrightarrow> manager_step ev M = Some M' \<Longrightarrow> manager_reach own M'"

lemma has_pending_set_confirmed:
  assumes "esc_wf t"
  shows "has_pending h (set_confirmed k a t) = has_pending h t" "esc_wf (set_confirmed k a t)"
proof -
  show w: "esc_wf (set_confirmed k a t)" using assms by (simp add: esc_wf_def set_confirmed_def)
  have "holds_pending h (entry_or_default j (set_confirmed k a t)) = holds_pending h (entry_or_default j t)" for j
    by (simp add: set_confirmed_def holds_pending_def)
  then show "has_pending h (set_confirmed k a t) = has_pending h t"
    using assms w by (simp add: has_pending_entry esc_wf_def)
qed

lemma manager_reach_in_step: "manager_reach own M \<Longrightarrow> in_step M"
proof (induction rule: manager_reach.induct)
  case mr_start
  show ?case by (rule in_step_new) (simp_all add: esc_wf_def escrow_new_def has_pending_iff)
next
  case (mr_step M ev M')
  then show ?case
    by (cases ev)
      (auto intro: wf_intros simp: in_step_register,
       auto simp: in_step_def has_pending_set_confirmed)
qed

lemma filter_wf: "hm_wf m \<Longrightarrow> h \<in> set (map fst (filter P m)) \<longleftrightarrow> (\<exists>v. hm_get m h = Some v \<and> P (h, v))"
  by (auto simp: hm_wf_get [symmetric] image_iff)

lemma released_gone: "in_step M \<Longrightarrow> \<not> is_pending h (release_pending_internal h M)"
  by (auto simp: is_pending_def release_pending_internal_def hm_contains_def simp del: hm_contains_iff)

lemma released_other: "h' \<noteq> h \<Longrightarrow>
    get_pending h' (release_pending_internal h M) = get_pending h' M"
  by (simp add: get_pending_def release_pending_internal_def)

lemma in_step_pending: "in_step M \<Longrightarrow> is_pending h M = has_pending h (mg_tracker M)"
  by (auto simp: in_step_def is_pending_def hm_contains_def dom_def simp del: hm_contains_iff)

lemma get_pending_release_keys:
  "get_pending h (foldl (\<lambda>M key. release_pending_internal key M) M ks) =
     (if h \<in> set ks then None else get_pending h M)"
proof (induction ks arbitrary: M)
  case Nil
  then show ?case by simp
next
  case (Cons k ks)
  have "get_pending h (release_pending_internal k M) = (if h = k then None else get_pending h M)"
    by (simp add: get_pending_def release_pending_internal_def hm_contains_def del: hm_contains_iff)
  then show ?case by (simp only: foldl.simps Cons.IH list.set insert_iff if_bool_eq_disj) auto
qed

section \<open>Properties\<close>

text \<open>
  C23. No reservation is leaked or lost: in every state the manager reaches by registering, skipping,
  confirming, failing and expiring settlements, with confirmed balances set in between, a settlement is
  pending exactly when the escrow tracker holds entries under its match hash; and expiry drops exactly
  the settlements older than the maximal age, with their reservations.
\<close>

theorem manager_ledger_in_step:
  assumes "manager_reach own M"
  shows "is_pending h M = has_pending h (mg_tracker M)
    \<and> get_pending h (expire_stale b a M) =
        (case get_pending h M of None \<Rightarrow> None
         | Some ps \<Rightarrow> if ps_created_at_batch ps + a < b then None else Some ps)
    \<and> has_pending h (mg_tracker (expire_stale b a M)) = (get_pending h (expire_stale b a M) \<noteq> None)"
proof (intro conjI)
  have i: "in_step M" by (rule manager_reach_in_step [OF assms])
  show "is_pending h M = has_pending h (mg_tracker M)" by (rule in_step_pending [OF i])
  have "hm_wf (mg_pending M)" using i by (simp add: in_step_def)
  from filter_wf [OF this] show "get_pending h (expire_stale b a M) =
        (case get_pending h M of None \<Rightarrow> None
         | Some ps \<Rightarrow> if ps_created_at_batch ps + a < b then None else Some ps)"
    by (simp add: expire_stale_def get_pending_release_keys del: set_map set_filter)
      (simp add: get_pending_def split: option.split)
  show "has_pending h (mg_tracker (expire_stale b a M)) = (get_pending h (expire_stale b a M) \<noteq> None)"
    using in_step_pending [OF in_step_expire [OF i], of h b a]
    by (simp add: is_pending_def get_pending_def hm_contains_def del: hm_contains_iff)
qed

definition example_match :: match_rec where
  "example_match = (mk_match example_crypto 100 1 [69] (example_reveal 1 1 200000000 10 7)
     (example_reveal 2 0 100000000 4 9) 4)\<lparr>match_hash := [7]\<rparr>"

definition example_manager :: "bool \<Rightarrow> settlement_manager" where
  "example_manager payer = fst (the (register_match example_match payer 50 10 ''EMM'' ''KAY'' 5 5
     ((manager_new escrow_new 1)\<lparr>mg_tracker := set_confirmed ''KAY'' 1000 escrow_new\<rparr>)))"

lemma example_manager_registered:
  "register_match example_match payer 50 10 ''EMM'' ''KAY'' 5 5
     ((manager_new escrow_new 1)\<lparr>mg_tracker := set_confirmed ''KAY'' 1000 escrow_new\<rparr>)
   = Some (example_manager payer, Inr ())
   \<and> get_pending ''07'' (example_manager payer) = Some \<lparr>ps_m = example_match, ps_is_gas_payer = payer,
       ps_submitted_at = None, ps_tx_hash = None, ps_backstop_eligible_at = 60, ps_created_at_batch = 100\<rparr>
   \<and> mg_own_nft_id (example_manager payer) = 1"
proof -
  have d: "price_divisor 5 5 = 100000000" by (simp add: price_divisor_def price_exponent_def)
  have q: "quote_amount 4 200000000 100000000 = Some 8"
    by (simp add: quote_amount_def checked_div_def)
  have f: "hex_char 0 = CHR ''0''" "hex_char 7 = CHR ''7''" by code_simp+
  show ?thesis
    unfolding example_manager_def
    by (simp add: register_match_def Let_def match_booking_def apply_match_def d q f example_match_def
        mk_match_def example_reveal_def manager_new_def reserve_outflow_def track_inflow_def
        example_tracker_simps tb_projected_def saturating_sub_def get_pending_def)
qed

lemma example_manager_reach: "manager_reach 1 (example_manager payer)"
proof -
  have "manager_reach 1 ((manager_new escrow_new 1)\<lparr>mg_tracker := set_confirmed ''KAY'' 1000 escrow_new\<rparr>)"
    by (rule mr_step [OF mr_start, where ev = "MSetConfirmed ''KAY'' 1000"]) (simp add: manager_new_def)
  then show ?thesis
    by (rule mr_step [where ev = "MRegister example_match payer 50 10 ''EMM'' ''KAY'' 5 5"])
      (simp add: example_manager_registered)
qed

lemma manager_ledger_in_step_witness:
  "has_pending ''07'' (mg_tracker (example_manager True))
   \<and> \<not> has_pending ''07'' (mg_tracker (expire_stale 201 100 (example_manager True)))"
  using manager_ledger_in_step [OF example_manager_reach, of "''07''" True 201 100]
    example_manager_registered [of True]
  by (simp add: is_pending_def get_pending_def hm_contains_def del: hm_contains_iff)

text \<open>
  What a failed settlement does: an already settled trade and a short balance keep the pending
  settlement and every reservation; any other abort drops the settlement and its reservations, leaves
  every other pending settlement alone, and sends the node to limited mode exactly when the side
  that the code blames is its own NFT.
\<close>

theorem failed_settlement_routing:
  assumes "manager_reach own M" "get_pending h M = Some ps"
    and "on_settlement_failed h code M = (M', action)"
  shows "(action = KeepPending) = (code \<in> {AlreadySettled, AInsufficientBalance})
    \<and> (action = KeepPending \<longrightarrow> mg_tracker M' = mg_tracker M \<and> mg_pending M' = mg_pending M)
    \<and> (action \<noteq> KeepPending \<longrightarrow> \<not> has_pending h (mg_tracker M') \<and> get_pending h M' = None
        \<and> (\<forall>h'. h' \<noteq> h \<longrightarrow> get_pending h' M' = get_pending h' M))
    \<and> (action = EnterLimited) =
        (code \<in> {BuyerInactive, NftBlocked, NftBurned} \<and> r_nft (buyer (ps_m ps)) = mg_own_nft_id M
         \<or> code \<in> {SellerInactive, NftBlocked, NftBurned} \<and> r_nft (seller (ps_m ps)) = mg_own_nft_id M)"
proof (intro conjI)
  define K where "K = count_failure code M"
  have K: "mg_tracker K = mg_tracker M" "mg_pending K = mg_pending M" "mg_own_nft_id K = mg_own_nft_id M"
    by (simp_all add: K_def count_failure_def Let_def)
  have iK: "in_step K" using manager_reach_in_step [OF assms(1)] by (simp add: K_def)
  have own: "own_buyer h K = (r_nft (buyer (ps_m ps)) = mg_own_nft_id M)"
    "own_seller h K = (r_nft (seller (ps_m ps)) = mg_own_nft_id M)"
    using assms(2) by (simp_all add: own_buyer_def own_seller_def get_pending_def K)
  note eq = assms(3) [unfolded on_settlement_failed_def Let_def, folded K_def]
  have keep: "(action = KeepPending) = (code \<in> {AlreadySettled, AInsufficientBalance})"
    and M': "M' = (if action = KeepPending then K else release_pending_internal h K)"
    and lim: "(action = EnterLimited) =
      (code \<in> {BuyerInactive, NftBlocked, NftBurned} \<and> own_buyer h K
       \<or> code \<in> {SellerInactive, NftBlocked, NftBurned} \<and> own_seller h K)"
    using eq by (cases code; auto split: if_splits)+
  show "(action = KeepPending) = (code \<in> {AlreadySettled, AInsufficientBalance})" by (rule keep)
  show "action = KeepPending \<longrightarrow> mg_tracker M' = mg_tracker M \<and> mg_pending M' = mg_pending M"
    by (simp add: M' K)
  show "(action = EnterLimited) =
        (code \<in> {BuyerInactive, NftBlocked, NftBurned} \<and> r_nft (buyer (ps_m ps)) = mg_own_nft_id M
         \<or> code \<in> {SellerInactive, NftBlocked, NftBurned} \<and> r_nft (seller (ps_m ps)) = mg_own_nft_id M)"
    using lim own by simp
  show "action \<noteq> KeepPending \<longrightarrow> \<not> has_pending h (mg_tracker M') \<and> get_pending h M' = None
        \<and> (\<forall>h'. h' \<noteq> h \<longrightarrow> get_pending h' M' = get_pending h' M)"
    using released_gone [OF iK, of h] in_step_pending [OF in_step_release [OF iK], of h h]
      released_other [of _ h K]
    by (auto simp: M' is_pending_def get_pending_def hm_contains_def K simp del: hm_contains_iff)
qed

lemma failed_settlement_routing_witness:
  "snd (on_settlement_failed ''07'' BuyerInactive (example_manager True)) = EnterLimited
   \<and> snd (on_settlement_failed ''07'' SellerInactive (example_manager True)) = ReleasePending
   \<and> snd (on_settlement_failed ''07'' AlreadySettled (example_manager True)) = KeepPending"
proof -
  note r = failed_settlement_routing [OF example_manager_reach [of True]
      example_manager_registered [of True, THEN conjunct2, THEN conjunct1] surjective_pairing]
  have p: "r_nft (buyer example_match) = 1" "r_nft (seller example_match) = 2"
    by (simp_all add: example_match_def mk_match_def example_reveal_def)
  have "action \<noteq> KeepPending \<Longrightarrow> action \<noteq> EnterLimited \<Longrightarrow> action = ReleasePending" for action
    by (cases action) simp_all
  then show ?thesis
    using r [of BuyerInactive] r [of SellerInactive] r [of AlreadySettled] p
      example_manager_registered [of True] by simp
qed

text \<open>
  A gas payer's settlement that meets an RPC error is stranded: the error changes nothing, the
  settlement is never eligible for a backstop at any block, and so it stays pending, with its
  reservation, until it expires. A counterparty's unsubmitted settlement becomes eligible exactly from
  its backstop block on.
\<close>

theorem rpc_error_strands_gas_payer:
  assumes "manager_reach own M" "get_pending h M = Some ps"
  shows "process_result (RpcError h err) M = (M, None)
    \<and> (h \<in> set (check_backstop_eligible block M)) =
        (\<not> ps_is_gas_payer ps \<and> ps_tx_hash ps = None \<and> ps_backstop_eligible_at ps \<le> block)"
proof -
  have "hm_wf (mg_pending M)" using manager_reach_in_step [OF assms(1)] by (simp add: in_step_def)
  from filter_wf [OF this] assms(2) show ?thesis
    by (simp add: check_backstop_eligible_def get_pending_def del: set_map set_filter)
qed

lemma rpc_error_strands_gas_payer_witness:
  "''07'' \<notin> set (check_backstop_eligible 1000000 (example_manager True))
   \<and> ''07'' \<in> set (check_backstop_eligible 60 (example_manager False))"
  using rpc_error_strands_gas_payer [OF example_manager_reach, of "''07''" True _ "[]" 1000000]
    rpc_error_strands_gas_payer [OF example_manager_reach, of "''07''" False _ "[]" 60]
    example_manager_registered [of True] example_manager_registered [of False]
  by simp

end
