(* ===== verification/Convert.thy ===== *)
theory Convert
  imports Matching Escrow
begin

text \<open>
  \<open>crates/strategy/src/convert.rs\<close>: the strategy's decimal strings become canonical fixed-point
  orders, which are validated before they are signed; and \<open>convert_strategy_orders\<close> of
  \<open>src/run.rs\<close>, which builds the validation context from the escrow tracker and signs what passed.
  The random nonces are a list, one per order that is converted. \<open>None\<close> is a panic: the division by
  a divisor that wrapped to zero, or a failed BCS encoding.
\<close>

datatype strategy_error =
    ParseError string
  | AuthFailed string
  | InvalidPrice string
  | InvalidQuantity string
  | SInvalidSide string
  | UnknownPair string
  | ValidationError string

fun strategy_error_display :: "strategy_error \<Rightarrow> string" where
  "strategy_error_display (ParseError e) = ''parse error: '' @ e"
| "strategy_error_display (AuthFailed e) = ''auth failed: '' @ e"
| "strategy_error_display (InvalidPrice e) = ''invalid price: '' @ e"
| "strategy_error_display (InvalidQuantity e) = ''invalid quantity: '' @ e"
| "strategy_error_display (SInvalidSide e) = ''invalid side: '' @ e"
| "strategy_error_display (UnknownPair e) = ''unknown pair: '' @ e"
| "strategy_error_display (ValidationError e) = ''validation error: '' @ e"

record order_spec =
  sp_pair :: string
  sp_side :: string
  sp_price :: string
  sp_quantity :: string

record canonical_order =
  co_symbol :: bytes
  co_side :: u8
  co_price :: u64
  co_quantity :: u64
  co_nft_id :: u64
  co_batch_id :: u64
  co_nonce :: bytes

record order_context =
  active_pairs :: "string set"
  min_quantities :: "string \<rightharpoonup> u64"
  token_decimals :: "string \<rightharpoonup> u8"
  projected_balances :: "string \<rightharpoonup> u64"
  oc_commits_per_batch :: u32
  oc_nft_id :: u64
  oc_batch_id :: u64

record validation_result =
  vr_orders :: "canonical_order list"
  vr_warnings :: "string list"

section \<open>Decimal strings\<close>

definition all_digits :: "string \<Rightarrow> bool" where
  "all_digits s = list_all (\<lambda>c. char_digit c \<noteq> None) s"

text \<open>\<open>str::parse::<u128>\<close> with the texts of its errors; the callers have checked that every
  character is a digit.\<close>

definition parse_u128 :: "string \<Rightarrow> string + u128" where
  "parse_u128 s =
     (if s = [] then Inl ''cannot parse integer from empty string''
      else case digits_value 0 s of
        None \<Rightarrow> Inl ''invalid digit found in string''
      | Some n \<Rightarrow> if n < 2 ^ 128 then Inr (word_of_nat n)
                  else Inl ''number too large to fit in target type'')"

text \<open>\<open>{:0<width$}\<close> pads on the right with zeros.\<close>

definition pad_right :: "nat \<Rightarrow> string \<Rightarrow> string" where
  "pad_right n s = s @ replicate (n - length s) CHR ''0''"

definition split_decimal :: "string \<Rightarrow> string \<times> string" where
  "split_decimal s = (case split_first (CHR ''.'') s of None \<Rightarrow> (s, []) | Some p \<Rightarrow> p)"

definition parse_frac :: "string \<Rightarrow> nat \<Rightarrow> string + u128" where
  "parse_frac frac_part td =
     (if frac_part = [] then Inr 0
      else if length frac_part \<le> td
      then map_err (\<lambda>e. ''fractional overflow: '' @ e) (parse_u128 (pad_right td frac_part))
      else map_err (\<lambda>e. ''fractional parse: '' @ e) (parse_u128 (take td frac_part)))"

definition fixed_point :: "u128 \<Rightarrow> u128 \<Rightarrow> u8 \<Rightarrow> string + u64" where
  "fixed_point int_val frac_val target_decimals =
     (let factor = 10 ^ unat target_decimals :: u128 in
      case (case checked_mul int_val factor of
              None \<Rightarrow> None | Some v \<Rightarrow> checked_add v frac_val) of
        None \<Rightarrow> Inl ''overflow in fixed-point conversion''
      | Some result \<Rightarrow>
          (if ucast (- 1 :: u64) < result then Inl ''result exceeds u64 range''
           else Inr (ucast result)))"

definition parse_decimal_to_fixed :: "string \<Rightarrow> u8 \<Rightarrow> string + u64" where
  "parse_decimal_to_fixed s0 target_decimals =
     (let s = trim s0 in
      if s = [] then Inl ''empty string''
      else
       (let (integer_part, frac_part) = split_decimal s in
        if \<not> all_digits integer_part \<or> integer_part = []
        then Inl (''invalid integer part: '' @ [CHR 0x27] @ integer_part @ [CHR 0x27])
        else if \<not> all_digits frac_part
        then Inl (''invalid fractional part: '' @ [CHR 0x27] @ frac_part @ [CHR 0x27])
        else
          res_bind (map_err (\<lambda>e. ''integer overflow: '' @ e) (parse_u128 integer_part)) (\<lambda>int_val.
          res_bind (parse_frac frac_part (unat target_decimals)) (\<lambda>frac_val.
            fixed_point int_val frac_val target_decimals))))"

section \<open>One order\<close>

definition base_token :: "string \<Rightarrow> string" where
  "base_token pair = (case split_first (CHR ''/'') pair of None \<Rightarrow> pair | Some (b, _) \<Rightarrow> b)"

text \<open>\<open>split('/').nth(1).unwrap_or("")\<close>: the text between the first and the second slash.\<close>

definition quote_token :: "string \<Rightarrow> string" where
  "quote_token pair =
     (case split_first (CHR ''/'') pair of None \<Rightarrow> []
      | Some (_, r) \<Rightarrow> (case split_first (CHR ''/'') r of None \<Rightarrow> r | Some (q, _) \<Rightarrow> q))"

definition decimals_of :: "(string \<rightharpoonup> u8) \<Rightarrow> string \<Rightarrow> u8" where
  "decimals_of tds token = (case tds token of None \<Rightarrow> 5 | Some d \<Rightarrow> d)"

definition convert_order ::
  "order_spec \<Rightarrow> (string \<rightharpoonup> u8) \<Rightarrow> u64 \<Rightarrow> u64 \<Rightarrow> bytes \<Rightarrow> strategy_error + canonical_order" where
  "convert_order spec tds nft_id batch_id nonce =
     res_bind
       (if sp_side spec = ''buy'' then Inr 1
        else if sp_side spec = ''sell'' then Inr 0
        else Inl (SInvalidSide (sp_side spec))) (\<lambda>side.
     res_bind (map_err (\<lambda>e. InvalidPrice (sp_price spec @ '': '' @ e))
                 (parse_decimal_to_fixed (sp_price spec) 8)) (\<lambda>price.
     res_bind (map_err (\<lambda>e. InvalidQuantity (sp_quantity spec @ '': '' @ e))
                 (parse_decimal_to_fixed (sp_quantity spec)
                    (decimals_of tds (base_token (sp_pair spec))))) (\<lambda>quantity.
       Inr \<lparr>co_symbol = char_bytes (sp_pair spec), co_side = side, co_price = price,
            co_quantity = quantity, co_nft_id = nft_id, co_batch_id = batch_id,
            co_nonce = nonce\<rparr>)))"

definition compute_outflow ::
  "canonical_order \<Rightarrow> string \<Rightarrow> (string \<rightharpoonup> u8) \<Rightarrow> (string \<times> u64) option" where
  "compute_outflow ord pair tds =
     (if co_side ord = 1 then
        (let divisor = price_divisor (decimals_of tds (base_token pair)) (decimals_of tds (quote_token pair))
         in map_option (Pair (quote_token pair)) (quote_amount (co_quantity ord) (co_price ord) divisor))
      else Some (base_token pair, co_quantity ord))"

section \<open>A batch of orders\<close>

record validate_state =
  vs_result :: validation_result
  vs_outflows :: "string \<rightharpoonup> u64"
  vs_nonces :: "bytes list"

definition warn :: "string \<Rightarrow> validate_state \<Rightarrow> validate_state" where
  "warn w st = st\<lparr>vs_result := (vs_result st)\<lparr>vr_warnings := vr_warnings (vs_result st) @ [w]\<rparr>\<rparr>"

definition accept_order :: "canonical_order \<Rightarrow> validate_state \<Rightarrow> validate_state" where
  "accept_order c st = st\<lparr>vs_result := (vs_result st)\<lparr>vr_orders := vr_orders (vs_result st) @ [c]\<rparr>\<rparr>"

text \<open>\<open>cumulative_outflows.entry(token).or_insert(0)\<close>\<close>

definition cumulative_outflow :: "validate_state \<Rightarrow> string \<Rightarrow> u64" where
  "cumulative_outflow st token = (case vs_outflows st token of None \<Rightarrow> 0 | Some c \<Rightarrow> c)"

definition projected_in :: "order_context \<Rightarrow> string \<Rightarrow> u64" where
  "projected_in ctx token = (case projected_balances ctx token of None \<Rightarrow> 0 | Some p \<Rightarrow> p)"

definition order_label :: "nat \<Rightarrow> string" where
  "order_label i = ''order['' @ nat_str i @ ''] ''"

definition validate_one :: "order_context \<Rightarrow> nat \<Rightarrow> order_spec \<Rightarrow> validate_state \<Rightarrow> validate_state option" where
  "validate_one ctx i spec st0 =
     (let nonce = (case vs_nonces st0 of [] \<Rightarrow> [] | n # _ \<Rightarrow> n);
          st = st0\<lparr>vs_nonces := tl (vs_nonces st0)\<rparr>
      in case convert_order spec (token_decimals ctx) (oc_nft_id ctx) (oc_batch_id ctx) nonce of
        Inl e \<Rightarrow> Some (warn (order_label i @ ''conversion failed: '' @ strategy_error_display e) st)
      | Inr canonical \<Rightarrow>
         (if sp_pair spec \<notin> active_pairs ctx
          then Some (warn (order_label i @ ''pair '' @ [CHR 0x27] @ sp_pair spec @ [CHR 0x27] @ '' not active'') st)
          else if co_price canonical = 0
          then Some (warn (order_label i @ ''price is zero'') st)
          else if (case min_quantities ctx (sp_pair spec) of
                     None \<Rightarrow> False | Some min_qty \<Rightarrow> co_quantity canonical < min_qty)
          then Some (warn (order_label i @ ''quantity '' @ u64_str (co_quantity canonical)
                 @ '' < min_quantity '' @ u64_str (the (min_quantities ctx (sp_pair spec)))) st)
          else case compute_outflow canonical (sp_pair spec) (token_decimals ctx) of
            None \<Rightarrow> None
          | Some (token, amount) \<Rightarrow>
             (let cumulative = cumulative_outflow st token;
                  st1 = st\<lparr>vs_outflows := (vs_outflows st)(token \<mapsto> cumulative)\<rparr>;
                  new_cumulative = cumulative + amount;
                  projected = projected_in ctx token
              in if projected < new_cumulative
                 then Some (warn (order_label i @ ''cumulative outflow '' @ u64_str new_cumulative
                        @ '' exceeds projected '' @ u64_str projected @ '' for '' @ token) st1)
                 else Some (accept_order canonical
                        (st1\<lparr>vs_outflows := (vs_outflows st1)(token \<mapsto> new_cumulative)\<rparr>)))))"

fun validate_loop :: "order_context \<Rightarrow> nat \<Rightarrow> order_spec list \<Rightarrow> validate_state \<Rightarrow> validate_state option" where
  "validate_loop ctx i [] st = Some st"
| "validate_loop ctx i (spec # specs) st =
     (case validate_one ctx i spec st of
        None \<Rightarrow> None | Some st' \<Rightarrow> validate_loop ctx (Suc i) specs st')"

definition validate_orders ::
  "order_spec list \<Rightarrow> order_context \<Rightarrow> bytes list \<Rightarrow> validation_result option" where
  "validate_orders specs ctx nonces =
     (let limit = unat (oc_commits_per_batch ctx);
          warnings = (if limit < length specs
             then [''truncated '' @ nat_str (length specs) @ '' orders to commits_per_batch='' @ nat_str limit]
             else []);
          effective_specs = (if limit < length specs then take limit specs else specs)
      in map_option vs_result (validate_loop ctx 0 effective_specs
           \<lparr>vs_result = \<lparr>vr_orders = [], vr_warnings = warnings\<rparr>, vs_outflows = Map.empty,
            vs_nonces = nonces\<rparr>))"

section \<open>Signing what passed\<close>

record validated_order =
  vo_commit_hash :: bytes
  vo_order_bytes :: bytes
  vo_signature :: bytes

definition canonical_to_order :: "canonical_order \<Rightarrow> order" where
  "canonical_to_order c = \<lparr>o_nft_id = co_nft_id c, o_symbol = co_symbol c, o_side = co_side c,
     o_price = co_price c, o_quantity = co_quantity c, o_batch_id = co_batch_id c,
     o_nonce = co_nonce c\<rparr>"

definition sign_canonical :: "crypto \<Rightarrow> bytes \<Rightarrow> canonical_order \<Rightarrow> validated_order option" where
  "sign_canonical C signing_key c =
     (let ord = canonical_to_order c in
      case (commit_hash C ord, encode_order C ord, sign_order C signing_key ord) of
        (Some hash, Inr order_bytes, Some signature) \<Rightarrow>
          Some \<lparr>vo_commit_hash = hash, vo_order_bytes = order_bytes, vo_signature = signature\<rparr>
      | _ \<Rightarrow> None)"

fun map_panics :: "('a \<Rightarrow> 'b option) \<Rightarrow> 'a list \<Rightarrow> 'b list option" where
  "map_panics f [] = Some []"
| "map_panics f (x # xs) =
     (case f x of None \<Rightarrow> None | Some y \<Rightarrow> map_option ((#) y) (map_panics f xs))"

text \<open>\<open>String::from_utf8_lossy\<close> on a symbol: configured symbols are UTF-8, on which it is the
  identity.\<close>

definition convert_strategy_orders ::
  "crypto \<Rightarrow> order_spec list \<Rightarrow> bytes \<Rightarrow> u64 \<Rightarrow> u64 \<Rightarrow> u64 \<Rightarrow> escrow_tracker \<Rightarrow> (string \<rightharpoonup> u8)
    \<Rightarrow> market_config list \<Rightarrow> bytes list \<Rightarrow> validated_order list option" where
  "convert_strategy_orders C order_specs signing_key nft_id batch_id commits tracker tds
       market_configs nonces =
     (let ctx = \<lparr>active_pairs = set (map (\<lambda>mc. bytes_str (mc_symbol mc)) market_configs),
                 min_quantities = hm_get (hm_collect
                   (map (\<lambda>mc. (bytes_str (mc_symbol mc), mc_min_quantity mc)) market_configs)),
                 token_decimals = tds,
                 projected_balances = (\<lambda>k. if k \<in> set (tracked_tokens tracker)
                                           then Some (projected k tracker) else None),
                 oc_commits_per_batch = ucast commits, oc_nft_id = nft_id, oc_batch_id = batch_id\<rparr>
      in case validate_orders order_specs ctx nonces of
           None \<Rightarrow> None
         | Some result \<Rightarrow> map_panics (sign_canonical C signing_key) (vr_orders result))"

section \<open>The value of a decimal string\<close>

fun digits_nat :: "string \<Rightarrow> nat" where
  "digits_nat [] = 0"
| "digits_nat (c # cs) = (case char_digit c of None \<Rightarrow> 0 | Some d \<Rightarrow> d) * 10 ^ length cs + digits_nat cs"

lemma digits_value_nat: "all_digits s \<Longrightarrow> digits_value acc s = Some (acc * 10 ^ length s + digits_nat s)"
  by (induction s arbitrary: acc) (auto simp: all_digits_def algebra_simps)

lemma digits_nat_append: "digits_nat (a @ b) = digits_nat a * 10 ^ length b + digits_nat b"
  by (induction a) (auto simp: algebra_simps power_add split: option.split)

lemma char_digit_bound: "char_digit c = Some d \<Longrightarrow> d < 10"
  by (auto simp: char_digit_def Let_def split: if_splits)

lemma digits_nat_bound: "digits_nat s < 10 ^ length s"
proof (induction s)
  case Nil
  then show ?case by simp
next
  case (Cons c s)
  have "(case char_digit c of None \<Rightarrow> 0 | Some d \<Rightarrow> d) \<le> 9"
    using char_digit_bound [of c] by (auto split: option.split)
  then have "(case char_digit c of None \<Rightarrow> 0 | Some d \<Rightarrow> d) * 10 ^ length s \<le> 9 * 10 ^ length s"
    by (rule mult_le_mono1)
  moreover have "(10::nat) ^ length (c # s) = 10 * 10 ^ length s" by simp
  ultimately show ?case using Cons unfolding digits_nat.simps by linarith
qed

lemma digits_nat_zeros [simp]: "digits_nat (replicate n CHR ''0'') = 0"
  by (induction n) (auto simp: char_digit_def)

lemma all_digits_simps [simp]:
  "all_digits (a @ b) = (all_digits a \<and> all_digits b)" "all_digits (replicate n CHR ''0'')"
  by (auto simp: all_digits_def list_all_iff char_digit_def)

lemma parse_u128_digits:
  "all_digits s \<Longrightarrow> s \<noteq> [] \<Longrightarrow> digits_nat s < 2 ^ 128 \<Longrightarrow> parse_u128 s = Inr (word_of_nat (digits_nat s))"
  by (simp add: parse_u128_def digits_value_nat)

text \<open>What the fractional digits contribute at \<open>td\<close> places, the surplus digits dropped.\<close>

definition frac_value :: "string \<Rightarrow> nat \<Rightarrow> nat" where
  "frac_value f td = digits_nat f * 10 ^ td div 10 ^ length f"

lemma frac_value_pad: "length f \<le> td \<Longrightarrow> frac_value f td = digits_nat (pad_right td f)"
proof -
  assume "length f \<le> td"
  then have "(10::nat) ^ td = 10 ^ (td - length f) * 10 ^ length f" by (simp flip: power_add)
  then show ?thesis
    by (simp add: frac_value_def pad_right_def digits_nat_append flip: mult.assoc)
qed

lemma frac_value_take:
  assumes "td < length f"
  shows "frac_value f td = digits_nat (take td f)"
proof -
  have f: "digits_nat f = digits_nat (take td f) * 10 ^ (length f - td) + digits_nat (drop td f)"
    using digits_nat_append [of "take td f" "drop td f"] by simp
  have "digits_nat (drop td f) < 10 ^ (length f - td)"
    using digits_nat_bound [of "drop td f"] by simp
  then have "digits_nat f div 10 ^ (length f - td) = digits_nat (take td f)" by (simp add: f)
  moreover have "(10::nat) ^ length f = 10 ^ (length f - td) * 10 ^ td"
    using assms by (simp flip: power_add)
  ultimately show ?thesis by (simp add: frac_value_def)
qed

lemma parse_frac_value:
  assumes "all_digits f" "0 < td" "td \<le> 38"
  shows "parse_frac f td = Inr (word_of_nat (frac_value f td)) \<and> frac_value f td < 10 ^ 38"
proof -
  have b: "(10::nat) ^ td \<le> 10 ^ 38" using assms(3) by (intro power_increasing) simp_all
  have big: "(10::nat) ^ 38 < 2 ^ 128" by simp
  show ?thesis
  proof (cases "f = [] \<or> length f \<le> td")
    case True
    then have l: "length f \<le> td" by auto
    have "digits_nat (pad_right td f) < 10 ^ td"
      using digits_nat_bound [of "pad_right td f"] l by (simp add: pad_right_def)
    then have lt: "digits_nat (pad_right td f) < 10 ^ 38" using b by linarith
    show ?thesis
    proof (cases "f = []")
      case True
      then show ?thesis by (simp add: parse_frac_def frac_value_def)
    next
      case False
      then have "parse_u128 (pad_right td f) = Inr (word_of_nat (digits_nat (pad_right td f)))"
        using lt big assms(1) by (intro parse_u128_digits) (auto simp: pad_right_def)
      then show ?thesis using False l lt by (simp add: parse_frac_def frac_value_pad)
    qed
  next
    case False
    then have l: "td < length f" by auto
    have "digits_nat (take td f) < 10 ^ td" using digits_nat_bound [of "take td f"] l by simp
    then have lt: "digits_nat (take td f) < 10 ^ 38" using b by linarith
    have "all_digits (take td f)" using assms(1) by (auto simp: all_digits_def list_all_iff dest: in_set_takeD)
    moreover have "take td f \<noteq> []" using assms(2) l by auto
    ultimately have "parse_u128 (take td f) = Inr (word_of_nat (digits_nat (take td f)))"
      using lt big by (intro parse_u128_digits) auto
    then show ?thesis using False l lt by (simp add: parse_frac_def frac_value_take)
  qed
qed

lemma decimal_value_eq:
  "digits_nat (i @ f) * 10 ^ td div 10 ^ length f = digits_nat i * 10 ^ td + frac_value f td"
proof -
  have "digits_nat (i @ f) * 10 ^ td = digits_nat i * 10 ^ td * 10 ^ length f + digits_nat f * 10 ^ td"
    by (simp add: digits_nat_append algebra_simps)
  then show ?thesis by (simp add: frac_value_def)
qed

lemma fixed_point_value:
  assumes "a < 2 ^ 128" "b < 10 ^ 38" "unat td \<le> 38"
  defines "v \<equiv> a * 10 ^ unat td + b"
  shows "if v < 2 ^ 64 then fixed_point (word_of_nat a) (word_of_nat b) td = Inr (word_of_nat v)
    else \<exists>e. fixed_point (word_of_nat a) (word_of_nat b) td = Inl e"
proof -
  have "(10::nat) ^ unat td \<le> 10 ^ 38" using assms(3) by (intro power_increasing) simp_all
  then have t: "(10::nat) ^ unat td < 2 ^ 128" by (rule le_less_trans) simp
  have "(10 :: u128) ^ unat td = word_of_nat (10 ^ unat td)" by simp
  then have f: "unat ((10 :: u128) ^ unat td) = 10 ^ unat td"
    using t by (simp only: unat_of_nat) simp
  have ab: "unat (word_of_nat a :: u128) = a" "unat (word_of_nat b :: u128) = b"
    using assms(1,2) by (simp_all add: unat_of_nat)
  have "unat (- 1 :: u64) = 2 ^ 64 - 1" by (simp add: unsigned_minus_1_eq_mask mask_eq_exp_minus_1)
  then have max: "unat (ucast (- 1 :: u64) :: u128) = 2 ^ 64 - 1"
    by (simp only: unsigned_ucast_eq) (simp add: take_bit_nat_eq_self)
  show ?thesis
  proof (cases "v < 2 ^ 128")
    case False
    then have "\<exists>e. fixed_point (word_of_nat a) (word_of_nat b) td = Inl e"
      by (auto simp: fixed_point_def Let_def checked_mul_def checked_add_def f ab v_def unat_word_ariths
          split: option.split)
    moreover have "\<not> v < 2 ^ 64" using False by simp
    ultimately show ?thesis by simp
  next
    case True
    then have "a * 10 ^ unat td < 2 ^ 128" by (simp add: v_def)
    then have "(case checked_mul (word_of_nat a) ((10 :: u128) ^ unat td) of
        None \<Rightarrow> None | Some w \<Rightarrow> checked_add w (word_of_nat b)) = Some (word_of_nat v)"
      using True by (simp add: checked_mul_def checked_add_def f ab unat_word_ariths v_def)
    moreover have "unat (word_of_nat v :: u128) = v" using True by (simp add: unat_of_nat)
    moreover have "ucast (word_of_nat v :: u128) = (word_of_nat v :: u64)"
      by (simp add: word_unat_eq_iff unsigned_ucast_eq unsigned_of_nat take_bit_take_bit)
    ultimately show ?thesis
      by (simp add: fixed_point_def Let_def word_less_nat_alt max not_le)
  qed
qed

lemma digits_no_white: "all_digits s \<Longrightarrow> c \<in> set s \<Longrightarrow> \<not> is_white c \<and> c \<noteq> CHR ''.''"
proof -
  assume "all_digits s" "c \<in> set s"
  then have "char_digit c \<noteq> None" by (auto simp: all_digits_def list_all_iff)
  then show ?thesis by (auto simp: is_white_def char_digit_def Let_def split: if_splits)
qed

lemma trim_no_white: "(\<And>c. c \<in> set s \<Longrightarrow> \<not> is_white c) \<Longrightarrow> trim s = s"
proof -
  assume a: "\<And>c. c \<in> set s \<Longrightarrow> \<not> is_white c"
  have "dropWhile is_white t = t" if "set t = set s" for t
    using a that by (cases t) auto
  then show ?thesis by (simp add: trim_def)
qed

section \<open>Properties\<close>

text \<open>
  Decimal parsing is exact fixed-point truncation: for one to 38 places, a text of digits, a dot
  and digits parses to the value of its digits scaled to that many places and rounded down, when that
  fits 64 bits, and is refused otherwise; no precision is lost to floating point.
\<close>

theorem parse_decimal_exact:
  assumes "all_digits i" "i \<noteq> []" "all_digits f" "0 < unat td" "unat td \<le> 38" "digits_nat i < 2 ^ 128"
  shows "if digits_nat (i @ f) * 10 ^ unat td div 10 ^ length f < 2 ^ 64
    then parse_decimal_to_fixed (i @ ''.'' @ f) td =
      Inr (word_of_nat (digits_nat (i @ f) * 10 ^ unat td div 10 ^ length f))
    else \<exists>e. parse_decimal_to_fixed (i @ ''.'' @ f) td = Inl e"
proof -
  have "\<not> is_white CHR ''.''" by (simp add: is_white_def)
  then have t: "trim (i @ CHR ''.'' # f) = i @ CHR ''.'' # f"
    using digits_no_white assms(1,3) by (intro trim_no_white) auto
  have s: "split_decimal (i @ CHR ''.'' # f) = (i, f)"
  proof -
    have "CHR ''.'' \<notin> set i" using digits_no_white [OF assms(1)] by blast
    then show ?thesis by (simp add: split_decimal_def split_first_append)
  qed
  have p: "parse_decimal_to_fixed (i @ ''.'' @ f) td =
      fixed_point (word_of_nat (digits_nat i)) (word_of_nat (frac_value f (unat td))) td"
    using assms parse_frac_value [OF assms(3,4,5)]
    by (simp add: parse_decimal_to_fixed_def t s parse_u128_digits)
  show ?thesis
    unfolding p decimal_value_eq
    using parse_frac_value [OF assms(3,4,5)] assms(5,6) by (intro fixed_point_value) auto
qed

lemma parse_decimal_exact_witness:
  "parse_decimal_to_fixed ''0.0499'' 8 = Inr 4990000
   \<and> parse_decimal_to_fixed ''123.456789'' 5 = Inr 12345678"
  using parse_decimal_exact [of "''0''" "''0499''" 8] parse_decimal_exact [of "''123''" "''456789''" 5]
  by (simp add: all_digits_def char_digit_def)

text \<open>The amount of a token that an accepted order may take out, and the checks it passed.\<close>

definition outflow_in :: "(string \<rightharpoonup> u8) \<Rightarrow> string \<Rightarrow> canonical_order \<Rightarrow> u64" where
  "outflow_in tds token c =
     (case compute_outflow c (bytes_str (co_symbol c)) tds of
        Some (k, a) \<Rightarrow> if k = token then a else 0 | None \<Rightarrow> 0)"

definition order_ok :: "order_context \<Rightarrow> canonical_order \<Rightarrow> bool" where
  "order_ok ctx c \<longleftrightarrow> bytes_str (co_symbol c) \<in> active_pairs ctx \<and> co_price c \<noteq> 0 \<and>
     co_side c \<in> {0, 1} \<and> co_nft_id c = oc_nft_id ctx \<and> co_batch_id c = oc_batch_id ctx \<and>
     (\<forall>q. min_quantities ctx (bytes_str (co_symbol c)) = Some q \<longrightarrow> q \<le> co_quantity c)"

definition vs_inv :: "order_context \<Rightarrow> validate_state \<Rightarrow> bool" where
  "vs_inv ctx st \<longleftrightarrow>
     (\<forall>token. cumulative_outflow st token =
         sum_list (map (outflow_in (token_decimals ctx) token) (vr_orders (vs_result st)))) \<and>
     (\<forall>token. sum_list (map (outflow_in (token_decimals ctx) token) (vr_orders (vs_result st)))
         \<le> projected_in ctx token) \<and>
     list_all (order_ok ctx) (vr_orders (vs_result st))"

lemma cumulative_simps [simp]:
  "cumulative_outflow (warn w st) = cumulative_outflow st"
  "cumulative_outflow (accept_order c st) = cumulative_outflow st"
  "cumulative_outflow (st\<lparr>vs_nonces := ns\<rparr>) = cumulative_outflow st"
  "cumulative_outflow (st\<lparr>vs_outflows := (vs_outflows st')(k \<mapsto> a)\<rparr>) j =
     (if j = k then a else cumulative_outflow st' j)"
  by (simp_all add: cumulative_outflow_def warn_def accept_order_def fun_eq_iff)

lemma vs_inv_warn [simp]: "vs_inv ctx (warn w st) = vs_inv ctx st"
  by (simp add: vs_inv_def) (simp add: warn_def)

lemma vs_inv_nonces [simp]: "vs_inv ctx (st\<lparr>vs_nonces := ns\<rparr>) = vs_inv ctx st"
  by (simp add: vs_inv_def)

lemma convert_order_Inr:
  "convert_order spec tds nft b nonce = Inr c \<Longrightarrow>
     co_symbol c = char_bytes (sp_pair spec) \<and> co_side c \<in> {0, 1} \<and> co_nft_id c = nft \<and> co_batch_id c = b"
  by (auto simp: convert_order_def res_bind_Inr split: if_splits)

lemma vs_inv_accept:
  assumes "vs_inv ctx st" "order_ok ctx c"
    and "compute_outflow c (bytes_str (co_symbol c)) (token_decimals ctx) = Some (token, amount)"
    and "cum = cumulative_outflow st token"
    and "cum + amount \<le> projected_in ctx token"
  shows "vs_inv ctx (accept_order c (st\<lparr>vs_outflows := (vs_outflows st)(token \<mapsto> cum + amount)\<rparr>))"
  using assms by (simp add: vs_inv_def) (simp add: accept_order_def outflow_in_def)

lemma vs_inv_touch:
  assumes "vs_inv ctx st" "cum = cumulative_outflow st token"
  shows "vs_inv ctx (st\<lparr>vs_outflows := (vs_outflows st)(token \<mapsto> cum)\<rparr>)"
  using assms by (auto simp: vs_inv_def)

lemma vs_inv_one:
  assumes "vs_inv ctx st" "validate_one ctx i spec st = Some st'"
  shows "vs_inv ctx st' \<and> length (vr_orders (vs_result st')) \<le> Suc (length (vr_orders (vs_result st)))"
proof -
  define nonce where "nonce = (case vs_nonces st of [] \<Rightarrow> [] | n # _ \<Rightarrow> n)"
  define st0 where "st0 = st\<lparr>vs_nonces := tl (vs_nonces st)\<rparr>"
  have i0: "vs_inv ctx st0" using assms(1) by (simp add: st0_def)
  have l0: "vr_orders (vs_result st0) = vr_orders (vs_result st)" by (simp add: st0_def)
  note one = assms(2) [unfolded validate_one_def Let_def, folded nonce_def st0_def]
  consider (warned) "\<exists>w. st' = warn w st0"
    | (judged) c where "convert_order spec (token_decimals ctx) (oc_nft_id ctx) (oc_batch_id ctx) nonce = Inr c"
      "order_ok ctx c"
      "\<exists>token amount w. compute_outflow c (sp_pair spec) (token_decimals ctx) = Some (token, amount) \<and>
        (let cum = cumulative_outflow st0 token;
             st1 = st0\<lparr>vs_outflows := (vs_outflows st0)(token \<mapsto> cum)\<rparr>
         in if projected_in ctx token < cum + amount then st' = warn w st1
            else st' = accept_order c (st1\<lparr>vs_outflows := (vs_outflows st1)(token \<mapsto> cum + amount)\<rparr>))"
  proof (cases "convert_order spec (token_decimals ctx) (oc_nft_id ctx) (oc_batch_id ctx) nonce")
    case (Inl e)
    then show thesis using one by (intro warned) (auto dest: sym)
  next
    case (Inr c)
    show thesis
    proof (cases "order_ok ctx c")
      case False
      then show thesis using one Inr convert_order_Inr [OF Inr]
        by (intro warned) (auto simp: order_ok_def not_le split: if_splits option.splits)
    next
      case True
      then have "sp_pair spec \<in> active_pairs ctx" "co_price c \<noteq> 0"
        "\<not> (case min_quantities ctx (sp_pair spec) of None \<Rightarrow> False | Some q \<Rightarrow> co_quantity c < q)"
        using convert_order_Inr [OF Inr] by (auto simp: order_ok_def not_less split: option.split)
      note guards = this
      obtain token amount where out: "compute_outflow c (sp_pair spec) (token_decimals ctx) = Some (token, amount)"
        using one Inr guards by (auto split: option.splits)
      show thesis
      proof (cases "projected_in ctx token < cumulative_outflow st0 token + amount")
        case less: True
        then have "\<exists>w. st' = warn w (st0\<lparr>vs_outflows := (vs_outflows st0)(token \<mapsto> cumulative_outflow st0 token)\<rparr>)"
          using one Inr guards out by (auto dest: sym)
        then show thesis using less by (intro judged [OF Inr True]) (auto simp: Let_def out)
      next
        case ge: False
        then show thesis using one Inr guards
          by (intro judged [OF Inr True]) (auto simp: Let_def out dest: sym)
      qed
    qed
  qed
  then show ?thesis
  proof cases
    case warned
    then obtain w where "st' = warn w st0" ..
    then show ?thesis using i0 l0 by simp (simp add: warn_def)
  next
    case (judged c)
    then obtain token amount w where out: "compute_outflow c (sp_pair spec) (token_decimals ctx) = Some (token, amount)"
      and st': "(let cum = cumulative_outflow st0 token;
             st1 = st0\<lparr>vs_outflows := (vs_outflows st0)(token \<mapsto> cum)\<rparr>
         in if projected_in ctx token < cum + amount then st' = warn w st1
            else st' = accept_order c (st1\<lparr>vs_outflows := (vs_outflows st1)(token \<mapsto> cum + amount)\<rparr>))"
      by blast
    define cum where "cum = cumulative_outflow st0 token"
    have pair: "bytes_str (co_symbol c) = sp_pair spec"
      using convert_order_Inr [OF judged(1)] by simp
    have touch: "vs_inv ctx (st0\<lparr>vs_outflows := (vs_outflows st0)(token \<mapsto> cum)\<rparr>)"
      by (rule vs_inv_touch [OF i0 cum_def])
    show ?thesis
    proof (cases "projected_in ctx token < cum + amount")
      case True
      then have "st' = warn w (st0\<lparr>vs_outflows := (vs_outflows st0)(token \<mapsto> cum)\<rparr>)"
        using st' by (simp add: Let_def flip: cum_def)
      then show ?thesis using touch l0 by simp (simp add: warn_def)
    next
      case False
      then have "vs_inv ctx (accept_order c (st0\<lparr>vs_outflows := (vs_outflows st0)(token \<mapsto> cum + amount)\<rparr>))"
        by (intro vs_inv_accept [OF i0 judged(2)]) (simp_all add: out pair cum_def not_less)
      moreover have "st' = accept_order c (st0\<lparr>vs_outflows := (vs_outflows st0)(token \<mapsto> cum + amount)\<rparr>)"
        using st' False by (simp add: Let_def flip: cum_def)
      ultimately show ?thesis using l0 by (simp add: accept_order_def)
    qed
  qed
qed

lemma vs_inv_loop:
  "vs_inv ctx st \<Longrightarrow> validate_loop ctx i specs st = Some st' \<Longrightarrow>
     vs_inv ctx st' \<and> length (vr_orders (vs_result st')) \<le> length specs + length (vr_orders (vs_result st))"
proof (induction specs arbitrary: i st)
  case Nil
  then show ?case by simp
next
  case (Cons spec specs)
  from Cons.prems(2) obtain st1 where one: "validate_one ctx i spec st = Some st1"
    and rest: "validate_loop ctx (Suc i) specs st1 = Some st'" by (auto split: option.splits)
  note i1 = vs_inv_one [OF Cons.prems(1) one]
  from Cons.IH [OF conjunct1 [OF i1] rest] conjunct2 [OF i1] show ?case by simp
qed

lemma vs_inv_start: "vs_inv ctx \<lparr>vs_result = \<lparr>vr_orders = [], vr_warnings = w\<rparr>, vs_outflows = Map.empty,
    vs_nonces = ns\<rparr>"
  by (simp add: vs_inv_def cumulative_outflow_def)

lemma validate_orders_inv:
  assumes "validate_orders specs ctx nonces = Some res"
  shows "sum_list (map (outflow_in (token_decimals ctx) token) (vr_orders res)) \<le> projected_in ctx token"
    and "length (vr_orders res) \<le> unat (oc_commits_per_batch ctx)"
    and "\<forall>c \<in> set (vr_orders res). order_ok ctx c"
proof -
  let ?limit = "unat (oc_commits_per_batch ctx)"
  let ?specs = "if ?limit < length specs then take ?limit specs else specs"
  obtain w st' where loop: "validate_loop ctx 0 ?specs
      \<lparr>vs_result = \<lparr>vr_orders = [], vr_warnings = w\<rparr>, vs_outflows = Map.empty, vs_nonces = nonces\<rparr> = Some st'"
    and res: "res = vs_result st'"
    using assms by (auto simp: validate_orders_def Let_def)
  note i = vs_inv_loop [OF vs_inv_start loop]
  show "sum_list (map (outflow_in (token_decimals ctx) token) (vr_orders res)) \<le> projected_in ctx token"
    using conjunct1 [OF i] unfolding vs_inv_def res by metis
  show "length (vr_orders res) \<le> ?limit" using conjunct2 [OF i] by (auto simp: res split: if_splits)
  show "\<forall>c \<in> set (vr_orders res). order_ok ctx c"
    using conjunct1 [OF i] by (simp add: vs_inv_def res list_all_iff)
qed

text \<open>
  C40. Validated orders are affordable: of the orders that pass, there are at most
  \<open>commits_per_batch\<close>, each is for an active pair with a positive price and at least the minimum
  quantity and carries this node's NFT and batch, and for every token whose worst-case outflows sum to
  less than 2^64 that sum stays within the projected balance.
\<close>

theorem validated_orders_affordable:
  assumes "validate_orders specs ctx nonces = Some res"
    and "sum_list (map (\<lambda>c. unat (outflow_in (token_decimals ctx) token c)) (vr_orders res)) < 2 ^ 64"
  shows "sum_list (map (\<lambda>c. unat (outflow_in (token_decimals ctx) token c)) (vr_orders res))
      \<le> unat (projected_in ctx token)
    \<and> length (vr_orders res) \<le> unat (oc_commits_per_batch ctx)
    \<and> (\<forall>c \<in> set (vr_orders res). order_ok ctx c)"
proof -
  note inv = validate_orders_inv [OF assms(1)]
  have "unat (sum_list (map (outflow_in (token_decimals ctx) token) (vr_orders res))) =
      sum_list (map unat (map (outflow_in (token_decimals ctx) token) (vr_orders res)))"
    by (rule unat_sum_list) (use assms(2) in \<open>simp add: comp_def\<close>)
  then show ?thesis using inv(1) [of token] inv(2,3) by (simp add: word_le_nat_alt comp_def)
qed

definition example_order_context :: order_context where
  "example_order_context = \<lparr>active_pairs = {''EMM/KAY''}, min_quantities = [''EMM/KAY'' \<mapsto> 1],
     token_decimals = [''EMM'' \<mapsto> 0, ''KAY'' \<mapsto> 0], projected_balances = [''EMM'' \<mapsto> 5],
     oc_commits_per_batch = 3, oc_nft_id = 7, oc_batch_id = 100\<rparr>"

definition sell_spec :: "string \<Rightarrow> order_spec" where
  "sell_spec quantity = \<lparr>sp_pair = ''EMM/KAY'', sp_side = ''sell'', sp_price = ''1'', sp_quantity = quantity\<rparr>"

lemma parse_integer:
  assumes "all_digits s" "s \<noteq> []" "digits_nat s * 10 ^ unat td < 2 ^ 64" "unat td \<le> 38"
  shows "parse_decimal_to_fixed s td = Inr (word_of_nat (digits_nat s * 10 ^ unat td))"
proof -
  have t: "trim s = s" using digits_no_white [OF assms(1)] by (intro trim_no_white) auto
  have "CHR ''.'' \<notin> set s" using digits_no_white [OF assms(1)] by blast
  then have sp: "split_decimal s = (s, [])" by (simp add: split_decimal_def split_first_absent [THEN iffD2])
  have "digits_nat s \<le> digits_nat s * 10 ^ unat td" by simp
  then have "digits_nat s < 2 ^ 64" using assms(3) by (rule le_less_trans)
  then have lt: "digits_nat s < 2 ^ 128" by simp
  have "parse_decimal_to_fixed s td = fixed_point (word_of_nat (digits_nat s)) (word_of_nat 0) td"
    using assms lt by (simp add: parse_decimal_to_fixed_def t sp parse_u128_digits parse_frac_def all_digits_def)
  then show ?thesis using fixed_point_value [OF lt, of 0 td] assms(3,4) by simp
qed

lemma convert_sell:
  assumes "all_digits q" "q \<noteq> []" "digits_nat q < 2 ^ 64" "tds ''EMM'' = Some 0"
  shows "convert_order (sell_spec q) tds nft b nonce = Inr \<lparr>co_symbol = char_bytes ''EMM/KAY'', co_side = 0,
     co_price = 100000000, co_quantity = word_of_nat (digits_nat q), co_nft_id = nft, co_batch_id = b,
     co_nonce = nonce\<rparr>"
proof -
  have "parse_decimal_to_fixed ''1'' 8 = Inr 100000000"
    using parse_integer [of "''1''" 8] by (simp add: all_digits_def char_digit_def)
  moreover have "parse_decimal_to_fixed q 0 = Inr (word_of_nat (digits_nat q))"
    using parse_integer [of q 0] assms(1-3) by simp
  ultimately show ?thesis
    using assms(4) by (simp add: convert_order_def sell_spec_def base_token_def decimals_of_def)
qed

lemma validate_sell:
  assumes "all_digits q" "q \<noteq> []" "digits_nat q < 2 ^ 64" "token_decimals ctx ''EMM'' = Some 0"
    and "''EMM/KAY'' \<in> active_pairs ctx"
    and "\<And>m. min_quantities ctx ''EMM/KAY'' = Some m \<Longrightarrow> m \<le> word_of_nat (digits_nat q)"
    and "cumulative_outflow st ''EMM'' + word_of_nat (digits_nat q) \<le> projected_in ctx ''EMM''"
  shows "\<exists>st'. validate_one ctx i (sell_spec q) st = Some st' \<and>
    length (vr_orders (vs_result st')) = Suc (length (vr_orders (vs_result st))) \<and>
    cumulative_outflow st' ''EMM'' = cumulative_outflow st ''EMM'' + word_of_nat (digits_nat q)"
proof -
  have p: "sp_pair (sell_spec q) = ''EMM/KAY''" by (simp add: sell_spec_def)
  note step = validate_one_def Let_def convert_sell [of q "token_decimals ctx", OF assms(1-4)] p
    compute_outflow_def base_token_def
  show ?thesis
  proof (cases "min_quantities ctx ''EMM/KAY''")
    case None
    then show ?thesis using assms(5) leD [OF assms(7)] by (simp add: step) (simp add: accept_order_def)
  next
    case (Some m)
    then show ?thesis using assms(5) leD [OF assms(7)] leD [OF assms(6) [OF Some]]
      by (simp add: step) (simp add: accept_order_def)
  qed
qed

lemma validated_orders_affordable_witness:
  "\<exists>res. validate_orders [sell_spec ''3''] example_order_context [[]] = Some res \<and> length (vr_orders res) = 1
     \<and> sum_list (map (\<lambda>c. unat (outflow_in (token_decimals example_order_context) ''EMM'' c)) (vr_orders res)) \<le> 5"
proof -
  obtain st' where st': "validate_one example_order_context 0 (sell_spec ''3'')
      \<lparr>vs_result = \<lparr>vr_orders = [], vr_warnings = []\<rparr>, vs_outflows = Map.empty, vs_nonces = [[]]\<rparr> = Some st'"
    "length (vr_orders (vs_result st')) = 1"
    using validate_sell [of "''3''" example_order_context
        "\<lparr>vs_result = \<lparr>vr_orders = [], vr_warnings = []\<rparr>, vs_outflows = Map.empty, vs_nonces = [[]]\<rparr>" 0]
    by (auto simp: example_order_context_def all_digits_def char_digit_def cumulative_outflow_def projected_in_def)
  then have v: "validate_orders [sell_spec ''3''] example_order_context [[]] = Some (vs_result st')"
    by (simp add: validate_orders_def Let_def) (simp add: example_order_context_def)
  obtain c where c: "vr_orders (vs_result st') = [c]"
    using st'(2) by (cases "vr_orders (vs_result st')") auto
  have "unat (outflow_in (token_decimals example_order_context) ''EMM'' c) < 2 ^ 64"
    using unat_bound [of "outflow_in (token_decimals example_order_context) ''EMM'' c"] by simp
  then have "sum_list (map (\<lambda>c. unat (outflow_in (token_decimals example_order_context) ''EMM'' c))
      (vr_orders (vs_result st'))) \<le> 5"
    using validated_orders_affordable [OF v, of "''EMM''"]
    by (simp add: c) (simp add: projected_in_def example_order_context_def)
  then show ?thesis using v st'(2) by blast
qed

text \<open>
  The cumulative check wraps: for a token without decimals and any projected balance of at least
  one unit, a sell order of one unit followed by a sell order of 2^64 - 1 units passes validation, both
  of them, because the two outflows add up to zero.
\<close>

theorem validation_overcommits:
  assumes "token_decimals ctx ''EMM'' = Some 0" "''EMM/KAY'' \<in> active_pairs ctx"
    and "min_quantities ctx ''EMM/KAY'' = Some 1" "2 \<le> unat (oc_commits_per_batch ctx)"
    and "1 \<le> projected_in ctx ''EMM''"
  shows "\<exists>res. validate_orders [sell_spec ''1'', sell_spec ''18446744073709551615''] ctx nonces = Some res
    \<and> length (vr_orders res) = 2"
proof -
  define st where "st = \<lparr>vs_result = \<lparr>vr_orders = [], vr_warnings = []\<rparr>, vs_outflows = Map.empty,
    vs_nonces = nonces\<rparr>"
  have d: "digits_nat ''1'' = 1" "digits_nat ''18446744073709551615'' = 2 ^ 64 - 1"
    "all_digits ''1''" "all_digits ''18446744073709551615''"
    by (simp_all add: all_digits_def char_digit_def)
  obtain st1 where one: "validate_one ctx 0 (sell_spec ''1'') st = Some st1"
    "length (vr_orders (vs_result st1)) = 1" "cumulative_outflow st1 ''EMM'' = 1"
    using validate_sell [of "''1''" ctx st 0] assms d
    by (auto simp: st_def cumulative_outflow_def)
  have "cumulative_outflow st1 ''EMM'' + word_of_nat (2 ^ 64 - 1) = 0" by (simp add: one(3))
  then obtain st2 where two: "validate_one ctx 1 (sell_spec ''18446744073709551615'') st1 = Some st2"
    "length (vr_orders (vs_result st2)) = 2"
    using validate_sell [of "''18446744073709551615''" ctx st1 1] assms d(2,4) one(2)
    by (auto simp del: digits_nat.simps)
  have "validate_orders [sell_spec ''1'', sell_spec ''18446744073709551615''] ctx nonces = Some (vs_result st2)"
    using assms(4) one(1) two(1) by (simp add: validate_orders_def Let_def st_def)
  then show ?thesis using two(2) by blast
qed

lemma validation_overcommits_witness:
  "\<exists>res. validate_orders [sell_spec ''1'', sell_spec ''18446744073709551615''] example_order_context [] = Some res
    \<and> length (vr_orders res) = 2"
  by (rule validation_overcommits) (simp_all add: example_order_context_def projected_in_def)

end
