(* ===== verification/ActiveCache.thy ===== *)
theory ActiveCache
  imports Text
begin

text \<open>
  \<open>crates/escrow_tracker/src/is_active_cache.rs\<close>: the cache of \<open>escrow::is_active\<close> answers with a
  time to live and a bounded size. \<open>Instant::now()\<close> is an argument, in nanoseconds; \<open>elapsed\<close> is
  the saturating difference. The eviction scans the hash map in its iteration order, which is the
  order of the association list, and takes the first of the oldest entries.
\<close>

record cache_entry =
  ce_is_active :: bool
  ce_fetched_at :: nat

record is_active_cache =
  ic_entries :: "(u64, cache_entry) hmap"
  ic_ttl :: nat
  ic_max_entries :: nat

definition cache_new :: "nat \<Rightarrow> nat \<Rightarrow> is_active_cache" where
  "cache_new ttl max_entries = \<lparr>ic_entries = [], ic_ttl = ttl, ic_max_entries = max max_entries 1\<rparr>"

definition fresh_entry :: "nat \<Rightarrow> nat \<Rightarrow> cache_entry \<Rightarrow> bool" where
  "fresh_entry now ttl e = (now - ce_fetched_at e < ttl)"

definition cache_get :: "nat \<Rightarrow> u64 \<Rightarrow> is_active_cache \<Rightarrow> bool option" where
  "cache_get now nft_id c =
     (case hm_get (ic_entries c) nft_id of
        None \<Rightarrow> None
      | Some e \<Rightarrow> if fresh_entry now (ic_ttl c) e then Some (ce_is_active e) else None)"

text \<open>\<open>iter().min_by_key(..)\<close>: the first of the minimal elements.\<close>

fun min_by_key :: "('a \<Rightarrow> nat) \<Rightarrow> 'a list \<Rightarrow> 'a option" where
  "min_by_key f [] = None"
| "min_by_key f (x # xs) =
     (case min_by_key f xs of None \<Rightarrow> Some x | Some y \<Rightarrow> if f x \<le> f y then Some x else Some y)"

definition cache_insert :: "nat \<Rightarrow> u64 \<Rightarrow> bool \<Rightarrow> is_active_cache \<Rightarrow> is_active_cache" where
  "cache_insert now nft_id is_active c =
     (let entries =
        (if ic_max_entries c \<le> length (ic_entries c) \<and> \<not> hm_contains (ic_entries c) nft_id
         then (case min_by_key (\<lambda>(_, e). ce_fetched_at e) (ic_entries c) of
                 Some (oldest, _) \<Rightarrow> hm_remove oldest (ic_entries c)
               | None \<Rightarrow> ic_entries c)
         else ic_entries c)
      in c\<lparr>ic_entries := hm_insert nft_id \<lparr>ce_is_active = is_active, ce_fetched_at = now\<rparr> entries\<rparr>)"

definition cache_invalidate :: "u64 \<Rightarrow> is_active_cache \<Rightarrow> is_active_cache" where
  "cache_invalidate nft_id c = c\<lparr>ic_entries := hm_remove nft_id (ic_entries c)\<rparr>"

definition cache_len :: "is_active_cache \<Rightarrow> nat" where
  "cache_len c = length (ic_entries c)"

definition cache_is_empty :: "is_active_cache \<Rightarrow> bool" where
  "cache_is_empty c = (ic_entries c = [])"

definition live_counts :: "nat \<Rightarrow> is_active_cache \<Rightarrow> nat \<times> nat" where
  "live_counts now c =
     foldl (\<lambda>(a, i) e. if fresh_entry now (ic_ttl c) e
                       then (if ce_is_active e then (Suc a, i) else (a, Suc i)) else (a, i))
       (0, 0) (hm_values (ic_entries c))"

section \<open>Reachable caches\<close>

inductive cache_reach :: "is_active_cache \<Rightarrow> bool" where
  cr_new: "cache_reach (cache_new ttl max_entries)"
| cr_insert: "cache_reach c \<Longrightarrow> cache_reach (cache_insert now nft_id active c)"
| cr_invalidate: "cache_reach c \<Longrightarrow> cache_reach (cache_invalidate nft_id c)"

definition cache_inv :: "is_active_cache \<Rightarrow> bool" where
  "cache_inv c \<longleftrightarrow> hm_wf (ic_entries c) \<and> length (ic_entries c) \<le> ic_max_entries c \<and>
     1 \<le> ic_max_entries c"

lemma min_by_key_Some: "xs \<noteq> [] \<Longrightarrow> \<exists>x. min_by_key f xs = Some x"
  by (cases xs) (auto split: option.split)

lemma min_by_key_min: "min_by_key f xs = Some x \<Longrightarrow> x \<in> set xs \<and> (\<forall>y \<in> set xs. f x \<le> f y)"
proof (induction xs arbitrary: x)
  case Nil
  then show ?case by simp
next
  case (Cons y ys)
  show ?case
  proof (cases "min_by_key f ys")
    case None
    then have "ys = []" using min_by_key_Some [of ys f] by auto
    then show ?thesis using Cons.prems by simp
  next
    case (Some z)
    with Cons show ?thesis by (fastforce split: if_splits)
  qed
qed

lemma length_hm_remove_le: "length (hm_remove k m) \<le> length m"
  by (simp add: hm_remove_def length_delete_le)

lemma length_insert_absent: "hm_get m k = None \<Longrightarrow> length (hm_insert k v m) = Suc (length m)"
  by (simp add: hm_insert_absent)

lemma length_insert_present: "hm_get m k \<noteq> None \<Longrightarrow> length (hm_insert k v m) = length m"
  by (induction m) (auto simp: hm_insert_def split: if_splits)

text \<open>What is evicted, if anything.\<close>

lemma cache_insert_cases:
  assumes "cache_inv c"
  obtains (kept) "ic_entries (cache_insert now n a c) =
      hm_insert n \<lparr>ce_is_active = a, ce_fetched_at = now\<rparr> (ic_entries c)"
    "hm_get (ic_entries c) n \<noteq> None \<or> length (ic_entries c) < ic_max_entries c"
  | (evicted) k e where "ic_entries (cache_insert now n a c) =
      hm_insert n \<lparr>ce_is_active = a, ce_fetched_at = now\<rparr> (hm_remove k (ic_entries c))"
    "hm_get (ic_entries c) k = Some e" "hm_get (ic_entries c) n = None"
    "length (ic_entries c) = ic_max_entries c"
    "\<And>k' e'. hm_get (ic_entries c) k' = Some e' \<Longrightarrow> ce_fetched_at e \<le> ce_fetched_at e'"
proof (cases "ic_max_entries c \<le> length (ic_entries c) \<and> \<not> hm_contains (ic_entries c) n")
  case False
  then show thesis
    by (intro kept) (auto simp: cache_insert_def Let_def hm_contains_def simp del: hm_contains_iff)
next
  case True
  then have "ic_entries c \<noteq> []" using assms by (auto simp: cache_inv_def)
  then obtain k e where m: "min_by_key (\<lambda>(_, e). ce_fetched_at e) (ic_entries c) = Some (k, e)"
    using min_by_key_Some [of "ic_entries c" "\<lambda>(_, e). ce_fetched_at e"] by auto
  note mm = min_by_key_min [OF m]
  have wf: "hm_wf (ic_entries c)" using assms by (simp add: cache_inv_def)
  show thesis
  proof (rule evicted)
    show "ic_entries (cache_insert now n a c) =
      hm_insert n \<lparr>ce_is_active = a, ce_fetched_at = now\<rparr> (hm_remove k (ic_entries c))"
      using True m by (simp add: cache_insert_def Let_def del: hm_contains_iff)
    show "hm_get (ic_entries c) k = Some e" using mm wf by (simp add: hm_wf_get)
    show "hm_get (ic_entries c) n = None"
      using True by (simp add: hm_contains_def del: hm_contains_iff)
    show "length (ic_entries c) = ic_max_entries c" using True assms by (simp add: cache_inv_def)
    show "ce_fetched_at e \<le> ce_fetched_at e'" if "hm_get (ic_entries c) k' = Some e'" for k' e'
      using mm map_of_SomeD [OF that] by auto
  qed
qed

lemma cache_inv_insert: "cache_inv c \<Longrightarrow> cache_inv (cache_insert now n a c)"
proof -
  assume i: "cache_inv c"
  have m: "ic_max_entries (cache_insert now n a c) = ic_max_entries c"
    by (simp add: cache_insert_def Let_def)
  from i show "cache_inv (cache_insert now n a c)"
  proof (cases rule: cache_insert_cases [of c now n a])
    case kept
    then show ?thesis using i m
      by (cases "hm_get (ic_entries c) n")
        (auto simp: cache_inv_def length_insert_absent length_insert_present)
  next
    case (evicted k e)
    then have "hm_get (hm_remove k (ic_entries c)) n = None" by simp
    then show ?thesis using evicted i m length_hm_remove [of "ic_entries c" k]
      by (simp add: cache_inv_def length_insert_absent)
  qed
qed

lemma cache_reach_inv: "cache_reach c \<Longrightarrow> cache_inv c"
proof (induction rule: cache_reach.induct)
  case (cr_new ttl max_entries)
  then show ?case by (simp add: cache_inv_def cache_new_def)
next
  case (cr_insert c now nft_id active)
  then show ?case by (simp add: cache_inv_insert)
next
  case (cr_invalidate c nft_id)
  then show ?case using length_hm_remove_le [of nft_id "ic_entries c"]
    by (simp add: cache_inv_def cache_invalidate_def)
qed

section \<open>Property\<close>

text \<open>
  The cache stays within its capacity and answers soundly: in every reachable cache an inserted
  observation is returned exactly until it is as old as the time to live; every other NFT's answer is
  unchanged, except that a full cache that learns a new NFT forgets one entry no younger entry of which
  exists; and an invalidated NFT is unknown.
\<close>

theorem cache_sound:
  assumes "cache_reach c"
  shows "cache_len c \<le> ic_max_entries c
    \<and> cache_get later n (cache_insert now n a c) = (if later - now < ic_ttl c then Some a else None)
    \<and> cache_get later n (cache_invalidate n c) = None
    \<and> (\<forall>m e. m \<noteq> n \<longrightarrow> hm_get (ic_entries c) m = Some e \<longrightarrow>
        cache_get later m (cache_insert now n a c) \<noteq> cache_get later m c \<longrightarrow>
        cache_len c = ic_max_entries c \<and>
        (\<forall>m' e'. hm_get (ic_entries c) m' = Some e' \<longrightarrow> ce_fetched_at e \<le> ce_fetched_at e'))"
proof (intro conjI allI impI)
  have i: "cache_inv c" by (rule cache_reach_inv [OF assms])
  have t: "ic_ttl (cache_insert now n a c) = ic_ttl c" by (simp add: cache_insert_def Let_def)
  show "cache_len c \<le> ic_max_entries c" using i by (simp add: cache_inv_def cache_len_def)
  show "cache_get later n (cache_invalidate n c) = None"
    by (simp add: cache_get_def cache_invalidate_def)
  show "cache_get later n (cache_insert now n a c) = (if later - now < ic_ttl c then Some a else None)"
    by (simp add: cache_get_def cache_insert_def Let_def fresh_entry_def)
  fix m e
  assume m: "m \<noteq> n" "hm_get (ic_entries c) m = Some e"
    "cache_get later m (cache_insert now n a c) \<noteq> cache_get later m c"
  from i show "cache_len c = ic_max_entries c"
    by (cases rule: cache_insert_cases [of c now n a]) (use m t in \<open>auto simp: cache_get_def cache_len_def\<close>)
  fix m' e' assume "hm_get (ic_entries c) m' = Some e'"
  with i show "ce_fetched_at e \<le> ce_fetched_at e'"
    by (cases rule: cache_insert_cases [of c now n a])
      (use m t in \<open>auto simp: cache_get_def split: if_splits\<close>)
qed

lemma cache_sound_witness:
  "cache_get 129 5 (cache_insert 100 5 False (cache_new 30 2)) = Some False
   \<and> cache_get 130 5 (cache_insert 100 5 False (cache_new 30 2)) = None"
  using cache_sound [OF cr_new [of 30 2], of 129 5 100 False] cache_sound [OF cr_new [of 30 2], of 130 5 100 False]
  by (simp add: cache_new_def)

end
