(* ===== verification/Json.thy ===== *)
theory Json
  imports Text
begin

text \<open>
  \<open>serde_json::Value\<close> with the accessors the code uses. An object is an association list whose
  order carries no meaning; a number that is no integer is kept as its text, because no accessor
  the code uses can read it.
\<close>

datatype json =
    JNull
  | JBool bool
  | JInt int
  | JFloat string
  | JString string
  | JArray "json list"
  | JObject "(string \<times> json) list"

text \<open>\<open>Value::get\<close> with a key and with an index.\<close>

fun jget :: "string \<Rightarrow> json \<Rightarrow> json option" where
  "jget k (JObject kvs) = map_of kvs k"
| "jget k _ = None"

fun jindex :: "nat \<Rightarrow> json \<Rightarrow> json option" where
  "jindex i (JArray xs) = (if i < length xs then Some (xs ! i) else None)"
| "jindex i _ = None"

fun as_str :: "json \<Rightarrow> string option" where
  "as_str (JString s) = Some s"
| "as_str _ = None"

fun as_bool :: "json \<Rightarrow> bool option" where
  "as_bool (JBool b) = Some b"
| "as_bool _ = None"

fun as_array :: "json \<Rightarrow> json list option" where
  "as_array (JArray xs) = Some xs"
| "as_array _ = None"

fun as_object :: "json \<Rightarrow> (string \<times> json) list option" where
  "as_object (JObject kvs) = Some kvs"
| "as_object _ = None"

fun as_u64 :: "json \<Rightarrow> u64 option" where
  "as_u64 (JInt i) = (if 0 \<le> i \<and> i < 2 ^ 64 then Some (word_of_int i) else None)"
| "as_u64 _ = None"

text \<open>\<open>obj[key] = value\<close> on an object.\<close>

fun jset :: "string \<Rightarrow> json \<Rightarrow> json \<Rightarrow> json" where
  "jset k v (JObject kvs) = JObject (hm_insert k v kvs)"
| "jset k v j = j"

definition jnum :: "'a::len word \<Rightarrow> json" where
  "jnum w = JInt (uint w)"

definition jstrs :: "string list \<Rightarrow> json" where
  "jstrs xs = JArray (map JString xs)"

definition jstr_map :: "(string \<times> string) list \<Rightarrow> json" where
  "jstr_map m = JObject (map (\<lambda>(k, v). (k, JString v)) m)"

text \<open>\<open>get(key).and_then(|v| v.as_str())\<close> and its companions.\<close>

definition str_field :: "string \<Rightarrow> json \<Rightarrow> string option" where
  "str_field k j = Option.bind (jget k j) as_str"

definition u64_field :: "string \<Rightarrow> json \<Rightarrow> u64 option" where
  "u64_field k j = Option.bind (jget k j) as_u64"

definition or_default :: "'a \<Rightarrow> 'a option \<Rightarrow> 'a" where
  "or_default d x = (case x of None \<Rightarrow> d | Some v \<Rightarrow> v)"

lemma or_default_simps [simp]: "or_default d None = d" "or_default d (Some v) = v"
  by (simp_all add: or_default_def)

lemma as_u64_jnum [simp]: "as_u64 (jnum (w :: u64)) = Some w"
  using uint_bounded [of w] by (simp add: jnum_def)

end
