(* ===== verification/StrategyTypes.thy ===== *)
theory StrategyTypes
  imports Json Convert
begin

text \<open>
  \<open>crates/strategy/src/lib.rs\<close>: the events the node sends to the strategy, with their JSON form, and
  the actions the strategy sends back, with their parser. \<open>u32\<close> fields are numbers in JSON as all
  others; \<open>n as u32\<close> truncates the indices of a reveal.
\<close>

section \<open>Event data\<close>

record auth_ok_details =
  ao_trustee_address :: string
  ao_payout_address :: string
  ao_markets :: "string list"
  ao_token_decimals :: "(string \<times> u8) list"
  ao_price_decimals :: u8
  ao_contract_address :: string

record last_batch_data =
  lb_batch_id :: u64
  lb_matches :: u64
  lb_volume :: string

record batch_params_data =
  bp_blocks_per_batch :: u64
  bp_commits_per_batch :: u32
  bp_num_pools :: u64

record pending_settlement_data =
  pd_match_hash :: string
  pd_batch_id :: u64
  pd_status :: string

record mint_state_data =
  ms_state :: string
  ms_hold_duration_secs :: u64
  ms_period_end :: u64
  ms_block_end :: u64
  ms_has_pending_mint :: bool
  ms_pending_claimable_at :: u64

record vault_lock_data =
  vl_symbol :: string
  vl_amount :: string
  vl_unlock_at :: u64
  vl_claimed :: bool

record node_health_data =
  nh_gas_status :: string
  nh_gossip_connected :: bool
  nh_gossip_peers :: u64
  nh_settle_pending_count :: u64
  nh_settle_failed_recent :: u64
  nh_uptime_batches :: u64
  nh_block_height :: u64
  nh_timestamp :: u64

record batch_start_data =
  bs_batch_id :: u64
  bs_pool_id :: u64
  bs_escrow :: "(string \<times> string) list"
  bs_escrow_confirmed :: "(string \<times> string) list"
  bs_wallet :: "(string \<times> string) list"
  bs_gas_balance :: string
  bs_last_batch :: "last_batch_data option"
  bs_batch_params :: batch_params_data
  bs_pending_settlements :: "pending_settlement_data list"
  bs_peers_in_pool :: u64
  bs_mint_state :: mint_state_data
  bs_circulating :: "(string \<times> string) list"
  bs_vault_locks :: "vault_lock_data list"
  bs_node_health :: "node_health_data option"
  bs_min_trade_quantity :: string

record reveal_start_data =
  rs_batch_id :: u64
  rs_my_commits :: "string list"

record match_summary =
  sm_pair :: string
  sm_side :: string
  sm_price :: string
  sm_quantity :: string
  sm_counterparty_nft_id :: u64

record match_result_data =
  mr_batch_id :: u64
  mr_matches :: "match_summary list"

record settlement_data =
  sd_batch_id :: u64
  sd_match_hash :: string
  sd_status :: string
  sd_pair :: string
  sd_side :: string
  sd_price :: string
  sd_quantity :: string

record settlement_failed_data =
  sf_batch_id :: u64
  sf_match_hash :: string
  sf_reason :: string

record profit_transfer_data =
  pt_token :: string
  pt_amount :: string
  pt_tx_hash :: string

record withdrawal_data =
  wd_token :: string
  wd_amount :: string
  wd_nft_id :: u64

record param_change_data =
  pc_param_name :: string
  pc_old_value :: string
  pc_new_value :: string
  pc_effective_at_batch :: "u64 option"

record pool_adjusted_data =
  pa_old_num_pools :: u64
  pa_new_num_pools :: u64
  pa_effective_at_batch :: "u64 option"

record token_action_result_data =
  ta_action :: string
  ta_success :: bool
  ta_message :: string

section \<open>Events\<close>

datatype strategy_event =
    EvAuthOk u64 string "auth_ok_details option"
  | EvAuthFailed string
  | EvBatchStart batch_start_data
  | EvRevealStart reveal_start_data
  | EvMatchResult match_result_data
  | EvSettlement settlement_data
  | EvSettlementFailed settlement_failed_data
  | EvProfitTransfer profit_transfer_data
  | EvRushedWithdrawalRequested withdrawal_data
  | EvWithdrawalCancelled withdrawal_data
  | EvHoldingPeriodStarted u64
  | EvHoldingPeriodCancelled
  | EvInactiveDetected string
  | EvReactivated u64
  | EvHoldExpiryApproaching u64 u64
  | EvPaused u64
  | EvResumed u64
  | EvParamChangeQueued param_change_data
  | EvParamChangeApplied param_change_data
  | EvParamChangeCancelled param_change_data
  | EvPoolAdjusted pool_adjusted_data
  | EvMarketAdded string string
  | EvMarketDeactivated string
  | EvTokenActionResult token_action_result_data
  | EvDisconnected string

fun event_name :: "strategy_event \<Rightarrow> string" where
  "event_name (EvAuthOk _ _ _) = ''auth_ok''"
| "event_name (EvAuthFailed _) = ''auth_failed''"
| "event_name (EvBatchStart _) = ''batch_start''"
| "event_name (EvRevealStart _) = ''reveal_start''"
| "event_name (EvMatchResult _) = ''match_result''"
| "event_name (EvSettlement _) = ''settlement''"
| "event_name (EvSettlementFailed _) = ''settlement_failed''"
| "event_name (EvProfitTransfer _) = ''profit_transfer''"
| "event_name (EvRushedWithdrawalRequested _) = ''rushed_withdrawal_requested''"
| "event_name (EvWithdrawalCancelled _) = ''withdrawal_cancelled''"
| "event_name (EvHoldingPeriodStarted _) = ''holding_period_started''"
| "event_name EvHoldingPeriodCancelled = ''holding_period_cancelled''"
| "event_name (EvInactiveDetected _) = ''inactive_detected''"
| "event_name (EvReactivated _) = ''reactivated''"
| "event_name (EvHoldExpiryApproaching _ _) = ''hold_expiry_approaching''"
| "event_name (EvPaused _) = ''paused''"
| "event_name (EvResumed _) = ''resumed''"
| "event_name (EvParamChangeQueued _) = ''param_change_queued''"
| "event_name (EvParamChangeApplied _) = ''param_change_applied''"
| "event_name (EvParamChangeCancelled _) = ''param_change_cancelled''"
| "event_name (EvPoolAdjusted _) = ''pool_adjusted''"
| "event_name (EvMarketAdded _ _) = ''market_added''"
| "event_name (EvMarketDeactivated _) = ''market_deactivated''"
| "event_name (EvTokenActionResult _) = ''token_action_result''"
| "event_name (EvDisconnected _) = ''disconnected''"

text \<open>The optional fields are appended to the object (\<open>obj[key] = value\<close>).\<close>

definition with_field :: "string \<Rightarrow> json option \<Rightarrow> json \<Rightarrow> json" where
  "with_field k v obj = (case v of None \<Rightarrow> obj | Some x \<Rightarrow> jset k x obj)"

definition batch_start_json :: "batch_start_data \<Rightarrow> json" where
  "batch_start_json d =
     (let obj = JObject
        [(''batch_id'', jnum (bs_batch_id d)),
         (''pool_id'', jnum (bs_pool_id d)),
         (''escrow'', jstr_map (bs_escrow d)),
         (''escrow_confirmed'', jstr_map (bs_escrow_confirmed d)),
         (''wallet'', jstr_map (bs_wallet d)),
         (''gas_balance'', JString (bs_gas_balance d)),
         (''batch_params'', JObject
            [(''blocks_per_batch'', jnum (bp_blocks_per_batch (bs_batch_params d))),
             (''commits_per_batch'', jnum (bp_commits_per_batch (bs_batch_params d))),
             (''num_pools'', jnum (bp_num_pools (bs_batch_params d)))]),
         (''pending_settlements'', JArray (map (\<lambda>p. JObject
            [(''match_hash'', JString (pd_match_hash p)),
             (''batch_id'', jnum (pd_batch_id p)),
             (''status'', JString (pd_status p))]) (bs_pending_settlements d))),
         (''peers_in_pool'', jnum (bs_peers_in_pool d)),
         (''mint_state'', JObject
            [(''state'', JString (ms_state (bs_mint_state d))),
             (''hold_duration_secs'', jnum (ms_hold_duration_secs (bs_mint_state d))),
             (''period_end'', jnum (ms_period_end (bs_mint_state d))),
             (''block_end'', jnum (ms_block_end (bs_mint_state d))),
             (''has_pending_mint'', JBool (ms_has_pending_mint (bs_mint_state d))),
             (''pending_claimable_at'', jnum (ms_pending_claimable_at (bs_mint_state d)))]),
         (''circulating'', jstr_map (bs_circulating d)),
         (''vault_locks'', JArray (map (\<lambda>l. JObject
            [(''symbol'', JString (vl_symbol l)),
             (''amount'', JString (vl_amount l)),
             (''unlock_at'', jnum (vl_unlock_at l)),
             (''claimed'', JBool (vl_claimed l))]) (bs_vault_locks d)))];
          obj1 = with_field ''last_batch'' (map_option (\<lambda>lb. JObject
            [(''batch_id'', jnum (lb_batch_id lb)),
             (''matches'', jnum (lb_matches lb)),
             (''volume'', JString (lb_volume lb))]) (bs_last_batch d)) obj;
          obj2 = with_field ''node_health'' (map_option (\<lambda>nh. JObject
            [(''gas_status'', JString (nh_gas_status nh)),
             (''gossip_connected'', JBool (nh_gossip_connected nh)),
             (''gossip_peers'', jnum (nh_gossip_peers nh)),
             (''settle_pending_count'', jnum (nh_settle_pending_count nh)),
             (''settle_failed_recent'', jnum (nh_settle_failed_recent nh)),
             (''uptime_batches'', jnum (nh_uptime_batches nh)),
             (''block_height'', jnum (nh_block_height nh)),
             (''timestamp'', jnum (nh_timestamp nh))]) (bs_node_health d)) obj1
      in jset ''min_trade_quantity'' (JString (bs_min_trade_quantity d)) obj2)"

definition param_change_json :: "param_change_data \<Rightarrow> json" where
  "param_change_json d = with_field ''effective_at_batch'' (map_option jnum (pc_effective_at_batch d))
     (JObject [(''param_name'', JString (pc_param_name d)), (''old_value'', JString (pc_old_value d)),
               (''new_value'', JString (pc_new_value d))])"

definition withdrawal_json :: "withdrawal_data \<Rightarrow> json" where
  "withdrawal_json d = JObject [(''token'', JString (wd_token d)), (''amount'', JString (wd_amount d)),
     (''nft_id'', jnum (wd_nft_id d))]"

fun event_data_json :: "strategy_event \<Rightarrow> json" where
  "event_data_json (EvAuthOk nft_id network details) =
     (let obj = JObject [(''nft_id'', jnum nft_id), (''network'', JString network)] in
      case details of
        None \<Rightarrow> obj
      | Some a \<Rightarrow>
          jset ''contract_address'' (JString (ao_contract_address a))
          (jset ''price_decimals'' (jnum (ao_price_decimals a))
          (jset ''token_decimals'' (JObject (map (\<lambda>(k, v). (k, jnum v)) (ao_token_decimals a)))
          (jset ''markets'' (jstrs (ao_markets a))
          (jset ''payout_address'' (JString (ao_payout_address a))
          (jset ''trustee_address'' (JString (ao_trustee_address a)) obj))))))"
| "event_data_json (EvAuthFailed reason) = JObject [(''reason'', JString reason)]"
| "event_data_json (EvBatchStart d) = batch_start_json d"
| "event_data_json (EvRevealStart d) = JObject [(''batch_id'', jnum (rs_batch_id d)),
     (''my_commits'', jstrs (rs_my_commits d))]"
| "event_data_json (EvMatchResult d) = JObject [(''batch_id'', jnum (mr_batch_id d)),
     (''matches'', JArray (map (\<lambda>m. JObject
        [(''pair'', JString (sm_pair m)), (''side'', JString (sm_side m)),
         (''price'', JString (sm_price m)), (''quantity'', JString (sm_quantity m)),
         (''counterparty_nft_id'', jnum (sm_counterparty_nft_id m))]) (mr_matches d)))]"
| "event_data_json (EvSettlement d) = JObject [(''batch_id'', jnum (sd_batch_id d)),
     (''match_hash'', JString (sd_match_hash d)), (''status'', JString (sd_status d)),
     (''pair'', JString (sd_pair d)), (''side'', JString (sd_side d)),
     (''price'', JString (sd_price d)), (''quantity'', JString (sd_quantity d))]"
| "event_data_json (EvSettlementFailed d) = JObject [(''batch_id'', jnum (sf_batch_id d)),
     (''match_hash'', JString (sf_match_hash d)), (''reason'', JString (sf_reason d))]"
| "event_data_json (EvProfitTransfer d) = JObject [(''token'', JString (pt_token d)),
     (''amount'', JString (pt_amount d)), (''tx_hash'', JString (pt_tx_hash d))]"
| "event_data_json (EvRushedWithdrawalRequested d) = withdrawal_json d"
| "event_data_json (EvWithdrawalCancelled d) = withdrawal_json d"
| "event_data_json (EvHoldingPeriodStarted b) = JObject [(''expires_at_batch'', jnum b)]"
| "event_data_json EvHoldingPeriodCancelled = JObject []"
| "event_data_json (EvInactiveDetected reason) = JObject [(''reason'', JString reason)]"
| "event_data_json (EvReactivated b) = JObject [(''batch_id'', jnum b)]"
| "event_data_json (EvHoldExpiryApproaching b r) =
     JObject [(''expires_at_batch'', jnum b), (''batches_remaining'', jnum r)]"
| "event_data_json (EvPaused b) = JObject [(''after_batch'', jnum b)]"
| "event_data_json (EvResumed b) = JObject [(''batch_id'', jnum b)]"
| "event_data_json (EvParamChangeQueued d) = param_change_json d"
| "event_data_json (EvParamChangeApplied d) = param_change_json d"
| "event_data_json (EvParamChangeCancelled d) = param_change_json d"
| "event_data_json (EvPoolAdjusted d) =
     with_field ''effective_at_batch'' (map_option jnum (pa_effective_at_batch d))
       (JObject [(''old_num_pools'', jnum (pa_old_num_pools d)), (''new_num_pools'', jnum (pa_new_num_pools d))])"
| "event_data_json (EvMarketAdded symbol min_quantity) =
     JObject [(''symbol'', JString symbol), (''min_quantity'', JString min_quantity)]"
| "event_data_json (EvMarketDeactivated symbol) = JObject [(''symbol'', JString symbol)]"
| "event_data_json (EvTokenActionResult d) = JObject [(''action'', JString (ta_action d)),
     (''success'', JBool (ta_success d)), (''message'', JString (ta_message d))]"
| "event_data_json (EvDisconnected reason) = JObject [(''reason'', JString reason)]"

definition event_json :: "strategy_event \<Rightarrow> json" where
  "event_json ev = JObject [(''event'', JString (event_name ev)), (''data'', event_data_json ev)]"

section \<open>Actions\<close>

datatype strategy_action =
    ActAuth string
  | ActCommit "order_spec list"
  | ActReveal "u32 list"
  | ActMint u64 u64 u64
  | ActClaimMint
  | ActBurnFromEscrow u64
  | ActBurnForProfit u64
  | ActLock string u64 u64
  | ActUnlock u64
  | ActDonateDust u64 string u64

fun is_token_action :: "strategy_action \<Rightarrow> bool" where
  "is_token_action (ActAuth _) = False"
| "is_token_action (ActCommit _) = False"
| "is_token_action (ActReveal _) = False"
| "is_token_action _ = True"

definition missing :: "string \<Rightarrow> strategy_error" where
  "missing what = ParseError (''missing '' @ what)"

definition quoted :: "string \<Rightarrow> string" where
  "quoted s = [CHR 0x27] @ s @ [CHR 0x27]"

definition need_str :: "string \<Rightarrow> json \<Rightarrow> strategy_error + string" where
  "need_str k j = ok_or (missing (quoted k @ '' field'')) (str_field k j)"

definition need_u64 :: "string \<Rightarrow> json \<Rightarrow> strategy_error + u64" where
  "need_u64 k j = ok_or (missing (quoted k @ '' field'')) (u64_field k j)"

definition parse_order_spec :: "json \<Rightarrow> order_spec" where
  "parse_order_spec j = \<lparr>sp_pair = or_default [] (str_field ''pair'' j),
     sp_side = or_default [] (str_field ''side'' j), sp_price = or_default [] (str_field ''price'' j),
     sp_quantity = or_default [] (str_field ''quantity'' j)\<rparr>"

definition action_from_json :: "json \<Rightarrow> strategy_error + strategy_action" where
  "action_from_json j =
     res_bind (need_str ''action'' j) (\<lambda>action.
     if action = ''auth'' then res_bind (need_str ''token'' j) (\<lambda>t. Inr (ActAuth t))
     else if action = ''commit'' then
       res_bind (ok_or (missing (quoted ''orders'' @ '' array'')) (Option.bind (jget ''orders'' j) as_array))
         (\<lambda>arr. Inr (ActCommit (map parse_order_spec arr)))
     else if action = ''reveal'' then
       res_bind (ok_or (missing (quoted ''reveal_indices'')) (Option.bind (jget ''reveal_indices'' j) as_array))
         (\<lambda>arr. Inr (ActReveal (map ucast (List.map_filter as_u64 arr))))
     else if action = ''mint'' then
       res_bind (need_u64 ''m'' j) (\<lambda>m. res_bind (need_u64 ''k'' j) (\<lambda>k. res_bind (need_u64 ''t'' j) (\<lambda>t.
         Inr (ActMint m k t))))
     else if action = ''claim_mint'' then Inr ActClaimMint
     else if action = ''burn'' \<or> action = ''burn_from_escrow'' then
       res_bind (need_u64 ''amount'' j) (\<lambda>a. Inr (ActBurnFromEscrow a))
     else if action = ''lock'' then
       res_bind (need_str ''symbol'' j) (\<lambda>s. res_bind (need_u64 ''amount'' j) (\<lambda>a.
         res_bind (need_u64 ''duration_secs'' j) (\<lambda>d. Inr (ActLock s a d))))
     else if action = ''unlock'' then res_bind (need_u64 ''index'' j) (\<lambda>i. Inr (ActUnlock i))
     else if action = ''burn_for_profit'' then
       res_bind (need_u64 ''amount'' j) (\<lambda>a. Inr (ActBurnForProfit a))
     else if action = ''donate_dust'' then
       res_bind (need_u64 ''recipient_nft_id'' j) (\<lambda>n. res_bind (need_str ''symbol'' j) (\<lambda>s.
         res_bind (need_u64 ''amount'' j) (\<lambda>a. Inr (ActDonateDust n s a))))
     else Inl (ParseError (''unknown action: '' @ action)))"

definition validate_auth :: "string \<Rightarrow> string \<Rightarrow> strategy_error + unit" where
  "validate_auth token expected =
     (if token = expected then Inr () else Inl (AuthFailed ''invalid token''))"

section \<open>Lemmas\<close>

text \<open>The JSON a strategy sends for an action, as the node's protocol describes it.\<close>

definition order_spec_json :: "order_spec \<Rightarrow> json" where
  "order_spec_json s = JObject [(''pair'', JString (sp_pair s)), (''side'', JString (sp_side s)),
     (''price'', JString (sp_price s)), (''quantity'', JString (sp_quantity s))]"

fun action_json :: "strategy_action \<Rightarrow> json" where
  "action_json (ActAuth t) = JObject [(''action'', JString ''auth''), (''token'', JString t)]"
| "action_json (ActCommit os) =
     JObject [(''action'', JString ''commit''), (''orders'', JArray (map order_spec_json os))]"
| "action_json (ActReveal is) =
     JObject [(''action'', JString ''reveal''), (''reveal_indices'', JArray (map jnum is))]"
| "action_json (ActMint m k t) =
     JObject [(''action'', JString ''mint''), (''m'', jnum m), (''k'', jnum k), (''t'', jnum t)]"
| "action_json ActClaimMint = JObject [(''action'', JString ''claim_mint'')]"
| "action_json (ActBurnFromEscrow a) = JObject [(''action'', JString ''burn''), (''amount'', jnum a)]"
| "action_json (ActBurnForProfit a) =
     JObject [(''action'', JString ''burn_for_profit''), (''amount'', jnum a)]"
| "action_json (ActLock s a d) = JObject [(''action'', JString ''lock''), (''symbol'', JString s),
     (''amount'', jnum a), (''duration_secs'', jnum d)]"
| "action_json (ActUnlock i) = JObject [(''action'', JString ''unlock''), (''index'', jnum i)]"
| "action_json (ActDonateDust n s a) = JObject [(''action'', JString ''donate_dust''),
     (''recipient_nft_id'', jnum n), (''symbol'', JString s), (''amount'', jnum a)]"

lemma parse_order_spec_json: "parse_order_spec (order_spec_json s) = s"
  by (simp add: parse_order_spec_def order_spec_json_def str_field_def)

lemma as_u64_jnum32: "as_u64 (jnum (w :: u32)) = Some (ucast w)"
proof -
  have "uint w < 2 ^ 64" using uint_bounded [of w] by simp
  then show ?thesis by (simp add: jnum_def)
qed

lemma ucast_up_down: "ucast (ucast (w :: u32) :: u64) = w"
  by (rule bit_word_eqI) (simp add: bit_unsigned_iff)

lemma reveal_indices_roundtrip:
  "map ucast (List.map_filter as_u64 (map jnum (is :: u32 list))) = is"
  by (induction "is") (simp_all add: List.map_filter_simps as_u64_jnum32 ucast_up_down)

text \<open>
  Every action survives the wire: the JSON of an action is parsed back to the same action. The
  indices of a reveal are cut to 32 bits, so an index above \<open>2 ^ 32\<close> names another order instead of
  being refused.
\<close>
theorem action_roundtrip:
  "action_from_json (action_json a) = Inr a \<and>
   action_from_json (JObject [(''action'', JString ''reveal''),
     (''reveal_indices'', JArray (map jnum (js :: u64 list)))]) = Inr (ActReveal (map ucast js))"
proof
  show "action_from_json (action_json a) = Inr a"
    by (cases a)
      (simp_all add: action_from_json_def need_str_def need_u64_def str_field_def u64_field_def
        parse_order_spec_json reveal_indices_roundtrip comp_def)
  have "List.map_filter as_u64 (map jnum js) = js"
    by (induction js) (simp_all add: List.map_filter_simps)
  then show "action_from_json (JObject [(''action'', JString ''reveal''),
     (''reveal_indices'', JArray (map jnum js))]) = Inr (ActReveal (map ucast js))"
    by (simp add: action_from_json_def need_str_def str_field_def)
qed

section \<open>Events are told apart by their JSON\<close>

lemma jnum_inject [simp]: "jnum v = jnum w \<longleftrightarrow> v = w"
  by (simp add: jnum_def word_uint_eq_iff)

lemma jstr_map_inject [simp]: "jstr_map m = jstr_map n \<longleftrightarrow> m = n"
  by (auto simp: jstr_map_def inj_on_def dest!: map_injective)

lemma jstrs_inject [simp]: "jstrs m = jstrs n \<longleftrightarrow> m = n"
  by (auto simp: jstrs_def inj_on_def dest!: map_injective)

lemma record_list_inject:
  assumes "map f xs = map f ys" and "\<And>x y. f x = f y \<Longrightarrow> x = y"
  shows "xs = ys"
  by (rule map_injective [OF assms(1)]) (use assms(2) in \<open>auto simp: inj_on_def\<close>)

lemma pending_settlements_inject: "map (\<lambda>p. JObject
     [(''match_hash'', JString (pd_match_hash p)), (''batch_id'', jnum (pd_batch_id p)),
      (''status'', JString (pd_status p))]) ps = map (\<lambda>p. JObject
     [(''match_hash'', JString (pd_match_hash p)), (''batch_id'', jnum (pd_batch_id p)),
      (''status'', JString (pd_status p))]) qs \<Longrightarrow> ps = (qs :: pending_settlement_data list)"
  by (erule record_list_inject) simp

lemma vault_locks_inject: "map (\<lambda>l. JObject
     [(''symbol'', JString (vl_symbol l)), (''amount'', JString (vl_amount l)),
      (''unlock_at'', jnum (vl_unlock_at l)), (''claimed'', JBool (vl_claimed l))]) ls = map (\<lambda>l. JObject
     [(''symbol'', JString (vl_symbol l)), (''amount'', JString (vl_amount l)),
      (''unlock_at'', jnum (vl_unlock_at l)), (''claimed'', JBool (vl_claimed l))]) ms \<Longrightarrow> ls = (ms :: vault_lock_data list)"
  by (erule record_list_inject) simp

lemma match_summaries_inject: "map (\<lambda>m. JObject
     [(''pair'', JString (sm_pair m)), (''side'', JString (sm_side m)), (''price'', JString (sm_price m)),
      (''quantity'', JString (sm_quantity m)),
      (''counterparty_nft_id'', jnum (sm_counterparty_nft_id m))]) ms = map (\<lambda>m. JObject
     [(''pair'', JString (sm_pair m)), (''side'', JString (sm_side m)), (''price'', JString (sm_price m)),
      (''quantity'', JString (sm_quantity m)),
      (''counterparty_nft_id'', jnum (sm_counterparty_nft_id m))]) ns \<Longrightarrow> ms = (ns :: match_summary list)"
  by (erule record_list_inject) simp

lemma decimals_inject: "map (\<lambda>(k, v). (k, jnum v)) m = map (\<lambda>(k, v). (k, jnum v)) n \<Longrightarrow> m = n"
  by (erule record_list_inject) auto

lemma jget_jset: "as_object j \<noteq> None \<Longrightarrow> jget k (jset k' v j) = (if k = k' then Some v else jget k j)"
  by (cases j) auto

lemma jget_with_field: "as_object j \<noteq> None \<Longrightarrow>
    jget k (with_field k' v j) = (if k = k' \<and> v \<noteq> None then v else jget k j)"
  by (cases v) (auto simp: with_field_def jget_jset)

lemma as_object_fields [simp]:
  "as_object (jset k v j) = None \<longleftrightarrow> as_object j = None"
  "as_object (with_field k w j) = None \<longleftrightarrow> as_object j = None"
  by (cases j; simp add: with_field_def split: option.split)+

text \<open>What the message of a new batch says under each of its keys.\<close>

lemma batch_start_fields:
  "jget ''batch_id'' (batch_start_json d) = Some (jnum (bs_batch_id d))"
  "jget ''pool_id'' (batch_start_json d) = Some (jnum (bs_pool_id d))"
  "jget ''escrow'' (batch_start_json d) = Some (jstr_map (bs_escrow d))"
  "jget ''escrow_confirmed'' (batch_start_json d) = Some (jstr_map (bs_escrow_confirmed d))"
  "jget ''wallet'' (batch_start_json d) = Some (jstr_map (bs_wallet d))"
  "jget ''gas_balance'' (batch_start_json d) = Some (JString (bs_gas_balance d))"
  "jget ''peers_in_pool'' (batch_start_json d) = Some (jnum (bs_peers_in_pool d))"
  "jget ''circulating'' (batch_start_json d) = Some (jstr_map (bs_circulating d))"
  "jget ''min_trade_quantity'' (batch_start_json d) = Some (JString (bs_min_trade_quantity d))"
  by (simp_all add: batch_start_json_def Let_def jget_jset jget_with_field)

lemma batch_start_nested:
  "jget ''batch_params'' (batch_start_json d) = Some (JObject
     [(''blocks_per_batch'', jnum (bp_blocks_per_batch (bs_batch_params d))),
      (''commits_per_batch'', jnum (bp_commits_per_batch (bs_batch_params d))),
      (''num_pools'', jnum (bp_num_pools (bs_batch_params d)))])"
  "jget ''mint_state'' (batch_start_json d) = Some (JObject
     [(''state'', JString (ms_state (bs_mint_state d))),
      (''hold_duration_secs'', jnum (ms_hold_duration_secs (bs_mint_state d))),
      (''period_end'', jnum (ms_period_end (bs_mint_state d))),
      (''block_end'', jnum (ms_block_end (bs_mint_state d))),
      (''has_pending_mint'', JBool (ms_has_pending_mint (bs_mint_state d))),
      (''pending_claimable_at'', jnum (ms_pending_claimable_at (bs_mint_state d)))])"
  "jget ''pending_settlements'' (batch_start_json d) = Some (JArray (map (\<lambda>p. JObject
     [(''match_hash'', JString (pd_match_hash p)), (''batch_id'', jnum (pd_batch_id p)),
      (''status'', JString (pd_status p))]) (bs_pending_settlements d)))"
  "jget ''vault_locks'' (batch_start_json d) = Some (JArray (map (\<lambda>l. JObject
     [(''symbol'', JString (vl_symbol l)), (''amount'', JString (vl_amount l)),
      (''unlock_at'', jnum (vl_unlock_at l)), (''claimed'', JBool (vl_claimed l))]) (bs_vault_locks d)))"
  by (simp_all add: batch_start_json_def Let_def jget_jset jget_with_field)

lemma batch_start_optional:
  "jget ''last_batch'' (batch_start_json d) = map_option (\<lambda>lb. JObject
     [(''batch_id'', jnum (lb_batch_id lb)), (''matches'', jnum (lb_matches lb)),
      (''volume'', JString (lb_volume lb))]) (bs_last_batch d)"
  "jget ''node_health'' (batch_start_json d) = map_option (\<lambda>nh. JObject
     [(''gas_status'', JString (nh_gas_status nh)), (''gossip_connected'', JBool (nh_gossip_connected nh)),
      (''gossip_peers'', jnum (nh_gossip_peers nh)),
      (''settle_pending_count'', jnum (nh_settle_pending_count nh)),
      (''settle_failed_recent'', jnum (nh_settle_failed_recent nh)),
      (''uptime_batches'', jnum (nh_uptime_batches nh)), (''block_height'', jnum (nh_block_height nh)),
      (''timestamp'', jnum (nh_timestamp nh))]) (bs_node_health d)"
  by (simp_all add: batch_start_json_def Let_def jget_jset jget_with_field)

lemma optional_inject:
  assumes "map_option f x = map_option f y" and "\<And>a b. f a = f b \<Longrightarrow> a = b"
  shows "x = y"
  using assms by (cases x; cases y) auto

lemma batch_start_json_inject:
  assumes "batch_start_json d = batch_start_json e"
  shows "d = e"
proof -
  have j: "jget k (batch_start_json d) = jget k (batch_start_json e)" for k
    using assms by simp
  have params: "bs_batch_params d = bs_batch_params e"
    by (rule batch_params_data.equality) (use j [of "''batch_params''"] in \<open>simp_all add: batch_start_nested\<close>)
  have mint: "bs_mint_state d = bs_mint_state e"
    by (rule mint_state_data.equality) (use j [of "''mint_state''"] in \<open>simp_all add: batch_start_nested\<close>)
  have lists: "bs_pending_settlements d = bs_pending_settlements e" "bs_vault_locks d = bs_vault_locks e"
    using j [of "''pending_settlements''"] j [of "''vault_locks''"] unfolding batch_start_nested
    by (blast dest: pending_settlements_inject vault_locks_inject)+
  have last: "bs_last_batch d = bs_last_batch e"
    using j [of "''last_batch''"] unfolding batch_start_optional by (rule optional_inject) simp
  have health: "bs_node_health d = bs_node_health e"
    using j [of "''node_health''"] unfolding batch_start_optional by (rule optional_inject) simp
  note fields = j [of "''batch_id''"] j [of "''pool_id''"] j [of "''escrow''"] j [of "''escrow_confirmed''"]
    j [of "''wallet''"] j [of "''gas_balance''"] j [of "''peers_in_pool''"] j [of "''circulating''"]
    j [of "''min_trade_quantity''"]
  show ?thesis
    by (rule batch_start_data.equality)
      (use fields in \<open>simp_all add: batch_start_fields params mint lists last health\<close>)
qed

lemma param_change_json_inject: "param_change_json d = param_change_json e \<Longrightarrow> d = e"
  by (auto simp: param_change_json_def with_field_def hm_insert_def split: option.splits
      intro!: param_change_data.equality)

lemma event_name_data_inject:
  "event_name e = event_name f \<Longrightarrow> event_data_json e = event_data_json f \<Longrightarrow> e = f"
  by (cases e; cases f; simp del: event_data_json.simps)
    (auto simp: withdrawal_json_def with_field_def hm_insert_def Let_def split: option.splits
      dest!: batch_start_json_inject param_change_json_inject match_summaries_inject decimals_inject)

text \<open>
  The message of an event determines the event: its name tells the constructor and its data
  every field, the absent optional fields (the last batch, the health of the node, the batch a
  change takes effect at) included.
\<close>
theorem event_json_inject: "event_json e = event_json f \<longleftrightarrow> e = f"
  by (auto simp: event_json_def intro: event_name_data_inject)

end
