(* ===== verification/ChainEvents.thy ===== *)
theory ChainEvents
  imports SettlementManager
begin

text \<open>
  \<open>ChainEvent\<close> of \<open>crates/chain/src/types.rs\<close>: the contract events the node routes.
\<close>

datatype chain_event =
    BatchTradeSettled settled_event
  | MarketPairAdded bytes
  | PauseQueued u64
  | Unpaused
  | NftPairMinted (ce_nft_id: u64) (ce_sponsor: string) (ce_mint_fee_paid: u64) (ce_cohort_started: bool)
  | BurnExecuted (ce_nft_id: u64) (ce_executor: string) (ce_sponsor: string) (ce_recipient: string)
      (ce_refund_supra: u64) (ce_treasury_before: u64) (ce_treasury_after: u64)
      (ce_active_nfts_before_burn: u64) (ce_supra_to_recipient: u64) (ce_is_fallback: bool)
      (ce_is_last_nft: bool) (ce_nominal_refund: u64)
  | DonationReceived string u64 u64
  | DonationRejected string u64 u64
  | DvrfFunded u64 u64 u64
  | AutomationOwnerTopped u64 string u64 u64
  | TreasuryLowBalance u64 u64 u64
  | TreasuryRecovered u64 u64
  | OpsTreasuryConfigUpdated
  | AdminKeyBurned string
  | WithdrawalRequested u64 string u64
  | WithdrawalCancelled u64 string u64
  | HoldingPeriodStarted u64 u64
  | HoldingPeriodCancelled u64
  | NftBlocked u64 u64
  | TraderRegistered u64
  | TraderDeregistered u64
  | ParameterChangeQueued u64 string u64 u64
  | ParameterChangeApplied u64 string u64
  | PoolAdjustmentQueued u64 u64
  | PoolAdjusted u64 u64
  | PoolAdjustmentCancelled
  | UnknownEvent string

end
