(* ===== verification/GossipMessages.thy ===== *)
theory GossipMessages
  imports Crypto Text
begin

text \<open>
  \<open>crates/gossip/src/messages.rs\<close>: the messages of the gossip network in their versioned envelope.
  The bincode crate is a parameter: \<open>bincode_write\<close> and \<open>bincode_read\<close> of the record \<open>bincode\<close>.
  A 32-byte array is a byte list; the code that builds one makes it exactly 32 bytes long.
\<close>

datatype gossip_message =
    Commitment (gm_batch_id: u64) (gm_pool_id: u64) (gm_hash: bytes) (gm_nft_id: u64) (gm_signature: bytes)
  | RevealOrder (gm_batch_id: u64) (gm_pool_id: u64) (gm_order: order) (gm_signature: bytes)
  | BatchComplete (gm_batch_id: u64) (gm_pool_id: u64) (gm_symbol: bytes) (gm_avg_price: u64)
      (gm_volume: u64) (gm_match_count: u64) (gm_num_commits: u32) (gm_num_reveals: u32)
      (gm_sender_nft_id: u64) (gm_signature: bytes)
  | SettlementReport (gm_batch_id: u64) (gm_match_hash: bytes) (gm_settled: bool) (gm_bailer_nft: u64)
      (gm_reporter_nft_id: u64) (gm_signature: bytes)

record gossip_envelope =
  ge_version :: u16
  ge_message :: gossip_message

datatype gossip_codec_error =
    Bincode string
  | VersionMismatch u16 u16

definition PROTOCOL_VERSION :: u16 where
  "PROTOCOL_VERSION = 1"

fun codec_error_display :: "gossip_codec_error \<Rightarrow> string" where
  "codec_error_display (Bincode e) = ''bincode: '' @ e"
| "codec_error_display (VersionMismatch got expected) =
     ''gossip version mismatch: got v'' @ nat_str (unat got) @ '', expected v'' @ nat_str (unat expected)"

record bincode =
  bincode_write :: "gossip_envelope \<Rightarrow> string + bytes"
  bincode_read :: "bytes \<Rightarrow> string + gossip_envelope"

definition serialize :: "bincode \<Rightarrow> gossip_message \<Rightarrow> gossip_codec_error + bytes" where
  "serialize W msg =
     map_err Bincode (bincode_write W \<lparr>ge_version = PROTOCOL_VERSION, ge_message = msg\<rparr>)"

definition deserialize :: "bincode \<Rightarrow> bytes \<Rightarrow> gossip_codec_error + gossip_message" where
  "deserialize W bs =
     res_bind (map_err Bincode (bincode_read W bs)) (\<lambda>envelope.
       if ge_version envelope \<noteq> PROTOCOL_VERSION
       then Inl (VersionMismatch (ge_version envelope) PROTOCOL_VERSION)
       else Inr (ge_message envelope))"

text \<open>What the code relies on: bincode reads back what it wrote.\<close>

definition bincode_ok :: "bincode \<Rightarrow> bool" where
  "bincode_ok W = (\<forall>e bs. bincode_write W e = Inr bs \<longrightarrow> bincode_read W bs = Inr e)"

lemma serialize_deserialize:
  "bincode_ok W \<Longrightarrow> serialize W msg = Inr bs \<Longrightarrow> deserialize W bs = Inr msg"
  by (auto simp: serialize_def deserialize_def bincode_ok_def map_err_def split: sum.splits)

lemma deserialize_version:
  "deserialize W bs = Inr msg \<Longrightarrow> bincode_read W bs = Inr \<lparr>ge_version = PROTOCOL_VERSION, ge_message = msg\<rparr>"
  by (auto simp: deserialize_def map_err_def split: sum.splits if_splits)

end
