(* ===== verification/Orchestrator.thy ===== *)
theory Orchestrator
  imports Batch Matching Convert StrategyTypes ChainEvents
begin

text \<open>
  \<open>crates/orchestrator/src/lib.rs\<close>: the coordinator of one node's batch loop. The traits
  \<open>GossipPort\<close> and \<open>BatchStatePort\<close> are the records \<open>gossip_port\<close> and \<open>batch_port\<close> of operations on a
  state of any type; \<open>RunBridges\<close> provides the ones the node runs with. \<open>None\<close> is a panic: a division
  by zero behind a port, a BCS encoding that fails, or a digest that is shorter than 32 bytes.
\<close>

section \<open>Ports\<close>

datatype orc_phase = OrcCommit | OrcReveal | OrcMatch | OrcSwap

record commit_message =
  cm_nft_id :: u64
  cm_pool_id :: u64
  cm_batch_id :: u64
  cm_commit_hash :: bytes

record reveal_message =
  rm_nft_id :: u64
  rm_pool_id :: u64
  rm_batch_id :: u64
  rm_order_bytes :: bytes
  rm_signature :: bytes

record 'g gossip_port =
  gp_publish_commit :: "'g \<Rightarrow> u64 \<Rightarrow> commit_message \<Rightarrow> 'g \<times> (string + unit)"
  gp_publish_reveal :: "'g \<Rightarrow> u64 \<Rightarrow> reveal_message \<Rightarrow> 'g \<times> (string + unit)"
  gp_received_commits :: "'g \<Rightarrow> u64 \<Rightarrow> commit_message list"
  gp_received_reveals :: "'g \<Rightarrow> u64 \<Rightarrow> reveal_message list"

record 'b batch_port =
  bp_current_phase :: "'b \<Rightarrow> orc_phase option"
  bp_current_batch_id :: "'b \<Rightarrow> u64 option"
  bp_current_pool_id :: "'b \<Rightarrow> u64 \<Rightarrow> u64 option"
  bp_advance_to_block :: "'b \<Rightarrow> u64 \<Rightarrow> 'b"
  bp_pool_count :: "'b \<Rightarrow> u64"
  bp_set_num_pools :: "'b \<Rightarrow> u64 \<Rightarrow> 'b"
  bp_reload_params :: "'b \<Rightarrow> batch_params \<Rightarrow> 'b"

section \<open>The orchestrator\<close>

record match_registration =
  mg_batch_id :: u64
  mg_match_count :: nat

record pending_param_change =
  pp_effective_at_batch :: u64
  pp_param_name :: string
  pp_old_value :: u64
  pp_new_value :: u64

record pending_pool_adjustment =
  pj_effective_at_batch :: u64
  pj_new_num_pools :: u64

record ('g, 'b) orchestrator =
  or_gossip :: 'g
  or_batch_state :: 'b
  or_node_nft_id :: u64
  or_commits_per_batch :: u32
  or_action_timeout_secs :: nat
  sent_events :: "strategy_event list"
  published_commits :: "commit_message list"
  published_reveals :: "reveal_message list"
  committed_orders :: "validated_order list"
  registered_matches :: "match_registration list"
  current_matches :: "match_rec list"
  market_configs :: "market_config list"
  pending_param_change :: "pending_param_change option"
  pending_pool_adjustment :: "pending_pool_adjustment option"

definition orchestrator_new :: "'g \<Rightarrow> 'b \<Rightarrow> u64 \<Rightarrow> u32 \<Rightarrow> ('g, 'b) orchestrator" where
  "orchestrator_new gossip batch_state node_nft_id commits =
     \<lparr>or_gossip = gossip, or_batch_state = batch_state, or_node_nft_id = node_nft_id,
      or_commits_per_batch = commits, or_action_timeout_secs = 5, sent_events = [],
      published_commits = [], published_reveals = [], committed_orders = [], registered_matches = [],
      current_matches = [], market_configs = [], pending_param_change = None,
      pending_pool_adjustment = None\<rparr>"

definition push_event :: "strategy_event \<Rightarrow> ('g, 'b) orchestrator \<Rightarrow> ('g, 'b) orchestrator" where
  "push_event e orch = orch\<lparr>sent_events := sent_events orch @ [e]\<rparr>"

section \<open>COMMIT phase\<close>

definition publish_order ::
  "'g gossip_port \<Rightarrow> u64 \<Rightarrow> u64 \<Rightarrow> validated_order \<Rightarrow> ('g, 'b) orchestrator \<times> nat \<Rightarrow> ('g, 'b) orchestrator \<times> nat" where
  "publish_order P batch_id pool_id ord s =
     (let (orch, count) = s;
          commit = \<lparr>cm_nft_id = or_node_nft_id orch, cm_pool_id = pool_id, cm_batch_id = batch_id,
                    cm_commit_hash = vo_commit_hash ord\<rparr>;
          (g, res) = gp_publish_commit P (or_gossip orch) pool_id commit;
          orch1 = orch\<lparr>or_gossip := g\<rparr>
      in if \<not> isl res
         then (orch1\<lparr>published_commits := published_commits orch1 @ [commit],
                     committed_orders := committed_orders orch1 @ [ord]\<rparr>, Suc count)
         else (orch1, count))"

definition on_commit_phase ::
  "'g gossip_port \<Rightarrow> 'b batch_port \<Rightarrow> bool \<Rightarrow> validated_order list option \<Rightarrow> ('g, 'b) orchestrator
    \<Rightarrow> (('g, 'b) orchestrator \<times> nat) option" where
  "on_commit_phase P Q can_commit strategy_orders orch =
     (if \<not> can_commit then Some (orch, 0)
      else case strategy_orders of
        None \<Rightarrow> Some (push_event (EvDisconnected ''commit timeout'') orch, 0)
      | Some orders \<Rightarrow>
         Option.bind (bp_current_batch_id Q (or_batch_state orch)) (\<lambda>batch_id.
         Option.bind (bp_current_pool_id Q (or_batch_state orch) (or_node_nft_id orch)) (\<lambda>pool_id.
           Some (foldl (\<lambda>s ord. publish_order P batch_id pool_id ord s) (orch, 0) orders))))"

section \<open>REVEAL phase\<close>

text \<open>The bytes and signature of the order with index \<open>idx\<close>, or the placeholder for an index beyond
  the committed orders.\<close>

definition reveal_payload :: "validated_order list \<Rightarrow> u32 \<Rightarrow> bytes \<times> bytes" where
  "reveal_payload orders idx =
     (let i = unat idx in
      if i < length orders then (vo_order_bytes (orders ! i), vo_signature (orders ! i))
      else ([ucast idx], replicate 64 0))"

definition publish_index ::
  "'g gossip_port \<Rightarrow> u64 \<Rightarrow> u64 \<Rightarrow> u32 \<Rightarrow> ('g, 'b) orchestrator \<times> nat \<Rightarrow> ('g, 'b) orchestrator \<times> nat" where
  "publish_index P batch_id pool_id idx s =
     (let (orch, count) = s;
          (order_bytes, signature) = reveal_payload (committed_orders orch) idx;
          reveal = \<lparr>rm_nft_id = or_node_nft_id orch, rm_pool_id = pool_id, rm_batch_id = batch_id,
                    rm_order_bytes = order_bytes, rm_signature = signature\<rparr>;
          (g, res) = gp_publish_reveal P (or_gossip orch) pool_id reveal;
          orch1 = orch\<lparr>or_gossip := g\<rparr>
      in if \<not> isl res
         then (orch1\<lparr>published_reveals := published_reveals orch1 @ [reveal]\<rparr>, Suc count)
         else (orch1, count))"

definition reveal_indices :: "nat \<Rightarrow> u32 list option \<Rightarrow> u32 list" where
  "reveal_indices my_commit_count strategy_response =
     (case strategy_response of
        Some indices \<Rightarrow> indices
      | None \<Rightarrow> map word_of_nat [0..<unat (word_of_nat my_commit_count :: u32)])"

definition on_reveal_phase ::
  "'g gossip_port \<Rightarrow> 'b batch_port \<Rightarrow> nat \<Rightarrow> u32 list option \<Rightarrow> ('g, 'b) orchestrator
    \<Rightarrow> (('g, 'b) orchestrator \<times> nat) option" where
  "on_reveal_phase P Q my_commit_count strategy_response orch =
     Option.bind (bp_current_batch_id Q (or_batch_state orch)) (\<lambda>batch_id.
     Option.bind (bp_current_pool_id Q (or_batch_state orch) (or_node_nft_id orch)) (\<lambda>pool_id.
       Some (foldl (\<lambda>s idx. publish_index P batch_id pool_id idx s) (orch, 0)
               (reveal_indices my_commit_count strategy_response))))"

section \<open>MATCH and SWAP phases\<close>

text \<open>One entry of \<open>all_revealed\<close>: bytes that are no order are skipped; an order is hashed, and a
  digest shorter than 32 bytes panics in \<open>copy_from_slice\<close>.\<close>

definition revealed_from :: "crypto \<Rightarrow> bytes \<Rightarrow> bytes \<Rightarrow> revealed_order option option" where
  "revealed_from C order_bytes signature =
     (case bcs_read_order C order_bytes of
        None \<Rightarrow> Some None
      | Some ord \<Rightarrow>
         (case order_hash C ord of
            None \<Rightarrow> None
          | Some hash \<Rightarrow> if length hash < 32 then None
              else Some (Some \<lparr>r_order = ord, r_signature = signature, r_order_hash = take 32 hash\<rparr>)))"

definition collect_revealed :: "crypto \<Rightarrow> (bytes \<times> bytes) list \<Rightarrow> revealed_order list option" where
  "collect_revealed C xs =
     map_option (List.map_filter id) (map_panics (\<lambda>(b, s). revealed_from C b s) xs)"

definition own_payloads :: "validated_order list \<Rightarrow> (bytes \<times> bytes) list" where
  "own_payloads orders = map (\<lambda>v. (vo_order_bytes v, vo_signature v)) orders"

definition peer_payloads :: "reveal_message list \<Rightarrow> (bytes \<times> bytes) list" where
  "peer_payloads reveals = map (\<lambda>r. (rm_order_bytes r, rm_signature r)) reveals"

definition on_match_phase ::
  "crypto \<Rightarrow> 'g gossip_port \<Rightarrow> 'b batch_port \<Rightarrow> ('g, 'b) orchestrator \<Rightarrow> (('g, 'b) orchestrator \<times> nat) option" where
  "on_match_phase C P Q orch =
     Option.bind (bp_current_batch_id Q (or_batch_state orch)) (\<lambda>batch_id.
     Option.bind (bp_current_pool_id Q (or_batch_state orch) (or_node_nft_id orch)) (\<lambda>pool_id.
     Option.bind (collect_revealed C (own_payloads (committed_orders orch)
         @ peer_payloads (gp_received_reveals P (or_gossip orch) batch_id))) (\<lambda>all_revealed.
       if all_revealed = [] then Some (orch\<lparr>current_matches := []\<rparr>, 0)
       else
        (let matches = run_matching C \<lparr>mi_batch_id = batch_id, mi_pool_id = pool_id,
               mi_reveals = all_revealed, mi_markets = market_configs orch\<rparr>;
             match_count = length matches;
             orch1 = (if 0 < match_count
               then orch\<lparr>registered_matches := registered_matches orch
                      @ [\<lparr>mg_batch_id = batch_id, mg_match_count = match_count\<rparr>]\<rparr>
               else orch)
         in Some (orch1\<lparr>current_matches := matches\<rparr>, match_count)))))"

definition on_swap_phase :: "('g, 'b) orchestrator \<Rightarrow> nat" where
  "on_swap_phase orch = length (current_matches orch)"

definition take_matches :: "('g, 'b) orchestrator \<Rightarrow> ('g, 'b) orchestrator \<times> match_rec list" where
  "take_matches orch = (orch\<lparr>current_matches := []\<rparr>, current_matches orch)"

section \<open>Chain events\<close>

definition settlement_notice :: "u64 \<Rightarrow> settled_event \<Rightarrow> strategy_event" where
  "settlement_notice node_nft_id evt =
     (let is_buyer = (se_buyer_nft_id evt = node_nft_id);
          (side, price) = (if is_buyer then (''buy'', u64_str (se_clearing_price evt))
                           else (''sell'', u64_str (se_clearing_price evt)))
      in EvSettlement \<lparr>sd_batch_id = se_batch_id evt, sd_match_hash = se_trade_id evt,
           sd_status = ''confirmed'', sd_pair = bytes_str (se_symbol evt), sd_side = side,
           sd_price = price, sd_quantity = u64_str (se_base_amount evt)\<rparr>)"

definition orc_settlement_confirmed :: "settled_event \<Rightarrow> ('g, 'b) orchestrator \<Rightarrow> ('g, 'b) orchestrator" where
  "orc_settlement_confirmed evt orch = push_event (settlement_notice (or_node_nft_id orch) evt) orch"

text \<open>The parameters a \<open>ParameterChangeApplied\<close> event loads: the built-in defaults with the one named
  parameter set.\<close>

definition reloaded_params :: "string \<Rightarrow> u64 \<Rightarrow> batch_params" where
  "reloaded_params param_name new_value =
     (let params = \<lparr>blocks_per_batch = 10, commit_blocks = 3, reveal_blocks = 3, match_blocks = 2,
                    swap_blocks = 2, commits_per_batch = 3\<rparr>
      in if param_name = ''blocks_per_batch'' then params\<lparr>blocks_per_batch := new_value\<rparr>
         else if param_name = ''commits_per_batch'' then params\<lparr>commits_per_batch := new_value\<rparr>
         else params)"

fun on_chain_event ::
  "'b batch_port \<Rightarrow> chain_event \<Rightarrow> ('g, 'b) orchestrator \<Rightarrow> ('g, 'b) orchestrator option" where
  "on_chain_event Q (PauseQueued after_batch) orch = Some (push_event (EvPaused after_batch) orch)"
| "on_chain_event Q Unpaused orch =
     map_option (\<lambda>b. push_event (EvResumed b) orch) (bp_current_batch_id Q (or_batch_state orch))"
| "on_chain_event Q (WithdrawalRequested nft_id token amount) orch =
     Some (if nft_id = or_node_nft_id orch
           then push_event (EvRushedWithdrawalRequested
                  \<lparr>wd_token = token, wd_amount = u64_str amount, wd_nft_id = nft_id\<rparr>) orch
           else orch)"
| "on_chain_event Q (ParameterChangeQueued effective_at param_name old_value new_value) orch =
     Some (push_event (EvParamChangeQueued \<lparr>pc_param_name = param_name, pc_old_value = u64_str old_value,
             pc_new_value = u64_str new_value, pc_effective_at_batch = Some effective_at\<rparr>)
       (orch\<lparr>pending_param_change := Some \<lparr>pp_effective_at_batch = effective_at,
          pp_param_name = param_name, pp_old_value = old_value, pp_new_value = new_value\<rparr>\<rparr>))"
| "on_chain_event Q (ParameterChangeApplied batch_id param_name new_value) orch =
     Some (push_event (EvParamChangeApplied \<lparr>pc_param_name = param_name, pc_old_value = [],
             pc_new_value = u64_str new_value, pc_effective_at_batch = Some batch_id\<rparr>)
       (orch\<lparr>or_batch_state := bp_reload_params Q (or_batch_state orch) (reloaded_params param_name new_value),
             pending_param_change := None\<rparr>))"
| "on_chain_event Q (PoolAdjustmentQueued effective_at new_num_pools) orch =
     Some (orch\<lparr>pending_pool_adjustment := Some \<lparr>pj_effective_at_batch = effective_at,
             pj_new_num_pools = new_num_pools\<rparr>\<rparr>)"
| "on_chain_event Q (PoolAdjusted batch_id new_num_pools) orch =
     Some (push_event (EvPoolAdjusted \<lparr>pa_old_num_pools = bp_pool_count Q (or_batch_state orch),
             pa_new_num_pools = new_num_pools, pa_effective_at_batch = Some batch_id\<rparr>)
       (orch\<lparr>or_batch_state := bp_set_num_pools Q (or_batch_state orch) new_num_pools,
             pending_pool_adjustment := None\<rparr>))"
| "on_chain_event Q PoolAdjustmentCancelled orch = Some (orch\<lparr>pending_pool_adjustment := None\<rparr>)"
| "on_chain_event Q (BatchTradeSettled evt) orch = Some (orc_settlement_confirmed evt orch)"
| "on_chain_event Q (MarketPairAdded symbol) orch =
     Some (push_event (EvMarketAdded (bytes_str symbol) ''0'') orch)"
| "on_chain_event Q _ orch = Some orch"

section \<open>The contract of the gossip port\<close>

text \<open>A mailbox: publishing never fails and does not change what was received.\<close>

locale gossip_mailbox =
  fixes P :: "'g gossip_port"
  assumes commit_ok: "snd (gp_publish_commit P g pool c) = Inr ()"
    and reveal_ok: "snd (gp_publish_reveal P g pool r) = Inr ()"
    and commit_keeps: "gp_received_reveals P (fst (gp_publish_commit P g pool c)) b = gp_received_reveals P g b"
    and reveal_keeps: "gp_received_reveals P (fst (gp_publish_reveal P g pool r)) b = gp_received_reveals P g b"
begin

lemma publish_order_effect:
  assumes "publish_order P b p ord (orch, n) = (orch', n')"
  shows "n' = Suc n" "committed_orders orch' = committed_orders orch @ [ord]"
    "published_commits orch' = published_commits orch @ [\<lparr>cm_nft_id = or_node_nft_id orch, cm_pool_id = p,
       cm_batch_id = b, cm_commit_hash = vo_commit_hash ord\<rparr>]"
    "or_node_nft_id orch' = or_node_nft_id orch" "or_batch_state orch' = or_batch_state orch"
    "published_reveals orch' = published_reveals orch" "market_configs orch' = market_configs orch"
    "gp_received_reveals P (or_gossip orch') j = gp_received_reveals P (or_gossip orch) j"
  using assms commit_ok commit_keeps
  by (auto simp: publish_order_def Let_def split: prod.splits if_splits) (metis fst_conv snd_conv isl_def sum.distinct(1))+

lemma publish_index_effect:
  assumes "publish_index P b p idx (orch, n) = (orch', n')"
  shows "n' = Suc n" "committed_orders orch' = committed_orders orch"
    "published_reveals orch' = published_reveals orch @ [\<lparr>rm_nft_id = or_node_nft_id orch, rm_pool_id = p,
       rm_batch_id = b, rm_order_bytes = fst (reveal_payload (committed_orders orch) idx),
       rm_signature = snd (reveal_payload (committed_orders orch) idx)\<rparr>]"
    "or_node_nft_id orch' = or_node_nft_id orch" "or_batch_state orch' = or_batch_state orch"
    "published_commits orch' = published_commits orch" "market_configs orch' = market_configs orch"
    "gp_received_reveals P (or_gossip orch') j = gp_received_reveals P (or_gossip orch) j"
  using assms reveal_ok reveal_keeps
  by (auto simp: publish_index_def Let_def split: prod.splits if_splits) (metis fst_conv snd_conv isl_def sum.distinct(1))+

lemma publish_orders_effect:
  assumes "foldl (\<lambda>s ord. publish_order P b p ord s) (orch, n) ords = (orch', n')"
  shows "n' = n + length ords \<and> committed_orders orch' = committed_orders orch @ ords \<and>
    published_commits orch' = published_commits orch @ map (\<lambda>ord. \<lparr>cm_nft_id = or_node_nft_id orch,
       cm_pool_id = p, cm_batch_id = b, cm_commit_hash = vo_commit_hash ord\<rparr>) ords \<and>
    or_node_nft_id orch' = or_node_nft_id orch \<and> or_batch_state orch' = or_batch_state orch \<and>
    published_reveals orch' = published_reveals orch \<and> market_configs orch' = market_configs orch \<and>
    gp_received_reveals P (or_gossip orch') j = gp_received_reveals P (or_gossip orch) j"
  using assms
proof (induction ords arbitrary: orch n)
  case Nil
  then show ?case by simp
next
  case (Cons ord ords)
  obtain o1 n1 where st: "publish_order P b p ord (orch, n) = (o1, n1)"
    by (cases "publish_order P b p ord (orch, n)")
  note e = publish_order_effect [OF st]
  show ?case using Cons.IH [of o1 n1] Cons.prems by (simp add: st e)
qed

lemma publish_indices_effect:
  assumes "foldl (\<lambda>s idx. publish_index P b p idx s) (orch, n) idxs = (orch', n')"
  shows "n' = n + length idxs \<and> committed_orders orch' = committed_orders orch \<and>
    published_reveals orch' = published_reveals orch @ map (\<lambda>idx. \<lparr>rm_nft_id = or_node_nft_id orch,
       rm_pool_id = p, rm_batch_id = b, rm_order_bytes = fst (reveal_payload (committed_orders orch) idx),
       rm_signature = snd (reveal_payload (committed_orders orch) idx)\<rparr>) idxs \<and>
    or_node_nft_id orch' = or_node_nft_id orch \<and> or_batch_state orch' = or_batch_state orch \<and>
    published_commits orch' = published_commits orch \<and> market_configs orch' = market_configs orch \<and>
    gp_received_reveals P (or_gossip orch') j = gp_received_reveals P (or_gossip orch) j"
  using assms
proof (induction idxs arbitrary: orch n)
  case Nil
  then show ?case by simp
next
  case (Cons idx idxs)
  obtain o1 n1 where st: "publish_index P b p idx (orch, n) = (o1, n1)"
    by (cases "publish_index P b p idx (orch, n)")
  note e = publish_index_effect [OF st]
  show ?case using Cons.IH [of o1 n1] Cons.prems by (simp add: st e)
qed

end

text \<open>Revealing by default: when the strategy does not answer, the indices are those of all committed
  orders, and the payloads are theirs in order.\<close>

lemma default_payloads:
  assumes "length ords < 2 ^ 32"
  shows "map (\<lambda>idx. reveal_payload ords idx) (reveal_indices (length ords) None) = own_payloads ords"
proof -
  have u: "unat (word_of_nat i :: u32) = i" if "i \<le> length ords" for i
    using that assms by (simp add: unat_of_nat)
  have "map (\<lambda>idx. reveal_payload ords idx) (reveal_indices (length ords) None)
      = map (\<lambda>i. (vo_order_bytes (ords ! i), vo_signature (ords ! i))) [0..<length ords]"
    by (auto simp: reveal_indices_def u reveal_payload_def)
  also have "\<dots> = map (\<lambda>v. (vo_order_bytes v, vo_signature v)) ords"
    by (rule nth_equalityI) simp_all
  finally show ?thesis by (simp add: own_payloads_def)
qed

end
