(* ===== verification/RunBridges.thy ===== *)
theory RunBridges
  imports Orchestrator GossipMessages ActiveCache
begin

text \<open>
  The bridges of \<open>src/run.rs\<close> between the orchestrator's ports and the running node: the buffered
  gossip bridge, the batch clock on the polled block height, the validator of inbound gossip, and the
  helpers that store inbound messages and flush outbound ones.
\<close>

section \<open>The gossip bridge\<close>

record gossip_bridge =
  gb_pending_commits :: "(u64 \<times> gossip_message) list"
  gb_pending_reveals :: "(u64 \<times> gossip_message) list"
  gb_inbound_commits :: "(u64, commit_message list) hmap"
  gb_inbound_reveals :: "(u64, reveal_message list) hmap"

definition gossip_bridge_new :: gossip_bridge where
  "gossip_bridge_new = \<lparr>gb_pending_commits = [], gb_pending_reveals = [], gb_inbound_commits = [],
     gb_inbound_reveals = []\<rparr>"

text \<open>Copying a byte string into a zeroed 32-byte array.\<close>

definition to_array32 :: "bytes \<Rightarrow> bytes" where
  "to_array32 b = (let len = min (length b) 32 in take len b @ replicate (32 - len) 0)"

definition bridge_publish_commit ::
  "gossip_bridge \<Rightarrow> u64 \<Rightarrow> commit_message \<Rightarrow> gossip_bridge \<times> (string + unit)" where
  "bridge_publish_commit g pool_id commit =
     (let msg = Commitment (cm_batch_id commit) (cm_pool_id commit) (to_array32 (cm_commit_hash commit))
                  (cm_nft_id commit) (replicate 64 0)
      in (g\<lparr>gb_pending_commits := gb_pending_commits g @ [(pool_id, msg)]\<rparr>, Inr ()))"

text \<open>The order a reveal carries on the wire: the decoded bytes, or a placeholder when they do not
  decode.\<close>

definition reveal_order :: "crypto \<Rightarrow> reveal_message \<Rightarrow> order" where
  "reveal_order C reveal =
     (case bcs_read_order C (rm_order_bytes reveal) of
        Some decoded \<Rightarrow> decoded
      | None \<Rightarrow> \<lparr>o_nft_id = rm_nft_id reveal, o_symbol = char_bytes ''UNKNOWN'', o_side = 0, o_price = 0,
                 o_quantity = 0, o_batch_id = rm_batch_id reveal, o_nonce = rm_order_bytes reveal\<rparr>)"

definition bridge_publish_reveal ::
  "crypto \<Rightarrow> gossip_bridge \<Rightarrow> u64 \<Rightarrow> reveal_message \<Rightarrow> gossip_bridge \<times> (string + unit)" where
  "bridge_publish_reveal C g pool_id reveal =
     (let msg = RevealOrder (rm_batch_id reveal) (rm_pool_id reveal) (reveal_order C reveal) (rm_signature reveal)
      in (g\<lparr>gb_pending_reveals := gb_pending_reveals g @ [(pool_id, msg)]\<rparr>, Inr ()))"

definition bridge_received_commits :: "gossip_bridge \<Rightarrow> u64 \<Rightarrow> commit_message list" where
  "bridge_received_commits g batch_id = hm_get_or [] (gb_inbound_commits g) batch_id"

definition bridge_received_reveals :: "gossip_bridge \<Rightarrow> u64 \<Rightarrow> reveal_message list" where
  "bridge_received_reveals g batch_id = hm_get_or [] (gb_inbound_reveals g) batch_id"

definition bridge_gossip :: "crypto \<Rightarrow> gossip_bridge gossip_port" where
  "bridge_gossip C = \<lparr>gp_publish_commit = bridge_publish_commit, gp_publish_reveal = bridge_publish_reveal C,
     gp_received_commits = bridge_received_commits, gp_received_reveals = bridge_received_reveals\<rparr>"

section \<open>The batch clock bridge\<close>

record batch_state_bridge =
  bb_block_height :: u64
  bb_epoch :: batch_epoch
  bb_params :: batch_params
  bb_num_pools :: u64
  bb_nft_id :: u64

definition batch_bridge_new :: "batch_epoch \<Rightarrow> batch_params \<Rightarrow> u64 \<Rightarrow> u64 \<Rightarrow> batch_state_bridge" where
  "batch_bridge_new epoch params pools nft_id = \<lparr>bb_block_height = anchor_block epoch, bb_epoch = epoch,
     bb_params = params, bb_num_pools = pools, bb_nft_id = nft_id\<rparr>"

definition bridge_current_phase :: "batch_state_bridge \<Rightarrow> orc_phase option" where
  "bridge_current_phase b =
     map_option (case_phase OrcCommit OrcReveal OrcMatch OrcSwap)
       (compute_phase (bb_block_height b) (bb_epoch b) (bb_params b))"

definition bridge_current_batch_id :: "batch_state_bridge \<Rightarrow> u64 option" where
  "bridge_current_batch_id b = compute_batch_id (bb_block_height b) (bb_epoch b) (bb_params b)"

definition bridge_current_pool_id :: "crypto \<Rightarrow> batch_state_bridge \<Rightarrow> u64 \<Rightarrow> u64 option" where
  "bridge_current_pool_id C b nft_id =
     Option.bind (bridge_current_batch_id b) (\<lambda>batch_id.
       compute_pool_assignment C nft_id batch_id (max (bb_num_pools b) 1))"

definition bridge_advance_to_block :: "batch_state_bridge \<Rightarrow> u64 \<Rightarrow> batch_state_bridge" where
  "bridge_advance_to_block b block_height = b\<lparr>bb_block_height := block_height\<rparr>"

definition bridge_set_num_pools :: "batch_state_bridge \<Rightarrow> u64 \<Rightarrow> batch_state_bridge" where
  "bridge_set_num_pools b n = b\<lparr>bb_num_pools := n\<rparr>"

definition bridge_reload_params :: "batch_state_bridge \<Rightarrow> batch_params \<Rightarrow> batch_state_bridge" where
  "bridge_reload_params b params = b\<lparr>bb_params := params\<rparr>"

definition bridge_batch :: "crypto \<Rightarrow> batch_state_bridge batch_port" where
  "bridge_batch C = \<lparr>bp_current_phase = bridge_current_phase, bp_current_batch_id = bridge_current_batch_id,
     bp_current_pool_id = bridge_current_pool_id C, bp_advance_to_block = bridge_advance_to_block,
     bp_pool_count = bb_num_pools, bp_set_num_pools = bridge_set_num_pools,
     bp_reload_params = bridge_reload_params\<rparr>"

section \<open>The validator of inbound gossip\<close>

definition BATCH_WINDOW :: u64 where "BATCH_WINDOW = 5"
definition PUBKEY_FETCH_INTERVAL :: u64 where "PUBKEY_FETCH_INTERVAL = 3"
definition MAX_MSGS_PER_NFT_PER_BATCH :: u32 where "MAX_MSGS_PER_NFT_PER_BATCH = 10"

record inbound_validator =
  iv_nft_pubkeys :: "u64 \<rightharpoonup> bytes"
  iv_seen_commits :: "bytes set"
  iv_seen_reveals :: "bytes set"
  iv_msg_counts :: "u64 \<times> u64 \<rightharpoonup> u32"
  iv_unknown_nfts :: "u64 list"
  iv_current_batch :: u64
  iv_last_fetch :: u64
  iv_rejected_bounds :: u64
  iv_rejected_dedup :: u64
  iv_rejected_rate :: u64
  iv_rejected_sig :: u64
  iv_rejected_unknown :: u64
  iv_accepted :: u64

definition iv_new :: "u64 \<Rightarrow> inbound_validator" where
  "iv_new initial = \<lparr>iv_nft_pubkeys = Map.empty, iv_seen_commits = {}, iv_seen_reveals = {},
     iv_msg_counts = Map.empty, iv_unknown_nfts = [], iv_current_batch = initial, iv_last_fetch = 0,
     iv_rejected_bounds = 0, iv_rejected_dedup = 0, iv_rejected_rate = 0, iv_rejected_sig = 0,
     iv_rejected_unknown = 0, iv_accepted = 0\<rparr>"

definition batch_in_range :: "inbound_validator \<Rightarrow> u64 \<Rightarrow> bool" where
  "batch_in_range v batch_id =
     (if iv_current_batch v = 0 then True
      else saturating_sub (iv_current_batch v) BATCH_WINDOW \<le> batch_id \<and>
           batch_id \<le> saturating_add (iv_current_batch v) BATCH_WINDOW)"

definition msg_count :: "inbound_validator \<Rightarrow> u64 \<Rightarrow> u64 \<Rightarrow> u32" where
  "msg_count v nft_id batch_id = (case iv_msg_counts v (nft_id, batch_id) of None \<Rightarrow> 0 | Some c \<Rightarrow> c)"

definition check_rate_limit :: "u64 \<Rightarrow> u64 \<Rightarrow> inbound_validator \<Rightarrow> inbound_validator \<times> bool" where
  "check_rate_limit nft_id batch_id v =
     (let count = msg_count v nft_id batch_id;
          v1 = v\<lparr>iv_msg_counts := (iv_msg_counts v)((nft_id, batch_id) \<mapsto> count)\<rparr>
      in if MAX_MSGS_PER_NFT_PER_BATCH \<le> count
         then (v1\<lparr>iv_rejected_rate := iv_rejected_rate v1 + 1\<rparr>, False)
         else (v1\<lparr>iv_msg_counts := (iv_msg_counts v1)((nft_id, batch_id) \<mapsto> count + 1)\<rparr>, True))"

text \<open>\<open>HashSet::insert\<close> as it is used for the content hashes: whether the element was new.\<close>

definition seen_insert :: "bytes \<Rightarrow> bytes set \<Rightarrow> bytes set \<times> bool" where
  "seen_insert h s = (insert h s, h \<notin> s)"

definition accept_commit :: "u64 \<Rightarrow> u64 \<Rightarrow> bytes \<Rightarrow> inbound_validator \<Rightarrow> inbound_validator \<times> bool" where
  "accept_commit nft_id batch_id hash v =
     (if \<not> batch_in_range v batch_id
      then (v\<lparr>iv_rejected_bounds := iv_rejected_bounds v + 1\<rparr>, False)
      else
       (let (v1, fresh) = (if length hash = 32
              then (let (s, new) = seen_insert hash (iv_seen_commits v) in (v\<lparr>iv_seen_commits := s\<rparr>, new))
              else (v, True))
        in if \<not> fresh then (v1\<lparr>iv_rejected_dedup := iv_rejected_dedup v1 + 1\<rparr>, False)
           else (let (v2, ok) = check_rate_limit nft_id batch_id v1
                 in if \<not> ok then (v2, False)
                    else (v2\<lparr>iv_accepted := iv_accepted v2 + 1\<rparr>, True))))"

text \<open>A rejected reveal gives back its content hash and its place in the rate limit.\<close>

definition give_back :: "u64 \<Rightarrow> u64 \<Rightarrow> bytes \<Rightarrow> inbound_validator \<Rightarrow> inbound_validator" where
  "give_back nft_id batch_id content_hash v =
     v\<lparr>iv_seen_reveals := iv_seen_reveals v - {content_hash},
       iv_msg_counts := (case iv_msg_counts v (nft_id, batch_id) of
          None \<Rightarrow> iv_msg_counts v
        | Some c \<Rightarrow> (iv_msg_counts v)((nft_id, batch_id) \<mapsto> saturating_sub c 1))\<rparr>"

definition unknown_insert :: "u64 \<Rightarrow> u64 list \<Rightarrow> u64 list" where
  "unknown_insert n ns = (if n \<in> set ns then ns else ns @ [n])"

definition accept_reveal ::
  "crypto \<Rightarrow> u64 \<Rightarrow> u64 \<Rightarrow> bytes \<Rightarrow> bytes \<Rightarrow> inbound_validator \<Rightarrow> inbound_validator \<times> bool" where
  "accept_reveal C nft_id batch_id order_bytes signature v =
     (if \<not> batch_in_range v batch_id
      then (v\<lparr>iv_rejected_bounds := iv_rejected_bounds v + 1\<rparr>, False)
      else
       (let content_hash = sha256 C order_bytes;
            (seen, new) = seen_insert content_hash (iv_seen_reveals v);
            v1 = v\<lparr>iv_seen_reveals := seen\<rparr>
        in if \<not> new then (v1\<lparr>iv_rejected_dedup := iv_rejected_dedup v1 + 1\<rparr>, False)
           else
            (let (v2, ok) = check_rate_limit nft_id batch_id v1
             in if \<not> ok then (v2\<lparr>iv_seen_reveals := iv_seen_reveals v2 - {content_hash}\<rparr>, False)
                else case iv_nft_pubkeys v2 nft_id of
                  Some pubkey \<Rightarrow>
                    if \<not> verify C pubkey order_bytes signature
                    then (give_back nft_id batch_id content_hash
                            (v2\<lparr>iv_rejected_sig := iv_rejected_sig v2 + 1\<rparr>), False)
                    else (v2\<lparr>iv_accepted := iv_accepted v2 + 1\<rparr>, True)
                | None \<Rightarrow>
                    (give_back nft_id batch_id content_hash
                       (v2\<lparr>iv_unknown_nfts := unknown_insert nft_id (iv_unknown_nfts v2),
                           iv_rejected_unknown := iv_rejected_unknown v2 + 1\<rparr>), False))))"

definition update_batch :: "u64 \<Rightarrow> inbound_validator \<Rightarrow> inbound_validator" where
  "update_batch batch_id v =
     (if iv_current_batch v < batch_id then v\<lparr>iv_current_batch := batch_id\<rparr> else v)"

definition expire_old_batches :: "inbound_validator \<Rightarrow> inbound_validator" where
  "expire_old_batches v =
     (let lower = saturating_sub (iv_current_batch v) BATCH_WINDOW;
          v1 = v\<lparr>iv_msg_counts := (\<lambda>(n, b). if lower \<le> b then iv_msg_counts v (n, b) else None)\<rparr>
      in if iv_current_batch v mod BATCH_WINDOW = 0
         then v1\<lparr>iv_seen_commits := {}, iv_seen_reveals := {}\<rparr> else v1)"

definition cache_pubkey :: "u64 \<Rightarrow> bytes \<Rightarrow> inbound_validator \<Rightarrow> inbound_validator" where
  "cache_pubkey nft_id key v =
     v\<lparr>iv_nft_pubkeys := (iv_nft_pubkeys v)(nft_id \<mapsto> key),
       iv_unknown_nfts := removeAll nft_id (iv_unknown_nfts v)\<rparr>"

definition take_unknown_nfts :: "inbound_validator \<Rightarrow> inbound_validator \<times> u64 list" where
  "take_unknown_nfts v = (v\<lparr>iv_unknown_nfts := []\<rparr>, iv_unknown_nfts v)"

definition should_fetch_pubkeys :: "inbound_validator \<Rightarrow> u64 \<Rightarrow> bool" where
  "should_fetch_pubkeys v current_batch =
     (iv_unknown_nfts v \<noteq> [] \<and> iv_last_fetch v + PUBKEY_FETCH_INTERVAL \<le> current_batch)"

definition reset_stats :: "inbound_validator \<Rightarrow> inbound_validator" where
  "reset_stats v = v\<lparr>iv_rejected_bounds := 0, iv_rejected_dedup := 0, iv_rejected_rate := 0,
     iv_rejected_sig := 0, iv_rejected_unknown := 0, iv_accepted := 0\<rparr>"

section \<open>The bridge is a mailbox\<close>

interpretation bridge: gossip_mailbox "bridge_gossip C" for C
  by unfold_locales
    (simp_all add: bridge_gossip_def bridge_publish_commit_def bridge_publish_reveal_def
      bridge_received_reveals_def Let_def)

end
