(* ===== verification/InboundGossip.thy ===== *)
theory InboundGossip
  imports RunBridges
begin

text \<open>
  How \<open>src/run.rs\<close> processes inbound gossip: \<open>process_inbound_gossip\<close>, the maintenance of the
  validator and of the stored messages when a batch begins, the fetching of keys of unknown NFTs,
  and the two drains that empty the outbound buffers and the strategy event queue. The lemmas are the
  invariant of the validator together with what it has let through.
\<close>

type_synonym node_orchestrator = "(gossip_bridge, batch_state_bridge) orchestrator"

section \<open>Storing a message\<close>

definition hm_push :: "'k \<Rightarrow> 'v \<Rightarrow> ('k, 'v list) hmap \<Rightarrow> ('k, 'v list) hmap" where
  "hm_push k x m = hm_insert k (hm_get_or [] m k @ [x]) m"

definition store_commit :: "u64 \<Rightarrow> commit_message \<Rightarrow> gossip_bridge \<Rightarrow> gossip_bridge" where
  "store_commit b c g = g\<lparr>gb_inbound_commits := hm_push b c (gb_inbound_commits g)\<rparr>"

definition store_reveal :: "u64 \<Rightarrow> reveal_message \<Rightarrow> gossip_bridge \<Rightarrow> gossip_bridge" where
  "store_reveal b r g = g\<lparr>gb_inbound_reveals := hm_push b r (gb_inbound_reveals g)\<rparr>"

text \<open>\<open>encode_order(&order).unwrap_or_default()\<close>\<close>

definition wire_order_bytes :: "crypto \<Rightarrow> order \<Rightarrow> bytes" where
  "wire_order_bytes C ord = (case encode_order C ord of Inl _ \<Rightarrow> [] | Inr b \<Rightarrow> b)"

fun inbound_step ::
  "crypto \<Rightarrow> gossip_message \<Rightarrow> inbound_validator \<times> gossip_bridge \<Rightarrow> inbound_validator \<times> gossip_bridge" where
  "inbound_step C (Commitment batch_id pool_id hash nft_id _) (v, g) =
     (let (v', ok) = accept_commit nft_id batch_id hash v
      in if ok then (v', store_commit batch_id \<lparr>cm_nft_id = nft_id, cm_pool_id = pool_id,
                          cm_batch_id = batch_id, cm_commit_hash = hash\<rparr> g)
         else (v', g))"
| "inbound_step C (RevealOrder batch_id pool_id ord signature) (v, g) =
     (let order_bytes = wire_order_bytes C ord;
          nft_id = o_nft_id ord;
          (v', ok) = accept_reveal C nft_id batch_id order_bytes signature v
      in if ok then (v', store_reveal batch_id \<lparr>rm_nft_id = nft_id, rm_pool_id = pool_id,
                          rm_batch_id = batch_id, rm_order_bytes = order_bytes, rm_signature = signature\<rparr> g)
         else (v', g))"
| "inbound_step C (BatchComplete _ _ _ _ _ _ _ _ _ _) vg = vg"
| "inbound_step C (SettlementReport _ _ _ _ _ _) vg = vg"

definition process_inbound_gossip ::
  "crypto \<Rightarrow> gossip_message \<Rightarrow> inbound_validator \<times> node_orchestrator \<Rightarrow> inbound_validator \<times> node_orchestrator" where
  "process_inbound_gossip C msg s =
     (let (v, orch) = s; (v', g) = inbound_step C msg (v, or_gossip orch)
      in (v', orch\<lparr>or_gossip := g\<rparr>))"

text \<open>\<open>while let Ok(msg) = gossip_inbound_rx.try_recv()\<close>: every message that waits.\<close>

definition drain_inbound ::
  "crypto \<Rightarrow> gossip_message list \<Rightarrow> inbound_validator \<times> node_orchestrator \<Rightarrow> inbound_validator \<times> node_orchestrator" where
  "drain_inbound C msgs s = foldl (\<lambda>s m. process_inbound_gossip C m s) s msgs"

section \<open>At a batch boundary\<close>

definition retain_from :: "u64 \<Rightarrow> (u64, 'v) hmap \<Rightarrow> (u64, 'v) hmap" where
  "retain_from lower m = filter (\<lambda>(b, _). lower \<le> b) m"

definition gossip_maintenance ::
  "u64 \<Rightarrow> inbound_validator \<times> gossip_bridge \<Rightarrow> inbound_validator \<times> gossip_bridge" where
  "gossip_maintenance new_batch_id s =
     (let (v, g) = s; gc_lower = saturating_sub new_batch_id BATCH_WINDOW
      in (reset_stats (expire_old_batches (update_batch new_batch_id v)),
          g\<lparr>gb_inbound_commits := retain_from gc_lower (gb_inbound_commits g),
            gb_inbound_reveals := retain_from gc_lower (gb_inbound_reveals g)\<rparr>))"

text \<open>Fetching the key of one unknown NFT: the chain's answer and the answer of
  \<open>VerifyingKey::from_bytes\<close> are parameters.\<close>

record chain_view =
  cv_trustee_pubkey :: "u64 \<Rightarrow> string + bytes"
  cv_valid_key :: "bytes \<Rightarrow> bool"
  cv_is_active :: "u64 \<Rightarrow> bool option"

definition fetch_key :: "chain_view \<Rightarrow> u64 \<Rightarrow> inbound_validator \<Rightarrow> inbound_validator" where
  "fetch_key V nft_id v =
     (case cv_trustee_pubkey V nft_id of
        Inr key \<Rightarrow> if length key = 32 \<and> cv_valid_key V key then cache_pubkey nft_id key v else v
      | Inl _ \<Rightarrow> v\<lparr>iv_unknown_nfts := unknown_insert nft_id (iv_unknown_nfts v)\<rparr>)"

definition note_active :: "chain_view \<Rightarrow> nat \<Rightarrow> u64 \<Rightarrow> is_active_cache \<Rightarrow> is_active_cache" where
  "note_active V now nft_id cache =
     (case cv_is_active V nft_id of None \<Rightarrow> cache | Some active \<Rightarrow> cache_insert now nft_id active cache)"

definition fetch_unknown_keys ::
  "chain_view \<Rightarrow> nat \<Rightarrow> u64 \<Rightarrow> inbound_validator \<times> is_active_cache \<Rightarrow> inbound_validator \<times> is_active_cache" where
  "fetch_unknown_keys V now new_batch_id s =
     (let (v, cache) = s in
      if \<not> should_fetch_pubkeys v new_batch_id then (v, cache)
      else
       (let (v1, unknown) = take_unknown_nfts v;
            (v2, cache2) = foldl (\<lambda>(v, c) n. (fetch_key V n v, note_active V now n c)) (v1, cache) unknown
        in (v2\<lparr>iv_last_fetch := new_batch_id\<rparr>, cache2)))"

section \<open>Outbound messages and strategy events\<close>

datatype swarm_command =
    Publish u64 gossip_message
  | SubscribePool u64
  | UnsubscribePool u64

text \<open>The command channel holds at most \<open>capacity\<close> messages; \<open>try_send\<close> on a full channel is an error
  that is logged, and the message is lost.\<close>

definition try_send :: "nat \<Rightarrow> 'm \<Rightarrow> 'm list \<Rightarrow> 'm list" where
  "try_send capacity m channel = (if length channel < capacity then channel @ [m] else channel)"

definition flush_gossip :: "nat \<Rightarrow> gossip_bridge \<Rightarrow> swarm_command list \<Rightarrow> gossip_bridge \<times> swarm_command list" where
  "flush_gossip capacity g channel =
     (let channel1 = foldl (\<lambda>ch (pool_id, msg). try_send capacity (Publish pool_id msg) ch) channel
            (gb_pending_commits g);
          channel2 = foldl (\<lambda>ch (pool_id, msg). try_send capacity (Publish pool_id msg) ch) channel1
            (gb_pending_reveals g)
      in (g\<lparr>gb_pending_commits := [], gb_pending_reveals := []\<rparr>, channel2))"

definition drain_strategy_events :: "node_orchestrator \<Rightarrow> node_orchestrator \<times> strategy_event list" where
  "drain_strategy_events orch = (orch\<lparr>sent_events := []\<rparr>, sent_events orch)"

section \<open>What the validator lets through\<close>

text \<open>The messages stored for one NFT and one batch.\<close>

definition stored_of :: "gossip_bridge \<Rightarrow> u64 \<Rightarrow> u64 \<Rightarrow> nat" where
  "stored_of g nft_id b =
     length (filter (\<lambda>c. cm_nft_id c = nft_id) (bridge_received_commits g b)) +
     length (filter (\<lambda>r. rm_nft_id r = nft_id) (bridge_received_reveals g b))"

lemma hm_get_or_push: "hm_get_or [] (hm_push k x m) j = hm_get_or [] m j @ (if j = k then [x] else [])"
  by (simp add: hm_push_def hm_get_or_def)

lemma received_store [simp]:
  "bridge_received_commits (store_commit b c g) j = bridge_received_commits g j @ (if j = b then [c] else [])"
  "bridge_received_reveals (store_commit b c g) j = bridge_received_reveals g j"
  "bridge_received_reveals (store_reveal b r g) j = bridge_received_reveals g j @ (if j = b then [r] else [])"
  "bridge_received_commits (store_reveal b r g) j = bridge_received_commits g j"
  by (simp_all add: bridge_received_commits_def bridge_received_reveals_def store_commit_def store_reveal_def
      hm_get_or_push)

lemma stored_of_store:
  "stored_of (store_commit b c g) n j = stored_of g n j + (if j = b \<and> cm_nft_id c = n then 1 else 0)"
  "stored_of (store_reveal b r g) n j = stored_of g n j + (if j = b \<and> rm_nft_id r = n then 1 else 0)"
  by (auto simp: stored_of_def)

lemma hm_get_retain: "hm_get (retain_from lower m) b = (if lower \<le> b then hm_get m b else None)"
  by (induction m) (auto simp: retain_from_def)

text \<open>Accepting a message, seen from its effect on the counts.\<close>

lemma rate_limit_cases:
  assumes "check_rate_limit n b v = (v', ok)"
  shows "ok \<longleftrightarrow> msg_count v n b < MAX_MSGS_PER_NFT_PER_BATCH"
    and "msg_count v' n' b' = msg_count v n' b' + (if ok \<and> n' = n \<and> b' = b then 1 else 0)"
    and "iv_nft_pubkeys v' = iv_nft_pubkeys v" "iv_current_batch v' = iv_current_batch v"
    and "iv_seen_commits v' = iv_seen_commits v" "iv_seen_reveals v' = iv_seen_reveals v"
    and "iv_msg_counts v' (n, b) \<noteq> None"
  using assms by (auto simp: check_rate_limit_def Let_def msg_count_def not_le split: if_splits option.splits)

lemma msg_count_update [simp]:
  "msg_count (v\<lparr>iv_accepted := a\<rparr>) = msg_count v" "msg_count (v\<lparr>iv_rejected_bounds := a\<rparr>) = msg_count v"
  "msg_count (v\<lparr>iv_rejected_dedup := a\<rparr>) = msg_count v" "msg_count (v\<lparr>iv_rejected_sig := a\<rparr>) = msg_count v"
  "msg_count (v\<lparr>iv_unknown_nfts := us, iv_rejected_unknown := a\<rparr>) = msg_count v"
  "msg_count (v\<lparr>iv_unknown_nfts := us\<rparr>) = msg_count v"
  "msg_count (v\<lparr>iv_seen_reveals := s\<rparr>) = msg_count v"
  by (simp_all add: msg_count_def fun_eq_iff)

definition note_commit :: "bytes \<Rightarrow> inbound_validator \<Rightarrow> inbound_validator" where
  "note_commit h v = (if length h = 32 then v\<lparr>iv_seen_commits := insert h (iv_seen_commits v)\<rparr> else v)"

definition note_reveal :: "bytes \<Rightarrow> inbound_validator \<Rightarrow> inbound_validator" where
  "note_reveal h v = v\<lparr>iv_seen_reveals := insert h (iv_seen_reveals v)\<rparr>"

lemma note_simps [simp]:
  "msg_count (note_commit h v) = msg_count v" "msg_count (note_reveal h v) = msg_count v"
  "iv_nft_pubkeys (note_commit h v) = iv_nft_pubkeys v" "iv_nft_pubkeys (note_reveal h v) = iv_nft_pubkeys v"
  "iv_current_batch (note_commit h v) = iv_current_batch v"
  "iv_current_batch (note_reveal h v) = iv_current_batch v"
  by (simp_all add: note_commit_def note_reveal_def msg_count_def fun_eq_iff)

lemma accept_commit_eq:
  "accept_commit n b h v =
     (if \<not> batch_in_range v b then (v\<lparr>iv_rejected_bounds := iv_rejected_bounds v + 1\<rparr>, False)
      else if length h = 32 \<and> h \<in> iv_seen_commits v
      then ((note_commit h v)\<lparr>iv_rejected_dedup := iv_rejected_dedup v + 1\<rparr>, False)
      else (case check_rate_limit n b (note_commit h v) of
              (v2, ok) \<Rightarrow> if ok then (v2\<lparr>iv_accepted := iv_accepted v2 + 1\<rparr>, True) else (v2, False)))"
  by (simp add: accept_commit_def seen_insert_def Let_def note_commit_def split: prod.split)

lemma accept_reveal_eq:
  "accept_reveal C n b ob sig v =
     (if \<not> batch_in_range v b then (v\<lparr>iv_rejected_bounds := iv_rejected_bounds v + 1\<rparr>, False)
      else if sha256 C ob \<in> iv_seen_reveals v
      then ((note_reveal (sha256 C ob) v)\<lparr>iv_rejected_dedup := iv_rejected_dedup v + 1\<rparr>, False)
      else (case check_rate_limit n b (note_reveal (sha256 C ob) v) of
              (v2, ok) \<Rightarrow>
                if \<not> ok then (v2\<lparr>iv_seen_reveals := iv_seen_reveals v2 - {sha256 C ob}\<rparr>, False)
                else (case iv_nft_pubkeys v2 n of
                   Some k \<Rightarrow> if verify C k ob sig then (v2\<lparr>iv_accepted := iv_accepted v2 + 1\<rparr>, True)
                     else (give_back n b (sha256 C ob) (v2\<lparr>iv_rejected_sig := iv_rejected_sig v2 + 1\<rparr>), False)
                 | None \<Rightarrow> (give_back n b (sha256 C ob) (v2\<lparr>iv_unknown_nfts := unknown_insert n (iv_unknown_nfts v2),
                       iv_rejected_unknown := iv_rejected_unknown v2 + 1\<rparr>), False))))"
  by (simp add: accept_reveal_def seen_insert_def Let_def note_reveal_def split: prod.split option.split)

lemma accept_commit_cases:
  assumes "accept_commit n b h v = (v', ok)"
  obtains (rejected) "\<not> ok" "\<And>n' b'. msg_count v' n' b' = msg_count v n' b'"
      "iv_nft_pubkeys v' = iv_nft_pubkeys v" "iv_current_batch v' = iv_current_batch v"
  | (accepted) ok "batch_in_range v b" "length h = 32 \<longrightarrow> h \<notin> iv_seen_commits v"
      "msg_count v n b < MAX_MSGS_PER_NFT_PER_BATCH"
      "\<And>n' b'. msg_count v' n' b' = msg_count v n' b' + (if n' = n \<and> b' = b then 1 else 0)"
      "iv_nft_pubkeys v' = iv_nft_pubkeys v" "iv_current_batch v' = iv_current_batch v"
proof -
  obtain v2 ok2 where r: "check_rate_limit n b (note_commit h v) = (v2, ok2)"
    by (cases "check_rate_limit n b (note_commit h v)")
  note rl = rate_limit_cases [OF r]
  show ?thesis
  proof (cases "batch_in_range v b \<and> (length h = 32 \<longrightarrow> h \<notin> iv_seen_commits v) \<and> ok2")
    case True
    then show ?thesis
      using assms rl by (intro accepted) (auto simp: accept_commit_eq r split: if_splits)
  next
    case False
    then show ?thesis
      using assms rl by (intro rejected) (auto simp: accept_commit_eq r split: if_splits)
  qed
qed

lemma give_back_simps [simp]:
  "iv_nft_pubkeys (give_back n b h v) = iv_nft_pubkeys v"
  "iv_current_batch (give_back n b h v) = iv_current_batch v"
  "msg_count (give_back n b h v) n' b' =
     (if n' = n \<and> b' = b then saturating_sub (msg_count v n b) 1 else msg_count v n' b')"
  by (auto simp: give_back_def msg_count_def saturating_sub_def split: option.split)

lemma saturating_inc_dec: "(c :: u32) < MAX_MSGS_PER_NFT_PER_BATCH \<Longrightarrow> saturating_sub (c + 1) 1 = c"
proof -
  assume "c < MAX_MSGS_PER_NFT_PER_BATCH"
  then have "unat c < 10" by (simp add: MAX_MSGS_PER_NFT_PER_BATCH_def word_less_nat_alt)
  then have "unat (c + 1) = unat c + 1" by (simp add: unat_word_ariths)
  then have "\<not> c + 1 < 1" by (simp add: word_less_nat_alt)
  then show ?thesis by (simp add: saturating_sub_def)
qed

lemma accept_reveal_cases:
  assumes "accept_reveal C n b ob sig v = (v', ok)"
  obtains (rejected) "\<not> ok" "\<And>n' b'. msg_count v' n' b' = msg_count v n' b'"
      "iv_nft_pubkeys v' = iv_nft_pubkeys v" "iv_current_batch v' = iv_current_batch v"
  | (accepted) k where ok "batch_in_range v b" "sha256 C ob \<notin> iv_seen_reveals v"
      "msg_count v n b < MAX_MSGS_PER_NFT_PER_BATCH" "iv_nft_pubkeys v n = Some k" "verify C k ob sig"
      "\<And>n' b'. msg_count v' n' b' = msg_count v n' b' + (if n' = n \<and> b' = b then 1 else 0)"
      "iv_nft_pubkeys v' = iv_nft_pubkeys v" "iv_current_batch v' = iv_current_batch v"
proof -
  let ?h = "sha256 C ob"
  obtain v2 ok2 where r: "check_rate_limit n b (note_reveal ?h v) = (v2, ok2)"
    by (cases "check_rate_limit n b (note_reveal ?h v)")
  note rl = rate_limit_cases [OF r]
  consider (no) "\<not> batch_in_range v b \<or> ?h \<in> iv_seen_reveals v \<or> \<not> ok2"
    | (yes) k where "batch_in_range v b" "?h \<notin> iv_seen_reveals v" ok2 "iv_nft_pubkeys v n = Some k" "verify C k ob sig"
    | (bad) "batch_in_range v b" "?h \<notin> iv_seen_reveals v" ok2
        "\<not> (\<exists>k. iv_nft_pubkeys v n = Some k \<and> verify C k ob sig)" by blast
  then show ?thesis
  proof cases
    case no
    then show ?thesis
      using assms rl by (intro rejected) (auto simp: accept_reveal_eq r split: if_splits)
  next
    case (yes k)
    then show ?thesis
      using assms rl by (intro accepted [of k]) (auto simp: accept_reveal_eq r split: if_splits)
  next
    case bad
    then have "msg_count v n b < MAX_MSGS_PER_NFT_PER_BATCH" using rl by simp
    then show ?thesis
      using assms rl bad
      by (intro rejected) (auto simp: accept_reveal_eq r saturating_inc_dec split: if_splits option.splits)
  qed
qed

section \<open>The invariant of the inbound path\<close>

text \<open>The states the main loop reaches: \<open>H\<close> records every key that was ever cached.\<close>

inductive inbound_reach :: "crypto \<Rightarrow> (u64 \<times> bytes) set \<Rightarrow> inbound_validator \<times> gossip_bridge \<Rightarrow> bool" for C where
  ir_new: "inbound_reach C {} (iv_new b, gossip_bridge_new)"
| ir_message: "inbound_reach C H s \<Longrightarrow> inbound_reach C H (inbound_step C m s)"
| ir_boundary: "inbound_reach C H s \<Longrightarrow> inbound_reach C H (gossip_maintenance b s)"
| ir_key: "inbound_reach C H (v, g) \<Longrightarrow> inbound_reach C (insert (n, k) H) (cache_pubkey n k v, g)"
| ir_unknown: "inbound_reach C H (v, g) \<Longrightarrow>
    inbound_reach C H (v\<lparr>iv_unknown_nfts := us, iv_last_fetch := f\<rparr>, g)"
| ir_outbound: "inbound_reach C H (v, g) \<Longrightarrow>
    inbound_reach C H (v, g\<lparr>gb_pending_commits := cs, gb_pending_reveals := rs\<rparr>)"

definition reveal_signed :: "crypto \<Rightarrow> (u64 \<times> bytes) set \<Rightarrow> u64 \<Rightarrow> reveal_message \<Rightarrow> bool" where
  "reveal_signed C H b r \<longleftrightarrow> rm_batch_id r = b \<and>
     (\<exists>ord k. (rm_nft_id r, k) \<in> H \<and> verify C k (rm_order_bytes r) (rm_signature r) \<and>
        rm_order_bytes r = wire_order_bytes C ord \<and> o_nft_id ord = rm_nft_id r)"

definition inbound_inv :: "crypto \<Rightarrow> (u64 \<times> bytes) set \<Rightarrow> inbound_validator \<times> gossip_bridge \<Rightarrow> bool" where
  "inbound_inv C H s \<longleftrightarrow> (case s of (v, g) \<Rightarrow>
     (\<forall>n k. iv_nft_pubkeys v n = Some k \<longrightarrow> (n, k) \<in> H) \<and>
     (\<forall>b. \<forall>r \<in> set (bridge_received_reveals g b). reveal_signed C H b r) \<and>
     (\<forall>n b. stored_of g n b \<le> 10) \<and>
     (\<forall>n b. saturating_sub (iv_current_batch v) BATCH_WINDOW \<le> b \<longrightarrow> stored_of g n b \<le> unat (msg_count v n b)))"

lemma inbound_invI:
  assumes "\<And>n k. iv_nft_pubkeys v n = Some k \<Longrightarrow> (n, k) \<in> H"
    and "\<And>b r. r \<in> set (bridge_received_reveals g b) \<Longrightarrow> reveal_signed C H b r"
    and "\<And>n b. stored_of g n b \<le> 10"
    and "\<And>n b. saturating_sub (iv_current_batch v) BATCH_WINDOW \<le> b \<Longrightarrow> stored_of g n b \<le> unat (msg_count v n b)"
  shows "inbound_inv C H (v, g)"
  using assms by (simp add: inbound_inv_def)

lemma inbound_invD:
  assumes "inbound_inv C H (v, g)"
  shows "iv_nft_pubkeys v n = Some k \<Longrightarrow> (n, k) \<in> H"
    and "r \<in> set (bridge_received_reveals g b) \<Longrightarrow> reveal_signed C H b r"
    and "stored_of g n b \<le> 10"
    and "saturating_sub (iv_current_batch v) BATCH_WINDOW \<le> b \<Longrightarrow> stored_of g n b \<le> unat (msg_count v n b)"
  using assms by (auto simp: inbound_inv_def)

lemma reveal_signed_mono: "reveal_signed C H b r \<Longrightarrow> H \<subseteq> H' \<Longrightarrow> reveal_signed C H' b r"
  by (auto simp: reveal_signed_def)

lemma in_range_lower:
  "batch_in_range v b \<Longrightarrow> saturating_sub (iv_current_batch v) BATCH_WINDOW \<le> b"
  by (auto simp: batch_in_range_def saturating_sub_def BATCH_WINDOW_def split: if_splits)

text \<open>One more message of an NFT within its limit keeps both bounds.\<close>

lemma stored_bounds_step:
  assumes "inbound_inv C H (v, g)" "batch_in_range v b" "msg_count v n b < MAX_MSGS_PER_NFT_PER_BATCH"
    and "\<And>n' b'. msg_count v' n' b' = msg_count v n' b' + (if n' = n \<and> b' = b then 1 else 0)"
    and "iv_current_batch v' = iv_current_batch v"
    and "\<And>n' b'. stored_of g' n' b' = stored_of g n' b' + (if n' = n \<and> b' = b then 1 else 0)"
  shows "stored_of g' n' b' \<le> 10"
    and "saturating_sub (iv_current_batch v') BATCH_WINDOW \<le> b' \<Longrightarrow> stored_of g' n' b' \<le> unat (msg_count v' n' b')"
proof -
  have lt: "unat (msg_count v n b) < 10"
    using assms(3) by (simp add: MAX_MSGS_PER_NFT_PER_BATCH_def word_less_nat_alt)
  then have inc: "unat (msg_count v n b + 1) = unat (msg_count v n b) + 1"
    by (simp add: unat_word_ariths)
  have le: "stored_of g n b \<le> unat (msg_count v n b)"
    using inbound_invD(4) [OF assms(1)] in_range_lower [OF assms(2)] by blast
  show "stored_of g' n' b' \<le> 10"
    using le lt inbound_invD(3) [OF assms(1), of n' b'] by (auto simp: assms(6))
  show "stored_of g' n' b' \<le> unat (msg_count v' n' b')" if "saturating_sub (iv_current_batch v') BATCH_WINDOW \<le> b'"
    using le inc inbound_invD(4) [OF assms(1), of b' n'] that by (auto simp: assms(4-6))
qed

lemma inbound_inv_same:
  assumes "inbound_inv C H (v, g)" "\<And>n b. msg_count v' n b = msg_count v n b"
    "iv_nft_pubkeys v' = iv_nft_pubkeys v" "iv_current_batch v' = iv_current_batch v"
  shows "inbound_inv C H (v', g)"
  using assms by (simp add: inbound_inv_def)

lemma inbound_inv_commit:
  assumes "inbound_inv C H (v, g)"
  shows "inbound_inv C H (inbound_step C (Commitment b p h n sig) (v, g))"
proof -
  obtain v' ok where a: "accept_commit n b h v = (v', ok)" by (cases "accept_commit n b h v")
  then show ?thesis
  proof (cases rule: accept_commit_cases)
    case rejected
    then show ?thesis using assms a by (auto intro: inbound_inv_same)
  next
    case accepted
    note st = stored_bounds_step [OF assms accepted(2,4,5,7)]
    show ?thesis
      using accepted(1,6) a inbound_invD(1,2) [OF assms]
      by (auto intro!: inbound_invI intro: st simp: stored_of_store)
  qed
qed

lemma inbound_inv_reveal:
  assumes "inbound_inv C H (v, g)"
  shows "inbound_inv C H (inbound_step C (RevealOrder b p ord sig) (v, g))"
proof -
  let ?n = "o_nft_id ord" and ?ob = "wire_order_bytes C ord"
  obtain v' ok where a: "accept_reveal C ?n b ?ob sig v = (v', ok)"
    by (cases "accept_reveal C ?n b ?ob sig v")
  then show ?thesis
  proof (cases rule: accept_reveal_cases)
    case rejected
    then show ?thesis using assms a by (auto intro: inbound_inv_same)
  next
    case (accepted k)
    note st = stored_bounds_step [OF assms accepted(2,4,7,9)]
    have "reveal_signed C H b \<lparr>rm_nft_id = ?n, rm_pool_id = p, rm_batch_id = b, rm_order_bytes = ?ob, rm_signature = sig\<rparr>"
      using inbound_invD(1) [OF assms accepted(5)] accepted(6) by (auto simp: reveal_signed_def)
    then show ?thesis
      using accepted(1,8) a inbound_invD(1,2) [OF assms]
      by (auto intro!: inbound_invI intro: st simp: stored_of_store split: if_splits)
  qed
qed

lemma inbound_inv_message: "inbound_inv C H s \<Longrightarrow> inbound_inv C H (inbound_step C m s)"
  by (cases s; cases m) (simp_all del: inbound_step.simps(1,2) add: inbound_inv_commit inbound_inv_reveal)

lemma maintenance_received:
  "gossip_maintenance nb (v, g) = (v', g') \<Longrightarrow>
     bridge_received_commits g' b = (if saturating_sub nb BATCH_WINDOW \<le> b then bridge_received_commits g b else [])"
  "gossip_maintenance nb (v, g) = (v', g') \<Longrightarrow>
     bridge_received_reveals g' b = (if saturating_sub nb BATCH_WINDOW \<le> b then bridge_received_reveals g b else [])"
  by (auto simp: gossip_maintenance_def Let_def bridge_received_commits_def bridge_received_reveals_def
      hm_get_or_def hm_get_retain)

lemma maintenance_validator:
  assumes "gossip_maintenance nb (v, g) = (v', g')"
  shows "iv_nft_pubkeys v' = iv_nft_pubkeys v"
    and "iv_current_batch v' = (if iv_current_batch v < nb then nb else iv_current_batch v)"
    and "saturating_sub (iv_current_batch v') BATCH_WINDOW \<le> b \<Longrightarrow> msg_count v' n b = msg_count v n b"
  using assms
  by (auto simp: gossip_maintenance_def Let_def reset_stats_def expire_old_batches_def update_batch_def
      msg_count_def split: if_splits)

lemma saturating_sub_mono: "a \<le> b \<Longrightarrow> saturating_sub a c \<le> saturating_sub b (c :: u64)"
  by (simp add: word_le_nat_alt)

lemma inbound_inv_boundary:
  assumes "inbound_inv C H s"
  shows "inbound_inv C H (gossip_maintenance nb s)"
proof -
  obtain v g where s: "s = (v, g)" by (cases s)
  obtain v' g' where m: "gossip_maintenance nb (v, g) = (v', g')" by (cases "gossip_maintenance nb (v, g)")
  note inv = inbound_invD [OF assms [unfolded s]]
  have le: "stored_of g' n b \<le> stored_of g n b" for n b
    by (simp add: stored_of_def maintenance_received [OF m])
  show ?thesis unfolding s m
  proof (rule inbound_invI)
    show "(n, k) \<in> H" if "iv_nft_pubkeys v' n = Some k" for n k
      using that inv(1) by (simp add: maintenance_validator [OF m])
    show "reveal_signed C H b r" if "r \<in> set (bridge_received_reveals g' b)" for b r
      using that inv(2) by (auto simp: maintenance_received [OF m] split: if_splits)
    show "stored_of g' n b \<le> 10" for n b using le [of n b] inv(3) [of n b] by linarith
    show "stored_of g' n b \<le> unat (msg_count v' n b)"
      if low: "saturating_sub (iv_current_batch v') BATCH_WINDOW \<le> b" for n b
    proof -
      have "iv_current_batch v \<le> iv_current_batch v'" by (auto simp: maintenance_validator(2) [OF m])
      then have "saturating_sub (iv_current_batch v) BATCH_WINDOW \<le> b"
        using saturating_sub_mono low by (meson order_trans)
      then show ?thesis
        using inv(4) [of b n] le [of n b] maintenance_validator(3) [OF m low] by (metis le_trans)
    qed
  qed
qed

lemma inbound_reach_inv: "inbound_reach C H s \<Longrightarrow> inbound_inv C H s"
proof (induction rule: inbound_reach.induct)
  case (ir_new b)
  then show ?case
    by (simp add: inbound_inv_def iv_new_def gossip_bridge_new_def stored_of_def bridge_received_commits_def
        bridge_received_reveals_def hm_get_or_def)
next
  case (ir_key H v g n k)
  have "reveal_signed C (insert (n, k) H) b r" if "r \<in> set (bridge_received_reveals g b)" for b r
    using reveal_signed_mono [OF inbound_invD(2) [OF ir_key.IH that], of "insert (n, k) H"] by blast
  then show ?case
    using ir_key.IH
    by (intro inbound_invI) (auto simp: inbound_inv_def cache_pubkey_def msg_count_def split: if_splits)
next
  case (ir_outbound H v g cs rs)
  then show ?case
    by (simp add: inbound_inv_def stored_of_def bridge_received_commits_def bridge_received_reveals_def)
next
  case (ir_unknown H v g us f)
  then show ?case by (simp add: inbound_inv_def msg_count_def)
qed (auto intro: inbound_inv_message inbound_inv_boundary)

section \<open>Commitments are not authenticated\<close>

text \<open>The commitments an outsider can send for one NFT and one batch: hashes of its choice, any
  signature.\<close>

definition forged :: "u64 \<Rightarrow> u64 \<Rightarrow> u64 \<Rightarrow> (bytes \<times> bytes) list \<Rightarrow> gossip_message list" where
  "forged b p n hs = map (\<lambda>(h, sig). Commitment b p h n sig) hs"

lemma accept_commit_fresh:
  assumes "batch_in_range v b" "length h = 32" "h \<notin> iv_seen_commits v"
  shows "msg_count (fst (accept_commit n b h v)) n b =
      (if msg_count v n b < MAX_MSGS_PER_NFT_PER_BATCH then msg_count v n b + 1 else msg_count v n b)"
    and "iv_seen_commits (fst (accept_commit n b h v)) = insert h (iv_seen_commits v)"
    and "iv_current_batch (fst (accept_commit n b h v)) = iv_current_batch v"
proof -
  obtain v2 ok where r: "check_rate_limit n b (note_commit h v) = (v2, ok)"
    by (cases "check_rate_limit n b (note_commit h v)")
  note rl = rate_limit_cases [OF r]
  show "msg_count (fst (accept_commit n b h v)) n b =
      (if msg_count v n b < MAX_MSGS_PER_NFT_PER_BATCH then msg_count v n b + 1 else msg_count v n b)"
    "iv_current_batch (fst (accept_commit n b h v)) = iv_current_batch v"
    using assms rl by (auto simp: accept_commit_eq r)
  show "iv_seen_commits (fst (accept_commit n b h v)) = insert h (iv_seen_commits v)"
    using assms rl(5) by (simp add: accept_commit_eq r) (simp add: note_commit_def)
qed

lemma inbound_step_commit_fst: "fst (inbound_step C (Commitment b p h n sig) (v, g)) = fst (accept_commit n b h v)"
  by (simp split: prod.split)

lemma forged_exhaust:
  fixes C :: crypto and g :: gossip_bridge and p n :: u64
  assumes "batch_in_range v b" "distinct (map fst hs)" "\<forall>h \<in> set (map fst hs). length h = 32 \<and> h \<notin> iv_seen_commits v"
  defines "w \<equiv> fst (foldl (\<lambda>s m. inbound_step C m s) (v, g) (forged b p n hs))"
  shows "min 10 (unat (msg_count v n b) + length hs) \<le> unat (msg_count w n b)"
  using assms(1-3) unfolding w_def
proof (induction hs arbitrary: v g)
  case Nil
  then show ?case by (simp add: forged_def)
next
  case (Cons hsig hs)
  obtain h sig where hs: "hsig = (h, sig)" by (cases hsig)
  obtain v1 g1 where st: "inbound_step C (Commitment b p h n sig) (v, g) = (v1, g1)"
    by (cases "inbound_step C (Commitment b p h n sig) (v, g)")
  then have v1: "v1 = fst (accept_commit n b h v)"
    using inbound_step_commit_fst [of C b p h n sig v g] by simp
  have h: "length h = 32" "h \<notin> iv_seen_commits v" using Cons.prems by (simp_all add: hs)
  note f = accept_commit_fresh [OF Cons.prems(1) h, of n, folded v1]
  have c1: "min 10 (Suc (unat (msg_count v n b))) \<le> unat (msg_count v1 n b)"
    by (auto simp: f MAX_MSGS_PER_NFT_PER_BATCH_def word_less_nat_alt unat_word_ariths not_less)
  have "min 10 (unat (msg_count v1 n b) + length hs)
      \<le> unat (msg_count (fst (foldl (\<lambda>s m. inbound_step C m s) (v1, g1) (forged b p n hs))) n b)"
  proof (rule Cons.IH)
    show "batch_in_range v1 b" using Cons.prems(1) by (simp add: batch_in_range_def f(3))
    show "distinct (map fst hs)" using Cons.prems(2) by simp
    show "\<forall>h\<in>set (map fst hs). length h = 32 \<and> h \<notin> iv_seen_commits v1"
      using Cons.prems(2,3) by (auto simp: f(2) hs)
  qed
  then have "min 10 (unat (msg_count v n b) + length (hsig # hs))
      \<le> unat (msg_count (fst (foldl (\<lambda>s m. inbound_step C m s) (v1, g1) (forged b p n hs))) n b)"
    using c1 by (simp add: min_le_iff_disj) linarith
  then show ?case by (simp only: forged_def hs list.map prod.case foldl.simps st)
qed

lemma exhausted_reveal:
  assumes "MAX_MSGS_PER_NFT_PER_BATCH \<le> msg_count v n b" "o_nft_id ord = n"
  shows "snd (inbound_step C (RevealOrder b p ord sig) (v, g)) = g"
proof -
  obtain v' ok where a: "accept_reveal C n b (wire_order_bytes C ord) sig v = (v', ok)"
    by (cases "accept_reveal C n b (wire_order_bytes C ord) sig v")
  then have "\<not> ok" using assms(1) by (cases rule: accept_reveal_cases) auto
  then show ?thesis using a assms(2) by simp
qed

section \<open>Properties\<close>

text \<open>
  C2. Inbound gossip is signed and bounded: in every state the main loop reaches, each reveal stored
  for a batch carries that batch, is the encoding of an order of the NFT it is stored for and
  verifies under a key that was cached for that NFT, and no NFT has more than ten messages stored
  for one batch, however the batches advance and whatever peers send.
\<close>

theorem stored_reveals_signed:
  assumes "inbound_reach C H (v, g)"
  shows "(\<forall>b. \<forall>r \<in> set (bridge_received_reveals g b). rm_batch_id r = b \<and>
            (\<exists>ord k. (rm_nft_id r, k) \<in> H \<and> verify C k (rm_order_bytes r) (rm_signature r) \<and>
               rm_order_bytes r = wire_order_bytes C ord \<and> o_nft_id ord = rm_nft_id r)) \<and>
         (\<forall>n b. length (filter (\<lambda>c. cm_nft_id c = n) (bridge_received_commits g b)) +
                length (filter (\<lambda>r. rm_nft_id r = n) (bridge_received_reveals g b)) \<le> 10)"
  using inbound_invD(2,3) [OF inbound_reach_inv [OF assms]] by (simp add: reveal_signed_def stored_of_def)

lemma stored_reveals_signed_witness:
  "\<exists>v g. inbound_reach example_crypto {(7, [1])} (v, g) \<and> length (bridge_received_reveals g 100) = 1 \<and>
     (\<forall>r \<in> set (bridge_received_reveals g 100). rm_batch_id r = 100)"
proof -
  let ?ord = "r_order (example_reveal 7 1 50 10 3)"
  let ?s = "inbound_step example_crypto (RevealOrder 100 2 ?ord (replicate 64 0))
      (cache_pubkey 7 [1] (iv_new 100), gossip_bridge_new)"
  have r: "inbound_reach example_crypto {(7, [1])} ?s"
    by (rule ir_message) (rule ir_key [OF ir_new])
  have l: "length (bridge_received_reveals (snd ?s) 100) = 1"
    by (simp add: example_reveal_def accept_reveal_eq batch_in_range_def iv_new_def cache_pubkey_def
        check_rate_limit_def note_reveal_def msg_count_def MAX_MSGS_PER_NFT_PER_BATCH_def Let_def
        saturating_sub_def saturating_add_def BATCH_WINDOW_def verify_def example_crypto_def
        gossip_bridge_new_def bridge_received_reveals_def hm_get_or_def store_reveal_def hm_push_def)
  obtain v g where vg: "?s = (v, g)" by (cases ?s)
  then show ?thesis
    using stored_reveals_signed [of example_crypto "{(7, [1])}" v g] r l by auto
qed

text \<open>
  C37. Commitments are not authenticated, and they use up the allowance of the NFT they name: ten
  commitments with new hashes, sent by anyone with any signature, and every reveal of that NFT for that
  batch is dropped afterwards, the honest and correctly signed ones too.
\<close>

theorem forged_commits_silence_nft:
  assumes "batch_in_range v b" "10 \<le> length hs" "distinct (map fst hs)"
    and "\<forall>h \<in> set (map fst hs). length h = 32 \<and> h \<notin> iv_seen_commits v" "o_nft_id ord = n"
    and "foldl (\<lambda>s m. inbound_step C m s) (v, g) (forged b p n hs) = (v', g')"
  shows "snd (inbound_step C (RevealOrder b p ord sig) (v', g')) = g'"
proof (rule exhausted_reveal [OF _ assms(5)])
  have "min 10 (unat (msg_count v n b) + length hs) \<le> unat (msg_count v' n b)"
    using forged_exhaust [OF assms(1,3,4), of n C g p] assms(6) by simp
  then show "MAX_MSGS_PER_NFT_PER_BATCH \<le> msg_count v' n b"
    using assms(2) by (simp add: MAX_MSGS_PER_NFT_PER_BATCH_def word_le_nat_alt)
qed

lemma forged_commits_silence_nft_witness:
  "let s = foldl (\<lambda>s m. inbound_step example_crypto m s) (iv_new 100, gossip_bridge_new)
             (forged 100 2 7 (map (\<lambda>i. (replicate 32 (word_of_nat i), [])) [0..<10]))
   in snd (inbound_step example_crypto
        (RevealOrder 100 2 (r_order (example_reveal 7 1 50 10 3)) (replicate 64 0)) s) = snd s"
proof -
  let ?hs = "map (\<lambda>i. (replicate 32 (word_of_nat i), [])) [0..<10] :: (bytes \<times> bytes) list"
  obtain v' g' where s: "foldl (\<lambda>s m. inbound_step example_crypto m s) (iv_new 100, gossip_bridge_new)
      (forged 100 2 7 ?hs) = (v', g')"
    by (cases "foldl (\<lambda>s m. inbound_step example_crypto m s) (iv_new 100, gossip_bridge_new) (forged 100 2 7 ?hs)")
  have "snd (inbound_step example_crypto
      (RevealOrder 100 2 (r_order (example_reveal 7 1 50 10 3)) (replicate 64 0)) (v', g')) = g'"
  proof (rule forged_commits_silence_nft [OF _ _ _ _ _ s])
    show "batch_in_range (iv_new 100) 100"
      by (simp add: batch_in_range_def iv_new_def saturating_sub_def saturating_add_def BATCH_WINDOW_def)
    show "distinct (map fst ?hs)" by (simp add: upt_rec)
  qed (simp_all add: iv_new_def msg_count_def MAX_MSGS_PER_NFT_PER_BATCH_def example_reveal_def)
  then show ?thesis by (simp add: s)
qed

end
