(* ===== verification/Agreement.thy ===== *)
theory Agreement
  imports InboundGossip
begin

text \<open>
  The phases of a batch put together: a node that commits, reveals and matches, when two nodes of a
  pool compute the same matches, and what a withheld reveal does to that agreement.
\<close>

section \<open>The orders a node matches\<close>

lemma map_panics_Some:
  "map_panics f xs = Some ys \<longleftrightarrow> (\<forall>x \<in> set xs. f x \<noteq> None) \<and> ys = map (\<lambda>x. the (f x)) xs"
  by (induction xs arbitrary: ys) (auto split: option.splits)

lemma map_filter_id_mset:
  "mset (List.map_filter id (map f xs)) = image_mset the (filter_mset (\<lambda>y. y \<noteq> None) (image_mset f (mset xs)))"
  by (induction xs) (auto simp: List.map_filter_simps split: option.split)

text \<open>The revealed orders depend on the payloads only as a multiset.\<close>

lemma collect_revealed_perm:
  assumes "collect_revealed C xs = Some rs" "mset xs = mset ys"
  shows "\<exists>rs'. collect_revealed C ys = Some rs' \<and> mset rs' = mset rs"
proof -
  let ?f = "\<lambda>(b, s). revealed_from C b s"
  have s: "set xs = set ys" using assms(2) by (rule mset_eq_setD)
  have "\<forall>x \<in> set xs. ?f x \<noteq> None" and rs: "rs = List.map_filter id (map (\<lambda>x. the (?f x)) xs)"
    using assms(1) by (auto simp: collect_revealed_def map_panics_Some)
  then have "collect_revealed C ys = Some (List.map_filter id (map (\<lambda>x. the (?f x)) ys))"
    by (auto simp: collect_revealed_def map_panics_Some s)
  moreover have "mset (List.map_filter id (map (\<lambda>x. the (?f x)) ys)) = mset rs"
    by (simp add: rs map_filter_id_mset assms(2))
  ultimately show ?thesis by blast
qed

definition payloads_of :: "'g gossip_port \<Rightarrow> u64 \<Rightarrow> ('g, 'b) orchestrator \<Rightarrow> (bytes \<times> bytes) list" where
  "payloads_of P b orch = own_payloads (committed_orders orch) @ peer_payloads (gp_received_reveals P (or_gossip orch) b)"

lemma on_match_phase_eq:
  assumes "bp_current_batch_id Q (or_batch_state orch) = Some b"
    and "bp_current_pool_id Q (or_batch_state orch) (or_node_nft_id orch) = Some p"
    and "collect_revealed C (payloads_of P b orch) = Some rs"
  shows "\<exists>orch'. on_match_phase C P Q orch = Some (orch', length (current_matches orch')) \<and>
    current_matches orch' = run_matching C \<lparr>mi_batch_id = b, mi_pool_id = p, mi_reveals = rs,
      mi_markets = market_configs orch\<rparr> \<and>
    committed_orders orch' = committed_orders orch \<and> or_gossip orch' = or_gossip orch"
proof (cases "rs = []")
  case True
  then show ?thesis using assms by (simp add: on_match_phase_def payloads_of_def engine.run_no_reveals)
next
  case False
  then show ?thesis using assms by (simp add: on_match_phase_def payloads_of_def Let_def)
qed

section \<open>Two nodes\<close>

lemma match_phase_same:
  assumes "bp_current_batch_id Q (or_batch_state x) = Some b" "bp_current_batch_id Q (or_batch_state y) = Some b"
    and "bp_current_pool_id Q (or_batch_state x) (or_node_nft_id x) = Some p"
    and "bp_current_pool_id Q (or_batch_state y) (or_node_nft_id y) = Some p"
    and "mset (payloads_of P b x) = mset (payloads_of P b y)"
    and "collect_revealed C (payloads_of P b x) = Some rs" "inj_on r_order_hash (set rs)"
    and "distinct (map mc_symbol (market_configs x))" "mset (market_configs x) = mset (market_configs y)"
  shows "\<exists>x' y' n. on_match_phase C P Q x = Some (x', n) \<and> on_match_phase C P Q y = Some (y', n) \<and>
    current_matches x' = current_matches y'"
proof -
  obtain rs' where rs': "collect_revealed C (payloads_of P b y) = Some rs'" "mset rs' = mset rs"
    using collect_revealed_perm [OF assms(6,5)] by blast
  obtain x' where x': "on_match_phase C P Q x = Some (x', length (current_matches x'))"
    "current_matches x' = run_matching C \<lparr>mi_batch_id = b, mi_pool_id = p, mi_reveals = rs, mi_markets = market_configs x\<rparr>"
    using on_match_phase_eq [OF assms(1,3,6)] by blast
  obtain y' where y': "on_match_phase C P Q y = Some (y', length (current_matches y'))"
    "current_matches y' = run_matching C \<lparr>mi_batch_id = b, mi_pool_id = p, mi_reveals = rs', mi_markets = market_configs y\<rparr>"
    using on_match_phase_eq [OF assms(2,4) rs'(1)] by blast
  have "current_matches x' = current_matches y'" unfolding x'(2) y'(2)
    by (rule engine.run_perm) (use assms(7-9) rs'(2) in simp_all)
  then show ?thesis using x'(1) y'(1) by auto
qed

text \<open>Every other node's reveals, in a node's view of the pool.\<close>

definition others :: "nat \<Rightarrow> 'a list \<Rightarrow> 'a list" where
  "others k xs = take k xs @ drop (Suc k) xs"

lemma mset_others: "k < length xs \<Longrightarrow> add_mset (xs ! k) (mset (others k xs)) = mset xs"
  by (simp add: others_def) (metis id_take_nth_drop mset.simps(2) mset_append union_mset_add_mset_right)

lemma mset_concat_others:
  "k < length xs \<Longrightarrow> mset (f (xs ! k)) + mset (concat (map f (others k xs))) = mset (concat (map f xs))"
proof -
  assume "k < length xs"
  then have "mset (map f xs) = add_mset (f (xs ! k)) (mset (map f (others k xs)))"
    using mset_others [of k xs] by (metis image_mset_add_mset mset_map)
  then have "sum_mset (image_mset mset (mset (map f xs)))
      = mset (f (xs ! k)) + sum_mset (image_mset mset (mset (map f (others k xs))))"
    by simp
  then show ?thesis by (simp add: mset_concat flip: sum_mset_sum_list mset_map)
qed

section \<open>The nodes of a pool\<close>

text \<open>A batch as the protocol intends it: every node revealed all its committed orders, and every node
  received the reveals of all the others.\<close>

definition full_reveal :: "('g, 'b) orchestrator \<Rightarrow> bool" where
  "full_reveal x = (peer_payloads (published_reveals x) = own_payloads (committed_orders x))"

definition reveals_delivered :: "'g gossip_port \<Rightarrow> u64 \<Rightarrow> ('g, 'b) orchestrator list \<Rightarrow> bool" where
  "reveals_delivered P b ns = (\<forall>k < length ns.
     mset (gp_received_reveals P (or_gossip (ns ! k)) b) = mset (concat (map published_reveals (others k ns))))"

lemma peer_payloads_concat: "peer_payloads (concat rss) = concat (map peer_payloads rss)"
  by (simp add: peer_payloads_def [abs_def] map_concat)

lemma mset_peer_payloads: "mset rs = mset rs' \<Longrightarrow> mset (peer_payloads rs) = mset (peer_payloads rs')"
  by (simp add: peer_payloads_def)

lemma set_others: "x \<in> set (others k xs) \<Longrightarrow> x \<in> set xs"
  by (auto simp: others_def dest: in_set_takeD in_set_dropD)

lemma payloads_full:
  assumes "k < length ns" "\<forall>x \<in> set ns. full_reveal x" "reveals_delivered P b ns"
  shows "mset (payloads_of P b (ns ! k)) = mset (concat (map (\<lambda>x. own_payloads (committed_orders x)) ns))"
proof -
  let ?own = "\<lambda>x. own_payloads (committed_orders x)"
  have "mset (peer_payloads (gp_received_reveals P (or_gossip (ns ! k)) b))
      = mset (concat (map (\<lambda>x. peer_payloads (published_reveals x)) (others k ns)))"
    using mset_peer_payloads [of "gp_received_reveals P (or_gossip (ns ! k)) b"] assms(1,3)
    by (simp add: reveals_delivered_def peer_payloads_concat comp_def)
  also have "map (\<lambda>x. peer_payloads (published_reveals x)) (others k ns) = map ?own (others k ns)"
    using assms(2) by (auto simp: full_reveal_def dest: set_others)
  finally show ?thesis
    using mset_concat_others [OF assms(1), of ?own] by (simp add: payloads_of_def)
qed

text \<open>A node that commits and then reveals: what it published.\<close>

lemma commit_then_reveal:
  assumes "bridge_current_pool_id C (or_batch_state orch) (or_node_nft_id orch) = Some p" "published_reveals orch = []"
  shows "\<exists>o1 o2. on_commit_phase (bridge_gossip C) (bridge_batch C) True (Some ords)
        (orch\<lparr>published_commits := [], committed_orders := []\<rparr>) = Some (o1, length ords) \<and>
      on_reveal_phase (bridge_gossip C) (bridge_batch C) (length (published_commits o1)) reply o1
        = Some (o2, length (reveal_indices (length ords) reply)) \<and>
      length (published_commits o1) = length ords \<and> committed_orders o2 = ords \<and>
      map cm_commit_hash (published_commits o2) = map vo_commit_hash ords \<and>
      map (\<lambda>r. (rm_order_bytes r, rm_signature r)) (published_reveals o2)
        = map (reveal_payload ords) (reveal_indices (length ords) reply) \<and>
      or_batch_state o2 = or_batch_state orch \<and> or_node_nft_id o2 = or_node_nft_id orch \<and>
      market_configs o2 = market_configs orch \<and>
      (\<forall>r \<in> set (published_reveals o2). Some (rm_batch_id r) = bridge_current_batch_id (or_batch_state orch)) \<and>
      (\<forall>j. bridge_received_reveals (or_gossip o2) j = bridge_received_reveals (or_gossip orch) j)"
proof -
  let ?o0 = "orch\<lparr>published_commits := [], committed_orders := []\<rparr>"
  obtain b where b: "bridge_current_batch_id (or_batch_state orch) = Some b"
    using assms(1) by (auto simp: bridge_current_pool_id_def bind_eq_Some_conv)
  obtain o1 n1 where f: "foldl (\<lambda>s ord. publish_order (bridge_gossip C) b p ord s) (?o0, 0) ords = (o1, n1)"
    by (cases "foldl (\<lambda>s ord. publish_order (bridge_gossip C) b p ord s) (?o0, 0) ords")
  note e1 = bridge.publish_orders_effect [OF f]
  let ?is = "reveal_indices (length ords) reply"
  obtain o2 n2 where g: "foldl (\<lambda>s idx. publish_index (bridge_gossip C) b p idx s) (o1, 0) ?is = (o2, n2)"
    by (cases "foldl (\<lambda>s idx. publish_index (bridge_gossip C) b p idx s) (o1, 0) ?is")
  note e2 = bridge.publish_indices_effect [OF g]
  have recv: "bridge_received_reveals (or_gossip o2) j = bridge_received_reveals (or_gossip orch) j" for j
    using e1 [of j] e2 [of j] by (simp add: bridge_gossip_def)
  have "on_commit_phase (bridge_gossip C) (bridge_batch C) True (Some ords) ?o0 = Some (o1, length ords)"
    using assms(1) b f e1 by (simp add: on_commit_phase_def bridge_batch_def)
  moreover have "on_reveal_phase (bridge_gossip C) (bridge_batch C) (length (published_commits o1)) reply o1
      = Some (o2, length ?is)"
    using assms(1) b g e1 e2 by (simp add: on_reveal_phase_def bridge_batch_def)
  ultimately show ?thesis
    using e1 e2 assms(2) recv b by (intro exI [of _ o1] exI [of _ o2]) (auto simp: comp_def)
qed

section \<open>A codec to evaluate examples with\<close>

fun wire_symbol :: "bytes \<Rightarrow> bytes" where
  "wire_symbol [] = [0]"
| "wire_symbol (x # xs) = 1 # x # wire_symbol xs"

fun read_symbol :: "bytes \<Rightarrow> bytes \<times> bytes" where
  "read_symbol (t # x # r) = (if t = 0 then ([], x # r) else (let (s, r') = read_symbol r in (x # s, r')))"
| "read_symbol [t] = ([], [])"
| "read_symbol [] = ([], [])"

definition wire_order :: "order \<Rightarrow> bytes" where
  "wire_order x = le64 (o_nft_id x) @ [o_side x] @ le64 (o_price x) @ le64 (o_quantity x)
     @ le64 (o_batch_id x) @ wire_symbol (o_symbol x) @ o_nonce x"

definition wire_read :: "bytes \<Rightarrow> order option" where
  "wire_read b =
     (if length b < 33 then None
      else (let (s, n) = read_symbol (drop 33 b)
            in Some \<lparr>o_nft_id = from_le64 (take 8 b), o_symbol = s, o_side = b ! 8,
                 o_price = from_le64 (take 8 (drop 9 b)), o_quantity = from_le64 (take 8 (drop 17 b)),
                 o_batch_id = from_le64 (take 8 (drop 25 b)), o_nonce = n\<rparr>))"

definition wire_crypto :: crypto where
  "wire_crypto = example_crypto\<lparr>bcs_order := (\<lambda>x. Inr (wire_order x)), bcs_read_order := wire_read\<rparr>"

lemma read_wire_symbol: "read_symbol (wire_symbol s @ r) = (s, r)"
  by (induction s) (auto simp: neq_Nil_conv split: list.split, cases r, auto)

lemma wire_read_order [simp]: "wire_read (wire_order x) = Some x"
  by (simp add: wire_read_def wire_order_def nth_append read_wire_symbol)

section \<open>Example nodes\<close>

definition example_signed :: "revealed_order \<Rightarrow> validated_order" where
  "example_signed r = \<lparr>vo_commit_hash = [], vo_order_bytes = wire_order (r_order r), vo_signature = replicate 64 0\<rparr>"

definition example_node :: "u64 \<Rightarrow> node_orchestrator" where
  "example_node nft = (orchestrator_new gossip_bridge_new (batch_bridge_new example_epoch example_params 1 nft) nft 3)
     \<lparr>market_configs := [\<lparr>mc_symbol = [69, 47, 75], mc_min_quantity = 1\<rparr>]\<rparr>"

definition deliver :: "reveal_message list \<Rightarrow> node_orchestrator \<Rightarrow> node_orchestrator" where
  "deliver rs x = x\<lparr>or_gossip := foldl (\<lambda>g r. store_reveal (rm_batch_id r) r g) (or_gossip x) rs\<rparr>"

definition example_order_reveal :: "revealed_order \<Rightarrow> revealed_order" where
  "example_order_reveal r = \<lparr>r_order = r_order r, r_signature = replicate 64 0,
     r_order_hash = take 32 (wire_order (r_order r) @ replicate 32 0)\<rparr>"

lemma example_clock:
  "bridge_current_batch_id (or_batch_state (example_node n)) = Some (anchor_batch_id example_epoch)"
  "bridge_current_pool_id C (or_batch_state (example_node n)) m = Some 0"
  by (simp_all add: example_node_def orchestrator_new_def batch_bridge_new_def bridge_current_batch_id_def
      bridge_current_pool_id_def compute_batch_id_def compute_pool_assignment_def example_epoch_def
      example_params_def checked_div_def checked_rem_def Let_def)

lemma received_deliver:
  "bridge_received_reveals (or_gossip (deliver rs x)) b
    = bridge_received_reveals (or_gossip x) b @ filter (\<lambda>r. rm_batch_id r = b) rs"
proof -
  have "bridge_received_reveals (foldl (\<lambda>g r. store_reveal (rm_batch_id r) r g) g rs) b
      = bridge_received_reveals g b @ filter (\<lambda>r. rm_batch_id r = b) rs" for g
    by (induction rs arbitrary: g) auto
  then show ?thesis by (simp add: deliver_def)
qed

abbreviation ex_gossip :: "gossip_bridge gossip_port" where "ex_gossip \<equiv> bridge_gossip wire_crypto"
abbreviation ex_batch :: "batch_state_bridge batch_port" where "ex_batch \<equiv> bridge_batch wire_crypto"

definition ex_buy :: revealed_order where "ex_buy = example_order_reveal (example_reveal 1 1 50 10 7)"
definition ex_sell :: revealed_order where "ex_sell = example_order_reveal (example_reveal 2 0 48 4 9)"

definition ex_published :: "revealed_order \<Rightarrow> u64 \<Rightarrow> u32 list option \<Rightarrow> node_orchestrator \<Rightarrow> bool" where
  "ex_published r n reply x \<longleftrightarrow> committed_orders x = [example_signed r] \<and>
     peer_payloads (published_reveals x) = map (reveal_payload [example_signed r]) (reveal_indices 1 reply) \<and>
     or_batch_state x = or_batch_state (example_node n) \<and> or_node_nft_id x = n \<and>
     market_configs x = [\<lparr>mc_symbol = [69, 47, 75], mc_min_quantity = 1\<rparr>] \<and>
     (\<forall>r \<in> set (published_reveals x). rm_batch_id r = anchor_batch_id example_epoch) \<and>
     bridge_received_reveals (or_gossip x) (anchor_batch_id example_epoch) = []"

lemma ex_round:
  "\<exists>o1 o2. on_commit_phase ex_gossip ex_batch True (Some [example_signed r]) (example_node n) = Some (o1, 1) \<and>
     on_reveal_phase ex_gossip ex_batch 1 reply o1 = Some (o2, length (reveal_indices 1 reply)) \<and>
     ex_published r n reply o2"
proof -
  have n: "(example_node n)\<lparr>published_commits := [], committed_orders := []\<rparr> = example_node n"
    "published_reveals (example_node n) = []" "or_node_nft_id (example_node n) = n"
    "market_configs (example_node n) = [\<lparr>mc_symbol = [69, 47, 75], mc_min_quantity = 1\<rparr>]"
    "bridge_received_reveals (or_gossip (example_node n)) j = []" for j
    by (simp_all add: example_node_def orchestrator_new_def gossip_bridge_new_def bridge_received_reveals_def hm_get_or_def)
  obtain o1 o2 where o: "on_commit_phase ex_gossip ex_batch True (Some [example_signed r]) (example_node n) = Some (o1, 1)"
      "on_reveal_phase ex_gossip ex_batch (length (published_commits o1)) reply o1 = Some (o2, length (reveal_indices 1 reply))"
      "length (published_commits o1) = 1" "committed_orders o2 = [example_signed r]"
      "map (\<lambda>r. (rm_order_bytes r, rm_signature r)) (published_reveals o2)
        = map (reveal_payload [example_signed r]) (reveal_indices 1 reply)"
      "or_batch_state o2 = or_batch_state (example_node n)" "or_node_nft_id o2 = or_node_nft_id (example_node n)"
      "market_configs o2 = market_configs (example_node n)"
      "\<forall>r \<in> set (published_reveals o2). Some (rm_batch_id r) = bridge_current_batch_id (or_batch_state (example_node n))"
      "\<forall>j. bridge_received_reveals (or_gossip o2) j = bridge_received_reveals (or_gossip (example_node n)) j"
    using commit_then_reveal [OF example_clock(2) n(2), where ords = "[example_signed r]" and reply = reply and C = wire_crypto]
    unfolding n(1) by auto
  show ?thesis
    by (intro exI [of _ o1] exI [of _ o2])
      (use o in \<open>simp add: ex_published_def example_clock n peer_payloads_def\<close>)
qed

lemma ex_revealed:
  "revealed_from wire_crypto (wire_order (r_order r)) (replicate 64 0) = Some (Some (example_order_reveal r))"
  by (simp add: revealed_from_def wire_crypto_def order_hash_def encode_order_def example_crypto_def
      example_order_reveal_def min_def)

lemma ex_collect:
  "collect_revealed wire_crypto (map (\<lambda>r. (wire_order (r_order r), replicate 64 0)) rs)
    = Some (map example_order_reveal rs)"
  by (induction rs) (auto simp: collect_revealed_def ex_revealed List.map_filter_simps)

lemma length_reveal_none: "length (reveal_indices 1 None) = 1"
  by (simp add: reveal_indices_def)

lemma ex_payloads:
  "own_payloads [example_signed r] = [(wire_order (r_order r), replicate 64 0)]"
  "map (reveal_payload [example_signed r]) (reveal_indices 1 None) = [(wire_order (r_order r), replicate 64 0)]"
  "reveal_indices 1 (Some []) = []"
  by (simp_all add: own_payloads_def example_signed_def reveal_payload_def reveal_indices_def Let_def)

definition ex_input :: "revealed_order list \<Rightarrow> matching_input" where
  "ex_input rs = \<lparr>mi_batch_id = anchor_batch_id example_epoch, mi_pool_id = 0, mi_reveals = rs,
     mi_markets = [\<lparr>mc_symbol = [69, 47, 75], mc_min_quantity = 1\<rparr>]\<rparr>"

lemma ex_matching:
  "length (run_matching wire_crypto (ex_input [ex_buy, ex_sell])) = 1"
  "length (run_matching wire_crypto (ex_input [ex_sell])) = 0"
  by (simp_all add: ex_input_def ex_buy_def ex_sell_def example_order_reveal_def example_matching_simps)

lemma ex_hash_prefix: "take 8 (r_order_hash (example_order_reveal r)) = le64 (r_nft r)"
  by (simp add: example_order_reveal_def wire_order_def)

lemma ex_hashes: "r_order_hash ex_buy \<noteq> r_order_hash ex_sell"
proof
  assume "r_order_hash ex_buy = r_order_hash ex_sell"
  then have "le64 1 = le64 2"
    using ex_hash_prefix [of "example_reveal 1 1 50 10 7"] ex_hash_prefix [of "example_reveal 2 0 48 4 9"]
    by (simp only: ex_buy_def ex_sell_def example_reveal_def revealed_order.simps order.simps)
  then show False by simp
qed

lemma ex_match_phase:
  assumes "or_batch_state x = or_batch_state (example_node n)" "market_configs x = [\<lparr>mc_symbol = [69, 47, 75], mc_min_quantity = 1\<rparr>]"
    and "payloads_of ex_gossip (anchor_batch_id example_epoch) x = map (\<lambda>r. (wire_order (r_order r), replicate 64 0)) rs"
  shows "\<exists>x'. on_match_phase wire_crypto ex_gossip ex_batch x
    = Some (x', length (run_matching wire_crypto (ex_input (map example_order_reveal rs))))"
proof -
  have c: "bp_current_batch_id ex_batch (or_batch_state x) = Some (anchor_batch_id example_epoch)"
    "bp_current_pool_id ex_batch (or_batch_state x) (or_node_nft_id x) = Some 0"
    by (simp_all add: assms(1) bridge_batch_def example_clock)
  show ?thesis
    using on_match_phase_eq [OF c, of wire_crypto ex_gossip "map example_order_reveal rs"]
    by (auto simp: assms(2,3) ex_collect ex_input_def)
qed

lemma deliver_simps [simp]:
  "or_batch_state (deliver rs x) = or_batch_state x" "market_configs (deliver rs x) = market_configs x"
  "committed_orders (deliver rs x) = committed_orders x" "or_node_nft_id (deliver rs x) = or_node_nft_id x"
  "published_reveals (deliver rs x) = published_reveals x"
  by (simp_all add: deliver_def)

lemma payloads_deliver:
  assumes "\<forall>r \<in> set rs. rm_batch_id r = b" "bridge_received_reveals (or_gossip x) b = []"
  shows "payloads_of (bridge_gossip C) b (deliver rs x) = own_payloads (committed_orders x) @ peer_payloads rs"
  using assms by (simp add: payloads_of_def bridge_gossip_def received_deliver filter_True)

section \<open>Properties\<close>

text \<open>
  C5. Nodes of a pool agree on the matches of a batch: when all of them reveal everything they
  committed and each receives the reveals of all the others, in whatever order, then any two of them
  compute the same match list in the MATCH phase, provided no two orders share a digest.
\<close>

theorem full_reveal_agreement:
  assumes "i < length ns" "j < length ns"
    and "\<forall>x \<in> set ns. bp_current_batch_id Q (or_batch_state x) = Some b \<and>
           bp_current_pool_id Q (or_batch_state x) (or_node_nft_id x) = Some p \<and>
           distinct (map mc_symbol (market_configs x)) \<and> mset (market_configs x) = markets"
    and "\<forall>x \<in> set ns. full_reveal x" "reveals_delivered P b ns"
    and "collect_revealed C (concat (map (\<lambda>x. own_payloads (committed_orders x)) ns)) = Some rs"
    and "inj_on r_order_hash (set rs)"
  shows "\<exists>x y n. on_match_phase C P Q (ns ! i) = Some (x, n) \<and> on_match_phase C P Q (ns ! j) = Some (y, n) \<and>
    current_matches x = current_matches y"
proof -
  note pi = payloads_full [OF assms(1,4,5)] and pj = payloads_full [OF assms(2,4,5)]
  obtain rs' where rs': "collect_revealed C (payloads_of P b (ns ! i)) = Some rs'" "mset rs' = mset rs"
    using collect_revealed_perm [OF assms(6) pi [symmetric]] by blast
  have s: "set rs' = set rs" using rs'(2) by (rule mset_eq_setD)
  have mem: "ns ! i \<in> set ns" "ns ! j \<in> set ns" using assms(1,2) by simp_all
  show ?thesis
    by (rule match_phase_same [where P = P and b = b and p = p and rs = rs'])
      (use assms(3,7) mem pi pj rs'(1) s in simp_all)
qed

lemma full_reveal_agreement_witness:
  "\<exists>x y x' y'. x \<noteq> y \<and> on_match_phase wire_crypto ex_gossip ex_batch x = Some (x', 1) \<and>
     on_match_phase wire_crypto ex_gossip ex_batch y = Some (y', 1) \<and> current_matches x' = current_matches y'"
proof -
  let ?b = "anchor_batch_id example_epoch"
  let ?A = "example_reveal 1 1 50 10 7" and ?B = "example_reveal 2 0 48 4 9"
  obtain a where a0: "ex_published ?A 1 None a" using ex_round [of ?A 1 None] by blast
  note a = a0 [unfolded ex_published_def ex_payloads]
  obtain b where b0: "ex_published ?B 2 None b" using ex_round [of ?B 2 None] by blast
  note b = b0 [unfolded ex_published_def ex_payloads]
  let ?x = "deliver (published_reveals b) a" and ?y = "deliver (published_reveals a) b"
  have full: "\<forall>x \<in> set [?x, ?y]. full_reveal x"
    using a b by (simp add: full_reveal_def ex_payloads)
  have del: "reveals_delivered ex_gossip ?b [?x, ?y]"
    using a b by (auto simp: reveals_delivered_def others_def less_Suc_eq bridge_gossip_def received_deliver filter_True)
  have clock: "\<forall>x \<in> set [?x, ?y]. bp_current_batch_id ex_batch (or_batch_state x) = Some ?b \<and>
      bp_current_pool_id ex_batch (or_batch_state x) (or_node_nft_id x) = Some 0 \<and>
      distinct (map mc_symbol (market_configs x)) \<and>
      mset (market_configs x) = {#\<lparr>mc_symbol = [69, 47, 75], mc_min_quantity = 1\<rparr>#}"
    using a b by (simp add: bridge_batch_def example_clock)
  have col: "collect_revealed wire_crypto (concat (map (\<lambda>x. own_payloads (committed_orders x)) [?x, ?y]))
      = Some [ex_buy, ex_sell]"
    using a b ex_collect [of "[?A, ?B]"] by (simp add: ex_payloads ex_buy_def ex_sell_def)
  have inj: "inj_on r_order_hash (set [ex_buy, ex_sell])"
    using ex_hashes by (auto simp: inj_on_def)
  obtain x' y' n where m: "on_match_phase wire_crypto ex_gossip ex_batch ?x = Some (x', n)"
      "on_match_phase wire_crypto ex_gossip ex_batch ?y = Some (y', n)" "current_matches x' = current_matches y'"
    using full_reveal_agreement [of 0 "[?x, ?y]" 1 ex_batch, OF _ _ clock full del col inj] by auto
  have "payloads_of ex_gossip ?b ?x = map (\<lambda>r. (wire_order (r_order r), replicate 64 0)) [?A, ?B]"
    using a b by (simp add: payloads_deliver ex_payloads)
  then have "n = 1"
    using ex_match_phase [of ?x 1 "[?A, ?B]"] a m(1) ex_matching by (simp add: ex_buy_def ex_sell_def)
  moreover have "?x \<noteq> ?y" using a b by (auto dest: arg_cong [of _ _ or_node_nft_id])
  ultimately show ?thesis using m by blast
qed

text \<open>
  A withheld reveal breaks the agreement: a node whose strategy reveals nothing still matches its own
  committed order. Node 1 commits a buy and answers the REVEAL phase with no index; node 2 commits and
  reveals a crossing sell. After all reveals are delivered node 1 finds one match and node 2 none.
\<close>

theorem withheld_order_diverges:
  "\<exists>a1 a b1 b x y.
     on_commit_phase ex_gossip ex_batch True (Some [example_signed (example_reveal 1 1 50 10 7)]) (example_node 1) = Some (a1, 1) \<and>
     on_reveal_phase ex_gossip ex_batch 1 (Some []) a1 = Some (a, 0) \<and>
     on_commit_phase ex_gossip ex_batch True (Some [example_signed (example_reveal 2 0 48 4 9)]) (example_node 2) = Some (b1, 1) \<and>
     on_reveal_phase ex_gossip ex_batch 1 None b1 = Some (b, 1) \<and>
     on_match_phase wire_crypto ex_gossip ex_batch (deliver (published_reveals b) a) = Some (x, 1) \<and>
     on_match_phase wire_crypto ex_gossip ex_batch (deliver (published_reveals a) b) = Some (y, 0)"
proof -
  let ?b = "anchor_batch_id example_epoch"
  let ?A = "example_reveal 1 1 50 10 7" and ?B = "example_reveal 2 0 48 4 9"
  obtain a1 a where a1: "on_commit_phase ex_gossip ex_batch True (Some [example_signed ?A]) (example_node 1) = Some (a1, 1)"
      "on_reveal_phase ex_gossip ex_batch 1 (Some []) a1 = Some (a, 0)" and a0: "ex_published ?A 1 (Some []) a"
    using ex_round [of ?A 1 "Some []"] unfolding ex_payloads list.size by blast
  note a = a0 [unfolded ex_published_def ex_payloads]
  obtain b1 b where b1: "on_commit_phase ex_gossip ex_batch True (Some [example_signed ?B]) (example_node 2) = Some (b1, 1)"
      "on_reveal_phase ex_gossip ex_batch 1 None b1 = Some (b, 1)" and b0: "ex_published ?B 2 None b"
    using ex_round [of ?B 2 None] unfolding length_reveal_none by blast
  note b = b0 [unfolded ex_published_def ex_payloads]
  have "payloads_of ex_gossip ?b (deliver (published_reveals b) a)
      = map (\<lambda>r. (wire_order (r_order r), replicate 64 0)) [?A, ?B]"
    using a b by (simp add: payloads_deliver ex_payloads)
  then obtain x where x: "on_match_phase wire_crypto ex_gossip ex_batch (deliver (published_reveals b) a) = Some (x, 1)"
    using ex_match_phase [of "deliver (published_reveals b) a" 1 "[?A, ?B]"] a ex_matching
    by (auto simp: ex_buy_def ex_sell_def)
  have "payloads_of ex_gossip ?b (deliver (published_reveals a) b)
      = map (\<lambda>r. (wire_order (r_order r), replicate 64 0)) [?B]"
    using a b by (simp add: payloads_deliver ex_payloads)
  then obtain y where y: "on_match_phase wire_crypto ex_gossip ex_batch (deliver (published_reveals a) b) = Some (y, 0)"
    using ex_match_phase [of "deliver (published_reveals a) b" 2 "[?B]"] b ex_matching
    by (auto simp: ex_sell_def)
  show ?thesis using a1 b1 x y by blast
qed

text \<open>
  C26. A node that commits publishes one commitment per order, the orders' hashes in order, and when the
  strategy does not answer in the REVEAL phase it reveals exactly the orders it committed. An answer
  publishes one reveal per index, and an index beyond the committed orders publishes a placeholder with
  a zero signature.
\<close>

theorem commit_reveal_complete:
  assumes "bridge_current_pool_id C (or_batch_state orch) (or_node_nft_id orch) = Some p" "published_reveals orch = []"
    and "length ords < 2 ^ 32"
  shows "\<exists>o1 o2. on_commit_phase (bridge_gossip C) (bridge_batch C) True (Some ords)
        (orch\<lparr>published_commits := [], committed_orders := []\<rparr>) = Some (o1, length ords) \<and>
      on_reveal_phase (bridge_gossip C) (bridge_batch C) (length (published_commits o1)) reply o1
        = Some (o2, length (published_reveals o2)) \<and>
      map cm_commit_hash (published_commits o2) = map vo_commit_hash ords \<and>
      map (\<lambda>r. (rm_order_bytes r, rm_signature r)) (published_reveals o2)
        = (case reply of
             None \<Rightarrow> map (\<lambda>v. (vo_order_bytes v, vo_signature v)) ords
           | Some is \<Rightarrow> map (\<lambda>i. if unat i < length ords then (vo_order_bytes (ords ! unat i), vo_signature (ords ! unat i))
                                  else ([ucast i], replicate 64 0)) is)"
proof -
  obtain o1 o2 where o: "on_commit_phase (bridge_gossip C) (bridge_batch C) True (Some ords)
        (orch\<lparr>published_commits := [], committed_orders := []\<rparr>) = Some (o1, length ords)"
      "on_reveal_phase (bridge_gossip C) (bridge_batch C) (length (published_commits o1)) reply o1
        = Some (o2, length (reveal_indices (length ords) reply))"
      "map cm_commit_hash (published_commits o2) = map vo_commit_hash ords"
      "map (\<lambda>r. (rm_order_bytes r, rm_signature r)) (published_reveals o2)
        = map (reveal_payload ords) (reveal_indices (length ords) reply)"
    using commit_then_reveal [OF assms(1,2), of ords reply] by blast
  have "length (published_reveals o2) = length (reveal_indices (length ords) reply)"
    using arg_cong [OF o(4), of length] by simp
  moreover have "map (reveal_payload ords) (reveal_indices (length ords) reply) = (case reply of
      None \<Rightarrow> map (\<lambda>v. (vo_order_bytes v, vo_signature v)) ords
    | Some is \<Rightarrow> map (\<lambda>i. if unat i < length ords then (vo_order_bytes (ords ! unat i), vo_signature (ords ! unat i))
                                  else ([ucast i], replicate 64 0)) is)"
  proof (cases reply)
    case None
    then show ?thesis using default_payloads [OF assms(3)] by (simp add: own_payloads_def)
  next
    case (Some "is")
    then show ?thesis by (simp add: reveal_indices_def reveal_payload_def Let_def)
  qed
  ultimately show ?thesis using o by auto
qed

lemma commit_reveal_complete_witness:
  "\<exists>o1 o2. on_commit_phase ex_gossip ex_batch True (Some [example_signed (example_reveal 1 1 50 10 7)])
        ((example_node 1)\<lparr>published_commits := [], committed_orders := []\<rparr>) = Some (o1, 1) \<and>
      on_reveal_phase ex_gossip ex_batch (length (published_commits o1)) (Some [0, 5]) o1 = Some (o2, 2) \<and>
      map rm_signature (published_reveals o2) = [replicate 64 0, replicate 64 0] \<and>
      map rm_order_bytes (published_reveals o2) = [wire_order (r_order (example_reveal 1 1 50 10 7)), [5]]"
proof -
  let ?v = "example_signed (example_reveal 1 1 50 10 7)"
  have r0: "published_reveals (example_node 1) = []" by (simp add: example_node_def orchestrator_new_def)
  let ?payload = "\<lambda>i :: u32. if unat i < length [?v] then (vo_order_bytes ([?v] ! unat i), vo_signature ([?v] ! unat i))
                  else ([ucast i], replicate 64 0)"
  have l: "length [?v] < 2 ^ 32" by simp
  note t = commit_reveal_complete [where C = wire_crypto, OF example_clock(2) r0 l, of "Some [0, 5]", unfolded option.case]
  obtain o1 o2 where o: "on_commit_phase ex_gossip ex_batch True (Some [?v])
        ((example_node 1)\<lparr>published_commits := [], committed_orders := []\<rparr>) = Some (o1, length [?v])"
      "on_reveal_phase ex_gossip ex_batch (length (published_commits o1)) (Some [0, 5]) o1
        = Some (o2, length (published_reveals o2))"
      "map (\<lambda>r. (rm_order_bytes r, rm_signature r)) (published_reveals o2) = map ?payload [0, 5]"
    using t by (elim exE conjE) (rule that)
  have "map (\<lambda>r. (rm_order_bytes r, rm_signature r)) (published_reveals o2)
      = [(vo_order_bytes ?v, vo_signature ?v), ([5], replicate 64 0)]"
    unfolding o(3) by simp
  then obtain x y where "published_reveals o2 = [x, y]" "rm_order_bytes x = vo_order_bytes ?v"
      "rm_signature x = vo_signature ?v" "rm_order_bytes y = [5]" "rm_signature y = replicate 64 0"
    by (auto simp: map_eq_Cons_conv)
  then show ?thesis using o(1,2) by (auto simp: example_signed_def)
qed

end
