(* ===== verification/NodeLoop.thy ===== *)
theory NodeLoop
  imports InboundGossip NodeState Gas SettlementManager
begin

text \<open>
  The main loop of \<open>src/run.rs\<close>: what one new block height does. The answers of the chain, of the
  strategy and of the settlement worker, the gossip that waits and the clock are the record
  \<open>block_input\<close>; console output, the counters of the status endpoint, the heartbeat and liveness
  transactions and the contents of the \<open>BatchStart\<close>, \<open>RevealStart\<close> and \<open>MatchResult\<close> messages,
  which only report, are left out here, but not that making them may panic or that sending them may
  never return. \<open>None\<close> is a block that does not end: a panic, in the loop or in a request of its
  client, or a send into the strategy's event queue that waits for ever.
\<close>

section \<open>State and inputs\<close>

record node_config =
  nc_nft_id :: u64
  nc_signing_key :: bytes
  nc_token_decimals :: "string \<rightharpoonup> u8"
  nc_has_submitter :: bool
  nc_swarm_capacity :: nat
  nc_settle_capacity :: nat

record loop_state =
  lp_orch :: node_orchestrator
  lp_validator :: inbound_validator
  lp_cache :: is_active_cache
  lp_manager :: settlement_manager
  lp_node :: state_machine
  lp_gas :: gas_manager
  lp_pause :: gas_pause
  lp_params :: batch_params
  lp_epoch :: batch_epoch
  lp_num_pools :: u64
  lp_my_pool :: u64
  lp_last_block :: u64
  lp_last_phase :: phase
  lp_last_batch :: u64
  lp_last_event_block :: u64
  lp_last_settlement_batch :: u64
  lp_was_connected :: bool
  lp_first_batch_entered :: bool
  lp_failed_recent :: u64
  lp_swarm :: "swarm_command list"
  lp_settle_queue :: "settle_request list"

text \<open>The calls a block awaits. The requests of a new batch are those for keys, parameters, epoch, pools,
  balance, heartbeat and liveness; a request does not return where the client panics on the answer (as
  \<open>view_absolute\<close> does when it cuts an error body inside a character), a send does not return where the
  queue of events stays full. Of a call that a block does not make, the input says nothing.\<close>

datatype awaited_call =
    BatchRequests
  | MintStateRequest
  | SendBatchStart
  | SendRevealStart
  | SendMatchResult
  | SendEvents

record block_input =
  bi_block :: u64
  bi_gossip :: "gossip_message list"
  bi_late_gossip :: "gossip_message list"
  bi_connected :: bool
  bi_params :: "string + batch_params"
  bi_epoch :: "string + batch_epoch"
  bi_pools :: "string + u64"
  bi_supra :: "u64 option"
  bi_view :: chain_view
  bi_now :: nat
  bi_commit_action :: "strategy_action option"
  bi_reveal_action :: "strategy_action option"
  bi_nonces :: "bytes list"
  bi_results :: "settle_result list"
  bi_events :: "string + chain_event list"
  bi_returns :: "awaited_call \<Rightarrow> bool"

section \<open>Strategy connection\<close>

definition apply_event :: "node_event \<Rightarrow> state_machine \<Rightarrow> state_machine" where
  "apply_event ev m = fst (transition ev m)"

definition track_strategy :: "bool \<Rightarrow> loop_state \<Rightarrow> loop_state" where
  "track_strategy connected_now s =
     (let s1 = (if connected_now \<and> \<not> lp_was_connected s
                then s\<lparr>lp_node := apply_event StrategyConnected (lp_node s)\<rparr>
                else if \<not> connected_now \<and> lp_was_connected s
                then s\<lparr>lp_node := apply_event StrategyDisconnected (lp_node s), lp_first_batch_entered := False\<rparr>
                else s)
      in s1\<lparr>lp_was_connected := connected_now\<rparr>)"

definition drain_gossip :: "crypto \<Rightarrow> gossip_message list \<Rightarrow> loop_state \<Rightarrow> loop_state" where
  "drain_gossip C msgs s =
     (let (v, orch) = drain_inbound C msgs (lp_validator s, lp_orch s)
      in s\<lparr>lp_validator := v, lp_orch := orch\<rparr>)"

section \<open>A new batch\<close>

definition refresh_chain_config :: "block_input \<Rightarrow> loop_state \<Rightarrow> loop_state" where
  "refresh_chain_config I s =
     (let s1 = (case bi_params I of Inr p \<Rightarrow> s\<lparr>lp_params := p\<rparr> | Inl _ \<Rightarrow> s);
          s2 = (case bi_epoch I of Inr e \<Rightarrow> s1\<lparr>lp_epoch := e\<rparr> | Inl _ \<Rightarrow> s1)
      in case bi_pools I of
           Inr n \<Rightarrow> if n \<noteq> lp_num_pools s2
                    then s2\<lparr>lp_num_pools := n, lp_orch := (lp_orch s2)\<lparr>or_batch_state :=
                           bridge_set_num_pools (or_batch_state (lp_orch s2)) n\<rparr>\<rparr>
                    else s2
         | Inl _ \<Rightarrow> s2)"

definition reassign_pool :: "crypto \<Rightarrow> node_config \<Rightarrow> u64 \<Rightarrow> loop_state \<Rightarrow> loop_state option" where
  "reassign_pool C N new_batch_id s =
     map_option (\<lambda>new_pool.
         if new_pool \<noteq> lp_my_pool s
         then s\<lparr>lp_swarm := try_send (nc_swarm_capacity N) (SubscribePool new_pool)
                  (try_send (nc_swarm_capacity N) (UnsubscribePool (lp_my_pool s)) (lp_swarm s)),
                lp_my_pool := new_pool\<rparr>
         else s)
       (compute_pool_assignment C (nc_nft_id N) new_batch_id
          (max (bb_num_pools (or_batch_state (lp_orch s))) 1))"

text \<open>The balance is printed when the status changed, and as long as trading is paused for gas.\<close>

definition printed_balance :: "bool \<Rightarrow> loop_state \<Rightarrow> loop_state option" where
  "printed_balance printed s = (if printed \<and> balance_display (lp_gas s) = None then None else Some s)"

definition refresh_gas :: "u64 \<Rightarrow> u64 option \<Rightarrow> loop_state \<Rightarrow> loop_state option" where
  "refresh_gas new_batch_id supra s =
     (if new_batch_id mod 10 = 0
      then (case supra of
              None \<Rightarrow> Some s
            | Some bal \<Rightarrow>
                (let (g, old_status, new_status) = update_balance bal (lp_gas s)
                 in printed_balance (new_status \<noteq> old_status) (s\<lparr>lp_gas := g\<rparr>)))
      else Some s)"

definition pause_for_gas :: "u64 \<Rightarrow> loop_state \<Rightarrow> loop_state option" where
  "pause_for_gas new_batch_id s =
     map_option (\<lambda>s. s\<lparr>lp_pause := gas_pause_step new_batch_id (check_status (lp_gas s)) (lp_pause s)\<rparr>)
       (printed_balance (trading_paused (lp_pause s) \<or> check_status (lp_gas s) = GasCriticalStatus) s)"

text \<open>Phase and pool are read for the status endpoint.\<close>

definition begin_batch :: "crypto \<Rightarrow> node_config \<Rightarrow> block_input \<Rightarrow> u64 \<Rightarrow> loop_state \<Rightarrow> loop_state option" where
  "begin_batch C N I new_batch_id s =
     Option.bind (bridge_current_phase (or_batch_state (lp_orch s))) (\<lambda>current_phase.
     Option.bind (bridge_current_pool_id C (or_batch_state (lp_orch s)) (nc_nft_id N)) (\<lambda>current_pool_id.
       if \<not> bi_returns I BatchRequests then None
       else
        (let s1 = s\<lparr>lp_failed_recent := saturating_sub (lp_failed_recent s) 1\<rparr>;
             (v, g) = gossip_maintenance new_batch_id (lp_validator s1, or_gossip (lp_orch s1));
             (v2, cache) = fetch_unknown_keys (bi_view I) (bi_now I) new_batch_id (v, lp_cache s1);
             s2 = s1\<lparr>lp_validator := v2, lp_cache := cache, lp_orch := (lp_orch s1)\<lparr>or_gossip := g\<rparr>\<rparr>
         in Option.bind (refresh_gas new_batch_id (bi_supra I) (refresh_chain_config I s2)) (\<lambda>s3.
            Option.bind (reassign_pool C N new_batch_id
                (s3\<lparr>lp_manager := expire_stale new_batch_id 100 (lp_manager s3),
                    lp_orch := (lp_orch s3)\<lparr>published_reveals := []\<rparr>\<rparr>))
              (pause_for_gas new_batch_id)))))"

section \<open>The phase handlers\<close>

definition flush_outbound :: "node_config \<Rightarrow> loop_state \<Rightarrow> loop_state" where
  "flush_outbound N s =
     (let (g, ch) = flush_gossip (nc_swarm_capacity N) (or_gossip (lp_orch s)) (lp_swarm s)
      in s\<lparr>lp_orch := (lp_orch s)\<lparr>or_gossip := g\<rparr>, lp_swarm := ch\<rparr>)"

definition clear_commits :: "('g, 'b) orchestrator \<Rightarrow> ('g, 'b) orchestrator" where
  "clear_commits orch = orch\<lparr>published_commits := [], committed_orders := []\<rparr>"

definition enter_first_batch :: "loop_state \<Rightarrow> loop_state" where
  "enter_first_batch s =
     (if \<not> lp_first_batch_entered s \<and> sm_state (lp_node s) = Observing
      then (case transition FirstBatchEntered (lp_node s) of
              (m, Inr _) \<Rightarrow> s\<lparr>lp_node := m, lp_first_batch_entered := True\<rparr>
            | (m, Inl _) \<Rightarrow> s\<lparr>lp_node := m\<rparr>)
      else s)"

definition may_commit :: "loop_state \<Rightarrow> bool" where
  "may_commit s = (sm_state (lp_node s) = Trading \<and> \<not> trading_paused (lp_pause s))"

text \<open>The orders of the strategy's answer to \<open>BatchStart\<close>, for which the pool is read, the mint state
  fetched and the gas balance printed; outer \<open>None\<close> is a panic of these or of the conversion, or a send
  that does not return.\<close>

definition strategy_orders ::
  "crypto \<Rightarrow> node_config \<Rightarrow> block_input \<Rightarrow> u64 \<Rightarrow> loop_state \<Rightarrow> validated_order list option option" where
  "strategy_orders C N I new_batch_id s =
     (if may_commit s \<and> bi_connected I then
        Option.bind (bridge_current_pool_id C (or_batch_state (lp_orch s)) (nc_nft_id N)) (\<lambda>pool_id.
          if bi_returns I MintStateRequest \<and> balance_display (lp_gas s) \<noteq> None \<and> bi_returns I SendBatchStart
          then (case bi_commit_action I of
             Some (ActCommit specs) \<Rightarrow>
               map_option (\<lambda>validated. if validated = [] then None else Some validated)
                 (convert_strategy_orders C specs (nc_signing_key N) (nc_nft_id N) new_batch_id
                    (commits_per_batch (lp_params s)) (mg_tracker (lp_manager s)) (nc_token_decimals N)
                    (market_configs (lp_orch s)) (bi_nonces I))
           | _ \<Rightarrow> Some None)
          else None)
      else Some None)"

definition commit_handler ::
  "crypto \<Rightarrow> node_config \<Rightarrow> block_input \<Rightarrow> u64 \<Rightarrow> loop_state \<Rightarrow> loop_state option" where
  "commit_handler C N I new_batch_id s0 =
     (let s1 = drain_gossip C (bi_late_gossip I) s0;
          s = enter_first_batch (s1\<lparr>lp_orch := clear_commits (lp_orch s1)\<rparr>)
      in Option.bind (strategy_orders C N I new_batch_id s) (\<lambda>orders.
         Option.bind (on_commit_phase (bridge_gossip C) (bridge_batch C) (may_commit s) orders (lp_orch s))
           (\<lambda>(orch, n). Some (flush_outbound N (s\<lparr>lp_orch := orch\<rparr>)))))"

text \<open>The answer to \<open>RevealStart\<close>; outer \<open>None\<close> is a send that does not return.\<close>

definition strategy_indices :: "block_input \<Rightarrow> loop_state \<Rightarrow> u32 list option option" where
  "strategy_indices I s =
     (if \<not> trading_paused (lp_pause s) \<and> 0 < length (published_commits (lp_orch s)) \<and> bi_connected I
      then (if bi_returns I SendRevealStart
            then Some (case bi_reveal_action I of Some (ActReveal is) \<Rightarrow> Some is | _ \<Rightarrow> None)
            else None)
      else Some None)"

definition reveal_handler ::
  "crypto \<Rightarrow> node_config \<Rightarrow> block_input \<Rightarrow> loop_state \<Rightarrow> loop_state option" where
  "reveal_handler C N I s0 =
     (let s = drain_gossip C (bi_late_gossip I) s0
      in Option.bind (strategy_indices I s) (\<lambda>indices.
         Option.bind (on_reveal_phase (bridge_gossip C) (bridge_batch C)
            (length (published_commits (lp_orch s))) indices (lp_orch s))
           (\<lambda>(orch, n). Some (flush_outbound N (s\<lparr>lp_orch := orch\<rparr>)))))"

definition match_handler :: "crypto \<Rightarrow> block_input \<Rightarrow> loop_state \<Rightarrow> loop_state option" where
  "match_handler C I s0 =
     (let s = drain_gossip C (bi_late_gossip I) s0
      in Option.bind (on_match_phase C (bridge_gossip C) (bridge_batch C) (lp_orch s))
           (\<lambda>(orch, n). if bi_connected I \<and> \<not> bi_returns I SendMatchResult then None
                         else Some (s\<lparr>lp_orch := orch\<rparr>)))"

section \<open>Settlement submission\<close>

text \<open>Base and quote of a market symbol: the texts before and after the first slash.\<close>

definition split_symbol :: "string \<Rightarrow> string \<times> string" where
  "split_symbol symbol = (case split_first (CHR ''/'') symbol of None \<Rightarrow> (symbol, ''UNKNOWN'') | Some p \<Rightarrow> p)"

definition dead_party :: "nat \<Rightarrow> is_active_cache \<Rightarrow> match_rec \<Rightarrow> u64 option" where
  "dead_party now cache m =
     (if cache_get now (r_nft (buyer m)) cache = Some False then Some (r_nft (buyer m))
      else if cache_get now (r_nft (seller m)) cache = Some False then Some (r_nft (seller m))
      else None)"

definition swap_match :: "node_config \<Rightarrow> nat \<Rightarrow> u64 \<Rightarrow> match_rec \<Rightarrow> loop_state \<Rightarrow> loop_state option" where
  "swap_match N now swap_start_block m s =
     (let h = hex_encode (match_hash m);
          is_gas_payer = (gas_payer_nft_id m = nc_nft_id N);
          (base, quote) = split_symbol (bytes_str (m_symbol m))
      in case register_match m is_gas_payer swap_start_block (blocks_per_batch (lp_params s)) base quote
                (decimals_of (nc_token_decimals N) base) (decimals_of (nc_token_decimals N) quote)
                (lp_manager s) of
           None \<Rightarrow> None
         | Some (M, Inl _) \<Rightarrow> Some (s\<lparr>lp_manager := M\<rparr>)
         | Some (M, Inr _) \<Rightarrow>
             (if \<not> is_gas_payer then Some (s\<lparr>lp_manager := M\<rparr>)
              else case dead_party now (lp_cache s) m of
                Some dead \<Rightarrow> Some (s\<lparr>lp_manager := register_skipped h (SkipInactive dead) M\<rparr>)
              | None \<Rightarrow> Some (s\<lparr>lp_manager := M, lp_settle_queue := try_send (nc_settle_capacity N)
                   \<lparr>sr_match_data = m, sr_match_hash = h, sr_is_gas_payer = True\<rparr> (lp_settle_queue s)\<rparr>)))"

fun swap_matches :: "node_config \<Rightarrow> nat \<Rightarrow> u64 \<Rightarrow> match_rec list \<Rightarrow> loop_state \<Rightarrow> loop_state option" where
  "swap_matches N now block [] s = Some s"
| "swap_matches N now block (m # ms) s =
     Option.bind (swap_match N now block m s) (swap_matches N now block ms)"

definition swap_handler :: "crypto \<Rightarrow> node_config \<Rightarrow> block_input \<Rightarrow> loop_state \<Rightarrow> loop_state option" where
  "swap_handler C N I s0 =
     (let s = drain_gossip C (bi_late_gossip I) s0
      in if 0 < on_swap_phase (lp_orch s) \<and> nc_has_submitter N
         then (let (orch, matches) = take_matches (lp_orch s)
               in swap_matches N (bi_now I) (bi_block I) matches (s\<lparr>lp_orch := orch\<rparr>))
         else Some s)"

section \<open>Settlement results and chain events\<close>

definition failure_reason :: "settle_result \<Rightarrow> string" where
  "failure_reason r = (case r of RpcError _ err \<Rightarrow> err | RFailed _ code \<Rightarrow> abort_display code | _ \<Rightarrow> [])"

definition settle_result_step :: "u64 \<Rightarrow> u64 \<Rightarrow> settle_result \<Rightarrow> loop_state \<Rightarrow> loop_state" where
  "settle_result_step block new_batch_id r s =
     (case r of
        Submitted h tx_hash \<Rightarrow> s\<lparr>lp_manager := mark_submitted h tx_hash block (lp_manager s)\<rparr>
      | _ \<Rightarrow>
         (let s1 = (if failure_reason r \<noteq> []
                then s\<lparr>lp_failed_recent := lp_failed_recent s + 1,
                       lp_orch := push_event (EvSettlementFailed \<lparr>sf_batch_id = new_batch_id,
                          sf_match_hash = result_match_hash r, sf_reason = failure_reason r\<rparr>) (lp_orch s)\<rparr>
                else s)
          in s1\<lparr>lp_manager := fst (process_result r (lp_manager s1))\<rparr>))"

definition chain_event_step :: "crypto \<Rightarrow> chain_event \<Rightarrow> loop_state \<Rightarrow> loop_state option" where
  "chain_event_step C ev s =
     map_option (\<lambda>orch.
         let s1 = s\<lparr>lp_orch := orch\<rparr>
         in case ev of
              BatchTradeSettled evt \<Rightarrow>
                (let (M, ours) = mgr_settlement_confirmed evt (lp_manager s1)
                 in (if ours then s1\<lparr>lp_manager := M, lp_last_settlement_batch := se_batch_id evt\<rparr>
                     else s1\<lparr>lp_manager := M\<rparr>))
            | _ \<Rightarrow> s1)
       (on_chain_event (bridge_batch C) ev (lp_orch s))"

fun chain_events_steps :: "crypto \<Rightarrow> chain_event list \<Rightarrow> loop_state \<Rightarrow> loop_state option" where
  "chain_events_steps C [] s = Some s"
| "chain_events_steps C (ev # evs) s = Option.bind (chain_event_step C ev s) (chain_events_steps C evs)"

text \<open>The poll asks for the events from the block after the last polled one, and takes the range as
  polled whatever the answer.\<close>

definition poll_events :: "crypto \<Rightarrow> block_input \<Rightarrow> loop_state \<Rightarrow> loop_state option" where
  "poll_events C I s =
     (if lp_last_event_block s < bi_block I
      then map_option (\<lambda>s1. s1\<lparr>lp_last_event_block := bi_block I\<rparr>)
             (case bi_events I of Inr evs \<Rightarrow> chain_events_steps C evs s | Inl _ \<Rightarrow> Some s)
      else Some s)"

section \<open>One block\<close>

definition phase_handler :: "crypto \<Rightarrow> node_config \<Rightarrow> block_input \<Rightarrow> phase \<Rightarrow> u64 \<Rightarrow> loop_state \<Rightarrow> loop_state option" where
  "phase_handler C N I new_phase new_batch_id s =
     (case new_phase of
        Commit \<Rightarrow> commit_handler C N I new_batch_id s
      | Reveal \<Rightarrow> reveal_handler C N I s
      | Match \<Rightarrow> match_handler C I s
      | Swap \<Rightarrow> swap_handler C N I s)"

definition note_block :: "u64 \<Rightarrow> phase \<Rightarrow> u64 \<Rightarrow> loop_state \<Rightarrow> loop_state" where
  "note_block block new_phase new_batch_id s =
     s\<lparr>lp_last_block := block, lp_last_phase := new_phase, lp_last_batch := new_batch_id\<rparr>"

text \<open>What follows the phase handler: the settlement results, the chain events, and the strategy events
  are drained and sent.\<close>

definition finish_block :: "crypto \<Rightarrow> block_input \<Rightarrow> phase \<Rightarrow> u64 \<Rightarrow> loop_state \<Rightarrow> (loop_state \<times> strategy_event list) option" where
  "finish_block C I new_phase new_batch_id s =
     (let s1 = foldl (\<lambda>s r. settle_result_step (bi_block I) new_batch_id r s) s (bi_results I)
      in Option.bind (poll_events C I s1) (\<lambda>s2.
           let (orch, events) = drain_strategy_events (lp_orch s2)
           in if events \<noteq> [] \<and> \<not> bi_returns I SendEvents then None
              else Some (note_block (bi_block I) new_phase new_batch_id (s2\<lparr>lp_orch := orch\<rparr>), events)))"

definition transition_to ::
  "crypto \<Rightarrow> node_config \<Rightarrow> block_input \<Rightarrow> phase \<Rightarrow> u64 \<Rightarrow> loop_state \<Rightarrow> loop_state option" where
  "transition_to C N I new_phase new_batch_id s =
     Option.bind (if new_batch_id \<noteq> lp_last_batch s then begin_batch C N I new_batch_id s else Some s)
       (phase_handler C N I new_phase new_batch_id)"

definition on_block :: "crypto \<Rightarrow> node_config \<Rightarrow> block_input \<Rightarrow> loop_state \<Rightarrow> (loop_state \<times> strategy_event list) option" where
  "on_block C N I s0 =
     (let s = drain_gossip C (bi_gossip I) s0; block = bi_block I in
      if block \<le> lp_last_block s then Some (s, [])
      else
       (let s1 = track_strategy (bi_connected I) s in
        Option.bind (compute_phase block (lp_epoch s1) (lp_params s1)) (\<lambda>new_phase.
        Option.bind (compute_batch_id block (lp_epoch s1) (lp_params s1)) (\<lambda>new_batch_id.
          let s2 = s1\<lparr>lp_orch := (lp_orch s1)\<lparr>or_batch_state :=
                 bridge_advance_to_block (or_batch_state (lp_orch s1)) block\<rparr>\<rparr>
          in if new_phase \<noteq> lp_last_phase s2 \<or> new_batch_id \<noteq> lp_last_batch s2 then
               (if lp_last_batch s2 + 2 < new_batch_id
                then Some (note_block block new_phase new_batch_id s2, [])
                else Option.bind (transition_to C N I new_phase new_batch_id s2)
                       (finish_block C I new_phase new_batch_id))
             else finish_block C I new_phase new_batch_id s2))))"

text \<open>A run of the loop over a sequence of block inputs.\<close>

fun run_blocks :: "crypto \<Rightarrow> node_config \<Rightarrow> block_input list \<Rightarrow> loop_state \<Rightarrow> loop_state option" where
  "run_blocks C N [] s = Some s"
| "run_blocks C N (I # Is) s = Option.bind (on_block C N I s) (\<lambda>(s', _). run_blocks C N Is s')"

end
