(* ===== verification/LoopProps.thy ===== *)
theory LoopProps
  imports NodeLoop Agreement
begin

text \<open>
  What the main loop guarantees over a run of blocks: the order in which the phase handlers run, the
  clock of the orchestrator, the orders a node commits to, the settlements it books and the chain
  events it polls.
\<close>

section \<open>Settlements of other nodes\<close>

lemma reserve_ok:
  assumes "hm_get (pending_out (entry_or_default k t)) h = None" "a \<le> projected k t"
  shows "reserve_outflow k h a t = (put_balance k ((entry_or_default k t)
      \<lparr>pending_out := hm_insert h a (pending_out (entry_or_default k t))\<rparr>) t, Inr ())"
proof -
  have "projected k t = tb_projected (entry_or_default k t)"
    by (simp add: projected_def entry_or_default_def hm_get_or_def tb_projected_def default_balance_def
        split: option.split)
  then show ?thesis
    using assms by (simp add: reserve_outflow_def Let_def hm_contains_def not_less [symmetric] del: hm_contains_iff)
qed

lemma projected_put: "projected k (put_balance j b t) = (if k = j then tb_projected b else projected k t)"
  by (simp add: projected_def put_balance_def)

lemma track_inflow_projected: "k \<noteq> j \<Longrightarrow> projected k (fst (track_inflow j h a t)) = projected k t"
  by (simp add: track_inflow_def Let_def projected_put)

lemma projected_reserved:
  assumes "tb_ok b" "hm_get (pending_out b) h = None" "a \<le> tb_projected b"
  shows "tb_projected (b\<lparr>pending_out := hm_insert h a (pending_out b)\<rparr>) = tb_projected b - a"
proof -
  let ?b = "b\<lparr>pending_out := hm_insert h a (pending_out b)\<rparr>"
  have "unat (tb_projected ?b) + out_total ?b + unat (earmarked b) = unat (confirmed b)"
    using tb_ok_projected [OF tb_ok_reserve [OF assms]] by simp
  moreover have "out_total ?b = out_total b + unat a"
    by (simp add: out_total_def sum_insert_absent [OF assms(2)])
  ultimately have "unat (tb_projected ?b) = unat (tb_projected b) - unat a"
    using tb_ok_projected [OF assms(1)] by linarith
  then show ?thesis
    using assms(3) by (simp add: word_unat_eq_iff unat_sub word_le_nat_alt)
qed

lemma entry_projected: "projected k t = tb_projected (entry_or_default k t)"
  by (simp add: projected_def entry_or_default_def hm_get_or_def tb_projected_def default_balance_def
      split: option.split)

lemma fresh_entry_pending:
  assumes "\<not> has_pending h t"
  shows "hm_get (pending_out (entry_or_default k t)) h = None" "hm_get (pending_in (entry_or_default k t)) h = None"
proof -
  have n: "\<not> holds_pending h b" if "hm_get (balances t) k = Some b" for b
    using assms map_of_SomeD [OF that] by (auto simp: has_pending_def list_ex_iff hm_values_def image_iff)
  have "\<not> holds_pending h (entry_or_default k t)"
    using n by (auto simp: entry_or_default_def hm_get_or_def default_balance_def holds_pending_def split: option.split)
  then show "hm_get (pending_out (entry_or_default k t)) h = None" "hm_get (pending_in (entry_or_default k t)) h = None"
    by (simp_all add: holds_pending_def hm_contains_def del: hm_contains_iff)
qed

lemma track_ok:
  assumes "hm_get (pending_in (entry_or_default k t)) h = None"
  shows "snd (track_inflow k h a t) = Inr ()"
  using assms by (simp add: track_inflow_def Let_def hm_contains_def del: hm_contains_iff)

lemma sell_booking:
  assumes "esc_ok t" "\<not> has_pending h t" "base \<noteq> quote" "fill \<le> projected base t" "price_divisor bd qd \<noteq> 0"
  shows "\<exists>t'. apply_match h Sell base quote fill bp sp bd qd t = Some (t', Inr ()) \<and>
    projected base t' = projected base t - fill \<and> has_pending h t'"
proof -
  note fr = fresh_entry_pending [OF assms(2)]
  let ?b = "(entry_or_default base t)\<lparr>pending_out := hm_insert h fill (pending_out (entry_or_default base t))\<rparr>"
  let ?t1 = "put_balance base ?b t"
  obtain q where q: "quote_amount fill sp (price_divisor bd qd) = Some q"
    using assms(5) by (auto simp: quote_amount_def checked_div_def)
  obtain t' where t': "track_inflow quote h q ?t1 = (t', Inr ())"
    using track_ok [of quote ?t1 h q] fr(2) [of quote] assms(3)
    by (cases "track_inflow quote h q ?t1") simp
  have ap: "apply_match h Sell base quote fill bp sp bd qd t = Some (t', Inr ())"
    using reserve_ok [OF fr(1) assms(4)] q t' by (simp add: apply_match_def)
  have "projected base t' = projected base ?t1"
    using track_inflow_projected [OF assms(3), of h q ?t1] by (simp add: t')
  also have "\<dots> = projected base t - fill"
    using projected_reserved [OF esc_ok_entry [OF assms(1)] fr(1), of fill] assms(4)
    by (simp add: projected_put entry_projected)
  finally show ?thesis using ap apply_match_pending [OF ap] by blast
qed

lemma register_foreign:
  assumes "esc_ok (mg_tracker M)" "\<not> has_pending (hex_encode (match_hash m)) (mg_tracker M)" "base \<noteq> quote"
    and "fill_quantity m \<le> projected base (mg_tracker M)" "price_divisor bd qd \<noteq> 0"
    and "r_nft (buyer m) \<noteq> mg_own_nft_id M"
  shows "\<exists>M'. register_match m payer blk n base quote bd qd M = Some (M', Inr ()) \<and>
    projected base (mg_tracker M') = projected base (mg_tracker M) - fill_quantity m \<and>
    is_pending (hex_encode (match_hash m)) M'"
proof -
  obtain t' where "apply_match (hex_encode (match_hash m)) Sell base quote (fill_quantity m) (r_price (buyer m))
      (settlement_price m) bd qd (mg_tracker M) = Some (t', Inr ())"
      "projected base t' = projected base (mg_tracker M) - fill_quantity m"
    using sell_booking [OF assms(1-5)] by blast
  then show ?thesis using assms(6)
    by (simp add: register_match_def Let_def match_booking_def is_pending_def hm_contains_def del: hm_contains_iff)
qed

section \<open>What the steps leave alone\<close>

text \<open>The parts of the state the phase handlers do not touch.\<close>

definition frame :: "loop_state \<Rightarrow> batch_state_bridge \<times> batch_epoch \<times> batch_params \<times> u64 \<times> phase \<times> u64 \<times> u8" where
  "frame s = (or_batch_state (lp_orch s), lp_epoch s, lp_params s, lp_last_block s, lp_last_phase s, lp_last_batch s,
     gm_decimals (lp_gas s))"

lemma inbound_batch_state:
  "or_batch_state (snd (process_inbound_gossip C m vo)) = or_batch_state (snd vo)"
  by (auto simp: process_inbound_gossip_def split: prod.splits)

lemma drain_inbound_batch_state: "or_batch_state (snd (drain_inbound C ms vo)) = or_batch_state (snd vo)"
  unfolding drain_inbound_def by (induction ms arbitrary: vo) (simp_all add: inbound_batch_state)

lemma frame_drain [simp]: "frame (drain_gossip C ms s) = frame s"
  using drain_inbound_batch_state [of C ms "(lp_validator s, lp_orch s)"]
  by (auto simp: drain_gossip_def frame_def split: prod.splits)

lemma frame_track [simp]: "frame (track_strategy c s) = frame s"
  by (simp add: track_strategy_def frame_def Let_def)

lemma frame_flush [simp]: "frame (flush_outbound N s) = frame s"
  by (simp add: flush_outbound_def frame_def split: prod.split)

lemma frame_enter [simp]: "frame (enter_first_batch s) = frame s"
  by (simp add: enter_first_batch_def frame_def split: prod.split sum.split)

lemma frame_orch: "or_batch_state orch = or_batch_state (lp_orch s) \<Longrightarrow> frame (s\<lparr>lp_orch := orch\<rparr>) = frame s"
  by (simp add: frame_def)

lemma commit_phase_batch_state:
  "on_commit_phase (bridge_gossip C) Q can ords orch = Some (orch', n) \<Longrightarrow> or_batch_state orch' = or_batch_state orch"
  by (auto simp: on_commit_phase_def push_event_def bind_eq_Some_conv split: if_splits option.splits
      dest: bridge.publish_orders_effect)

lemma reveal_phase_batch_state:
  "on_reveal_phase (bridge_gossip C) Q n reply orch = Some (orch', c) \<Longrightarrow> or_batch_state orch' = or_batch_state orch"
  by (auto simp: on_reveal_phase_def bind_eq_Some_conv dest: bridge.publish_indices_effect)

lemma match_phase_batch_state:
  "on_match_phase C P Q orch = Some (orch', c) \<Longrightarrow> or_batch_state orch' = or_batch_state orch"
  by (auto simp: on_match_phase_def bind_eq_Some_conv Let_def split: if_splits)

lemma frame_commit: "commit_handler C N I b s = Some s' \<Longrightarrow> frame s' = frame s"
proof -
  assume "commit_handler C N I b s = Some s'"
  then obtain orders orch n s1 where s1: "s1 = enter_first_batch ((drain_gossip C (bi_late_gossip I) s)
        \<lparr>lp_orch := clear_commits (lp_orch (drain_gossip C (bi_late_gossip I) s))\<rparr>)"
    and c: "on_commit_phase (bridge_gossip C) (bridge_batch C) (may_commit s1) orders (lp_orch s1) = Some (orch, n)"
    and s': "s' = flush_outbound N (s1\<lparr>lp_orch := orch\<rparr>)"
    by (auto simp: commit_handler_def Let_def bind_eq_Some_conv)
  have "frame s' = frame s1" using commit_phase_batch_state [OF c] by (simp add: s' frame_orch)
  also have "\<dots> = frame s" unfolding s1 by (simp add: frame_orch clear_commits_def)
  finally show ?thesis .
qed

lemma frame_reveal: "reveal_handler C N I s = Some s' \<Longrightarrow> frame s' = frame s"
  by (auto simp: reveal_handler_def Let_def bind_eq_Some_conv frame_orch reveal_phase_batch_state)

lemma frame_match: "match_handler C I s = Some s' \<Longrightarrow> frame s' = frame s"
  by (auto simp: match_handler_def Let_def bind_eq_Some_conv frame_orch match_phase_batch_state split: if_splits)

lemma frame_swap_match: "swap_match N now blk m s = Some s' \<Longrightarrow> frame s' = frame s"
  by (auto simp: swap_match_def Let_def frame_def split: prod.splits option.splits sum.splits if_splits)

lemma frame_swap_matches: "swap_matches N now blk ms s = Some s' \<Longrightarrow> frame s' = frame s"
  by (induction ms arbitrary: s) (auto simp: bind_eq_Some_conv dest: frame_swap_match)

lemma frame_swap: "swap_handler C N I s = Some s' \<Longrightarrow> frame s' = frame s"
  by (auto simp: swap_handler_def Let_def take_matches_def frame_orch dest!: frame_swap_matches split: if_splits)

lemma frame_handler: "phase_handler C N I ph b s = Some s' \<Longrightarrow> frame s' = frame s"
  by (cases ph) (auto simp: phase_handler_def dest: frame_commit frame_reveal frame_match frame_swap)

lemma frame_result: "frame (settle_result_step blk b r s) = frame s"
  by (cases r) (simp_all add: settle_result_step_def frame_def push_event_def Let_def)

lemma frame_results: "frame (foldl (\<lambda>s r. settle_result_step blk b r s) s rs) = frame s"
  by (induction rs arbitrary: s) (simp_all add: frame_result)

text \<open>The poll asks for one event type only, the settlements; an answer is one of those, or an event
  that did not parse.\<close>

fun settlement_event :: "chain_event \<Rightarrow> bool" where
  "settlement_event (BatchTradeSettled _) = True"
| "settlement_event (UnknownEvent _) = True"
| "settlement_event _ = False"

definition settlements_only :: "block_input \<Rightarrow> bool" where
  "settlements_only I = (case bi_events I of Inr evs \<Rightarrow> list_all settlement_event evs | Inl _ \<Rightarrow> True)"

lemma frame_event: "settlement_event ev \<Longrightarrow> chain_event_step C ev s = Some s' \<Longrightarrow> frame s' = frame s"
  by (cases ev) (auto simp: chain_event_step_def frame_def orc_settlement_confirmed_def push_event_def Let_def
      split: prod.splits if_splits)

lemma frame_events: "list_all settlement_event evs \<Longrightarrow> chain_events_steps C evs s = Some s' \<Longrightarrow> frame s' = frame s"
  by (induction evs arbitrary: s) (auto simp: bind_eq_Some_conv dest: frame_event)

lemma frame_event_block [simp]: "frame (s\<lparr>lp_last_event_block := b\<rparr>) = frame s"
  by (simp add: frame_def)

lemma frame_poll: "settlements_only I \<Longrightarrow> poll_events C I s = Some s' \<Longrightarrow> frame s' = frame s"
  by (auto simp: poll_events_def settlements_only_def dest: frame_events split: sum.splits if_splits)

text \<open>The clock the orchestrator reads, the loop's own clock, and the position the loop has reached.\<close>

definition bridge_clock :: "loop_state \<Rightarrow> batch_epoch \<times> batch_params" where
  "bridge_clock s = (bb_epoch (or_batch_state (lp_orch s)), bb_params (or_batch_state (lp_orch s)))"

definition loop_clock :: "loop_state \<Rightarrow> batch_epoch \<times> batch_params" where
  "loop_clock s = (lp_epoch s, lp_params s)"

definition position :: "loop_state \<Rightarrow> u64 \<times> phase \<times> u64" where
  "position s = (lp_last_block s, lp_last_phase s, lp_last_batch s)"

lemmas clock_defs = bridge_clock_def loop_clock_def position_def frame_def

lemma frame_parts: "frame s' = frame s \<Longrightarrow> bridge_clock s' = bridge_clock s \<and> loop_clock s' = loop_clock s \<and> position s' = position s \<and>
    gm_decimals (lp_gas s') = gm_decimals (lp_gas s)"
  by (simp add: clock_defs)

text \<open>The clock after the refresh at a batch boundary.\<close>

definition refreshed :: "block_input \<Rightarrow> batch_epoch \<times> batch_params \<Rightarrow> batch_epoch \<times> batch_params" where
  "refreshed I c = ((case bi_epoch I of Inr e \<Rightarrow> e | Inl _ \<Rightarrow> fst c), (case bi_params I of Inr p \<Rightarrow> p | Inl _ \<Rightarrow> snd c))"

lemma refresh_config_clock:
  "bridge_clock (refresh_chain_config I s) = bridge_clock s"
  "loop_clock (refresh_chain_config I s) = refreshed I (loop_clock s)"
  "position (refresh_chain_config I s) = position s"
  "lp_gas (refresh_chain_config I s) = lp_gas s"
  by (simp_all add: refresh_chain_config_def clock_defs refreshed_def bridge_set_num_pools_def Let_def split: sum.split)

lemma refresh_gas_clock: "refresh_gas b x s = Some s' \<Longrightarrow> frame s' = frame s"
  by (auto simp: refresh_gas_def printed_balance_def update_balance_def clock_defs Let_def
      split: option.splits if_splits)

lemma reassign_clock: "reassign_pool C N b s = Some s' \<Longrightarrow> frame s' = frame s"
  by (auto simp: reassign_pool_def clock_defs)

lemma pause_clock: "pause_for_gas b s = Some s' \<Longrightarrow> frame s' = frame s"
  by (auto simp: pause_for_gas_def printed_balance_def clock_defs split: if_splits)

lemma begin_batch_clock:
  assumes "begin_batch C N I b s = Some s'"
  shows "bridge_clock s' = bridge_clock s" "loop_clock s' = refreshed I (loop_clock s)" "position s' = position s"
    "gm_decimals (lp_gas s') = gm_decimals (lp_gas s)"
proof -
  obtain v g where m: "gossip_maintenance b (lp_validator s, or_gossip (lp_orch s)) = (v, g)"
    by (cases "gossip_maintenance b (lp_validator s, or_gossip (lp_orch s))")
  obtain v2 cache where f: "fetch_unknown_keys (bi_view I) (bi_now I) b (v, lp_cache s) = (v2, cache)"
    by (cases "fetch_unknown_keys (bi_view I) (bi_now I) b (v, lp_cache s)")
  define s2 where "s2 = s\<lparr>lp_failed_recent := saturating_sub (lp_failed_recent s) 1, lp_validator := v2,
    lp_cache := cache, lp_orch := (lp_orch s)\<lparr>or_gossip := g\<rparr>\<rparr>"
  obtain s3 s5 where s3: "refresh_gas b (bi_supra I) (refresh_chain_config I s2) = Some s3"
    and r: "reassign_pool C N b (s3\<lparr>lp_manager := expire_stale b 100 (lp_manager s3),
        lp_orch := (lp_orch s3)\<lparr>published_reveals := []\<rparr>\<rparr>) = Some s5"
    and s': "pause_for_gas b s5 = Some s'"
    using assms by (auto simp: begin_batch_def Let_def m f s2_def bind_eq_Some_conv split: if_splits)
  have "frame s' = frame s5" by (rule pause_clock [OF s'])
  also have "\<dots> = frame s3" using reassign_clock [OF r] by (simp add: clock_defs)
  finally have e: "frame s' = frame (refresh_chain_config I s2)" using refresh_gas_clock [OF s3] by simp
  have "frame s2 = frame s" by (simp add: s2_def clock_defs)
  then show "bridge_clock s' = bridge_clock s" "loop_clock s' = refreshed I (loop_clock s)" "position s' = position s"
    "gm_decimals (lp_gas s') = gm_decimals (lp_gas s)"
    using frame_parts [OF e] frame_parts [of s2 s] by (simp_all add: refresh_config_clock)
qed

text \<open>Whether a block runs a phase handler, and which.\<close>

definition handled :: "block_input \<Rightarrow> loop_state \<Rightarrow> (u64 \<times> phase) option" where
  "handled I s =
     (if bi_block I \<le> lp_last_block s then None
      else (case (compute_batch_id (bi_block I) (lp_epoch s) (lp_params s), compute_phase (bi_block I) (lp_epoch s) (lp_params s)) of
              (Some b, Some p) \<Rightarrow>
                if (p \<noteq> lp_last_phase s \<or> b \<noteq> lp_last_batch s) \<and> \<not> lp_last_batch s + 2 < b then Some (b, p) else None
            | _ \<Rightarrow> None))"

lemma finish_clock:
  assumes "finish_block C I p b s = Some (s', evs)" "settlements_only I"
  shows "bridge_clock s' = bridge_clock s" "loop_clock s' = loop_clock s" "position s' = (bi_block I, p, b)"
    "gm_decimals (lp_gas s') = gm_decimals (lp_gas s)"
proof -
  obtain s2 where p: "poll_events C I (foldl (\<lambda>s r. settle_result_step (bi_block I) b r s) s (bi_results I)) = Some s2"
    and s': "s' = note_block (bi_block I) p b (s2\<lparr>lp_orch := (lp_orch s2)\<lparr>sent_events := []\<rparr>\<rparr>)"
    using assms(1)
    by (auto simp: finish_block_def Let_def drain_strategy_events_def bind_eq_Some_conv split: if_splits)
  have "frame s2 = frame s" using frame_poll [OF assms(2) p] by (simp add: frame_results)
  then show "bridge_clock s' = bridge_clock s" "loop_clock s' = loop_clock s" "position s' = (bi_block I, p, b)"
    "gm_decimals (lp_gas s') = gm_decimals (lp_gas s)"
    by (simp_all add: s' note_block_def clock_defs)
qed

lemma on_block_old:
  "bi_block I \<le> lp_last_block s \<Longrightarrow> on_block C N I s = Some (s', evs) \<Longrightarrow> frame s' = frame s"
proof -
  have "lp_last_block (drain_gossip C (bi_gossip I) s) = lp_last_block s"
    using frame_drain [of C "bi_gossip I" s] by (simp add: frame_def)
  then show "bi_block I \<le> lp_last_block s \<Longrightarrow> on_block C N I s = Some (s', evs) \<Longrightarrow> frame s' = frame s"
    by (auto simp: on_block_def Let_def)
qed

lemma on_block_new:
  assumes "on_block C N I s = Some (s', evs)" "settlements_only I" "lp_last_block s < bi_block I"
  obtains p b where "compute_phase (bi_block I) (lp_epoch s) (lp_params s) = Some p"
    "compute_batch_id (bi_block I) (lp_epoch s) (lp_params s) = Some b"
    "position s' = (bi_block I, p, b)" "bridge_clock s' = bridge_clock s"
    "gm_decimals (lp_gas s') = gm_decimals (lp_gas s)"
    "loop_clock s' = (if handled I s \<noteq> None \<and> b \<noteq> lp_last_batch s then refreshed I (loop_clock s) else loop_clock s)"
proof -
  define s1 where "s1 = track_strategy (bi_connected I) (drain_gossip C (bi_gossip I) s)"
  have f1: "frame s1 = frame s" by (simp add: s1_def)
  have fd: "frame (drain_gossip C (bi_gossip I) s) = frame s" by simp
  then have nb: "\<not> bi_block I \<le> lp_last_block (drain_gossip C (bi_gossip I) s)"
    using assms(3) by (simp add: frame_def not_le)
  define s2 where "s2 = s1\<lparr>lp_orch := (lp_orch s1)\<lparr>or_batch_state :=
      bridge_advance_to_block (or_batch_state (lp_orch s1)) (bi_block I)\<rparr>\<rparr>"
  have c2: "bridge_clock s2 = bridge_clock s" "loop_clock s2 = loop_clock s" "position s2 = position s"
    "gm_decimals (lp_gas s2) = gm_decimals (lp_gas s)"
    using f1 by (simp_all add: s2_def clock_defs bridge_advance_to_block_def)
  have e1: "lp_epoch s1 = lp_epoch s" "lp_params s1 = lp_params s" using f1 by (simp_all add: frame_def)
  have l2: "lp_last_phase s2 = lp_last_phase s" "lp_last_batch s2 = lp_last_batch s"
    using c2(3) by (simp_all add: position_def)
  have step: "Option.bind (compute_phase (bi_block I) (lp_epoch s) (lp_params s)) (\<lambda>p.
      Option.bind (compute_batch_id (bi_block I) (lp_epoch s) (lp_params s)) (\<lambda>b.
        if p \<noteq> lp_last_phase s2 \<or> b \<noteq> lp_last_batch s2 then
               (if lp_last_batch s2 + 2 < b then Some (note_block (bi_block I) p b s2, [])
                else Option.bind (transition_to C N I p b s2) (finish_block C I p b))
             else finish_block C I p b s2)) = Some (s', evs)"
    using assms(1) nb
    unfolding on_block_def Let_def s1_def [symmetric] s2_def [symmetric] e1 by (simp only: if_False)
  obtain p b where pb: "compute_phase (bi_block I) (lp_epoch s) (lp_params s) = Some p"
    "compute_batch_id (bi_block I) (lp_epoch s) (lp_params s) = Some b"
    and rest: "(if p \<noteq> lp_last_phase s2 \<or> b \<noteq> lp_last_batch s2 then
               (if lp_last_batch s2 + 2 < b then Some (note_block (bi_block I) p b s2, [])
                else Option.bind (transition_to C N I p b s2) (finish_block C I p b))
             else finish_block C I p b s2) = Some (s', evs)"
    using step unfolding bind_eq_Some_conv by blast
  have h: "handled I s = (if (p \<noteq> lp_last_phase s \<or> b \<noteq> lp_last_batch s) \<and> \<not> lp_last_batch s + 2 < b then Some (b, p) else None)"
    using assms(3) pb by (simp add: handled_def not_le [symmetric])
  show ?thesis
  proof (rule that [OF pb])
    consider (skip) "p \<noteq> lp_last_phase s \<or> b \<noteq> lp_last_batch s" "lp_last_batch s + 2 < b" "s' = note_block (bi_block I) p b s2"
      | (run) s3 where "p \<noteq> lp_last_phase s \<or> b \<noteq> lp_last_batch s" "\<not> lp_last_batch s + 2 < b" "transition_to C N I p b s2 = Some s3"
          "finish_block C I p b s3 = Some (s', evs)"
      | (same) "p = lp_last_phase s" "b = lp_last_batch s" "finish_block C I p b s2 = Some (s', evs)"
      using rest by (auto simp: l2 bind_eq_Some_conv split: if_splits)
    then have "position s' = (bi_block I, p, b) \<and> bridge_clock s' = bridge_clock s \<and>
      gm_decimals (lp_gas s') = gm_decimals (lp_gas s) \<and>
      loop_clock s' = (if handled I s \<noteq> None \<and> b \<noteq> lp_last_batch s then refreshed I (loop_clock s) else loop_clock s)"
    proof cases
      case skip
      then show ?thesis using c2 by (auto simp: h note_block_def clock_defs)
    next
      case same
      then show ?thesis using finish_clock [OF same(3) assms(2)] c2 by (simp add: h)
    next
      case (run s3)
      have "bridge_clock s3 = bridge_clock s2 \<and> gm_decimals (lp_gas s3) = gm_decimals (lp_gas s2) \<and>
          loop_clock s3 = (if b \<noteq> lp_last_batch s then refreshed I (loop_clock s2) else loop_clock s2)"
        using run(3) frame_parts [OF frame_handler] begin_batch_clock
        by (auto simp: transition_to_def bind_eq_Some_conv l2 split: if_splits)
      then show ?thesis using finish_clock [OF run(4) assms(2)] c2 run(1,2) by (simp add: h)
    qed
    then show "position s' = (bi_block I, p, b)" "bridge_clock s' = bridge_clock s"
      "gm_decimals (lp_gas s') = gm_decimals (lp_gas s)"
      "loop_clock s' = (if handled I s \<noteq> None \<and> b \<noteq> lp_last_batch s then refreshed I (loop_clock s) else loop_clock s)"
      by simp_all
  qed
qed

end
