(* ===== verification/LoopOrder.thy ===== *)
theory LoopOrder
  imports LoopProps
begin

text \<open>
  The main loop as a clock: which blocks run which phase handler, in which order, and which clock the
  orchestrator reads meanwhile. The abstract machine keeps the position of the loop (last block, phase
  and batch) and its epoch and parameters, and forgets everything else; \<open>run_refines\<close> is the
  refinement the properties rest on.
\<close>

section \<open>The clock machine\<close>

type_synonym clock = "batch_epoch \<times> batch_params"
type_synonym clock_state = "(u64 \<times> phase \<times> u64) \<times> clock"

definition clock_of :: "loop_state \<Rightarrow> clock_state" where
  "clock_of s = (position s, loop_clock s)"

text \<open>The batch and phase of a block.\<close>

definition block_key :: "clock \<Rightarrow> u64 \<Rightarrow> (u64 \<times> phase) option" where
  "block_key c h = (case (compute_batch_id h (fst c) (snd c), compute_phase h (fst c) (snd c)) of
     (Some b, Some p) \<Rightarrow> Some (b, p) | _ \<Rightarrow> None)"

definition clock_handled :: "block_input \<Rightarrow> clock_state \<Rightarrow> (u64 \<times> phase) option" where
  "clock_handled I cs = (case cs of ((lst, lp, lb), c) \<Rightarrow>
     if bi_block I \<le> lst then None
     else (case block_key c (bi_block I) of
             Some (b, p) \<Rightarrow> if (p \<noteq> lp \<or> b \<noteq> lb) \<and> \<not> lb + 2 < b then Some (b, p) else None
           | None \<Rightarrow> None))"

definition clock_step :: "block_input \<Rightarrow> clock_state \<Rightarrow> clock_state" where
  "clock_step I cs = (case cs of ((lst, lp, lb), c) \<Rightarrow>
     if bi_block I \<le> lst then cs
     else (case block_key c (bi_block I) of
             Some (b, p) \<Rightarrow> ((bi_block I, p, b),
               if clock_handled I cs \<noteq> None \<and> b \<noteq> lb then refreshed I c else c)
           | None \<Rightarrow> cs))"

lemma handled_clock: "handled I s = clock_handled I (clock_of s)"
  by (simp add: handled_def clock_handled_def clock_of_def position_def loop_clock_def block_key_def split: option.split)

lemma step_refines:
  assumes "on_block C N I s = Some (s', evs)" "settlements_only I"
  shows "clock_of s' = clock_step I (clock_of s)" "bridge_clock s' = bridge_clock s"
proof -
  have "clock_of s' = clock_step I (clock_of s) \<and> bridge_clock s' = bridge_clock s"
  proof (cases "bi_block I \<le> lp_last_block s")
    case True
    then show ?thesis
      using frame_parts [OF on_block_old [OF True assms(1)]] by (simp add: clock_step_def clock_of_def position_def)
  next
    case False
    then have "lp_last_block s < bi_block I" by simp
    from on_block_new [OF assms this] obtain p b where
      k: "compute_phase (bi_block I) (lp_epoch s) (lp_params s) = Some p"
      "compute_batch_id (bi_block I) (lp_epoch s) (lp_params s) = Some b"
      and r: "position s' = (bi_block I, p, b)" "bridge_clock s' = bridge_clock s"
      "loop_clock s' = (if handled I s \<noteq> None \<and> b \<noteq> lp_last_batch s then refreshed I (loop_clock s) else loop_clock s)"
      by metis
    have "block_key (loop_clock s) (bi_block I) = Some (b, p)" by (simp add: block_key_def loop_clock_def k)
    then show ?thesis
      using False r by (simp add: clock_step_def clock_of_def handled_clock position_def)
  qed
  then show "clock_of s' = clock_step I (clock_of s)" "bridge_clock s' = bridge_clock s" by simp_all
qed

lemma run_refines:
  assumes "run_blocks C N Is s = Some s'" "list_all settlements_only Is"
  shows "clock_of s' = fold clock_step Is (clock_of s) \<and> bridge_clock s' = bridge_clock s"
  using assms
proof (induction Is arbitrary: s)
  case Nil
  then show ?case by simp
next
  case (Cons I Is)
  then obtain t evs where t: "on_block C N I s = Some (t, evs)" "run_blocks C N Is t = Some s'"
    by (auto simp: bind_eq_Some_conv)
  have ok: "settlements_only I" using Cons.prems(2) by simp
  show ?case using Cons.IH [OF t(2)] Cons.prems(2) step_refines [OF t(1) ok] by simp
qed

section \<open>The order of the handlers\<close>

text \<open>The state of a block that is handled: messages drained, the strategy's connection noted, the
  orchestrator's block advanced; and its batch and phase by the loop's clock.\<close>

definition entered :: "crypto \<Rightarrow> block_input \<Rightarrow> loop_state \<Rightarrow> loop_state" where
  "entered C I s =
     (let s1 = track_strategy (bi_connected I) (drain_gossip C (bi_gossip I) s)
      in s1\<lparr>lp_orch := (lp_orch s1)\<lparr>or_batch_state :=
           bridge_advance_to_block (or_batch_state (lp_orch s1)) (bi_block I)\<rparr>\<rparr>)"

definition new_block :: "block_input \<Rightarrow> loop_state \<Rightarrow> u64 \<Rightarrow> phase \<Rightarrow> bool" where
  "new_block I s b p \<longleftrightarrow> lp_last_block s < bi_block I \<and>
     compute_batch_id (bi_block I) (lp_epoch s) (lp_params s) = Some b \<and>
     compute_phase (bi_block I) (lp_epoch s) (lp_params s) = Some p"

definition moved_on :: "loop_state \<Rightarrow> u64 \<Rightarrow> phase \<Rightarrow> bool" where
  "moved_on s b p \<longleftrightarrow> (p \<noteq> lp_last_phase s \<or> b \<noteq> lp_last_batch s) \<and> \<not> lp_last_batch s + 2 < b"

text \<open>What one block runs: nothing for a block not after the last one; nothing but a note of the
  position when more than two batches were missed; the settlement results and chain events alone
  when batch and phase are unchanged; and otherwise, after the new batch has begun if it is one, the
  handler of the new phase, then the results and events. The third argument is the batch and phase
  whose handler ran.\<close>

inductive block_runs ::
  "crypto \<Rightarrow> node_config \<Rightarrow> block_input \<Rightarrow> loop_state \<Rightarrow> (u64 \<times> phase) option \<Rightarrow> loop_state \<Rightarrow> strategy_event list \<Rightarrow> bool"
  for C N I s where
  stale: "bi_block I \<le> lp_last_block s \<Longrightarrow> block_runs C N I s None (drain_gossip C (bi_gossip I) s) []"
| skipped: "new_block I s b p \<Longrightarrow> p \<noteq> lp_last_phase s \<or> b \<noteq> lp_last_batch s \<Longrightarrow> lp_last_batch s + 2 < b \<Longrightarrow>
    block_runs C N I s None (note_block (bi_block I) p b (entered C I s)) []"
| unchanged: "new_block I s (lp_last_batch s) (lp_last_phase s) \<Longrightarrow>
    finish_block C I (lp_last_phase s) (lp_last_batch s) (entered C I s) = Some (s', evs) \<Longrightarrow>
    block_runs C N I s None s' evs"
| commits: "new_block I s b Commit \<Longrightarrow> moved_on s b Commit \<Longrightarrow>
    (if b \<noteq> lp_last_batch s then begin_batch C N I b (entered C I s) = Some t else t = entered C I s) \<Longrightarrow>
    commit_handler C N I b t = Some u \<Longrightarrow> finish_block C I Commit b u = Some (s', evs) \<Longrightarrow>
    block_runs C N I s (Some (b, Commit)) s' evs"
| reveals: "new_block I s b Reveal \<Longrightarrow> moved_on s b Reveal \<Longrightarrow>
    (if b \<noteq> lp_last_batch s then begin_batch C N I b (entered C I s) = Some t else t = entered C I s) \<Longrightarrow>
    reveal_handler C N I t = Some u \<Longrightarrow> finish_block C I Reveal b u = Some (s', evs) \<Longrightarrow>
    block_runs C N I s (Some (b, Reveal)) s' evs"
| matches: "new_block I s b Match \<Longrightarrow> moved_on s b Match \<Longrightarrow>
    (if b \<noteq> lp_last_batch s then begin_batch C N I b (entered C I s) = Some t else t = entered C I s) \<Longrightarrow>
    match_handler C I t = Some u \<Longrightarrow> finish_block C I Match b u = Some (s', evs) \<Longrightarrow>
    block_runs C N I s (Some (b, Match)) s' evs"
| swaps: "new_block I s b Swap \<Longrightarrow> moved_on s b Swap \<Longrightarrow>
    (if b \<noteq> lp_last_batch s then begin_batch C N I b (entered C I s) = Some t else t = entered C I s) \<Longrightarrow>
    swap_handler C N I t = Some u \<Longrightarrow> finish_block C I Swap b u = Some (s', evs) \<Longrightarrow>
    block_runs C N I s (Some (b, Swap)) s' evs"

text \<open>A run of blocks with the batches and phases whose handlers ran, in order.\<close>

inductive loop_runs ::
  "crypto \<Rightarrow> node_config \<Rightarrow> block_input list \<Rightarrow> loop_state \<Rightarrow> (u64 \<times> phase) list \<Rightarrow> loop_state \<Rightarrow> bool"
  for C N where
  runs_Nil: "loop_runs C N [] s [] s"
| runs_Cons: "block_runs C N I s k t evs \<Longrightarrow> loop_runs C N Is t ks s' \<Longrightarrow>
    loop_runs C N (I # Is) s ((case k of None \<Rightarrow> [] | Some x \<Rightarrow> [x]) @ ks) s'"

inductive_cases block_runsE: "block_runs C N I s k s' evs"
inductive_cases loop_runsE: "loop_runs C N (I # Is) s ks s'"

lemma entered_position:
  "lp_last_phase (entered C I s) = lp_last_phase s" "lp_last_batch (entered C I s) = lp_last_batch s"
  using frame_track [of "bi_connected I" "drain_gossip C (bi_gossip I) s"] frame_drain [of C "bi_gossip I" s]
  by (simp_all add: entered_def frame_def Let_def)

lemma on_block_entered:
  assumes "new_block I s b p"
  shows "on_block C N I s =
    (if p \<noteq> lp_last_phase s \<or> b \<noteq> lp_last_batch s then
       (if lp_last_batch s + 2 < b then Some (note_block (bi_block I) p b (entered C I s), [])
        else Option.bind (transition_to C N I p b (entered C I s)) (finish_block C I p b))
     else finish_block C I p b (entered C I s))"
proof -
  define s1 where "s1 = track_strategy (bi_connected I) (drain_gossip C (bi_gossip I) s)"
  have f1: "frame s1 = frame s" by (simp add: s1_def)
  then have e1: "lp_epoch s1 = lp_epoch s" "lp_params s1 = lp_params s" by (simp_all add: frame_def)
  have nb: "\<not> bi_block I \<le> lp_last_block (drain_gossip C (bi_gossip I) s)"
    using assms frame_drain [of C "bi_gossip I" s] by (simp add: frame_def new_block_def not_le)
  have en: "entered C I s = s1\<lparr>lp_orch := (lp_orch s1)\<lparr>or_batch_state :=
      bridge_advance_to_block (or_batch_state (lp_orch s1)) (bi_block I)\<rparr>\<rparr>"
    by (simp add: entered_def s1_def Let_def)
  have k: "compute_phase (bi_block I) (lp_epoch s) (lp_params s) = Some p"
    "compute_batch_id (bi_block I) (lp_epoch s) (lp_params s) = Some b"
    using assms by (simp_all add: new_block_def)
  show ?thesis
    using nb
    unfolding on_block_def Let_def s1_def [symmetric] en [symmetric] e1 k bind.bind_lunit entered_position
    by (simp only: if_False)
qed

lemma handled_new_block:
  "new_block I s b p \<Longrightarrow> handled I s = (if moved_on s b p then Some (b, p) else None)"
  by (simp add: handled_def new_block_def moved_on_def not_le [symmetric])

lemma transition_runs:
  assumes "new_block I s b p" "moved_on s b p" "transition_to C N I p b (entered C I s) = Some u"
    "finish_block C I p b u = Some (s', evs)"
  shows "block_runs C N I s (Some (b, p)) s' evs"
proof -
  obtain t where t: "if b \<noteq> lp_last_batch s then begin_batch C N I b (entered C I s) = Some t else t = entered C I s"
    and h: "phase_handler C N I p b t = Some u"
    using assms(3) by (auto simp: transition_to_def bind_eq_Some_conv entered_position split: if_splits)
  show ?thesis
    using assms(1,2,4) t h
    by (cases p) (auto simp: phase_handler_def intro: commits reveals matches swaps)
qed

lemma on_block_runs:
  assumes "on_block C N I s = Some (s', evs)"
  shows "block_runs C N I s (handled I s) s' evs"
proof (cases "bi_block I \<le> lp_last_block s")
  case True
  then have "bi_block I \<le> lp_last_block (drain_gossip C (bi_gossip I) s)"
    using frame_drain [of C "bi_gossip I" s] by (simp add: frame_def)
  with assms True show ?thesis by (auto simp: on_block_def handled_def Let_def intro: stale)
next
  case False
  define s1 where "s1 = track_strategy (bi_connected I) (drain_gossip C (bi_gossip I) s)"
  have e1: "lp_epoch s1 = lp_epoch s" "lp_params s1 = lp_params s"
    using frame_track [of "bi_connected I" "drain_gossip C (bi_gossip I) s"] frame_drain [of C "bi_gossip I" s]
    by (simp_all add: frame_def s1_def)
  have "\<not> bi_block I \<le> lp_last_block (drain_gossip C (bi_gossip I) s)"
    using False frame_drain [of C "bi_gossip I" s] by (simp add: frame_def)
  then obtain b p where nb: "new_block I s b p"
    using assms False unfolding on_block_def Let_def s1_def [symmetric] e1
    by (auto simp: bind_eq_Some_conv new_block_def)
  have eq: "handled I s = (if moved_on s b p then Some (b, p) else None)" by (rule handled_new_block [OF nb])
  consider (skip) "p \<noteq> lp_last_phase s \<or> b \<noteq> lp_last_batch s" "lp_last_batch s + 2 < b"
    | (same) "p = lp_last_phase s" "b = lp_last_batch s" | (move) "moved_on s b p"
    by (auto simp: moved_on_def)
  then show ?thesis
  proof cases
    case skip
    then show ?thesis
      using assms eq skipped [OF nb skip] by (auto simp: on_block_entered [OF nb] moved_on_def)
  next
    case same
    then show ?thesis
      using assms eq nb by (simp add: on_block_entered [OF nb] moved_on_def unchanged)
  next
    case move
    then obtain u where "transition_to C N I p b (entered C I s) = Some u" "finish_block C I p b u = Some (s', evs)"
      using assms by (auto simp: on_block_entered [OF nb] moved_on_def bind_eq_Some_conv)
    then show ?thesis using transition_runs [OF nb move] eq move by simp
  qed
qed

fun clock_trace :: "block_input list \<Rightarrow> clock_state \<Rightarrow> (u64 \<times> phase) list" where
  "clock_trace [] cs = []"
| "clock_trace (I # Is) cs = (case clock_handled I cs of None \<Rightarrow> [] | Some k \<Rightarrow> [k]) @ clock_trace Is (clock_step I cs)"

lemma trace_refines:
  "list_all settlements_only Is \<Longrightarrow> run_blocks C N Is s = Some s' \<Longrightarrow>
    loop_runs C N Is s (clock_trace Is (clock_of s)) s'"
proof (induction Is arbitrary: s)
  case Nil
  then show ?case by (simp add: runs_Nil)
next
  case (Cons I Is)
  then obtain t evs where t: "on_block C N I s = Some (t, evs)" "run_blocks C N Is t = Some s'"
    by (auto simp: bind_eq_Some_conv)
  have ok: "settlements_only I" "list_all settlements_only Is" using Cons.prems(1) by simp_all
  show ?case
    using runs_Cons [OF on_block_runs [OF t(1)] Cons.IH [OF ok(2) t(2)]] step_refines(1) [OF t(1) ok(1)]
    by (simp add: handled_clock)
qed

definition key_less :: "u64 \<times> phase \<Rightarrow> u64 \<times> phase \<Rightarrow> bool" where
  "key_less k k' \<longleftrightarrow> fst k < fst k' \<or> fst k = fst k' \<and> snd k < snd k'"

lemma key_less_trans: "key_less a b \<Longrightarrow> key_less b c \<Longrightarrow> key_less a c"
  by (auto simp: key_less_def)

text \<open>A clock that does not overflow up to a block.\<close>

definition clock_ok :: "clock \<Rightarrow> u64 \<Rightarrow> bool" where
  "clock_ok c h \<longleftrightarrow> params_ok (snd c) \<and>
     unat (anchor_batch_id (fst c)) + (unat h - unat (anchor_block (fst c))) div unat (blocks_per_batch (snd c)) < 2 ^ 64"

lemma block_key_value:
  assumes "clock_ok c h"
  obtains b where "block_key c h = Some (b, phase_of_offset (snd c)
      ((unat h - unat (anchor_block (fst c))) mod unat (blocks_per_batch (snd c))))"
    "unat b = unat (anchor_batch_id (fst c)) + (unat h - unat (anchor_block (fst c))) div unat (blocks_per_batch (snd c))"
proof -
  have p: "params_ok (snd c)" using assms by (simp add: clock_ok_def)
  then have "0 < unat (blocks_per_batch (snd c))" by (simp add: params_ok_def)
  from compute_batch_id_unat [OF this refl, of "fst c" h] assms that show ?thesis
    by (auto simp: clock_ok_def block_key_def compute_phase_refines [OF p])
qed

lemma block_key_mono:
  assumes "clock_ok c h" "clock_ok c h'" "h \<le> h'" "block_key c h = Some k" "block_key c h' = Some k'"
  shows "key_less k k' \<or> k = k'"
proof -
  let ?L = "unat (blocks_per_batch (snd c))"
  let ?o = "unat h - unat (anchor_block (fst c))" and ?o' = "unat h' - unat (anchor_block (fst c))"
  have oo: "?o \<le> ?o'" using assms(3) by (simp add: word_le_nat_alt diff_le_mono)
  obtain b where b: "k = (b, phase_of_offset (snd c) (?o mod ?L))" "unat b = unat (anchor_batch_id (fst c)) + ?o div ?L"
    using block_key_value [OF assms(1)] assms(4) by (metis option.inject)
  obtain b' where b': "k' = (b', phase_of_offset (snd c) (?o' mod ?L))" "unat b' = unat (anchor_batch_id (fst c)) + ?o' div ?L"
    using block_key_value [OF assms(2)] assms(5) by (metis option.inject)
  show ?thesis
  proof (cases "?o div ?L = ?o' div ?L")
    case True
    have "phase_of_offset (snd c) (?o mod ?L) \<le> phase_of_offset (snd c) (?o' mod ?L)"
      by (rule phase_of_offset_mono [OF offset_mono_in_batch [OF oo True]])
    then show ?thesis using True b b' by (auto simp: key_less_def word_unat_eq_iff)
  next
    case False
    then have "?o div ?L < ?o' div ?L" using div_le_mono [OF oo, of ?L] by simp
    then show ?thesis using b b' by (simp add: key_less_def word_less_nat_alt)
  qed
qed

text \<open>The loop stands at the last block it saw.\<close>

definition clock_at :: "clock \<Rightarrow> clock_state \<Rightarrow> bool" where
  "clock_at c cs \<longleftrightarrow> (case cs of ((lst, lp, lb), c') \<Rightarrow> c' = c \<and> clock_ok c lst \<and> block_key c lst = Some (lb, lp))"

lemma clock_step_at:
  assumes "clock_at c cs" "refreshed I c = c" "clock_ok c (bi_block I)"
  shows "clock_at c (clock_step I cs)"
    and "fst (fst cs) \<le> fst (fst (clock_step I cs))"
    and "clock_handled I cs = Some k \<Longrightarrow> block_key c (fst (fst (clock_step I cs))) = Some k \<and>
      key_less (snd (snd (fst cs)), fst (snd (fst cs))) k"
proof -
  obtain lst lp lb where cs: "cs = ((lst, lp, lb), c)" "clock_ok c lst" "block_key c lst = Some (lb, lp)"
    using assms(1) by (auto simp: clock_at_def split: prod.splits)
  obtain b p where k: "block_key c (bi_block I) = Some (b, p)" using block_key_value [OF assms(3)] by metis
  show "clock_at c (clock_step I cs)" "fst (fst cs) \<le> fst (fst (clock_step I cs))"
    using cs k assms(2,3) by (auto simp: clock_step_def clock_at_def)
  show "clock_handled I cs = Some k \<Longrightarrow> block_key c (fst (fst (clock_step I cs))) = Some k \<and>
      key_less (snd (snd (fst cs)), fst (snd (fst cs))) k"
    using cs k block_key_mono [OF cs(2) assms(3) _ cs(3) k]
    by (auto simp: clock_handled_def clock_step_def split: if_splits)
qed

lemma clock_trace_sorted:
  assumes "clock_at c cs" "\<forall>I \<in> set Is. refreshed I c = c \<and> clock_ok c (bi_block I)"
  shows "sorted_wrt key_less ((snd (snd (fst cs)), fst (snd (fst cs))) # clock_trace Is cs)"
  using assms
proof (induction Is arbitrary: cs)
  case Nil
  then show ?case by simp
next
  case (Cons I Is)
  let ?k = "\<lambda>cs :: clock_state. (snd (snd (fst cs)), fst (snd (fst cs)))" and ?t = "clock_step I cs"
  have I: "refreshed I c = c" "clock_ok c (bi_block I)" using Cons.prems(2) by simp_all
  note at = clock_step_at [OF Cons.prems(1) I]
  have key: "block_key c (fst (fst x)) = Some (?k x)" "clock_ok c (fst (fst x))" if "clock_at c x" for x
    using that by (auto simp: clock_at_def split: prod.splits)
  have ih: "sorted_wrt key_less (?k ?t # clock_trace Is ?t)" using Cons.IH [OF at(1)] Cons.prems(2) by simp
  have le: "key_less (?k cs) (?k ?t) \<or> ?k cs = ?k ?t"
    by (rule block_key_mono [OF key(2) [OF Cons.prems(1)] key(2) [OF at(1)] at(2) key(1) [OF Cons.prems(1)] key(1) [OF at(1)]])
  show ?case
  proof (cases "clock_handled I cs")
    case None
    then show ?thesis using ih le by (auto intro: key_less_trans)
  next
    case (Some k)
    then have "k = ?k ?t" "key_less (?k cs) k" using at(3) [OF Some] key(1) [OF at(1)] by simp_all
    then show ?thesis using ih Some by (auto intro: key_less_trans)
  qed
qed

section \<open>The loop returns\<close>

text \<open>The token decimals for which the price divisor of no pair is zero.\<close>

definition decimals_ok :: "(string \<rightharpoonup> u8) \<Rightarrow> bool" where
  "decimals_ok tds = (\<forall>b q. price_divisor (decimals_of tds b) (decimals_of tds q) \<noteq> 0)"

definition crypto_total :: "crypto \<Rightarrow> bool" where
  "crypto_total C = (bcs_order_total C \<and> sha256_len C)"

lemma map_panics_total: "(\<And>x. x \<in> set xs \<Longrightarrow> f x \<noteq> None) \<Longrightarrow> map_panics f xs \<noteq> None"
  by (induction xs) (auto split: option.splits)

lemma outflow_total: "decimals_ok tds \<Longrightarrow> compute_outflow c pair tds \<noteq> None"
  by (simp add: compute_outflow_def decimals_ok_def quote_amount_def checked_div_def Let_def)

lemma validate_total: "decimals_ok (token_decimals ctx) \<Longrightarrow> validate_loop ctx i specs st \<noteq> None"
proof (induction specs arbitrary: i st)
  case (Cons spec specs)
  have "validate_one ctx i spec st \<noteq> None"
    by (auto simp: validate_one_def Let_def outflow_total [OF Cons.prems] split: sum.split option.split)
  then show ?case using Cons by (auto split: option.split)
qed simp

lemma validate_orders_total: "decimals_ok (token_decimals ctx) \<Longrightarrow> validate_orders specs ctx nonces \<noteq> None"
  by (simp add: validate_orders_def Let_def validate_total del: not_None_eq)

lemma encode_total: "bcs_order_total C \<Longrightarrow> \<exists>b. encode_order C x = Inr b"
  unfolding bcs_order_total_def encode_order_def by (metis map_err_simps(2))

lemma sign_canonical_total: "crypto_total C \<Longrightarrow> sign_canonical C key c \<noteq> None"
  using encode_total [of C "canonical_to_order c"]
  by (auto simp: sign_canonical_def Let_def crypto_total_def commit_hash_def order_hash_def sign_order_def)

text \<open>The calls a block awaits all return.\<close>

definition calls_return :: "block_input \<Rightarrow> bool" where
  "calls_return I = list_all (bi_returns I)
     [BatchRequests, MintStateRequest, SendBatchStart, SendRevealStart, SendMatchResult, SendEvents]"

lemma calls_returnD: "calls_return I \<Longrightarrow> bi_returns I c"
  by (cases c) (simp_all add: calls_return_def)

text \<open>What the handlers need of the state: the orchestrator's batch length is not zero, and the gas
  balance can be printed.\<close>

definition bridge_alive :: "loop_state \<Rightarrow> bool" where
  "bridge_alive s \<longleftrightarrow> blocks_per_batch (bb_params (or_batch_state (lp_orch s))) \<noteq> 0 \<and>
     gm_factor (gm_decimals (lp_gas s)) \<noteq> 0"

lemma alive_frame: "frame s' = frame s \<Longrightarrow> bridge_alive s' = bridge_alive s"
  by (simp add: bridge_alive_def frame_def)

lemma display_total: "gm_factor (gm_decimals g) \<noteq> 0 \<Longrightarrow> balance_display g \<noteq> None"
  by (simp add: balance_display_def checked_div_def checked_rem_def Let_def)

lemma alive_ids:
  assumes "blocks_per_batch (bb_params b) \<noteq> 0"
  obtains i p where "bridge_current_batch_id b = Some i" "bridge_current_pool_id C b nft = Some p"
proof -
  obtain i where i: "bridge_current_batch_id b = Some i"
    using assms by (simp add: bridge_current_batch_id_def compute_batch_id_def checked_div_def)
  have "max (bb_num_pools b) 1 \<noteq> 0" by (simp add: max_def) (use word_gt_0 in force)
  with i that show ?thesis
    by (auto simp: bridge_current_pool_id_def compute_pool_assignment_def checked_rem_def Let_def)
qed

lemma alive_bridge:
  assumes "bridge_alive s"
  obtains i p where "bridge_current_batch_id (or_batch_state (lp_orch s)) = Some i"
    "bridge_current_pool_id C (or_batch_state (lp_orch s)) nft = Some p"
  using assms alive_ids [of "or_batch_state (lp_orch s)"] by (metis bridge_alive_def)

lemma strategy_orders_total:
  assumes "crypto_total C" "decimals_ok (nc_token_decimals N)" "bridge_alive s" "calls_return I"
  shows "strategy_orders C N I b s \<noteq> None"
proof -
  obtain i where id: "bridge_current_pool_id C (or_batch_state (lp_orch s)) (nc_nft_id N) = Some i"
    using alive_bridge [OF assms(3)] .
  have shown: "balance_display (lp_gas s) \<noteq> None"
    using assms(3) by (intro display_total) (simp add: bridge_alive_def)
  have "convert_strategy_orders C specs key nft batch n t (nc_token_decimals N) ms nonces \<noteq> None"
    for specs key nft batch n t ms nonces
    using map_panics_total [of _ "sign_canonical C key", OF sign_canonical_total [OF assms(1)]]
    by (simp add: convert_strategy_orders_def Let_def validate_orders_total assms split: option.split)
  then show ?thesis using shown
    by (auto simp: strategy_orders_def id calls_returnD [OF assms(4)] split: option.split strategy_action.split)
qed

lemma collect_total:
  assumes "crypto_total C" shows "collect_revealed C xs \<noteq> None"
proof -
  have "revealed_from C b sg \<noteq> None" for b sg
    using assms order_hash_len
    by (auto simp: revealed_from_def crypto_total_def split: option.split)
      (metis order_hash_total option.distinct(1))
  then have "map_panics (\<lambda>(b, s). revealed_from C b s) xs \<noteq> None" by (intro map_panics_total) auto
  then show ?thesis by (simp add: collect_revealed_def)
qed

lemma commit_total:
  assumes "crypto_total C" "decimals_ok (nc_token_decimals N)" "bridge_alive s" "calls_return I"
  shows "commit_handler C N I b s \<noteq> None"
proof -
  let ?s1 = "drain_gossip C (bi_late_gossip I) s"
  let ?s = "enter_first_batch (?s1\<lparr>lp_orch := clear_commits (lp_orch ?s1)\<rparr>)"
  have f: "frame ?s = frame s" by (simp add: frame_orch clear_commits_def)
  have alive: "bridge_alive ?s" using alive_frame [OF f] assms(3) by simp
  then obtain i p where ids: "bridge_current_batch_id (or_batch_state (lp_orch ?s)) = Some i"
      "bridge_current_pool_id C (or_batch_state (lp_orch ?s)) (or_node_nft_id (lp_orch ?s)) = Some p"
    by (rule alive_bridge)
  obtain os where o: "strategy_orders C N I b ?s = Some os"
    using strategy_orders_total [OF assms(1,2) alive assms(4)] by blast
  have "on_commit_phase (bridge_gossip C) (bridge_batch C) (may_commit ?s) os (lp_orch ?s) \<noteq> None"
    by (simp add: on_commit_phase_def bridge_batch_def ids split: option.split)
  then show ?thesis using o by (auto simp: commit_handler_def Let_def)
qed

lemma reveal_total:
  assumes "bridge_alive s" "calls_return I" shows "reveal_handler C N I s \<noteq> None"
proof -
  let ?s = "drain_gossip C (bi_late_gossip I) s"
  have "bridge_alive ?s" using alive_frame [of ?s s] assms(1) by simp
  then obtain i p where ids: "bridge_current_batch_id (or_batch_state (lp_orch ?s)) = Some i"
      "bridge_current_pool_id C (or_batch_state (lp_orch ?s)) (or_node_nft_id (lp_orch ?s)) = Some p"
    by (rule alive_bridge)
  have "on_reveal_phase (bridge_gossip C) (bridge_batch C) n is (lp_orch ?s) \<noteq> None" for n "is"
    by (simp add: on_reveal_phase_def bridge_batch_def ids)
  moreover have "strategy_indices I ?s \<noteq> None"
    by (simp add: strategy_indices_def calls_returnD [OF assms(2)])
  ultimately show ?thesis by (auto simp: reveal_handler_def Let_def bind_eq_None_conv split_beta)
qed

lemma match_total:
  assumes "crypto_total C" "bridge_alive s" "calls_return I" shows "match_handler C I s \<noteq> None"
proof -
  let ?s = "drain_gossip C (bi_late_gossip I) s"
  have "bridge_alive ?s" using alive_frame [of ?s s] assms(2) by simp
  then obtain i p where ids: "bridge_current_batch_id (or_batch_state (lp_orch ?s)) = Some i"
      "bridge_current_pool_id C (or_batch_state (lp_orch ?s)) (or_node_nft_id (lp_orch ?s)) = Some p"
    by (rule alive_bridge)
  have "on_match_phase C (bridge_gossip C) (bridge_batch C) (lp_orch ?s) \<noteq> None"
    by (simp add: on_match_phase_def bridge_batch_def ids Let_def bind_eq_None_conv collect_total [OF assms(1)])
  then show ?thesis by (auto simp: match_handler_def Let_def calls_returnD [OF assms(3)])
qed

lemma apply_match_total: "price_divisor bd qd \<noteq> 0 \<Longrightarrow> apply_match h sd b q f bp sp bd qd t \<noteq> None"
  by (auto simp: apply_match_def quote_amount_def checked_div_def Let_def split: escrow_side.split prod.split sum.split)

lemma register_total: "price_divisor bd qd \<noteq> 0 \<Longrightarrow> register_match m g blk n b q bd qd M \<noteq> None"
  by (simp add: register_match_def match_booking_def Let_def apply_match_total split: option.split sum.split prod.split)

lemma swap_match_total: "decimals_ok (nc_token_decimals N) \<Longrightarrow> swap_match N now blk m s \<noteq> None"
  by (simp add: swap_match_def Let_def decimals_ok_def register_total split: option.split sum.split prod.split)

lemma swap_matches_total: "decimals_ok (nc_token_decimals N) \<Longrightarrow> swap_matches N now blk ms s \<noteq> None"
  using swap_match_total by (induction ms arbitrary: s) (auto simp: bind_eq_None_conv)

lemma swap_total: "decimals_ok (nc_token_decimals N) \<Longrightarrow> swap_handler C N I s \<noteq> None"
  using swap_matches_total by (auto simp: swap_handler_def Let_def split: prod.split)

lemma handler_total:
  assumes "crypto_total C" "decimals_ok (nc_token_decimals N)" "bridge_alive s" "calls_return I"
  shows "phase_handler C N I ph b s \<noteq> None"
  using commit_total [OF assms] reveal_total [OF assms(3,4)] match_total [OF assms(1,3,4)] swap_total [OF assms(2)]
  by (cases ph) (simp_all add: phase_handler_def)

lemma finish_total:
  assumes "settlements_only I" "calls_return I" shows "finish_block C I p b s \<noteq> None"
proof -
  have "chain_event_step C ev s \<noteq> None" if "settlement_event ev" for ev s
    using that by (cases ev) (simp_all add: chain_event_step_def)
  then have "chain_events_steps C evs s \<noteq> None" if "list_all settlement_event evs" for evs s
    using that by (induction evs arbitrary: s) (auto simp: bind_eq_None_conv)
  then have "poll_events C I s \<noteq> None" for s
    using assms(1) by (simp add: poll_events_def settlements_only_def split: sum.splits)
  then show ?thesis
    by (simp add: finish_block_def Let_def bind_eq_None_conv calls_returnD [OF assms(2)] del: not_None_eq split: prod.split)
qed

lemma begin_total:
  assumes "bridge_alive s" "calls_return I"
  shows "begin_batch C N I b s \<noteq> None"
proof -
  have m: "max n 1 \<noteq> (0 :: u64)" for n by (simp add: max_def) (use word_gt_0 in force)
  have show_ok: "printed_balance pr t \<noteq> None" if "gm_decimals (lp_gas t) = gm_decimals (lp_gas s)" for pr t
    using assms(1) that display_total [of "lp_gas t"] by (simp add: bridge_alive_def printed_balance_def)
  have re: "reassign_pool C N b t \<noteq> None" for t
    using m by (simp add: reassign_pool_def compute_pool_assignment_def checked_rem_def Let_def)
  have pause: "pause_for_gas b t \<noteq> None" if "gm_decimals (lp_gas t) = gm_decimals (lp_gas s)" for t
    using show_ok [OF that] by (simp add: pause_for_gas_def)
  have refresh: "refresh_gas b x t \<noteq> None" if "gm_decimals (lp_gas t) = gm_decimals (lp_gas s)" for x t
    using show_ok that by (simp add: refresh_gas_def update_balance_def Let_def split: option.split)
  have rest: "Option.bind (refresh_gas b (bi_supra I) (refresh_chain_config I t)) (\<lambda>s3.
       Option.bind (reassign_pool C N b (s3\<lparr>lp_manager := expire_stale b 100 (lp_manager s3),
           lp_orch := (lp_orch s3)\<lparr>published_reveals := []\<rparr>\<rparr>)) (pause_for_gas b)) \<noteq> None"
    if t: "lp_gas t = lp_gas s" for t
  proof -
    obtain s3 where s3: "refresh_gas b (bi_supra I) (refresh_chain_config I t) = Some s3"
      using refresh [of "refresh_chain_config I t" "bi_supra I"] t by (auto simp: refresh_config_clock)
    obtain s5 where s5: "reassign_pool C N b (s3\<lparr>lp_manager := expire_stale b 100 (lp_manager s3),
           lp_orch := (lp_orch s3)\<lparr>published_reveals := []\<rparr>\<rparr>) = Some s5"
      using re by blast
    have "gm_decimals (lp_gas s5) = gm_decimals (lp_gas s)"
      using frame_parts [OF reassign_clock [OF s5]] frame_parts [OF refresh_gas_clock [OF s3]] t
      by (simp add: refresh_config_clock)
    then show ?thesis using pause [of s5] by (simp add: s3 s5)
  qed
  obtain i p where ids: "bridge_current_batch_id (or_batch_state (lp_orch s)) = Some i"
      "bridge_current_pool_id C (or_batch_state (lp_orch s)) (nc_nft_id N) = Some p"
    using alive_bridge [OF assms(1)] .
  obtain ph where "bridge_current_phase (or_batch_state (lp_orch s)) = Some ph"
    using assms(1) by (auto simp: bridge_alive_def bridge_current_phase_def compute_phase_def checked_rem_def Let_def)
  then show ?thesis
    using rest by (simp add: begin_batch_def Let_def ids calls_returnD [OF assms(2)] del: not_None_eq split: prod.split)
qed

text \<open>What the loop needs of its state: batch lengths that are not zero, now and after every refresh, and
  a gas balance it can print.\<close>

definition clock_alive :: "loop_state \<Rightarrow> bool" where
  "clock_alive s = (bridge_alive s \<and> blocks_per_batch (lp_params s) \<noteq> 0)"

definition refresh_alive :: "block_input \<Rightarrow> bool" where
  "refresh_alive I = (case bi_params I of Inr p \<Rightarrow> blocks_per_batch p \<noteq> 0 | Inl _ \<Rightarrow> True)"

lemma alive_clocks: "clock_alive s \<longleftrightarrow> blocks_per_batch (snd (bridge_clock s)) \<noteq> 0 \<and>
    gm_factor (gm_decimals (lp_gas s)) \<noteq> 0 \<and> blocks_per_batch (snd (loop_clock s)) \<noteq> 0"
  by (simp add: clock_alive_def bridge_alive_def bridge_clock_def loop_clock_def)

lemma alive_refreshed: "refresh_alive I \<Longrightarrow> blocks_per_batch (snd c) \<noteq> 0 \<Longrightarrow> blocks_per_batch (snd (refreshed I c)) \<noteq> 0"
  by (simp add: refresh_alive_def refreshed_def split: sum.splits)

lemma transition_total:
  assumes "crypto_total C" "decimals_ok (nc_token_decimals N)" "bridge_alive s" "calls_return I"
  shows "transition_to C N I p b s \<noteq> None"
proof -
  obtain t where t: "(if b \<noteq> lp_last_batch s then begin_batch C N I b s else Some s) = Some t"
    using begin_total [OF assms(3,4), of C N b] by (cases "b \<noteq> lp_last_batch s") auto
  have "bridge_clock t = bridge_clock s" "gm_decimals (lp_gas t) = gm_decimals (lp_gas s)"
    using t begin_batch_clock(1,4) by (auto split: if_splits)
  then have "bridge_alive t" using assms(3) by (simp add: bridge_alive_def bridge_clock_def)
  then show ?thesis
    unfolding transition_to_def t using handler_total [OF assms(1,2) _ assms(4)] by simp
qed

lemma block_total:
  assumes "crypto_total C" "decimals_ok (nc_token_decimals N)" "settlements_only I" "clock_alive s" "calls_return I"
  shows "on_block C N I s \<noteq> None"
proof -
  let ?s1 = "track_strategy (bi_connected I) (drain_gossip C (bi_gossip I) s)"
  let ?s2 = "?s1\<lparr>lp_orch := (lp_orch ?s1)\<lparr>or_batch_state :=
      bridge_advance_to_block (or_batch_state (lp_orch ?s1)) (bi_block I)\<rparr>\<rparr>"
  have f: "frame ?s1 = frame s" by simp
  have "lp_params ?s1 = lp_params s" using f by (simp add: frame_def)
  then have nz: "blocks_per_batch (lp_params ?s1) \<noteq> 0" using assms(4) by (simp add: clock_alive_def)
  obtain p where p: "compute_phase (bi_block I) (lp_epoch ?s1) (lp_params ?s1) = Some p"
    using nz by (simp add: compute_phase_def checked_rem_def Let_def)
  obtain b where b: "compute_batch_id (bi_block I) (lp_epoch ?s1) (lp_params ?s1) = Some b"
    using nz by (simp add: compute_batch_id_def checked_div_def)
  have "bridge_alive ?s2"
    using alive_frame [OF f] assms(4) by (simp add: bridge_alive_def clock_alive_def bridge_advance_to_block_def)
  from transition_total [OF assms(1,2) this assms(5)] finish_total [OF assms(3,5)] show ?thesis
    unfolding on_block_def Let_def p b by (simp add: bind_eq_None_conv del: not_None_eq)
qed

lemma alive_step:
  assumes "on_block C N I s = Some (s', evs)" "settlements_only I" "refresh_alive I" "clock_alive s"
  shows "clock_alive s'"
proof (cases "bi_block I \<le> lp_last_block s")
  case True
  then show ?thesis using frame_parts [OF on_block_old [OF True assms(1)]] assms(4) by (simp add: alive_clocks)
next
  case False
  then have "lp_last_block s < bi_block I" by simp
  from on_block_new [OF assms(1,2) this] have "bridge_clock s' = bridge_clock s"
    "gm_decimals (lp_gas s') = gm_decimals (lp_gas s)" "loop_clock s' = loop_clock s \<or> loop_clock s' = refreshed I (loop_clock s)" by metis+
  then show ?thesis using assms(4) alive_refreshed [OF assms(3), of "loop_clock s"] by (auto simp: alive_clocks)
qed

lemma run_total:
  assumes "crypto_total C" "decimals_ok (nc_token_decimals N)" "clock_alive s"
    and "list_all settlements_only Is" "list_all refresh_alive Is" "list_all calls_return Is"
  obtains s' where "run_blocks C N Is s = Some s'"
proof -
  have "run_blocks C N Is s \<noteq> None"
    using assms(3-6)
  proof (induction Is arbitrary: s)
    case (Cons I Is)
    obtain t evs where t: "on_block C N I s = Some (t, evs)"
      using block_total [OF assms(1,2) _ Cons.prems(1), of I] Cons.prems(2,4) by auto
    then show ?case using Cons alive_step [OF t] by simp
  qed simp
  with that show thesis by blast
qed

section \<open>An example run\<close>

definition example_loop :: loop_state where
  "example_loop = \<lparr>lp_orch = example_node 3, lp_validator = iv_new 9, lp_cache = cache_new 30 100,
     lp_manager = manager_new (set_confirmed ''E'' 500 escrow_new) 3, lp_node = sm_new, lp_gas = gm_new 8,
     lp_pause = gas_pause_start, lp_params = example_params, lp_epoch = example_epoch, lp_num_pools = 1,
     lp_my_pool = 0, lp_last_block = 129, lp_last_phase = Swap, lp_last_batch = 9, lp_last_event_block = 129,
     lp_last_settlement_batch = 0, lp_was_connected = False, lp_first_batch_entered = False,
     lp_failed_recent = 0, lp_swarm = [], lp_settle_queue = []\<rparr>"

definition example_config :: node_config where
  "example_config = \<lparr>nc_nft_id = 3, nc_signing_key = [], nc_token_decimals = [''E'' \<mapsto> 0, ''K'' \<mapsto> 0],
     nc_has_submitter = True, nc_swarm_capacity = 64, nc_settle_capacity = 64\<rparr>"

definition example_view :: chain_view where
  "example_view = \<lparr>cv_trustee_pubkey = (\<lambda>_. Inl ''''), cv_valid_key = (\<lambda>_. False), cv_is_active = (\<lambda>_. None)\<rparr>"

definition example_block :: "u64 \<Rightarrow> batch_epoch \<times> batch_params \<Rightarrow> block_input" where
  "example_block h c = \<lparr>bi_block = h, bi_gossip = [], bi_late_gossip = [], bi_connected = False,
     bi_params = Inr (snd c), bi_epoch = Inr (fst c), bi_pools = Inr 1, bi_supra = None,
     bi_view = example_view, bi_now = 0, bi_commit_action = None, bi_reveal_action = None,
     bi_nonces = [], bi_results = [], bi_events = Inr [], bi_returns = (\<lambda>_. True)\<rparr>"

definition example_clock2 :: clock where
  "example_clock2 = (\<lparr>anchor_block = 130, anchor_batch_id = 10\<rparr>, example_params\<lparr>blocks_per_batch := 5\<rparr>)"

lemma example_block_ok:
  "settlements_only (example_block h c)" "refresh_alive (example_block h c) = (blocks_per_batch (snd c) \<noteq> 0)"
  "refreshed (example_block h c) c' = c" "bi_block (example_block h c) = h" "calls_return (example_block h c)"
  by (simp_all add: calls_return_def settlements_only_def refresh_alive_def refreshed_def example_block_def)

lemma example_loop_clocks:
  "clock_of example_loop = ((129, Swap, 9), (example_epoch, example_params))"
  "bridge_clock example_loop = (example_epoch, example_params)"
  by (simp_all add: clock_of_def clock_defs example_loop_def example_node_def orchestrator_new_def batch_bridge_new_def)

lemma example_alive: "clock_alive example_loop"
  by (simp add: clock_alive_def bridge_alive_def gm_new_def gm_factor_def example_loop_def example_node_def orchestrator_new_def
      batch_bridge_new_def example_params_def)

lemma example_total: "crypto_total wire_crypto" "decimals_ok (nc_token_decimals example_config)"
  by (simp_all add: crypto_total_def wire_crypto_def bcs_order_total_def sha256_len_def example_crypto_def decimals_ok_def
      decimals_of_def example_config_def price_divisor_def price_exponent_def min_def)

lemmas example_keys = block_key_def compute_batch_id_def compute_phase_def checked_div_def checked_rem_def
  saturating_sub_def example_epoch_def example_params_def example_clock2_def Let_def

lemma example_key_values:
  "block_key (example_epoch, example_params) 129 = Some (9, Swap)"
  "block_key (example_epoch, example_params) 130 = Some (10, Commit)"
  "block_key (example_epoch, example_params) 131 = Some (10, Commit)"
  "block_key (example_epoch, example_params) 134 = Some (10, Reveal)"
  "block_key (example_epoch, example_params) 137 = Some (10, Match)"
  "block_key (example_epoch, example_params) 138 = Some (10, Swap)"
  "block_key (example_epoch, example_params) 140 = Some (11, Commit)"
  "block_key example_clock2 140 = Some (12, Commit)"
  by (simp_all add: example_keys)

section \<open>Properties\<close>

text \<open>
  C8. The main loop does not panic, unless a request of its client does. Assume a total order encoding
  and 32-byte digests; token decimals for which no price divisor is zero; batch lengths that are not
  zero in the node's two clocks and in whatever parameters the chain returns, and gas decimals whose
  power of ten is not zero; polls that answer with settlements, unknown events or an error; and that
  every request a block makes of the chain and every send into the strategy's event queue returns
  (a request that panics and a send that waits for ever are \<open>None\<close> here). Then no sequence of
  blocks, gossip, strategy answers, settlement results and chain answers makes a block end in a panic.
\<close>

theorem loop_never_panics:
  assumes "crypto_total C" "decimals_ok (nc_token_decimals N)" "clock_alive s"
    and "list_all settlements_only Is" "list_all refresh_alive Is" "list_all calls_return Is"
  shows "\<exists>s'. run_blocks C N Is s = Some s'"
  using run_total [OF assms] by metis

lemma loop_never_panics_witness:
  "\<exists>s'. run_blocks wire_crypto example_config
     [example_block 130 (example_epoch, example_params), example_block 138 (example_epoch, example_params)] example_loop = Some s'"
  by (rule loop_never_panics)
    (simp_all add: example_total example_alive example_block_ok example_params_def)

text \<open>
  C4. The phase handlers of a run go forward. While the chain keeps its epoch and parameters, the clock
  does not overflow up to the blocks seen, the loop starts at the batch and phase of its last block
  and the polls return settlements: of every run that returns, each block runs what \<open>block_runs\<close>
  says, in Commit the COMMIT handler, in Reveal the REVEAL handler, in Match the MATCH handler, in
  Swap the SWAP handler, after the new batch has begun; and the batches and phases whose handlers ran
  are strictly increasing. So no handler runs twice for one phase of one batch, none runs out of
  order, and a stale or repeated block height runs none.
\<close>

theorem handlers_in_order:
  assumes "run_blocks C N Is s = Some s'" "list_all settlements_only Is" "clock_at (loop_clock s) (clock_of s)"
    and "\<forall>I \<in> set Is. refreshed I (loop_clock s) = loop_clock s \<and> clock_ok (loop_clock s) (bi_block I)"
  shows "\<exists>ran. loop_runs C N Is s ran s' \<and> sorted_wrt key_less ((lp_last_batch s, lp_last_phase s) # ran)"
  using clock_trace_sorted [OF assms(3,4)] trace_refines [OF assms(2,1)]
  by (auto simp: clock_of_def position_def)

lemma handlers_in_order_witness:
  "\<exists>s' ran. loop_runs wire_crypto example_config
       (map (\<lambda>h. example_block h (example_epoch, example_params)) [130, 131, 134, 137, 136, 138]) example_loop ran s' \<and>
     sorted_wrt key_less ((9, Swap) # ran)"
proof -
  let ?c = "(example_epoch, example_params)"
  let ?Is = "map (\<lambda>h. example_block h ?c) [130, 131, 134, 137, 136, 138]"
  have so: "list_all settlements_only ?Is" and re: "list_all refresh_alive ?Is" and ca: "list_all calls_return ?Is"
    by (simp_all add: example_block_ok example_params_def)
  obtain s' where run: "run_blocks wire_crypto example_config ?Is example_loop = Some s'"
    using run_total [OF example_total example_alive so re ca] by blast
  have lc: "loop_clock example_loop = ?c" using example_loop_clocks(1) by (simp add: clock_of_def)
  have at: "clock_at (loop_clock example_loop) (clock_of example_loop)"
    by (simp add: lc example_loop_clocks clock_at_def clock_ok_def params_ok_def example_key_values)
      (simp add: example_params_def example_epoch_def)
  have ok: "\<forall>I \<in> set ?Is. refreshed I (loop_clock example_loop) = loop_clock example_loop \<and>
      clock_ok (loop_clock example_loop) (bi_block I)"
    by (simp add: lc example_block_ok clock_ok_def params_ok_def) (simp add: example_params_def example_epoch_def)
  have "lp_last_batch example_loop = 9" "lp_last_phase example_loop = Swap" by (simp_all add: example_loop_def)
  with handlers_in_order [OF run so at ok] show ?thesis by auto
qed

text \<open>The handlers of that run.\<close>

lemma example_run_handlers:
  "clock_trace (map (\<lambda>h. example_block h (example_epoch, example_params)) [130, 131, 134, 137, 136, 138])
     (clock_of example_loop) = [(10, Commit), (10, Reveal), (10, Match), (10, Swap)]"
  unfolding example_loop_clocks
  by (simp add: clock_handled_def clock_step_def example_block_ok example_key_values)

text \<open>
  C27. Over any run the loop's position and clock follow the clock machine, which takes up the epoch and
  parameters the chain returns at a batch boundary, and the clock of the orchestrator's batch bridge never
  changes. After a parameter change the loop runs its handlers for one batch while the orchestrator
  publishes and matches for another.
\<close>

theorem orchestrator_clock_frozen:
  assumes "run_blocks C N Is s = Some s'" "list_all settlements_only Is"
  shows "clock_of s' = fold clock_step Is (clock_of s) \<and> bridge_clock s' = bridge_clock s"
  by (rule run_refines [OF assms])

lemma orchestrator_clock_frozen_witness:
  "\<exists>s'. run_blocks wire_crypto example_config [example_block 130 example_clock2, example_block 140 example_clock2]
       example_loop = Some s' \<and> lp_last_batch s' = 12 \<and>
     compute_batch_id 140 (fst (bridge_clock s')) (snd (bridge_clock s')) = Some 11"
proof -
  let ?Is = "[example_block 130 example_clock2, example_block 140 example_clock2]"
  have so: "list_all settlements_only ?Is" and re: "list_all refresh_alive ?Is" and ca: "list_all calls_return ?Is"
    by (simp_all add: example_block_ok example_clock2_def example_params_def)
  obtain s' where run: "run_blocks wire_crypto example_config ?Is example_loop = Some s'"
    using run_total [OF example_total example_alive so re ca] by blast
  note t = orchestrator_clock_frozen [OF run so, unfolded example_loop_clocks]
  have "fold clock_step ?Is ((129, Swap, 9), (example_epoch, example_params)) = ((140, Commit, 12), example_clock2)"
    by (simp add: clock_step_def clock_handled_def example_block_ok example_key_values)
  then have "lp_last_batch s' = 12" using t by (simp add: clock_of_def position_def)
  moreover have "compute_batch_id 140 (fst (bridge_clock s')) (snd (bridge_clock s')) = Some 11"
    using t by (simp add: example_keys)
  ultimately show ?thesis using run by blast
qed

end
