(* ===== verification/LoopTrades.thy ===== *)
theory LoopTrades
  imports LoopOrder
begin

text \<open>
  What one round of the main loop does with orders and matches: the orders it commits to, and the
  settlements it books in the SWAP phase.
\<close>

section \<open>The orders of a COMMIT phase\<close>

lemma map_panics_set: "map_panics f xs = Some ys \<Longrightarrow> y \<in> set ys \<Longrightarrow> \<exists>x \<in> set xs. f x = Some y"
  by (induction xs arbitrary: ys) (auto split: option.splits)

lemma map_panics_len: "map_panics f xs = Some ys \<Longrightarrow> length ys = length xs"
  by (induction xs arbitrary: ys) (auto split: option.splits)

text \<open>An order of the node's own: for its NFT and the batch, in a market of the list, at a price, and
  signed with its key.\<close>

definition own_order :: "crypto \<Rightarrow> node_config \<Rightarrow> market_config list \<Rightarrow> u64 \<Rightarrow> validated_order \<Rightarrow> bool" where
  "own_order C N ms b v \<longleftrightarrow> (\<exists>c. sign_canonical C (nc_signing_key N) c = Some v \<and> co_nft_id c = nc_nft_id N \<and>
     co_batch_id c = b \<and> co_price c \<noteq> 0 \<and> co_side c \<in> {0, 1} \<and>
     bytes_str (co_symbol c) \<in> (\<lambda>mc. bytes_str (mc_symbol mc)) ` set ms)"

lemma strategy_orders_own:
  assumes "strategy_orders C N I b s = Some (Some vs)"
  shows "list_all (own_order C N (market_configs (lp_orch s)) b) vs \<and>
    length vs \<le> unat (ucast (commits_per_batch (lp_params s)) :: u32)"
proof -
  obtain specs where c: "convert_strategy_orders C specs (nc_signing_key N) (nc_nft_id N) b
      (commits_per_batch (lp_params s)) (mg_tracker (lp_manager s)) (nc_token_decimals N)
      (market_configs (lp_orch s)) (bi_nonces I) = Some vs"
    using assms by (auto simp: strategy_orders_def bind_eq_Some_conv split: if_splits option.splits strategy_action.splits)
  then obtain ctx res where v: "validate_orders specs ctx (bi_nonces I) = Some res"
    and m: "map_panics (sign_canonical C (nc_signing_key N)) (vr_orders res) = Some vs"
    and ctx: "active_pairs ctx = (\<lambda>mc. bytes_str (mc_symbol mc)) ` set (market_configs (lp_orch s))"
      "oc_nft_id ctx = nc_nft_id N" "oc_batch_id ctx = b" "oc_commits_per_batch ctx = ucast (commits_per_batch (lp_params s))"
    by (auto simp: convert_strategy_orders_def Let_def split: option.splits)
  note inv = validate_orders_inv(2,3) [OF v]
  have "own_order C N (market_configs (lp_orch s)) b v" if "v \<in> set vs" for v
    using map_panics_set [OF m that] inv(2) by (auto simp: own_order_def order_ok_def ctx)
  then show ?thesis using inv(1) map_panics_len [OF m] by (simp add: list_all_iff ctx)
qed

lemma flush_orch: "committed_orders (lp_orch (flush_outbound N s)) = committed_orders (lp_orch s)"
  "published_commits (lp_orch (flush_outbound N s)) = published_commits (lp_orch s)"
  "market_configs (lp_orch (flush_outbound N s)) = market_configs (lp_orch s)"
  by (simp_all add: flush_outbound_def split: prod.split)

lemma on_commit_result:
  assumes "on_commit_phase (bridge_gossip C) (bridge_batch C) can os orch = Some (orch', n)"
    and "committed_orders orch = []" "published_commits orch = []"
  shows "market_configs orch' = market_configs orch" "committed_orders orch' = [] \<or> os = Some (committed_orders orch')"
    "map cm_commit_hash (published_commits orch') = map vo_commit_hash (committed_orders orch')"
proof -
  consider (none) "orch' = orch \<or> orch' = push_event (EvDisconnected ''commit timeout'') orch"
    | (ords) ords i p where "os = Some ords"
        "foldl (\<lambda>s ord. publish_order (bridge_gossip C) i p ord s) (orch, 0) ords = (orch', n)"
    using assms(1) by (auto simp: on_commit_phase_def bind_eq_Some_conv split: if_splits option.splits)
  then have "market_configs orch' = market_configs orch \<and> (committed_orders orch' = [] \<or> os = Some (committed_orders orch')) \<and>
    map cm_commit_hash (published_commits orch') = map vo_commit_hash (committed_orders orch')"
  proof cases
    case none
    then show ?thesis using assms(2,3) by (auto simp: push_event_def)
  next
    case (ords ords i p)
    then show ?thesis using bridge.publish_orders_effect [OF ords(2)] assms(2,3) by (simp add: comp_def)
  qed
  then show "market_configs orch' = market_configs orch" "committed_orders orch' = [] \<or> os = Some (committed_orders orch')"
    "map cm_commit_hash (published_commits orch') = map vo_commit_hash (committed_orders orch')" by simp_all
qed

lemma enter_orch: "lp_orch (enter_first_batch s) = lp_orch s"
  by (simp add: enter_first_batch_def split: prod.split sum.split)

lemma commit_handler_own:
  assumes "commit_handler C N I b s = Some s'"
  shows "list_all (own_order C N (market_configs (lp_orch s')) b) (committed_orders (lp_orch s')) \<and>
    length (committed_orders (lp_orch s')) \<le> unat (ucast (commits_per_batch (lp_params s)) :: u32) \<and>
    map cm_commit_hash (published_commits (lp_orch s')) = map vo_commit_hash (committed_orders (lp_orch s'))"
proof -
  let ?s1 = "drain_gossip C (bi_late_gossip I) s"
  define t where "t = enter_first_batch (?s1\<lparr>lp_orch := clear_commits (lp_orch ?s1)\<rparr>)"
  obtain os orch n where o: "strategy_orders C N I b t = Some os"
    and c: "on_commit_phase (bridge_gossip C) (bridge_batch C) (may_commit t) os (lp_orch t) = Some (orch, n)"
    and s': "s' = flush_outbound N (t\<lparr>lp_orch := orch\<rparr>)"
    using assms by (auto simp: commit_handler_def Let_def bind_eq_Some_conv t_def)
  have "frame t = frame s" by (simp add: t_def frame_orch clear_commits_def)
  then have p: "lp_params t = lp_params s" by (simp add: frame_def)
  have "committed_orders (lp_orch t) = []" "published_commits (lp_orch t) = []"
    by (simp_all add: t_def enter_orch clear_commits_def)
  note r = on_commit_result [OF c this]
  show ?thesis
    using r strategy_orders_own [of C N I b t] o by (auto simp: s' flush_orch p)
qed

text \<open>
  C7. A node commits only to orders of its own: after the COMMIT handler every committed order is signed
  with the node's key and encodes an order of its NFT for the batch the loop is in, on a side, at a
  non-zero price and in a market it knows; there are at most \<open>commits_per_batch\<close> of them (as a 32-bit
  number), and the published commitments carry their hashes in order.
\<close>

theorem committed_orders_own:
  assumes "commit_handler C N I b s = Some s'"
  shows "list_all (own_order C N (market_configs (lp_orch s')) b) (committed_orders (lp_orch s')) \<and>
    length (committed_orders (lp_orch s')) \<le> unat (ucast (commits_per_batch (lp_params s)) :: u32) \<and>
    map cm_commit_hash (published_commits (lp_orch s')) = map vo_commit_hash (committed_orders (lp_orch s'))"
  by (rule commit_handler_own [OF assms])

section \<open>An example round\<close>

definition trading_loop :: loop_state where
  "trading_loop = example_loop\<lparr>lp_node := sm_new\<lparr>sm_state := Trading\<rparr>,
     lp_manager := manager_new (set_confirmed ''EMM'' 500 escrow_new) 3,
     lp_orch := (example_node 3)\<lparr>market_configs := [\<lparr>mc_symbol = char_bytes ''EMM/KAY'', mc_min_quantity = 1\<rparr>]\<rparr>\<rparr>"

definition trading_config :: node_config where
  "trading_config = example_config\<lparr>nc_token_decimals := [''EMM'' \<mapsto> 0, ''KAY'' \<mapsto> 0]\<rparr>"

definition trading_block :: block_input where
  "trading_block = (example_block 130 (example_epoch, example_params))
     \<lparr>bi_connected := True, bi_commit_action := Some (ActCommit [sell_spec ''3'']), bi_nonces := [[]]\<rparr>"

abbreviation trading_markets :: "market_config list" where
  "trading_markets \<equiv> [\<lparr>mc_symbol = char_bytes ''EMM/KAY'', mc_min_quantity = 1\<rparr>]"

lemma trading_convert:
  "\<exists>v. convert_strategy_orders wire_crypto [sell_spec ''3''] k 3 10 3 (set_confirmed ''EMM'' 500 escrow_new)
      [''EMM'' \<mapsto> 0, ''KAY'' \<mapsto> 0] trading_markets [[]] = Some [v]"
proof -
  let ?t = "set_confirmed ''EMM'' 500 escrow_new"
  let ?ctx = "\<lparr>active_pairs = set (map (\<lambda>mc. bytes_str (mc_symbol mc)) trading_markets),
                 min_quantities = hm_get (hm_collect
                   (map (\<lambda>mc. (bytes_str (mc_symbol mc), mc_min_quantity mc)) trading_markets)),
                 token_decimals = [''EMM'' \<mapsto> 0, ''KAY'' \<mapsto> 0],
                 projected_balances = (\<lambda>k. if k \<in> set (tracked_tokens ?t) then Some (projected k ?t) else None),
                 oc_commits_per_batch = ucast (3 :: u64), oc_nft_id = 3, oc_batch_id = 10\<rparr> :: order_context"
  let ?st = "\<lparr>vs_result = \<lparr>vr_orders = [], vr_warnings = []\<rparr>, vs_outflows = Map.empty, vs_nonces = [[]]\<rparr> :: validate_state"
  have p: "projected_in ?ctx ''EMM'' = 500"
    by (simp add: projected_in_def tracked_tokens_def set_confirmed_def put_balance_def escrow_new_def
        projected_def tb_projected_def entry_or_default_def hm_get_or_def default_balance_def out_total_def
        hm_insert_def hm_keys_def)
  have m: "min_quantities ?ctx ''EMM/KAY'' = Some 1" by (simp add: hm_collect_def)
  obtain st' where st': "validate_one ?ctx 0 (sell_spec ''3'') ?st = Some st'" "length (vr_orders (vs_result st')) = 1"
    using validate_sell [of "''3''" ?ctx ?st 0] p m
    by (auto simp: all_digits_def char_digit_def cumulative_outflow_def)
  then obtain c where c: "vr_orders (vs_result st') = [c]" by (cases "vr_orders (vs_result st')") auto
  have l: "unat (oc_commits_per_batch ?ctx) = 3" by simp
  have "validate_orders [sell_spec ''3''] ?ctx [[]] = Some (vs_result st')"
    using st'(1) unfolding validate_orders_def Let_def l by simp
  then have "convert_strategy_orders wire_crypto [sell_spec ''3''] k 3 10 3 ?t
      [''EMM'' \<mapsto> 0, ''KAY'' \<mapsto> 0] trading_markets [[]] = map_panics (sign_canonical wire_crypto k) [c]"
    unfolding convert_strategy_orders_def Let_def by (simp only: option.case c)
  then show ?thesis using sign_canonical_total [of wire_crypto k c] example_total by auto
qed

lemma trading_commits: "\<exists>s'. commit_handler wire_crypto trading_config trading_block 10 trading_loop = Some s' \<and>
    length (committed_orders (lp_orch s')) = 1"
proof -
  let ?t = "enter_first_batch (drain_gossip wire_crypto (bi_late_gossip trading_block) trading_loop
      \<lparr>lp_orch := clear_commits (lp_orch (drain_gossip wire_crypto (bi_late_gossip trading_block) trading_loop))\<rparr>)"
  have d: "drain_gossip wire_crypto (bi_late_gossip trading_block) trading_loop = trading_loop"
    by (simp add: drain_gossip_def drain_inbound_def trading_block_def example_block_def trading_loop_def)
  have t: "?t = trading_loop\<lparr>lp_orch := clear_commits (lp_orch trading_loop)\<rparr>"
    unfolding d by (simp add: enter_first_batch_def trading_loop_def)
  have m: "may_commit ?t" unfolding t
    by (simp add: may_commit_def trading_loop_def example_loop_def gas_pause_start_def)
  have alive: "bridge_alive ?t" unfolding t
    by (simp add: bridge_alive_def clear_commits_def trading_loop_def example_node_def orchestrator_new_def
        batch_bridge_new_def example_params_def example_loop_def gm_new_def gm_factor_def)
  then obtain i p where ids: "bridge_current_batch_id (or_batch_state (lp_orch ?t)) = Some i"
      "bridge_current_pool_id wire_crypto (or_batch_state (lp_orch ?t)) (or_node_nft_id (lp_orch ?t)) = Some p"
    by (rule alive_bridge)
  obtain own where own: "bridge_current_pool_id wire_crypto (or_batch_state (lp_orch ?t)) (nc_nft_id trading_config) = Some own"
    using alive_bridge [OF alive] .
  have bal: "balance_display (lp_gas ?t) \<noteq> None"
    using alive by (intro display_total) (simp add: bridge_alive_def)
  have calls: "bi_returns trading_block c" for c by (simp add: trading_block_def example_block_def)
  have con: "bi_connected trading_block" "bi_commit_action trading_block = Some (ActCommit [sell_spec ''3''])"
    "bi_nonces trading_block = [[]]" by (simp_all add: trading_block_def)
  obtain w where w: "convert_strategy_orders wire_crypto [sell_spec ''3''] (nc_signing_key trading_config) 3 10 3
      (set_confirmed ''EMM'' 500 escrow_new) [''EMM'' \<mapsto> 0, ''KAY'' \<mapsto> 0] trading_markets [[]] = Some [w]"
    using trading_convert [of "nc_signing_key trading_config"] by auto
  have parts: "nc_nft_id trading_config = 3" "commits_per_batch (lp_params ?t) = 3"
    "mg_tracker (lp_manager ?t) = set_confirmed ''EMM'' 500 escrow_new"
    "nc_token_decimals trading_config = [''EMM'' \<mapsto> 0, ''KAY'' \<mapsto> 0]" "market_configs (lp_orch ?t) = trading_markets"
    unfolding t by (simp_all add: trading_config_def trading_loop_def clear_commits_def
        example_config_def example_loop_def manager_new_def example_params_def)
  have v: "strategy_orders wire_crypto trading_config trading_block 10 ?t = Some (Some [w])"
    using m own bal w calls con unfolding strategy_orders_def parts by simp
  obtain o' n where f: "foldl (\<lambda>s ord. publish_order ex_gossip i p ord s) (lp_orch ?t, 0) [w] = (o', n)"
    by (cases "foldl (\<lambda>s ord. publish_order ex_gossip i p ord s) (lp_orch ?t, 0) [w]")
  have "on_commit_phase ex_gossip ex_batch (may_commit ?t) (Some [w]) (lp_orch ?t) = Some (o', n)"
    using f m ids by (simp add: on_commit_phase_def bridge_batch_def)
  then have "commit_handler wire_crypto trading_config trading_block 10 trading_loop
      = Some (flush_outbound trading_config (?t\<lparr>lp_orch := o'\<rparr>))"
    unfolding commit_handler_def Let_def v by simp
  moreover have "committed_orders o' = [w]"
    using bridge.publish_orders_effect [OF f] unfolding t by (simp add: clear_commits_def)
  ultimately show ?thesis by (simp add: flush_orch)
qed

definition foreign_match :: "u64 \<Rightarrow> match_rec" where
  "foreign_match fill = \<lparr>m_batch_id = 10, m_pool_id = 0, m_symbol = char_bytes ''EMM/KAY'',
     buyer = \<lparr>r_order = \<lparr>o_nft_id = 1, o_symbol = char_bytes ''EMM/KAY'', o_side = 1, o_price = 50, o_quantity = fill,
        o_batch_id = 10, o_nonce = []\<rparr>, r_signature = [], r_order_hash = []\<rparr>,
     seller = \<lparr>r_order = \<lparr>o_nft_id = 2, o_symbol = char_bytes ''EMM/KAY'', o_side = 0, o_price = 48, o_quantity = fill,
        o_batch_id = 10, o_nonce = []\<rparr>, r_signature = [], r_order_hash = []\<rparr>,
     fill_quantity = fill, settlement_price = 49, match_hash = [1], gas_payer_nft_id = 1\<rparr>"

lemma trading_tracker: "mg_tracker (lp_manager trading_loop) = set_confirmed ''EMM'' 500 escrow_new"
  by (simp add: trading_loop_def manager_new_def)

lemma committed_orders_own_witness:
  "\<exists>s' v. commit_handler wire_crypto trading_config trading_block 10 trading_loop = Some s' \<and>
     committed_orders (lp_orch s') = [v] \<and> own_order wire_crypto trading_config (market_configs (lp_orch s')) 10 v"
proof -
  obtain s' where s': "commit_handler wire_crypto trading_config trading_block 10 trading_loop = Some s'"
    "length (committed_orders (lp_orch s')) = 1" using trading_commits by blast
  then obtain v where "committed_orders (lp_orch s') = [v]" by (cases "committed_orders (lp_orch s')") auto
  then show ?thesis using committed_orders_own [OF s'(1)] s'(1) by auto
qed

lemma trading_facts:
  "projected ''EMM'' (mg_tracker (lp_manager trading_loop)) = 500" "esc_ok (mg_tracker (lp_manager trading_loop))"
  "\<not> has_pending h (mg_tracker (lp_manager trading_loop))" "split_symbol ''EMM/KAY'' = (''EMM'', ''KAY'')"
  "decimals_ok (nc_token_decimals trading_config)"
proof -
  have b: "balances (mg_tracker (lp_manager trading_loop)) = [(''EMM'', default_balance\<lparr>confirmed := 500\<rparr>)]"
    by (simp add: trading_tracker set_confirmed_def put_balance_def escrow_new_def entry_or_default_def hm_get_or_def
        hm_insert_def)
  show "projected ''EMM'' (mg_tracker (lp_manager trading_loop)) = 500" "esc_ok (mg_tracker (lp_manager trading_loop))"
    "\<not> has_pending h (mg_tracker (lp_manager trading_loop))"
    by (simp_all add: b projected_def tb_projected_def out_total_def esc_ok_def tb_ok_def hm_wf_def has_pending_def
        hm_values_def holds_pending_def hm_contains_def default_balance_def)
  show "split_symbol ''EMM/KAY'' = (''EMM'', ''KAY'')" by (simp add: split_symbol_def)
  show "decimals_ok (nc_token_decimals trading_config)"
    by (simp add: trading_config_def decimals_ok_def decimals_of_def price_divisor_def price_exponent_def)
qed

text \<open>
  The node books trades it is no party to: in the SWAP phase a match between two other NFTs, which
  another node pays for, is registered as a sale of this node's own. Whenever the node holds enough of
  the base token, its available balance drops by the whole quantity of that trade, and the settlement is
  listed as pending.
\<close>

theorem foreign_match_booked:
  assumes "r_nft (buyer m) \<noteq> nc_nft_id N" "r_nft (seller m) \<noteq> nc_nft_id N" "gas_payer_nft_id m \<noteq> nc_nft_id N"
    and "mg_own_nft_id (lp_manager s) = nc_nft_id N" "split_symbol (bytes_str (m_symbol m)) = (base, quote)" "base \<noteq> quote"
    and "esc_ok (mg_tracker (lp_manager s))" "\<not> has_pending (hex_encode (match_hash m)) (mg_tracker (lp_manager s))"
    and "fill_quantity m \<le> projected base (mg_tracker (lp_manager s))"
    and "price_divisor (decimals_of (nc_token_decimals N) base) (decimals_of (nc_token_decimals N) quote) \<noteq> 0"
  shows "\<exists>s'. swap_match N now block m s = Some s' \<and>
    projected base (mg_tracker (lp_manager s')) = projected base (mg_tracker (lp_manager s)) - fill_quantity m \<and>
    is_pending (hex_encode (match_hash m)) (lp_manager s') \<and> lp_settle_queue s' = lp_settle_queue s"
proof -
  obtain M' where "register_match m False block (blocks_per_batch (lp_params s)) base quote
      (decimals_of (nc_token_decimals N) base) (decimals_of (nc_token_decimals N) quote) (lp_manager s)
      = Some (M', Inr ())"
    "projected base (mg_tracker M') = projected base (mg_tracker (lp_manager s)) - fill_quantity m"
    "is_pending (hex_encode (match_hash m)) M'"
    using register_foreign [OF assms(7,8,6,9,10), of False block "blocks_per_batch (lp_params s)"] assms(1,4) by auto
  then show ?thesis using assms(3,5) by (simp add: swap_match_def Let_def)
qed
lemma foreign_match_booked_witness:
  "\<exists>s'. swap_match trading_config 0 138 (foreign_match 20) trading_loop = Some s' \<and>
    projected ''EMM'' (mg_tracker (lp_manager s')) = 480 \<and> lp_settle_queue s' = []"
proof -
  have "\<exists>s'. swap_match trading_config 0 138 (foreign_match 20) trading_loop = Some s' \<and>
    projected ''EMM'' (mg_tracker (lp_manager s')) = projected ''EMM'' (mg_tracker (lp_manager trading_loop)) - fill_quantity (foreign_match 20) \<and>
    is_pending (hex_encode (match_hash (foreign_match 20))) (lp_manager s') \<and> lp_settle_queue s' = lp_settle_queue trading_loop"
    by (rule foreign_match_booked [where quote = "''KAY''"])
      (simp_all add: trading_facts foreign_match_def trading_facts(5) [unfolded decimals_ok_def],
        simp_all add: trading_config_def example_config_def trading_loop_def manager_new_def)
  then show ?thesis unfolding trading_facts(1) by (auto simp: foreign_match_def trading_loop_def example_loop_def)
qed

end
