(* ===== verification/Replay.thy ===== *)
theory Replay
  imports Agreement
begin

text \<open>
  What the inbound validator of \<open>src/run.rs\<close> does not tie to a reveal: its batch. The signature covers
  the order alone, the batch of the message is not compared with that of the order, and the content
  hashes that stop duplicates are cleared every \<open>BATCH_WINDOW\<close> batches.
\<close>

lemma accept_signed_reveal:
  assumes "batch_in_range v b" "sha256 C bs \<notin> iv_seen_reveals v" "msg_count v n b < MAX_MSGS_PER_NFT_PER_BATCH"
    and "iv_nft_pubkeys v n = Some pk" "verify C pk bs sg"
  shows "snd (accept_reveal C n b bs sg v)"
  using assms by (simp add: accept_reveal_def seen_insert_def check_rate_limit_def msg_count_def Let_def not_le)

text \<open>The node's gossip state after the maintenance of a new batch and one inbound message.\<close>

definition maintained_then ::
  "crypto \<Rightarrow> u64 \<Rightarrow> gossip_message \<Rightarrow> inbound_validator \<times> gossip_bridge \<Rightarrow> inbound_validator \<times> gossip_bridge" where
  "maintained_then C b msg vg = inbound_step C msg (gossip_maintenance b vg)"

text \<open>
  Old orders can be replayed: when a batch whose number is a multiple of \<open>BATCH_WINDOW\<close> begins, anyone
  who relays an order its owner once signed, for whatever earlier batch, with the number of the new batch
  in the message has it stored among the reveals of that batch, from which the MATCH phase builds its
  input, although its owner neither committed nor revealed it there.
\<close>

theorem replayed_order_stored:
  assumes "iv_nft_pubkeys v (o_nft_id ord) = Some pk" "verify C pk (wire_order_bytes C ord) sg"
    and "iv_current_batch v < b" "b mod BATCH_WINDOW = 0" "msg_count v (o_nft_id ord) b < MAX_MSGS_PER_NFT_PER_BATCH"
  shows "bridge_received_reveals (snd (maintained_then C b (RevealOrder b p ord sg) (v, g))) b =
    bridge_received_reveals g b @ [\<lparr>rm_nft_id = o_nft_id ord, rm_pool_id = p, rm_batch_id = b,
      rm_order_bytes = wire_order_bytes C ord, rm_signature = sg\<rparr>]"
proof -
  let ?v = "reset_stats (expire_old_batches (update_batch b v))"
  let ?lower = "saturating_sub b BATCH_WINDOW"
  have low: "?lower \<le> b" by (simp add: saturating_sub_def word_le_nat_alt unat_sub word_less_nat_alt not_less)
  have v: "iv_current_batch ?v = b" "iv_seen_reveals ?v = {}" "iv_nft_pubkeys ?v = iv_nft_pubkeys v"
    "msg_count ?v (o_nft_id ord) b = msg_count v (o_nft_id ord) b"
    using assms(3,4) low by (simp_all add: reset_stats_def expire_old_batches_def update_batch_def Let_def msg_count_def)
  have up: "b \<le> saturating_add b BATCH_WINDOW"
    by (simp add: saturating_add_def) (simp add: word_le_nat_alt unat_add_no_wrap)
  have "snd (accept_reveal C (o_nft_id ord) b (wire_order_bytes C ord) sg ?v)"
    by (rule accept_signed_reveal [where pk = pk]) (use assms v low up in \<open>simp_all add: batch_in_range_def\<close>)
  then show ?thesis
    by (simp add: maintained_then_def gossip_maintenance_def Let_def split_beta)
      (simp add: hm_get_retain low bridge_received_reveals_def hm_get_or_def)
qed

lemma replayed_order_stored_witness:
  "\<exists>r. bridge_received_reveals (snd (maintained_then wire_crypto 105
       (RevealOrder 105 0 (r_order (example_reveal 1 1 50 10 7)) (replicate 64 0))
       ((iv_new 104)\<lparr>iv_nft_pubkeys := [1 \<mapsto> [9]]\<rparr>, gossip_bridge_new))) 105 = [r] \<and> rm_batch_id r = 105 \<and>
     wire_read (rm_order_bytes r) = Some (r_order (example_reveal 1 1 50 10 7)) \<and>
     o_batch_id (r_order (example_reveal 1 1 50 10 7)) < 105"
proof -
  let ?v = "(iv_new 104)\<lparr>iv_nft_pubkeys := [1 \<mapsto> [9]]\<rparr>"
  let ?o = "r_order (example_reveal 1 1 50 10 7)"
  have "bridge_received_reveals (snd (maintained_then wire_crypto 105 (RevealOrder 105 0 ?o (replicate 64 0)) (?v, gossip_bridge_new))) 105
    = bridge_received_reveals gossip_bridge_new 105 @ [\<lparr>rm_nft_id = o_nft_id ?o, rm_pool_id = 0, rm_batch_id = 105,
      rm_order_bytes = wire_order_bytes wire_crypto ?o, rm_signature = replicate 64 0\<rparr>]"
    by (rule replayed_order_stored [where pk = "[9]"])
      (simp_all add: example_reveal_def verify_def wire_crypto_def example_crypto_def iv_new_def BATCH_WINDOW_def
        msg_count_def MAX_MSGS_PER_NFT_PER_BATCH_def)
  moreover have "wire_order_bytes wire_crypto ?o = wire_order ?o"
    by (simp add: wire_order_bytes_def encode_order_def wire_crypto_def)
  moreover have "bridge_received_reveals gossip_bridge_new 105 = []"
    by (simp add: bridge_received_reveals_def gossip_bridge_new_def hm_get_or_def)
  moreover have "o_batch_id ?o < 105" by (simp add: example_reveal_def)
  ultimately show ?thesis by simp
qed

end
