(* ===== verification/BatchLifecycle.thy ===== *)
theory BatchLifecycle
  imports Matching GossipValidation Batch
begin

text \<open>
  \<open>crates/batch_state/src/lib.rs\<close>: the state of one batch. Commits are collected in the COMMIT phase,
  reveals must open a commit in the REVEAL phase, the transition to MATCH runs the engine once, and the
  rollover clears everything. \<open>None\<close> is a panic of the order encoding.
\<close>

datatype batch_state_error =
    WrongPhaseForCommit
  | WrongPhaseForReveal
  | NoMatchingCommit
  | AlreadyMatched

record bs_commit =
  bc_batch_id :: u64
  bc_pool_id :: u64
  bc_hash :: bytes
  bc_nft_id :: u64
  bc_signature :: bytes
  bc_revealed :: bool

record own_commit =
  oc_order :: order
  oc_order_signature :: bytes
  oc_commit_signature :: bytes
  oc_order_hash :: bytes
  oc_revealed :: bool

record batch_state =
  bs_batch_id :: u64
  bs_pool_id :: u64
  bs_phase :: phase
  bs_params :: batch_params
  bs_commits :: "(bytes, bs_commit) hmap"
  bs_reveals :: "(bytes, revealed_order) hmap"
  bs_matches :: "match_rec list"
  bs_my_commits :: "own_commit list"
  bs_quota_tracker :: quota_tracker
  bs_market_configs :: "(bytes, market_config) hmap"
  bs_matched :: bool

definition market_table :: "market_config list \<Rightarrow> (bytes, market_config) hmap" where
  "market_table ms = hm_collect (map (\<lambda>m. (mc_symbol m, m)) ms)"

definition bs_new :: "u64 \<Rightarrow> u64 \<Rightarrow> phase \<Rightarrow> batch_params \<Rightarrow> market_config list \<Rightarrow> batch_state" where
  "bs_new batch_id pool_id ph params markets =
     \<lparr>bs_batch_id = batch_id, bs_pool_id = pool_id, bs_phase = ph, bs_params = params, bs_commits = [],
      bs_reveals = [], bs_matches = [], bs_my_commits = [],
      bs_quota_tracker = quota_new (commits_per_batch params), bs_market_configs = market_table markets,
      bs_matched = False\<rparr>"

definition add_commit ::
  "u64 \<Rightarrow> u64 \<Rightarrow> bytes \<Rightarrow> u64 \<Rightarrow> bytes \<Rightarrow> batch_state \<Rightarrow> batch_state \<times> (batch_state_error + unit)" where
  "add_commit batch_id pool_id hash nft_id signature s =
     (if bs_phase s \<noteq> Commit then (s, Inl WrongPhaseForCommit)
      else (s\<lparr>bs_commits := hm_insert hash \<lparr>bc_batch_id = batch_id, bc_pool_id = pool_id, bc_hash = hash,
               bc_nft_id = nft_id, bc_signature = signature, bc_revealed = False\<rparr> (bs_commits s)\<rparr>, Inr ()))"

definition add_reveal ::
  "crypto \<Rightarrow> order \<Rightarrow> bytes \<Rightarrow> batch_state \<Rightarrow> (batch_state \<times> (batch_state_error + unit)) option" where
  "add_reveal C ord signature s =
     (if bs_phase s \<noteq> Reveal then Some (s, Inl WrongPhaseForReveal)
      else case compute_order_hash C ord of
        None \<Rightarrow> None
      | Some h \<Rightarrow>
         (case hm_get (bs_commits s) h of
            None \<Rightarrow> Some (s, Inl NoMatchingCommit)
          | Some c \<Rightarrow>
              Some (s\<lparr>bs_commits := hm_insert h (c\<lparr>bc_revealed := True\<rparr>) (bs_commits s),
                      bs_reveals := hm_insert h \<lparr>r_order = ord, r_signature = signature, r_order_hash = h\<rparr>
                        (bs_reveals s)\<rparr>, Inr ())))"

definition bs_run_matching :: "crypto \<Rightarrow> batch_state \<Rightarrow> batch_state" where
  "bs_run_matching C s =
     (if bs_matched s then s
      else s\<lparr>bs_matches := run_matching C \<lparr>mi_batch_id = bs_batch_id s, mi_pool_id = bs_pool_id s,
               mi_reveals = hm_values (bs_reveals s), mi_markets = hm_values (bs_market_configs s)\<rparr>,
             bs_matched := True\<rparr>)"

definition bs_transition_to :: "crypto \<Rightarrow> phase \<Rightarrow> batch_state \<Rightarrow> batch_state \<times> (batch_state_error + unit)" where
  "bs_transition_to C new_phase s =
     (let s1 = s\<lparr>bs_phase := new_phase\<rparr>
      in if new_phase = Match \<and> \<not> bs_matched s1 then (bs_run_matching C s1, Inr ()) else (s1, Inr ()))"

definition create_own_commit :: "crypto \<Rightarrow> bytes \<Rightarrow> order \<Rightarrow> batch_state \<Rightarrow> (batch_state \<times> own_commit) option" where
  "create_own_commit C secret ord s =
     (case (sign_order C secret ord, compute_order_hash C ord) of
        (Some order_signature, Some h) \<Rightarrow>
          (let own = \<lparr>oc_order = ord, oc_order_signature = order_signature,
                 oc_commit_signature = sign_commit C secret (bs_batch_id s) (bs_pool_id s) h,
                 oc_order_hash = h, oc_revealed = False\<rparr>
           in Some (s\<lparr>bs_my_commits := bs_my_commits s @ [own]\<rparr>, own))
      | _ \<Rightarrow> None)"

definition mark_own_revealed :: "bytes \<Rightarrow> batch_state \<Rightarrow> batch_state" where
  "mark_own_revealed h s =
     s\<lparr>bs_my_commits := map (\<lambda>c. if oc_order_hash c = h then c\<lparr>oc_revealed := True\<rparr> else c) (bs_my_commits s)\<rparr>"

definition unrevealed_own_commits :: "batch_state \<Rightarrow> own_commit list" where
  "unrevealed_own_commits s = filter (\<lambda>c. \<not> oc_revealed c) (bs_my_commits s)"

definition bs_reset_for_new_batch :: "u64 \<Rightarrow> u64 \<Rightarrow> phase \<Rightarrow> market_config list \<Rightarrow> batch_state \<Rightarrow> batch_state" where
  "bs_reset_for_new_batch batch_id pool_id ph markets s =
     s\<lparr>bs_batch_id := batch_id, bs_pool_id := pool_id, bs_phase := ph, bs_commits := [], bs_reveals := [],
       bs_matches := [], bs_my_commits := [], bs_quota_tracker := quota_reset (bs_quota_tracker s),
       bs_matched := False, bs_market_configs := market_table markets\<rparr>"

definition commit_count :: "batch_state \<Rightarrow> nat" where "commit_count s = length (bs_commits s)"
definition reveal_count :: "batch_state \<Rightarrow> nat" where "reveal_count s = length (bs_reveals s)"
definition match_count :: "batch_state \<Rightarrow> nat" where "match_count s = length (bs_matches s)"

section \<open>Reachable states\<close>

text \<open>The operations as one step relation: the caller may use them in any order.\<close>

inductive batch_step :: "crypto \<Rightarrow> batch_state \<Rightarrow> batch_state \<Rightarrow> bool" for C where
  commit: "add_commit b p h n sg s = (s', r) \<Longrightarrow> batch_step C s s'"
| reveal: "add_reveal C ord sg s = Some (s', r) \<Longrightarrow> batch_step C s s'"
| phase: "bs_transition_to C ph s = (s', r) \<Longrightarrow> batch_step C s s'"
| own: "create_own_commit C sk ord s = Some (s', c) \<Longrightarrow> batch_step C s s'"
| own_revealed: "batch_step C s (mark_own_revealed h s)"
| rollover: "batch_step C s (bs_reset_for_new_batch b p ph ms s)"

inductive batch_reach :: "crypto \<Rightarrow> batch_state \<Rightarrow> bool" for C where
  start: "batch_reach C (bs_new b p ph params ms)"
| step: "batch_reach C s \<Longrightarrow> batch_step C s s' \<Longrightarrow> batch_reach C s'"

text \<open>An order that opened a commit: its digest is the key of a commit of the batch.\<close>

definition opened :: "crypto \<Rightarrow> batch_state \<Rightarrow> revealed_order \<Rightarrow> bool" where
  "opened C s r \<longleftrightarrow> compute_order_hash C (r_order r) = Some (r_order_hash r) \<and>
     hm_get (bs_commits s) (r_order_hash r) \<noteq> None"

text \<open>The matches are those of some opened orders, in the batch the state is in.\<close>

definition matched_from :: "crypto \<Rightarrow> batch_state \<Rightarrow> revealed_order list \<Rightarrow> bool" where
  "matched_from C s rs \<longleftrightarrow> distinct (map r_order_hash rs) \<and> list_all (opened C s) rs \<and>
     bs_matches s = run_matching C \<lparr>mi_batch_id = bs_batch_id s, mi_pool_id = bs_pool_id s, mi_reveals = rs,
       mi_markets = hm_values (bs_market_configs s)\<rparr>"

definition bs_inv :: "crypto \<Rightarrow> batch_state \<Rightarrow> bool" where
  "bs_inv C s \<longleftrightarrow> hm_wf (bs_commits s) \<and> hm_wf (bs_reveals s) \<and>
     (\<forall>h r. hm_get (bs_reveals s) h = Some r \<longrightarrow> r_order_hash r = h \<and> opened C s r) \<and>
     (if bs_matched s then \<exists>rs. matched_from C s rs else bs_matches s = [])"

lemma reveals_by_key:
  assumes "bs_inv C s"
  shows "distinct (map r_order_hash (hm_values (bs_reveals s)))" "list_all (opened C s) (hm_values (bs_reveals s))"
proof -
  have w: "hm_wf (bs_reveals s)" using assms by (simp add: bs_inv_def)
  then have k: "r_order_hash r = h \<and> opened C s r" if "(h, r) \<in> set (bs_reveals s)" for h r
    using that assms hm_wf_get [OF w] by (simp add: bs_inv_def)
  have "map r_order_hash (hm_values (bs_reveals s)) = map fst (bs_reveals s)"
    using k by (auto simp: hm_values_def)
  then show "distinct (map r_order_hash (hm_values (bs_reveals s)))" using w by (simp add: hm_wf_def)
  show "list_all (opened C s) (hm_values (bs_reveals s))" using k by (auto simp: list_all_iff hm_values_def)
qed

text \<open>Adding commits keeps what was opened.\<close>

lemma opened_mono:
  "dom (hm_get (bs_commits s)) \<subseteq> dom (hm_get (bs_commits s')) \<Longrightarrow> opened C s r \<Longrightarrow> opened C s' r"
  by (auto simp: opened_def)

lemma matched_mono:
  assumes "dom (hm_get (bs_commits s)) \<subseteq> dom (hm_get (bs_commits s'))" "matched_from C s rs"
    and "bs_matches s' = bs_matches s" "bs_batch_id s' = bs_batch_id s" "bs_pool_id s' = bs_pool_id s"
    and "bs_market_configs s' = bs_market_configs s"
  shows "matched_from C s' rs"
  using assms opened_mono [OF assms(1)] by (auto simp: matched_from_def list_all_iff)

lemma bs_invI:
  assumes "hm_wf (bs_commits s)" "hm_wf (bs_reveals s)"
    and "\<And>h r. hm_get (bs_reveals s) h = Some r \<Longrightarrow> r_order_hash r = h \<and> opened C s r"
    and "bs_matched s \<Longrightarrow> \<exists>rs. matched_from C s rs" "\<not> bs_matched s \<Longrightarrow> bs_matches s = []"
  shows "bs_inv C s"
  using assms by (simp add: bs_inv_def)

lemma bs_invD:
  assumes "bs_inv C s"
  shows "hm_wf (bs_commits s)" "hm_wf (bs_reveals s)"
    "hm_get (bs_reveals s) h = Some r \<Longrightarrow> r_order_hash r = h \<and> opened C s r"
    "bs_matched s \<Longrightarrow> \<exists>rs. matched_from C s rs" "\<not> bs_matched s \<Longrightarrow> bs_matches s = []"
  using assms by (simp_all add: bs_inv_def)

text \<open>A step that only adds commits and reveals that opened one.\<close>

lemma bs_inv_grow:
  assumes "bs_inv C s" "hm_wf (bs_commits s')" "hm_wf (bs_reveals s')"
    and "dom (hm_get (bs_commits s)) \<subseteq> dom (hm_get (bs_commits s'))"
    and "\<And>h r. hm_get (bs_reveals s') h = Some r \<Longrightarrow> hm_get (bs_reveals s) h = Some r \<or> r_order_hash r = h \<and> opened C s' r"
    and "bs_matches s' = bs_matches s" "bs_batch_id s' = bs_batch_id s" "bs_pool_id s' = bs_pool_id s"
    and "bs_market_configs s' = bs_market_configs s" "bs_matched s' = bs_matched s"
  shows "bs_inv C s'"
proof (rule bs_invI)
  show "hm_get (bs_reveals s') h = Some r \<Longrightarrow> r_order_hash r = h \<and> opened C s' r" for h r
    using assms(5) [of h r] bs_invD(3) [OF assms(1), of h r] opened_mono [OF assms(4)] by blast
  show "\<exists>rs. matched_from C s' rs" if "bs_matched s'"
    using bs_invD(4) [OF assms(1)] matched_mono [OF assms(4) _ assms(6-9)] that assms(10) by auto
  show "bs_matches s' = []" if "\<not> bs_matched s'" using bs_invD(5) [OF assms(1)] that assms(6,10) by simp
qed (use assms in simp_all)

lemma bs_inv_commit: "bs_inv C s \<Longrightarrow> add_commit b p h n sg s = (s', r) \<Longrightarrow> bs_inv C s'"
  using bs_invD(1,2) [of C s]
  by (intro bs_inv_grow [of C s s']) (auto simp: add_commit_def split: if_splits)

lemma bs_inv_reveal: "bs_inv C s \<Longrightarrow> add_reveal C ord sg s = Some (s', r) \<Longrightarrow> bs_inv C s'"
  using bs_invD(1,2) [of C s]
  by (intro bs_inv_grow [of C s s']) (auto simp: add_reveal_def opened_def split: if_splits option.splits)

lemma bs_inv_phase:
  assumes "bs_inv C s" "bs_transition_to C ph s = (s', r)" shows "bs_inv C s'"
proof (cases "ph = Match \<and> \<not> bs_matched s")
  case False
  then have "s' = s\<lparr>bs_phase := ph\<rparr>" using assms(2) by (auto simp: bs_transition_to_def Let_def)
  then show ?thesis by (intro bs_inv_grow [OF assms(1)]) (simp_all add: bs_invD [OF assms(1)])
next
  case True
  then have s': "s' = s\<lparr>bs_phase := ph, bs_matches := run_matching C \<lparr>mi_batch_id = bs_batch_id s,
      mi_pool_id = bs_pool_id s, mi_reveals = hm_values (bs_reveals s),
      mi_markets = hm_values (bs_market_configs s)\<rparr>, bs_matched := True\<rparr>"
    using assms(2) by (auto simp: bs_transition_to_def bs_run_matching_def Let_def)
  have o: "opened C s' = opened C s" by (simp add: s' opened_def fun_eq_iff)
  show ?thesis
  proof (rule bs_invI)
    show "hm_get (bs_reveals s') h = Some r \<Longrightarrow> r_order_hash r = h \<and> opened C s' r" for h r
      unfolding o using bs_invD(3) [OF assms(1)] by (simp add: s')
    have "matched_from C s' (hm_values (bs_reveals s))"
      unfolding matched_from_def o using reveals_by_key [OF assms(1)] by (simp add: s')
    then show "\<exists>rs. matched_from C s' rs" by blast
  qed (simp_all add: s' bs_invD [OF assms(1)])
qed

lemma bs_inv_own: "bs_inv C s \<Longrightarrow> bs_inv C (bs_my_commits_update f s)"
  by (rule bs_inv_grow [of C s]) (simp_all add: bs_invD)

lemma bs_inv_new: "bs_inv C (bs_new b p ph params ms)" "bs_inv C (bs_reset_for_new_batch b p ph ms s)"
  by (simp_all add: bs_new_def bs_reset_for_new_batch_def bs_inv_def)

lemma bs_inv_step: "batch_step C s s' \<Longrightarrow> bs_inv C s \<Longrightarrow> bs_inv C s'"
proof (induction rule: batch_step.induct)
  case (own sk ord s s' c)
  then have "\<exists>f. s' = bs_my_commits_update f s"
    by (auto simp: create_own_commit_def Let_def split: option.splits)
  then show ?case using bs_inv_own own.prems by blast
next
  case (own_revealed s h)
  then show ?case unfolding mark_own_revealed_def by (rule bs_inv_own)
qed (blast intro: bs_inv_commit bs_inv_reveal bs_inv_phase bs_inv_new)+

lemma batch_reach_inv: "batch_reach C s \<Longrightarrow> bs_inv C s"
  by (induction rule: batch_reach.induct) (blast intro: bs_inv_new bs_inv_step)+

section \<open>Properties\<close>

text \<open>
  C25. The matches of a batch come from orders that were committed: in every reachable state of the batch,
  whatever the order of commits, reveals, phases and rollovers, every match carries the number of the
  batch and pairs two orders of different NFTs whose digests are hashes of commits of that batch, and
  over the whole list neither order is filled beyond its quantity.
\<close>

theorem batch_matches_opened:
  assumes "batch_reach C s" "m \<in> set (bs_matches s)"
  shows "m_batch_id m = bs_batch_id s \<and> r_nft (buyer m) \<noteq> r_nft (seller m) \<and>
    opened C s (buyer m) \<and> opened C s (seller m) \<and>
    filled (r_order_hash (buyer m)) (bs_matches s) \<le> unat (r_qty (buyer m)) \<and>
    filled (r_order_hash (seller m)) (bs_matches s) \<le> unat (r_qty (seller m))"
proof -
  note inv = batch_reach_inv [OF assms(1)]
  have "bs_matched s" using bs_invD(5) [OF inv] assms(2) by (cases "bs_matched s") auto
  then obtain rs where rs: "matched_from C s rs" using bs_invD(4) [OF inv] by blast
  let ?i = "\<lparr>mi_batch_id = bs_batch_id s, mi_pool_id = bs_pool_id s, mi_reveals = rs,
       mi_markets = hm_values (bs_market_configs s)\<rparr>"
  have m: "bs_matches s = run_matching C ?i" "distinct (map r_order_hash (mi_reveals ?i))" "list_all (opened C s) rs"
    using rs by (simp_all add: matched_from_def)
  have snd: "buyer m \<in> set rs" "seller m \<in> set rs" "m_batch_id m = bs_batch_id s" "r_nft (buyer m) \<noteq> r_nft (seller m)"
    using engine.run_sound [of m C ?i] assms(2) m(1) by simp_all
  then show ?thesis using engine.run_filled [OF m(2)] m(1,3) by (simp add: list_all_iff)
qed

definition example_round :: "bytes \<Rightarrow> bytes \<Rightarrow> batch_state" where
  "example_round h1 h2 = fst (bs_transition_to example_crypto Reveal
     (fst (add_commit 100 3 h2 2 [] (fst (add_commit 100 3 h1 1 [] (bs_new 100 3 Commit example_params
        [\<lparr>mc_symbol = [69, 47, 75], mc_min_quantity = 1\<rparr>]))))))"

lemma example_round_reach: "batch_reach C (example_round h1 h2)"
proof -
  have c: "batch_reach C s \<Longrightarrow> batch_reach C (fst (add_commit b p h n sg s))" for b p h n sg s
    by (rule batch_reach.step [OF _ batch_step.commit]) (assumption, rule prod.collapse [symmetric])
  have t: "bs_transition_to example_crypto Reveal s = bs_transition_to C Reveal s" for s
    by (simp add: bs_transition_to_def)
  show ?thesis unfolding example_round_def t
    by (rule batch_reach.step [OF _ batch_step.phase]) (rule c, rule c, rule batch_reach.start, rule prod.collapse [symmetric])
qed

lemma add_reveal_total: "compute_order_hash C ord = Some h \<Longrightarrow> \<exists>s' r. add_reveal C ord sg s = Some (s', r)"
  by (cases "hm_get (bs_commits s) h") (simp_all add: add_reveal_def)

lemma batch_matches_opened_witness:
  "\<exists>s m. batch_reach example_crypto s \<and> bs_matches s = [m] \<and> opened example_crypto s (buyer m) \<and>
     filled (r_order_hash (buyer m)) (bs_matches s) \<le> 10"
proof -
  let ?o1 = "r_order (example_reveal 1 1 50 10 7)" and ?o2 = "r_order (example_reveal 2 0 48 4 9)"
  obtain h1 where h1: "compute_order_hash example_crypto ?o1 = Some h1" "take 8 h1 = le64 1"
    by (simp add: compute_order_hash_def encode_order_def example_crypto_def example_order_bytes_def example_reveal_def)
  obtain h2 where h2: "compute_order_hash example_crypto ?o2 = Some h2" "take 8 h2 = le64 2"
    by (simp add: compute_order_hash_def encode_order_def example_crypto_def example_order_bytes_def example_reveal_def)
  have ne: "h1 \<noteq> h2" using h1(2) h2(2) by auto
  obtain s1 r1 where s1: "add_reveal example_crypto ?o1 [] (example_round h1 h2) = Some (s1, r1)"
    using add_reveal_total [OF h1(1)] by blast
  obtain s2 r2 where s2: "add_reveal example_crypto ?o2 [] s1 = Some (s2, r2)"
    using add_reveal_total [OF h2(1)] by blast
  define s where "s = fst (bs_transition_to example_crypto Match s2)"
  have r: "batch_reach example_crypto s" unfolding s_def
    by (rule batch_reach.step [OF _ batch_step.phase [OF prod.collapse [symmetric]]])
      (rule batch_reach.step [OF batch_reach.step [OF example_round_reach batch_step.reveal [OF s1]] batch_step.reveal [OF s2]])
  have s2': "bs_reveals s2 = [(h1, \<lparr>r_order = ?o1, r_signature = [], r_order_hash = h1\<rparr>),
      (h2, \<lparr>r_order = ?o2, r_signature = [], r_order_hash = h2\<rparr>)]" "\<not> bs_matched s2"
    "bs_market_configs s2 = [([69, 47, 75], \<lparr>mc_symbol = [69, 47, 75], mc_min_quantity = 1\<rparr>)]"
    using s1 s2 h1(1) h2(1) ne
    by (auto simp: add_reveal_def example_round_def bs_transition_to_def add_commit_def bs_new_def market_table_def
        hm_collect_def hm_insert_def)
  obtain m where m: "bs_matches s = [m]" "r_qty (buyer m) = 10"
    using ne by (simp add: s_def bs_transition_to_def bs_run_matching_def s2' hm_values_def example_reveal_def
        example_matching_simps)
  show ?thesis using batch_matches_opened [OF r, of m] m r by auto
qed

end
