(* ===== verification/ChainTypes.thy ===== *)
theory ChainTypes
  imports Orchestrator
begin

text \<open>
  \<open>crates/chain/src/types.rs\<close>: what the node makes of the JSON the chain returns. View results are
  arrays of numbers written as strings; events are an object with a type and a data object, whose fields
  default to zero or the empty text when they are missing or ill-formed. The message of the \<open>hex\<close> crate
  for a text it cannot decode is the parameter \<open>hex_msg\<close>.
\<close>

section \<open>View results\<close>

datatype types_error =
    DeserializationError string
  | MissingField nat
  | InvalidNumber string
  | UnknownToken string

fun types_error_display :: "types_error \<Rightarrow> string" where
  "types_error_display (DeserializationError s) = ''deserialization failed: '' @ s"
| "types_error_display (MissingField i) = ''missing field at index '' @ nat_str i"
| "types_error_display (InvalidNumber s) = ''invalid number format: '' @ s"
| "types_error_display (UnknownToken s) = ''unknown token: '' @ s"

text \<open>The text of the error of \<open>str::parse::<u64>\<close>: digit by digit, an invalid digit before an overflow.\<close>

fun scan_u64 :: "nat \<Rightarrow> string \<Rightarrow> string + nat" where
  "scan_u64 acc [] = Inr acc"
| "scan_u64 acc (c # cs) =
     (case char_digit c of
        None \<Rightarrow> Inl ''invalid digit found in string''
      | Some d \<Rightarrow> if 10 * acc + d < 2 ^ 64 then scan_u64 (10 * acc + d) cs
                  else Inl ''number too large to fit in target type'')"

definition parse_u64_error :: "string \<Rightarrow> string" where
  "parse_u64_error s =
     (if s = [] then ''cannot parse integer from empty string''
      else case scan_u64 0 (if hd s = CHR ''+'' \<and> tl s \<noteq> [] then tl s else s) of Inl e \<Rightarrow> e | Inr _ \<Rightarrow> [])"

definition number_of_str :: "string \<Rightarrow> types_error + u64" where
  "number_of_str s = ok_or (InvalidNumber (parse_u64_error s)) (parse_u64 s)"

definition view_u64 :: "json \<Rightarrow> nat \<Rightarrow> types_error + u64" where
  "view_u64 val index = res_bind (ok_or (MissingField index) (as_str val)) number_of_str"

definition parse_obj_u64 :: "(string \<times> json) list \<Rightarrow> string \<Rightarrow> types_error + u64" where
  "parse_obj_u64 obj key =
     res_bind (ok_or (DeserializationError (''missing field: '' @ key)) (Option.bind (map_of obj key) as_str))
       number_of_str"

definition parse_bool :: "json \<Rightarrow> nat \<Rightarrow> types_error + bool" where
  "parse_bool val index = ok_or (MissingField index) (as_bool val)"

definition parse_str :: "json \<Rightarrow> nat \<Rightarrow> types_error + string" where
  "parse_str val index = ok_or (MissingField index) (as_str val)"

definition get_element :: "json \<Rightarrow> nat \<Rightarrow> types_error + json" where
  "get_element arr index = ok_or (MissingField index) (jindex index arr)"

definition element_u64 :: "json \<Rightarrow> nat \<Rightarrow> types_error + u64" where
  "element_u64 arr i = res_bind (get_element arr i) (\<lambda>v. view_u64 v i)"

definition element_str :: "json \<Rightarrow> nat \<Rightarrow> types_error + string" where
  "element_str arr i = res_bind (get_element arr i) (\<lambda>v. parse_str v i)"

definition params_of_object :: "(string \<times> json) list \<Rightarrow> types_error + batch_params" where
  "params_of_object obj =
     res_bind (parse_obj_u64 obj ''blocks_per_batch'') (\<lambda>a. res_bind (parse_obj_u64 obj ''commit_blocks'') (\<lambda>b.
     res_bind (parse_obj_u64 obj ''reveal_blocks'') (\<lambda>c. res_bind (parse_obj_u64 obj ''match_blocks'') (\<lambda>d.
     res_bind (parse_obj_u64 obj ''swap_blocks'') (\<lambda>e. res_bind (parse_obj_u64 obj ''commits_per_batch'') (\<lambda>f.
       Inr \<lparr>blocks_per_batch = a, commit_blocks = b, reveal_blocks = c, match_blocks = d, swap_blocks = e,
            commits_per_batch = f\<rparr>))))))"

definition params_of_array :: "json \<Rightarrow> types_error + batch_params" where
  "params_of_array json =
     res_bind (element_u64 json 0) (\<lambda>a. res_bind (element_u64 json 1) (\<lambda>b. res_bind (element_u64 json 2) (\<lambda>c.
     res_bind (element_u64 json 3) (\<lambda>d. res_bind (element_u64 json 4) (\<lambda>e. res_bind (element_u64 json 5) (\<lambda>f.
       Inr \<lparr>blocks_per_batch = a, commit_blocks = b, reveal_blocks = c, match_blocks = d, swap_blocks = e,
            commits_per_batch = f\<rparr>))))))"

definition batch_params_from_view :: "json \<Rightarrow> types_error + batch_params" where
  "batch_params_from_view json =
     (case Option.bind (jindex 0 json) as_object of
        Some obj \<Rightarrow> params_of_object obj
      | None \<Rightarrow> params_of_array json)"

definition batch_epoch_from_view :: "json \<Rightarrow> types_error + batch_epoch" where
  "batch_epoch_from_view json =
     res_bind (element_u64 json 0) (\<lambda>a. res_bind (element_u64 json 1) (\<lambda>b.
       Inr \<lparr>anchor_block = a, anchor_batch_id = b\<rparr>))"

record nft_config =
  nf_burn_cooldown_seconds :: u64
  nf_admin :: string

definition nft_config_from_view :: "json \<Rightarrow> types_error + nft_config" where
  "nft_config_from_view json =
     res_bind (element_u64 json 0) (\<lambda>a. res_bind (element_str json 1) (\<lambda>b.
       Inr \<lparr>nf_burn_cooldown_seconds = a, nf_admin = b\<rparr>))"

record market_pair =
  mp_symbol :: bytes
  mp_base_metadata :: string
  mp_quote_metadata :: string
  mp_min_quantity :: u64
  mp_is_active :: bool

definition market_pair_from_view :: "(string \<Rightarrow> string) \<Rightarrow> json \<Rightarrow> types_error + market_pair" where
  "market_pair_from_view hex_msg json =
     res_bind (element_str json 0) (\<lambda>symbol_hex.
     res_bind (ok_or (DeserializationError (hex_msg (trim_0x symbol_hex))) (hex_decode (trim_0x symbol_hex))) (\<lambda>symbol.
     res_bind (element_str json 1) (\<lambda>base. res_bind (element_str json 2) (\<lambda>quote.
     res_bind (element_u64 json 3) (\<lambda>min_q.
     res_bind (res_bind (get_element json 4) (\<lambda>v. parse_bool v 4)) (\<lambda>active.
       Inr \<lparr>mp_symbol = symbol, mp_base_metadata = base, mp_quote_metadata = quote, mp_min_quantity = min_q,
            mp_is_active = active\<rparr>))))))"

record pool_state =
  pl_num_pools :: u64
  pl_target_pool_size :: u64
  pl_live_nft_count :: u64
  pl_min_pool_size :: u64
  pl_max_pool_size :: u64

definition pool_state_from_view :: "json \<Rightarrow> types_error + pool_state" where
  "pool_state_from_view json =
     res_bind (element_u64 json 0) (\<lambda>a. res_bind (element_u64 json 1) (\<lambda>b. res_bind (element_u64 json 2) (\<lambda>c.
     res_bind (element_u64 json 3) (\<lambda>d. res_bind (element_u64 json 4) (\<lambda>e.
       Inr \<lparr>pl_num_pools = a, pl_target_pool_size = b, pl_live_nft_count = c, pl_min_pool_size = d,
            pl_max_pool_size = e\<rparr>)))))"

definition parse_decimals_result :: "json \<Rightarrow> types_error + u8" where
  "parse_decimals_result json =
     res_bind (element_u64 json 0) (\<lambda>val.
       if 255 < val then Inl (InvalidNumber (''decimals too large: '' @ u64_str val)) else Inr (ucast val))"

section \<open>Events\<close>

text \<open>\<open>data.get(k).and_then(|v| v.as_str()).unwrap_or("0").parse().unwrap_or(0)\<close> and its companions.\<close>

definition ev_num :: "string \<Rightarrow> json \<Rightarrow> u64" where
  "ev_num k data = or_default 0 (parse_u64 (or_default ''0'' (str_field k data)))"

definition ev_str :: "string \<Rightarrow> json \<Rightarrow> string" where
  "ev_str k data = or_default [] (str_field k data)"

definition ev_flag :: "string \<Rightarrow> json \<Rightarrow> bool" where
  "ev_flag k data = or_default False (Option.bind (jget k data) as_bool)"

definition settled_from_data :: "json \<Rightarrow> settled_event" where
  "settled_from_data data =
     (let symbol_hex = or_default ''0x'' (str_field ''symbol'' data);
          symbol = or_default [] (hex_decode (trim_0x symbol_hex))
      in \<lparr>se_batch_id = ev_num ''batch_id'' data, se_pool_id = ev_num ''pool_id'' data,
          se_trade_id = ev_str ''trade_id'' data, se_buyer_nft_id = ev_num ''buyer_nft_id'' data,
          se_seller_nft_id = ev_num ''seller_nft_id'' data, se_symbol = symbol,
          se_buyer_price = ev_num ''buyer_price'' data, se_seller_price = ev_num ''seller_price'' data,
          se_clearing_price = ev_num ''clearing_price'' data, se_base_amount = ev_num ''base_amount'' data,
          se_quote_amount = ev_num ''quote_amount'' data, se_buyer_order_hash = ev_str ''buyer_order_hash'' data,
          se_seller_order_hash = ev_str ''seller_order_hash'' data, se_gas_payer = ev_str ''gas_payer'' data,
          se_timestamp = ev_num ''timestamp'' data\<rparr>)"

definition blocked_nft :: "json \<Rightarrow> u64" where
  "blocked_nft data =
     or_default 0 (parse_u64 (or_default ''0'' (Option.bind
       (case jget ''accused_nft_id'' data of Some v \<Rightarrow> Some v | None \<Rightarrow> jget ''nft_id'' data) as_str)))"

text \<open>The branches in the order of the code: withdrawals, enforcement and registration.\<close>

definition nft_event :: "string \<Rightarrow> json \<Rightarrow> chain_event option" where
  "nft_event t data =
     (if contains_str ''WithdrawalRequested'' t
      then Some (WithdrawalRequested (ev_num ''nft_id'' data) (ev_str ''token_metadata'' data) (ev_num ''amount'' data))
      else if contains_str ''WithdrawalCancelled'' t
      then Some (WithdrawalCancelled (ev_num ''nft_id'' data) (ev_str ''token_metadata'' data) (ev_num ''amount'' data))
      else if contains_str ''HoldingPeriodStarted'' t
      then Some (HoldingPeriodStarted (ev_num ''nft_id'' data) (ev_num ''expires_at_batch'' data))
      else if contains_str ''HoldingPeriodCancelled'' t
      then Some (HoldingPeriodCancelled (ev_num ''nft_id'' data))
      else if contains_str ''NFTBlocked'' t \<or> contains_str ''NftBlocked'' t
      then Some (NftBlocked (blocked_nft data) (ev_num ''enforcement_at_batch'' data))
      else if contains_str ''TraderRegistered'' t then Some (TraderRegistered (ev_num ''nft_id'' data))
      else if contains_str ''TraderDeregistered'' t then Some (TraderDeregistered (ev_num ''nft_id'' data))
      else None)"

definition governance_event :: "string \<Rightarrow> json \<Rightarrow> chain_event option" where
  "governance_event t data =
     (if contains_str ''ParameterChangeQueued'' t
      then Some (ParameterChangeQueued (ev_num ''effective_at_batch'' data) (ev_str ''param_name'' data)
             (ev_num ''old_value'' data) (ev_num ''new_value'' data))
      else if contains_str ''ParameterChangeApplied'' t
      then Some (ParameterChangeApplied (ev_num ''batch_id'' data) (ev_str ''param_name'' data) (ev_num ''new_value'' data))
      else if contains_str ''PoolAdjustmentQueued'' t
      then Some (PoolAdjustmentQueued (ev_num ''effective_at_batch'' data) (ev_num ''new_num_pools'' data))
      else if contains_str ''PoolAdjustmentCancelled'' t then Some PoolAdjustmentCancelled
      else if contains_str ''PoolAdjusted'' t
      then Some (PoolAdjusted (ev_num ''batch_id'' data) (ev_num ''new_num_pools'' data))
      else None)"

definition lifecycle_event :: "string \<Rightarrow> json \<Rightarrow> chain_event option" where
  "lifecycle_event t data =
     (if contains_str ''TrusteeNftMinted'' t
      then Some (NftPairMinted (ev_num ''nft_id'' data) (ev_str ''sponsor'' data) (ev_num ''mint_fee_paid'' data)
             (ev_flag ''cohort_started'' data))
      else if contains_str ''BurnExecuted'' t
      then Some (BurnExecuted (ev_num ''nft_id'' data) (ev_str ''executor'' data) (ev_str ''sponsor'' data)
             (ev_str ''recipient'' data) (ev_num ''refund_supra'' data) (ev_num ''treasury_before'' data)
             (ev_num ''treasury_after'' data) (ev_num ''active_nfts_before_burn'' data)
             (ev_num ''supra_to_recipient'' data) (ev_flag ''is_fallback'' data) (ev_flag ''is_last_nft'' data)
             (ev_num ''nominal_refund'' data))
      else None)"

definition treasury_event :: "string \<Rightarrow> json \<Rightarrow> chain_event option" where
  "treasury_event t data =
     (if contains_str ''DonationReceived'' t
      then Some (DonationReceived (ev_str ''donor'' data) (ev_num ''amount'' data) (ev_num ''treasury_after'' data))
      else if contains_str ''DonationRejected'' t
      then Some (DonationRejected (ev_str ''donor'' data) (ev_num ''amount_attempted'' data) (ev_num ''treasury_balance'' data))
      else if contains_str ''DvrfFunded'' t
      then Some (DvrfFunded (ev_num ''amount'' data) (ev_num ''treasury_after'' data) (ev_num ''dvrf_balance_after'' data))
      else if contains_str ''AutomationOwnerTopped'' t
      then Some (AutomationOwnerTopped (ev_num ''amount'' data) (ev_str ''owner'' data) (ev_num ''treasury_after'' data)
             (ev_num ''owner_balance_after'' data))
      else if contains_str ''TreasuryLowBalance'' t
      then Some (TreasuryLowBalance (ev_num ''current_balance'' data) (ev_num ''threshold'' data) (ev_num ''days_of_runway'' data))
      else if contains_str ''TreasuryRecovered'' t
      then Some (TreasuryRecovered (ev_num ''current_balance'' data) (ev_num ''threshold'' data))
      else if contains_str ''OpsTreasuryConfigUpdated'' t then Some OpsTreasuryConfigUpdated
      else if contains_str ''AdminKeyBurned'' t then Some (AdminKeyBurned (ev_str ''previous_admin'' data))
      else None)"

definition event_of_type :: "string \<Rightarrow> json \<Rightarrow> chain_event" where
  "event_of_type t data =
     (if contains_str ''BatchTradeSettled'' t then BatchTradeSettled (settled_from_data data)
      else case nft_event t data of Some ev \<Rightarrow> ev
      | None \<Rightarrow> (case governance_event t data of Some ev \<Rightarrow> ev
      | None \<Rightarrow> (case lifecycle_event t data of Some ev \<Rightarrow> ev
      | None \<Rightarrow> (case treasury_event t data of Some ev \<Rightarrow> ev
      | None \<Rightarrow> UnknownEvent t))))"

definition chain_event_from_json :: "json \<Rightarrow> types_error + chain_event" where
  "chain_event_from_json json =
     res_bind (ok_or (DeserializationError ''missing event type'') (str_field ''type'' json)) (\<lambda>t.
     res_bind (ok_or (DeserializationError ''missing event data'') (jget ''data'' json)) (\<lambda>data.
       Inr (event_of_type t data)))"

section \<open>The chain's format\<close>

text \<open>The name and the data of an event as the contracts emit it. The events without a line here are
  those that \<open>chain_event_from_json\<close> has no branch for.\<close>

fun event_type :: "chain_event \<Rightarrow> string" where
  "event_type (BatchTradeSettled _) = ''BatchTradeSettled''"
| "event_type (WithdrawalRequested _ _ _) = ''WithdrawalRequested''"
| "event_type (WithdrawalCancelled _ _ _) = ''WithdrawalCancelled''"
| "event_type (HoldingPeriodStarted _ _) = ''HoldingPeriodStarted''"
| "event_type (HoldingPeriodCancelled _) = ''HoldingPeriodCancelled''"
| "event_type (NftBlocked _ _) = ''NFTBlocked''"
| "event_type (TraderRegistered _) = ''TraderRegistered''"
| "event_type (TraderDeregistered _) = ''TraderDeregistered''"
| "event_type (ParameterChangeQueued _ _ _ _) = ''ParameterChangeQueued''"
| "event_type (ParameterChangeApplied _ _ _) = ''ParameterChangeApplied''"
| "event_type (PoolAdjustmentQueued _ _) = ''PoolAdjustmentQueued''"
| "event_type PoolAdjustmentCancelled = ''PoolAdjustmentCancelled''"
| "event_type (PoolAdjusted _ _) = ''PoolAdjusted''"
| "event_type (NftPairMinted _ _ _ _) = ''TrusteeNftMinted''"
| "event_type (BurnExecuted _ _ _ _ _ _ _ _ _ _ _ _) = ''BurnExecuted''"
| "event_type (DonationReceived _ _ _) = ''DonationReceived''"
| "event_type (DonationRejected _ _ _) = ''DonationRejected''"
| "event_type (DvrfFunded _ _ _) = ''DvrfFunded''"
| "event_type (AutomationOwnerTopped _ _ _ _) = ''AutomationOwnerTopped''"
| "event_type (TreasuryLowBalance _ _ _) = ''TreasuryLowBalance''"
| "event_type (TreasuryRecovered _ _) = ''TreasuryRecovered''"
| "event_type OpsTreasuryConfigUpdated = ''OpsTreasuryConfigUpdated''"
| "event_type (AdminKeyBurned _) = ''AdminKeyBurned''"
| "event_type (MarketPairAdded _) = ''MarketPairAdded''"
| "event_type (PauseQueued _) = ''PauseQueued''"
| "event_type Unpaused = ''Unpaused''"
| "event_type (UnknownEvent t) = t"

definition jdec :: "u64 \<Rightarrow> json" where "jdec w = JString (u64_str w)"

definition settled_data :: "settled_event \<Rightarrow> (string \<times> json) list" where
  "settled_data e =
     [(''batch_id'', jdec (se_batch_id e)), (''pool_id'', jdec (se_pool_id e)), (''trade_id'', JString (se_trade_id e)),
      (''buyer_nft_id'', jdec (se_buyer_nft_id e)), (''seller_nft_id'', jdec (se_seller_nft_id e)),
      (''symbol'', JString (''0x'' @ hex_encode (se_symbol e))), (''buyer_price'', jdec (se_buyer_price e)),
      (''seller_price'', jdec (se_seller_price e)), (''clearing_price'', jdec (se_clearing_price e)),
      (''base_amount'', jdec (se_base_amount e)), (''quote_amount'', jdec (se_quote_amount e)),
      (''buyer_order_hash'', JString (se_buyer_order_hash e)), (''seller_order_hash'', JString (se_seller_order_hash e)),
      (''gas_payer'', JString (se_gas_payer e)), (''timestamp'', jdec (se_timestamp e))]"

fun event_data :: "chain_event \<Rightarrow> (string \<times> json) list" where
  "event_data (BatchTradeSettled e) = settled_data e"
| "event_data (WithdrawalRequested n t a) = [(''nft_id'', jdec n), (''token_metadata'', JString t), (''amount'', jdec a)]"
| "event_data (WithdrawalCancelled n t a) = [(''nft_id'', jdec n), (''token_metadata'', JString t), (''amount'', jdec a)]"
| "event_data (HoldingPeriodStarted n b) = [(''nft_id'', jdec n), (''expires_at_batch'', jdec b)]"
| "event_data (HoldingPeriodCancelled n) = [(''nft_id'', jdec n)]"
| "event_data (NftBlocked n b) = [(''accused_nft_id'', jdec n), (''enforcement_at_batch'', jdec b)]"
| "event_data (TraderRegistered n) = [(''nft_id'', jdec n)]"
| "event_data (TraderDeregistered n) = [(''nft_id'', jdec n)]"
| "event_data (ParameterChangeQueued b p x y) =
     [(''effective_at_batch'', jdec b), (''param_name'', JString p), (''old_value'', jdec x), (''new_value'', jdec y)]"
| "event_data (ParameterChangeApplied b p y) = [(''batch_id'', jdec b), (''param_name'', JString p), (''new_value'', jdec y)]"
| "event_data (PoolAdjustmentQueued b n) = [(''effective_at_batch'', jdec b), (''new_num_pools'', jdec n)]"
| "event_data (PoolAdjusted b n) = [(''batch_id'', jdec b), (''new_num_pools'', jdec n)]"
| "event_data (NftPairMinted n sp f c) =
     [(''nft_id'', jdec n), (''sponsor'', JString sp), (''mint_fee_paid'', jdec f), (''cohort_started'', JBool c)]"
| "event_data (BurnExecuted n ex sp rc rf tb ta an sr fb ln nr) =
     [(''nft_id'', jdec n), (''executor'', JString ex), (''sponsor'', JString sp), (''recipient'', JString rc),
      (''refund_supra'', jdec rf), (''treasury_before'', jdec tb), (''treasury_after'', jdec ta),
      (''active_nfts_before_burn'', jdec an), (''supra_to_recipient'', jdec sr), (''is_fallback'', JBool fb),
      (''is_last_nft'', JBool ln), (''nominal_refund'', jdec nr)]"
| "event_data (DonationReceived d a t) = [(''donor'', JString d), (''amount'', jdec a), (''treasury_after'', jdec t)]"
| "event_data (DonationRejected d a t) = [(''donor'', JString d), (''amount_attempted'', jdec a), (''treasury_balance'', jdec t)]"
| "event_data (DvrfFunded a t d) = [(''amount'', jdec a), (''treasury_after'', jdec t), (''dvrf_balance_after'', jdec d)]"
| "event_data (AutomationOwnerTopped a w t b) =
     [(''amount'', jdec a), (''owner'', JString w), (''treasury_after'', jdec t), (''owner_balance_after'', jdec b)]"
| "event_data (TreasuryLowBalance c t d) = [(''current_balance'', jdec c), (''threshold'', jdec t), (''days_of_runway'', jdec d)]"
| "event_data (TreasuryRecovered c t) = [(''current_balance'', jdec c), (''threshold'', jdec t)]"
| "event_data (AdminKeyBurned p) = [(''previous_admin'', JString p)]"
| "event_data _ = []"

text \<open>The type of an event is its name behind the address and the module of the contract, which have no
  capital letter.\<close>

definition upper :: "char \<Rightarrow> bool" where
  "upper c = (65 \<le> (of_char c :: nat) \<and> of_char c \<le> (90 :: nat))"

definition module_path :: "string \<Rightarrow> bool" where
  "module_path p = list_all (\<lambda>c. \<not> upper c) p"

definition event_json_of :: "string \<Rightarrow> chain_event \<Rightarrow> json" where
  "event_json_of p ev = JObject [(''type'', JString (p @ event_type ev)), (''data'', JObject (event_data ev))]"

lemma starts_with_simps [simp]:
  "starts_with [] s" "\<not> starts_with (c # p) []" "starts_with (c # p) (x # s) \<longleftrightarrow> c = x \<and> starts_with p s"
  by (auto simp: starts_with_def)

lemma contains_behind_path:
  "module_path p \<Longrightarrow> upper c \<Longrightarrow> contains_str (c # pat) (p @ s) = contains_str (c # pat) s"
  by (induction p) (auto simp: module_path_def)

lemma ev_data_simps [simp]:
  "map_of kvs k = Some (jdec w) \<Longrightarrow> ev_num k (JObject kvs) = w"
  "map_of kvs k = Some (JString t) \<Longrightarrow> ev_str k (JObject kvs) = t"
  "map_of kvs k = Some (JBool b) \<Longrightarrow> ev_flag k (JObject kvs) = b"
  by (simp_all add: ev_num_def ev_str_def ev_flag_def str_field_def jdec_def)

lemma trim_0x_hex: "trim_0x (''0x'' @ hex_encode bs) = hex_encode bs"
proof (cases bs)
  case (Cons b bs)
  have "hex_char (unat b mod 16) \<noteq> CHR ''x''"
  proof
    assume "hex_char (unat b mod 16) = CHR ''x''"
    then have "hex_digit CHR ''x'' = Some (unat b mod 16)" by (metis hex_digit_hex_char mod_less_divisor zero_less_numeral)
    then show False by (simp add: hex_digit_def)
  qed
  then show ?thesis by (simp add: Cons)
qed simp

lemma settled_from: "settled_from_data (JObject (settled_data e)) = e"
  by (simp add: settled_from_data_def settled_data_def str_field_def trim_0x_hex [simplified] Let_def)

lemma blocked_nft_data: "blocked_nft (JObject ((''accused_nft_id'', jdec n) # kvs)) = n"
  by (simp add: blocked_nft_def jdec_def)

fun parsed :: "chain_event \<Rightarrow> bool" where
  "parsed (MarketPairAdded _) = False"
| "parsed (PauseQueued _) = False"
| "parsed Unpaused = False"
| "parsed (UnknownEvent _) = False"
| "parsed _ = True"

lemma upper_letters:
  "upper CHR ''A''" "upper CHR ''B''" "upper CHR ''D''" "upper CHR ''H''" "upper CHR ''N''" "upper CHR ''O''"
  "upper CHR ''P''" "upper CHR ''T''" "upper CHR ''W''"
  by (simp_all add: upper_def)

lemmas behind_path = upper_letters [THEN contains_behind_path [rotated]]

lemma event_of_data:
  assumes "module_path p" "parsed ev"
  shows "event_of_type (p @ event_type ev) (JObject (event_data ev)) = ev"
  using assms(2)
  by (cases ev) (simp_all add: event_of_type_def nft_event_def governance_event_def lifecycle_event_def
      treasury_event_def behind_path [OF assms(1)] settled_from blocked_nft_data)

section \<open>Properties\<close>

text \<open>
  Every event the parser has a branch for comes back from its JSON with all its fields: behind any
  contract address and module name, whatever the values, and for the settlement event with its symbol
  from the hexadecimal text; no name is taken for another one that contains it.
\<close>

theorem chain_event_roundtrip:
  assumes "module_path p" "parsed ev"
  shows "chain_event_from_json (event_json_of p ev) = Inr ev"
  using event_of_data [OF assms] by (simp add: chain_event_from_json_def event_json_of_def str_field_def)

lemma chain_event_roundtrip_witness:
  "chain_event_from_json (event_json_of ''0x1::governance::'' (PoolAdjusted 7 3)) = Inr (PoolAdjusted 7 3) \<and>
   chain_event_from_json (event_json_of ''0x1::escrow::'' (TraderDeregistered 9)) = Inr (TraderDeregistered 9)"
  by (intro conjI chain_event_roundtrip) (simp_all add: module_path_def upper_def)

lemma event_of_type_parsed: "parsed (event_of_type t data) \<or> event_of_type t data = UnknownEvent t"
  by (auto simp: event_of_type_def nft_event_def governance_event_def lifecycle_event_def treasury_event_def
      split: option.splits if_splits)

lemma pause_unknown:
  assumes "module_path p" shows "event_of_type (p @ ''PauseQueued'') data = UnknownEvent (p @ ''PauseQueued'')"
  by (simp add: event_of_type_def nft_event_def governance_event_def lifecycle_event_def treasury_event_def
      behind_path [OF assms])

text \<open>
  The strategy is never told of a pause of the contract: no JSON is parsed into a pause, an unpause
  or a new market pair, although the orchestrator has a branch for each; events of these names become
  \<open>UnknownEvent\<close>, which it ignores.
\<close>

theorem pause_never_reported:
  assumes "chain_event_from_json j = Inr ev" "on_chain_event Q ev orch = Some orch'"
    and "e \<in> set (sent_events orch')" "e \<notin> set (sent_events orch)"
  shows "\<forall>b sy q. e \<noteq> EvPaused b \<and> e \<noteq> EvResumed b \<and> e \<noteq> EvMarketAdded sy q"
proof -
  have "parsed ev \<or> (\<exists>t. ev = UnknownEvent t)"
    using assms(1) event_of_type_parsed by (auto simp: chain_event_from_json_def res_bind_Inr)
  then show ?thesis
    using assms(2-4) by (cases ev) (auto simp: push_event_def orc_settlement_confirmed_def settlement_notice_def Let_def split: if_splits)
qed

definition example_governance :: "(unit, unit) orchestrator" where
  "example_governance = orchestrator_new () () 1 3"

lemma pause_never_reported_witness:
  "chain_event_from_json (event_json_of ''0x1::pool::'' (PauseQueued 9)) = Inr (UnknownEvent ''0x1::pool::PauseQueued'') \<and>
   (\<forall>Q. \<exists>orch' e. on_chain_event (Q :: unit batch_port) (PoolAdjusted 7 3) example_governance = Some orch' \<and>
     set (sent_events orch') = {e} \<and> (\<forall>b. e \<noteq> EvPaused b))"
proof (intro conjI allI)
  have "module_path ''0x1::pool::''" by (simp add: module_path_def upper_def)
  from pause_unknown [OF this]
  show "chain_event_from_json (event_json_of ''0x1::pool::'' (PauseQueued 9)) = Inr (UnknownEvent ''0x1::pool::PauseQueued'')"
    by (simp add: chain_event_from_json_def event_json_of_def str_field_def)
  fix Q :: "unit batch_port"
  have j: "chain_event_from_json (event_json_of ''0x1::pool::'' (PoolAdjusted 7 3)) = Inr (PoolAdjusted 7 3)"
    using event_of_data [of "''0x1::pool::''" "PoolAdjusted 7 3"]
    by (simp add: chain_event_from_json_def event_json_of_def str_field_def module_path_def upper_def)
  obtain o' e where o: "on_chain_event Q (PoolAdjusted 7 3) example_governance = Some o'" "set (sent_events o') = {e}"
    by (simp add: example_governance_def orchestrator_new_def push_event_def)
  have "sent_events example_governance = []" by (simp add: example_governance_def orchestrator_new_def)
  then have "\<forall>b sy q. e \<noteq> EvPaused b \<and> e \<noteq> EvResumed b \<and> e \<noteq> EvMarketAdded sy q"
    using pause_never_reported [OF j o(1), of e] o(2) by simp
  with o show "\<exists>o' e. on_chain_event Q (PoolAdjusted 7 3) example_governance = Some o' \<and> set (sent_events o') = {e} \<and>
      (\<forall>b. e \<noteq> EvPaused b)"
    by blast
qed

end
