(* ===== verification/StrategyServer.thy ===== *)
theory StrategyServer
  imports StrategyTypes
begin

text \<open>
  \<open>crates/strategy/src/server.rs\<close>: the WebSocket server the strategy connects to. The record holds
  what its tasks share: the three bounded channels, the \<open>watch\<close> flag, the connection whose task is
  the active one and the tasks that were aborted. A label is one step of a task: the acceptor, the task
  of the connection, the main loop that sends events and receives actions, or the token worker. A step
  that would wait is not enabled (\<open>None\<close>). \<open>abort\<close> takes effect when the task next waits, so a task that
  runs while a new client is accepted goes on for some steps: it stays in \<open>sv_aborted\<close>, where it may take
  any step of a connection, until \<open>DropAborted\<close> removes it. Parsing JSON text (\<open>serde_json::from_str\<close>) is
  the parameter \<open>parse\<close>. The task reports the client as connected before it takes the event queue, so a
  step lies between the two; it keeps the queue's lock as long as it relays.
\<close>

section \<open>State\<close>

datatype connection_state = WaitingForAuth | Authenticated | Disconnected

definition SERVER_CHANNEL_CAPACITY :: nat where "SERVER_CHANNEL_CAPACITY = 32"

text \<open>What the task of one connection has of its own.\<close>

record connection_task =
  ct_conn :: connection_state
  ct_relaying :: bool
  ct_held :: "strategy_action option"
  ct_written :: "strategy_event list"

record strategy_server =
  sv_auth_token :: string
  sv_nft_id :: u64
  sv_network :: string
  sv_details :: "auth_ok_details option"
  sv_events :: "strategy_event list"
  sv_actions :: "strategy_action list"
  sv_token_actions :: "strategy_action list"
  sv_token_rx_taken :: bool
  sv_connected :: bool
  sv_conn :: connection_state
  sv_relaying :: bool
  sv_held :: "strategy_action option"
  sv_written :: "strategy_event list"
  sv_aborted :: "connection_task list"

definition server_start :: "string \<Rightarrow> u64 \<Rightarrow> string \<Rightarrow> auth_ok_details option \<Rightarrow> strategy_server" where
  "server_start auth_token nft_id network details =
     \<lparr>sv_auth_token = auth_token, sv_nft_id = nft_id, sv_network = network, sv_details = details,
      sv_events = [], sv_actions = [], sv_token_actions = [], sv_token_rx_taken = False,
      sv_connected = False, sv_conn = Disconnected, sv_relaying = False, sv_held = None, sv_written = [],
      sv_aborted = []\<rparr>"

section \<open>The handle of the main loop\<close>

definition send_event :: "strategy_event \<Rightarrow> strategy_server \<Rightarrow> strategy_server option" where
  "send_event e s =
     (if length (sv_events s) < SERVER_CHANNEL_CAPACITY then Some (s\<lparr>sv_events := sv_events s @ [e]\<rparr>) else None)"

text \<open>The call when its wait ends: with the oldest action, or with none at the timeout.\<close>

definition receive_action :: "strategy_server \<Rightarrow> strategy_server \<times> strategy_action option" where
  "receive_action s =
     (case sv_actions s of [] \<Rightarrow> (s, None) | a # as \<Rightarrow> (s\<lparr>sv_actions := as\<rparr>, Some a))"

definition take_token_action_rx :: "strategy_server \<Rightarrow> strategy_server \<times> bool" where
  "take_token_action_rx s = (s\<lparr>sv_token_rx_taken := True\<rparr>, \<not> sv_token_rx_taken s)"

definition is_connected :: "strategy_server \<Rightarrow> bool" where
  "is_connected s = sv_connected s"

section \<open>The acceptor\<close>

definition task_of :: "strategy_server \<Rightarrow> connection_task" where
  "task_of s = \<lparr>ct_conn = sv_conn s, ct_relaying = sv_relaying s, ct_held = sv_held s, ct_written = sv_written s\<rparr>"

text \<open>The task of the last connection is aborted, the client reported as gone, and the task of the new
  connection started.\<close>

definition accept_client :: "strategy_server \<Rightarrow> strategy_server" where
  "accept_client s = s\<lparr>sv_connected := False, sv_conn := WaitingForAuth, sv_relaying := False,
     sv_held := None, sv_written := [],
     sv_aborted := (if sv_conn s = Disconnected then sv_aborted s else sv_aborted s @ [task_of s])\<rparr>"

text \<open>An aborted task in the place of the active one, and the active one in its place.\<close>

definition swap_task :: "nat \<Rightarrow> strategy_server \<Rightarrow> strategy_server" where
  "swap_task i s =
     (let t = sv_aborted s ! i
      in s\<lparr>sv_conn := ct_conn t, sv_relaying := ct_relaying t, sv_held := ct_held t, sv_written := ct_written t,
           sv_aborted := (sv_aborted s)[i := task_of s]\<rparr>)"

text \<open>The task of the connection ends, and \<open>ctx.send(false)\<close> follows.\<close>

definition close_connection :: "strategy_server \<Rightarrow> strategy_server" where
  "close_connection s = s\<lparr>sv_connected := False, sv_conn := Disconnected, sv_relaying := False, sv_held := None\<rparr>"

section \<open>The handshake\<close>

text \<open>What the client's stream yields; \<open>FEnd\<close> is an error or the end of the stream.\<close>

datatype ws_frame = FText string | FClose | FPing | FOther | FEnd

definition check_auth_message :: "(string \<Rightarrow> json option) \<Rightarrow> string \<Rightarrow> string \<Rightarrow> string + unit" where
  "check_auth_message parse auth_token first_msg =
     (case parse first_msg of
        None \<Rightarrow> Inl ''invalid JSON''
      | Some parsed \<Rightarrow>
          if or_default [] (str_field ''action'' parsed) \<noteq> ''auth'' then Inl ''first message must be auth''
          else case validate_auth (or_default [] (str_field ''token'' parsed)) auth_token of
                 Inl _ \<Rightarrow> Inl ''invalid token''
               | Inr _ \<Rightarrow> Inr ())"

definition write_event :: "strategy_event \<Rightarrow> bool \<Rightarrow> strategy_server \<Rightarrow> strategy_server" where
  "write_event e sink_ok s = (if sink_ok then s\<lparr>sv_written := sv_written s @ [e]\<rparr> else s)"

definition handshake_text :: "(string \<Rightarrow> json option) \<Rightarrow> string \<Rightarrow> bool \<Rightarrow> strategy_server \<Rightarrow> strategy_server" where
  "handshake_text parse first_msg sink_ok s =
     (case check_auth_message parse (sv_auth_token s) first_msg of
        Inl reason \<Rightarrow> close_connection (write_event (EvAuthFailed reason) sink_ok s)
      | Inr _ \<Rightarrow>
          if sink_ok
          then (write_event (EvAuthOk (sv_nft_id s) (sv_network s) (sv_details s)) True s)
                 \<lparr>sv_connected := True, sv_conn := Authenticated\<rparr>
          else close_connection s)"

fun handshake :: "(string \<Rightarrow> json option) \<Rightarrow> ws_frame \<Rightarrow> bool \<Rightarrow> strategy_server \<Rightarrow> strategy_server" where
  "handshake parse (FText text) sink_ok s = handshake_text parse text sink_ok s"
| "handshake parse FClose sink_ok s = close_connection s"
| "handshake parse FEnd sink_ok s = close_connection s"
| "handshake parse _ sink_ok s = s"

definition start_relay :: "strategy_server \<Rightarrow> strategy_server" where
  "start_relay s = s\<lparr>sv_events := [], sv_relaying := True\<rparr>"

section \<open>The relay loop\<close>

definition relay_event :: "strategy_event \<Rightarrow> bool \<Rightarrow> strategy_server \<Rightarrow> strategy_server" where
  "relay_event evt sink_ok s =
     (if \<not> sink_ok then close_connection s
      else (let s1 = write_event evt True s
            in case evt of
                 EvDisconnected reason \<Rightarrow> if reason \<noteq> ''commit timeout'' then close_connection s1 else s1
               | _ \<Rightarrow> s1))"

text \<open>A message of the client goes to the channel of its kind; a full channel leaves the task waiting
  with the action in hand.\<close>

definition has_room :: "strategy_action \<Rightarrow> strategy_server \<Rightarrow> bool" where
  "has_room a s = (length (if is_token_action a then sv_token_actions s else sv_actions s) < SERVER_CHANNEL_CAPACITY)"

definition enqueue_action :: "strategy_action \<Rightarrow> strategy_server \<Rightarrow> strategy_server" where
  "enqueue_action a s =
     (if is_token_action a then s\<lparr>sv_token_actions := sv_token_actions s @ [a]\<rparr>
      else s\<lparr>sv_actions := sv_actions s @ [a]\<rparr>)"

definition offer_action :: "strategy_action \<Rightarrow> strategy_server \<Rightarrow> strategy_server" where
  "offer_action a s = (if has_room a s then enqueue_action a s else s\<lparr>sv_held := Some a\<rparr>)"

fun client_frame :: "(string \<Rightarrow> json option) \<Rightarrow> ws_frame \<Rightarrow> bool \<Rightarrow> strategy_server \<Rightarrow> strategy_server" where
  "client_frame parse (FText text) sink_ok s =
     (case action_from_json (or_default JNull (parse text)) of Inl _ \<Rightarrow> s | Inr a \<Rightarrow> offer_action a s)"
| "client_frame parse FClose sink_ok s = close_connection s"
| "client_frame parse FEnd sink_ok s = close_connection s"
| "client_frame parse FPing sink_ok s = (if sink_ok then s else close_connection s)"
| "client_frame parse FOther sink_ok s = s"

section \<open>Steps\<close>

datatype task_label =
    ClientFrame ws_frame bool
  | AuthDeadline
  | StartRelay
  | RelayEvent bool
  | PingTick bool
  | ForwardHeld

datatype server_label =
    AcceptClient
  | Connection task_label
  | Aborted nat task_label
  | DropAborted nat
  | SendEvent strategy_event
  | TakeAction
  | TakeTokenAction

definition relay_ready :: "strategy_server \<Rightarrow> bool" where
  "relay_ready s = (sv_conn s = Authenticated \<and> sv_relaying s \<and> sv_held s = None)"

text \<open>\<open>event_rx.lock().await\<close> waits as long as another task relays.\<close>

definition lock_free :: "strategy_server \<Rightarrow> bool" where
  "lock_free s = list_all (\<lambda>t. \<not> ct_relaying t) (task_of s # sv_aborted s)"

fun connection_step :: "(string \<Rightarrow> json option) \<Rightarrow> task_label \<Rightarrow> strategy_server \<Rightarrow> strategy_server option" where
  "connection_step parse (ClientFrame f sink_ok) s =
     (if sv_conn s = WaitingForAuth then Some (handshake parse f sink_ok s)
      else if relay_ready s then Some (client_frame parse f sink_ok s) else None)"
| "connection_step parse AuthDeadline s =
     (if sv_conn s = WaitingForAuth then Some (close_connection s) else None)"
| "connection_step parse StartRelay s =
     (if sv_conn s = Authenticated \<and> lock_free s then Some (start_relay s) else None)"
| "connection_step parse (RelayEvent sink_ok) s =
     (case sv_events s of
        [] \<Rightarrow> None
      | e # es \<Rightarrow> if relay_ready s then Some (relay_event e sink_ok (s\<lparr>sv_events := es\<rparr>)) else None)"
| "connection_step parse (PingTick sink_ok) s =
     (if relay_ready s then Some (if sink_ok then s else close_connection s) else None)"
| "connection_step parse ForwardHeld s =
     (case sv_held s of
        None \<Rightarrow> None
      | Some a \<Rightarrow> if has_room a s then Some (enqueue_action a (s\<lparr>sv_held := None\<rparr>)) else None)"

fun server_step :: "(string \<Rightarrow> json option) \<Rightarrow> server_label \<Rightarrow> strategy_server \<Rightarrow> strategy_server option" where
  "server_step parse AcceptClient s = Some (accept_client s)"
| "server_step parse (Connection l) s = connection_step parse l s"
| "server_step parse (Aborted i l) s =
     (if i < length (sv_aborted s) then map_option (swap_task i) (connection_step parse l (swap_task i s)) else None)"
| "server_step parse (DropAborted i) s =
     (if i < length (sv_aborted s)
      then Some (s\<lparr>sv_aborted := take i (sv_aborted s) @ drop (Suc i) (sv_aborted s)\<rparr>) else None)"
| "server_step parse (SendEvent e) s = send_event e s"
| "server_step parse TakeAction s = Some (fst (receive_action s))"
| "server_step parse TakeTokenAction s =
     (case sv_token_actions s of [] \<Rightarrow> None | a # as \<Rightarrow> Some (s\<lparr>sv_token_actions := as\<rparr>))"

fun server_run :: "(string \<Rightarrow> json option) \<Rightarrow> server_label list \<Rightarrow> strategy_server \<Rightarrow> strategy_server option" where
  "server_run parse [] s = Some s"
| "server_run parse (l # ls) s = Option.bind (server_step parse l s) (server_run parse ls)"

section \<open>Runs\<close>

lemma server_run_append:
  "server_run parse (ls @ ls') s = Option.bind (server_run parse ls s) (server_run parse ls')"
proof (induction ls arbitrary: s)
  case (Cons l ls)
  then show ?case by (cases "server_step parse l s") simp_all
qed simp

lemma server_run_induct [consumes 1, case_names Nil snoc]:
  assumes "server_run parse ls s0 = Some s"
    and "P [] s0"
    and "\<And>ls l s s'. server_run parse ls s0 = Some s \<Longrightarrow> P ls s \<Longrightarrow> server_step parse l s = Some s' \<Longrightarrow> P (ls @ [l]) s'"
  shows "P ls s"
  using assms(1)
proof (induction ls arbitrary: s rule: rev_induct)
  case Nil
  then show ?case using assms(2) by simp
next
  case (snoc l ls)
  then show ?case using assms(3) by (auto simp: server_run_append bind_eq_Some_conv)
qed

lemmas server_defs = accept_client_def close_connection_def write_event_def start_relay_def send_event_def
  receive_action_def enqueue_action_def offer_action_def relay_ready_def handshake_text_def relay_event_def

text \<open>The message that logs a client in: an object whose action is \<open>auth\<close> and whose token is the server's.\<close>

definition token_message :: "(string \<Rightarrow> json option) \<Rightarrow> string \<Rightarrow> string \<Rightarrow> bool" where
  "token_message parse auth_token message =
     (case parse message of
        None \<Rightarrow> False
      | Some j \<Rightarrow> str_field ''action'' j = Some ''auth''
          \<and> (str_field ''token'' j = Some auth_token \<or> str_field ''token'' j = None \<and> auth_token = []))"

fun login :: "(string \<Rightarrow> json option) \<Rightarrow> string \<Rightarrow> task_label \<Rightarrow> bool" where
  "login parse auth_token (ClientFrame (FText message) sink_ok) = token_message parse auth_token message"
| "login parse auth_token _ = False"

text \<open>A label that logs a client in, on the last accepted connection or on an aborted one.\<close>

fun authorised :: "(string \<Rightarrow> json option) \<Rightarrow> string \<Rightarrow> server_label \<Rightarrow> bool" where
  "authorised parse auth_token (Connection l) = login parse auth_token l"
| "authorised parse auth_token (Aborted i l) = login parse auth_token l"
| "authorised parse auth_token _ = False"

fun of_aborted :: "server_label \<Rightarrow> bool" where
  "of_aborted (Aborted i l) = True"
| "of_aborted _ = False"

lemma check_auth_ok: "check_auth_message parse t m = Inr u \<longleftrightarrow> token_message parse t m"
  by (auto simp: check_auth_message_def token_message_def validate_auth_def or_default_def split: option.splits if_splits)

definition task_ok :: "connection_task \<Rightarrow> bool" where
  "task_ok t \<longleftrightarrow> (ct_relaying t \<longrightarrow> ct_conn t = Authenticated) \<and> (ct_held t \<noteq> None \<longrightarrow> ct_relaying t)"

definition queues_ok :: "strategy_server \<Rightarrow> bool" where
  "queues_ok s \<longleftrightarrow> length (sv_events s) \<le> SERVER_CHANNEL_CAPACITY
     \<and> length (sv_actions s) \<le> SERVER_CHANNEL_CAPACITY
     \<and> length (sv_token_actions s) \<le> SERVER_CHANNEL_CAPACITY
     \<and> (\<forall>a \<in> set (sv_actions s). \<not> is_token_action a) \<and> (\<forall>a \<in> set (sv_token_actions s). is_token_action a)"

text \<open>At most one task holds the lock of the event queue.\<close>

definition server_inv :: "strategy_server \<Rightarrow> bool" where
  "server_inv s \<longleftrightarrow> queues_ok s \<and> (\<forall>t \<in> set (task_of s # sv_aborted s). task_ok t)
     \<and> size (filter_mset ct_relaying (mset (task_of s # sv_aborted s))) \<le> 1"

lemma server_inv_start: "server_inv (server_start t n w d)"
  by (simp add: server_inv_def queues_ok_def task_ok_def task_of_def server_start_def)

lemma swap_task_simps [simp]:
  "task_of (swap_task i s) = sv_aborted s ! i"
  "sv_aborted (swap_task i s) = (sv_aborted s)[i := task_of s]"
  "sv_conn (swap_task i s) = ct_conn (sv_aborted s ! i)" "sv_relaying (swap_task i s) = ct_relaying (sv_aborted s ! i)"
  "sv_held (swap_task i s) = ct_held (sv_aborted s ! i)" "sv_connected (swap_task i s) = sv_connected s"
  "sv_events (swap_task i s) = sv_events s" "sv_actions (swap_task i s) = sv_actions s"
  "sv_token_actions (swap_task i s) = sv_token_actions s" "sv_auth_token (swap_task i s) = sv_auth_token s"
  by (simp_all add: swap_task_def task_of_def Let_def)

lemma task_of_simps [simp]:
  "ct_conn (task_of s) = sv_conn s" "ct_relaying (task_of s) = sv_relaying s" "ct_held (task_of s) = sv_held s"
  by (simp_all add: task_of_def)

lemma mset_swap:
  assumes "i < length xs"
  shows "mset (xs ! i # xs[i := x]) = mset (x # xs)"
proof -
  have "mset xs = add_mset (xs ! i) (mset xs - {#xs ! i#})" using assms by simp
  then show ?thesis using assms by (simp add: mset_update)
qed

lemma server_inv_mset:
  "server_inv s \<longleftrightarrow> queues_ok s \<and> (\<forall>t \<in># mset (task_of s # sv_aborted s). task_ok t)
     \<and> size (filter_mset ct_relaying (mset (task_of s # sv_aborted s))) \<le> 1"
  by (simp only: server_inv_def set_mset_mset)

lemma server_inv_swap: "i < length (sv_aborted s) \<Longrightarrow> server_inv (swap_task i s) \<longleftrightarrow> server_inv s"
  unfolding server_inv_mset swap_task_simps mset_swap by (simp add: queues_ok_def)

lemma step_frame:
  "connection_step parse l s = Some s' \<Longrightarrow>
   sv_aborted s' = sv_aborted s \<and> sv_auth_token s' = sv_auth_token s \<and> (sv_relaying s' \<longrightarrow> sv_relaying s \<or> lock_free s)"
  by (cases "(parse, l, s)" rule: connection_step.cases;
      cases "(parse, case l of ClientFrame f ok \<Rightarrow> f | _ \<Rightarrow> FOther, True, s)" rule: client_frame.cases)
    (auto simp: server_defs Let_def split: if_splits list.splits option.splits sum.splits strategy_event.splits)

definition conn_ok :: "strategy_server \<Rightarrow> bool" where
  "conn_ok s \<longleftrightarrow> queues_ok s \<and> task_ok (task_of s)"

lemma conn_ok_close: "conn_ok s \<Longrightarrow> conn_ok (close_connection s)"
  by (simp add: conn_ok_def queues_ok_def task_ok_def close_connection_def)

lemma conn_ok_write: "conn_ok (write_event e ok s) \<longleftrightarrow> conn_ok s"
  by (simp add: conn_ok_def queues_ok_def task_ok_def write_event_def)

lemma conn_ok_enqueue: "conn_ok s \<Longrightarrow> has_room a s \<Longrightarrow> conn_ok (enqueue_action a s)"
  by (auto simp: conn_ok_def queues_ok_def task_ok_def enqueue_action_def has_room_def split: if_splits)

lemma conn_ok_offer: "conn_ok s \<Longrightarrow> sv_relaying s \<Longrightarrow> conn_ok (offer_action a s)"
  by (auto simp: offer_action_def conn_ok_enqueue) (auto simp: conn_ok_def queues_ok_def task_ok_def)

lemma conn_ok_handshake:
  "conn_ok s \<Longrightarrow> sv_conn s = WaitingForAuth \<Longrightarrow> conn_ok (handshake parse f ok s)"
  by (cases f)
    (auto simp: handshake_text_def conn_ok_close conn_ok_write split: sum.split,
     auto simp: conn_ok_def queues_ok_def task_ok_def write_event_def)

lemma conn_ok_frame: "conn_ok s \<Longrightarrow> relay_ready s \<Longrightarrow> conn_ok (client_frame parse f ok s)"
  by (cases f) (auto simp: conn_ok_close conn_ok_offer relay_ready_def split: sum.split)

lemma conn_ok_relay: "conn_ok s \<Longrightarrow> conn_ok (relay_event e ok s)"
  by (auto simp: relay_event_def Let_def conn_ok_close conn_ok_write split: strategy_event.split)

lemma conn_ok_step:
  assumes "conn_ok s" and "connection_step parse l s = Some s'"
  shows "conn_ok s'"
proof (cases l)
  case (RelayEvent ok)
  have "conn_ok (s\<lparr>sv_events := es\<rparr>)" if "sv_events s = e # es" for e es
    using assms(1) that by (auto simp: conn_ok_def queues_ok_def task_ok_def)
  then show ?thesis
    using assms(2) RelayEvent by (auto simp: conn_ok_relay split: list.splits if_splits)
next
  case ForwardHeld
  have "conn_ok (s\<lparr>sv_held := None\<rparr>)" using assms(1) by (auto simp: conn_ok_def queues_ok_def task_ok_def)
  then show ?thesis
    using assms(2) ForwardHeld
    by (auto simp: has_room_def intro!: conn_ok_enqueue split: option.splits if_splits)
next
  case StartRelay
  then show ?thesis
    using assms by (auto simp: conn_ok_def queues_ok_def task_ok_def start_relay_def lock_free_def split: if_splits)
qed (use assms in \<open>auto simp: conn_ok_handshake conn_ok_frame conn_ok_close split: if_splits\<close>)

lemma step_queues:
  "connection_step parse l s = Some s' \<Longrightarrow> queues_ok s \<Longrightarrow> task_ok (task_of s) \<Longrightarrow> queues_ok s' \<and> task_ok (task_of s')"
  using conn_ok_step [of s parse l s'] by (simp add: conn_ok_def)

lemma step_login:
  "connection_step parse l s = Some s' \<Longrightarrow>
   (sv_conn s' = Authenticated \<longrightarrow> sv_conn s = Authenticated \<or> login parse (sv_auth_token s) l)
   \<and> (sv_connected s' \<longrightarrow> sv_connected s \<or> login parse (sv_auth_token s) l)"
  by (cases "(parse, l, s)" rule: connection_step.cases;
      cases "(parse, case l of ClientFrame f ok \<Rightarrow> f | _ \<Rightarrow> FOther, True, s)" rule: handshake.cases)
    (auto simp: server_defs check_auth_ok Let_def
      split: if_splits list.splits option.splits sum.splits strategy_event.splits)

text \<open>Only the task of an authenticated client puts actions into the queues, at their ends.\<close>

definition queued :: "strategy_server \<Rightarrow> strategy_server \<Rightarrow> bool \<Rightarrow> bool" where
  "queued s s' from_client \<longleftrightarrow>
     (\<exists>as. sv_actions s' = sv_actions s @ as \<and> (as = [] \<or> from_client))
     \<and> (\<exists>ts. sv_token_actions s' = sv_token_actions s @ ts \<and> (ts = [] \<or> from_client))"

lemma step_queued:
  "connection_step parse l s = Some s' \<Longrightarrow> task_ok (task_of s) \<Longrightarrow> queued s s' (sv_conn s = Authenticated)"
  by (cases "(parse, l, s)" rule: connection_step.cases;
      cases "(parse, case l of ClientFrame f ok \<Rightarrow> f | _ \<Rightarrow> FOther, True, s)" rule: client_frame.cases)
    (auto simp: queued_def task_ok_def server_defs Let_def
      split: if_splits list.splits option.splits sum.splits strategy_event.splits)

lemma server_inv_connection:
  assumes "server_inv s" and "connection_step parse l s = Some s'"
  shows "server_inv s'"
proof -
  define c where "c = size (filter_mset ct_relaying (mset (sv_aborted s)))"
  have "c = 0 \<and> \<not> sv_relaying s" if "lock_free s"
    using that by (auto simp: c_def lock_free_def list_all_iff)
  moreover have "queues_ok s" "task_ok (task_of s)" "\<forall>t \<in> set (sv_aborted s). task_ok t"
    "(if sv_relaying s then Suc c else c) \<le> 1"
    using assms(1) by (auto simp: server_inv_def c_def split: if_splits)
  moreover have "sv_aborted s' = sv_aborted s" "sv_relaying s' \<longrightarrow> sv_relaying s \<or> lock_free s"
    using step_frame [OF assms(2)] by simp_all
  moreover have "queues_ok s'" "task_ok (task_of s')"
    using step_queues [OF assms(2)] calculation by simp_all
  moreover have "(if sv_relaying s' then Suc c else c) \<le> 1"
    using calculation by (cases "lock_free s"; cases "sv_relaying s"; cases "sv_relaying s'") simp_all
  ultimately show ?thesis by (simp add: server_inv_def c_def split: if_splits)
qed

lemma server_inv_step:
  assumes "server_inv s" and "server_step parse l s = Some s'"
  shows "server_inv s'"
proof (cases l)
  case (Aborted i t)
  then obtain v where i: "i < length (sv_aborted s)" and v: "connection_step parse t (swap_task i s) = Some v"
    and s': "s' = swap_task i v"
    using assms(2) by (auto split: if_splits)
  have "server_inv v" using server_inv_connection [OF _ v] assms(1) i by (simp add: server_inv_swap)
  then show ?thesis using step_frame [OF v] i s' by (simp add: server_inv_swap)
next
  case (DropAborted i)
  then have i: "i < length (sv_aborted s)"
    and s': "s' = s\<lparr>sv_aborted := take i (sv_aborted s) @ drop (Suc i) (sv_aborted s)\<rparr>"
    using assms(2) by (auto split: if_splits)
  have whole: "sv_aborted s = take i (sv_aborted s) @ sv_aborted s ! i # drop (Suc i) (sv_aborted s)"
    using i by (rule id_take_nth_drop)
  have "set (sv_aborted s') \<subseteq> set (sv_aborted s)"
    "size (filter_mset ct_relaying (mset (sv_aborted s'))) \<le> size (filter_mset ct_relaying (mset (sv_aborted s)))"
    using arg_cong [OF whole, of set] arg_cong [OF whole, of "\<lambda>xs. size (filter_mset ct_relaying (mset xs))"]
    by (auto simp: s')
  moreover have "queues_ok s' = queues_ok s" "task_of s' = task_of s" by (simp_all add: s' queues_ok_def task_of_def)
  ultimately show ?thesis using assms(1) by (auto simp: server_inv_def split: if_splits)
qed (use assms in \<open>auto simp: server_inv_connection split: if_splits list.splits,
      auto simp: server_inv_def queues_ok_def task_ok_def task_of_def server_defs split: if_splits list.splits\<close>)

lemma step_token: "server_step parse l s = Some s' \<Longrightarrow> sv_auth_token s' = sv_auth_token s"
  by (cases l) (auto simp: server_defs dest: step_frame split: if_splits list.splits)

lemma step_connected:
  assumes "server_step parse l s = Some s'" and "sv_connected s'"
  shows "authorised parse (sv_auth_token s) l \<or> sv_connected s \<and> l \<noteq> AcceptClient"
  using assms by (cases l) (auto simp: server_defs dest: step_login split: if_splits list.splits)

definition own_login :: "(string \<Rightarrow> json option) \<Rightarrow> string \<Rightarrow> server_label \<Rightarrow> bool" where
  "own_login parse t l = (\<exists>m. l = Connection m \<and> login parse t m)"

lemma step_authenticated:
  assumes "server_step parse l s = Some s'" and "sv_conn s' = Authenticated"
  shows "own_login parse (sv_auth_token s) l \<or> sv_conn s = Authenticated \<and> l \<noteq> AcceptClient"
  using assms by (cases l) (auto simp: own_login_def server_defs dest: step_login step_frame split: if_splits list.splits)

lemma step_aborted:
  assumes "server_step parse l s = Some s'" and "t \<in> set (sv_aborted s')" and "ct_conn t = Authenticated"
  shows "authorised parse (sv_auth_token s) l \<or> sv_conn s = Authenticated
    \<or> (\<exists>u \<in> set (sv_aborted s). ct_conn u = Authenticated)"
proof (cases l)
  case (Aborted i m)
  then obtain v where i: "i < length (sv_aborted s)" and v: "connection_step parse m (swap_task i s) = Some v"
    and s': "s' = swap_task i v"
    using assms(1) by (auto split: if_splits)
  have "sv_aborted s' = (sv_aborted s)[i := task_of v]"
    using s' step_frame [OF v] by simp
  then consider "t = task_of v" | "t \<in> set (sv_aborted s)"
    using assms(2) set_update_subset_insert [of "sv_aborted s" i] by auto
  then show ?thesis
  proof cases
    case 1
    then show ?thesis using step_login [OF v] assms(3) Aborted i by (auto dest: nth_mem)
  qed (use assms(3) in blast)
next
  case (DropAborted i)
  then have "t \<in> set (sv_aborted s)"
    using assms(1,2) by (auto dest: in_set_takeD in_set_dropD split: if_splits)
  then show ?thesis using assms(3) by blast
qed (use assms in \<open>auto simp: server_defs dest: step_frame split: if_splits list.splits\<close>)

lemma step_taken:
  assumes "server_inv s" and "server_step parse l s = Some s'" and "l \<noteq> TakeAction" and "l \<noteq> TakeTokenAction"
  shows "queued s s' (\<exists>t. l = Connection t \<and> sv_conn s = Authenticated
    \<or> (\<exists>i < length (sv_aborted s). l = Aborted i t \<and> ct_conn (sv_aborted s ! i) = Authenticated))"
proof (cases l)
  case (Connection t)
  then show ?thesis
    using step_queued [of parse t s s'] assms by (auto simp: server_inv_def queued_def)
next
  case (Aborted i t)
  then obtain v where i: "i < length (sv_aborted s)" and v: "connection_step parse t (swap_task i s) = Some v"
    and s': "s' = swap_task i v"
    using assms(2) by (auto split: if_splits)
  have "task_ok (sv_aborted s ! i)" using assms(1) i by (auto simp: server_inv_def)
  then show ?thesis using step_queued [OF v] i s' Aborted by (auto simp: queued_def)
qed (use assms in \<open>auto simp: queued_def server_defs split: if_splits list.splits\<close>)

lemma run_inv: "server_run parse ls s0 = Some s \<Longrightarrow> server_inv s0 \<Longrightarrow> server_inv s"
  by (induction rule: server_run_induct) (auto intro: server_inv_step)

lemma run_token: "server_run parse ls s0 = Some s \<Longrightarrow> sv_auth_token s = sv_auth_token s0"
  by (induction rule: server_run_induct) (auto dest: step_token)

lemma start_run:
  assumes "server_run parse ls (server_start t n w d) = Some s"
  shows "server_inv s" "sv_auth_token s = t"
  using run_inv [OF assms server_inv_start] run_token [OF assms] by (simp_all add: server_start_def)

text \<open>A step of the kind was taken after the last connection was accepted.\<close>

definition since_accept :: "(server_label \<Rightarrow> bool) \<Rightarrow> server_label list \<Rightarrow> bool" where
  "since_accept P ls \<longleftrightarrow> (\<exists>pre l post. ls = pre @ l # post \<and> P l \<and> AcceptClient \<notin> set post)"

lemma since_now: "P l \<Longrightarrow> since_accept P (ls @ [l])"
  unfolding since_accept_def by (metis append_Cons append_Nil empty_iff list.set(1))

lemma since_snoc:
  assumes "since_accept P ls" and "l \<noteq> AcceptClient"
  shows "since_accept P (ls @ [l])"
proof -
  obtain pre m post where "ls = pre @ m # post" "P m" "AcceptClient \<notin> set post"
    using assms(1) by (auto simp: since_accept_def)
  then have "ls @ [l] = pre @ m # (post @ [l])" "AcceptClient \<notin> set (post @ [l])"
    using assms(2) by simp_all
  then show ?thesis using \<open>P m\<close> unfolding since_accept_def by blast
qed

lemma since_member: "since_accept P ls \<Longrightarrow> \<exists>l \<in> set ls. P l"
  by (auto simp: since_accept_def)

lemma run_logged_in:
  assumes "server_run parse ls (server_start t n w d) = Some s"
  shows "(sv_connected s \<longrightarrow> since_accept (authorised parse t) ls)
    \<and> (sv_conn s = Authenticated \<longrightarrow> since_accept (own_login parse t) ls)
    \<and> ((\<exists>u \<in> set (sv_aborted s). ct_conn u = Authenticated) \<or> sv_actions s \<noteq> [] \<or> sv_token_actions s \<noteq> []
        \<longrightarrow> (\<exists>l \<in> set ls. authorised parse t l))"
  using assms
proof (induction rule: server_run_induct)
  case Nil
  then show ?case by (simp add: server_start_def)
next
  case (snoc ls l s s')
  note inv = start_run [OF snoc(1)]
  have conn: "sv_connected s' \<longrightarrow> since_accept (authorised parse t) (ls @ [l])"
    using step_connected [OF snoc(2)] snoc(3) inv(2) by (auto intro: since_now since_snoc)
  have own: "sv_conn s' = Authenticated \<longrightarrow> since_accept (own_login parse t) (ls @ [l])"
    using step_authenticated [OF snoc(2)] snoc(3) inv(2) by (auto intro: since_now since_snoc)
  have member: "sv_conn s = Authenticated \<Longrightarrow> \<exists>l \<in> set ls. authorised parse t l"
    using snoc(3) since_member [of "own_login parse t" ls] by (force simp: own_login_def)
  have aborted: "(\<exists>u \<in> set (sv_aborted s'). ct_conn u = Authenticated) \<longrightarrow> (\<exists>m \<in> set (ls @ [l]). authorised parse t m)"
    using step_aborted [OF snoc(2)] snoc(3) inv(2) member by auto
  have "sv_actions s' \<noteq> [] \<or> sv_token_actions s' \<noteq> [] \<longrightarrow> (\<exists>m \<in> set (ls @ [l]). authorised parse t m)"
  proof (cases "l = TakeAction \<or> l = TakeTokenAction")
    case True
    then show ?thesis using snoc(2,3) by (auto simp: receive_action_def split: list.splits)
  next
    case False
    then show ?thesis using step_taken [OF inv(1) snoc(2)] snoc(3) member by (fastforce simp: queued_def)
  qed
  then show ?case using conn own aborted by blast
qed

section \<open>Who the node listens to\<close>

text \<open>
  C30. Only the holder of the server's token is listened to, however late an aborted task stops. Whatever
  steps the server has taken, it reports a client as connected only if since the last accepted connection
  a client has sent the token as its first text message (on that connection, or on a replaced one whose
  task had not stopped yet), and it holds the connection of the last client for authenticated only if
  that client itself has. A step that lengthens the action queue of the main loop or that of the token
  worker is one of a task whose client is authenticated, so no action is ever queued before a client has
  sent the token; each queue holds actions of its own kind only.
\<close>
theorem client_authenticated:
  assumes "server_run parse ls (server_start auth_token nft_id network details) = Some s"
  shows "(is_connected s \<longrightarrow> (\<exists>pre l post. ls = pre @ l # post
        \<and> authorised parse auth_token l \<and> AcceptClient \<notin> set post))
    \<and> (sv_conn s = Authenticated \<longrightarrow> (\<exists>pre l post. ls = pre @ Connection l # post
        \<and> login parse auth_token l \<and> AcceptClient \<notin> set post))
    \<and> (sv_actions s \<noteq> [] \<or> sv_token_actions s \<noteq> [] \<or> (\<exists>t \<in> set (sv_aborted s). ct_conn t = Authenticated)
        \<longrightarrow> (\<exists>l \<in> set ls. authorised parse auth_token l))
    \<and> (\<forall>l s'. server_step parse l s = Some s'
        \<and> (length (sv_actions s) < length (sv_actions s') \<or> length (sv_token_actions s) < length (sv_token_actions s'))
        \<longrightarrow> (\<exists>t. l = Connection t \<and> sv_conn s = Authenticated
              \<or> (\<exists>i < length (sv_aborted s). l = Aborted i t \<and> ct_conn (sv_aborted s ! i) = Authenticated)))
    \<and> (\<forall>a \<in> set (sv_actions s). \<not> is_token_action a) \<and> (\<forall>a \<in> set (sv_token_actions s). is_token_action a)"
proof -
  have inv: "server_inv s" by (rule start_run [OF assms])
  have "\<exists>t. l = Connection t \<and> sv_conn s = Authenticated
      \<or> (\<exists>i < length (sv_aborted s). l = Aborted i t \<and> ct_conn (sv_aborted s ! i) = Authenticated)"
    if "server_step parse l s = Some s'"
      "length (sv_actions s) < length (sv_actions s') \<or> length (sv_token_actions s) < length (sv_token_actions s')" for l s'
    using step_taken [OF inv that(1)] that
    by (cases "l = TakeAction \<or> l = TakeTokenAction")
      (auto simp: receive_action_def queued_def split: list.splits)
  moreover have "(\<forall>a \<in> set (sv_actions s). \<not> is_token_action a) \<and> (\<forall>a \<in> set (sv_token_actions s). is_token_action a)"
    using inv by (simp add: server_inv_def queues_ok_def)
  moreover have "sv_conn s = Authenticated \<longrightarrow> (\<exists>pre l post. ls = pre @ Connection l # post
        \<and> login parse auth_token l \<and> AcceptClient \<notin> set post)"
    using run_logged_in [OF assms] by (auto simp: since_accept_def own_login_def)
  ultimately show ?thesis
    using run_logged_in [OF assms] by (auto simp: since_accept_def is_connected_def)
qed

section \<open>A server without a client\<close>

definition events_sent :: "server_label list \<Rightarrow> strategy_event list" where
  "events_sent ls = List.map_filter (\<lambda>l. case l of SendEvent e \<Rightarrow> Some e | _ \<Rightarrow> None) ls"

lemma events_sent_simps [simp]:
  "events_sent [] = []"
  "events_sent (l # ls) = (case l of SendEvent e \<Rightarrow> e # events_sent ls | _ \<Rightarrow> events_sent ls)"
  "events_sent (ls @ ls') = events_sent ls @ events_sent ls'"
  by (simp_all add: events_sent_def map_filter_def split: server_label.split)

lemma connection_without_client:
  assumes "connection_step parse l s = Some s'" and "task_ok (task_of s)" and "sv_conn s \<noteq> Authenticated"
    and "\<not> login parse (sv_auth_token s) l"
  shows "sv_conn s' \<noteq> Authenticated \<and> (sv_connected s' \<longrightarrow> sv_connected s) \<and> sv_events s' = sv_events s"
  using assms
  by (cases "(parse, l, s)" rule: connection_step.cases;
      cases "(parse, case l of ClientFrame f ok \<Rightarrow> f | _ \<Rightarrow> FOther, True, s)" rule: handshake.cases)
    (auto simp: task_ok_def check_auth_ok server_defs Let_def split: if_splits list.splits option.splits sum.splits)

lemma step_without_client:
  assumes "server_inv s" and "sv_conn s \<noteq> Authenticated" and "\<not> sv_connected s" and "server_step parse l s = Some s'"
    and "\<not> authorised parse (sv_auth_token s) l" and "\<not> of_aborted l"
  shows "sv_conn s' \<noteq> Authenticated \<and> \<not> sv_connected s' \<and> sv_events s' = sv_events s @ events_sent [l]"
  using assms
  by (cases l) (auto simp: server_inv_def server_defs dest: connection_without_client split: if_splits list.splits)

lemma run_without_client:
  assumes "server_run parse ls s0 = Some s" and "server_inv s0" and "sv_conn s0 \<noteq> Authenticated" and "\<not> sv_connected s0"
    and "\<forall>l \<in> set ls. \<not> authorised parse (sv_auth_token s0) l \<and> \<not> of_aborted l"
  shows "sv_conn s \<noteq> Authenticated \<and> \<not> sv_connected s \<and> sv_events s = sv_events s0 @ events_sent ls"
  using assms
proof (induction rule: server_run_induct)
  case (snoc ls l s s')
  have "server_inv s" "sv_auth_token s = sv_auth_token s0"
    using run_inv [OF snoc(1)] run_token [OF snoc(1)] snoc(4) by blast+
  with snoc show ?case using step_without_client [of s parse l s'] by simp
qed simp

text \<open>
  Any connection ends the session of the strategy, before it has said anything: from the accepted
  connection on, until some client sends the token, no client is connected and no event leaves the
  queue, once the aborted tasks have stopped. The queue keeps every event sent since, in order, and with
  32 of them the main loop's next \<open>send_event\<close> waits: the loop stands still until a client logs in.
\<close>
theorem eviction_blocks_sender:
  assumes "server_run parse ls (server_start auth_token nft_id network details) = Some s"
    and "server_run parse (AcceptClient # later) s = Some s'"
    and "\<forall>l \<in> set later. \<not> authorised parse auth_token l \<and> \<not> of_aborted l"
  shows "\<not> is_connected s' \<and> sv_events s' = sv_events s @ events_sent later
    \<and> (send_event e s' = None \<longleftrightarrow> 32 \<le> length (sv_events s) + length (events_sent later))"
proof -
  have inv: "server_inv (accept_client s)" and token: "sv_auth_token (accept_client s) = auth_token"
    using start_run [OF assms(1)] server_inv_step [of s parse AcceptClient] by (simp_all add: accept_client_def)
  have "\<not> sv_connected s' \<and> sv_events s' = sv_events s @ events_sent later"
    using run_without_client [of parse later "accept_client s" s'] inv token assms(2,3)
    by (simp add: accept_client_def)
  then show ?thesis by (auto simp: is_connected_def send_event_def SERVER_CHANNEL_CAPACITY_def)
qed

section \<open>Actions out of step\<close>

lemma step_keeps_actions:
  assumes "server_inv s" and "server_step parse l s = Some s'" and "l \<noteq> TakeAction"
  shows "\<exists>bs. sv_actions s' = sv_actions s @ bs"
proof (cases "l = TakeTokenAction")
  case True
  then show ?thesis using assms(2) by (auto split: list.splits)
next
  case False
  then show ?thesis using step_taken [OF assms(1,2)] assms(3) by (auto simp: queued_def)
qed

text \<open>
  The action queue outlives the session. An action the strategy sent too late for its phase stays
  at the head of the queue through every later step, a new client's handshake included, which empties
  only the event queue; the main loop's next \<open>receive_action_with_timeout\<close> returns it, whatever was
  asked and whoever is connected, and each later answer is read one request late.
\<close>
theorem stale_action_answers:
  assumes "server_run parse ls (server_start auth_token nft_id network details) = Some s"
    and "sv_actions s = a # as" and "server_run parse later s = Some s'" and "TakeAction \<notin> set later"
  shows "snd (receive_action s') = Some a \<and> take (length (a # as)) (sv_actions s') = a # as"
proof -
  have "\<exists>bs. sv_actions s' = (a # as) @ bs"
    using assms(3,4)
  proof (induction rule: server_run_induct)
    case (snoc later l u v)
    have "server_inv u" using run_inv [OF snoc(1)] start_run [OF assms(1)] by blast
    with snoc show ?case using step_keeps_actions [of u parse l v] by auto
  qed (use assms(2) in simp)
  then show ?thesis by (auto simp: receive_action_def)
qed

section \<open>A client that sends too much\<close>

text \<open>A task that does not relay touches no queue while another one relays.\<close>

lemma idle_step_queues:
  assumes "connection_step parse l s = Some s'" and "\<not> sv_relaying s" and "\<not> lock_free s" and "task_ok (task_of s)"
  shows "sv_events s' = sv_events s \<and> sv_actions s' = sv_actions s"
  using assms
  by (cases "(parse, l, s)" rule: connection_step.cases;
      cases "(parse, case l of ClientFrame f ok \<Rightarrow> f | _ \<Rightarrow> FOther, True, s)" rule: handshake.cases)
    (auto simp: task_ok_def server_defs Let_def split: if_splits list.splits option.splits sum.splits)

lemma relaying_alone:
  assumes "server_inv s" and "sv_relaying s" and "t \<in> set (sv_aborted s)"
  shows "\<not> ct_relaying t \<and> task_ok t"
  using assms by (auto simp: server_inv_def)

lemma aborted_step_queues:
  assumes "server_inv s" and "sv_relaying s" and "server_step parse (Aborted i l) s = Some s'"
  shows "sv_events s' = sv_events s \<and> sv_actions s' = sv_actions s \<and> task_of s' = task_of s"
proof -
  obtain v where i: "i < length (sv_aborted s)" and v: "connection_step parse l (swap_task i s) = Some v"
    and s': "s' = swap_task i v"
    using assms(3) by (auto split: if_splits)
  have other: "\<not> ct_relaying (sv_aborted s ! i)" "task_ok (sv_aborted s ! i)"
    using relaying_alone [OF assms(1,2)] i by simp_all
  have "task_of s \<in> set (sv_aborted (swap_task i s))" using i by (simp add: set_update_memI)
  then have "lock_free (swap_task i s) \<Longrightarrow> \<not> ct_relaying (task_of s)"
    unfolding lock_free_def list_all_iff by (metis list.set_intros(2))
  then have "\<not> lock_free (swap_task i s)" using assms(2) by auto
  then show ?thesis
    using idle_step_queues [OF v] step_frame [OF v] other i by (simp add: s')
qed

lemma held_connection_step:
  assumes "connection_step parse l u = Some v" and "sv_held u = Some a" and "\<not> is_token_action a"
    and "length (sv_actions u) = 32" and "sv_conn u = Authenticated" and "sv_relaying u"
  shows "False"
  using assms
  by (cases l) (auto simp: relay_ready_def lock_free_def has_room_def SERVER_CHANNEL_CAPACITY_def split: list.splits)

text \<open>
  C36. A client that sends one action more than the queue holds stops the node. Once the relay waits with
  an action in hand and both queues are full, no step of the server makes room for an event as long as
  the main loop takes no action and no new client connects; and the main loop, waiting in
  \<open>send_event\<close>, takes none. What does help is another client: once the waiting task has stopped, its
  login empties the event queue.
\<close>
theorem flood_deadlocks:
  assumes "server_run parse ls (server_start auth_token nft_id network details) = Some s"
    and "sv_held s = Some a" and "\<not> is_token_action a"
    and "length (sv_actions s) = 32" and "length (sv_events s) = 32"
    and "server_run parse later s = Some s'" and "AcceptClient \<notin> set later" and "TakeAction \<notin> set later"
  shows "send_event e s' = None \<and> sv_held s' = Some a \<and> sv_actions s' = sv_actions s \<and> sv_events s' = sv_events s
    \<and> (\<forall>message. token_message parse auth_token message \<longrightarrow>
        (\<exists>s2. server_run parse [AcceptClient, DropAborted (length (sv_aborted s')),
          Connection (ClientFrame (FText message) True), Connection StartRelay] s' = Some s2
        \<and> sv_events s2 = [] \<and> sv_actions s2 = sv_actions s))"
proof -
  have inv: "server_inv s" by (rule start_run [OF assms(1)])
  have "sv_held s' = Some a \<and> sv_actions s' = sv_actions s \<and> sv_events s' = sv_events s
      \<and> sv_conn s' = Authenticated \<and> sv_relaying s' \<and> server_inv s' \<and> sv_auth_token s' = auth_token"
    using assms(6,7,8)
  proof (induction rule: server_run_induct)
    case Nil
    then show ?case using inv start_run [OF assms(1)] assms(2) by (auto simp: server_inv_def task_ok_def)
  next
    case (snoc later l u v)
    then have u: "sv_held u = Some a" "sv_actions u = sv_actions s" "sv_events u = sv_events s"
      "sv_conn u = Authenticated" "sv_relaying u" "server_inv u" "sv_auth_token u = auth_token"
      and l: "l \<noteq> AcceptClient" "l \<noteq> TakeAction" by auto
    have v: "server_inv v" "sv_auth_token v = auth_token"
      using server_inv_step [OF u(6) snoc(2)] step_token [OF snoc(2)] u(7) by auto
    have "sv_events v = sv_events u \<and> sv_actions v = sv_actions u \<and> task_of v = task_of u"
    proof (cases l)
      case (Connection t)
      then show ?thesis using held_connection_step [of parse t u v a] snoc(2) u assms(3,4) by auto
    next
      case (Aborted i t)
      then show ?thesis using aborted_step_queues [OF u(6,5)] snoc(2) by simp
    qed (use snoc(2) l u(3) assms(5) in \<open>auto simp: send_event_def SERVER_CHANNEL_CAPACITY_def task_of_def
          split: list.splits if_splits\<close>)
    then show ?case using u v by (simp add: task_of_def)
  qed
  note final = this
  have lock: "list_all (\<lambda>t. \<not> ct_relaying t) (sv_aborted s')"
    using relaying_alone [of s'] final by (auto simp: list_all_iff)
  have "\<exists>s2. server_run parse [AcceptClient, DropAborted (length (sv_aborted s')),
          Connection (ClientFrame (FText message) True), Connection StartRelay] s' = Some s2
        \<and> sv_events s2 = [] \<and> sv_actions s2 = sv_actions s'"
    if "check_auth_message parse auth_token message = Inr ()" for message
    using final lock that
    by (simp add: accept_client_def handshake_text_def write_event_def start_relay_def lock_free_def list_all_iff)
  then show ?thesis using final assms(5) by (simp add: check_auth_ok send_event_def SERVER_CHANNEL_CAPACITY_def)
qed

section \<open>Examples\<close>

definition example_parse :: "string \<Rightarrow> json option" where
  "example_parse text =
     (if text = ''auth'' then Some (action_json (ActAuth ''key''))
      else if text = ''commit'' then Some (action_json (ActCommit []))
      else if text = ''reveal'' then Some (action_json (ActReveal [0])) else None)"

definition example_server :: strategy_server where
  "example_server = server_start ''key'' 7 ''testnet'' None"

definition example_login :: "server_label list" where
  "example_login = [AcceptClient, Connection (ClientFrame (FText ''auth'') True), Connection StartRelay]"

definition example_session :: strategy_server where
  "example_session = example_server\<lparr>sv_connected := True, sv_conn := Authenticated, sv_relaying := True,
     sv_written := [EvAuthOk 7 ''testnet'' None]\<rparr>"

lemma example_auth: "check_auth_message example_parse ''key'' ''auth'' = Inr ()"
  by (simp add: check_auth_message_def example_parse_def validate_auth_def str_field_def)

lemma example_login_run: "server_run example_parse example_login example_server = Some example_session"
  by (simp add: example_login_def example_server_def example_session_def server_start_def server_defs lock_free_def task_of_def example_auth)

lemma example_actions:
  "action_from_json (or_default JNull (example_parse ''commit'')) = Inr (ActCommit [])"
  "action_from_json (or_default JNull (example_parse ''reveal'')) = Inr (ActReveal [0])"
  using reveal_indices_roundtrip [of "[0]"]
  by (simp_all add: example_parse_def action_from_json_def need_str_def str_field_def)

lemma example_commit_step:
  assumes "length as < 32"
  shows "server_step example_parse (Connection (ClientFrame (FText ''commit'') True)) (example_session\<lparr>sv_actions := as\<rparr>)
    = Some (example_session\<lparr>sv_actions := as @ [ActCommit []]\<rparr>)"
  using assms
  by (simp add: example_session_def example_server_def server_start_def relay_ready_def example_actions
      offer_action_def has_room_def enqueue_action_def SERVER_CHANNEL_CAPACITY_def)

lemma example_commits:
  "length as + n \<le> 32 \<Longrightarrow>
   server_run example_parse (replicate n (Connection (ClientFrame (FText ''commit'') True))) (example_session\<lparr>sv_actions := as\<rparr>)
     = Some (example_session\<lparr>sv_actions := as @ replicate n (ActCommit [])\<rparr>)"
proof (induction n arbitrary: as)
  case (Suc n)
  then have "length as < 32" by simp
  from example_commit_step [OF this] Suc show ?case
    by (simp add: replicate_app_Cons_same)
qed simp

lemma send_events:
  "length (sv_events s) + length es \<le> 32 \<Longrightarrow>
   server_run parse (map SendEvent es) s = Some (s\<lparr>sv_events := sv_events s @ es\<rparr>)"
  by (induction es arbitrary: s) (simp_all add: send_event_def SERVER_CHANNEL_CAPACITY_def)

definition example_flood :: "server_label list" where
  "example_flood = example_login @ replicate 33 (Connection (ClientFrame (FText ''commit'') True))
     @ map SendEvent (replicate 32 EvHoldingPeriodCancelled)"

definition example_flooded :: strategy_server where
  "example_flooded = example_session\<lparr>sv_actions := replicate 32 (ActCommit []), sv_held := Some (ActCommit []),
     sv_events := replicate 32 EvHoldingPeriodCancelled\<rparr>"

lemma example_flood_run: "server_run example_parse example_flood example_server = Some example_flooded"
proof -
  let ?full = "example_session\<lparr>sv_actions := replicate 32 (ActCommit [])\<rparr>"
  let ?commit = "Connection (ClientFrame (FText ''commit'') True)"
  have "server_run example_parse (replicate 32 ?commit) example_session = Some ?full"
    using example_commits [of "[]" 32]
    by (simp add: example_session_def example_server_def server_start_def)
  moreover have "server_step example_parse ?commit ?full = Some (?full\<lparr>sv_held := Some (ActCommit [])\<rparr>)"
    by (simp add: example_session_def example_server_def server_start_def relay_ready_def example_actions
        offer_action_def has_room_def SERVER_CHANNEL_CAPACITY_def)
  moreover have "replicate 33 ?commit = replicate 32 ?commit @ [?commit]"
    by (simp add: numeral_eq_Suc)
  moreover have "sv_events (?full\<lparr>sv_held := Some (ActCommit [])\<rparr>) = []"
    by (simp add: example_session_def example_server_def server_start_def)
  ultimately show ?thesis
    using send_events [of "?full\<lparr>sv_held := Some (ActCommit [])\<rparr>" "replicate 32 EvHoldingPeriodCancelled"]
    by (simp add: example_flood_def example_flooded_def server_run_append example_login_run)
qed

theorem client_authenticated_witness:
  "\<exists>l \<in> set (example_login @ [Connection (ClientFrame (FText ''commit'') True)]). authorised example_parse ''key'' l"
proof -
  have "server_run example_parse (example_login @ [Connection (ClientFrame (FText ''commit'') True)])
      (server_start ''key'' 7 ''testnet'' None) = Some (example_session\<lparr>sv_actions := [ActCommit []]\<rparr>)"
    using example_commits [of "[]" 1] example_login_run
    by (simp add: server_run_append example_server_def example_session_def server_start_def)
  from client_authenticated [OF this] show ?thesis by simp
qed

theorem eviction_blocks_sender_witness:
  "\<exists>s. server_run example_parse (AcceptClient # map SendEvent (replicate 32 EvHoldingPeriodCancelled))
         example_session = Some s \<and> \<not> is_connected s \<and> send_event EvHoldingPeriodCancelled s = None"
proof -
  let ?later = "map SendEvent (replicate 32 EvHoldingPeriodCancelled)"
  have start: "server_run example_parse example_login (server_start ''key'' 7 ''testnet'' None) = Some example_session"
    using example_login_run by (simp add: example_server_def)
  have no_events: "sv_events example_session = []"
    by (simp add: example_session_def example_server_def server_start_def)
  have run: "server_run example_parse (AcceptClient # ?later) example_session
      = Some ((accept_client example_session)\<lparr>sv_events := replicate 32 EvHoldingPeriodCancelled\<rparr>)"
    using send_events [of "accept_client example_session" "replicate 32 EvHoldingPeriodCancelled" example_parse]
    by (simp add: accept_client_def no_events)
  have "length (events_sent ?later) = 32" by (simp add: numeral_eq_Suc)
  then show ?thesis
    using eviction_blocks_sender [OF start run, of EvHoldingPeriodCancelled] run no_events by auto
qed

definition example_relogin :: "server_label list" where
  "example_relogin = [AcceptClient, DropAborted 0, Connection (ClientFrame (FText ''auth'') True), Connection StartRelay,
     Connection (ClientFrame (FText ''reveal'') True)]"

theorem stale_action_answers_witness:
  "\<exists>s. server_run example_parse example_relogin
         (example_session\<lparr>sv_actions := [ActCommit []]\<rparr>) = Some s \<and> snd (receive_action s) = Some (ActCommit [])"
proof -
  have start: "server_run example_parse (example_login @ [Connection (ClientFrame (FText ''commit'') True)])
      (server_start ''key'' 7 ''testnet'' None) = Some (example_session\<lparr>sv_actions := [ActCommit []]\<rparr>)"
    using example_commits [of "[]" 1] example_login_run
    by (simp add: server_run_append example_server_def example_session_def server_start_def)
  have "\<exists>s. server_run example_parse example_relogin
         (example_session\<lparr>sv_actions := [ActCommit []]\<rparr>) = Some s"
    by (simp add: example_relogin_def example_session_def example_server_def server_start_def server_defs lock_free_def task_of_def
        example_auth example_actions has_room_def SERVER_CHANNEL_CAPACITY_def)
  then obtain s where run: "server_run example_parse example_relogin
         (example_session\<lparr>sv_actions := [ActCommit []]\<rparr>) = Some s" ..
  have "snd (receive_action s) = Some (ActCommit [])"
    using stale_action_answers [OF start _ run, of "ActCommit []" "[]"] by (simp add: example_relogin_def)
  with run show ?thesis by blast
qed

theorem flood_deadlocks_witness:
  "server_run example_parse example_flood example_server = Some example_flooded
   \<and> send_event EvHoldingPeriodCancelled example_flooded = None"
proof -
  have run: "server_run example_parse example_flood (server_start ''key'' 7 ''testnet'' None) = Some example_flooded"
    using example_flood_run by (simp add: example_server_def)
  have "sv_held example_flooded = Some (ActCommit [])" "\<not> is_token_action (ActCommit [])"
    "length (sv_actions example_flooded) = 32" "length (sv_events example_flooded) = 32"
    "server_run example_parse [] example_flooded = Some example_flooded"
    by (simp_all add: example_flooded_def)
  from flood_deadlocks [OF run this] show ?thesis by (simp add: example_flood_run)
qed

end
