(* ===== verification/Config.thy ===== *)
theory Config
  imports Json "HOL-Library.Countable"
begin

text \<open>
  \<open>crates/config/src/lib.rs\<close>: the node's configuration file, its defaults per network, the overrides
  from environment variables and its validation. The environment is a map from names to values; a
  file is its text or the error of reading it, and JSON text is read by the parameter \<open>parse\<close>
  (\<open>serde_json\<close>). The derived (de)serialisation of the structs is written out: a missing field
  without default is an error, a number out of the range of its type too, an unknown field is
  ignored.
\<close>

section \<open>Data\<close>

datatype network = Testnet | Mainnet

definition network_chain_id :: "network \<Rightarrow> u8" where
  "network_chain_id n = (case n of Testnet \<Rightarrow> 6 | Mainnet \<Rightarrow> 1)"

definition network_name :: "network \<Rightarrow> string" where
  "network_name n = (case n of Testnet \<Rightarrow> ''testnet'' | Mainnet \<Rightarrow> ''mainnet'')"

definition MAX_HOLDING_PERIOD_DAYS :: u32 where "MAX_HOLDING_PERIOD_DAYS = 367"

record contract_addresses =
  ca_settlement :: string
  ca_escrow :: string
  ca_nft :: string
  ca_pool_config :: string

record profit_config =
  pf_base_capital :: "(string, u64) hmap"
  pf_threshold_pct :: u32
  pf_transfer_mode :: string
  pf_transfer_mode_value :: "u64 option"

record withdrawal_config =
  wc_holding_period_days :: u32
  wc_rushed_withdrawal_enabled :: bool

record node_settings =
  ns_network :: network
  ns_rpc_urls :: "string list"
  ns_nft_id :: u64
  ns_trustee_address :: string
  ns_payout_address :: string
  ns_sponsor_address :: string
  ns_contracts :: contract_addresses
  ns_bootstrap_peers :: "string list"
  ns_strategy_auth_token :: string
  ns_markets :: "string list"
  ns_token_decimals :: "(string, u8) hmap"
  ns_profit_taking :: profit_config
  ns_withdrawal_rules :: withdrawal_config
  ns_strategy_port :: u16
  ns_gossip_port :: u16
  ns_chain_id :: u8
  ns_max_gas_amount :: u64
  ns_gas_unit_price :: u64
  ns_created_at :: string

datatype config_error =
    ConfigIoError string
  | ConfigJsonError string
  | ConfigValidationError string

section \<open>Defaults\<close>

definition default_strategy_port :: u16 where "default_strategy_port = 9090"
definition default_gossip_port :: u16 where "default_gossip_port = 9191"
definition default_chain_id :: u8 where "default_chain_id = 6"
definition default_max_gas :: u64 where "default_max_gas = 5000"
definition default_gas_price :: u64 where "default_gas_price = 100000"

definition default_bootstrap_peers :: "network \<Rightarrow> string list" where
  "default_bootstrap_peers n = (case n of
     Testnet \<Rightarrow> [''peer1.testnet.deadmkt.com:9191'', ''peer2.testnet.deadmkt.com:9191'',
                ''peer3.testnet.deadmkt.com:9191'', ''peer4.testnet.deadmkt.com:9191'',
                ''peer5.testnet.deadmkt.com:9191'']
   | Mainnet \<Rightarrow> [''peer1.deadmkt.com:9191'', ''peer2.deadmkt.com:9191'', ''peer3.deadmkt.com:9191'',
                ''peer4.deadmkt.com:9191'', ''peer5.deadmkt.com:9191''])"

definition default_rpc_urls :: "network \<Rightarrow> string list" where
  "default_rpc_urls n = (case n of
     Testnet \<Rightarrow> [''https://rpc-testnet.supra.com'', ''https://rpc-testnet2.supra.com'']
   | Mainnet \<Rightarrow> [''https://rpc-mainnet.supra.com''])"

definition all_contracts :: "string \<Rightarrow> contract_addresses" where
  "all_contracts addr = \<lparr>ca_settlement = addr, ca_escrow = addr, ca_nft = addr, ca_pool_config = addr\<rparr>"

definition default_contract_addresses :: "network \<Rightarrow> contract_addresses" where
  "default_contract_addresses n = all_contracts (case n of
     Testnet \<Rightarrow> ''0x79b2ad6fea72a9aed2ea4bb7ded31c2741d52d7777b92fbc83dd80a7862094a9''
   | Mainnet \<Rightarrow> [])"

section \<open>Environment overrides\<close>

type_synonym environment = "string \<Rightarrow> string option"

definition env_text :: "environment \<Rightarrow> string \<Rightarrow> string \<Rightarrow> string" where
  "env_text env name old = (case env name of None \<Rightarrow> old | Some v \<Rightarrow> if v = [] then old else v)"

definition env_number :: "environment \<Rightarrow> string \<Rightarrow> u64 \<Rightarrow> u64" where
  "env_number env name old =
     (case Option.bind (env name) parse_u64 of None \<Rightarrow> old | Some v \<Rightarrow> if 0 < v then v else old)"

definition override_contracts :: "environment \<Rightarrow> contract_addresses \<Rightarrow> contract_addresses" where
  "override_contracts env c0 =
     (let blanket = env_text env ''DEADMKT_CONTRACT_ADDR'';
          c = \<lparr>ca_settlement = blanket (ca_settlement c0), ca_escrow = blanket (ca_escrow c0),
               ca_nft = blanket (ca_nft c0), ca_pool_config = blanket (ca_pool_config c0)\<rparr>
      in \<lparr>ca_settlement = env_text env ''DEADMKT_SETTLEMENT_ADDR'' (ca_settlement c),
          ca_escrow = env_text env ''DEADMKT_ESCROW_ADDR'' (ca_escrow c),
          ca_nft = env_text env ''DEADMKT_NFT_ADDR'' (ca_nft c),
          ca_pool_config = env_text env ''DEADMKT_POOL_CONFIG_ADDR'' (ca_pool_config c)\<rparr>)"

definition apply_env_overrides :: "environment \<Rightarrow> node_settings \<Rightarrow> node_settings" where
  "apply_env_overrides env s = s\<lparr>ns_contracts := override_contracts env (ns_contracts s),
     ns_max_gas_amount := env_number env ''DEADMKT_MAX_GAS'' (ns_max_gas_amount s),
     ns_gas_unit_price := env_number env ''DEADMKT_GAS_PRICE'' (ns_gas_unit_price s)\<rparr>"

section \<open>Creation\<close>

text \<open>\<open>token_bytes\<close> are the 32 random bytes, \<open>now\<close> the clock in seconds.\<close>

definition settings_new ::
  "environment \<Rightarrow> bytes \<Rightarrow> u64 \<Rightarrow> network \<Rightarrow> u64 \<Rightarrow> string \<Rightarrow> string \<Rightarrow> string \<Rightarrow> string list \<Rightarrow> node_settings" where
  "settings_new env token_bytes now network nft_id trustee payout sponsor markets =
     apply_env_overrides env
       \<lparr>ns_network = network, ns_rpc_urls = default_rpc_urls network, ns_nft_id = nft_id,
        ns_trustee_address = trustee, ns_payout_address = payout, ns_sponsor_address = sponsor,
        ns_contracts = default_contract_addresses network,
        ns_bootstrap_peers = default_bootstrap_peers network,
        ns_strategy_auth_token = hex_encode token_bytes, ns_markets = markets, ns_token_decimals = [],
        ns_profit_taking = \<lparr>pf_base_capital = [], pf_threshold_pct = 20,
          pf_transfer_mode = ''all_excess'', pf_transfer_mode_value = None\<rparr>,
        ns_withdrawal_rules = \<lparr>wc_holding_period_days = 90, wc_rushed_withdrawal_enabled = True\<rparr>,
        ns_strategy_port = default_strategy_port, ns_gossip_port = default_gossip_port,
        ns_chain_id = default_chain_id, ns_max_gas_amount = default_max_gas,
        ns_gas_unit_price = default_gas_price, ns_created_at = u64_str now\<rparr>"

section \<open>Validation\<close>

definition validate_settings :: "node_settings \<Rightarrow> config_error + unit" where
  "validate_settings s =
     (let days = wc_holding_period_days (ns_withdrawal_rules s); p = ns_profit_taking s
      in if days < 1 \<or> MAX_HOLDING_PERIOD_DAYS < days
         then Inl (ConfigValidationError ''holding_period_days must be 1-367'')
         else if pf_transfer_mode p \<notin> {''all_excess'', ''fixed_amount'', ''percentage''}
         then Inl (ConfigValidationError (''invalid transfer_mode: '' @ pf_transfer_mode p))
         else if pf_transfer_mode p = ''fixed_amount'' \<and> pf_transfer_mode_value p = None
         then Inl (ConfigValidationError ''fixed_amount mode requires transfer_mode_value'')
         else if 0 < pf_threshold_pct p \<and> pf_base_capital p = []
         then Inl (ConfigValidationError ''base_capital must have at least one token when profit taking is enabled'')
         else Inr ())"

definition is_first_boot :: "bool \<Rightarrow> bool \<Rightarrow> bool" where
  "is_first_boot config_exists keystore_exists = (\<not> config_exists \<or> \<not> keystore_exists)"

section \<open>The file\<close>

definition network_json :: "network \<Rightarrow> json" where
  "network_json n = JString (network_name n)"

definition contracts_json :: "contract_addresses \<Rightarrow> json" where
  "contracts_json c = JObject [(''settlement'', JString (ca_settlement c)), (''escrow'', JString (ca_escrow c)),
     (''nft'', JString (ca_nft c)), (''pool_config'', JString (ca_pool_config c))]"

definition word_map_json :: "(string, 'a::len word) hmap \<Rightarrow> json" where
  "word_map_json m = JObject (map (\<lambda>(k, v). (k, jnum v)) m)"

definition profit_json :: "profit_config \<Rightarrow> json" where
  "profit_json p = JObject [(''base_capital'', word_map_json (pf_base_capital p)),
     (''threshold_pct'', jnum (pf_threshold_pct p)), (''transfer_mode'', JString (pf_transfer_mode p)),
     (''transfer_mode_value'', case pf_transfer_mode_value p of None \<Rightarrow> JNull | Some v \<Rightarrow> jnum v)]"

definition withdrawal_rules_json :: "withdrawal_config \<Rightarrow> json" where
  "withdrawal_rules_json w = JObject [(''holding_period_days'', jnum (wc_holding_period_days w)),
     (''rushed_withdrawal_enabled'', JBool (wc_rushed_withdrawal_enabled w))]"

definition settings_json :: "node_settings \<Rightarrow> json" where
  "settings_json s = JObject
     [(''network'', network_json (ns_network s)), (''rpc_urls'', jstrs (ns_rpc_urls s)),
      (''nft_id'', jnum (ns_nft_id s)), (''trustee_address'', JString (ns_trustee_address s)),
      (''payout_address'', JString (ns_payout_address s)), (''sponsor_address'', JString (ns_sponsor_address s)),
      (''contracts'', contracts_json (ns_contracts s)), (''bootstrap_peers'', jstrs (ns_bootstrap_peers s)),
      (''strategy_auth_token'', JString (ns_strategy_auth_token s)), (''markets'', jstrs (ns_markets s)),
      (''token_decimals'', word_map_json (ns_token_decimals s)),
      (''profit_taking'', profit_json (ns_profit_taking s)),
      (''withdrawal_rules'', withdrawal_rules_json (ns_withdrawal_rules s)),
      (''strategy_port'', jnum (ns_strategy_port s)), (''gossip_port'', jnum (ns_gossip_port s)),
      (''chain_id'', jnum (ns_chain_id s)), (''max_gas_amount'', jnum (ns_max_gas_amount s)),
      (''gas_unit_price'', jnum (ns_gas_unit_price s)), (''created_at'', JString (ns_created_at s))]"

text \<open>Reading a field: required, or with a default when it is missing.\<close>

definition field :: "(json \<Rightarrow> 'a option) \<Rightarrow> string \<Rightarrow> json \<Rightarrow> 'a option" where
  "field f k j = Option.bind (jget k j) f"

definition field_or :: "'a \<Rightarrow> (json \<Rightarrow> 'a option) \<Rightarrow> string \<Rightarrow> json \<Rightarrow> 'a option" where
  "field_or d f k j = (case jget k j of None \<Rightarrow> Some d | Some v \<Rightarrow> f v)"

fun as_word :: "json \<Rightarrow> 'a::len word option" where
  "as_word (JInt i) = (if 0 \<le> i \<and> i < 2 ^ LENGTH('a) then Some (word_of_int i) else None)"
| "as_word _ = None"

definition as_strs :: "json \<Rightarrow> string list option" where
  "as_strs j = Option.bind (as_array j) (\<lambda>xs. those (map as_str xs))"

definition as_word_map :: "json \<Rightarrow> (string, 'a::len word) hmap option" where
  "as_word_map j = Option.bind (as_object j) (\<lambda>kvs.
     map_option hm_collect (those (map (\<lambda>(k, v). map_option (Pair k) (as_word v)) kvs)))"

fun as_optional :: "(json \<Rightarrow> 'a option) \<Rightarrow> json \<Rightarrow> 'a option option" where
  "as_optional f JNull = Some None"
| "as_optional f j = map_option Some (f j)"

definition network_of_json :: "json \<Rightarrow> network option" where
  "network_of_json j = (case as_str j of None \<Rightarrow> None
     | Some s \<Rightarrow> if s = ''testnet'' then Some Testnet else if s = ''mainnet'' then Some Mainnet else None)"

definition contracts_of_json :: "json \<Rightarrow> contract_addresses option" where
  "contracts_of_json j =
     Option.bind (field as_str ''settlement'' j) (\<lambda>a. Option.bind (field as_str ''escrow'' j) (\<lambda>b.
     Option.bind (field as_str ''nft'' j) (\<lambda>c. Option.bind (field as_str ''pool_config'' j) (\<lambda>d.
       Some \<lparr>ca_settlement = a, ca_escrow = b, ca_nft = c, ca_pool_config = d\<rparr>))))"

definition profit_of_json :: "json \<Rightarrow> profit_config option" where
  "profit_of_json j =
     Option.bind (field as_word_map ''base_capital'' j) (\<lambda>a. Option.bind (field as_word ''threshold_pct'' j) (\<lambda>b.
     Option.bind (field as_str ''transfer_mode'' j) (\<lambda>c.
     Option.bind (field_or None (as_optional as_word) ''transfer_mode_value'' j) (\<lambda>d.
       Some \<lparr>pf_base_capital = a, pf_threshold_pct = b, pf_transfer_mode = c, pf_transfer_mode_value = d\<rparr>))))"

definition withdrawal_of_json :: "json \<Rightarrow> withdrawal_config option" where
  "withdrawal_of_json j =
     Option.bind (field as_word ''holding_period_days'' j) (\<lambda>a.
     Option.bind (field as_bool ''rushed_withdrawal_enabled'' j) (\<lambda>b.
       Some \<lparr>wc_holding_period_days = a, wc_rushed_withdrawal_enabled = b\<rparr>))"

definition settings_of_json :: "json \<Rightarrow> node_settings option" where
  "settings_of_json j =
     Option.bind (field network_of_json ''network'' j) (\<lambda>network.
     Option.bind (field as_strs ''rpc_urls'' j) (\<lambda>rpc_urls.
     Option.bind (field as_word ''nft_id'' j) (\<lambda>nft_id.
     Option.bind (field as_str ''trustee_address'' j) (\<lambda>trustee.
     Option.bind (field as_str ''payout_address'' j) (\<lambda>payout.
     Option.bind (field as_str ''sponsor_address'' j) (\<lambda>sponsor.
     Option.bind (field contracts_of_json ''contracts'' j) (\<lambda>contracts.
     Option.bind (field as_strs ''bootstrap_peers'' j) (\<lambda>peers.
     Option.bind (field as_str ''strategy_auth_token'' j) (\<lambda>auth_token.
     Option.bind (field as_strs ''markets'' j) (\<lambda>markets.
     Option.bind (field as_word_map ''token_decimals'' j) (\<lambda>decimals.
     Option.bind (field profit_of_json ''profit_taking'' j) (\<lambda>profit.
     Option.bind (field withdrawal_of_json ''withdrawal_rules'' j) (\<lambda>rules.
     Option.bind (field_or default_strategy_port as_word ''strategy_port'' j) (\<lambda>strategy_port.
     Option.bind (field_or default_gossip_port as_word ''gossip_port'' j) (\<lambda>gossip_port.
     Option.bind (field_or default_chain_id as_word ''chain_id'' j) (\<lambda>chain_id.
     Option.bind (field_or default_max_gas as_word ''max_gas_amount'' j) (\<lambda>max_gas.
     Option.bind (field_or default_gas_price as_word ''gas_unit_price'' j) (\<lambda>gas_price.
     Option.bind (field as_str ''created_at'' j) (\<lambda>created_at.
       Some \<lparr>ns_network = network, ns_rpc_urls = rpc_urls, ns_nft_id = nft_id, ns_trustee_address = trustee,
         ns_payout_address = payout, ns_sponsor_address = sponsor, ns_contracts = contracts,
         ns_bootstrap_peers = peers, ns_strategy_auth_token = auth_token, ns_markets = markets,
         ns_token_decimals = decimals, ns_profit_taking = profit, ns_withdrawal_rules = rules,
         ns_strategy_port = strategy_port, ns_gossip_port = gossip_port, ns_chain_id = chain_id,
         ns_max_gas_amount = max_gas, ns_gas_unit_price = gas_price, ns_created_at = created_at\<rparr>)))))))))))))))))))"

text \<open>Addresses left empty by an older version are filled in with the defaults of the network.\<close>

definition backfill :: "string \<Rightarrow> string \<Rightarrow> string" where
  "backfill d a = (if a = [] then d else a)"

definition backfill_contracts :: "node_settings \<Rightarrow> node_settings" where
  "backfill_contracts s =
     (let d = default_contract_addresses (ns_network s); c = ns_contracts s
      in s\<lparr>ns_contracts := \<lparr>ca_settlement = backfill (ca_settlement d) (ca_settlement c),
             ca_escrow = backfill (ca_escrow d) (ca_escrow c), ca_nft = backfill (ca_nft d) (ca_nft c),
             ca_pool_config = backfill (ca_pool_config d) (ca_pool_config c)\<rparr>\<rparr>)"

definition save_settings :: "(json \<Rightarrow> string) \<Rightarrow> node_settings \<Rightarrow> string" where
  "save_settings print s = print (settings_json s)"

definition load_settings ::
  "(string \<Rightarrow> json option) \<Rightarrow> environment \<Rightarrow> string + string \<Rightarrow> config_error + node_settings" where
  "load_settings parse env contents =
     (case contents of
        Inl e \<Rightarrow> Inl (ConfigIoError e)
      | Inr text \<Rightarrow>
          (case Option.bind (parse text) settings_of_json of
             None \<Rightarrow> Inl (ConfigJsonError text)
           | Some s \<Rightarrow> Inr (apply_env_overrides env (backfill_contracts s))))"

section \<open>Lemmas\<close>

lemma hm_collect_wf: "hm_wf m \<Longrightarrow> hm_collect m = m"
proof -
  have "hm_wf (a @ m) \<Longrightarrow> foldl (\<lambda>m (k, v). hm_insert k v m) a m = a @ m" for a :: "('a, 'b) hmap"
  proof (induction m arbitrary: a)
    case (Cons kv m)
    obtain k v where [simp]: "kv = (k, v)" by (cases kv)
    have "hm_get a k = None" using Cons.prems by (auto simp: hm_wf_def map_of_eq_None_iff)
    then show ?case using Cons.IH [of "a @ [kv]"] Cons.prems by (simp add: hm_insert_absent)
  qed simp
  from this [of "[]"] show "hm_wf m \<Longrightarrow> hm_collect m = m" by (simp add: hm_collect_def)
qed

lemma as_word_jnum [simp]: "as_word (jnum w) = Some w"
  using uint_bounded [of w] by (simp add: jnum_def)

lemma as_optional_jnum [simp]: "as_optional as_word (jnum w) = Some (Some w)"
  using as_word_jnum [of w] by (simp add: jnum_def split: if_splits)

lemma those_map_Some [simp]: "those (map (\<lambda>x. Some (f x)) xs) = Some (map f xs)"
  by (induction xs) simp_all

lemma as_strs_jstrs [simp]: "as_strs (jstrs xs) = Some xs"
  by (simp add: as_strs_def jstrs_def comp_def)

lemma as_word_map_json [simp]: "hm_wf m \<Longrightarrow> as_word_map (word_map_json m) = Some m"
  by (simp add: as_word_map_def word_map_json_def comp_def case_prod_unfold hm_collect_wf)

lemma field_simps:
  "field f k (JObject ((k', v) # kvs)) = (if k = k' then f v else field f k (JObject kvs))"
  "field_or d f k (JObject ((k', v) # kvs)) = (if k = k' then f v else field_or d f k (JObject kvs))"
  by (simp_all add: field_def field_or_def)

lemma network_roundtrip [simp]: "network_of_json (network_json n) = Some n"
  by (cases n) (simp_all add: network_of_json_def network_json_def network_name_def)

lemma contracts_roundtrip [simp]: "contracts_of_json (contracts_json c) = Some c"
  by (simp add: contracts_of_json_def contracts_json_def field_simps)

lemma profit_roundtrip [simp]: "hm_wf (pf_base_capital p) \<Longrightarrow> profit_of_json (profit_json p) = Some p"
  by (cases "pf_transfer_mode_value p")
    (simp_all add: profit_of_json_def profit_json_def field_simps)

lemma withdrawal_rules_roundtrip [simp]: "withdrawal_of_json (withdrawal_rules_json w) = Some w"
  by (simp add: withdrawal_of_json_def withdrawal_rules_json_def field_simps)

definition settings_wf :: "node_settings \<Rightarrow> bool" where
  "settings_wf s \<longleftrightarrow> hm_wf (ns_token_decimals s) \<and> hm_wf (pf_base_capital (ns_profit_taking s))"

lemma settings_roundtrip: "settings_wf s \<Longrightarrow> settings_of_json (settings_json s) = Some s"
  by (simp add: settings_wf_def settings_of_json_def settings_json_def field_simps)

text \<open>One address through a load: its default, the override of all modules, the override of its own.\<close>

lemma env_text_idem [simp]:
  "env_text env n (env_text env b (env_text env n (env_text env b a))) = env_text env n (env_text env b a)"
  by (simp add: env_text_def split: option.split)

lemma backfill_env_text [simp]:
  "backfill d (env_text env n (env_text env b (backfill d a))) = env_text env n (env_text env b (backfill d a))"
  by (simp add: env_text_def backfill_def split: option.split)

lemma env_number_idem [simp]: "env_number env k (env_number env k v) = env_number env k v"
  by (simp add: env_number_def split: option.split)

lemma apply_env_idem: "apply_env_overrides env (apply_env_overrides env s) = apply_env_overrides env s"
  by (simp add: apply_env_overrides_def override_contracts_def Let_def)

lemma apply_env_empty: "apply_env_overrides (\<lambda>_. None) s = s"
  by (simp add: apply_env_overrides_def override_contracts_def env_text_def env_number_def)

lemma wf_loaded: "settings_wf (apply_env_overrides env (backfill_contracts s)) = settings_wf s"
  by (simp add: settings_wf_def apply_env_overrides_def backfill_contracts_def Let_def)

lemma backfill_loaded:
  "backfill_contracts (apply_env_overrides env (backfill_contracts s)) = apply_env_overrides env (backfill_contracts s)"
  by (simp add: override_contracts_def apply_env_overrides_def backfill_contracts_def Let_def)

text \<open>
  A saved configuration is read back field by field: loading the text that \<open>save\<close> wrote gives the
  configuration with its empty addresses filled in and the environment's overrides applied, and
  nothing else changed. Saving what was loaded and loading it again in the same environment changes
  nothing more. Without overrides, and with no address empty, the configuration comes back as it was.
\<close>
theorem config_save_load:
  assumes "settings_wf s"
    and "\<And>j. parse (print j) = Some j"
  shows "load_settings parse env (Inr (save_settings print s)) = Inr (apply_env_overrides env (backfill_contracts s))
    \<and> (\<forall>s'. load_settings parse env (Inr (save_settings print s)) = Inr s' \<longrightarrow>
          load_settings parse env (Inr (save_settings print s')) = Inr s')
    \<and> ([] \<notin> {ca_settlement (ns_contracts s), ca_escrow (ns_contracts s), ca_nft (ns_contracts s),
          ca_pool_config (ns_contracts s)} \<longrightarrow>
       load_settings parse (\<lambda>_. None) (Inr (save_settings print s)) = Inr s)"
proof -
  let ?s' = "apply_env_overrides env (backfill_contracts s)"
  have load: "load_settings parse e (Inr (save_settings print t)) = Inr (apply_env_overrides e (backfill_contracts t))"
    if "settings_wf t" for e t
    using settings_roundtrip [OF that] by (simp add: load_settings_def save_settings_def assms(2))
  have "load_settings parse env (Inr (save_settings print ?s')) = Inr ?s'"
    using load [of ?s' env] assms(1) by (simp add: wf_loaded backfill_loaded apply_env_idem)
  then show ?thesis
    using load [of s] assms(1) by (simp add: apply_env_empty) (simp add: backfill_contracts_def backfill_def Let_def)
qed

text \<open>Whatever the text holds, duplicate keys included, the maps read from it hold each key once.\<close>

lemma hm_collect_is_wf: "hm_wf (hm_collect kvs)"
proof -
  have "hm_wf m \<Longrightarrow> hm_wf (foldl (\<lambda>m (k, v). hm_insert k v m) m kvs)" for m :: "('a, 'b) hmap"
    by (induction kvs arbitrary: m) auto
  then show ?thesis by (simp add: hm_collect_def)
qed

lemma as_word_map_wf: "as_word_map j = Some m \<Longrightarrow> hm_wf m"
  by (auto simp: as_word_map_def bind_eq_Some_conv hm_collect_is_wf)

lemma profit_of_json_wf: "profit_of_json j = Some p \<Longrightarrow> hm_wf (pf_base_capital p)"
  by (auto simp: profit_of_json_def field_def bind_eq_Some_conv as_word_map_wf)

lemma settings_of_json_wf: "settings_of_json j = Some s \<Longrightarrow> settings_wf s"
  by (auto simp: settings_of_json_def settings_wf_def field_def bind_eq_Some_conv as_word_map_wf profit_of_json_wf)

text \<open>
  Every configuration that is read is well-formed and stable. Whatever a file holds, if it loads, the
  maps of the settings hold each key once, and the settings saved and loaded again under the same
  environment are the same settings: the overrides and the filled in addresses settle in one step.
\<close>
theorem reload_stable:
  assumes "load_settings parse env contents = Inr s"
    and "parse (print (settings_json s)) = Some (settings_json s)"
  shows "settings_wf s \<and> load_settings parse env (Inr (save_settings print s)) = Inr s"
proof -
  obtain t where "settings_wf t" and s: "s = apply_env_overrides env (backfill_contracts t)"
    using assms(1) settings_of_json_wf
    by (auto simp: load_settings_def bind_eq_Some_conv split: sum.splits option.splits)
  then have wf: "settings_wf s" by (simp add: wf_loaded)
  show ?thesis
    using wf assms(2) settings_roundtrip [OF wf]
    by (simp add: load_settings_def save_settings_def s backfill_loaded apply_env_idem)
qed

text \<open>
  The configuration that \<open>NodeConfig::new\<close> builds is refused by \<open>validate\<close>, on either network and
  whatever the environment says: profit taking is on at 20 percent with no base capital. The file
  format takes it as it is, and \<open>load\<close> validates nothing. On the main network its chain id is the test
  network's, unlike \<open>Network::chain_id\<close>.
\<close>
theorem new_settings_refused:
  "validate_settings (settings_new env token now network nft trustee payout sponsor markets)
     = Inl (ConfigValidationError ''base_capital must have at least one token when profit taking is enabled'')
   \<and> settings_of_json (settings_json (settings_new env token now network nft trustee payout sponsor markets))
     = Some (settings_new env token now network nft trustee payout sponsor markets)
   \<and> ns_chain_id (settings_new env token now Mainnet nft trustee payout sponsor markets) \<noteq> network_chain_id Mainnet"
proof -
  have "settings_wf (settings_new env token now network nft trustee payout sponsor markets)"
    by (simp add: settings_wf_def settings_new_def apply_env_overrides_def)
  then show ?thesis
    by (simp add: settings_roundtrip) (simp add: validate_settings_def settings_new_def apply_env_overrides_def MAX_HOLDING_PERIOD_DAYS_def
        default_chain_id_def network_chain_id_def)
qed

section \<open>Examples\<close>

text \<open>A printer and a parser of JSON values that invert each other, to instantiate the parameters.\<close>

instance json :: countable
  by countable_datatype

definition text_of_json :: "json \<Rightarrow> string" where
  "text_of_json j = replicate (to_nat j) (CHR ''x'')"

definition json_of_text :: "string \<Rightarrow> json option" where
  "json_of_text text = Some (from_nat (length text))"

lemma json_text_inverse [simp]: "json_of_text (text_of_json j) = Some j"
  by (simp add: json_of_text_def text_of_json_def)

definition example_settings :: node_settings where
  "example_settings = settings_new (\<lambda>_. None) [] 0 Testnet 7 ''0x11111111'' ''0x22222222'' [] [''EMM/KAY'']"

lemma example_settings_wf: "settings_wf example_settings"
  by (simp add: settings_wf_def example_settings_def settings_new_def apply_env_overrides_def)

lemma example_settings_filled: "backfill_contracts example_settings = example_settings"
  by (simp add: example_settings_def settings_new_def apply_env_empty backfill_contracts_def
      default_contract_addresses_def all_contracts_def backfill_def Let_def)

theorem config_save_load_witness:
  "load_settings json_of_text (\<lambda>_. None) (Inr (save_settings text_of_json example_settings)) = Inr example_settings"
proof -
  show ?thesis
    using example_settings_filled config_save_load [OF example_settings_wf, of json_of_text text_of_json "\<lambda>_. None"]
    by (simp add: apply_env_empty)
qed

theorem reload_stable_witness:
  "settings_wf example_settings
   \<and> load_settings json_of_text (\<lambda>_. None) (Inr (save_settings text_of_json example_settings)) = Inr example_settings"
proof (rule reload_stable)
  show "load_settings json_of_text (\<lambda>_. None) (Inr (text_of_json (settings_json example_settings)))
      = Inr example_settings"
    using settings_roundtrip [OF example_settings_wf] by (simp add: load_settings_def apply_env_empty example_settings_filled)
qed simp

end
