(* ===== verification/Keystore.thy ===== *)
theory Keystore
  imports Crypto Config
begin

text \<open>
  \<open>crates/keystore/src/lib.rs\<close>: the file of the trustee key. Argon2id and AES-256-GCM are third-party
  crates, the fields of the parameter record \<open>vault\<close>; what the code relies on are the named
  hypothesis \<open>aead_ok\<close>. The random salt and nonce are arguments. A file is its text, the
  error of reading it, or absent; a nonce that is not 12 bytes long panics (\<open>None\<close>). \<open>production\<close> is
  the cargo feature of that name.
\<close>

section \<open>Data\<close>

datatype keystore_error =
    KsIoError string
  | KsJsonError string
  | DecryptionFailed
  | InvalidKeyData string
  | KsHexError string
  | EnvVarNotSet
  | KdfError string

datatype keystore_mode = KsEncrypted | KsInsecure | KsMissing

record vault =
  va_kdf :: "bytes \<Rightarrow> bytes \<Rightarrow> string + bytes"
  va_encrypt :: "bytes \<Rightarrow> bytes \<Rightarrow> bytes \<Rightarrow> bytes option"
  va_decrypt :: "bytes \<Rightarrow> bytes \<Rightarrow> bytes \<Rightarrow> bytes option"

record encrypted_keystore =
  ek_salt :: string
  ek_nonce :: string
  ek_ciphertext :: string
  ek_public_key :: string

record insecure_keystore =
  ik_mode :: string
  ik_secret_key :: string
  ik_public_key :: string

definition encrypted_json :: "encrypted_keystore \<Rightarrow> json" where
  "encrypted_json k = JObject [(''salt'', JString (ek_salt k)), (''nonce'', JString (ek_nonce k)),
     (''ciphertext'', JString (ek_ciphertext k)), (''public_key'', JString (ek_public_key k))]"

definition encrypted_of_json :: "json \<Rightarrow> encrypted_keystore option" where
  "encrypted_of_json j =
     Option.bind (field as_str ''salt'' j) (\<lambda>a. Option.bind (field as_str ''nonce'' j) (\<lambda>b.
     Option.bind (field as_str ''ciphertext'' j) (\<lambda>c. Option.bind (field as_str ''public_key'' j) (\<lambda>d.
       Some \<lparr>ek_salt = a, ek_nonce = b, ek_ciphertext = c, ek_public_key = d\<rparr>))))"

definition insecure_json :: "insecure_keystore \<Rightarrow> json" where
  "insecure_json k = JObject [(''mode'', JString (ik_mode k)), (''secret_key'', JString (ik_secret_key k)),
     (''public_key'', JString (ik_public_key k))]"

definition insecure_of_json :: "json \<Rightarrow> insecure_keystore option" where
  "insecure_of_json j =
     Option.bind (field as_str ''mode'' j) (\<lambda>a. Option.bind (field as_str ''secret_key'' j) (\<lambda>b.
     Option.bind (field as_str ''public_key'' j) (\<lambda>c.
       Some \<lparr>ik_mode = a, ik_secret_key = b, ik_public_key = c\<rparr>)))"

section \<open>Mode\<close>

type_synonym stored_file = "(string + string) option"

definition detect_keystore_mode :: "(string \<Rightarrow> json option) \<Rightarrow> stored_file \<Rightarrow> keystore_error + keystore_mode" where
  "detect_keystore_mode parse file =
     (case file of
        None \<Rightarrow> Inr KsMissing
      | Some (Inl e) \<Rightarrow> Inl (KsIoError e)
      | Some (Inr text) \<Rightarrow>
          (case parse text of
             None \<Rightarrow> Inl (KsJsonError text)
           | Some j \<Rightarrow> Inr (if str_field ''mode'' j = Some ''insecure'' then KsInsecure else KsEncrypted)))"

section \<open>Encrypted keystore\<close>

definition derive_key :: "vault \<Rightarrow> bytes \<Rightarrow> bytes \<Rightarrow> keystore_error + bytes" where
  "derive_key V password salt = map_err KdfError (va_kdf V password salt)"

text \<open>The cipher of a key: \<open>new_from_slice\<close> refuses a key that is not 32 bytes long.\<close>

definition new_cipher :: "bytes \<Rightarrow> keystore_error + bytes" where
  "new_cipher key = (if length key = 32 then Inr key else Inl (InvalidKeyData ''invalid length''))"

definition save_keystore ::
  "crypto \<Rightarrow> vault \<Rightarrow> bytes \<Rightarrow> bytes \<Rightarrow> (json \<Rightarrow> string) \<Rightarrow> bytes \<Rightarrow> bytes \<Rightarrow> string \<Rightarrow> keystore_error + stored_file" where
  "save_keystore C V salt nonce print secret public password =
     res_bind (derive_key V (char_bytes password) salt) (\<lambda>key.
     res_bind (new_cipher key) (\<lambda>cipher.
       case va_encrypt V cipher nonce secret of
         None \<Rightarrow> Inl DecryptionFailed
       | Some ciphertext \<Rightarrow> Inr (Some (Inr (print (encrypted_json
           \<lparr>ek_salt = hex_encode salt, ek_nonce = hex_encode nonce, ek_ciphertext = hex_encode ciphertext,
            ek_public_key = hex_encode public\<rparr>))))))"

definition hex_field :: "string \<Rightarrow> keystore_error + bytes" where
  "hex_field s = ok_or (KsHexError s) (hex_decode s)"

definition read_json :: "(string \<Rightarrow> json option) \<Rightarrow> (json \<Rightarrow> 'a option) \<Rightarrow> stored_file \<Rightarrow> keystore_error + 'a" where
  "read_json parse decode file =
     (case file of
        None \<Rightarrow> Inl (KsIoError ''not found'')
      | Some (Inl e) \<Rightarrow> Inl (KsIoError e)
      | Some (Inr text) \<Rightarrow> ok_or (KsJsonError text) (Option.bind (parse text) decode))"

definition opened_key :: "crypto \<Rightarrow> bytes \<Rightarrow> keystore_error + bytes \<times> bytes" where
  "opened_key C plaintext =
     (if length plaintext \<noteq> 32 then Inl (InvalidKeyData (''expected 32 bytes, got '' @ nat_str (length plaintext)))
      else Inr (plaintext, ed25519_public C plaintext))"

definition load_keystore ::
  "crypto \<Rightarrow> vault \<Rightarrow> (string \<Rightarrow> json option) \<Rightarrow> stored_file \<Rightarrow> string \<Rightarrow> (keystore_error + bytes \<times> bytes) option" where
  "load_keystore C V parse file password =
     (case res_bind (read_json parse encrypted_of_json file) (\<lambda>ks.
           res_bind (hex_field (ek_salt ks)) (\<lambda>salt.
           res_bind (hex_field (ek_nonce ks)) (\<lambda>nonce.
           res_bind (hex_field (ek_ciphertext ks)) (\<lambda>ciphertext.
           res_bind (derive_key V (char_bytes password) salt) (\<lambda>key.
           res_bind (new_cipher key) (\<lambda>cipher. Inr (cipher, nonce, ciphertext)))))))
      of Inl e \<Rightarrow> Some (Inl e)
       | Inr (cipher, nonce, ciphertext) \<Rightarrow>
           if length nonce \<noteq> 12 then None
           else Some (case va_decrypt V cipher nonce ciphertext of
                        None \<Rightarrow> Inl DecryptionFailed
                      | Some plaintext \<Rightarrow> opened_key C plaintext))"

section \<open>Insecure mode\<close>

definition save_keystore_insecure ::
  "bool \<Rightarrow> (json \<Rightarrow> string) \<Rightarrow> bytes \<Rightarrow> bytes \<Rightarrow> keystore_error + stored_file" where
  "save_keystore_insecure production print secret public =
     (if production then Inl (InvalidKeyData ''insecure keystore mode is disabled in production builds'')
      else Inr (Some (Inr (print (insecure_json
        \<lparr>ik_mode = ''insecure'', ik_secret_key = hex_encode secret, ik_public_key = hex_encode public\<rparr>)))))"

definition load_keystore_insecure ::
  "crypto \<Rightarrow> bool \<Rightarrow> (string \<Rightarrow> json option) \<Rightarrow> stored_file \<Rightarrow> keystore_error + bytes \<times> bytes" where
  "load_keystore_insecure C production parse file =
     (if production then Inl (InvalidKeyData ''insecure keystore mode is disabled in production builds'')
      else res_bind (read_json parse insecure_of_json file) (\<lambda>ks.
           res_bind (hex_field (ik_secret_key ks)) (opened_key C)))"

definition load_keystore_from_env ::
  "crypto \<Rightarrow> vault \<Rightarrow> environment \<Rightarrow> (string \<Rightarrow> json option) \<Rightarrow> stored_file \<Rightarrow> (keystore_error + bytes \<times> bytes) option" where
  "load_keystore_from_env C V env parse file =
     (case env ''DEADMKT_KEYSTORE_PASSWORD'' of
        None \<Rightarrow> Some (Inl EnvVarNotSet)
      | Some password \<Rightarrow> load_keystore C V parse file password)"

section \<open>Round trip\<close>

text \<open>What the code relies on: decryption inverts encryption.\<close>

definition aead_ok :: "vault \<Rightarrow> bool" where
  "aead_ok V \<longleftrightarrow> (\<forall>k n m c. va_encrypt V k n m = Some c \<longrightarrow> va_decrypt V k n c = Some m)"

lemma encrypted_roundtrip [simp]: "encrypted_of_json (encrypted_json k) = Some k"
  by (simp add: encrypted_of_json_def encrypted_json_def field_simps)

lemma insecure_roundtrip [simp]: "insecure_of_json (insecure_json k) = Some k"
  by (simp add: insecure_of_json_def insecure_json_def field_simps)

lemma save_keystore_Inr:
  assumes "save_keystore C V salt nonce print secret public password = Inr st"
  obtains key ciphertext where "va_kdf V (char_bytes password) salt = Inr key" "length key = 32"
    "va_encrypt V key nonce secret = Some ciphertext"
    "st = Some (Inr (print (encrypted_json
       \<lparr>ek_salt = hex_encode salt, ek_nonce = hex_encode nonce, ek_ciphertext = hex_encode ciphertext,
        ek_public_key = hex_encode public\<rparr>)))"
  using assms
  by (auto simp: save_keystore_def res_bind_Inr derive_key_def new_cipher_def map_err_def
      split: option.splits sum.splits if_splits)

text \<open>
  C31. A keystore that \<open>save_keystore\<close> writes, with a nonce of 12 bytes and a secret key of 32, an
  authenticated cipher whose decryption inverts its encryption and a JSON parser that inverts the
  printer, holds salt, nonce, ciphertext and public key in hexadecimal; it is recognised as
  encrypted and opens with its password to the secret key it holds and the public key computed
  from it. A password whose derived key does not authenticate the ciphertext is
  \<open>DecryptionFailed\<close>, never another key. A development build writes an insecure file, which is
  recognised as such and opens to its key; a production build writes none, whatever the keys, and
  reads none, whatever the file.
\<close>
theorem keystore_roundtrip:
  assumes "save_keystore C V salt nonce print secret public password = Inr st"
    and "aead_ok V" and "\<And>j. parse (print j) = Some j"
    and "length nonce = 12" and "length secret = 32"
  shows "detect_keystore_mode parse st = Inr KsEncrypted
    \<and> load_keystore C V parse st password = Some (Inr (secret, ed25519_public C secret))
    \<and> (\<forall>wrong key c. va_kdf V (char_bytes wrong) salt = Inr key \<and> length key = 32
          \<and> va_encrypt V (projr (va_kdf V (char_bytes password) salt)) nonce secret = Some c
          \<and> va_decrypt V key nonce c = None \<longrightarrow>
        load_keystore C V parse st wrong = Some (Inl DecryptionFailed))
    \<and> (\<exists>key c. va_kdf V (char_bytes password) salt = Inr key \<and> va_encrypt V key nonce secret = Some c
        \<and> st = Some (Inr (print (JObject [(''salt'', JString (hex_encode salt)),
            (''nonce'', JString (hex_encode nonce)), (''ciphertext'', JString (hex_encode c)),
            (''public_key'', JString (hex_encode public))]))))
    \<and> (\<exists>st'. save_keystore_insecure False print secret public = Inr st'
        \<and> detect_keystore_mode parse st' = Inr KsInsecure
        \<and> load_keystore_insecure C False parse st' = Inr (secret, ed25519_public C secret))
    \<and> (\<forall>print' secret' public'. isl (save_keystore_insecure True print' secret' public'))
    \<and> (\<forall>parse' st'. isl (load_keystore_insecure C True parse' st'))"
proof -
  obtain key ciphertext where key: "va_kdf V (char_bytes password) salt = Inr key" "length key = 32"
    and c: "va_encrypt V key nonce secret = Some ciphertext"
    and st: "st = Some (Inr (print (encrypted_json
       \<lparr>ek_salt = hex_encode salt, ek_nonce = hex_encode nonce, ek_ciphertext = hex_encode ciphertext,
        ek_public_key = hex_encode public\<rparr>)))"
    using assms(1) by (rule save_keystore_Inr)
  note parse = assms(3)
  have "va_decrypt V key nonce ciphertext = Some secret"
    using assms(2) c by (simp add: aead_ok_def)
  then have "load_keystore C V parse st password = Some (Inr (secret, ed25519_public C secret))"
    using key assms(4,5)
    by (simp add: load_keystore_def st read_json_def parse hex_field_def derive_key_def new_cipher_def opened_key_def)
  moreover have "load_keystore C V parse st wrong = Some (Inl DecryptionFailed)"
    if "va_kdf V (char_bytes wrong) salt = Inr k" "length k = 32" "va_decrypt V k nonce ciphertext = None" for wrong k
    using that assms(4)
    by (simp add: load_keystore_def st read_json_def parse hex_field_def derive_key_def new_cipher_def)
  moreover have "detect_keystore_mode parse st = Inr KsEncrypted"
    by (simp add: detect_keystore_mode_def st parse str_field_def) (simp add: encrypted_json_def)
  moreover have "\<exists>st'. save_keystore_insecure False print secret public = Inr st'
      \<and> detect_keystore_mode parse st' = Inr KsInsecure
      \<and> load_keystore_insecure C False parse st' = Inr (secret, ed25519_public C secret)"
    using assms(5)
    by (auto simp: save_keystore_insecure_def detect_keystore_mode_def load_keystore_insecure_def read_json_def
        parse hex_field_def opened_key_def str_field_def) (simp add: insecure_json_def)
  moreover have "isl (save_keystore_insecure True print' secret' public')"
    "isl (load_keystore_insecure C True parse' st')" for print' secret' public' parse' st'
    by (simp_all add: save_keystore_insecure_def load_keystore_insecure_def)
  moreover have "st = Some (Inr (print (JObject [(''salt'', JString (hex_encode salt)),
      (''nonce'', JString (hex_encode nonce)), (''ciphertext'', JString (hex_encode ciphertext)),
      (''public_key'', JString (hex_encode public))])))"
    by (simp add: st encrypted_json_def)
  ultimately show ?thesis using key c by auto
qed

section \<open>Example\<close>

text \<open>A vault that pads the password to the key and prefixes the plaintext with key and nonce.\<close>

definition example_vault :: vault where
  "example_vault = \<lparr>
     va_kdf = (\<lambda>password salt. Inr (take 32 (password @ replicate 32 0))),
     va_encrypt = (\<lambda>key nonce m. Some (key @ nonce @ m)),
     va_decrypt = (\<lambda>key nonce c. if take (length key + length nonce) c = key @ nonce
        then Some (drop (length key + length nonce) c) else None)\<rparr>"

lemma example_vault_ok: "aead_ok example_vault"
  by (simp add: aead_ok_def example_vault_def)

theorem keystore_roundtrip_witness:
  "\<exists>st. save_keystore example_crypto example_vault (replicate 32 1) (replicate 12 2) text_of_json
       (replicate 32 3) (replicate 32 4) ''secret'' = Inr st
     \<and> load_keystore example_crypto example_vault json_of_text st ''secret''
       = Some (Inr (replicate 32 3, ed25519_public example_crypto (replicate 32 3)))"
proof -
  let ?save = "save_keystore example_crypto example_vault (replicate 32 1) (replicate 12 2) text_of_json
       (replicate 32 3) (replicate 32 4) ''secret''"
  have "\<exists>st. ?save = Inr st"
    by (simp add: save_keystore_def derive_key_def new_cipher_def example_vault_def char_bytes_def)
  then obtain st where "?save = Inr st" ..
  then show ?thesis
    using keystore_roundtrip [of example_crypto example_vault "replicate 32 1" "replicate 12 2" text_of_json
        "replicate 32 3" "replicate 32 4" "''secret''" st json_of_text] example_vault_ok by simp
qed

end
