(* ===== verification/Storage.thy ===== *)
theory Storage
  imports Text
begin

text \<open>
  \<open>crates/storage/src/lib.rs\<close>: the node's database. A table is the list of its rows; each SQL statement
  of the source is a function on the lists. \<open>INSERT OR REPLACE\<close> deletes the row with the same primary
  key and adds the new one, \<open>INSERT\<close> of a key in use is an error. Numbers are stored as \<open>i64\<close> and read
  back as \<open>u64\<close>, so they keep their bits, and \<open>ORDER BY\<close> compares them as signed. \<open>strftime('now')\<close> is
  the argument \<open>now\<close>. Errors of the disk are not modelled, nor are the two tables no operation uses.
\<close>

section \<open>Rows\<close>

record cached_pubkey =
  cp_nft_id :: u64
  cp_pubkey :: bytes
  cp_address :: string

record batch_row =
  br_batch_id :: u64
  br_pool_id :: u64
  br_phase :: string
  br_block_height :: u64
  br_timestamp :: u64

record pending_row =
  pr_match_hash :: bytes
  pr_batch_id :: u64
  pr_buyer_nft_id :: u64
  pr_seller_nft_id :: u64
  pr_symbol :: string
  pr_fill_quantity :: u64
  pr_status :: string

record market_pair_record =
  mk_symbol :: string
  mk_min_quantity :: u64
  mk_base_metadata :: string
  mk_quote_metadata :: string
  mk_base_decimals :: u32
  mk_quote_decimals :: u32
  mk_active :: bool

record settlement_record =
  sr_hash :: bytes
  sr_batch_id :: u64
  sr_pool_id :: u64
  sr_buyer_nft_id :: u64
  sr_seller_nft_id :: u64
  sr_symbol :: string
  sr_fill_quantity :: u64
  sr_settlement_price :: u64
  sr_outflow_token :: string
  sr_outflow_amount :: u64
  sr_inflow_token :: string
  sr_inflow_amount :: u64
  sr_tx_hash :: "string option"
  sr_gas_payer :: bool
  sr_status :: string
  sr_abort_code :: "string option"
  sr_submitted_at :: "u64 option"
  sr_confirmed_at :: "u64 option"
  sr_created_at :: u64

record balance_snapshot =
  bsn_id :: u64
  bsn_token :: string
  bsn_confirmed :: u64
  bsn_pending_out_total :: u64
  bsn_pending_in_total :: u64
  bsn_earmarked :: u64
  bsn_projected :: u64
  bsn_snapshot_at :: u64

record storage =
  st_versions :: "u32 list"
  st_pubkeys :: "cached_pubkey list"
  st_batches :: "batch_row list"
  st_pending :: "pending_row list"
  st_registered :: "(u64 \<times> string) list"
  st_blocked :: "(u64 \<times> string \<times> u64 option) list"
  st_markets :: "market_pair_record list"
  st_settlements :: "settlement_record list"
  st_snapshots :: "balance_snapshot list"
  st_last_snapshot_id :: u64

datatype storage_error = ConstraintViolation string

section \<open>Statements\<close>

definition table_upsert :: "('r \<Rightarrow> 'k) \<Rightarrow> 'r \<Rightarrow> 'r list \<Rightarrow> 'r list" where
  "table_upsert key r rows = filter (\<lambda>x. key x \<noteq> key r) rows @ [r]"

definition table_find :: "('r \<Rightarrow> 'k) \<Rightarrow> 'k \<Rightarrow> 'r list \<Rightarrow> 'r option" where
  "table_find key k rows = List.find (\<lambda>x. key x = k) rows"

definition table_delete :: "('r \<Rightarrow> 'k) \<Rightarrow> 'k \<Rightarrow> 'r list \<Rightarrow> 'r list" where
  "table_delete key k rows = filter (\<lambda>x. key x \<noteq> k) rows"

definition table_update :: "('r \<Rightarrow> 'k) \<Rightarrow> 'k \<Rightarrow> ('r \<Rightarrow> 'r) \<Rightarrow> 'r list \<Rightarrow> 'r list" where
  "table_update key k f rows = map (\<lambda>x. if key x = k then f x else x) rows"

section \<open>Schema\<close>

definition CURRENT_SCHEMA_VERSION :: u32 where "CURRENT_SCHEMA_VERSION = 3"

definition no_storage :: storage where
  "no_storage = \<lparr>st_versions = [], st_pubkeys = [], st_batches = [], st_pending = [], st_registered = [],
     st_blocked = [], st_markets = [], st_settlements = [], st_snapshots = [], st_last_snapshot_id = 0\<rparr>"

definition create_schema :: "storage \<Rightarrow> storage" where
  "create_schema db = (if st_versions db = [] then db\<lparr>st_versions := [CURRENT_SCHEMA_VERSION]\<rparr> else db)"

definition get_schema_version :: "storage \<Rightarrow> u32 option" where
  "get_schema_version db = (case st_versions db of [] \<Rightarrow> None | v # _ \<Rightarrow> Some v)"

section \<open>Keys and batches\<close>

definition db_cache_pubkey :: "u64 \<Rightarrow> bytes \<Rightarrow> string \<Rightarrow> storage \<Rightarrow> storage" where
  "db_cache_pubkey nft_id pubkey address db = db\<lparr>st_pubkeys := table_upsert cp_nft_id
     \<lparr>cp_nft_id = nft_id, cp_pubkey = pubkey, cp_address = address\<rparr> (st_pubkeys db)\<rparr>"

definition db_get_pubkey :: "u64 \<Rightarrow> storage \<Rightarrow> cached_pubkey option" where
  "db_get_pubkey nft_id db = table_find cp_nft_id nft_id (st_pubkeys db)"

definition insert_batch :: "u64 \<Rightarrow> u64 \<Rightarrow> string \<Rightarrow> u64 \<Rightarrow> u64 \<Rightarrow> storage \<Rightarrow> storage" where
  "insert_batch batch_id pool_id phase block_height timestamp db =
     db\<lparr>st_batches := table_upsert br_batch_id \<lparr>br_batch_id = batch_id, br_pool_id = pool_id,
        br_phase = phase, br_block_height = block_height, br_timestamp = timestamp\<rparr> (st_batches db)\<rparr>"

definition get_batch :: "u64 \<Rightarrow> storage \<Rightarrow> (u64 \<times> string \<times> u64 \<times> u64) option" where
  "get_batch batch_id db =
     map_option (\<lambda>r. (br_pool_id r, br_phase r, br_block_height r, br_timestamp r))
       (table_find br_batch_id batch_id (st_batches db))"

section \<open>Pending settlements\<close>

definition insert_pending ::
  "bytes \<Rightarrow> u64 \<Rightarrow> u64 \<Rightarrow> u64 \<Rightarrow> string \<Rightarrow> u64 \<Rightarrow> storage \<Rightarrow> storage_error + storage" where
  "insert_pending match_hash batch_id buyer seller symbol fill_quantity db =
     (if table_find pr_match_hash match_hash (st_pending db) \<noteq> None
      then Inl (ConstraintViolation ''UNIQUE constraint failed: pending.match_hash'')
      else Inr (db\<lparr>st_pending := st_pending db @
        [\<lparr>pr_match_hash = match_hash, pr_batch_id = batch_id, pr_buyer_nft_id = buyer,
          pr_seller_nft_id = seller, pr_symbol = symbol, pr_fill_quantity = fill_quantity,
          pr_status = ''pending''\<rparr>]\<rparr>))"

definition get_pending_settlements :: "storage \<Rightarrow> (bytes \<times> u64 \<times> string) list" where
  "get_pending_settlements db =
     map (\<lambda>r. (pr_match_hash r, pr_batch_id r, pr_status r))
       (filter (\<lambda>r. pr_status r = ''pending'') (st_pending db))"

section \<open>Registered and blocked NFTs\<close>

definition add_registered_nft :: "u64 \<Rightarrow> string \<Rightarrow> storage \<Rightarrow> storage" where
  "add_registered_nft nft_id registered_at db =
     db\<lparr>st_registered := table_upsert fst (nft_id, registered_at) (st_registered db)\<rparr>"

definition remove_registered_nft :: "u64 \<Rightarrow> storage \<Rightarrow> storage" where
  "remove_registered_nft nft_id db = db\<lparr>st_registered := table_delete fst nft_id (st_registered db)\<rparr>"

definition is_registered_nft :: "u64 \<Rightarrow> storage \<Rightarrow> bool" where
  "is_registered_nft nft_id db = (0 < length (filter (\<lambda>r. fst r = nft_id) (st_registered db)))"

definition add_blocked_nft :: "u64 \<Rightarrow> string \<Rightarrow> u64 option \<Rightarrow> storage \<Rightarrow> storage" where
  "add_blocked_nft nft_id blocked_at enforcement_at_batch db =
     db\<lparr>st_blocked := table_upsert fst (nft_id, blocked_at, enforcement_at_batch) (st_blocked db)\<rparr>"

definition is_blocked_nft :: "u64 \<Rightarrow> storage \<Rightarrow> bool" where
  "is_blocked_nft nft_id db = (0 < length (filter (\<lambda>r. fst r = nft_id) (st_blocked db)))"

definition list_blocked_nfts :: "storage \<Rightarrow> u64 list" where
  "list_blocked_nfts db = map fst (st_blocked db)"

section \<open>Market pairs\<close>

definition upsert_market_pair ::
  "string \<Rightarrow> u64 \<Rightarrow> string \<Rightarrow> string \<Rightarrow> u32 \<Rightarrow> u32 \<Rightarrow> bool \<Rightarrow> storage \<Rightarrow> storage" where
  "upsert_market_pair symbol min_quantity base quote base_decimals quote_decimals active db =
     db\<lparr>st_markets := table_upsert mk_symbol
        \<lparr>mk_symbol = symbol, mk_min_quantity = min_quantity, mk_base_metadata = base,
         mk_quote_metadata = quote, mk_base_decimals = base_decimals, mk_quote_decimals = quote_decimals,
         mk_active = active\<rparr> (st_markets db)\<rparr>"

definition get_market_pair :: "string \<Rightarrow> storage \<Rightarrow> market_pair_record option" where
  "get_market_pair symbol db = table_find mk_symbol symbol (st_markets db)"

text \<open>\<open>ORDER BY symbol\<close>: text is compared byte by byte.\<close>

fun text_le :: "string \<Rightarrow> string \<Rightarrow> bool" where
  "text_le [] t = True"
| "text_le (c # cs) [] = False"
| "text_le (c # cs) (d # ds) =
     ((of_char c :: nat) < of_char d \<or> c = d \<and> text_le cs ds)"

definition list_active_market_pairs :: "storage \<Rightarrow> market_pair_record list" where
  "list_active_market_pairs db =
     sort_by (\<lambda>a b. text_le (mk_symbol a) (mk_symbol b)) (filter mk_active (st_markets db))"

section \<open>Settlement records\<close>

definition insert_settlement :: "u64 \<Rightarrow> settlement_record \<Rightarrow> storage \<Rightarrow> storage" where
  "insert_settlement now r db =
     db\<lparr>st_settlements := table_upsert sr_hash
        (r\<lparr>sr_tx_hash := None, sr_status := ''pending'', sr_abort_code := None,
           sr_submitted_at := None, sr_confirmed_at := None, sr_created_at := now\<rparr>) (st_settlements db)\<rparr>"

definition coalesce :: "'a option \<Rightarrow> 'a option \<Rightarrow> 'a option" where
  "coalesce new old = (case new of None \<Rightarrow> old | Some v \<Rightarrow> Some v)"

definition updated_settlement ::
  "u64 \<Rightarrow> string \<Rightarrow> string option \<Rightarrow> string option \<Rightarrow> settlement_record \<Rightarrow> settlement_record" where
  "updated_settlement now status tx_hash abort_code r =
     (let submitted_at = (if status = ''submitted'' then Some now else None);
          confirmed_at = (if status = ''confirmed'' then Some now else None)
      in r\<lparr>sr_status := status, sr_tx_hash := coalesce tx_hash (sr_tx_hash r), sr_abort_code := abort_code,
           sr_submitted_at := coalesce submitted_at (sr_submitted_at r),
           sr_confirmed_at := coalesce confirmed_at (sr_confirmed_at r)\<rparr>)"

definition update_settlement_status ::
  "u64 \<Rightarrow> bytes \<Rightarrow> string \<Rightarrow> string option \<Rightarrow> string option \<Rightarrow> storage \<Rightarrow> storage" where
  "update_settlement_status now match_hash status tx_hash abort_code db =
     db\<lparr>st_settlements := table_update sr_hash match_hash
          (updated_settlement now status tx_hash abort_code) (st_settlements db)\<rparr>"

definition by_creation :: "settlement_record \<Rightarrow> settlement_record \<Rightarrow> bool" where
  "by_creation a b = (sint (sr_created_at a) \<le> sint (sr_created_at b))"

definition get_pending_settlements_v2 :: "storage \<Rightarrow> settlement_record list" where
  "get_pending_settlements_v2 db =
     sort_by by_creation (filter (\<lambda>r. sr_status r \<in> {''pending'', ''submitted''}) (st_settlements db))"

definition get_settlements_by_batch :: "u64 \<Rightarrow> storage \<Rightarrow> settlement_record list" where
  "get_settlements_by_batch batch_id db =
     sort_by by_creation (filter (\<lambda>r. sr_batch_id r = batch_id) (st_settlements db))"

definition get_settlement :: "bytes \<Rightarrow> storage \<Rightarrow> settlement_record option" where
  "get_settlement match_hash db = table_find sr_hash match_hash (st_settlements db)"

section \<open>Balance snapshots\<close>

definition insert_balance_snapshot ::
  "u64 \<Rightarrow> string \<Rightarrow> u64 \<Rightarrow> u64 \<Rightarrow> u64 \<Rightarrow> u64 \<Rightarrow> u64 \<Rightarrow> storage \<Rightarrow> storage" where
  "insert_balance_snapshot now token confirmed out_total in_total earmarked projected db =
     (let i = st_last_snapshot_id db + 1
      in db\<lparr>st_last_snapshot_id := i, st_snapshots := st_snapshots db @
          [\<lparr>bsn_id = i, bsn_token = token, bsn_confirmed = confirmed, bsn_pending_out_total = out_total,
            bsn_pending_in_total = in_total, bsn_earmarked = earmarked, bsn_projected = projected,
            bsn_snapshot_at = now\<rparr>]\<rparr>)"

text \<open>\<open>ORDER BY snapshot_at DESC, id DESC LIMIT 1\<close>\<close>

definition later_snapshot :: "balance_snapshot \<Rightarrow> balance_snapshot \<Rightarrow> bool" where
  "later_snapshot a b =
     (sint (bsn_snapshot_at b) < sint (bsn_snapshot_at a)
      \<or> bsn_snapshot_at a = bsn_snapshot_at b \<and> sint (bsn_id b) \<le> sint (bsn_id a))"

definition get_latest_snapshot :: "string \<Rightarrow> storage \<Rightarrow> balance_snapshot option" where
  "get_latest_snapshot token db =
     (case sort_by later_snapshot (filter (\<lambda>r. bsn_token r = token) (st_snapshots db)) of
        [] \<Rightarrow> None | r # _ \<Rightarrow> Some r)"

section \<open>The contract of a table\<close>

text \<open>A table with a primary key: what a lookup finds after each statement, and that a key is held by
  one row at most. The lemmas of the locale hold for every table of the database.\<close>

locale keyed_table =
  fixes key :: "'r \<Rightarrow> 'k"
    and put :: "'r \<Rightarrow> 't \<Rightarrow> 't"
    and get :: "'k \<Rightarrow> 't \<Rightarrow> 'r option"
    and remove :: "'k \<Rightarrow> 't \<Rightarrow> 't"
    and modify :: "'k \<Rightarrow> ('r \<Rightarrow> 'r) \<Rightarrow> 't \<Rightarrow> 't"
    and rows :: "'t \<Rightarrow> 'r list"
    and empty :: 't
  assumes get_empty: "get k empty = None"
    and get_put: "get k (put r t) = (if key r = k then Some r else get k t)"
    and get_remove: "get k (remove k' t) = (if k = k' then None else get k t)"
    and get_modify: "(\<And>x. key (f x) = key x) \<Longrightarrow> get k (modify k' f t) = (if k = k' then map_option f (get k t) else get k t)"
    and keys_empty: "distinct (map key (rows empty))"
    and keys_put: "distinct (map key (rows t)) \<Longrightarrow> distinct (map key (rows (put r t)))"
    and keys_remove: "distinct (map key (rows t)) \<Longrightarrow> distinct (map key (rows (remove k t)))"
    and keys_modify: "(\<And>x. key (f x) = key x) \<Longrightarrow> distinct (map key (rows t)) \<Longrightarrow>
      distinct (map key (rows (modify k f t)))"
    and get_rows: "distinct (map key (rows t)) \<Longrightarrow> get k t = Some r \<longleftrightarrow> r \<in> set (rows t) \<and> key r = k"
begin

text \<open>A query over the rows finds exactly the rows that a lookup by key finds.\<close>

lemma selected:
  assumes "distinct (map key (rows t))"
  shows "set (filter P (rows t)) = {r. P r \<and> (\<exists>k. get k t = Some r)}"
  using get_rows [OF assms] by auto

lemma selected_once: "distinct (map key (rows t)) \<Longrightarrow> distinct (filter P (rows t))"
  by (simp add: distinct_map)

text \<open>Writing the row that was read changes no lookup.\<close>

lemma put_same: "get (key r) t = Some r \<Longrightarrow> get k (put r t) = get k t"
  by (auto simp: get_put)

end

lemma find_filter_same: "List.find (\<lambda>x. key x = k) (filter (\<lambda>x. key x \<noteq> k') rows) =
    (if k = k' then None else List.find (\<lambda>x. key x = k) rows)"
  by (induction rows) auto

lemma find_append: "List.find P (xs @ ys) = (case List.find P xs of None \<Rightarrow> List.find P ys | Some x \<Rightarrow> Some x)"
  by (induction xs) auto

lemma find_upsert [simp]: "table_find key k (table_upsert key r rows) = (if key r = k then Some r else table_find key k rows)"
  by (simp add: table_find_def table_upsert_def find_append find_filter_same split: option.split)

lemma find_delete [simp]: "table_find key k (table_delete key k' rows) = (if k = k' then None else table_find key k rows)"
  by (simp add: table_find_def table_delete_def find_filter_same)

lemma find_update [simp]:
  "(\<And>x. key (f x) = key x) \<Longrightarrow> table_find key k (table_update key k' f rows) =
     (if k = k' then map_option f (table_find key k rows) else table_find key k rows)"
  by (induction rows) (auto simp: table_find_def table_update_def)

lemma find_distinct:
  "distinct (map key rows) \<Longrightarrow> table_find key k rows = Some r \<longleftrightarrow> r \<in> set rows \<and> key r = k"
  by (induction rows) (force simp: table_find_def)+

lemma distinct_upsert [simp]: "distinct (map key rows) \<Longrightarrow> distinct (map key (table_upsert key r rows))"
  by (auto simp: table_upsert_def distinct_map_filter)

lemma distinct_update [simp]:
  "(\<And>x. key (f x) = key x) \<Longrightarrow> distinct (map key rows) \<Longrightarrow> distinct (map key (table_update key k f rows))"
  by (simp add: table_update_def comp_def if_distrib cong: if_cong)

interpretation rows: keyed_table key "table_upsert key" "table_find key" "table_delete key" "table_update key" "\<lambda>t. t" "[]"
  for key :: "'r \<Rightarrow> 'k"
proof unfold_locales
  show "distinct (map key t) \<Longrightarrow> distinct (map key (table_delete key k t))" for t k
    by (simp add: table_delete_def distinct_map_filter)
qed (simp_all add: find_distinct, simp add: table_find_def)

section \<open>The database as maps\<close>

text \<open>The operations that write, in any order, and what they mean on maps from keys to rows.\<close>

datatype storage_op =
    OpReopen
  | OpCachePubkey u64 bytes string
  | OpInsertBatch u64 u64 string u64 u64
  | OpInsertPending bytes u64 u64 u64 string u64
  | OpRegister u64 string
  | OpUnregister u64
  | OpBlock u64 string "u64 option"
  | OpMarket string u64 string string u32 u32 bool
  | OpInsertSettlement u64 settlement_record
  | OpUpdateSettlement u64 bytes string "string option" "string option"
  | OpSnapshot u64 string u64 u64 u64 u64 u64

fun storage_step :: "storage_op \<Rightarrow> storage \<Rightarrow> storage" where
  "storage_step OpReopen db = create_schema db"
| "storage_step (OpCachePubkey n k a) db = db_cache_pubkey n k a db"
| "storage_step (OpInsertBatch b p ph h t) db = insert_batch b p ph h t db"
| "storage_step (OpInsertPending m b by sl sy q) db =
     (case insert_pending m b by sl sy q db of Inl _ \<Rightarrow> db | Inr db' \<Rightarrow> db')"
| "storage_step (OpRegister n t) db = add_registered_nft n t db"
| "storage_step (OpUnregister n) db = remove_registered_nft n db"
| "storage_step (OpBlock n t e) db = add_blocked_nft n t e db"
| "storage_step (OpMarket s q b qt bd qd a) db = upsert_market_pair s q b qt bd qd a db"
| "storage_step (OpInsertSettlement now r) db = insert_settlement now r db"
| "storage_step (OpUpdateSettlement now h st tx ab) db = update_settlement_status now h st tx ab db"
| "storage_step (OpSnapshot now t c po pi e p) db = insert_balance_snapshot now t c po pi e p db"

definition storage_run :: "storage_op list \<Rightarrow> storage" where
  "storage_run ops = foldl (\<lambda>db op. storage_step op db) (create_schema no_storage) ops"

text \<open>What the database holds: a map from primary keys to whole rows for each table, the snapshots in the
  order they were written, and the version of the schema.\<close>

record storage_view =
  v_version :: "u32 option"
  v_pubkey :: "u64 \<rightharpoonup> cached_pubkey"
  v_batch :: "u64 \<rightharpoonup> batch_row"
  v_pending :: "bytes \<rightharpoonup> pending_row"
  v_registered :: "u64 \<rightharpoonup> string"
  v_blocked :: "u64 \<rightharpoonup> string \<times> u64 option"
  v_market :: "string \<rightharpoonup> market_pair_record"
  v_settlement :: "bytes \<rightharpoonup> settlement_record"
  v_snapshots :: "balance_snapshot list"

definition storage_view :: "storage \<Rightarrow> storage_view" where
  "storage_view db = \<lparr>
     v_version = get_schema_version db,
     v_pubkey = (\<lambda>n. table_find cp_nft_id n (st_pubkeys db)),
     v_batch = (\<lambda>b. table_find br_batch_id b (st_batches db)),
     v_pending = (\<lambda>h. table_find pr_match_hash h (st_pending db)),
     v_registered = (\<lambda>n. map_option snd (table_find fst n (st_registered db))),
     v_blocked = (\<lambda>n. map_option snd (table_find fst n (st_blocked db))),
     v_market = (\<lambda>s. table_find mk_symbol s (st_markets db)),
     v_settlement = (\<lambda>h. table_find sr_hash h (st_settlements db)),
     v_snapshots = st_snapshots db\<rparr>"

text \<open>A settlement as it is first recorded, and what a change of its status leaves of it: the status and the
  abort code are the new ones, the transaction the new one if there is one, and the times of submission and
  confirmation are set by the two statuses of that name.\<close>

definition fresh_settlement :: "u64 \<Rightarrow> settlement_record \<Rightarrow> settlement_record" where
  "fresh_settlement now r = r\<lparr>sr_tx_hash := None, sr_status := ''pending'', sr_abort_code := None,
     sr_submitted_at := None, sr_confirmed_at := None, sr_created_at := now\<rparr>"

definition marked_settlement ::
  "u64 \<Rightarrow> string \<Rightarrow> string option \<Rightarrow> string option \<Rightarrow> settlement_record \<Rightarrow> settlement_record" where
  "marked_settlement now st tx ab r =
     \<lparr>sr_hash = sr_hash r, sr_batch_id = sr_batch_id r, sr_pool_id = sr_pool_id r,
      sr_buyer_nft_id = sr_buyer_nft_id r, sr_seller_nft_id = sr_seller_nft_id r, sr_symbol = sr_symbol r,
      sr_fill_quantity = sr_fill_quantity r, sr_settlement_price = sr_settlement_price r,
      sr_outflow_token = sr_outflow_token r, sr_outflow_amount = sr_outflow_amount r,
      sr_inflow_token = sr_inflow_token r, sr_inflow_amount = sr_inflow_amount r,
      sr_tx_hash = (if tx = None then sr_tx_hash r else tx), sr_gas_payer = sr_gas_payer r,
      sr_status = st, sr_abort_code = ab,
      sr_submitted_at = (if st = ''submitted'' then Some now else sr_submitted_at r),
      sr_confirmed_at = (if st = ''confirmed'' then Some now else sr_confirmed_at r),
      sr_created_at = sr_created_at r\<rparr>"

fun view_step :: "storage_op \<Rightarrow> storage_view \<Rightarrow> storage_view" where
  "view_step OpReopen v = v"
| "view_step (OpCachePubkey n k a) v =
     v\<lparr>v_pubkey := (v_pubkey v)(n \<mapsto> \<lparr>cp_nft_id = n, cp_pubkey = k, cp_address = a\<rparr>)\<rparr>"
| "view_step (OpInsertBatch b p ph h t) v = v\<lparr>v_batch := (v_batch v)(b \<mapsto>
     \<lparr>br_batch_id = b, br_pool_id = p, br_phase = ph, br_block_height = h, br_timestamp = t\<rparr>)\<rparr>"
| "view_step (OpInsertPending m b by sl sy q) v =
     (if v_pending v m = None
      then v\<lparr>v_pending := (v_pending v)(m \<mapsto> \<lparr>pr_match_hash = m, pr_batch_id = b, pr_buyer_nft_id = by,
        pr_seller_nft_id = sl, pr_symbol = sy, pr_fill_quantity = q, pr_status = ''pending''\<rparr>)\<rparr>
      else v)"
| "view_step (OpRegister n t) v = v\<lparr>v_registered := (v_registered v)(n \<mapsto> t)\<rparr>"
| "view_step (OpUnregister n) v = v\<lparr>v_registered := (v_registered v)(n := None)\<rparr>"
| "view_step (OpBlock n t e) v = v\<lparr>v_blocked := (v_blocked v)(n \<mapsto> (t, e))\<rparr>"
| "view_step (OpMarket s q b qt bd qd a) v = v\<lparr>v_market := (v_market v)(s \<mapsto>
     \<lparr>mk_symbol = s, mk_min_quantity = q, mk_base_metadata = b, mk_quote_metadata = qt,
      mk_base_decimals = bd, mk_quote_decimals = qd, mk_active = a\<rparr>)\<rparr>"
| "view_step (OpInsertSettlement now r) v =
     v\<lparr>v_settlement := (v_settlement v)(sr_hash r \<mapsto> fresh_settlement now r)\<rparr>"
| "view_step (OpUpdateSettlement now h st tx ab) v =
     v\<lparr>v_settlement := (v_settlement v)(h := map_option (marked_settlement now st tx ab) (v_settlement v h))\<rparr>"
| "view_step (OpSnapshot now t c po pi e p) v =
     v\<lparr>v_snapshots := v_snapshots v @ [\<lparr>bsn_id = of_nat (Suc (length (v_snapshots v))), bsn_token = t,
        bsn_confirmed = c, bsn_pending_out_total = po, bsn_pending_in_total = pi, bsn_earmarked = e,
        bsn_projected = p, bsn_snapshot_at = now\<rparr>]\<rparr>"

definition view_run :: "storage_op list \<Rightarrow> storage_view" where
  "view_run ops = foldl (\<lambda>v op. view_step op v) \<lparr>v_version = Some 3, v_pubkey = Map.empty, v_batch = Map.empty,
     v_pending = Map.empty, v_registered = Map.empty, v_blocked = Map.empty, v_market = Map.empty,
     v_settlement = Map.empty, v_snapshots = []\<rparr> ops"

lemma counted: "filter (\<lambda>r. key r = k) rows = [] \<longleftrightarrow> table_find key k rows = None"
  by (induction rows) (auto simp: table_find_def)

lemma find_snoc: "table_find key k (rows @ [r]) =
    (case table_find key k rows of None \<Rightarrow> if key r = k then Some r else None | Some x \<Rightarrow> Some x)"
  by (cases "List.find (\<lambda>x. key x = k) rows") (simp_all add: table_find_def find_append)

lemma updated_key [simp]: "sr_hash (updated_settlement now st tx ab r) = sr_hash r"
  by (simp add: updated_settlement_def Let_def)

lemma updated_marked: "updated_settlement now st tx ab = marked_settlement now st tx ab"
  by (simp add: fun_eq_iff updated_settlement_def marked_settlement_def coalesce_def Let_def split: option.split)

lemma marked_key [simp]: "sr_hash (marked_settlement now st tx ab r) = sr_hash r"
  by (simp add: marked_settlement_def)

lemmas storage_defs = storage_view_def get_schema_version_def db_get_pubkey_def get_batch_def is_registered_nft_def is_blocked_nft_def
  get_market_pair_def get_settlement_def create_schema_def db_cache_pubkey_def insert_batch_def insert_pending_def
  add_registered_nft_def remove_registered_nft_def add_blocked_nft_def upsert_market_pair_def insert_settlement_def
  update_settlement_status_def insert_balance_snapshot_def Let_def counted fresh_settlement_def

lemma view_commutes:
  assumes "st_versions db \<noteq> []" and "st_last_snapshot_id db = of_nat (length (st_snapshots db))"
  shows "storage_view (storage_step op db) = view_step op (storage_view db)"
  using assms by (cases op) (auto simp: storage_defs updated_marked find_snoc fun_eq_iff split: option.split)

lemma storage_run_snoc: "storage_run (ops @ [op]) = storage_step op (storage_run ops)"
  by (simp add: storage_run_def)

lemma settlements_keyed: "distinct (map sr_hash (st_settlements (storage_run ops)))"
proof (induction ops rule: rev_induct)
  case Nil
  then show ?case by (simp add: storage_run_def create_schema_def no_storage_def)
next
  case (snoc op ops)
  then show ?case
    by (cases op) (simp_all add: storage_run_snoc storage_defs split: option.split)
qed

lemma storage_run_bookkeeping:
  "st_versions (storage_run ops) = [3]
   \<and> st_last_snapshot_id (storage_run ops) = of_nat (length (st_snapshots (storage_run ops)))"
proof (induction ops rule: rev_induct)
  case Nil
  then show ?case by (simp add: storage_run_def create_schema_def no_storage_def CURRENT_SCHEMA_VERSION_def)
next
  case (snoc op ops)
  then show ?case by (cases op) (simp_all add: storage_run_snoc storage_defs split: option.split)
qed

lemma view_of_run: "storage_view (storage_run ops) = view_run ops"
proof (induction ops rule: rev_induct)
  case Nil
  then show ?case
    by (simp add: storage_run_def view_run_def storage_defs no_storage_def CURRENT_SCHEMA_VERSION_def)
      (simp add: table_find_def)
next
  case (snoc op ops)
  then show ?case
    using storage_run_bookkeeping [of ops]
    by (simp add: storage_run_snoc view_commutes) (simp add: view_run_def)
qed

lemmas view_fields = view_of_run [symmetric] storage_view_def

lemma table_keyed:
  "distinct (map pr_match_hash (st_pending (storage_run ops))) \<and> distinct (map fst (st_blocked (storage_run ops)))
   \<and> distinct (map mk_symbol (st_markets (storage_run ops)))"
proof (induction ops rule: rev_induct)
  case Nil
  then show ?case by (simp add: storage_run_def create_schema_def no_storage_def)
next
  case (snoc op ops)
  have "table_find pr_match_hash h rows = None \<Longrightarrow> h \<notin> pr_match_hash ` set rows" for h rows
    by (induction rows) (auto simp: table_find_def split: if_splits)
  with snoc show ?case
    by (cases op) (auto simp: storage_run_snoc storage_defs table_delete_def distinct_map_filter split: option.split)
qed

lemma found_keys: "(\<exists>r. table_find key k rows = Some r) \<longleftrightarrow> k \<in> key ` set rows"
  by (induction rows) (auto simp: table_find_def)

lemma sint_same: "sint a = sint b \<longleftrightarrow> a = b"
  by (rule word_eq_iff_signed [symmetric])

lemma latest_snapshot:
  "get_latest_snapshot t db = None \<longleftrightarrow> filter (\<lambda>r. bsn_token r = t) (st_snapshots db) = []"
  "get_latest_snapshot t db = Some r \<Longrightarrow> r \<in> set (st_snapshots db) \<and> bsn_token r = t
    \<and> (\<forall>x \<in> set (st_snapshots db). bsn_token x = t \<longrightarrow> later_snapshot r x)"
proof -
  let ?l = "sort_by later_snapshot (filter (\<lambda>r. bsn_token r = t) (st_snapshots db))"
  have sorted: "sorted_wrt later_snapshot ?l"
    by (rule sorted_sort_by) (auto simp: later_snapshot_def sint_same [symmetric])
  have members: "set ?l = {r \<in> set (st_snapshots db). bsn_token r = t}" by simp
  have refl: "later_snapshot r r" for r by (simp add: later_snapshot_def)
  show "get_latest_snapshot t db = None \<longleftrightarrow> filter (\<lambda>r. bsn_token r = t) (st_snapshots db) = []"
    using members by (cases ?l) (auto simp: get_latest_snapshot_def filter_empty_conv)
  show "r \<in> set (st_snapshots db) \<and> bsn_token r = t \<and> (\<forall>x \<in> set (st_snapshots db). bsn_token x = t \<longrightarrow> later_snapshot r x)"
    if "get_latest_snapshot t db = Some r"
  proof -
    from that obtain rest where l: "?l = r # rest" by (auto simp: get_latest_snapshot_def split: list.split_asm)
    then have "later_snapshot r x" if "x \<in> set ?l" for x using sorted that refl by auto
    moreover have "r \<in> set ?l" using l by simp
    ultimately show ?thesis unfolding members by blast
  qed
qed

text \<open>
  C21. The database behaves as maps: after any sequence of writes, reopening included, every table holds
  exactly the rows, with all the columns an operation reads or writes, that the same sequence of updates
  leaves in a map from its primary keys, the snapshots are those written, numbered from one, and the
  schema has version 3. An update of a settlement sets its status, abort code, transaction and times as
  \<open>marked_settlement\<close> spells out. Every query reads those maps: the lookups by key, the lists of pending
  matches, of blocked NFTs and of active markets, and the latest snapshot of a token, which is none only
  if the token has none and otherwise has the greatest time and, among those of that time, the greatest
  number. A second \<open>insert_pending\<close> of a match is refused and changes nothing; an update of an unknown
  settlement changes nothing; inserting a settlement again forgets its status and its transaction.
\<close>
theorem storage_refines_maps:
  "let db = storage_run ops; V = view_run ops in
    storage_view db = V
    \<and> get_schema_version db = Some 3
    \<and> db_get_pubkey n db = v_pubkey V n
    \<and> get_batch b db = map_option (\<lambda>r. (br_pool_id r, br_phase r, br_block_height r, br_timestamp r)) (v_batch V b)
    \<and> set (get_pending_settlements db)
        = {(h, pr_batch_id r, ''pending'') | h r. v_pending V h = Some r \<and> pr_status r = ''pending''}
    \<and> is_registered_nft n db = (v_registered V n \<noteq> None) \<and> is_blocked_nft n db = (v_blocked V n \<noteq> None)
    \<and> set (list_blocked_nfts db) = dom (v_blocked V)
    \<and> get_market_pair symbol db = v_market V symbol
    \<and> set (list_active_market_pairs db) = {r. v_market V (mk_symbol r) = Some r \<and> mk_active r}
    \<and> get_settlement h db = v_settlement V h
    \<and> (get_latest_snapshot token db = None) = (filter (\<lambda>r. bsn_token r = token) (v_snapshots V) = [])
    \<and> {(r, x). get_latest_snapshot token db = Some r \<and> x \<in> set (v_snapshots V) \<and> bsn_token x = token}
        \<subseteq> {(r, x). r \<in> set (v_snapshots V) \<and> bsn_token r = token
              \<and> (sint (bsn_snapshot_at x) < sint (bsn_snapshot_at r)
                 \<or> bsn_snapshot_at r = bsn_snapshot_at x \<and> sint (bsn_id x) \<le> sint (bsn_id r))}"
proof (unfold Let_def, intro conjI)
  let ?db = "storage_run ops" and ?V = "view_run ops"
  note fields = view_fields
  have keyed: "distinct (map pr_match_hash (st_pending ?db))" "distinct (map fst (st_blocked ?db))"
    "distinct (map mk_symbol (st_markets ?db))" using table_keyed [of ops] by simp_all
  show "storage_view ?db = ?V" by (rule view_of_run)
  show "get_schema_version ?db = Some 3"
    using storage_run_bookkeeping [of ops] by (simp add: get_schema_version_def)
  show "db_get_pubkey n ?db = v_pubkey ?V n" by (simp add: fields db_get_pubkey_def)
  show "get_batch b ?db = map_option (\<lambda>r. (br_pool_id r, br_phase r, br_block_height r, br_timestamp r)) (v_batch ?V b)"
    by (simp add: fields get_batch_def)
  show "set (get_pending_settlements ?db)
      = {(h, pr_batch_id r, ''pending'') | h r. v_pending ?V h = Some r \<and> pr_status r = ''pending''}"
  proof -
    have "v_pending ?V h = Some r \<longleftrightarrow> r \<in> set (st_pending ?db) \<and> pr_match_hash r = h" for h r
      using find_distinct [OF keyed(1)] by (simp add: fields)
    then show ?thesis by (auto simp: get_pending_settlements_def image_iff)
  qed
  show "is_registered_nft n ?db = (v_registered ?V n \<noteq> None)" "is_blocked_nft n ?db = (v_blocked ?V n \<noteq> None)"
    by (simp_all add: fields is_registered_nft_def is_blocked_nft_def counted)
  show "set (list_blocked_nfts ?db) = dom (v_blocked ?V)"
    by (simp add: fields list_blocked_nfts_def dom_def found_keys image_def del: split_paired_Ex)
  show "get_market_pair symbol ?db = v_market ?V symbol" by (simp add: fields get_market_pair_def)
  show "set (list_active_market_pairs ?db) = {r. v_market ?V (mk_symbol r) = Some r \<and> mk_active r}"
  proof -
    have "v_market ?V k = Some r \<longleftrightarrow> r \<in> set (st_markets ?db) \<and> mk_symbol r = k" for k r
      using find_distinct [OF keyed(3)] by (simp add: fields)
    then show ?thesis by (auto simp: list_active_market_pairs_def)
  qed
  show "get_settlement h ?db = v_settlement ?V h" by (simp add: fields get_settlement_def)
  have snapshots: "v_snapshots ?V = st_snapshots ?db" by (simp add: fields)
  show "(get_latest_snapshot token ?db = None) = (filter (\<lambda>r. bsn_token r = token) (v_snapshots ?V) = [])"
    unfolding snapshots by (rule latest_snapshot(1))
  show "{(r, x). get_latest_snapshot token ?db = Some r \<and> x \<in> set (v_snapshots ?V) \<and> bsn_token x = token}
        \<subseteq> {(r, x). r \<in> set (v_snapshots ?V) \<and> bsn_token r = token
              \<and> (sint (bsn_snapshot_at x) < sint (bsn_snapshot_at r)
                 \<or> bsn_snapshot_at r = bsn_snapshot_at x \<and> sint (bsn_id x) \<le> sint (bsn_id r))}"
    unfolding snapshots using latest_snapshot(2) [of token ?db] by (fastforce simp: later_snapshot_def)
qed

lemma by_creation_order:
  "\<not> by_creation a b \<Longrightarrow> by_creation b a" "by_creation a b \<Longrightarrow> by_creation b c \<Longrightarrow> by_creation a c"
  by (auto simp: by_creation_def)

text \<open>The status last written to a match hash, read off the statements themselves, the latest one first: an
  insertion writes \<open>pending\<close>, an update of a recorded settlement its status.\<close>

fun last_status :: "storage_op list \<Rightarrow> bytes \<Rightarrow> string option" where
  "last_status [] h = None"
| "last_status (OpInsertSettlement now r # earlier) h =
     (if sr_hash r = h then Some ''pending'' else last_status earlier h)"
| "last_status (OpUpdateSettlement now k st tx ab # earlier) h =
     (if k = h \<and> last_status earlier h \<noteq> None then Some st else last_status earlier h)"
| "last_status (_ # earlier) h = last_status earlier h"

lemma status_of_run: "map_option sr_status (v_settlement (view_run ops) h) = last_status (rev ops) h"
proof (induction ops rule: rev_induct)
  case (snoc op ops)
  have "view_run (ops @ [op]) = view_step op (view_run ops)" by (simp add: view_run_def)
  with snoc show ?case
    by (cases op) (auto simp: fresh_settlement_def marked_settlement_def option.map_comp comp_def split: if_splits)
qed (simp add: view_run_def)

text \<open>
  C22. Recovery after a crash misses no settlement and invents none: after any sequence of writes,
  \<open>get_pending_settlements_v2\<close> names exactly the match hashes whose last written status, as the statements
  wrote it, is pending or submitted, each once and in the order of their creation; each entry is the
  stored record with that status. \<open>get_settlements_by_batch\<close> returns exactly the records of the batch,
  each once, in the same order.
\<close>
theorem crash_recovery_exact:
  "let pending = get_pending_settlements_v2 (storage_run ops); V = view_run ops;
      of_batch = get_settlements_by_batch b (storage_run ops) in
    sr_hash ` set pending = {h. last_status (rev ops) h \<in> {Some ''pending'', Some ''submitted''}}
    \<and> set pending = {r. v_settlement V (sr_hash r) = Some r \<and> last_status (rev ops) (sr_hash r) = Some (sr_status r)
        \<and> sr_status r \<in> {''pending'', ''submitted''}}
    \<and> set of_batch = {r. v_settlement V (sr_hash r) = Some r \<and> sr_batch_id r = b}
    \<and> distinct (map sr_hash pending) \<and> distinct (map sr_hash of_batch)
    \<and> sorted_wrt (\<lambda>r r'. sint (sr_created_at r) \<le> sint (sr_created_at r')) pending
    \<and> sorted_wrt (\<lambda>r r'. sint (sr_created_at r) \<le> sint (sr_created_at r')) of_batch"
proof -
  let ?pending = "get_pending_settlements_v2 (storage_run ops)" and ?V = "view_run ops"
    and ?of_batch = "get_settlements_by_batch b (storage_run ops)"
  let ?rows = "st_settlements (storage_run ops)"
  have found: "v_settlement ?V h = Some r \<longleftrightarrow> r \<in> set ?rows \<and> sr_hash r = h" for h r
    using find_distinct [OF settlements_keyed] by (simp add: view_fields)
  have status: "last_status (rev ops) h = map_option sr_status (v_settlement ?V h)" for h
    by (rule status_of_run [symmetric])
  have once: "distinct (map sr_hash (sort_by by_creation (filter P ?rows)))" for P
  proof -
    have "mset (map sr_hash (sort_by by_creation (filter P ?rows))) = mset (map sr_hash (filter P ?rows))" by simp
    from mset_eq_imp_distinct_iff [OF this] show ?thesis
      using settlements_keyed by (simp add: distinct_map_filter)
  qed
  have sorted: "sorted_wrt (\<lambda>r r'. sint (sr_created_at r) \<le> sint (sr_created_at r')) (sort_by by_creation xs)" for xs
    using sorted_sort_by [of by_creation xs] by_creation_order unfolding by_creation_def by blast
  have pending: "set ?pending = {r \<in> set ?rows. sr_status r \<in> {''pending'', ''submitted''}}"
    by (simp add: get_pending_settlements_v2_def)
  have exact: "set ?pending = {r. v_settlement ?V (sr_hash r) = Some r \<and> last_status (rev ops) (sr_hash r) = Some (sr_status r)
        \<and> sr_status r \<in> {''pending'', ''submitted''}}"
    unfolding pending status found by (auto simp: found)
  moreover have "sr_hash ` set ?pending = {h. last_status (rev ops) h \<in> {Some ''pending'', Some ''submitted''}}"
    unfolding pending status by (auto simp: found image_iff)
  moreover have "set ?of_batch = {r. v_settlement ?V (sr_hash r) = Some r \<and> sr_batch_id r = b}"
    by (auto simp: get_settlements_by_batch_def found)
  ultimately show ?thesis
    unfolding Let_def using once sorted by (simp add: get_pending_settlements_v2_def get_settlements_by_batch_def)
qed

end
