(* ===== verification/RpcClient.thy ===== *)
theory RpcClient
  imports ChainTypes
begin

text \<open>
  \<open>crates/chain/src/client.rs\<close>: the REST client of the chain. The server is the argument: what it
  answers to a request, an error of the network or a response. JSON text is read by the parameter
  \<open>parse\<close>. A text is its UTF-8 bytes, so a slice at a byte that is no character boundary panics
  (\<open>None\<close>), as does picking an endpoint of an empty list.
\<close>

section \<open>Data\<close>

datatype chain_error =
    NetworkError string
  | RpcDeserializationError string
  | TransactionFailed string
  | RpcTimeout
  | AllEndpointsFailed
  | RateLimited nat

fun chain_error_display :: "chain_error \<Rightarrow> string" where
  "chain_error_display (NetworkError e) = ''network error: '' @ e"
| "chain_error_display (RpcDeserializationError e) = ''deserialization error: '' @ e"
| "chain_error_display (TransactionFailed e) = ''transaction failed: '' @ e"
| "chain_error_display RpcTimeout = ''timeout waiting for transaction''"
| "chain_error_display AllEndpointsFailed = ''all RPC endpoints failed''"
| "chain_error_display (RateLimited status) = ''rate limited (HTTP '' @ nat_str status @ '')''"

definition is_rate_limited :: "chain_error \<Rightarrow> bool" where
  "is_rate_limited e = (case e of RateLimited _ \<Rightarrow> True | _ \<Rightarrow> False)"

record http_response =
  hr_status :: nat
  hr_content_type :: "string option"
  hr_body :: "string + string"

type_synonym http_answer = "string + http_response"

record ledger_info =
  li_block_height :: u64
  li_ledger_timestamp :: u64

record account_info =
  ai_sequence_number :: u64
  ai_authentication_key :: string

record tx_outcome =
  tx_success :: bool
  tx_gas_used :: u64
  tx_vm_status :: string

record supra_client =
  cl_endpoints :: "string list"
  cl_contract_addr :: string
  cl_current_endpoint :: u64
  cl_max_retries :: nat

definition client_new :: "string list \<Rightarrow> string \<Rightarrow> supra_client" where
  "client_new endpoints contract_addr =
     \<lparr>cl_endpoints = endpoints, cl_contract_addr = contract_addr, cl_current_endpoint = 0, cl_max_retries = 3\<rparr>"

section \<open>Responses\<close>

definition check_response_limit :: "http_response \<Rightarrow> chain_error + unit" where
  "check_response_limit resp =
     (if hr_status resp \<in> {429, 403, 503} then Inl (RateLimited (hr_status resp))
      else case hr_content_type resp of
             None \<Rightarrow> Inr ()
           | Some ct \<Rightarrow> if contains_str ''text/html'' ct then Inl (RateLimited (hr_status resp)) else Inr ())"

definition parse_response :: "(string \<Rightarrow> json option) \<Rightarrow> http_response \<Rightarrow> chain_error + json" where
  "parse_response parse resp =
     (case hr_body resp of
        Inl e \<Rightarrow> Inl (NetworkError (''failed to read response body: '' @ e))
      | Inr text \<Rightarrow> ok_or (RpcDeserializationError text) (parse text))"

definition number_or_text :: "json \<Rightarrow> u64 option" where
  "number_or_text v = (case as_u64 v of Some n \<Rightarrow> Some n | None \<Rightarrow> Option.bind (as_str v) parse_u64)"

section \<open>Endpoints\<close>

text \<open>\<open>endpoints[counter % len]\<close>\<close>

definition endpoint_at :: "supra_client \<Rightarrow> u64 \<Rightarrow> string option" where
  "endpoint_at cl i =
     (if cl_endpoints cl = [] then None else Some (cl_endpoints cl ! (unat i mod length (cl_endpoints cl))))"

definition next_endpoint :: "supra_client \<Rightarrow> (supra_client \<times> string) option" where
  "next_endpoint cl =
     map_option (Pair (cl\<lparr>cl_current_endpoint := cl_current_endpoint cl + 1\<rparr>))
       (endpoint_at cl (cl_current_endpoint cl))"

definition current_base :: "supra_client \<Rightarrow> string option" where
  "current_base cl = endpoint_at cl (cl_current_endpoint cl)"

section \<open>View calls\<close>

text \<open>\<open>&text[..text.len().min(100)]\<close>: \<open>None\<close> when byte 100 continues a character.\<close>

definition continuation_byte :: "char \<Rightarrow> bool" where
  "continuation_byte c = (of_char c div 64 = (2 :: nat))"

definition preview :: "nat \<Rightarrow> string \<Rightarrow> string option" where
  "preview n text =
     (if n < length text \<and> continuation_byte (text ! n) then None else Some (take n text))"

text \<open>What the loop does with an answer: return a result, or remember the error and try again.\<close>

datatype view_verdict = Return "chain_error + json" | Retry chain_error

definition unwrap_result :: "json \<Rightarrow> json" where
  "unwrap_result j = (case jget ''result'' j of Some r \<Rightarrow> r | None \<Rightarrow> j)"

definition judge_view :: "(string \<Rightarrow> json option) \<Rightarrow> http_answer \<Rightarrow> view_verdict option" where
  "judge_view parse answer =
     (case answer of
        Inl e \<Rightarrow> Some (Retry (NetworkError e))
      | Inr resp \<Rightarrow>
         (case check_response_limit resp of
            Inl e \<Rightarrow> Some (Retry e)
          | Inr _ \<Rightarrow>
             (let status = hr_status resp in
              if 200 \<le> status \<and> status < 300 then
                Some (Return (res_bind (parse_response parse resp) (\<lambda>j. Inr (unwrap_result j))))
              else if 500 \<le> status \<and> status < 600 then
                Some (Retry (NetworkError (''server error: '' @ nat_str status)))
              else
               (let text = (case hr_body resp of Inl _ \<Rightarrow> [] | Inr t \<Rightarrow> t) in
                if parse text = None
                then map_option (\<lambda>p. Return (Inl (RpcDeserializationError (''not valid JSON: '' @ p)))) (preview 100 text)
                else Some (Return (Inl (RpcDeserializationError text)))))))"

text \<open>\<open>server i url\<close> is the answer to the request number \<open>i\<close> of this call.\<close>

fun view_attempts ::
  "(string \<Rightarrow> json option) \<Rightarrow> (nat \<Rightarrow> string \<Rightarrow> http_answer) \<Rightarrow> nat \<Rightarrow> nat \<Rightarrow> chain_error option \<Rightarrow> supra_client
    \<Rightarrow> (supra_client \<times> (chain_error + json)) option" where
  "view_attempts parse server 0 i last_error cl =
     Some (cl, Inl (case last_error of None \<Rightarrow> AllEndpointsFailed | Some e \<Rightarrow> e))"
| "view_attempts parse server (Suc n) i last_error cl =
     Option.bind (next_endpoint cl) (\<lambda>(cl', base).
     Option.bind (judge_view parse (server i (base @ ''/rpc/v2/view''))) (\<lambda>verdict.
       case verdict of
         Return r \<Rightarrow> Some (cl', r)
       | Retry e \<Rightarrow> view_attempts parse server n (Suc i) (Some e) cl'))"

definition view_absolute ::
  "(string \<Rightarrow> json option) \<Rightarrow> (nat \<Rightarrow> string \<Rightarrow> json \<Rightarrow> http_answer) \<Rightarrow> string \<Rightarrow> string list \<Rightarrow> json list \<Rightarrow> supra_client
    \<Rightarrow> (supra_client \<times> (chain_error + json)) option" where
  "view_absolute parse server function_id type_args args cl =
     (let body = JObject [(''function'', JString function_id), (''type_arguments'', jstrs type_args),
                          (''arguments'', JArray args)]
      in view_attempts parse (\<lambda>i url. server i url body) (cl_max_retries cl) 0 None cl)"

definition view_raw ::
  "(string \<Rightarrow> json option) \<Rightarrow> (nat \<Rightarrow> string \<Rightarrow> json \<Rightarrow> http_answer) \<Rightarrow> string \<Rightarrow> string \<Rightarrow> string list \<Rightarrow> json list
    \<Rightarrow> supra_client \<Rightarrow> (supra_client \<times> (chain_error + json)) option" where
  "view_raw parse server module function type_args args cl =
     view_absolute parse server (cl_contract_addr cl @ ''::'' @ module @ ''::'' @ function) type_args args cl"

section \<open>Ledger and account\<close>

definition ledger_of_json :: "json \<Rightarrow> chain_error + ledger_info" where
  "ledger_of_json j =
     res_bind (ok_or (RpcDeserializationError ''missing height in block response'')
                 (Option.bind (jget ''height'' j) number_or_text)) (\<lambda>h.
       Inr \<lparr>li_block_height = h, li_ledger_timestamp =
         or_default 0 (Option.bind (Option.bind (jget ''timestamp'' j) (jget ''timestamp'')) number_or_text)\<rparr>)"

definition get_ledger_info ::
  "(string \<Rightarrow> json option) \<Rightarrow> (string \<Rightarrow> http_answer) \<Rightarrow> supra_client \<Rightarrow> (chain_error + ledger_info) option" where
  "get_ledger_info parse server cl =
     map_option (\<lambda>base.
         res_bind (map_err NetworkError (server (base @ ''/rpc/v2/block''))) (\<lambda>resp.
         res_bind (check_response_limit resp) (\<lambda>_.
         res_bind (parse_response parse resp) ledger_of_json)))
       (current_base cl)"

definition get_account ::
  "(string \<Rightarrow> json option) \<Rightarrow> (string \<Rightarrow> http_answer) \<Rightarrow> string \<Rightarrow> supra_client \<Rightarrow> (chain_error + account_info) option" where
  "get_account parse server address cl =
     map_option (\<lambda>base.
         res_bind (map_err NetworkError (server (base @ ''/rpc/v2/accounts/'' @ address))) (\<lambda>resp.
         res_bind (parse_response parse resp) (\<lambda>j.
         res_bind (ok_or (RpcDeserializationError ''missing sequence_number'')
                     (Option.bind (jget ''sequence_number'' j) number_or_text)) (\<lambda>seq.
           Inr \<lparr>ai_sequence_number = seq, ai_authentication_key = or_default [] (str_field ''authentication_key'' j)\<rparr>))))
       (current_base cl)"

section \<open>Transactions\<close>

definition is_success :: "http_response \<Rightarrow> bool" where
  "is_success resp = (200 \<le> hr_status resp \<and> hr_status resp < 300)"

definition trim_quotes :: "string \<Rightarrow> string" where
  "trim_quotes s = (let q = (\<lambda>c. c = CHR 0x22) in rev (dropWhile q (rev (dropWhile q s))))"

definition submit_raw ::
  "(string \<Rightarrow> bytes \<Rightarrow> http_answer) \<Rightarrow> bytes \<Rightarrow> supra_client \<Rightarrow> (chain_error + string) option" where
  "submit_raw server signed_tx cl =
     map_option (\<lambda>base.
         res_bind (map_err NetworkError (server (base @ ''/rpc/v3/transactions/submit'') (1 # signed_tx))) (\<lambda>resp.
         res_bind (map_err RpcDeserializationError (hr_body resp)) (\<lambda>body.
           if is_success resp then Inr (trim_quotes (trim body)) else Inl (TransactionFailed body))))
       (current_base cl)"

definition move_output :: "json \<Rightarrow> json option" where
  "move_output j = Option.bind (jget ''output'' j) (jget ''Move'')"

definition outcome_of_json :: "string \<Rightarrow> json \<Rightarrow> tx_outcome" where
  "outcome_of_json status j =
     \<lparr>tx_success = (status = ''Success''),
      tx_gas_used = or_default 0 (Option.bind (Option.bind (move_output j) (jget ''gas_used'')) number_or_text),
      tx_vm_status = or_default status (Option.bind (Option.bind (move_output j) (jget ''vm_status'')) as_str)\<rparr>"

definition simulate_raw ::
  "(string \<Rightarrow> json option) \<Rightarrow> (string \<Rightarrow> bytes \<Rightarrow> http_answer) \<Rightarrow> bytes \<Rightarrow> supra_client
    \<Rightarrow> (chain_error + tx_outcome) option" where
  "simulate_raw parse server signed_tx cl =
     Option.bind (current_base cl) (\<lambda>base.
       case res_bind (map_err NetworkError (server (base @ ''/rpc/v3/transactions/simulate'') (1 # signed_tx)))
              (\<lambda>resp. map_err RpcDeserializationError (hr_body resp)) of
         Inl e \<Rightarrow> Some (Inl e)
       | Inr text \<Rightarrow>
          (case parse text of
             None \<Rightarrow> map_option (\<lambda>p. Inl (RpcDeserializationError (''JSON parse error: '' @ p))) (preview 500 text)
           | Some j \<Rightarrow>
              (let status = or_default ''Fail'' (str_field ''status'' j); r = Inr (outcome_of_json status j)
               in if status = ''Success'' then Some r else map_option (\<lambda>_. r) (preview 500 text))))"

text \<open>The wait for a transaction: one entry per round of the loop, the seconds passed at its start and
  the answer. A round returns, or the loop polls again; \<open>None\<close> is still polling when the list ends.\<close>

definition wait_round :: "(string \<Rightarrow> json option) \<Rightarrow> http_answer \<Rightarrow> (chain_error + tx_outcome) option" where
  "wait_round parse answer =
     (case answer of
        Inl e \<Rightarrow> Some (Inl (NetworkError e))
      | Inr resp \<Rightarrow>
          if hr_status resp = 404 then None
          else (case hr_body resp of
             Inl e \<Rightarrow> Some (Inl (RpcDeserializationError e))
           | Inr body \<Rightarrow>
              (case Option.bind (parse body) (\<lambda>j. map_option (\<lambda>st. (st, j)) (str_field ''status'' j)) of
                 None \<Rightarrow> None
               | Some (status, j) \<Rightarrow>
                   if status = ''Pending'' then None else Some (Inr (outcome_of_json status j)))))"

fun wait_for_tx ::
  "(string \<Rightarrow> json option) \<Rightarrow> nat \<Rightarrow> (nat \<times> http_answer) list \<Rightarrow> (chain_error + tx_outcome) option" where
  "wait_for_tx parse timeout [] = None"
| "wait_for_tx parse timeout ((elapsed, answer) # rounds) =
     (if timeout < elapsed then Some (Inl RpcTimeout)
      else case wait_round parse answer of
             Some r \<Rightarrow> Some r
           | None \<Rightarrow> wait_for_tx parse timeout rounds)"

section \<open>Events and keys\<close>

definition events_of_json :: "json \<Rightarrow> chain_event list" where
  "events_of_json j =
     List.map_filter (\<lambda>item. case chain_event_from_json (or_default item (jget ''event'' item)) of
         Inl _ \<Rightarrow> None | Inr ev \<Rightarrow> Some ev)
       (or_default [] (Option.bind (jget ''data'' j) as_array))"

definition events_url :: "string \<Rightarrow> string \<Rightarrow> u64 \<Rightarrow> u64 \<Rightarrow> u64 \<Rightarrow> string" where
  "events_url base ty start_height end_height limit =
     base @ ''/rpc/v3/events/'' @ ty @ ''?start_height='' @ u64_str start_height
       @ ''&end_height='' @ u64_str end_height @ ''&limit='' @ u64_str limit"

definition get_events ::
  "(string \<Rightarrow> json option) \<Rightarrow> (string \<Rightarrow> http_answer) \<Rightarrow> string \<Rightarrow> u64 \<Rightarrow> u64 \<Rightarrow> u64 \<Rightarrow> supra_client
    \<Rightarrow> (chain_error + chain_event list) option" where
  "get_events parse server ty start_height end_height limit cl =
     map_option (\<lambda>base.
         res_bind (map_err NetworkError (server (events_url base ty start_height end_height limit))) (\<lambda>resp.
         res_bind (check_response_limit resp) (\<lambda>_.
         res_bind (parse_response parse resp) (\<lambda>j. Inr (events_of_json j)))))
       (current_base cl)"

definition key_of_view :: "json \<Rightarrow> chain_error + bytes" where
  "key_of_view result =
     res_bind (ok_or (RpcDeserializationError ''missing pubkey in result'')
                 (Option.bind (jindex 0 result) as_str)) (\<lambda>hex.
       ok_or (RpcDeserializationError (''invalid hex pubkey: '' @ hex)) (hex_decode (trim_0x hex)))"

definition get_trustee_pubkey ::
  "(string \<Rightarrow> json option) \<Rightarrow> (nat \<Rightarrow> string \<Rightarrow> json \<Rightarrow> http_answer) \<Rightarrow> u64 \<Rightarrow> supra_client
    \<Rightarrow> (supra_client \<times> (chain_error + bytes)) option" where
  "get_trustee_pubkey parse server nft_id cl =
     map_option (\<lambda>(cl', r). (cl', res_bind r key_of_view))
       (view_raw parse server ''nft'' ''get_trustee_pubkey'' [] [JString (u64_str nft_id)] cl)"

definition get_market_pair_config ::
  "(string \<Rightarrow> string) \<Rightarrow> (string \<Rightarrow> json option) \<Rightarrow> (nat \<Rightarrow> string \<Rightarrow> json \<Rightarrow> http_answer) \<Rightarrow> bytes \<Rightarrow> supra_client
    \<Rightarrow> (supra_client \<times> (chain_error + market_pair)) option" where
  "get_market_pair_config hex_msg parse server symbol cl =
     map_option (\<lambda>(cl', r). (cl', res_bind r (\<lambda>j.
         map_err (\<lambda>e. RpcDeserializationError (types_error_display e)) (market_pair_from_view hex_msg j))))
       (view_raw parse server ''settlement'' ''get_market_pair'' [] [JString (''0x'' @ hex_encode symbol)] cl)"

section \<open>Failover\<close>

text \<open>Request number \<open>i\<close> of a view call, and what the loop makes of the answer.\<close>

definition view_url :: "supra_client \<Rightarrow> nat \<Rightarrow> string" where
  "view_url cl i = cl_endpoints cl ! (unat (cl_current_endpoint cl + word_of_nat i) mod length (cl_endpoints cl))
     @ ''/rpc/v2/view''"

definition advanced :: "nat \<Rightarrow> supra_client \<Rightarrow> supra_client" where
  "advanced n cl = cl\<lparr>cl_current_endpoint := cl_current_endpoint cl + word_of_nat n\<rparr>"

lemma advanced_simps [simp]:
  "advanced 0 cl = cl" "advanced n (cl\<lparr>cl_current_endpoint := cl_current_endpoint cl + 1\<rparr>) = advanced (Suc n) cl"
  "cl_endpoints (advanced n cl) = cl_endpoints cl"
  by (simp_all add: advanced_def add.assoc)

lemma next_endpoint_some:
  "cl_endpoints cl \<noteq> [] \<Longrightarrow> next_endpoint cl = Some (advanced 1 cl,
     cl_endpoints cl ! (unat (cl_current_endpoint cl) mod length (cl_endpoints cl)))"
  by (simp add: next_endpoint_def endpoint_at_def advanced_def)

lemma view_url_shift [simp]: "view_url (advanced (Suc 0) cl) i = view_url cl (Suc i)"
  by (simp add: view_url_def advanced_def add.assoc)

text \<open>A first batch of answers to retry moves the loop on by as many endpoints.\<close>

lemma view_attempts_retry:
  assumes "cl_endpoints cl \<noteq> []"
    and "\<And>j. j < k \<Longrightarrow> judge_view parse (server (i + j) (view_url cl j)) = Some (Retry (e j))"
  shows "view_attempts parse server (k + n) i err cl =
    view_attempts parse server n (i + k) (if k = 0 then err else Some (e (k - 1))) (advanced k cl)"
  using assms
proof (induction k arbitrary: i err cl e)
  case (Suc k)
  let ?cl = "advanced 1 cl"
  have first: "judge_view parse (server i (view_url cl 0)) = Some (Retry (e 0))"
    using Suc.prems(2) [of 0] by simp
  have url: "cl_endpoints cl ! (unat (cl_current_endpoint cl) mod length (cl_endpoints cl)) @ ''/rpc/v2/view'' = view_url cl 0"
    by (simp add: view_url_def)
  have rest: "judge_view parse (server (Suc i + j) (view_url ?cl j)) = Some (Retry (e (Suc j)))" if "j < k" for j
    using Suc.prems(2) [of "Suc j"] that by simp
  have "view_attempts parse server (Suc k + n) i err cl = view_attempts parse server (k + n) (Suc i) (Some (e 0)) ?cl"
    using Suc.prems(1) first by (simp add: next_endpoint_some url)
  also have "\<dots> = view_attempts parse server n (Suc i + k) (if k = 0 then Some (e 0) else Some (e (Suc (k - 1)))) (advanced k ?cl)"
    using Suc.IH [of ?cl "Suc i" "\<lambda>j. e (Suc j)" "Some (e 0)"] Suc.prems(1) rest by simp
  also have "advanced k ?cl = advanced (Suc k) cl" by (simp add: advanced_def add.assoc)
  finally show ?case by (cases k) simp_all
qed simp

lemma judge_panics: "judge_view parse answer = None \<longleftrightarrow>
    (\<exists>resp. answer = Inr resp \<and> check_response_limit resp = Inr ()
       \<and> \<not> (200 \<le> hr_status resp \<and> hr_status resp < 300) \<and> \<not> (500 \<le> hr_status resp \<and> hr_status resp < 600)
       \<and> (\<exists>text. hr_body resp = Inr text \<and> parse text = None \<and> 100 < length text \<and> continuation_byte (text ! 100)))"
  by (cases answer; cases "hr_body (projr answer)")
    (auto simp: judge_view_def preview_def Let_def split: sum.splits)

text \<open>
  A view call tries the endpoints in turn, at most \<open>max_retries\<close> of them: an error of the network, a
  rate limit and a server error move on to the next endpoint, the first other answer is returned and
  the next call starts behind it; if all attempts fail so, the last error is returned. The call panics
  exactly on an answer that is neither a success nor a server error and whose body is no JSON, longer than 100 bytes, and has a character across
  byte 100.
\<close>
theorem view_fails_over:
  assumes "cl_endpoints cl \<noteq> []"
    and "\<And>j. j < k \<Longrightarrow> judge_view parse (server j (view_url cl j) (body function_id type_args args)) = Some (Retry (e j))"
    and "body = (\<lambda>f ts as. JObject [(''function'', JString f), (''type_arguments'', jstrs ts), (''arguments'', JArray as)])"
  shows "(k < cl_max_retries cl \<longrightarrow> (\<forall>r.
          judge_view parse (server k (view_url cl k) (body function_id type_args args)) = Some (Return r) \<longrightarrow>
          view_absolute parse server function_id type_args args cl = Some (advanced (Suc k) cl, r)))
    \<and> (0 < k \<and> k = cl_max_retries cl \<longrightarrow>
          view_absolute parse server function_id type_args args cl = Some (advanced k cl, Inl (e (k - 1))))
    \<and> (k < cl_max_retries cl \<longrightarrow>
          judge_view parse (server k (view_url cl k) (body function_id type_args args)) = None \<longrightarrow>
          view_absolute parse server function_id type_args args cl = None)
    \<and> (\<forall>answer. judge_view parse answer = None \<longleftrightarrow>
          (\<exists>resp text. answer = Inr resp \<and> check_response_limit resp = Inr ()
             \<and> \<not> (200 \<le> hr_status resp \<and> hr_status resp < 300) \<and> \<not> (500 \<le> hr_status resp \<and> hr_status resp < 600)
             \<and> hr_body resp = Inr text \<and> parse text = None \<and> 100 < length text \<and> continuation_byte (text ! 100)))"
proof -
  let ?server = "\<lambda>i url. server i url (body function_id type_args args)"
  have call: "view_absolute parse server function_id type_args args cl
      = view_attempts parse ?server (cl_max_retries cl) 0 None cl"
    by (simp add: view_absolute_def assms(3))
  have skip: "view_attempts parse ?server (k + n) 0 None cl =
      view_attempts parse ?server n k (if k = 0 then None else Some (e (k - 1))) (advanced k cl)" for n
    using view_attempts_retry [of cl k parse ?server 0 e n None] assms(1,2) by simp
  have url: "cl_endpoints cl ! (unat (cl_current_endpoint (advanced k cl)) mod length (cl_endpoints cl)) @ ''/rpc/v2/view'' = view_url cl k"
    by (simp add: view_url_def advanced_def)
  have adv: "advanced (Suc 0) (advanced k cl) = advanced (Suc k) cl" by (simp add: advanced_def add.assoc)
  have step: "view_attempts parse ?server (cl_max_retries cl) 0 None cl =
      view_attempts parse ?server (Suc (cl_max_retries cl - Suc k)) k (if k = 0 then None else Some (e (k - 1))) (advanced k cl)"
    if "k < cl_max_retries cl"
    using skip [of "Suc (cl_max_retries cl - Suc k)"] that by simp
  have judged: "view_absolute parse server function_id type_args args cl =
      Option.bind (judge_view parse (?server k (view_url cl k))) (\<lambda>verdict. case verdict of
          Return r \<Rightarrow> Some (advanced (Suc k) cl, r)
        | Retry e' \<Rightarrow> view_attempts parse ?server (cl_max_retries cl - Suc k) (Suc k) (Some e') (advanced (Suc k) cl))"
    if "k < cl_max_retries cl"
    using assms(1) by (simp add: call step [OF that] next_endpoint_some url adv)
  have "judge_view parse answer = None \<longleftrightarrow> (\<exists>resp text. answer = Inr resp \<and> check_response_limit resp = Inr ()
      \<and> \<not> (200 \<le> hr_status resp \<and> hr_status resp < 300) \<and> \<not> (500 \<le> hr_status resp \<and> hr_status resp < 600)
      \<and> hr_body resp = Inr text \<and> parse text = None \<and> 100 < length text \<and> continuation_byte (text ! 100))" for answer
    unfolding judge_panics by blast
  moreover have "0 < k \<and> k = cl_max_retries cl \<longrightarrow>
      view_absolute parse server function_id type_args args cl = Some (advanced k cl, Inl (e (k - 1)))"
    using skip [of 0] by (auto simp: call)
  moreover have "k < cl_max_retries cl \<longrightarrow> (\<forall>r. judge_view parse (?server k (view_url cl k)) = Some (Return r) \<longrightarrow>
      view_absolute parse server function_id type_args args cl = Some (advanced (Suc k) cl, r))"
    by (simp add: judged)
  moreover have "k < cl_max_retries cl \<longrightarrow> judge_view parse (?server k (view_url cl k)) = None \<longrightarrow>
      view_absolute parse server function_id type_args args cl = None"
    by (simp add: judged)
  ultimately show ?thesis by blast
qed

text \<open>
  Only view calls fail over. With the first endpoint down, the block height, the account, the events
  and the submission of a transaction fail on every call, however often they are repeated: none of
  them moves to the next endpoint. A view call on the same client succeeds through the second one.
\<close>
theorem dead_endpoint_stalls:
  assumes "\<And>url. starts_with a url \<Longrightarrow> server url = Inl e"
    and "cl = client_new (a # b # rest) addr"
  shows "get_ledger_info parse server cl = Some (Inl (NetworkError e))
    \<and> get_account parse server address cl = Some (Inl (NetworkError e))
    \<and> get_events parse server ty from to limit cl = Some (Inl (NetworkError e))
    \<and> submit_raw (\<lambda>url _. server url) tx cl = Some (Inl (NetworkError e))
    \<and> (\<forall>resp j. server (b @ ''/rpc/v2/view'') = Inr resp \<and> check_response_limit resp = Inr () \<and> is_success resp
          \<and> parse_response parse resp = Inr j \<longrightarrow>
        view_raw parse (\<lambda>_ url _. server url) m f ts as cl = Some (advanced 2 cl, Inr (unwrap_result j)))"
proof -
  have dead: "server (a @ path) = Inl e" for path
    using assms(1) by (simp add: starts_with_def)
  have base: "current_base cl = Some a"
    by (simp add: assms(2) client_new_def current_base_def endpoint_at_def)
  have url: "view_url cl 0 = a @ ''/rpc/v2/view''" "view_url cl 1 = b @ ''/rpc/v2/view''"
    by (simp_all add: view_url_def assms(2) client_new_def)
  have "view_raw parse (\<lambda>_ url _. server url) m f ts as cl = Some (advanced 2 cl, Inr (unwrap_result j))"
    if "server (b @ ''/rpc/v2/view'') = Inr resp" "check_response_limit resp = Inr ()" "is_success resp"
      "parse_response parse resp = Inr j" for resp j
  proof -
    have "judge_view parse (server (view_url cl 0)) = Some (Retry (NetworkError e))"
      by (simp add: url judge_view_def dead)
    moreover have "judge_view parse (server (view_url cl 1)) = Some (Return (Inr (unwrap_result j)))"
      unfolding url using that by (simp add: judge_view_def is_success_def)
    moreover have "cl_max_retries cl = 3" "cl_endpoints cl \<noteq> []" by (simp_all add: assms(2) client_new_def)
    moreover have "view_attempts parse (\<lambda>i url. server url) (1 + 2) 0 None cl
        = view_attempts parse (\<lambda>i url. server url) 2 1 (Some (NetworkError e)) (advanced 1 cl)"
      using view_attempts_retry [of cl 1 parse "\<lambda>i url. server url" 0 "\<lambda>_. NetworkError e" 2 None] calculation
      by simp
    ultimately show ?thesis
      by (simp add: view_raw_def view_absolute_def numeral_eq_Suc next_endpoint_some view_url_def advanced_def)
  qed
  then show ?thesis
    by (simp add: get_ledger_info_def get_account_def get_events_def submit_raw_def base dead events_url_def)
qed

section \<open>Examples\<close>

definition example_client :: supra_client where
  "example_client = client_new [''http://a'', ''http://b''] ''0x1''"

definition example_reply :: http_response where
  "example_reply = \<lparr>hr_status = 200, hr_content_type = None, hr_body = Inr ''[]''\<rparr>"

text \<open>The first endpoint is down, the second answers with an empty list.\<close>

definition example_http :: "string \<Rightarrow> http_answer" where
  "example_http url = (if starts_with ''http://a'' url then Inl ''refused'' else Inr example_reply)"

definition example_reader :: "string \<Rightarrow> json option" where
  "example_reader text = (if text = ''[]'' then Some (JArray []) else None)"

lemma example_urls:
  "view_url example_client 0 = ''http://a/rpc/v2/view''" "view_url example_client 1 = ''http://b/rpc/v2/view''"
  by (simp_all add: view_url_def example_client_def client_new_def)

lemma example_verdicts:
  "judge_view example_reader (example_http (view_url example_client 0)) = Some (Retry (NetworkError ''refused''))"
  "judge_view example_reader (example_http (view_url example_client 1)) = Some (Return (Inr (JArray [])))"
  unfolding example_urls
  by (simp_all add: example_http_def starts_with_def judge_view_def check_response_limit_def example_reply_def
      parse_response_def example_reader_def unwrap_result_def)

theorem view_fails_over_witness:
  "view_absolute example_reader (\<lambda>_ url _. example_http url) ''f'' [] [] example_client
     = Some (advanced 2 example_client, Inr (JArray []))"
proof -
  have "cl_endpoints example_client \<noteq> []" "cl_max_retries example_client = 3"
    by (simp_all add: example_client_def client_new_def)
  then show ?thesis
    using view_fails_over [of example_client 1 example_reader "\<lambda>_ url _. example_http url"
        "\<lambda>f ts as. JObject [(''function'', JString f), (''type_arguments'', jstrs ts), (''arguments'', JArray as)]"
        "''f''" "[]" "[]" "\<lambda>_. NetworkError ''refused''"] example_verdicts
    by (simp add: numeral_2_eq_2)
qed

theorem dead_endpoint_stalls_witness:
  "get_ledger_info example_reader example_http example_client = Some (Inl (NetworkError ''refused''))
   \<and> view_raw example_reader (\<lambda>_ url _. example_http url) ''m'' ''f'' [] [] example_client
       = Some (advanced 2 example_client, Inr (JArray []))"
proof -
  have "example_http (''http://b'' @ ''/rpc/v2/view'') = Inr example_reply"
    "check_response_limit example_reply = Inr ()" "is_success example_reply"
    "parse_response example_reader example_reply = Inr (JArray [])" "unwrap_result (JArray []) = JArray []"
    by (simp_all add: example_http_def starts_with_def example_reply_def check_response_limit_def is_success_def
        parse_response_def example_reader_def unwrap_result_def)
  then show ?thesis
    using dead_endpoint_stalls [of "''http://a''" example_http "''refused''" example_client "''http://b''" "[]"
        "''0x1''" example_reader]
    by (simp add: example_http_def example_client_def)
qed

end
