(* ===== verification/ChainCaches.thy ===== *)
theory ChainCaches
  imports Storage RpcClient Batch
begin

text \<open>
  \<open>crates/chain/src/pubkey.rs\<close> and \<open>crates/chain/src/market.rs\<close>: the caches in front of the chain, on
  the database of theory Storage and the client of theory RpcClient. The database is reached through
  the contract \<open>keyed_table\<close> of its tables. An operation threads the database and the client; \<open>None\<close>
  is a panic of the client.
\<close>

section \<open>Public keys\<close>

definition lookup_pubkey ::
  "(string \<Rightarrow> json option) \<Rightarrow> (nat \<Rightarrow> string \<Rightarrow> json \<Rightarrow> http_answer) \<Rightarrow> u64 \<Rightarrow> storage \<times> supra_client
    \<Rightarrow> ((storage \<times> supra_client) \<times> (chain_error + bytes)) option" where
  "lookup_pubkey parse server nft_id s =
     (let (db, cl) = s in
      case Option.bind (db_get_pubkey nft_id db) (\<lambda>r. if length (cp_pubkey r) = 32 then Some (cp_pubkey r) else None) of
        Some key \<Rightarrow> Some (s, Inr key)
      | None \<Rightarrow>
          map_option (\<lambda>(cl', r). case r of
              Inl e \<Rightarrow> ((db, cl'), Inl e)
            | Inr key \<Rightarrow>
                if length key \<noteq> 32
                then ((db, cl'), Inl (RpcDeserializationError (''pubkey for nft '' @ u64_str nft_id
                        @ '' has invalid length: '' @ nat_str (length key) @ '' (expected 32)'')))
                else ((db_cache_pubkey nft_id key (''nft_'' @ u64_str nft_id) db, cl'), Inr key))
            (get_trustee_pubkey parse server nft_id cl))"

text \<open>\<open>server nft\<close> answers the requests made for that NFT; a pool count of zero panics.\<close>

fun warm_pool ::
  "crypto \<Rightarrow> (string \<Rightarrow> json option) \<Rightarrow> (u64 \<Rightarrow> nat \<Rightarrow> string \<Rightarrow> json \<Rightarrow> http_answer) \<Rightarrow> u64 \<Rightarrow> u64 \<Rightarrow> u64 \<Rightarrow> u64 list
    \<Rightarrow> storage \<times> supra_client \<Rightarrow> (storage \<times> supra_client) option" where
  "warm_pool C parse server batch_id num_pools pool_id [] s = Some s"
| "warm_pool C parse server batch_id num_pools pool_id (nft_id # nfts) s =
     Option.bind (compute_pool_assignment C nft_id batch_id num_pools) (\<lambda>pool.
     Option.bind (if pool = pool_id then map_option fst (lookup_pubkey parse (server nft_id) nft_id s) else Some s)
       (warm_pool C parse server batch_id num_pools pool_id nfts))"

section \<open>Market pairs\<close>

definition DEFAULT_TOKEN_DECIMALS :: u32 where "DEFAULT_TOKEN_DECIMALS = 5"

definition load_market ::
  "(string \<Rightarrow> string) \<Rightarrow> (string \<Rightarrow> json option) \<Rightarrow> (nat \<Rightarrow> string \<Rightarrow> json \<Rightarrow> http_answer) \<Rightarrow> bytes \<Rightarrow> storage \<times> supra_client
    \<Rightarrow> ((storage \<times> supra_client) \<times> (chain_error + unit)) option" where
  "load_market hex_msg parse server symbol s =
     (let (db, cl) = s in
      map_option (\<lambda>(cl', r). case r of
          Inl e \<Rightarrow> ((db, cl'), Inl e)
        | Inr pair \<Rightarrow> ((upsert_market_pair (bytes_str symbol) (mp_min_quantity pair) (mp_base_metadata pair)
              (mp_quote_metadata pair) DEFAULT_TOKEN_DECIMALS DEFAULT_TOKEN_DECIMALS (mp_is_active pair) db, cl'), Inr ()))
        (get_market_pair_config hex_msg parse server symbol cl))"

definition get_market :: "string \<Rightarrow> storage \<Rightarrow> (u64 \<times> bool) option" where
  "get_market symbol db = map_option (\<lambda>r. (mk_min_quantity r, mk_active r)) (get_market_pair symbol db)"

definition list_active :: "storage \<Rightarrow> (string \<times> u64) list" where
  "list_active db = map (\<lambda>r. (mk_symbol r, mk_min_quantity r)) (list_active_market_pairs db)"

section \<open>Runs\<close>

datatype cache_op =
    LookupKey "nat \<Rightarrow> string \<Rightarrow> json \<Rightarrow> http_answer" u64
  | WarmPool "u64 \<Rightarrow> nat \<Rightarrow> string \<Rightarrow> json \<Rightarrow> http_answer" u64 u64 u64 "u64 list"
  | LoadMarket "nat \<Rightarrow> string \<Rightarrow> json \<Rightarrow> http_answer" bytes

fun cache_step ::
  "crypto \<Rightarrow> (string \<Rightarrow> string) \<Rightarrow> (string \<Rightarrow> json option) \<Rightarrow> cache_op \<Rightarrow> storage \<times> supra_client
    \<Rightarrow> (storage \<times> supra_client) option" where
  "cache_step C hex_msg parse (LookupKey server nft) s = map_option fst (lookup_pubkey parse server nft s)"
| "cache_step C hex_msg parse (WarmPool server b n p nfts) s = warm_pool C parse server b n p nfts s"
| "cache_step C hex_msg parse (LoadMarket server symbol) s = map_option fst (load_market hex_msg parse server symbol s)"

fun cache_run ::
  "crypto \<Rightarrow> (string \<Rightarrow> string) \<Rightarrow> (string \<Rightarrow> json option) \<Rightarrow> cache_op list \<Rightarrow> storage \<times> supra_client
    \<Rightarrow> (storage \<times> supra_client) option" where
  "cache_run C hex_msg parse [] s = Some s"
| "cache_run C hex_msg parse (op # ops) s = Option.bind (cache_step C hex_msg parse op s) (cache_run C hex_msg parse ops)"

text \<open>Keys on the chain never change: a server that answers a key request with a key answers with that one.\<close>

definition tells_key :: "(string \<Rightarrow> json option) \<Rightarrow> (u64 \<Rightarrow> bytes) \<Rightarrow> (nat \<Rightarrow> string \<Rightarrow> json \<Rightarrow> http_answer) \<Rightarrow> u64 \<Rightarrow> bool" where
  "tells_key parse key server nft \<longleftrightarrow>
     (\<forall>cl cl' k. get_trustee_pubkey parse server nft cl = Some (cl', Inr k) \<longrightarrow> k = key nft)"

fun op_honest :: "(string \<Rightarrow> json option) \<Rightarrow> (u64 \<Rightarrow> bytes) \<Rightarrow> cache_op \<Rightarrow> bool" where
  "op_honest parse key (LookupKey server nft) = tells_key parse key server nft"
| "op_honest parse key (WarmPool server b n p nfts) = (\<forall>nft. tells_key parse key (server nft) nft)"
| "op_honest parse key (LoadMarket server symbol) = True"

definition keys_true :: "(u64 \<Rightarrow> bytes) \<Rightarrow> storage \<Rightarrow> bool" where
  "keys_true key db \<longleftrightarrow> (\<forall>nft r. db_get_pubkey nft db = Some r \<longrightarrow> cp_pubkey r = key nft \<and> length (key nft) = 32)"

lemma get_cached: "db_get_pubkey n (db_cache_pubkey m k a db) =
    (if m = n then Some \<lparr>cp_nft_id = m, cp_pubkey = k, cp_address = a\<rparr> else db_get_pubkey n db)"
  by (simp add: db_get_pubkey_def db_cache_pubkey_def rows.get_put)

lemma get_other: "db_get_pubkey n (upsert_market_pair s q b qt bd qd a db) = db_get_pubkey n db"
  by (simp add: db_get_pubkey_def upsert_market_pair_def)

lemma market_keeps_keys:
  assumes "load_market hex_msg parse server symbol (db, cl) = Some (s', r)"
  shows "db_get_pubkey n (fst s') = db_get_pubkey n db"
proof (cases "get_market_pair_config hex_msg parse server symbol cl")
  case None
  with assms show ?thesis by (simp add: load_market_def)
next
  case (Some p)
  obtain cl' r' where "p = (cl', r')" by fastforce
  with Some assms show ?thesis by (cases r') (auto simp: load_market_def get_other)
qed

text \<open>The ways a lookup can go on a database that tells the truth.\<close>

lemma lookup_cases:
  assumes "keys_true key db" and "lookup_pubkey parse server nft (db, cl) = Some ((db', cl'), r)"
  obtains (hit) row where "db_get_pubkey nft db = Some row" "db' = db" "cl' = cl" "r = Inr (cp_pubkey row)"
      "cp_pubkey row = key nft" "length (key nft) = 32"
    | (failed) e where "db' = db" "r = Inl e"
    | (fetched) k where "get_trustee_pubkey parse server nft cl = Some (cl', Inr k)" "length k = 32"
      "db' = db_cache_pubkey nft k (''nft_'' @ u64_str nft) db" "r = Inr k"
proof (cases "db_get_pubkey nft db")
  case None
  with assms(2) obtain cl1 r0 where fetch: "get_trustee_pubkey parse server nft cl = Some (cl1, r0)"
    by (auto simp: lookup_pubkey_def)
  show ?thesis
  proof (cases r0)
    case (Inl e)
    with assms(2) None fetch have "db' = db" "r = Inl e" by (auto simp: lookup_pubkey_def)
    then show ?thesis by (rule failed)
  next
    case (Inr k)
    show ?thesis
    proof (cases "length k = 32")
      case True
      with assms(2) None fetch Inr have "cl1 = cl'" "db' = db_cache_pubkey nft k (''nft_'' @ u64_str nft) db" "r = Inr k"
        by (auto simp: lookup_pubkey_def)
      with True fetch Inr show ?thesis by (intro fetched) simp_all
    next
      case False
      with assms(2) None fetch Inr have "db' = db" "\<exists>e. r = Inl e" by (auto simp: lookup_pubkey_def)
      then obtain e where "db' = db" "r = Inl e" by blast
      then show ?thesis by (rule failed)
    qed
  qed
next
  case (Some row)
  then have "cp_pubkey row = key nft" "length (key nft) = 32" using assms(1) by (auto simp: keys_true_def)
  moreover from this assms(2) Some have "db' = db" "cl' = cl" "r = Inr (cp_pubkey row)"
    by (simp_all add: lookup_pubkey_def)
  ultimately show ?thesis using Some by (intro hit)
qed

definition key_cached :: "(u64 \<Rightarrow> bytes) \<Rightarrow> u64 \<Rightarrow> storage \<Rightarrow> bool" where
  "key_cached key nft db \<longleftrightarrow> keys_true key db \<and> (\<exists>row. db_get_pubkey nft db = Some row)"

lemma lookup_true:
  assumes "keys_true key db" and "tells_key parse key server nft"
    and "lookup_pubkey parse server nft (db, cl) = Some ((db', cl'), r)"
  shows "keys_true key db' \<and> (\<forall>n. key_cached key n db \<longrightarrow> key_cached key n db')
    \<and> (\<forall>k. r = Inr k \<longrightarrow> k = key nft \<and> length k = 32 \<and> key_cached key nft db')"
  using assms(1,3)
proof (cases rule: lookup_cases)
  case (fetched k)
  then have "k = key nft" using assms(2) by (simp add: tells_key_def)
  with fetched assms(1) show ?thesis by (auto simp: keys_true_def key_cached_def get_cached)
qed (use assms(1) in \<open>auto simp: key_cached_def\<close>)

text \<open>What every step keeps: the keys are true and stay cached.\<close>

definition keeps_keys :: "(u64 \<Rightarrow> bytes) \<Rightarrow> storage \<Rightarrow> storage \<Rightarrow> bool" where
  "keeps_keys key db db' \<longleftrightarrow> keys_true key db' \<and> (\<forall>n. key_cached key n db \<longrightarrow> key_cached key n db')"

lemma keeps_trans: "keeps_keys key a b \<Longrightarrow> keeps_keys key b c \<Longrightarrow> keeps_keys key a c"
  by (simp add: keeps_keys_def)

lemma keeps_refl: "keys_true key a \<Longrightarrow> keeps_keys key a a"
  by (simp add: keeps_keys_def)

lemma lookup_keeps:
  assumes "map_option fst (lookup_pubkey parse server nft s) = Some s'" and "keys_true key (fst s)"
    and "tells_key parse key server nft"
  shows "keeps_keys key (fst s) (fst s')"
proof -
  obtain r where found: "lookup_pubkey parse server nft (fst s, snd s) = Some ((fst s', snd s'), r)"
    using assms(1) by auto
  show ?thesis using lookup_true [OF assms(2,3) found] by (simp add: keeps_keys_def)
qed

lemma warm_keeps:
  assumes "warm_pool C parse server b n p nfts s = Some s'" and "keys_true key (fst s)"
    and "\<forall>nft. tells_key parse key (server nft) nft"
  shows "keeps_keys key (fst s) (fst s')"
  using assms
proof (induction nfts arbitrary: s)
  case (Cons nft nfts)
  from Cons.prems(1) obtain pool u where u: "warm_pool C parse server b n p nfts u = Some s'"
    "(if pool = p then map_option fst (lookup_pubkey parse (server nft) nft s) else Some s) = Some u"
    by (auto simp: bind_eq_Some_conv)
  have "keeps_keys key (fst s) (fst u)"
    using u(2) Cons.prems(2,3) lookup_keeps keeps_refl by (metis option.inject)
  then show ?case using Cons.IH [OF u(1)] Cons.prems(3) keeps_trans by (meson keeps_keys_def)
qed (simp add: keeps_refl)

lemma step_keeps:
  assumes "cache_step C hex_msg parse op s = Some s'" and "keys_true key (fst s)" and "op_honest parse key op"
  shows "keeps_keys key (fst s) (fst s')"
proof (cases op)
  case (LookupKey server nft)
  then show ?thesis using lookup_keeps assms by simp
next
  case (WarmPool server b n p nfts)
  then show ?thesis using warm_keeps assms by simp
next
  case (LoadMarket server symbol)
  with assms(1) obtain r where r: "load_market hex_msg parse server symbol (fst s, snd s) = Some (s', r)" by auto
  have "db_get_pubkey n (fst s') = db_get_pubkey n (fst s)" for n by (rule market_keeps_keys [OF r])
  then show ?thesis using assms(2) by (simp add: keeps_keys_def key_cached_def keys_true_def)
qed

lemma run_keeps:
  "cache_run C hex_msg parse ops s = Some s' \<Longrightarrow> keys_true key (fst s) \<Longrightarrow> \<forall>op \<in> set ops. op_honest parse key op
    \<Longrightarrow> keeps_keys key (fst s) (fst s')"
proof (induction ops arbitrary: s)
  case (Cons op ops)
  then obtain u where u: "cache_step C hex_msg parse op s = Some u" "cache_run C hex_msg parse ops u = Some s'"
    by (auto simp: bind_eq_Some_conv)
  have "keeps_keys key (fst s) (fst u)" using step_keeps u(1) Cons.prems by simp
  then show ?case using Cons.IH u(2) Cons.prems(3) keeps_trans by (meson keeps_keys_def list.set_intros(2))
qed (simp add: keeps_refl)

lemma cached_lookup:
  "key_cached key nft db \<Longrightarrow> lookup_pubkey parse server nft (db, cl) = Some ((db, cl), Inr (key nft))"
  by (auto simp: lookup_pubkey_def keys_true_def key_cached_def)

text \<open>
  The key cache is transparent. On a fresh database and after any sequence of lookups, pool warming
  and market loading, with servers that never answer a key request with another key than the chain's:
  a lookup that returns a key returns the chain's, of 32 bytes; and once it has, every later lookup of
  that NFT returns it again without a request, whatever came between, even with every endpoint down
  or a server that lies.
\<close>
theorem pubkey_cache_transparent:
  assumes "cache_run C hex_msg parse ops (create_schema no_storage, cl0) = Some (db, cl)"
    and "\<forall>op \<in> set ops. op_honest parse key op" and "tells_key parse key server nft"
    and "lookup_pubkey parse server nft (db, cl) = Some ((db', cl'), Inr k)"
    and "cache_run C hex_msg parse later (db', cl') = Some (db'', cl'')"
    and "\<forall>op \<in> set later. op_honest parse key op"
  shows "k = key nft \<and> length k = 32 \<and> lookup_pubkey parse any_server nft (db'', cl'') = Some ((db'', cl''), Inr k)"
proof -
  have "keys_true key (create_schema no_storage)"
    by (simp add: keys_true_def db_get_pubkey_def create_schema_def no_storage_def rows.get_empty)
  then have "keys_true key db" using run_keeps [OF assms(1)] assms(2) by (simp add: keeps_keys_def)
  then have k: "keys_true key db'" "k = key nft" "length k = 32" "key_cached key nft db'"
    using lookup_true [OF _ assms(3,4)] by auto
  then have "key_cached key nft db''"
    using run_keeps [OF assms(5)] assms(6) by (simp add: keeps_keys_def)
  then show ?thesis using k cached_lookup by simp
qed

text \<open>A server whose every answer holds the same key, read by any client.\<close>

lemma view_attempts_result:
  "view_attempts parse server n i err cl = Some (cl', Inr j)
    \<Longrightarrow> \<exists>i url. judge_view parse (server i url) = Some (Return (Inr j))"
proof (induction n arbitrary: i err cl)
  case (Suc n)
  then obtain cl1 base v where v: "judge_view parse (server i (base @ ''/rpc/v2/view'')) = Some v"
    "(case v of Return r \<Rightarrow> Some (cl1, r) | Retry e \<Rightarrow> view_attempts parse server n (Suc i) (Some e) cl1) = Some (cl', Inr j)"
    by (auto simp: bind_eq_Some_conv)
  show ?case
  proof (cases v)
    case (Return r)
    then show ?thesis using v by auto
  next
    case (Retry e)
    then show ?thesis using v Suc.IH by simp
  qed
qed simp

definition example_key_json :: json where
  "example_key_json = JArray [JString (''0x'' @ replicate 64 (CHR ''0''))]"

definition example_key_reader :: "string \<Rightarrow> json option" where
  "example_key_reader text = Some example_key_json"

definition example_key :: bytes where "example_key = replicate 32 0"

lemma example_key_of_view: "key_of_view example_key_json = Inr example_key"
  by code_simp

lemma example_key_plain: "unwrap_result example_key_json = example_key_json"
  by (simp add: unwrap_result_def example_key_json_def)

lemma example_key_verdict:
  "judge_view example_key_reader (Inr example_reply)
     = Some (Return (Inr example_key_json))"
  by (simp add: judge_view_def check_response_limit_def example_reply_def parse_response_def
      example_key_reader_def example_key_plain)

lemma example_tells: "tells_key example_key_reader (\<lambda>_. example_key) (\<lambda>_ _ _. Inr example_reply) nft"
proof -
  have "k = example_key"
    if result: "get_trustee_pubkey example_key_reader (\<lambda>_ _ _. Inr example_reply) nft cl = Some (cl', Inr k)" for cl cl' k
  proof -
    from result obtain r where r: "view_raw example_key_reader (\<lambda>_ _ _. Inr example_reply) ''nft'' ''get_trustee_pubkey'' []
        [JString (u64_str nft)] cl = Some (cl', r)" "res_bind r key_of_view = Inr k"
      by (auto simp: get_trustee_pubkey_def)
    from r(2) obtain j where j: "r = Inr j" "key_of_view j = Inr k" by (cases r) auto
    have "j = example_key_json"
      using view_attempts_result [OF r(1) [unfolded view_raw_def view_absolute_def Let_def j(1)]] example_key_verdict by simp
    then show ?thesis using j(2) example_key_of_view by simp
  qed
  then show ?thesis by (simp add: tells_key_def)
qed

lemma example_fetch:
  "get_trustee_pubkey example_key_reader (\<lambda>_ _ _. Inr example_reply) 7 example_client
     = Some (advanced 1 example_client, Inr example_key)"
proof -
  have "cl_max_retries example_client = Suc 2" "cl_endpoints example_client \<noteq> []"
    by (simp_all add: example_client_def client_new_def)
  then show ?thesis
    by (simp add: get_trustee_pubkey_def view_raw_def view_absolute_def next_endpoint_some example_key_verdict
        example_key_of_view numeral_3_eq_3)
qed

theorem pubkey_cache_transparent_witness:
  "\<exists>db cl. lookup_pubkey example_key_reader (\<lambda>_ _ _. Inr example_reply) 7 (create_schema no_storage, example_client)
       = Some ((db, cl), Inr example_key)
     \<and> lookup_pubkey example_key_reader (\<lambda>_ _ _. Inl ''refused'') 7 (db, cl) = Some ((db, cl), Inr example_key)"
proof -
  have none: "db_get_pubkey 7 (create_schema no_storage) = None"
    by (simp add: db_get_pubkey_def create_schema_def no_storage_def rows.get_empty)
  obtain db cl where looked: "lookup_pubkey example_key_reader (\<lambda>_ _ _. Inr example_reply) 7
      (create_schema no_storage, example_client) = Some ((db, cl), Inr example_key)"
    using none example_fetch by (simp add: lookup_pubkey_def example_key_def)
  have "lookup_pubkey example_key_reader (\<lambda>_ _ _. Inl ''refused'') 7 (db, cl) = Some ((db, cl), Inr example_key)"
    using pubkey_cache_transparent [where ops = "[]" and later = "[]", OF _ _ example_tells looked] by simp
  with looked show ?thesis by blast
qed

end
