(* ===== verification/SetupInput.thy ===== *)
theory SetupInput
  imports Config Keystore
begin

unbundle bit_operations_syntax

text \<open>
  The input and the output of the non-interactive setup (first half of
  \<open>crates/setup/src/noninteractive.rs\<close>): the schema of \<open>setup.json\<close> with its defaults, the pure
  validation of every field, the protection of the file that holds the password, and the result that
  is printed as JSON. Text is lowered and trimmed on ASCII, the only characters a valid field has.
  A field that wraps an error of another crate keeps the error; \<open>show\<close> is its \<open>Display\<close>.
\<close>

section \<open>Errors\<close>

datatype setup_error =
    ConfigErr config_error
  | KeystoreErr keystore_error
  | SetupChainErr string
  | UserDeclined
  | Aborted
  | IoErr string

section \<open>Schema\<close>

record mint_amounts =
  ma_emm :: u64
  ma_kay :: u64
  ma_tee :: u64

record withdrawal_input =
  wi_holding_period_days :: u64
  wi_rushed_withdrawal_enabled :: bool

record faucet_cfg =
  fc_auto_fund :: bool
  fc_min_balance_supra :: u64

record setup_config =
  sc_network :: string
  sc_payout_address :: string
  sc_sponsor_address :: "string option"
  sc_node_role :: string
  sc_keystore_password :: "string option"
  sc_mint_amounts :: mint_amounts
  sc_withdrawal_rules :: withdrawal_input
  sc_faucet :: faucet_cfg

definition default_network :: string where "default_network = ''testnet''"
definition default_node_role :: string where "default_node_role = ''trading''"
definition default_mint_amount :: u64 where "default_mint_amount = 50000"
definition default_holding_days :: u64 where "default_holding_days = 90"
definition default_true :: bool where "default_true = True"
definition default_faucet_min :: u64 where "default_faucet_min = 1000"

definition mint_amounts_default :: mint_amounts where
  "mint_amounts_default = \<lparr>ma_emm = default_mint_amount, ma_kay = default_mint_amount, ma_tee = default_mint_amount\<rparr>"

definition withdrawal_input_default :: withdrawal_input where
  "withdrawal_input_default =
     \<lparr>wi_holding_period_days = default_holding_days, wi_rushed_withdrawal_enabled = default_true\<rparr>"

definition faucet_cfg_default :: faucet_cfg where
  "faucet_cfg_default = \<lparr>fc_auto_fund = default_true, fc_min_balance_supra = default_faucet_min\<rparr>"

definition mint_amounts_of_json :: "json \<Rightarrow> mint_amounts option" where
  "mint_amounts_of_json j =
     Option.bind (field_or default_mint_amount as_word ''emm'' j) (\<lambda>a.
     Option.bind (field_or default_mint_amount as_word ''kay'' j) (\<lambda>b.
     Option.bind (field_or default_mint_amount as_word ''tee'' j) (\<lambda>c.
       Some \<lparr>ma_emm = a, ma_kay = b, ma_tee = c\<rparr>)))"

definition withdrawal_input_of_json :: "json \<Rightarrow> withdrawal_input option" where
  "withdrawal_input_of_json j =
     Option.bind (field_or default_holding_days as_word ''holding_period_days'' j) (\<lambda>a.
     Option.bind (field_or default_true as_bool ''rushed_withdrawal_enabled'' j) (\<lambda>b.
       Some \<lparr>wi_holding_period_days = a, wi_rushed_withdrawal_enabled = b\<rparr>))"

definition faucet_cfg_of_json :: "json \<Rightarrow> faucet_cfg option" where
  "faucet_cfg_of_json j =
     Option.bind (field_or default_true as_bool ''auto_fund'' j) (\<lambda>a.
     Option.bind (field_or default_faucet_min as_word ''min_balance_supra'' j) (\<lambda>b.
       Some \<lparr>fc_auto_fund = a, fc_min_balance_supra = b\<rparr>))"

definition setup_config_of_json :: "json \<Rightarrow> setup_config option" where
  "setup_config_of_json j =
     Option.bind (field_or default_network as_str ''network'' j) (\<lambda>network.
     Option.bind (field as_str ''payout_address'' j) (\<lambda>payout.
     Option.bind (field_or None (as_optional as_str) ''sponsor_address'' j) (\<lambda>sponsor.
     Option.bind (field_or default_node_role as_str ''node_role'' j) (\<lambda>role.
     Option.bind (field_or None (as_optional as_str) ''keystore_password'' j) (\<lambda>password.
     Option.bind (field_or mint_amounts_default mint_amounts_of_json ''mint_amounts'' j) (\<lambda>mint.
     Option.bind (field_or withdrawal_input_default withdrawal_input_of_json ''withdrawal_rules'' j) (\<lambda>rules.
     Option.bind (field_or faucet_cfg_default faucet_cfg_of_json ''faucet'' j) (\<lambda>faucet.
       Some \<lparr>sc_network = network, sc_payout_address = payout, sc_sponsor_address = sponsor, sc_node_role = role,
         sc_keystore_password = password, sc_mint_amounts = mint, sc_withdrawal_rules = rules,
         sc_faucet = faucet\<rparr>))))))))"

text \<open>\<open>load_setup_config\<close>: the file at \<open>path\<close>, unreadable or with contents.\<close>

definition load_setup_config ::
  "(string \<Rightarrow> json option) \<Rightarrow> (string \<Rightarrow> string) \<Rightarrow> string \<Rightarrow> string + string \<Rightarrow> setup_error + setup_config" where
  "load_setup_config parse json_error path contents =
     (case contents of
        Inl e \<Rightarrow> Inl (IoErr (''read '' @ path @ '': '' @ e))
      | Inr body \<Rightarrow>
          ok_or (IoErr (''parse '' @ path @ '': '' @ json_error body))
            (Option.bind (parse body) setup_config_of_json))"

section \<open>Result\<close>

datatype setup_mode = Fresh | ConfigWithKeystore | Restore

record escrow_balances =
  eb_emm :: u64
  eb_kay :: u64
  eb_tee :: u64

definition escrow_balances_default :: escrow_balances where
  "escrow_balances_default = \<lparr>eb_emm = 0, eb_kay = 0, eb_tee = 0\<rparr>"

record setup_result =
  sr_success :: bool
  sr_mode :: setup_mode
  sr_nft_id :: "u64 option"
  sr_trustee_address :: "string option"
  sr_payout_address :: "string option"
  sr_sponsor_address :: "string option"
  sr_network :: string
  sr_node_role :: string
  sr_escrow_balances :: "escrow_balances option"
  sr_gas_balance_supra :: "u64 option"
  sr_steps_performed :: "string list"
  sr_steps_skipped :: "string list"
  sr_warnings :: "string list"
  sr_error :: "(setup_error + string) option"
  sr_step :: "string option"

definition fresh_in_progress :: "string \<Rightarrow> string \<Rightarrow> setup_result" where
  "fresh_in_progress network role =
     \<lparr>sr_success = False, sr_mode = Fresh, sr_nft_id = None, sr_trustee_address = None, sr_payout_address = None,
      sr_sponsor_address = None, sr_network = network, sr_node_role = role, sr_escrow_balances = None,
      sr_gas_balance_supra = None, sr_steps_performed = [], sr_steps_skipped = [], sr_warnings = [],
      sr_error = None, sr_step = None\<rparr>"

definition fail_result :: "string \<Rightarrow> setup_error + string \<Rightarrow> setup_result \<Rightarrow> setup_result" where
  "fail_result step e r = r\<lparr>sr_success := False, sr_step := Some step, sr_error := Some e\<rparr>"

definition with_mode :: "setup_mode \<Rightarrow> setup_result \<Rightarrow> setup_result" where
  "with_mode mode r = r\<lparr>sr_mode := mode\<rparr>"

definition performed :: "string \<Rightarrow> setup_result \<Rightarrow> setup_result" where
  "performed step r = r\<lparr>sr_steps_performed := sr_steps_performed r @ [step]\<rparr>"

definition skipped :: "string \<Rightarrow> setup_result \<Rightarrow> setup_result" where
  "skipped step r = r\<lparr>sr_steps_skipped := sr_steps_skipped r @ [step]\<rparr>"

definition warned :: "string \<Rightarrow> setup_result \<Rightarrow> setup_result" where
  "warned text r = r\<lparr>sr_warnings := sr_warnings r @ [text]\<rparr>"

definition mode_name :: "setup_mode \<Rightarrow> string" where
  "mode_name m = (case m of Fresh \<Rightarrow> ''fresh'' | ConfigWithKeystore \<Rightarrow> ''config_with_keystore'' | Restore \<Rightarrow> ''restore'')"

text \<open>A field that serde leaves out when it is empty.\<close>

definition optional_field :: "string \<Rightarrow> ('a \<Rightarrow> json) \<Rightarrow> 'a option \<Rightarrow> (string \<times> json) list" where
  "optional_field k f x = (case x of None \<Rightarrow> [] | Some v \<Rightarrow> [(k, f v)])"

definition escrow_balances_json :: "escrow_balances \<Rightarrow> json" where
  "escrow_balances_json b = JObject [(''emm'', jnum (eb_emm b)), (''kay'', jnum (eb_kay b)), (''tee'', jnum (eb_tee b))]"

definition setup_result_json :: "(setup_error \<Rightarrow> string) \<Rightarrow> setup_result \<Rightarrow> json" where
  "setup_result_json show r = JObject (
     [(''success'', JBool (sr_success r)), (''mode'', JString (mode_name (sr_mode r)))]
     @ optional_field ''nft_id'' jnum (sr_nft_id r)
     @ optional_field ''trustee_address'' JString (sr_trustee_address r)
     @ optional_field ''payout_address'' JString (sr_payout_address r)
     @ optional_field ''sponsor_address'' JString (sr_sponsor_address r)
     @ [(''network'', JString (sr_network r)), (''node_role'', JString (sr_node_role r))]
     @ optional_field ''escrow_balances'' escrow_balances_json (sr_escrow_balances r)
     @ optional_field ''gas_balance_supra'' jnum (sr_gas_balance_supra r)
     @ [(''steps_performed'', jstrs (sr_steps_performed r)), (''steps_skipped'', jstrs (sr_steps_skipped r)),
        (''warnings'', jstrs (sr_warnings r))]
     @ optional_field ''error'' (\<lambda>e. JString (case e of Inl x \<Rightarrow> show x | Inr text \<Rightarrow> text)) (sr_error r)
     @ optional_field ''step'' JString (sr_step r))"

section \<open>Validation\<close>

definition char_lower :: "char \<Rightarrow> char" where
  "char_lower c = (let n = of_char c :: nat in if 65 \<le> n \<and> n \<le> 90 then char_of (n + 32) else c)"

definition to_lower :: "string \<Rightarrow> string" where
  "to_lower s = map char_lower s"

definition in_quotes :: "string \<Rightarrow> string" where
  "in_quotes s = CHR 0x27 # s @ [CHR 0x27]"

definition validate_address :: "string \<Rightarrow> setup_error + string" where
  "validate_address addr =
     (let lower = to_lower (trim addr) in
      if \<not> starts_with ''0x'' lower then Inl (IoErr ''address must start with 0x'')
      else if length lower < 10 then Inl (IoErr ''address too short (need at least 8 hex chars after 0x)'')
      else if \<not> list_all (\<lambda>c. hex_digit c \<noteq> None) (drop 2 lower)
      then Inl (IoErr ''address contains non-hex characters after 0x'')
      else Inr lower)"

definition validate_password :: "string \<Rightarrow> setup_error + unit" where
  "validate_password password =
     (if length password < 8 then Inl (IoErr ''keystore_password must be at least 8 characters'') else Inr ())"

definition validate_network :: "string \<Rightarrow> setup_error + network" where
  "validate_network text =
     (let n = to_lower text in
      if n = ''testnet'' then Inr Testnet
      else if n = ''mainnet'' then Inr Mainnet
      else Inl (IoErr (''invalid network '' @ in_quotes n @ '': expected '' @ in_quotes ''testnet'' @ '' or ''
             @ in_quotes ''mainnet'')))"

text \<open>The role: true for a bootstrap node.\<close>

definition validate_node_role :: "string \<Rightarrow> setup_error + bool" where
  "validate_node_role text =
     (let r = to_lower text in
      if r = ''trading'' then Inr False
      else if r = ''bootstrap'' then Inr True
      else Inl (IoErr (''invalid node_role '' @ in_quotes r @ '': expected '' @ in_quotes ''trading'' @ '' or ''
             @ in_quotes ''bootstrap'')))"

definition validate_mint_amounts :: "mint_amounts \<Rightarrow> setup_error + unit" where
  "validate_mint_amounts a =
     (if ma_emm a = 0 \<or> ma_kay a = 0 \<or> ma_tee a = 0
      then Inl (IoErr ''mint_amounts: all three (emm, kay, tee) must be > 0'') else Inr ())"

definition validate_withdrawal_rules :: "withdrawal_input \<Rightarrow> setup_error + unit" where
  "validate_withdrawal_rules w =
     (if wi_holding_period_days w = 0 \<or> 367 < wi_holding_period_days w
      then Inl (IoErr (''withdrawal_rules.holding_period_days must be in 1..=367, got ''
                 @ u64_str (wi_holding_period_days w)))
      else Inr ())"

record validated_setup =
  vs_network :: network
  vs_payout_address :: string
  vs_sponsor_address :: "string option"
  vs_bootstrap_only :: bool
  vs_mint_amounts :: mint_amounts
  vs_withdrawal_rules :: withdrawal_input
  vs_faucet :: faucet_cfg

definition validate_sponsor :: "string option \<Rightarrow> setup_error + string option" where
  "validate_sponsor sponsor =
     (case sponsor of
        None \<Rightarrow> Inr None
      | Some s \<Rightarrow> if trim s = [] then Inr None else res_bind (validate_address s) (\<lambda>a. Inr (Some a)))"

definition validate_common :: "setup_config \<Rightarrow> setup_error + validated_setup" where
  "validate_common cfg =
     res_bind (validate_network (sc_network cfg)) (\<lambda>network.
     res_bind (validate_address (sc_payout_address cfg)) (\<lambda>payout.
     res_bind (validate_node_role (sc_node_role cfg)) (\<lambda>bootstrap.
     res_bind (validate_sponsor (sc_sponsor_address cfg)) (\<lambda>sponsor.
     res_bind (validate_mint_amounts (sc_mint_amounts cfg)) (\<lambda>_.
     res_bind (validate_withdrawal_rules (sc_withdrawal_rules cfg)) (\<lambda>_.
       Inr \<lparr>vs_network = network, vs_payout_address = payout, vs_sponsor_address = sponsor,
            vs_bootstrap_only = bootstrap, vs_mint_amounts = sc_mint_amounts cfg,
            vs_withdrawal_rules = sc_withdrawal_rules cfg, vs_faucet = sc_faucet cfg\<rparr>))))))"

definition validate_for_fresh_setup :: "setup_config \<Rightarrow> setup_error + validated_setup \<times> string" where
  "validate_for_fresh_setup cfg =
     res_bind (validate_common cfg) (\<lambda>v.
     res_bind (ok_or (IoErr ''keystore_password is required for fresh setup (MR1a). For LLM-assisted (existing keystore) the password comes from an interactive prompt -- omit this field and the node will ask.'')
                 (sc_keystore_password cfg)) (\<lambda>password.
     res_bind (validate_password password) (\<lambda>_. Inr (v, password))))"

definition validate_for_llm_assisted :: "setup_config \<Rightarrow> setup_error + validated_setup" where
  "validate_for_llm_assisted cfg =
     (if sc_keystore_password cfg \<noteq> None
      then Inl (IoErr ''MR1b (LLM-assisted) rejects setup.json that contains keystore_password. The LLM-safe path requires the operator to type the password interactively. Remove the field from the config (or use MR1a fresh setup if you intentionally want password-on-disk).'')
      else validate_common cfg)"

section \<open>The file with the password\<close>

text \<open>Octal digits, as \<open>{:o}\<close> prints them.\<close>

fun oct_str :: "nat \<Rightarrow> string" where
  "oct_str n = (if n < 8 then [digit_char n] else oct_str (n div 8) @ [digit_char (n mod 8)])"

declare oct_str.simps [simp del]

text \<open>The mode bits of the file, or why they cannot be read (on Unix).\<close>

definition enforce_setup_config_permissions :: "string \<Rightarrow> string + u32 \<Rightarrow> setup_error + unit" where
  "enforce_setup_config_permissions path md =
     (case md of
        Inl e \<Rightarrow> Inl (IoErr (''stat '' @ path @ '': '' @ e))
      | Inr bits \<Rightarrow>
         (let mode = bits AND 0x1FF in
          if mode \<noteq> 0x180
          then Inl (IoErr (path @ '' contains keystore_password but permissions are 0o'' @ oct_str (unat mode)
                 @ '' (must be 0o600). Run: chmod 600 '' @ path))
          else Inr ()))"

text \<open>
  The new contents of the file, \<open>None\<close> when it is left as it is. \<open>written\<close> says how the write ends; it
  happens only when there is something to write.
\<close>

definition scrub_password_from_setup_file ::
  "(string \<Rightarrow> json option) \<Rightarrow> (json \<Rightarrow> string) \<Rightarrow> (string \<Rightarrow> string) \<Rightarrow> string \<Rightarrow> string + string \<Rightarrow> string + unit
    \<Rightarrow> setup_error + string option" where
  "scrub_password_from_setup_file parse print json_error path contents written =
     (case contents of
        Inl e \<Rightarrow> Inl (IoErr (''read '' @ path @ '' for scrub: '' @ e))
      | Inr body \<Rightarrow>
         (case parse body of
            None \<Rightarrow> Inl (IoErr (''parse '' @ path @ '' for scrub: '' @ json_error body))
          | Some (JObject kvs) \<Rightarrow>
              if map_of kvs ''keystore_password'' = None then Inr None
              else (case written of
                      Inl e \<Rightarrow> Inl (IoErr (''write scrubbed '' @ path @ '': '' @ e))
                    | Inr _ \<Rightarrow> Inr (Some (print (JObject (filter (\<lambda>(k, v). k \<noteq> ''keystore_password'') kvs)))))
          | Some _ \<Rightarrow> Inl (IoErr (path @ '' is not a JSON object''))))"

end
