(* ===== verification/SetupWorld.thy ===== *)
theory SetupWorld
  imports SetupInput
begin

text \<open>
  The world of the setup (\<open>crates/setup/src/lib.rs\<close>): the traits \<open>ChainClient\<close> and \<open>WizardIO\<close>, the clock,
  the random generator and the two files it keeps. A session logs every call the setup makes, in
  order; the answer to a call may depend on all the calls before it, so the chain behind the trait can
  change between any two of them. An action runs on a session and ends with a result; \<open>None\<close> is an
  action that never returns. Text printed for the operator is left out.
\<close>

section \<open>Calls\<close>

record wallet_token =
  tk_symbol :: string
  tk_amount :: u64
  tk_metadata_address :: string

record wallet_balance =
  wb_supra :: u64
  wb_tokens :: "wallet_token list"

record nft_config_info =
  nc_burn_cooldown_seconds :: u64
  nc_admin :: string

record tx_result_info =
  ti_success :: bool
  ti_gas_used :: u64
  ti_vm_status :: string
  ti_tx_hash :: string

datatype existing_nft = Found u64 | NotFound

text \<open>Transactions of \<open>ChainClient\<close>, its other calls, and what else the setup does outside.\<close>

datatype chain_tx =
    SubmitMint bytes string
  | SubmitRegister u64 u64 bool
  | SubmitDeposit string u64
  | SubmitRequestMint u64 u64 u64
  | SubmitClaimMint
  | SubmitBurnFromEscrow u64
  | SubmitBurnForProfit u64 string
  | SubmitLockFromEscrow u8 u64 u64
  | SubmitUnlockToEscrow u64
  | SubmitDonateDust u64 u8 u64
  | SubmitRequestRushedWithdrawal u64
  | SubmitCancelRushedWithdrawal u64
  | SubmitRushedWithdrawalAsSupra u64 string
  | SubmitStartHoldingPeriod u64
  | SubmitCancelHoldingPeriod u64
  | SubmitClaimAllAsSupra u64 string
  | SubmitBurnTrusteeNft u64 string

datatype chain_query =
    GetNftId string
  | GetMintFee
  | GetTotalMinted
  | GetFaBalance string
  | GetEscrowBalance u64 string

datatype effect =
    Submit chain_tx
  | Query chain_query
  | GetAllBalances string
  | IsTrustee string
  | GetNftConfig
  | GetTrippplesMetadata u8
  | GetNftMintState string
  | GetPendingMintClaimableAt string
  | SetSigner bytes bytes string
  | ReadLine
  | Sleep nat
  | Now
  | NewKeypair
  | NewToken
  | WriteKeystore
  | WriteConfig

text \<open>What the world answers, given the calls before this one. A failed write says what it left in the file.\<close>

record outside =
  ou_submit :: "effect list \<Rightarrow> chain_tx \<Rightarrow> setup_error + tx_result_info"
  ou_query :: "effect list \<Rightarrow> chain_query \<Rightarrow> setup_error + u64"
  ou_balances :: "effect list \<Rightarrow> string \<Rightarrow> setup_error + wallet_balance"
  ou_is_trustee :: "effect list \<Rightarrow> string \<Rightarrow> setup_error + bool"
  ou_nft_config :: "effect list \<Rightarrow> setup_error + nft_config_info"
  ou_metadata :: "effect list \<Rightarrow> u8 \<Rightarrow> setup_error + string"
  ou_mint_state :: "effect list \<Rightarrow> string \<Rightarrow> setup_error + bool \<times> bool"
  ou_claimable_at :: "effect list \<Rightarrow> string \<Rightarrow> setup_error + u64 option"
  ou_line :: "effect list \<Rightarrow> setup_error + string"
  ou_interrupted :: "effect list \<Rightarrow> bool"
  ou_now :: "effect list \<Rightarrow> u64"
  ou_keypair :: "effect list \<Rightarrow> bytes \<times> bytes"
  ou_token :: "effect list \<Rightarrow> string"
  ou_salt_nonce :: "effect list \<Rightarrow> bytes \<times> bytes"
  ou_write :: "effect list \<Rightarrow> (string \<times> stored_file) + unit"

text \<open>The third-party functions the setup uses.\<close>

record toolbox =
  tb_crypto :: crypto
  tb_vault :: vault
  tb_sha3 :: "bytes \<Rightarrow> bytes"
  tb_parse :: "string \<Rightarrow> json option"
  tb_print :: "json \<Rightarrow> string"
  tb_show :: "setup_error \<Rightarrow> string"

record session =
  ss_trace :: "effect list"
  ss_keystore :: stored_file
  ss_config :: stored_file

section \<open>Actions\<close>

type_synonym 'a act = "session \<Rightarrow> (session \<times> (setup_error + 'a)) option"

definition give :: "'a \<Rightarrow> 'a act" where
  "give x s = Some (s, Inr x)"

definition abort_with :: "setup_error \<Rightarrow> 'a act" where
  "abort_with e s = Some (s, Inl e)"

text \<open>\<open>?\<close>: go on with the result, or return the error.\<close>

definition act_bind :: "'a act \<Rightarrow> ('a \<Rightarrow> 'b act) \<Rightarrow> 'b act" where
  "act_bind m f s = Option.bind (m s) (\<lambda>(s', r). case r of Inl e \<Rightarrow> Some (s', Inl e) | Inr x \<Rightarrow> f x s')"

text \<open>\<open>match\<close> on the result of a call: the continuation sees the error too.\<close>

definition act_try :: "'a act \<Rightarrow> (setup_error + 'a \<Rightarrow> 'b act) \<Rightarrow> 'b act" where
  "act_try m f s = Option.bind (m s) (\<lambda>(s', r). f r s')"

definition result_or :: "'a \<Rightarrow> 'a act \<Rightarrow> 'a act" where
  "result_or d m = act_try m (\<lambda>r. give (case r of Inl _ \<Rightarrow> d | Inr x \<Rightarrow> x))"

text \<open>One call: it is logged, and answered from what was logged before.\<close>

definition call :: "effect \<Rightarrow> (effect list \<Rightarrow> setup_error + 'a) \<Rightarrow> 'a act" where
  "call e answer s = Some (s\<lparr>ss_trace := ss_trace s @ [e]\<rparr>, answer (ss_trace s))"

definition submit :: "outside \<Rightarrow> chain_tx \<Rightarrow> tx_result_info act" where
  "submit W tx = call (Submit tx) (\<lambda>h. ou_submit W h tx)"

definition query :: "outside \<Rightarrow> chain_query \<Rightarrow> u64 act" where
  "query W q = call (Query q) (\<lambda>h. ou_query W h q)"

definition get_all_balances :: "outside \<Rightarrow> string \<Rightarrow> wallet_balance act" where
  "get_all_balances W address = call (GetAllBalances address) (\<lambda>h. ou_balances W h address)"

definition is_trustee :: "outside \<Rightarrow> string \<Rightarrow> bool act" where
  "is_trustee W address = call (IsTrustee address) (\<lambda>h. ou_is_trustee W h address)"

definition get_trippples_metadata :: "outside \<Rightarrow> u8 \<Rightarrow> string act" where
  "get_trippples_metadata W symbol = call (GetTrippplesMetadata symbol) (\<lambda>h. ou_metadata W h symbol)"

definition get_nft_mint_state :: "outside \<Rightarrow> string \<Rightarrow> (bool \<times> bool) act" where
  "get_nft_mint_state W address = call (GetNftMintState address) (\<lambda>h. ou_mint_state W h address)"

definition get_pending_mint_claimable_at :: "outside \<Rightarrow> string \<Rightarrow> u64 option act" where
  "get_pending_mint_claimable_at W address =
     call (GetPendingMintClaimableAt address) (\<lambda>h. ou_claimable_at W h address)"

definition set_signer :: "bytes \<Rightarrow> bytes \<Rightarrow> string \<Rightarrow> unit act" where
  "set_signer secret public address = call (SetSigner secret public address) (\<lambda>_. Inr ())"

definition read_line :: "outside \<Rightarrow> string act" where
  "read_line W = call ReadLine (ou_line W)"

definition system_now :: "outside \<Rightarrow> u64 act" where
  "system_now W = call Now (\<lambda>h. Inr (ou_now W h))"

text \<open>\<open>cancellable_sleep\<close> ends with an error on Ctrl+C; \<open>tokio::time::sleep\<close> always ends.\<close>

definition cancellable_sleep :: "outside \<Rightarrow> nat \<Rightarrow> unit act" where
  "cancellable_sleep W secs = call (Sleep secs) (\<lambda>h. if ou_interrupted W h then Inl Aborted else Inr ())"

definition plain_sleep :: "nat \<Rightarrow> unit act" where
  "plain_sleep secs = call (Sleep secs) (\<lambda>_. Inr ())"

definition generate_strategy_auth_token :: "outside \<Rightarrow> string act" where
  "generate_strategy_auth_token W = call NewToken (\<lambda>h. Inr (ou_token W h))"

definition generate_keypair :: "outside \<Rightarrow> (bytes \<times> bytes) act" where
  "generate_keypair W = call NewKeypair (\<lambda>h. Inr (ou_keypair W h))"

section \<open>Files\<close>

definition write_keystore :: "toolbox \<Rightarrow> outside \<Rightarrow> bytes \<Rightarrow> bytes \<Rightarrow> string \<Rightarrow> unit act" where
  "write_keystore T W secret public password s =
     (let (salt, nonce) = ou_salt_nonce W (ss_trace s) in
      case save_keystore (tb_crypto T) (tb_vault T) salt nonce (tb_print T) secret public password of
        Inl e \<Rightarrow> Some (s, Inl (KeystoreErr e))
      | Inr file \<Rightarrow>
          (case ou_write W (ss_trace s) of
             Inl (e, left) \<Rightarrow> Some (s\<lparr>ss_trace := ss_trace s @ [WriteKeystore], ss_keystore := left\<rparr>,
                                   Inl (KeystoreErr (KsIoError e)))
           | Inr _ \<Rightarrow> Some (s\<lparr>ss_trace := ss_trace s @ [WriteKeystore], ss_keystore := file\<rparr>, Inr ())))"

definition open_keystore :: "toolbox \<Rightarrow> string \<Rightarrow> (bytes \<times> bytes) act" where
  "open_keystore T password s =
     map_option (\<lambda>r. (s, map_err KeystoreErr r))
       (load_keystore (tb_crypto T) (tb_vault T) (tb_parse T) (ss_keystore s) password)"

definition write_config :: "toolbox \<Rightarrow> outside \<Rightarrow> node_settings \<Rightarrow> unit act" where
  "write_config T W settings s =
     (case ou_write W (ss_trace s) of
        Inl (e, left) \<Rightarrow> Some (s\<lparr>ss_trace := ss_trace s @ [WriteConfig], ss_config := left\<rparr>,
                              Inl (ConfigErr (ConfigIoError e)))
      | Inr _ \<Rightarrow> Some (s\<lparr>ss_trace := ss_trace s @ [WriteConfig],
                         ss_config := Some (Inr (save_settings (tb_print T) settings))\<rparr>, Inr ()))"

definition derive_trustee_address :: "toolbox \<Rightarrow> bytes \<Rightarrow> string" where
  "derive_trustee_address T public = ''0x'' @ hex_encode (tb_sha3 T (public @ [0]))"

section \<open>Reasoning about actions\<close>

lemma act_bind_Some:
  "act_bind m f s = Some (s', r) \<longleftrightarrow>
     (\<exists>u q. m s = Some (u, q) \<and> (case q of Inl e \<Rightarrow> s' = u \<and> r = Inl e | Inr x \<Rightarrow> f x u = Some (s', r)))"
  by (auto simp: act_bind_def bind_eq_Some_conv split: sum.splits)

lemma act_try_Some: "act_try m f s = Some (s', r) \<longleftrightarrow> (\<exists>u q. m s = Some (u, q) \<and> f q u = Some (s', r))"
  by (auto simp: act_try_def bind_eq_Some_conv)

lemma act_bind_mono [partial_function_mono]:
  assumes "\<And>x u. mono_option (\<lambda>f. g f x u)"
  shows "mono_option (\<lambda>f. act_bind m (g f) s)"
  unfolding act_bind_def
proof (rule bind_mono)
  show "mono_option (\<lambda>f. m s)" by (rule option.const_mono)
  show "mono_option (\<lambda>f. case y of (s', r) \<Rightarrow> case r of Inl e \<Rightarrow> Some (s', Inl e) | Inr x \<Rightarrow> g f x s')" for y
    using assms by (cases y; cases "snd y") (auto intro: option.const_mono)
qed

text \<open>
  \<open>stays A m\<close>: whenever \<open>m\<close> ends, it has made calls of \<open>A\<close> only, the log before it is as it was, and a
  file that \<open>A\<close> has no write to is as it was. It follows the structure of the action; \<open>m\<close> may end with
  a result of any type.
\<close>

named_theorems stays

definition within :: "effect set \<Rightarrow> session \<Rightarrow> session \<Rightarrow> bool" where
  "within A s s' \<longleftrightarrow> (\<exists>t. ss_trace s' = ss_trace s @ t \<and> set t \<subseteq> A)
     \<and> (WriteKeystore \<notin> A \<longrightarrow> ss_keystore s' = ss_keystore s) \<and> (WriteConfig \<notin> A \<longrightarrow> ss_config s' = ss_config s)"

lemma within_refl [simp]: "within A s s"
  by (simp add: within_def)

lemma within_trans: "within A s t \<Longrightarrow> within A t u \<Longrightarrow> within A s u"
  unfolding within_def by (metis append.assoc le_sup_iff set_append)

lemma within_mono: "within A s t \<Longrightarrow> A \<subseteq> B \<Longrightarrow> within B s t"
  unfolding within_def by (meson order_trans subsetD)

definition stays :: "effect set \<Rightarrow> (session \<Rightarrow> (session \<times> 'r) option) \<Rightarrow> bool" where
  "stays A m \<longleftrightarrow> (\<forall>s s' r. m s = Some (s', r) \<longrightarrow> within A s s')"

lemma staysI: "(\<And>s s' r. m s = Some (s', r) \<Longrightarrow> within A s s') \<Longrightarrow> stays A m"
  by (simp add: stays_def)

lemma staysD: "stays A m \<Longrightarrow> m s = Some (s', r) \<Longrightarrow> within A s s'"
  by (simp add: stays_def)

lemma stays_mono: "stays A m \<Longrightarrow> A \<subseteq> B \<Longrightarrow> stays B m"
  unfolding stays_def using within_mono by blast

lemma stays_give [stays]: "stays A (give x)"
  by (simp add: stays_def give_def)

lemma stays_abort [stays]: "stays A (abort_with e)"
  by (simp add: stays_def abort_with_def)

lemma stays_call: "e \<in> A \<Longrightarrow> stays A (call e f)"
  by (simp add: stays_def call_def within_def)

lemma stays_bind [stays]:
  assumes "stays A m" and "\<And>x. stays A (f x)"
  shows "stays A (act_bind m f)"
proof (rule staysI)
  fix s s' r
  assume "act_bind m f s = Some (s', r)"
  then obtain u q where u: "m s = Some (u, q)"
    and q: "case q of Inl e \<Rightarrow> s' = u \<and> r = Inl e | Inr x \<Rightarrow> f x u = Some (s', r)"
    by (auto simp: act_bind_Some)
  have su: "within A s u" using assms(1) u by (rule staysD)
  show "within A s s'"
  proof (cases q)
    case (Inr x)
    then have "within A u s'" using q staysD [OF assms(2)] by simp
    with su show ?thesis by (rule within_trans)
  qed (use q su in simp)
qed

lemma stays_try [stays]:
  assumes "stays A m" and "\<And>x. stays A (f x)"
  shows "stays A (act_try m f)"
proof (rule staysI)
  fix s s' r
  assume "act_try m f s = Some (s', r)"
  then obtain u q where u: "m s = Some (u, q)" "f q u = Some (s', r)" by (auto simp: act_try_Some)
  show "within A s s'" by (rule within_trans [OF staysD [OF assms(1) u(1)] staysD [OF assms(2) u(2)]])
qed

lemma stays_result_or [stays]: "stays A m \<Longrightarrow> stays A (result_or d m)"
  unfolding result_or_def by (intro stays)

lemma stays_calls [stays]:
  "Submit tx \<in> A \<Longrightarrow> stays A (submit W tx)"
  "Query q \<in> A \<Longrightarrow> stays A (query W q)"
  "GetAllBalances a \<in> A \<Longrightarrow> stays A (get_all_balances W a)"
  "IsTrustee a \<in> A \<Longrightarrow> stays A (is_trustee W a)"
  "GetTrippplesMetadata y \<in> A \<Longrightarrow> stays A (get_trippples_metadata W y)"
  "GetNftMintState a \<in> A \<Longrightarrow> stays A (get_nft_mint_state W a)"
  "GetPendingMintClaimableAt a \<in> A \<Longrightarrow> stays A (get_pending_mint_claimable_at W a)"
  "SetSigner k p a \<in> A \<Longrightarrow> stays A (set_signer k p a)"
  "ReadLine \<in> A \<Longrightarrow> stays A (read_line W)"
  "Now \<in> A \<Longrightarrow> stays A (system_now W)"
  "Sleep n \<in> A \<Longrightarrow> stays A (cancellable_sleep W n)"
  "Sleep n \<in> A \<Longrightarrow> stays A (plain_sleep n)"
  "NewToken \<in> A \<Longrightarrow> stays A (generate_strategy_auth_token W)"
  "NewKeypair \<in> A \<Longrightarrow> stays A (generate_keypair W)"
  by (simp_all add: stays_call submit_def query_def get_all_balances_def is_trustee_def get_trippples_metadata_def
      get_nft_mint_state_def get_pending_mint_claimable_at_def set_signer_def read_line_def system_now_def
      cancellable_sleep_def plain_sleep_def generate_strategy_auth_token_def generate_keypair_def)

lemma stays_if [stays]: "(b \<Longrightarrow> stays A m) \<Longrightarrow> (\<not> b \<Longrightarrow> stays A n) \<Longrightarrow> stays A (if b then m else n)"
  by simp

lemma stays_option [stays]:
  "stays A m \<Longrightarrow> (\<And>x. stays A (f x)) \<Longrightarrow> stays A (case y of None \<Rightarrow> m | Some x \<Rightarrow> f x)"
  by (simp split: option.split)

lemma stays_prod [stays]: "(\<And>a b. stays A (f a b)) \<Longrightarrow> stays A (case p of (a, b) \<Rightarrow> f a b)"
  by (simp split: prod.split)

lemma stays_nft [stays]:
  "(\<And>i. stays A (f i)) \<Longrightarrow> stays A n \<Longrightarrow> stays A (case y of Found i \<Rightarrow> f i | NotFound \<Rightarrow> n)"
  by (simp split: existing_nft.split)

lemma stays_sum [stays]:
  "(\<And>e. stays A (f e)) \<Longrightarrow> (\<And>x. stays A (g x)) \<Longrightarrow> stays A (case y of Inl e \<Rightarrow> f e | Inr x \<Rightarrow> g x)"
  by (simp split: sum.split)

lemma stays_let [stays]: "stays A (f x) \<Longrightarrow> stays A (let y = x in f y)"
  by (simp add: Let_def)

text \<open>The same below the binder of the session, as the waiting loops are written.\<close>

lemma stays_if_below [stays]:
  "(b \<Longrightarrow> stays A m) \<Longrightarrow> (\<not> b \<Longrightarrow> stays A n) \<Longrightarrow> stays A (\<lambda>u. if b then m u else n u)"
  by (cases b) simp_all

lemma stays_option_below [stays]:
  "stays A m \<Longrightarrow> (\<And>x. stays A (f x)) \<Longrightarrow> stays A (\<lambda>u. case y of None \<Rightarrow> m u | Some x \<Rightarrow> f x u)"
  by (cases y) simp_all

lemma stays_let_below [stays]: "stays A (\<lambda>u. g z u) \<Longrightarrow> stays A (\<lambda>u. let y = z in g y u)"
  by (simp add: Let_def)

lemma stays_open [stays]: "stays A (open_keystore T password)"
  by (auto simp: stays_def open_keystore_def)

lemma stays_write_keystore [stays]: "WriteKeystore \<in> A \<Longrightarrow> stays A (write_keystore T W secret public password)"
  by (auto simp: stays_def write_keystore_def within_def Let_def split: sum.splits prod.splits)

lemma stays_write_config [stays]: "WriteConfig \<in> A \<Longrightarrow> stays A (write_config T W settings)"
  by (auto simp: stays_def write_config_def within_def split: sum.splits prod.splits)

end
