(* ===== verification/SetupWizard.thy ===== *)
theory SetupWizard
  imports SetupWorld
begin

text \<open>
  The steps of the setup (\<open>crates/setup/src/lib.rs\<close>): prompts, key pair, funding, NFT, registration and
  first mint, and \<open>run_wizard\<close>, which strings them together. The prompts are the default ones of the trait
  \<open>WizardIO\<close>, over \<open>read_line\<close>; a loop that waits for the operator or the chain may wait for ever and is
  then \<open>None\<close>.
\<close>

section \<open>Prompts\<close>

partial_function (option) prompt_input ::
  "outside \<Rightarrow> string option \<Rightarrow> (string \<Rightarrow> bool) option \<Rightarrow> session \<Rightarrow> (session \<times> (setup_error + string)) option" where
  "prompt_input W dflt validate s =
     act_bind (read_line W) (\<lambda>raw u.
       let trimmed = trim raw;
           value = (if trimmed = [] then or_default [] dflt else trimmed)
       in case validate of
            None \<Rightarrow> give value u
          | Some ok \<Rightarrow> if ok value then give value u else prompt_input W dflt validate u) s"

definition trim_newlines :: "string \<Rightarrow> string" where
  "trim_newlines s = rev (dropWhile (\<lambda>c. c = char_of (10 :: nat) \<or> c = char_of (13 :: nat)) (rev s))"

partial_function (option) prompt_password ::
  "outside \<Rightarrow> bool \<Rightarrow> session \<Rightarrow> (session \<times> (setup_error + string)) option" where
  "prompt_password W with_confirm s =
     act_bind (read_line W) (\<lambda>first u.
       if \<not> with_confirm then give (trim_newlines first) u
       else act_bind (read_line W) (\<lambda>second v.
              if trim_newlines first = trim_newlines second then give (trim_newlines first) v
              else prompt_password W with_confirm v) u) s"

partial_function (option) prompt_select ::
  "outside \<Rightarrow> nat \<Rightarrow> nat \<Rightarrow> session \<Rightarrow> (session \<times> (setup_error + nat)) option" where
  "prompt_select W items default_idx s =
     act_bind (read_line W) (\<lambda>raw u.
       if trim raw = [] then give default_idx u
       else case parse_u64 (trim raw) of
              Some n \<Rightarrow> if 1 \<le> unat n \<and> unat n \<le> items then give (unat n - 1) u
                        else prompt_select W items default_idx u
            | None \<Rightarrow> prompt_select W items default_idx u) s"

partial_function (option) prompt_confirm ::
  "outside \<Rightarrow> bool \<Rightarrow> session \<Rightarrow> (session \<times> (setup_error + bool)) option" where
  "prompt_confirm W default_yes s =
     act_bind (read_line W) (\<lambda>raw u.
       let answer = to_lower (trim raw) in
       if answer = [] then give default_yes u
       else if answer = ''y'' \<or> answer = ''yes'' then give True u
       else if answer = ''n'' \<or> answer = ''no'' then give False u
       else prompt_confirm W default_yes u) s"

definition prompt_network :: "network act" where
  "prompt_network = give Testnet"

definition sponsor_ok :: "string \<Rightarrow> bool" where
  "sponsor_ok input =
     (let t = trim input in
      t \<noteq> [] \<and> \<not> (\<not> starts_with ''0x'' t \<or> length t < 10) \<and> \<not> (t = ''0x0'' \<or> t = ''0x00''))"

definition prompt_sponsor :: "outside \<Rightarrow> string \<Rightarrow> string act" where
  "prompt_sponsor W trustee_address =
     act_bind (prompt_input W (Some trustee_address) (Some sponsor_ok)) (\<lambda>s. give (trim s))"

definition payout_ok :: "string \<Rightarrow> bool" where
  "payout_ok input = (let t = trim input in t \<noteq> [] \<and> \<not> (\<not> starts_with ''0x'' t \<or> length t < 10))"

definition prompt_payout :: "outside \<Rightarrow> string act" where
  "prompt_payout W = act_bind (prompt_input W None (Some payout_ok)) (\<lambda>s. give (trim s))"

definition prompt_node_role :: "outside \<Rightarrow> bool act" where
  "prompt_node_role W = act_bind (prompt_select W 2 0) (\<lambda>choice. give (choice = 1))"

definition days_ok :: "string \<Rightarrow> bool" where
  "days_ok input = (case parse_u32 (trim input) of Some d \<Rightarrow> 1 \<le> d \<and> d \<le> 367 | None \<Rightarrow> False)"

definition prompt_withdrawal_config :: "outside \<Rightarrow> withdrawal_config act" where
  "prompt_withdrawal_config W =
     act_bind (prompt_input W (Some ''90'') (Some days_ok)) (\<lambda>days_str.
     act_bind (prompt_confirm W True) (\<lambda>rushed.
       give \<lparr>wc_holding_period_days = or_default 90 (parse_u32 (trim days_str)),
             wc_rushed_withdrawal_enabled = rushed\<rparr>))"

definition threshold_ok :: "string \<Rightarrow> bool" where
  "threshold_ok input = (trim input = [] \<or> (case parse_u32 (trim input) of Some n \<Rightarrow> n \<le> 1000 | None \<Rightarrow> False))"

definition profit_off :: profit_config where
  "profit_off = \<lparr>pf_base_capital = [], pf_threshold_pct = 0, pf_transfer_mode = ''all_excess'', pf_transfer_mode_value = None\<rparr>"

definition prompt_profit_config :: "outside \<Rightarrow> wallet_token list \<Rightarrow> profit_config act" where
  "prompt_profit_config W deposits =
     act_bind (prompt_input W None (Some threshold_ok)) (\<lambda>input.
       let trimmed = trim input in
       if trimmed = [] \<and> deposits = [] then give profit_off
       else
         give \<lparr>pf_base_capital = foldl (\<lambda>m t. hm_insert (tk_symbol t) (tk_amount t) m) [] deposits,
               pf_threshold_pct = (if trimmed = [] then 20 else or_default 20 (parse_u32 trimmed)),
               pf_transfer_mode = ''all_excess'', pf_transfer_mode_value = None\<rparr>)"

section \<open>Key pair\<close>

definition wizard_generate_keypair :: "toolbox \<Rightarrow> outside \<Rightarrow> (string \<times> bytes \<times> bytes) act" where
  "wizard_generate_keypair T W s =
     (let fresh = act_bind (generate_keypair W) (\<lambda>(secret, public).
                  act_bind (prompt_password W True) (\<lambda>password.
                  act_bind (write_keystore T W secret public (trim password)) (\<lambda>_.
                    give (derive_trustee_address T public, public, secret))))
      in if ss_keystore s \<noteq> None
         then act_bind (prompt_password W False) (\<lambda>password.
              act_try (open_keystore T (trim password)) (\<lambda>r. case r of
                Inr (secret, public) \<Rightarrow> give (derive_trustee_address T public, public, secret)
              | Inl e \<Rightarrow> fresh)) s
         else fresh s)"

section \<open>Funding\<close>

partial_function (option) wait_for_supra ::
  "outside \<Rightarrow> string \<Rightarrow> nat \<Rightarrow> session \<Rightarrow> (session \<times> (setup_error + u64)) option" where
  "wait_for_supra W address interval s =
     act_bind (get_all_balances W address) (\<lambda>balance u.
       if 0 < wb_supra balance \<or> wb_tokens balance \<noteq> [] then give (wb_supra balance) u
       else act_bind (cancellable_sleep W interval) (\<lambda>_ v. wait_for_supra W address interval v) u) s"

partial_function (option) wait_for_tokens ::
  "outside \<Rightarrow> string \<Rightarrow> nat \<Rightarrow> session \<Rightarrow> (session \<times> (setup_error + wallet_balance)) option" where
  "wait_for_tokens W address interval s =
     act_bind (get_all_balances W address) (\<lambda>balance u.
       if 0 < wb_supra balance \<and> wb_tokens balance \<noteq> [] then give balance u
       else act_bind (cancellable_sleep W interval) (\<lambda>_ v. wait_for_tokens W address interval v) u) s"

definition wait_for_funding :: "outside \<Rightarrow> string \<Rightarrow> network \<Rightarrow> nat \<Rightarrow> wallet_balance act" where
  "wait_for_funding W address network interval =
     act_bind (wait_for_supra W address interval) (\<lambda>supra.
       if network = Testnet then give \<lparr>wb_supra = supra, wb_tokens = []\<rparr>
       else wait_for_tokens W address interval)"

section \<open>NFT\<close>

definition check_existing_nft :: "outside \<Rightarrow> string \<Rightarrow> existing_nft act" where
  "check_existing_nft W address =
     act_bind (is_trustee W address) (\<lambda>t.
       if \<not> t then give NotFound
       else act_bind (query W (GetNftId address)) (\<lambda>nft_id. give (Found nft_id)))"

definition mint_nft_pair :: "outside \<Rightarrow> bytes \<Rightarrow> string \<Rightarrow> string \<Rightarrow> u64 act" where
  "mint_nft_pair W pubkey sponsor trustee_address =
     act_bind (query W GetMintFee) (\<lambda>_.
     act_bind (prompt_confirm W False) (\<lambda>accepted.
       if \<not> accepted then abort_with UserDeclined
       else
         act_bind (submit W (SubmitMint pubkey sponsor)) (\<lambda>result.
           if \<not> ti_success result then abort_with (SetupChainErr (ti_vm_status result))
           else query W (GetNftId trustee_address))))"

section \<open>Registration and deposit\<close>

fun deposit_all :: "outside \<Rightarrow> wallet_token list \<Rightarrow> unit act" where
  "deposit_all W [] = give ()"
| "deposit_all W (t # ts) =
     act_bind (submit W (SubmitDeposit (tk_metadata_address t) (tk_amount t))) (\<lambda>_. deposit_all W ts)"

definition register_and_deposit :: "outside \<Rightarrow> u64 \<Rightarrow> withdrawal_config \<Rightarrow> wallet_balance \<Rightarrow> unit act" where
  "register_and_deposit W nft_id withdrawal funding =
     act_bind (submit W (SubmitRegister nft_id (ucast (wc_holding_period_days withdrawal))
                            (wc_rushed_withdrawal_enabled withdrawal))) (\<lambda>reg.
       if \<not> ti_success reg \<and> \<not> (contains_str ''ALREADY_REGISTERED'' (ti_vm_status reg)
                                   \<or> contains_str ''E_ALREADY_REGISTERED'' (ti_vm_status reg))
       then abort_with (SetupChainErr (ti_vm_status reg))
       else deposit_all W (wb_tokens funding))"

section \<open>First mint\<close>

definition SUPRA_PER_TOKEN_UNIT :: u64 where "SUPRA_PER_TOKEN_UNIT = 100"
definition MINT_SUPRA_FRACTION_PCT :: u64 where "MINT_SUPRA_FRACTION_PCT = 70"

type_synonym metas = "string \<times> string \<times> string"

definition token_list :: "metas \<Rightarrow> u64 \<Rightarrow> u64 \<Rightarrow> u64 \<Rightarrow> wallet_token list" where
  "token_list m e k t = (case m of (me, mk, mt) \<Rightarrow>
     [\<lparr>tk_symbol = ''EMM'', tk_amount = e, tk_metadata_address = me\<rparr>,
      \<lparr>tk_symbol = ''KAY'', tk_amount = k, tk_metadata_address = mk\<rparr>,
      \<lparr>tk_symbol = ''TEE'', tk_amount = t, tk_metadata_address = mt\<rparr>])"

text \<open>Three balances, each zero when it cannot be read.\<close>

definition read_three :: "outside \<Rightarrow> (string \<Rightarrow> chain_query) \<Rightarrow> metas \<Rightarrow> (u64 \<times> u64 \<times> u64) act" where
  "read_three W q m = (case m of (me, mk, mt) \<Rightarrow>
     act_bind (result_or 0 (query W (q me))) (\<lambda>e.
     act_bind (result_or 0 (query W (q mk))) (\<lambda>k.
     act_bind (result_or 0 (query W (q mt))) (\<lambda>t. give (e, k, t)))))"

fun poll_escrow :: "nat \<Rightarrow> outside \<Rightarrow> u64 \<Rightarrow> metas \<Rightarrow> wallet_token list act" where
  "poll_escrow 0 W nft_id m =
     abort_with (SetupChainErr ''Claim succeeded but escrow not funded after 90s. Re-run setup.'')"
| "poll_escrow (Suc n) W nft_id m =
     act_bind (plain_sleep 3) (\<lambda>_.
     act_bind (read_three W (GetEscrowBalance nft_id) m) (\<lambda>(e, k, t).
       if 0 < e \<and> 0 < k \<and> 0 < t then give (token_list m e k t) else poll_escrow n W nft_id m))"

fun claim_loop :: "nat \<Rightarrow> outside \<Rightarrow> u64 \<Rightarrow> metas \<Rightarrow> wallet_token list act" where
  "claim_loop 0 W nft_id m =
     abort_with (SetupChainErr ''Timed out waiting for first mint claim. Re-run setup to try again.'')"
| "claim_loop (Suc n) W nft_id m =
     act_bind (cancellable_sleep W 10) (\<lambda>_.
     act_bind (submit W SubmitClaimMint) (\<lambda>claim.
       if ti_success claim then poll_escrow 30 W nft_id m
       else if contains_str ''HOLD_PERIOD_ACTIVE'' (ti_vm_status claim) then claim_loop n W nft_id m
       else if contains_str ''INSUFFICIENT_BALANCE_FOR_TRANSACTION_FEE'' (ti_vm_status claim)
       then abort_with (SetupChainErr ''Wallet out of gas. Fund the trustee address with more SUPRA and re-run setup.'')
       else claim_loop n W nft_id m))"

definition char_upper :: "char \<Rightarrow> char" where
  "char_upper c = (let n = of_char c :: nat in if 97 \<le> n \<and> n \<le> 122 then char_of (n - 32) else c)"

definition weighted_index :: "string \<Rightarrow> nat" where
  "weighted_index input =
     (let choice = map char_upper (trim input) in
      if choice = ''E'' \<or> choice = ''EMM'' then 0 else if choice = ''K'' \<or> choice = ''KAY'' then 1 else 2)"

text \<open>The split of the budget in 64-bit arithmetic; \<open>None\<close> is a budget too small.\<close>

definition mint_total :: "u64 \<Rightarrow> u64" where
  "mint_total supra_balance =
     (let available_supra = supra_balance * MINT_SUPRA_FRACTION_PCT div 100;
          total_base_units = available_supra div SUPRA_PER_TOKEN_UNIT
      in (total_base_units div 1000000) * 1000000)"

definition mint_split :: "u64 \<Rightarrow> nat \<Rightarrow> (u64 \<times> u64 \<times> u64) option" where
  "mint_split supra_balance weighted =
     (let total = mint_total supra_balance in
      if total < 1000000 then None
      else
       (let heavy = (total * 4 div 10 div 100000) * 100000;
            light = (total * 3 div 10 div 100000) * 100000;
            remainder = total - heavy - 2 * light;
            heavy' = heavy + remainder
        in Some (if weighted = 0 then (heavy', light, light)
                 else if weighted = 1 then (light, heavy', light) else (light, light, heavy'))))"

definition deposit_or_fail :: "outside \<Rightarrow> string \<Rightarrow> string \<Rightarrow> u64 \<Rightarrow> unit act" where
  "deposit_or_fail W symbol meta amount =
     act_bind (submit W (SubmitDeposit meta amount)) (\<lambda>d.
       if \<not> ti_success d then abort_with (SetupChainErr (symbol @ '' deposit failed: '' @ ti_vm_status d)) else give ())"

definition request_first_mint :: "outside \<Rightarrow> u64 \<Rightarrow> u64 \<Rightarrow> metas \<Rightarrow> bool \<Rightarrow> wallet_token list act" where
  "request_first_mint W supra_balance nft_id m first_mint_done =
     act_bind (read_line W) (\<lambda>input.
       case mint_split supra_balance (weighted_index input) of
         None \<Rightarrow> abort_with (SetupChainErr ''Insufficient SUPRA to mint. Fund with more SUPRA and try again.'')
       | Some (m_amount, k_amount, t_amount) \<Rightarrow>
           act_bind (submit W (SubmitRequestMint m_amount k_amount t_amount)) (\<lambda>mint.
             if \<not> ti_success mint then
               (if contains_str ''HAS_PENDING_MINT'' (ti_vm_status mint)
                   \<or> contains_str ''E_HAS_PENDING_MINT'' (ti_vm_status mint) then give []
                else abort_with (SetupChainErr (''Failed to request mint: '' @ ti_vm_status mint)))
             else if \<not> first_mint_done then claim_loop 60 W nft_id m
             else give []))"

definition settle_pending_mint :: "outside \<Rightarrow> u64 \<Rightarrow> metas \<Rightarrow> string \<Rightarrow> wallet_token list act" where
  "settle_pending_mint W nft_id m trustee_address =
     act_bind (result_or None (get_pending_mint_claimable_at W trustee_address)) (\<lambda>claimable_at.
     act_bind (system_now W) (\<lambda>now.
       case claimable_at of
         None \<Rightarrow> give []
       | Some at \<Rightarrow>
           if at \<le> now then
             act_bind (submit W SubmitClaimMint) (\<lambda>claim.
               if \<not> ti_success claim then abort_with (SetupChainErr (''Claim failed: '' @ ti_vm_status claim))
               else poll_escrow 30 W nft_id m)
           else give []))"

definition auto_mint_and_deposit :: "outside \<Rightarrow> u64 \<Rightarrow> u64 \<Rightarrow> string \<Rightarrow> wallet_token list act" where
  "auto_mint_and_deposit W supra_balance nft_id trustee_address =
     act_bind (get_trippples_metadata W 0) (\<lambda>emm.
     act_bind (get_trippples_metadata W 1) (\<lambda>kay.
     act_bind (get_trippples_metadata W 2) (\<lambda>tee. let m = (emm, kay, tee) in
     act_bind (read_three W (GetEscrowBalance nft_id) m) (\<lambda>(e, k, t).
       if 0 < e \<or> 0 < k \<or> 0 < t then give (token_list m e k t)
       else
     act_bind (read_three W GetFaBalance m) (\<lambda>(we, wk, wt).
       if 0 < we \<and> 0 < wk \<and> 0 < wt then
         act_bind (deposit_or_fail W ''EMM'' emm we) (\<lambda>_.
         act_bind (deposit_or_fail W ''KAY'' kay wk) (\<lambda>_.
         act_bind (deposit_or_fail W ''TEE'' tee wt) (\<lambda>_. give (token_list m we wk wt))))
       else
     act_bind (result_or (False, False) (get_nft_mint_state W trustee_address)) (\<lambda>(first_mint_done, has_pending).
       if has_pending then settle_pending_mint W nft_id m trustee_address
       else request_first_mint W supra_balance nft_id m first_mint_done))))))"

section \<open>The wizard\<close>

definition wizard_generate_auth_token :: "outside \<Rightarrow> string act" where
  "wizard_generate_auth_token W = generate_strategy_auth_token W"

definition wizard_bootstrap_peers :: "network \<Rightarrow> string list" where
  "wizard_bootstrap_peers n = (case n of
     Testnet \<Rightarrow> map (\<lambda>i. ''peer'' @ nat_str i @ ''.testnet.deadmkt.com:9191'') [1..<6]
   | Mainnet \<Rightarrow> map (\<lambda>i. ''peer'' @ nat_str i @ ''.deadmkt.com:9191'') [1..<6])"

definition wizard_settings ::
  "network \<Rightarrow> u64 \<Rightarrow> string \<Rightarrow> string \<Rightarrow> string \<Rightarrow> withdrawal_config \<Rightarrow> u64 \<Rightarrow> node_settings" where
  "wizard_settings network nft_id trustee payout auth_token withdrawal now =
     \<lparr>ns_network = network, ns_rpc_urls = [''https://rpc-testnet.supra.com''], ns_nft_id = nft_id,
      ns_trustee_address = trustee, ns_payout_address = payout, ns_sponsor_address = [],
      ns_contracts = default_contract_addresses network, ns_bootstrap_peers = wizard_bootstrap_peers network,
      ns_strategy_auth_token = auth_token, ns_markets = [''EMM/KAY'', ''KAY/TEE'', ''TEE/EMM''],
      ns_token_decimals = [], ns_profit_taking = profit_off, ns_withdrawal_rules = withdrawal,
      ns_strategy_port = 9090, ns_gossip_port = 9191,
      ns_chain_id = (case network of Testnet \<Rightarrow> 6 | Mainnet \<Rightarrow> 8),
      ns_max_gas_amount = 5000, ns_gas_unit_price = 100000, ns_created_at = u64_str now\<rparr>"

definition nft_for :: "outside \<Rightarrow> bytes \<Rightarrow> string \<Rightarrow> u64 act" where
  "nft_for W public address =
     act_bind (check_existing_nft W address) (\<lambda>nft. case nft of
       Found nft_id \<Rightarrow> give nft_id
     | NotFound \<Rightarrow>
         act_bind (prompt_sponsor W address) (\<lambda>sponsor. mint_nft_pair W public sponsor address))"

definition run_wizard :: "toolbox \<Rightarrow> outside \<Rightarrow> node_settings act" where
  "run_wizard T W =
     act_bind (read_line W) (\<lambda>_.
     act_bind prompt_network (\<lambda>network.
     act_bind (prompt_payout W) (\<lambda>payout.
     act_bind (prompt_node_role W) (\<lambda>bootstrap_only.
     act_bind (wizard_generate_keypair T W) (\<lambda>(address, public, secret).
     act_bind (set_signer secret public address) (\<lambda>_.
     act_bind (wait_for_funding W address network 5) (\<lambda>funding.
     act_bind (nft_for W public address) (\<lambda>nft_id.
     act_bind (prompt_withdrawal_config W) (\<lambda>withdrawal.
     act_bind (register_and_deposit W nft_id withdrawal funding) (\<lambda>_.
     act_bind (if bootstrap_only then give []
               else if network = Testnet then auto_mint_and_deposit W (wb_supra funding) nft_id address
               else give (wb_tokens funding)) (\<lambda>_.
     act_bind (if bootstrap_only then generate_strategy_auth_token W else wizard_generate_auth_token W) (\<lambda>auth_token.
     act_bind (system_now W) (\<lambda>now. let settings = wizard_settings network nft_id address payout auth_token withdrawal now in
     act_bind (write_config T W settings) (\<lambda>_. give settings))))))))))))))"

text \<open>Thousands separators in the messages.\<close>

fun commas_rev :: "nat \<Rightarrow> string \<Rightarrow> string" where
  "commas_rev i [] = []"
| "commas_rev i (c # cs) = (if 0 < i \<and> i mod 3 = 0 then CHR '','' # c # commas_rev (Suc i) cs else c # commas_rev (Suc i) cs)"

definition format_with_commas :: "u64 \<Rightarrow> string" where
  "format_with_commas n = rev (commas_rev 0 (rev (u64_str n)))"

end
