(* ===== verification/SetupRun.thy ===== *)
theory SetupRun
  imports SetupWizard
begin

text \<open>
  The non-interactive setup (second half of \<open>crates/setup/src/noninteractive.rs\<close>): a fresh node, a node
  with a keystore and a configuration, and a restore from the keystore alone. Each run ends with a
  \<open>SetupResult\<close>; a failed step is named in it. \<open>SilentIO\<close> answers every prompt with \<open>y\<close>.
\<close>

section \<open>Keystore\<close>

definition in_dir :: "string \<Rightarrow> string \<Rightarrow> string" where
  "in_dir dir name = dir @ ''/'' @ name"

definition silent :: "outside \<Rightarrow> outside" where
  "silent W = W\<lparr>ou_line := \<lambda>_. Inr ''y''\<rparr>"

definition generate_keystore_noninteractive ::
  "toolbox \<Rightarrow> outside \<Rightarrow> string \<Rightarrow> string \<Rightarrow> (string \<times> bytes \<times> bytes) act" where
  "generate_keystore_noninteractive T W path password s =
     (if ss_keystore s \<noteq> None
      then abort_with (IoErr (''keystore already exists at '' @ path
             @ '' -- MR1a is fresh-setup only; for LLM-assisted (existing keystore) flow see MR1b, for restore see MR1c'')) s
      else
        act_bind (generate_keypair W) (\<lambda>(secret, public).
        act_bind (write_keystore T W secret public password) (\<lambda>_.
          give (derive_trustee_address T public, public, secret))) s)"

definition unlock_existing_keystore :: "toolbox \<Rightarrow> string \<Rightarrow> string \<Rightarrow> (string \<times> bytes \<times> bytes) act" where
  "unlock_existing_keystore T path password s =
     (if ss_keystore s = None
      then abort_with (IoErr (''no keystore at '' @ path
             @ '' -- MR1b expects an existing keystore (use MR1a fresh setup if you have no keystore yet)'')) s
      else act_bind (open_keystore T password) (\<lambda>(secret, public).
             give (derive_trustee_address T public, public, secret)) s)"

section \<open>Settings from the chain\<close>

definition withdrawal_from :: "withdrawal_input \<Rightarrow> withdrawal_config" where
  "withdrawal_from w = \<lparr>wc_holding_period_days = ucast (wi_holding_period_days w),
     wc_rushed_withdrawal_enabled = wi_rushed_withdrawal_enabled w\<rparr>"

definition build_node_config_from_chain ::
  "validated_setup \<Rightarrow> u64 \<Rightarrow> string \<Rightarrow> string \<Rightarrow> u64 \<Rightarrow> node_settings" where
  "build_node_config_from_chain v nft_id trustee_address auth_token now =
     \<lparr>ns_network = vs_network v,
      ns_rpc_urls = (case vs_network v of
        Testnet \<Rightarrow> [''https://rpc-testnet.supra.com''] | Mainnet \<Rightarrow> [''https://rpc-mainnet.supra.com'']),
      ns_nft_id = nft_id, ns_trustee_address = trustee_address, ns_payout_address = vs_payout_address v,
      ns_sponsor_address = [], ns_contracts = default_contract_addresses (vs_network v),
      ns_bootstrap_peers = (case vs_network v of
        Testnet \<Rightarrow> [''peer1.testnet.deadmkt.com:9191'', ''peer2.testnet.deadmkt.com:9191'',
          ''peer3.testnet.deadmkt.com:9191'', ''peer4.testnet.deadmkt.com:9191'', ''peer5.testnet.deadmkt.com:9191'']
      | Mainnet \<Rightarrow> [''peer1.deadmkt.com:9191'', ''peer2.deadmkt.com:9191'', ''peer3.deadmkt.com:9191'',
          ''peer4.deadmkt.com:9191'', ''peer5.deadmkt.com:9191'']),
      ns_strategy_auth_token = auth_token, ns_markets = [''EMM/KAY'', ''KAY/TEE'', ''TEE/EMM''],
      ns_token_decimals = [], ns_profit_taking = profit_off,
      ns_withdrawal_rules = withdrawal_from (vs_withdrawal_rules v),
      ns_strategy_port = 9090, ns_gossip_port = 9191, ns_chain_id = 6, ns_max_gas_amount = 5000,
      ns_gas_unit_price = 100000, ns_created_at = u64_str now\<rparr>"

definition network_token_metadata_addresses :: "toolbox \<Rightarrow> network \<Rightarrow> (string \<times> string) list" where
  "network_token_metadata_addresses T n =
     (let contract = or_default [] (hex_decode (trim_0x (ca_settlement (default_contract_addresses n))))
      in map (\<lambda>(token, seed). (token, ''0x'' @ hex_encode (tb_sha3 T (contract @ char_bytes seed @ [0xFE]))))
           [(''EMM'', ''deadmkt_emm''), (''KAY'', ''deadmkt_kay''), (''TEE'', ''deadmkt_tee'')])"

section \<open>Runs\<close>

type_synonym run = "session \<Rightarrow> (session \<times> setup_result) option"

definition finish :: "setup_result \<Rightarrow> run" where
  "finish result s = Some (s, result)"

text \<open>\<open>match step { Ok(x) => ..., Err(e) => return result.fail(name, e) }\<close>\<close>

definition step_or_fail :: "string \<Rightarrow> setup_result \<Rightarrow> 'a act \<Rightarrow> ('a \<Rightarrow> run) \<Rightarrow> run" where
  "step_or_fail name result m k s =
     Option.bind (m s) (\<lambda>(s', r). case r of
         Inl e \<Rightarrow> Some (s', fail_result name (Inl e) result)
       | Inr x \<Rightarrow> k x s')"

definition network_text :: "network \<Rightarrow> string" where
  "network_text n = (case n of Testnet \<Rightarrow> ''testnet'' | Mainnet \<Rightarrow> ''mainnet'')"

definition init_result :: "validated_setup \<Rightarrow> setup_mode \<Rightarrow> setup_result" where
  "init_result v mode =
     (with_mode mode (fresh_in_progress (network_text (vs_network v))
        (if vs_bootstrap_only v then ''bootstrap'' else ''trading'')))\<lparr>sr_payout_address := Some (vs_payout_address v)\<rparr>"

text \<open>Writing the configuration, and the last look at the balance.\<close>

definition write_step :: "toolbox \<Rightarrow> outside \<Rightarrow> validated_setup \<Rightarrow> u64 \<Rightarrow> string \<Rightarrow> setup_result \<Rightarrow> (setup_result \<Rightarrow> run) \<Rightarrow> run" where
  "write_step T W v nft_id address result k =
     step_or_fail ''write_config'' result
       (act_bind (generate_strategy_auth_token W) (\<lambda>auth_token.
        act_bind (system_now W) (\<lambda>now.
          write_config T W (build_node_config_from_chain v nft_id address auth_token now))))
       (\<lambda>_. k (performed ''write_config'' result))"

definition final_snapshot :: "toolbox \<Rightarrow> outside \<Rightarrow> string \<Rightarrow> setup_result \<Rightarrow> run" where
  "final_snapshot T W address result s =
     Option.bind (get_all_balances W address s) (\<lambda>(s', r). finish (case r of
         Inr b \<Rightarrow> result\<lparr>sr_gas_balance_supra := Some (wb_supra b), sr_success := True\<rparr>
       | Inl e \<Rightarrow> (warned (''final balance fetch failed: '' @ tb_show T e) result)\<lparr>sr_success := True\<rparr>) s')"

definition finish_setup ::
  "toolbox \<Rightarrow> outside \<Rightarrow> validated_setup \<Rightarrow> string \<Rightarrow> u64 \<Rightarrow> setup_result \<Rightarrow> run" where
  "finish_setup T W v address nft_id result =
     write_step T W v nft_id address result (\<lambda>result.
       if \<not> vs_bootstrap_only v then final_snapshot T W address result
       else finish (result\<lparr>sr_success := True\<rparr>))"

text \<open>The NFT of the node: the one it has, or a new one.\<close>

definition nft_step ::
  "outside \<Rightarrow> validated_setup \<Rightarrow> string \<Rightarrow> bytes \<Rightarrow> setup_result \<Rightarrow> (u64 \<Rightarrow> setup_result \<Rightarrow> run) \<Rightarrow> run" where
  "nft_step W v address public result k =
     step_or_fail ''check_existing_nft'' result (check_existing_nft W address) (\<lambda>nft. case nft of
         Found nft_id \<Rightarrow> k nft_id (skipped ''mint_nft'' result)
       | NotFound \<Rightarrow>
           step_or_fail ''mint_nft'' result
             (mint_nft_pair W public (or_default address (vs_sponsor_address v)) address)
             (\<lambda>nft_id. k nft_id (performed ''mint_nft'' result)))"

definition trading_step ::
  "outside \<Rightarrow> validated_setup \<Rightarrow> string \<Rightarrow> u64 \<Rightarrow> wallet_balance \<Rightarrow> setup_result \<Rightarrow> (setup_result \<Rightarrow> run) \<Rightarrow> run" where
  "trading_step W v address nft_id funding result k =
     (if vs_bootstrap_only v then k (skipped ''register_and_deposit'' result)
      else
        step_or_fail ''register_and_deposit'' result
          (register_and_deposit W nft_id (withdrawal_from (vs_withdrawal_rules v)) funding) (\<lambda>_.
          let result = performed ''register_and_deposit'' result in
          if vs_network v = Testnet then
            step_or_fail ''auto_mint_and_deposit'' result
              (auto_mint_and_deposit W (wb_supra funding) nft_id address)
              (\<lambda>_. k (performed ''auto_mint_and_deposit'' result))
          else k (warned ''Mainnet: token funding/deposit must be done manually (MR1a/b do not auto-mint on mainnet).'' result)))"

definition setup_steps :: "toolbox \<Rightarrow> outside \<Rightarrow> validated_setup \<Rightarrow> string \<times> bytes \<times> bytes \<Rightarrow> setup_result \<Rightarrow> run" where
  "setup_steps T W v keys result =
     (case keys of (address, public, secret) \<Rightarrow>
      step_or_fail ''set_signer'' result (set_signer secret public address) (\<lambda>_.
      step_or_fail ''wait_for_funding'' result (wait_for_funding W address (vs_network v) 5) (\<lambda>funding.
      nft_step W v address public
        (performed ''wait_for_funding'' (result\<lparr>sr_gas_balance_supra := Some (wb_supra funding)\<rparr>)) (\<lambda>nft_id result.
      trading_step W v address nft_id funding (result\<lparr>sr_nft_id := Some nft_id\<rparr>) (\<lambda>result.
        finish_setup T W v address nft_id result)))))"

definition run_setup_after_keystore ::
  "toolbox \<Rightarrow> outside \<Rightarrow> string \<Rightarrow> validated_setup \<Rightarrow> string \<times> bytes \<times> bytes \<Rightarrow> setup_result \<Rightarrow> run" where
  "run_setup_after_keystore T W dir v keys result s =
     (let result = (if ss_config s \<noteq> None
                    then warned (''config.json already exists at '' @ in_dir dir ''config.json'' @ '' -- it will be overwritten'') result
                    else result)
      in setup_steps T (silent W) v keys result s)"

definition run_setup_noninteractive_fresh :: "toolbox \<Rightarrow> outside \<Rightarrow> string \<Rightarrow> setup_config \<Rightarrow> run" where
  "run_setup_noninteractive_fresh T W dir cfg =
     (case validate_for_fresh_setup cfg of
        Inl e \<Rightarrow> finish (fail_result ''validate'' (Inl e) (fresh_in_progress (sc_network cfg) (sc_node_role cfg)))
      | Inr (v, password) \<Rightarrow>
         (let result = performed ''validate'' (init_result v Fresh) in
          step_or_fail ''generate_keystore'' result
            (generate_keystore_noninteractive T W (in_dir dir ''keystore.json'') password) (\<lambda>keys.
            run_setup_after_keystore T W dir v keys
              (performed ''generate_keystore'' (result\<lparr>sr_trustee_address := Some (fst keys)\<rparr>)))))"

definition run_setup_noninteractive_llm_assisted ::
  "toolbox \<Rightarrow> outside \<Rightarrow> string \<Rightarrow> setup_config \<Rightarrow> string \<Rightarrow> run" where
  "run_setup_noninteractive_llm_assisted T W dir cfg password =
     (case validate_for_llm_assisted cfg of
        Inl e \<Rightarrow> finish (with_mode ConfigWithKeystore
            (fail_result ''validate'' (Inl e) (fresh_in_progress (sc_network cfg) (sc_node_role cfg))))
      | Inr v \<Rightarrow>
         (let result = performed ''validate'' (init_result v ConfigWithKeystore) in
          step_or_fail ''unlock_keystore'' result
            (unlock_existing_keystore T (in_dir dir ''keystore.json'') password) (\<lambda>keys.
            run_setup_after_keystore T W dir v keys
              (performed ''unlock_keystore'' (result\<lparr>sr_trustee_address := Some (fst keys)\<rparr>)))))"

section \<open>Restore\<close>

definition set_balance :: "string \<Rightarrow> u64 \<Rightarrow> escrow_balances \<Rightarrow> escrow_balances" where
  "set_balance token bal b =
     (if token = ''EMM'' then b\<lparr>eb_emm := bal\<rparr> else if token = ''KAY'' then b\<lparr>eb_kay := bal\<rparr>
      else if token = ''TEE'' then b\<lparr>eb_tee := bal\<rparr> else b)"

text \<open>The loop over the tokens stops at the first balance that cannot be read.\<close>

fun read_escrow ::
  "toolbox \<Rightarrow> outside \<Rightarrow> u64 \<Rightarrow> (string \<times> string) list \<Rightarrow> escrow_balances \<Rightarrow> bool \<Rightarrow> setup_result
    \<Rightarrow> (escrow_balances \<times> bool \<times> setup_result) act" where
  "read_escrow T W nft_id [] balances any result = give (balances, any, result)"
| "read_escrow T W nft_id ((token, meta) # ts) balances any result =
     act_try (query W (GetEscrowBalance nft_id meta)) (\<lambda>r. case r of
         Inr bal \<Rightarrow> read_escrow T W nft_id ts (set_balance token bal balances) (any \<or> 0 < bal) result
       | Inl e \<Rightarrow> give (balances, any, warned (''get_escrow_balance('' @ token @ '') failed: '' @ tb_show T e
                     @ '' -- restore continues without escrow snapshot'') result))"

definition restored_setup :: "network \<Rightarrow> string \<Rightarrow> validated_setup" where
  "restored_setup n payout = \<lparr>vs_network = n, vs_payout_address = payout, vs_sponsor_address = None,
     vs_bootstrap_only = False, vs_mint_amounts = mint_amounts_default,
     vs_withdrawal_rules = withdrawal_input_default, vs_faucet = faucet_cfg_default\<rparr>"

definition restore_nft :: "outside \<Rightarrow> string \<Rightarrow> setup_result \<Rightarrow> (u64 \<Rightarrow> setup_result \<Rightarrow> run) \<Rightarrow> run" where
  "restore_nft W address result k =
     step_or_fail ''check_existing_nft'' result (check_existing_nft W address) (\<lambda>nft. case nft of
         NotFound \<Rightarrow> finish (fail_result ''check_existing_nft''
           (Inr ''no NFT on-chain for this keystore -- a restore needs an already-minted NFT. Use MR1a fresh setup with a setup.json to mint a new NFT.'') result)
       | Found nft_id \<Rightarrow>
           k nft_id (performed ''check_existing_nft''
             ((warned ''DMKT14: payout address is no longer stored on-chain. Defaulted payout_address to the trustee's own address; edit config.json if you want exit/profit SUPRA sent elsewhere.''
                (result\<lparr>sr_payout_address := Some address\<rparr>))\<lparr>sr_nft_id := Some nft_id\<rparr>)))"

definition restore_write :: "toolbox \<Rightarrow> outside \<Rightarrow> string \<Rightarrow> network \<Rightarrow> string \<Rightarrow> u64 \<Rightarrow> setup_result \<Rightarrow> run" where
  "restore_write T W dir n address nft_id result s =
     (let result' = (if ss_config s \<noteq> None
                     then warned (''config.json already exists at '' @ in_dir dir ''config.json''
                            @ '' -- it will be overwritten with the restored snapshot'') result
                     else result)
      in write_step T W (restored_setup n (or_default address (sr_payout_address result))) nft_id address result'
           (\<lambda>result. finish (result\<lparr>sr_success := True\<rparr>)) s)"

definition restore_escrow :: "toolbox \<Rightarrow> outside \<Rightarrow> string \<Rightarrow> network \<Rightarrow> string \<Rightarrow> u64 \<Rightarrow> setup_result \<Rightarrow> run" where
  "restore_escrow T W dir n address nft_id result =
     step_or_fail ''read_escrow'' result
       (read_escrow T W nft_id (network_token_metadata_addresses T n) escrow_balances_default False result)
       (\<lambda>(balances, any, result).
          let result' = performed ''read_escrow'' (result\<lparr>sr_escrow_balances := Some balances\<rparr>)
          in restore_write T W dir n address nft_id
               (if \<not> any then warned ''escrow is empty -- if the NFT was previously trading this likely means tokens were withdrawn or the heartbeat lapsed. Trading will start with no inventory; request a mint via your strategy or `deadmkt-node deposit`.'' result'
                else result'))"

definition run_setup_noninteractive_restore :: "toolbox \<Rightarrow> outside \<Rightarrow> string \<Rightarrow> string \<Rightarrow> network \<Rightarrow> run" where
  "run_setup_noninteractive_restore T W dir password n =
     (let result = with_mode Restore (fresh_in_progress (network_text n) ''trading'') in
      step_or_fail ''unlock_keystore'' result
        (unlock_existing_keystore T (in_dir dir ''keystore.json'') password) (\<lambda>(address, public, secret).
      let result = performed ''unlock_keystore'' (result\<lparr>sr_trustee_address := Some address\<rparr>) in
      step_or_fail ''set_signer'' result (set_signer secret public address) (\<lambda>_.
      restore_nft W address result (restore_escrow T W dir n address))))"

end
