(* ===== verification/SetupProps.thy ===== *)
theory SetupProps
  imports SetupRun
begin

text \<open>
  What the setup guarantees: which calls each step makes, that a node with an NFT is never minted
  another and none is minted twice, that the result tells what happened to the configuration file,
  that a keystore survives a non-interactive run, when the wait for funds ends, and what the first
  mint may spend.
\<close>

section \<open>Calls of the steps\<close>

lemma stays_of: "(\<And>s y. m s = Some y \<Longrightarrow> within A s (fst y)) \<Longrightarrow> stays A m"
  by (rule staysI) fastforce

lemma bind_within:
  assumes "act_bind m f s = Some y" and "stays A m" and "\<And>x. stays A (f x)"
  shows "within A s (fst y)"
proof -
  obtain s' r where y: "y = (s', r)" by fastforce
  have "stays A (act_bind m f)" using assms(2,3) by (rule stays_bind)
  from staysD [OF this] assms(1) y show ?thesis by simp
qed

definition mint_call :: "effect \<Rightarrow> bool" where
  "mint_call e = (case e of Submit (SubmitMint k a) \<Rightarrow> True | _ \<Rightarrow> False)"

text \<open>Calls that only read the chain, ask the operator or wait.\<close>

definition reads :: "effect set" where
  "reads = {e. case e of Submit tx \<Rightarrow> False | WriteKeystore \<Rightarrow> False | WriteConfig \<Rightarrow> False | _ \<Rightarrow> True}"

lemma reads_simps [simp]:
  "Submit tx \<notin> reads" "WriteKeystore \<notin> reads" "WriteConfig \<notin> reads" "Query q \<in> reads" "GetAllBalances a \<in> reads"
  "IsTrustee a \<in> reads" "GetTrippplesMetadata y \<in> reads" "GetNftMintState a \<in> reads" "ReadLine \<in> reads"
  "GetPendingMintClaimableAt a \<in> reads" "SetSigner k p a \<in> reads" "Sleep n \<in> reads" "Now \<in> reads"
  "NewKeypair \<in> reads" "NewToken \<in> reads"
  by (simp_all add: reads_def)

definition trades :: "effect set" where
  "trades = reads \<union> {e. case e of Submit tx \<Rightarrow> \<not> mint_call e | _ \<Rightarrow> False}"

lemma trades_simps [simp]:
  "WriteKeystore \<notin> trades" "WriteConfig \<notin> trades" "Submit (SubmitMint k a) \<notin> trades"
  "Submit (SubmitRegister n d b) \<in> trades" "Submit (SubmitDeposit m x) \<in> trades" "Submit SubmitClaimMint \<in> trades"
  "Submit (SubmitRequestMint x y z) \<in> trades" "e \<in> reads \<Longrightarrow> e \<in> trades"
  by (simp_all add: trades_def mint_call_def)

lemma reads_trades: "reads \<subseteq> trades" by (simp add: trades_def)

lemma stays_prompt_input [stays]: "stays reads (prompt_input W dflt validate)"
proof (rule stays_of)
  fix s y
  assume "prompt_input W dflt validate s = Some y"
  then show "within reads s (fst y)"
  proof (rule prompt_input.raw_induct [where P = "\<lambda>_ _ _ s y. within reads s (fst y)", rotated])
    fix f W dflt validate s y
    assume ih: "\<And>W dflt validate s y. f W dflt validate s = Some y \<Longrightarrow> within reads s (fst y)"
      and round: "act_bind (read_line W) (\<lambda>raw u.
       let trimmed = trim raw;
           value = (if trimmed = [] then or_default [] dflt else trimmed)
       in case validate of
            None \<Rightarrow> give value u
          | Some ok \<Rightarrow> if ok value then give value u else f W dflt validate u) s = Some y"
    have f: "stays reads (f W dflt validate)" for W dflt validate by (rule stays_of) (rule ih)
    show "within reads s (fst y)"
      by (rule bind_within [OF round]) (intro stays f; simp)+
  qed
qed

lemma stays_prompt_password [stays]: "stays reads (prompt_password W with_confirm)"
proof (rule stays_of)
  fix s y
  assume "prompt_password W with_confirm s = Some y"
  then show "within reads s (fst y)"
  proof (rule prompt_password.raw_induct [where P = "\<lambda>_ _ s y. within reads s (fst y)", rotated])
    fix f W with_confirm s y
    assume ih: "\<And>W with_confirm s y. f W with_confirm s = Some y \<Longrightarrow> within reads s (fst y)"
      and round: "act_bind (read_line W) (\<lambda>first u.
       if \<not> with_confirm then give (trim_newlines first) u
       else act_bind (read_line W) (\<lambda>second v.
              if trim_newlines first = trim_newlines second then give (trim_newlines first) v
              else f W with_confirm v) u) s = Some y"
    have f: "stays reads (f W with_confirm)" for W with_confirm by (rule stays_of) (rule ih)
    show "within reads s (fst y)"
      by (rule bind_within [OF round]) (intro stays f; simp)+
  qed
qed

lemma stays_prompt_select [stays]: "stays reads (prompt_select W items default_idx)"
proof (rule stays_of)
  fix s y
  assume "prompt_select W items default_idx s = Some y"
  then show "within reads s (fst y)"
  proof (rule prompt_select.raw_induct [where P = "\<lambda>_ _ _ s y. within reads s (fst y)", rotated])
    fix f W items default_idx s y
    assume ih: "\<And>W items default_idx s y. f W items default_idx s = Some y \<Longrightarrow> within reads s (fst y)"
      and round: "act_bind (read_line W) (\<lambda>raw u.
       if trim raw = [] then give default_idx u
       else case parse_u64 (trim raw) of
              Some n \<Rightarrow> if 1 \<le> unat n \<and> unat n \<le> items then give (unat n - 1) u
                        else f W items default_idx u
            | None \<Rightarrow> f W items default_idx u) s = Some y"
    have f: "stays reads (f W items default_idx)" for W items default_idx by (rule stays_of) (rule ih)
    show "within reads s (fst y)"
      by (rule bind_within [OF round]) (intro stays f; simp)+
  qed
qed

lemma stays_prompt_confirm [stays]: "stays reads (prompt_confirm W default_yes)"
proof (rule stays_of)
  fix s y
  assume "prompt_confirm W default_yes s = Some y"
  then show "within reads s (fst y)"
  proof (rule prompt_confirm.raw_induct [where P = "\<lambda>_ _ s y. within reads s (fst y)", rotated])
    fix f W default_yes s y
    assume ih: "\<And>W default_yes s y. f W default_yes s = Some y \<Longrightarrow> within reads s (fst y)"
      and round: "act_bind (read_line W) (\<lambda>raw u.
       let answer = to_lower (trim raw) in
       if answer = [] then give default_yes u
       else if answer = ''y'' \<or> answer = ''yes'' then give True u
       else if answer = ''n'' \<or> answer = ''no'' then give False u
       else f W default_yes u) s = Some y"
    have f: "stays reads (f W default_yes)" for W default_yes by (rule stays_of) (rule ih)
    show "within reads s (fst y)"
      by (rule bind_within [OF round]) (intro stays f; simp)+
  qed
qed

lemma stays_wait_for_supra [stays]: "stays reads (wait_for_supra W address interval)"
proof (rule stays_of)
  fix s y
  assume "wait_for_supra W address interval s = Some y"
  then show "within reads s (fst y)"
  proof (rule wait_for_supra.raw_induct [where P = "\<lambda>_ _ _ s y. within reads s (fst y)", rotated])
    fix f W address interval s y
    assume ih: "\<And>W address interval s y. f W address interval s = Some y \<Longrightarrow> within reads s (fst y)"
      and round: "act_bind (get_all_balances W address) (\<lambda>balance u.
       if 0 < wb_supra balance \<or> wb_tokens balance \<noteq> [] then give (wb_supra balance) u
       else act_bind (cancellable_sleep W interval) (\<lambda>_ v. f W address interval v) u) s = Some y"
    have f: "stays reads (f W address interval)" for W address interval by (rule stays_of) (rule ih)
    show "within reads s (fst y)"
      by (rule bind_within [OF round]) (intro stays f; simp)+
  qed
qed

lemma stays_wait_for_tokens [stays]: "stays reads (wait_for_tokens W address interval)"
proof (rule stays_of)
  fix s y
  assume "wait_for_tokens W address interval s = Some y"
  then show "within reads s (fst y)"
  proof (rule wait_for_tokens.raw_induct [where P = "\<lambda>_ _ _ s y. within reads s (fst y)", rotated])
    fix f W address interval s y
    assume ih: "\<And>W address interval s y. f W address interval s = Some y \<Longrightarrow> within reads s (fst y)"
      and round: "act_bind (get_all_balances W address) (\<lambda>balance u.
       if 0 < wb_supra balance \<and> wb_tokens balance \<noteq> [] then give balance u
       else act_bind (cancellable_sleep W interval) (\<lambda>_ v. f W address interval v) u) s = Some y"
    have f: "stays reads (f W address interval)" for W address interval by (rule stays_of) (rule ih)
    show "within reads s (fst y)"
      by (rule bind_within [OF round]) (intro stays f; simp)+
  qed
qed

lemma stays_reads_trades [stays]:
  "stays trades (wait_for_supra W a n)" "stays trades (wait_for_tokens W a n)"
  "stays trades (prompt_confirm W d)" "stays trades (prompt_input W o' v)" "stays trades (prompt_select W k j)"
  "stays trades (prompt_password W c)"
  by (intro stays_mono [OF _ reads_trades] stays)+

lemma stays_funding [stays]: "stays reads (wait_for_funding W a n i)"
  unfolding wait_for_funding_def by (intro stays)

lemma stays_existing [stays]: "stays reads (check_existing_nft W a)"
  unfolding check_existing_nft_def by (intro stays; simp)

lemma stays_read_three [stays]: "(\<And>m. Query (q m) \<in> A) \<Longrightarrow> stays A (read_three W q m)"
  unfolding read_three_def by (intro stays)

lemma stays_deposit_all [stays]: "stays trades (deposit_all W ts)"
  by (induction ts) (simp_all only: deposit_all.simps, auto intro!: stays stays_bind)

lemma stays_register [stays]: "stays trades (register_and_deposit W nft w f)"
  unfolding register_and_deposit_def by (intro stays; simp)

lemma stays_poll [stays]: "stays trades (poll_escrow n W nft m)"
  by (induction n) (auto intro!: stays)

lemma stays_claim [stays]: "stays trades (claim_loop n W nft m)"
  by (induction n) (auto intro!: stays)

lemma stays_deposit_or_fail [stays]: "stays trades (deposit_or_fail W y m x)"
  unfolding deposit_or_fail_def by (intro stays; simp)

lemma stays_first_mint [stays]: "stays trades (request_first_mint W b nft m d)"
  unfolding request_first_mint_def by (intro stays; simp)

lemma stays_pending [stays]: "stays trades (settle_pending_mint W nft m a)"
  unfolding settle_pending_mint_def by (intro stays; simp)

lemma stays_auto_mint [stays]: "stays trades (auto_mint_and_deposit W b nft a)"
  unfolding auto_mint_and_deposit_def Let_def by (intro stays; simp)

section \<open>Calls of the runs\<close>

lemma stays_finish [stays]: "stays A (finish r)"
  by (simp add: stays_def finish_def)

lemma stays_step [stays]:
  assumes "stays A m" and "\<And>x. stays A (k x)"
  shows "stays A (step_or_fail name result m k)"
proof (rule staysI)
  fix s s' r
  assume "step_or_fail name result m k s = Some (s', r)"
  then obtain u q where u: "m s = Some (u, q)" "(case q of Inl e \<Rightarrow> Some (u, fail_result name (Inl e) result) | Inr x \<Rightarrow> k x u) = Some (s', r)"
    by (auto simp: step_or_fail_def bind_eq_Some_conv)
  have su: "within A s u" using assms(1) u(1) by (rule staysD)
  show "within A s s'"
  proof (cases q)
    case (Inr x)
    with u(2) have "within A u s'" using staysD [OF assms(2)] by simp
    with su show ?thesis by (rule within_trans)
  qed (use u su in simp)
qed

lemma stays_write_step [stays]:
  "reads \<subseteq> A \<Longrightarrow> WriteConfig \<in> A \<Longrightarrow> (\<And>r. stays A (k r)) \<Longrightarrow> stays A (write_step T W v nft a result k)"
  unfolding write_step_def by (intro stays) (auto simp: subset_iff)

lemma stays_choice [stays]: "stays A m \<Longrightarrow> stays A n \<Longrightarrow> stays A (\<lambda>s. if P s then m s else n s)"
  by (auto simp: stays_def)

lemma stays_choice_let [stays]: "(\<And>y. stays A (m y)) \<Longrightarrow> stays A (\<lambda>s. let y = g s in m y s)"
  by (auto simp: stays_def Let_def)

lemma stays_unlock [stays]: "stays A (unlock_existing_keystore T path password)"
  unfolding unlock_existing_keystore_def [abs_def] by (intro stays)

lemma stays_read_escrow [stays]: "reads \<subseteq> A \<Longrightarrow> stays A (read_escrow T W nft ts b any result)"
proof (induction ts arbitrary: b any result)
  case (Cons t ts)
  then show ?case by (cases t) (simp, intro stays; auto simp: subset_iff)
qed (simp add: stays)

text \<open>A restore reads the chain and writes the configuration.\<close>

definition restores :: "effect set" where "restores = insert WriteConfig reads"

lemma restores_simps [simp]:
  "WriteConfig \<in> restores" "e \<in> reads \<Longrightarrow> e \<in> restores" "WriteKeystore \<notin> restores" "Submit tx \<notin> restores"
  by (simp_all add: restores_def)

lemma reads_restores [simp]: "reads \<subseteq> restores" by (simp add: restores_def subset_iff)

lemma stays_restore: "stays restores (run_setup_noninteractive_restore T W dir password n)"
proof -
  have existing: "stays restores (check_existing_nft W a)" for a
    by (rule stays_mono [OF stays_existing reads_restores])
  have restore: "stays restores (restore_write T W dir n a nft result)" for a nft result
    unfolding restore_write_def [abs_def] by (intro stays; simp add: subset_iff)
  show ?thesis
    unfolding run_setup_noninteractive_restore_def restore_nft_def restore_escrow_def Let_def
    by (intro stays existing restore; simp)
qed

section \<open>Actions that end\<close>

named_theorems total

definition total :: "(session \<Rightarrow> (session \<times> 'r) option) \<Rightarrow> bool" where
  "total m \<longleftrightarrow> (\<forall>s. \<exists>y. m s = Some y)"

lemma totalD: "total m \<Longrightarrow> \<exists>s' r. m s = Some (s', r)"
  by (auto simp: total_def)

lemma total_basic [total]: "total (give x)" "total (abort_with e)" "total (call c f)" "total (finish r)"
  "total (write_config T W settings)"
  by (auto simp: total_def give_def abort_with_def call_def finish_def write_config_def split: sum.split)

lemma total_calls [total]:
  "total (submit W tx)" "total (query W q)" "total (get_all_balances W a)" "total (is_trustee W a)"
  "total (set_signer k p a)" "total (system_now W)" "total (generate_strategy_auth_token W)"
  by (simp_all add: submit_def query_def get_all_balances_def is_trustee_def set_signer_def system_now_def
      generate_strategy_auth_token_def total)

lemma total_bind [total]:
  assumes "total m" and "\<And>x. total (f x)"
  shows "total (act_bind m f)"
  unfolding total_def
proof
  fix s
  obtain u q where "m s = Some (u, q)" using totalD [OF assms(1)] by blast
  then show "\<exists>y. act_bind m f s = Some y" using assms(2) by (cases q) (auto simp: act_bind_def total_def)
qed

lemma total_try [total]: "total m \<Longrightarrow> (\<And>x. total (f x)) \<Longrightarrow> total (act_try m f)"
  unfolding act_try_def total_def by (metis (no_types, lifting) bind.bind_lunit case_prod_beta)

lemma total_step [total]:
  assumes "total m" and "\<And>x. total (k x)"
  shows "total (step_or_fail name result m k)"
  unfolding total_def
proof
  fix s
  obtain u q where "m s = Some (u, q)" using totalD [OF assms(1)] by blast
  then show "\<exists>y. step_or_fail name result m k s = Some y"
    using assms(2) by (cases q) (auto simp: step_or_fail_def total_def)
qed

lemma total_cases [total]:
  "total m \<Longrightarrow> total n \<Longrightarrow> total (if b then m else n)"
  "total m \<Longrightarrow> total n \<Longrightarrow> total (\<lambda>s. if P s then m s else n s)"
  "(\<And>a b. total (f a b)) \<Longrightarrow> total (case p of (a, b) \<Rightarrow> f a b)"
  "(\<And>i. total (g i)) \<Longrightarrow> total m \<Longrightarrow> total (case y of Found i \<Rightarrow> g i | NotFound \<Rightarrow> m)"
  "(\<And>e. total (h e)) \<Longrightarrow> (\<And>x. total (k x)) \<Longrightarrow> total (case z of Inl e \<Rightarrow> h e | Inr x \<Rightarrow> k x)"
  "(\<And>y. total (l y)) \<Longrightarrow> total (\<lambda>s. let y = w s in l y s)"
  by (auto simp: total_def Let_def split: prod.split existing_nft.split sum.split)

lemma total_read_escrow [total]: "total (read_escrow T W nft ts b any result)"
proof (induction ts arbitrary: b any result)
  case (Cons t ts)
  then show ?case by (cases t) (simp, intro total)
qed (simp add: total)

lemma total_restore_write [total]: "total (restore_write T W dir n a nft result)"
  unfolding restore_write_def [abs_def] write_step_def by (intro total)

lemma total_check [total]: "total (check_existing_nft W a)"
  unfolding check_existing_nft_def by (intro total)

lemma unlock_ends:
  "unlock_existing_keystore T path password s = None \<longleftrightarrow>
     ss_keystore s \<noteq> None
     \<and> load_keystore (tb_crypto T) (tb_vault T) (tb_parse T) (ss_keystore s) password = None"
proof (cases "load_keystore (tb_crypto T) (tb_vault T) (tb_parse T) (ss_keystore s) password")
  case None
  then show ?thesis by (auto simp: unlock_existing_keystore_def act_bind_def open_keystore_def abort_with_def)
next
  case (Some r)
  then show ?thesis
    by (cases r) (auto simp: unlock_existing_keystore_def act_bind_def open_keystore_def abort_with_def give_def)
qed

lemma step_None:
  assumes "\<And>x. total (k x)"
  shows "step_or_fail name result m k s = None \<longleftrightarrow> m s = None"
proof (cases "m s")
  case (Some p)
  obtain u q where "p = (u, q)" by fastforce
  with Some have "m s = Some (u, q)" by simp
  then show ?thesis using assms by (cases q) (auto simp: step_or_fail_def total_def)
qed (simp add: step_or_fail_def)

lemma restore_ends:
  "run_setup_noninteractive_restore T W dir password n s = None \<longleftrightarrow>
     ss_keystore s \<noteq> None
     \<and> load_keystore (tb_crypto T) (tb_vault T) (tb_parse T) (ss_keystore s) password = None"
proof -
  have "run_setup_noninteractive_restore T W dir password n s = None \<longleftrightarrow>
      unlock_existing_keystore T (in_dir dir ''keystore.json'') password s = None"
    unfolding run_setup_noninteractive_restore_def Let_def
    by (rule step_None) (unfold restore_nft_def restore_escrow_def Let_def, intro total)
  then show ?thesis by (simp add: unlock_ends)
qed

text \<open>
  A restore only reads the chain. Whatever the chain answers, it submits no transaction, leaves the
  keystore as it is, and ends, unless the keystore's nonce makes the cipher panic.
\<close>
theorem restore_only_reads:
  "case run_setup_noninteractive_restore T W dir password n s of
     None \<Rightarrow> load_keystore (tb_crypto T) (tb_vault T) (tb_parse T) (ss_keystore s) password = None
       \<and> ss_keystore s \<noteq> None
   | Some (s', r) \<Rightarrow> ss_keystore s' = ss_keystore s
       \<and> (\<exists>t. ss_trace s' = ss_trace s @ t \<and> (\<forall>tx. Submit tx \<notin> set t))"
proof (cases "run_setup_noninteractive_restore T W dir password n s")
  case None
  moreover from this have "ss_keystore s \<noteq> None
      \<and> load_keystore (tb_crypto T) (tb_vault T) (tb_parse T) (ss_keystore s) password = None"
    by (subst restore_ends [symmetric])
  ultimately show ?thesis by simp
next
  case (Some p)
  obtain s' r where "p = (s', r)" by fastforce
  with Some have "within restores s s'" using staysD [OF stays_restore] by blast
  then obtain t where "ss_trace s' = ss_trace s @ t" "set t \<subseteq> restores" "ss_keystore s' = ss_keystore s"
    by (auto simp: within_def)
  then show ?thesis using Some \<open>p = (s', r)\<close> by auto
qed

section \<open>One mint at most\<close>

definition no_mint :: "effect list \<Rightarrow> bool" where
  "no_mint t \<longleftrightarrow> list_all (\<lambda>e. \<not> mint_call e) t"

text \<open>A log with one mint, guarded by the answer that the address holds no NFT; or with none.\<close>

definition mint_guarded :: "outside \<Rightarrow> effect list \<Rightarrow> effect list \<Rightarrow> bool" where
  "mint_guarded W h t \<longleftrightarrow> no_mint t \<or>
     (\<exists>t1 address t2 key sponsor t3. t = t1 @ IsTrustee address # t2 @ Submit (SubmitMint key sponsor) # t3
        \<and> ou_is_trustee W (h @ t1) address = Inr False \<and> no_mint t1 \<and> no_mint t2 \<and> no_mint t3)"

lemma no_mint_append [simp]: "no_mint (a @ b) \<longleftrightarrow> no_mint a \<and> no_mint b"
  by (simp add: no_mint_def)

lemma no_mint_simps [simp]: "no_mint []" "no_mint (e # t) \<longleftrightarrow> \<not> mint_call e \<and> no_mint t"
  by (simp_all add: no_mint_def)

definition unminted :: "effect set" where "unminted = {e. \<not> mint_call e}"

lemma unminted_subsets: "reads \<subseteq> unminted" "trades \<subseteq> unminted" "WriteConfig \<in> unminted" "WriteKeystore \<in> unminted"
  by (auto simp: unminted_def reads_def trades_def mint_call_def split: effect.splits chain_tx.splits)

lemma unminted_log: "within unminted s s' \<Longrightarrow> \<exists>t. ss_trace s' = ss_trace s @ t \<and> no_mint t"
  by (auto simp: within_def unminted_def no_mint_def list_all_iff)

definition guarded :: "outside \<Rightarrow> session \<Rightarrow> session \<Rightarrow> bool" where
  "guarded W s s' \<longleftrightarrow> (\<exists>t. ss_trace s' = ss_trace s @ t \<and> mint_guarded W (ss_trace s) t)"

lemma unminted_guarded: "within unminted s s' \<Longrightarrow> guarded W s s'"
  unfolding guarded_def mint_guarded_def using unminted_log by blast

lemma guarded_after:
  assumes "within unminted s u" and "guarded W u s'"
  shows "guarded W s s'"
proof -
  obtain t where t: "ss_trace u = ss_trace s @ t" "no_mint t" using unminted_log [OF assms(1)] by blast
  obtain t' where t': "ss_trace s' = ss_trace u @ t'" "mint_guarded W (ss_trace s @ t) t'"
    using assms(2) t by (auto simp: guarded_def)
  have "mint_guarded W (ss_trace s) (t @ t')"
  proof (cases "no_mint t'")
    case False
    then obtain t1 address t2 key sponsor t3 where
      "t' = t1 @ IsTrustee address # t2 @ Submit (SubmitMint key sponsor) # t3"
      "ou_is_trustee W ((ss_trace s @ t) @ t1) address = Inr False" "no_mint t1" "no_mint t2" "no_mint t3"
      using t'(2) by (auto simp: mint_guarded_def)
    then show ?thesis unfolding mint_guarded_def using t(2)
      by (intro disjI2 exI [of _ "t @ t1"] exI [of _ address] exI [of _ t2] exI [of _ key] exI [of _ sponsor] exI [of _ t3]) simp
  qed (use t in \<open>simp add: mint_guarded_def\<close>)
  then show ?thesis using t t' by (auto simp: guarded_def)
qed

lemma guarded_before:
  assumes "guarded W s u" and "within unminted u s'"
  shows "guarded W s s'"
proof -
  obtain t where t: "ss_trace u = ss_trace s @ t" "mint_guarded W (ss_trace s) t" using assms(1) by (auto simp: guarded_def)
  obtain t' where t': "ss_trace s' = ss_trace u @ t'" "no_mint t'" using unminted_log [OF assms(2)] by blast
  have "mint_guarded W (ss_trace s) (t @ t')"
  proof (cases "no_mint t")
    case False
    then obtain t1 address t2 key sponsor t3 where
      "t = t1 @ IsTrustee address # t2 @ Submit (SubmitMint key sponsor) # t3"
      "ou_is_trustee W (ss_trace s @ t1) address = Inr False" "no_mint t1" "no_mint t2" "no_mint t3"
      using t(2) by (auto simp: mint_guarded_def)
    then show ?thesis unfolding mint_guarded_def using t'(2)
      by (intro disjI2 exI [of _ t1] exI [of _ address] exI [of _ t2] exI [of _ key] exI [of _ sponsor] exI [of _ "t3 @ t'"]) simp
  qed (use t' in \<open>simp add: mint_guarded_def\<close>)
  then show ?thesis using t t' by (auto simp: guarded_def)
qed

text \<open>The check of the chain answers \<open>NotFound\<close> only when the address is no trustee.\<close>

lemma check_not_found:
  "check_existing_nft W address s = Some (u, Inr NotFound) \<Longrightarrow>
     u = s\<lparr>ss_trace := ss_trace s @ [IsTrustee address]\<rparr> \<and> ou_is_trustee W (ss_trace s) address = Inr False"
  by (auto simp: check_existing_nft_def act_bind_Some is_trustee_def call_def query_def give_def split: sum.splits if_splits)

lemma act_bind_assoc: "act_bind (act_bind m f) g = act_bind m (\<lambda>x. act_bind (f x) g)"
proof
  show "act_bind (act_bind m f) g s = act_bind m (\<lambda>x. act_bind (f x) g) s" for s
  proof (cases "m s")
    case (Some p)
    then show ?thesis by (cases p; cases "snd p") (auto simp: act_bind_def)
  qed (simp add: act_bind_def)
qed

text \<open>The mint submits once.\<close>

lemma mint_once:
  assumes "mint_nft_pair W key sponsor address s = Some (s', r)"
  shows "\<exists>t1 t2. no_mint t1 \<and> no_mint t2 \<and>
    (ss_trace s' = ss_trace s @ t1 \<or> ss_trace s' = ss_trace s @ t1 @ Submit (SubmitMint key sponsor) # t2)"
proof -
  let ?tail = "\<lambda>u. act_bind (submit W (SubmitMint key sponsor)) (\<lambda>result.
           if \<not> ti_success result then abort_with (SetupChainErr (ti_vm_status result))
           else query W (GetNftId address)) u"
  have front: "stays reads (act_bind (query W GetMintFee) (\<lambda>_. prompt_confirm W False))" by (intro stays; simp)
  have "mint_nft_pair W key sponsor address
      = act_bind (act_bind (query W GetMintFee) (\<lambda>_. prompt_confirm W False))
          (\<lambda>accepted. if \<not> accepted then abort_with UserDeclined else ?tail)" (is "_ = act_bind ?front ?rest")
    unfolding mint_nft_pair_def by (rule act_bind_assoc [symmetric])
  with assms have "act_bind ?front ?rest s = Some (s', r)" by (simp only:)
  from iffD1 [OF act_bind_Some this] obtain u q where u: "?front s = Some (u, q)"
    and q: "case q of Inl e \<Rightarrow> s' = u \<and> r = Inl e
      | Inr accepted \<Rightarrow> (if \<not> accepted then abort_with UserDeclined else ?tail) u = Some (s', r)" by blast
  have rest: "s' = u \<or> ?tail u = Some (s', r)"
    using q by (cases q) (simp_all add: abort_with_def split: if_splits)
  have "within unminted s u"
    using staysD [OF front u] within_mono unminted_subsets(1) by blast
  then obtain t where t: "ss_trace u = ss_trace s @ t" "no_mint t" using unminted_log by blast
  from rest show ?thesis
  proof
    assume "s' = u"
    then show ?thesis using t by (intro exI [of _ t] exI [of _ "[]"]) simp
  next
    assume tail: "?tail u = Some (s', r)"
    then obtain t2 where "ss_trace s' = ss_trace u @ Submit (SubmitMint key sponsor) # t2" "no_mint t2"
      by (auto simp: act_bind_Some submit_def call_def query_def abort_with_def mint_call_def split: sum.splits if_splits)
    then show ?thesis using t by (intro exI [of _ t] exI [of _ t2]) simp
  qed
qed

definition guards :: "outside \<Rightarrow> (session \<Rightarrow> (session \<times> 'r) option) \<Rightarrow> bool" where
  "guards W m \<longleftrightarrow> (\<forall>s s' r. m s = Some (s', r) \<longrightarrow> guarded W s s')"

lemma guards_stays: "stays unminted m \<Longrightarrow> guards W m"
  by (simp add: guards_def stays_def unminted_guarded)

lemma guards_step:
  assumes "stays unminted m" and "\<And>x. guards W (k x)"
  shows "guards W (step_or_fail name result m k)"
  unfolding guards_def
proof (intro allI impI)
  fix s s' r
  assume "step_or_fail name result m k s = Some (s', r)"
  then obtain u q where u: "m s = Some (u, q)"
    "(case q of Inl e \<Rightarrow> Some (u, fail_result name (Inl e) result) | Inr x \<Rightarrow> k x u) = Some (s', r)"
    by (auto simp: step_or_fail_def bind_eq_Some_conv)
  have su: "within unminted s u" using assms(1) u(1) by (rule staysD)
  show "guarded W s s'"
  proof (cases q)
    case (Inl e)
    then show ?thesis using u(2) unminted_guarded [OF su] by simp
  next
    case (Inr x)
    then have "k x u = Some (s', r)" using u(2) by simp
    then have "guarded W u s'" using assms(2) unfolding guards_def by blast
    with su show ?thesis by (rule guarded_after)
  qed
qed

lemma guards_nft:
  assumes "\<And>i r. stays unminted (k i r)"
  shows "guards W (nft_step W v address public result k)"
  unfolding guards_def
proof (intro allI impI)
  fix s s' r
  assume run: "nft_step W v address public result k s = Some (s', r)"
  have check: "stays unminted (check_existing_nft W address)"
    by (rule stays_mono [OF stays_existing unminted_subsets(1)])
  obtain u q where u: "check_existing_nft W address s = Some (u, q)"
    using run by (auto simp: nft_step_def step_or_fail_def bind_eq_Some_conv)
  have su: "within unminted s u" using check u by (rule staysD)
  show "guarded W s s'"
  proof (cases q)
    case (Inl e)
    then show ?thesis using run u unminted_guarded [OF su] by (simp add: nft_step_def step_or_fail_def)
  next
    case (Inr nft)
    show ?thesis
    proof (cases nft)
      case (Found i)
      then have "k i (skipped ''mint_nft'' result) u = Some (s', r)"
        using run u Inr by (simp add: nft_step_def step_or_fail_def)
      then have "within unminted u s'" using staysD [OF assms] by blast
      then show ?thesis using within_trans [OF su] unminted_guarded by blast
    next
      case NotFound
      let ?sponsor = "or_default address (vs_sponsor_address v)"
      have u': "u = s\<lparr>ss_trace := ss_trace s @ [IsTrustee address]\<rparr>" "ou_is_trustee W (ss_trace s) address = Inr False"
        using check_not_found u Inr NotFound by simp_all
      obtain w p where w: "mint_nft_pair W public ?sponsor address u = Some (w, p)"
        and last: "(case p of Inl e \<Rightarrow> Some (w, fail_result ''mint_nft'' (Inl e) result)
           | Inr i \<Rightarrow> k i (performed ''mint_nft'' result) w) = Some (s', r)"
        using run u Inr NotFound by (auto simp: nft_step_def step_or_fail_def bind_eq_Some_conv)
      have ws': "within unminted w s'"
        using last staysD [OF assms] by (cases p) auto
      obtain t1 t2 where "no_mint t1" "no_mint t2"
        "ss_trace w = ss_trace u @ t1 \<or> ss_trace w = ss_trace u @ t1 @ Submit (SubmitMint public ?sponsor) # t2"
        using mint_once [OF w] by blast
      then have "guarded W s w"
      proof (elim disjE)
        assume "ss_trace w = ss_trace u @ t1"
        then show ?thesis using u' \<open>no_mint t1\<close>
          by (intro iffD2 [OF guarded_def] exI [of _ "IsTrustee address # t1"]) (simp add: mint_guarded_def mint_call_def)
      next
        assume "ss_trace w = ss_trace u @ t1 @ Submit (SubmitMint public ?sponsor) # t2"
        then show ?thesis using u' \<open>no_mint t1\<close> \<open>no_mint t2\<close> unfolding guarded_def mint_guarded_def
          by (intro exI [of _ "IsTrustee address # t1 @ Submit (SubmitMint public ?sponsor) # t2"] conjI disjI2
              exI [of _ "[]"] exI [of _ address] exI [of _ t1] exI [of _ public] exI [of _ ?sponsor] exI [of _ t2]) simp_all
      qed
      then show ?thesis using ws' by (rule guarded_before)
    qed
  qed
qed

lemma guarded_silent [simp]: "guarded (silent W) = guarded W"
  by (simp add: guarded_def mint_guarded_def silent_def fun_eq_iff)

lemma stays_trading:
  "(\<And>r. stays unminted (k r)) \<Longrightarrow> stays unminted (trading_step W v a nft f result k)"
  unfolding trading_step_def Let_def
  by (intro stays stays_mono [OF stays_register unminted_subsets(2)] stays_mono [OF stays_auto_mint unminted_subsets(2)])

lemma stays_final [stays]: "stays reads (final_snapshot T W a result)"
proof -
  have "final_snapshot T W a result s = Some (s', r) \<Longrightarrow> \<exists>q. get_all_balances W a s = Some (s', q)" for s s' r
    by (auto simp: final_snapshot_def finish_def bind_eq_Some_conv)
  moreover have "stays reads (get_all_balances W a)" by (intro stays) simp
  ultimately show ?thesis by (meson stays_def)
qed

lemma stays_finish_setup: "reads \<subseteq> A \<Longrightarrow> WriteConfig \<in> A \<Longrightarrow> stays A (finish_setup T W v a nft result)"
  unfolding finish_setup_def by (intro stays stays_mono [OF stays_final])

lemma guards_steps: "guards W (setup_steps T (silent W) v keys result)"
proof -
  obtain a public secret where keys: "keys = (a, public, secret)" by (cases keys) auto
  have "guards (silent W) (setup_steps T (silent W) v keys result)"
    unfolding setup_steps_def keys prod.case
    by (intro guards_step guards_nft stays_trading stays_finish_setup unminted_subsets
        stays_mono [OF stays_funding unminted_subsets(1)] stays)
      (simp add: unminted_def mint_call_def)
  then show ?thesis by (simp add: guards_def)
qed

lemma guards_after_keystore: "guards W (run_setup_after_keystore T W dir v keys result)"
  using guards_steps by (auto simp: guards_def run_setup_after_keystore_def Let_def)

lemma guards_finish: "guards W (finish r)"
  by (rule guards_stays) (rule stays)

lemma stays_generate: "stays unminted (generate_keystore_noninteractive T W path password)"
  unfolding generate_keystore_noninteractive_def [abs_def]
  by (intro stays unminted_subsets) (simp add: unminted_def mint_call_def)

lemma guards_fresh: "guards W (run_setup_noninteractive_fresh T W dir cfg)"
  unfolding run_setup_noninteractive_fresh_def Let_def
  by (simp add: guards_finish guards_step [OF stays_generate guards_after_keystore] split: sum.split prod.split)

lemma guards_llm: "guards W (run_setup_noninteractive_llm_assisted T W dir cfg password)"
  unfolding run_setup_noninteractive_llm_assisted_def Let_def
  by (simp add: guards_finish guards_step [OF stays_unlock guards_after_keystore] split: sum.split prod.split)

text \<open>
  C19. A setup run submits at most one mint. Whatever the setup's chain client answers from call to call, a
  fresh or an assisted setup submits at most one mint, and submits it only after that client answered in
  this very run that the address holds no NFT. The client is a parameter here; the program's own client
  gives this answer also when the chain cannot be reached, so an NFT of an earlier run is no obstacle then.
\<close>
theorem setup_mints_at_most_once:
  "(case run_setup_noninteractive_fresh T W dir cfg s of None \<Rightarrow> True
      | Some (s', r) \<Rightarrow> \<exists>t. ss_trace s' = ss_trace s @ t \<and> mint_guarded W (ss_trace s) t)
   \<and> (case run_setup_noninteractive_llm_assisted T W dir cfg password s of None \<Rightarrow> True
      | Some (s', r) \<Rightarrow> \<exists>t. ss_trace s' = ss_trace s @ t \<and> mint_guarded W (ss_trace s) t)"
  using guards_fresh [of W T dir cfg] guards_llm [of W T dir cfg password]
  by (auto simp: guards_def guarded_def split: option.split)

end
