(* ===== verification/SetupOutcome.thy ===== *)
theory SetupOutcome
  imports SetupProps
begin

text \<open>
  What a run leaves behind and reports: the configuration file against the result, the keystore, the
  end of the wait for funds, the budget of the first mint, and the scrubbed password file.
\<close>

section \<open>Runs that tell the truth\<close>

text \<open>\<open>leads c Q m\<close>: from a session whose configuration file is \<open>c\<close>, \<open>m\<close> can only end with \<open>Q\<close>.\<close>

definition leads :: "stored_file \<Rightarrow> (session \<Rightarrow> setup_result \<Rightarrow> bool) \<Rightarrow> run \<Rightarrow> bool" where
  "leads c Q m \<longleftrightarrow> (\<forall>s s' r. ss_config s = c \<longrightarrow> m s = Some (s', r) \<longrightarrow> Q s' r)"

lemma leads_finish: "(\<And>u. ss_config u = c \<Longrightarrow> Q u r) \<Longrightarrow> leads c Q (finish r)"
  by (simp add: leads_def finish_def)

lemma leads_step:
  assumes "stays A m" and "WriteConfig \<notin> A"
    and "\<And>u e. ss_config u = c \<Longrightarrow> Q u (fail_result name (Inl e) result)"
    and "\<And>x. leads c Q (k x)"
  shows "leads c Q (step_or_fail name result m k)"
  unfolding leads_def
proof (intro allI impI)
  fix s s' r
  assume c: "ss_config s = c" and "step_or_fail name result m k s = Some (s', r)"
  then obtain u q where u: "m s = Some (u, q)"
    "(case q of Inl e \<Rightarrow> Some (u, fail_result name (Inl e) result) | Inr x \<Rightarrow> k x u) = Some (s', r)"
    by (auto simp: step_or_fail_def bind_eq_Some_conv)
  have "ss_config u = c" using staysD [OF assms(1) u(1)] assms(2) c by (simp add: within_def)
  then show "Q s' r" using u(2) assms(3,4) unfolding leads_def by (cases q) auto
qed

lemma leads_choice:
  assumes "leads c Q (f x)" and "leads c Q (f y)"
  shows "leads c Q (\<lambda>s. let r = (if P s then x else y) in f r s)"
  using assms by (simp add: leads_def Let_def)

text \<open>The settings a successful result stands for: what it names, the withdrawal rules asked for, and the
  fixed settings of a new node.\<close>

definition stored_as_told :: "outside \<Rightarrow> withdrawal_input option \<Rightarrow> setup_result \<Rightarrow> node_settings \<Rightarrow> bool" where
  "stored_as_told W rules r x \<longleftrightarrow>
     validate_settings x = Inr ()
     \<and> sr_nft_id r = Some (ns_nft_id x) \<and> sr_trustee_address r = Some (ns_trustee_address x)
     \<and> sr_payout_address r = Some (ns_payout_address x) \<and> sr_network r = network_name (ns_network x)
     \<and> (\<forall>w. rules = Some w \<longrightarrow>
          unat (wc_holding_period_days (ns_withdrawal_rules x)) = unat (wi_holding_period_days w)
          \<and> wc_rushed_withdrawal_enabled (ns_withdrawal_rules x) = wi_rushed_withdrawal_enabled w)
     \<and> (\<exists>h. ns_strategy_auth_token x = ou_token W h) \<and> (\<exists>h. ns_created_at x = u64_str (ou_now W h))
     \<and> ns_contracts x = default_contract_addresses (ns_network x)
     \<and> ns_rpc_urls x = [if ns_network x = Testnet then ''https://rpc-testnet.supra.com'' else ''https://rpc-mainnet.supra.com'']
     \<and> length (ns_bootstrap_peers x) = 5 \<and> ns_markets x = [''EMM/KAY'', ''KAY/TEE'', ''TEE/EMM'']
     \<and> ns_token_decimals x = [] \<and> ns_sponsor_address x = [] \<and> pf_threshold_pct (ns_profit_taking x) = 0
     \<and> ns_strategy_port x = 9090 \<and> ns_gossip_port x = 9191 \<and> ns_chain_id x = 6
     \<and> ns_max_gas_amount x = 5000 \<and> ns_gas_unit_price x = 100000"

text \<open>The run ended because writing the configuration failed: the file is what the failed write left.\<close>

definition write_failed :: "outside \<Rightarrow> session \<Rightarrow> setup_result \<Rightarrow> bool" where
  "write_failed W s r \<longleftrightarrow> sr_step r = Some ''write_config''
     \<and> (\<exists>t e left. ss_trace s = t @ [WriteConfig] \<and> ou_write W t = Inl (e, left) \<and> ss_config s = left
          \<and> sr_error r = Some (Inl (ConfigErr (ConfigIoError e))))"

text \<open>What the result says of the configuration file, which was \<open>c\<close> before the run.\<close>

definition told :: "toolbox \<Rightarrow> outside \<Rightarrow> withdrawal_input option \<Rightarrow> stored_file \<Rightarrow> session \<Rightarrow> setup_result \<Rightarrow> bool" where
  "told T W rules c s r \<longleftrightarrow>
     (if sr_success r
      then sr_error r = None \<and> sr_step r = None
        \<and> (\<exists>settings. ss_config s = Some (Inr (save_settings (tb_print T) settings)) \<and> stored_as_told W rules r settings)
      else sr_error r \<noteq> None \<and> sr_step r \<noteq> None \<and> (ss_config s = c \<or> write_failed W s r))"

lemma told_silent: "told T (silent W) rules c = told T W rules c"
  by (simp add: fun_eq_iff told_def stored_as_told_def write_failed_def silent_def)

lemma told_unspecific: "told T W rules c s r \<Longrightarrow> told T W None c s r"
  by (auto simp: told_def stored_as_told_def split: if_splits)

lemma told_fail: "ss_config u = c \<Longrightarrow> told T W rules c u (fail_result name e result)"
  by (simp add: told_def fail_result_def)

text \<open>A run under way: nothing failed, and the addresses are those the settings will have.\<close>

definition on_way :: "validated_setup \<Rightarrow> string \<Rightarrow> setup_result \<Rightarrow> bool" where
  "on_way v address r \<longleftrightarrow> \<not> sr_success r \<and> sr_error r = None \<and> sr_step r = None
     \<and> sr_trustee_address r = Some address \<and> sr_payout_address r = Some (vs_payout_address v)
     \<and> sr_network r = network_name (vs_network v)"

lemma on_way_simps [simp]:
  "on_way v a (performed x r) = on_way v a r" "on_way v a (skipped x r) = on_way v a r"
  "on_way v a (warned x r) = on_way v a r" "on_way v a (r\<lparr>sr_gas_balance_supra := g\<rparr>) = on_way v a r"
  "on_way v a (r\<lparr>sr_nft_id := n\<rparr>) = on_way v a r" "on_way v a (r\<lparr>sr_escrow_balances := b\<rparr>) = on_way v a r"
  by (simp_all add: on_way_def performed_def skipped_def warned_def)

lemma nft_id_simps [simp]:
  "sr_nft_id (performed x r) = sr_nft_id r" "sr_nft_id (warned x r) = sr_nft_id r" "sr_nft_id (skipped x r) = sr_nft_id r"
  by (simp_all add: performed_def skipped_def warned_def)

definition good_rules :: "validated_setup \<Rightarrow> bool" where
  "good_rules v \<longleftrightarrow> validate_withdrawal_rules (vs_withdrawal_rules v) = Inr ()"

lemma rules_days:
  assumes "good_rules v"
  shows "unat (ucast (wi_holding_period_days (vs_withdrawal_rules v)) :: u32) = unat (wi_holding_period_days (vs_withdrawal_rules v))"
proof -
  have "wi_holding_period_days (vs_withdrawal_rules v) \<le> 367"
    using assms by (auto simp: good_rules_def validate_withdrawal_rules_def split: if_splits)
  then have "unat (wi_holding_period_days (vs_withdrawal_rules v)) \<le> 367" by (simp add: word_le_nat_alt)
  then show ?thesis by (simp add: unsigned_ucast_eq take_bit_nat_eq_self)
qed

lemma built_settings_valid:
  assumes "good_rules v"
  shows "validate_settings (build_node_config_from_chain v nft a token now) = Inr ()"
proof -
  let ?d = "wi_holding_period_days (vs_withdrawal_rules v)"
  have d: "?d \<noteq> 0" "?d \<le> 367"
    using assms by (auto simp: good_rules_def validate_withdrawal_rules_def split: if_splits)
  then have "unat ?d \<noteq> 0" "unat ?d \<le> 367" by (simp_all add: unat_eq_0 word_le_nat_alt)
  then have "unat (ucast ?d :: u32) = unat ?d" by (simp add: unsigned_ucast_eq take_bit_nat_eq_self)
  then have "\<not> (ucast ?d :: u32) < 1" "\<not> MAX_HOLDING_PERIOD_DAYS < (ucast ?d :: u32)"
    using \<open>unat ?d \<noteq> 0\<close> \<open>unat ?d \<le> 367\<close> by (simp_all add: word_less_nat_alt MAX_HOLDING_PERIOD_DAYS_def)
  then show ?thesis
    by (simp add: validate_settings_def build_node_config_from_chain_def withdrawal_from_def profit_off_def)
qed

text \<open>Writing the configuration settles the outcome.\<close>

lemma leads_write:
  assumes "\<And>h h'. leads (Some (Inr (save_settings (tb_print T)
          (build_node_config_from_chain v nft a (ou_token W h) (ou_now W h')))))
        (told T W rules c) (k (performed ''write_config'' result))"
  shows "leads c (told T W rules c) (write_step T W v nft a result k)"
  unfolding leads_def
proof (intro allI impI)
  fix s s' r
  assume c: "ss_config s = c" and run: "write_step T W v nft a result k s = Some (s', r)"
  let ?writing = "act_bind (generate_strategy_auth_token W) (\<lambda>auth_token. act_bind (system_now W) (\<lambda>now.
          write_config T W (build_node_config_from_chain v nft a auth_token now)))"
  obtain u q where u: "?writing s = Some (u, q)"
    "(case q of Inl e \<Rightarrow> Some (u, fail_result ''write_config'' (Inl e) result)
      | Inr x \<Rightarrow> k (performed ''write_config'' result) u) = Some (s', r)"
    using run by (auto simp: write_step_def step_or_fail_def bind_eq_Some_conv)
  show "told T W rules c s' r"
  proof (cases q)
    case (Inl e)
    then have "s' = u" and r: "r = fail_result ''write_config'' (Inl e) result" using u(2) by simp_all
    have "ss_config u = c \<or> write_failed W u r"
      using u(1) Inl c r
      by (auto simp: act_bind_Some generate_strategy_auth_token_def system_now_def call_def write_config_def
          write_failed_def fail_result_def split: sum.splits)
    then show ?thesis using r \<open>s' = u\<close> by (simp add: told_def fail_result_def)
  next
    case (Inr x)
    with u(1) obtain h h' where
      "ss_config u = Some (Inr (save_settings (tb_print T) (build_node_config_from_chain v nft a (ou_token W h) (ou_now W h'))))"
      by (auto simp: act_bind_Some generate_strategy_auth_token_def system_now_def call_def write_config_def
          split: sum.splits)
    moreover have "k (performed ''write_config'' result) u = Some (s', r)" using u(2) Inr by simp
    ultimately show ?thesis using assms unfolding leads_def by blast
  qed
qed

lemma told_success:
  assumes "on_way v a r" and "sr_nft_id r = Some nft" and "good_rules v"
    and "ss_config u = Some (Inr (save_settings (tb_print T) (build_node_config_from_chain v nft a (ou_token W h) (ou_now W h'))))"
  shows "told T W (Some (vs_withdrawal_rules v)) c u (r\<lparr>sr_success := True\<rparr>)" "told T W (Some (vs_withdrawal_rules v)) c u (r\<lparr>sr_gas_balance_supra := g, sr_success := True\<rparr>)"
    "told T W (Some (vs_withdrawal_rules v)) c u ((warned x r)\<lparr>sr_success := True\<rparr>)"
proof -
  let ?settings = "build_node_config_from_chain v nft a (ou_token W h) (ou_now W h')"
  have "told T W (Some (vs_withdrawal_rules v)) c u r'" if "sr_success r'" "sr_error r' = None" "sr_step r' = None" "sr_nft_id r' = Some nft"
    "sr_trustee_address r' = Some a" "sr_payout_address r' = Some (vs_payout_address v)"
    "sr_network r' = network_name (vs_network v)" for r'
  proof -
    have "stored_as_told W (Some (vs_withdrawal_rules v)) r' ?settings"
      unfolding stored_as_told_def
    proof (intro conjI)
      show "validate_settings ?settings = Inr ()" by (rule built_settings_valid [OF assms(3)])
    qed (use that in \<open>auto simp: build_node_config_from_chain_def withdrawal_from_def profit_off_def rules_days [OF assms(3)]
          split: network.split\<close>)
    then show ?thesis using that assms(4) by (auto simp: told_def)
  qed
  then show "told T W (Some (vs_withdrawal_rules v)) c u (r\<lparr>sr_success := True\<rparr>)" "told T W (Some (vs_withdrawal_rules v)) c u (r\<lparr>sr_gas_balance_supra := g, sr_success := True\<rparr>)"
    "told T W (Some (vs_withdrawal_rules v)) c u ((warned x r)\<lparr>sr_success := True\<rparr>)"
    using assms(1,2) by (simp_all add: on_way_def warned_def)
qed

lemma leads_snapshot:
  assumes "\<And>u g x. ss_config u = c' \<Longrightarrow> Q u (r\<lparr>sr_gas_balance_supra := g, sr_success := True\<rparr>)
      \<and> Q u ((warned x r)\<lparr>sr_success := True\<rparr>)"
  shows "leads c' Q (final_snapshot T W a r)"
  using assms by (auto simp: leads_def final_snapshot_def get_all_balances_def call_def finish_def split: sum.splits)

lemma leads_finish_setup:
  assumes "on_way v a result" and "sr_nft_id result = Some nft" and "good_rules v"
  shows "leads c (told T W (Some (vs_withdrawal_rules v)) c) (finish_setup T W v a nft result)"
  unfolding finish_setup_def
proof (rule leads_write)
  fix h h'
  let ?c' = "Some (Inr (save_settings (tb_print T) (build_node_config_from_chain v nft a (ou_token W h) (ou_now W h'))))"
    and ?r = "performed ''write_config'' result"
  have r: "on_way v a ?r" "sr_nft_id ?r = Some nft" using assms by simp_all
  have "leads ?c' (told T W (Some (vs_withdrawal_rules v)) c) (finish (?r\<lparr>sr_success := True\<rparr>))"
    by (rule leads_finish) (rule told_success(1) [OF r assms(3)])
  moreover have "leads ?c' (told T W (Some (vs_withdrawal_rules v)) c) (final_snapshot T W a ?r)"
    by (rule leads_snapshot) (intro conjI told_success(2,3) [OF r assms(3)])
  ultimately show "leads ?c' (told T W (Some (vs_withdrawal_rules v)) c) (if \<not> vs_bootstrap_only v then final_snapshot T W a ?r
      else finish (?r\<lparr>sr_success := True\<rparr>))" by simp
qed

lemma leads_trading:
  assumes "on_way v a result" and "\<And>r. on_way v a r \<Longrightarrow> sr_nft_id r = sr_nft_id result \<Longrightarrow> leads c (told T W (Some (vs_withdrawal_rules v)) c) (k r)"
  shows "leads c (told T W (Some (vs_withdrawal_rules v)) c) (trading_step W v a nft f result k)"
  unfolding trading_step_def Let_def
  by (auto intro!: assms leads_step [OF stays_register] leads_step [OF stays_auto_mint] told_fail simp: assms(1))

lemma leads_nft:
  assumes "on_way v a result" and "\<And>i r. on_way v a r \<Longrightarrow> leads c (told T W (Some (vs_withdrawal_rules v)) c) (k i r)"
  shows "leads c (told T W (Some (vs_withdrawal_rules v)) c) (nft_step W v a public result k)"
proof -
  have mint: "stays (- {WriteConfig}) (mint_nft_pair W public b a)" for b
    unfolding mint_nft_pair_def
    by (intro stays stays_mono [OF stays_prompt_confirm]) auto
  show ?thesis
    unfolding nft_step_def
    by (rule leads_step [OF stays_existing])
      (auto intro!: assms leads_step [OF mint] told_fail simp: assms(1) split: existing_nft.split)
qed

lemma leads_steps:
  assumes "on_way v (fst keys) result" and "good_rules v"
  shows "leads c (told T W (Some (vs_withdrawal_rules v)) c) (setup_steps T W v keys result)"
proof -
  obtain a public secret where keys: "keys = (a, public, secret)" by (cases keys) auto
  have signer: "stays reads (set_signer secret public a)" by (intro stays) simp
  show ?thesis
    unfolding setup_steps_def keys prod.case
    by (intro leads_step [OF signer] leads_step [OF stays_funding] leads_nft leads_trading leads_finish_setup told_fail assms(2))
      (use assms(1) keys in simp_all)
qed

lemma leads_after_keystore:
  assumes "on_way v (fst keys) result" and "good_rules v"
  shows "leads c (told T W (Some (vs_withdrawal_rules v)) c) (run_setup_after_keystore T W dir v keys result)"
  unfolding run_setup_after_keystore_def [abs_def]
  by (rule leads_choice; rule leads_steps [where W = "silent W", unfolded told_silent]) (simp_all add: assms)

lemma validated_rules: "validate_common cfg = Inr v \<Longrightarrow> good_rules v"
  by (auto simp: validate_common_def res_bind_Inr good_rules_def)

lemma common_rules: "validate_common cfg = Inr v \<Longrightarrow> vs_withdrawal_rules v = sc_withdrawal_rules cfg"
  by (auto simp: validate_common_def res_bind_Inr)

lemma init_on_way:
  "on_way v a (performed x ((performed y (init_result v mode))\<lparr>sr_trustee_address := Some a\<rparr>))"
  by (simp add: on_way_def performed_def init_result_def with_mode_def fresh_in_progress_def network_text_def
      network_name_def split: network.split)

lemma leads_fail: "leads c (told T W rules c) (finish (fail_result x e r))"
  by (rule leads_finish) (rule told_fail)

lemma leads_fresh: "leads c (told T W (Some (sc_withdrawal_rules cfg)) c) (run_setup_noninteractive_fresh T W dir cfg)"
proof (cases "validate_for_fresh_setup cfg")
  case (Inr p)
  obtain v password where p: "p = (v, password)" by fastforce
  with Inr have v: "validate_common cfg = Inr v" by (auto simp: validate_for_fresh_setup_def res_bind_Inr)
  then have "good_rules v" by (rule validated_rules)
  moreover have "stays (- {WriteConfig}) (generate_keystore_noninteractive T W path password)" for path
    unfolding generate_keystore_noninteractive_def [abs_def] by (intro stays) auto
  ultimately show ?thesis
    unfolding run_setup_noninteractive_fresh_def Inr p Let_def common_rules [OF v, symmetric] sum.case prod.case
    by (intro leads_step leads_after_keystore init_on_way told_fail) auto
qed (simp add: run_setup_noninteractive_fresh_def leads_fail)

lemma leads_llm: "leads c (told T W (Some (sc_withdrawal_rules cfg)) c) (run_setup_noninteractive_llm_assisted T W dir cfg password)"
proof (cases "validate_for_llm_assisted cfg")
  case (Inl e)
  have "told T W rules c u (with_mode m (fail_result x f r))" if "ss_config u = c" for rules u m x f r
    using that by (simp add: told_def with_mode_def fail_result_def)
  then show ?thesis by (simp add: run_setup_noninteractive_llm_assisted_def Inl leads_finish)
next
  case (Inr v)
  then have v: "validate_common cfg = Inr v" by (simp add: validate_for_llm_assisted_def split: if_splits)
  then have "good_rules v" by (rule validated_rules)
  then show ?thesis
    unfolding run_setup_noninteractive_llm_assisted_def Inr Let_def common_rules [OF v, symmetric] sum.case
    by (intro leads_step [OF stays_unlock [of "{}"]] leads_after_keystore init_on_way told_fail) auto
qed

lemma leads_restore_write:
  assumes "on_way (restored_setup n a) a result" and "sr_nft_id result = Some nft"
  shows "leads c (told T W (Some withdrawal_input_default) c) (restore_write T W dir n a nft result)"
proof -
  have v: "restored_setup n (or_default a (sr_payout_address result)) = restored_setup n a"
    using assms(1) by (simp add: on_way_def restored_setup_def)
  have rules: "good_rules (restored_setup n a)"
    by (simp add: good_rules_def restored_setup_def validate_withdrawal_rules_def withdrawal_input_default_def
        default_holding_days_def)
  have written: "leads c (told T W (Some withdrawal_input_default) c) (write_step T W (restored_setup n a) nft a r (\<lambda>result. finish (result\<lparr>sr_success := True\<rparr>)))"
    if "on_way (restored_setup n a) a r" "sr_nft_id r = Some nft" for r
    using told_success(1) [OF _ _ rules] that by (intro leads_write leads_finish) (simp add: restored_setup_def)
  show ?thesis
    unfolding restore_write_def [abs_def] v by (rule leads_choice; rule written) (simp_all add: assms)
qed

lemma read_escrow_result:
  "read_escrow T W nft ts b any r s = Some (u, Inr (b', any', r')) \<Longrightarrow>
     on_way v a r' = on_way v a r \<and> sr_nft_id r' = sr_nft_id r"
proof (induction ts arbitrary: b any r s)
  case (Cons t ts)
  obtain token meta where t: "t = (token, meta)" by fastforce
  from iffD1 [OF act_try_Some Cons.prems [unfolded t read_escrow.simps]]
  obtain w q where "(case q of
         Inr bal \<Rightarrow> read_escrow T W nft ts (set_balance token bal b) (any \<or> 0 < bal) r
       | Inl e \<Rightarrow> give (b, any, warned (''get_escrow_balance('' @ token @ '') failed: '' @ tb_show T e
                     @ '' -- restore continues without escrow snapshot'') r)) w = Some (u, Inr (b', any', r'))"
    by blast
  then show ?case using Cons.IH by (cases q) (auto simp: give_def)
qed (simp add: give_def)

lemma leads_step_post:
  assumes "stays A m" and "WriteConfig \<notin> A"
    and "\<And>u e. ss_config u = c \<Longrightarrow> Q u (fail_result name (Inl e) result)"
    and "\<And>s u x. m s = Some (u, Inr x) \<Longrightarrow> leads c Q (k x)"
  shows "leads c Q (step_or_fail name result m k)"
proof -
  let ?k = "\<lambda>x. if \<exists>s u. m s = Some (u, Inr x) then k x else (\<lambda>_. None)"
  have "step_or_fail name result m ?k = step_or_fail name result m k"
  proof
    show "step_or_fail name result m ?k s = step_or_fail name result m k s" for s
    proof (cases "m s")
      case (Some p)
      obtain u q where "p = (u, q)" by fastforce
      with Some show ?thesis by (cases q) (auto simp: step_or_fail_def)
    qed (simp add: step_or_fail_def)
  qed
  moreover have "leads c Q (step_or_fail name result m ?k)"
  proof (rule leads_step)
    show "stays A m" "WriteConfig \<notin> A" by (fact assms(1), fact assms(2))
    show "Q u (fail_result name (Inl e) result)" if "ss_config u = c" for u e using that by (rule assms(3))
    show "leads c Q (?k x)" for x using assms(4) by (auto simp: leads_def)
  qed
  ultimately show ?thesis by simp
qed

lemma leads_restore_escrow:
  assumes "on_way (restored_setup n a) a result" and "sr_nft_id result = Some nft"
  shows "leads c (told T W (Some withdrawal_input_default) c) (restore_escrow T W dir n a nft result)"
  unfolding restore_escrow_def
proof (rule leads_step_post)
  show "stays reads (read_escrow T W nft (network_token_metadata_addresses T n) escrow_balances_default False result)"
    by (intro stays) simp
  fix s u x
  assume read: "read_escrow T W nft (network_token_metadata_addresses T n) escrow_balances_default False result s
      = Some (u, Inr x)"
  obtain b any r where x: "x = (b, any, r)" by (cases x)
  have "on_way (restored_setup n a) a r" "sr_nft_id r = Some nft"
    using read_escrow_result read assms x by (metis)+
  then show "leads c (told T W (Some withdrawal_input_default) c) (case x of (balances, any, result) \<Rightarrow>
          let result' = performed ''read_escrow'' (result\<lparr>sr_escrow_balances := Some balances\<rparr>)
          in restore_write T W dir n a nft
               (if \<not> any then warned ''escrow is empty -- if the NFT was previously trading this likely means tokens were withdrawn or the heartbeat lapsed. Trading will start with no inventory; request a mint via your strategy or `deadmkt-node deposit`.'' result'
                else result'))"
    by (simp add: x Let_def leads_restore_write)
qed (simp_all add: told_fail)

lemma restore_on_way:
  "on_way (restored_setup n a) a (performed y ((warned x ((performed z
      ((with_mode Restore (fresh_in_progress (network_text n) role))\<lparr>sr_trustee_address := Some a\<rparr>))\<lparr>sr_payout_address := Some a\<rparr>))
      \<lparr>sr_nft_id := Some nft\<rparr>))"
  by (simp add: on_way_def performed_def warned_def with_mode_def fresh_in_progress_def restored_setup_def
      network_text_def network_name_def split: network.split)

lemma leads_restore: "leads c (told T W (Some withdrawal_input_default) c) (run_setup_noninteractive_restore T W dir password n)"
proof -
  have signer: "stays reads (set_signer secret public a)" for secret public a by (intro stays) simp
  show ?thesis
    unfolding run_setup_noninteractive_restore_def restore_nft_def Let_def
    by (rule leads_step [OF stays_unlock [of "{}"]])
      (auto intro!: told_fail leads_step [OF signer] leads_step [OF stays_existing] leads_fail leads_restore_escrow restore_on_way
        split: existing_nft.split)
qed

text \<open>
  C20. The result tells the truth about the configuration. After a fresh setup, an assisted setup or a
  restore, whatever the chain and the disk do: if the result says success, no error or step is
  reported and the configuration file holds settings that pass validation, of the NFT, the trustee,
  the payout address and the network the result names, with the withdrawal rules asked for (90 days and
  rushed withdrawals after a restore), a drawn strategy token, the addresses and the endpoint of that
  network and the fixed markets, ports, chain id and gas settings. If not, the result names an error and
  the step that failed, and the file is as it was before the run; the one exception is a run that ended
  because writing the file failed: it names that step with the error of the disk, and the file is what
  the failed write left, which may be damaged.
\<close>
theorem setup_result_truthful:
  "(case run_setup_noninteractive_fresh T W dir cfg s of None \<Rightarrow> True
      | Some (s', r) \<Rightarrow> told T W (Some (sc_withdrawal_rules cfg)) (ss_config s) s' r)
   \<and> (case run_setup_noninteractive_llm_assisted T W dir cfg password s of None \<Rightarrow> True
      | Some (s', r) \<Rightarrow> told T W (Some (sc_withdrawal_rules cfg)) (ss_config s) s' r)
   \<and> (case run_setup_noninteractive_restore T W dir password n s of None \<Rightarrow> True
      | Some (s', r) \<Rightarrow> told T W (Some \<lparr>wi_holding_period_days = 90, wi_rushed_withdrawal_enabled = True\<rparr>) (ss_config s) s' r)"
proof -
  have default_rules: "withdrawal_input_default = \<lparr>wi_holding_period_days = 90, wi_rushed_withdrawal_enabled = True\<rparr>"
    by (simp add: withdrawal_input_default_def default_holding_days_def default_true_def)
  show ?thesis
    using leads_fresh [of "ss_config s" T W cfg dir] leads_llm [of "ss_config s" T W cfg dir password]
      leads_restore [of "ss_config s" T W dir password n]
    by (simp add: leads_def default_rules split: option.split)
qed

end
