(* ===== verification/SetupEdges.thy ===== *)
theory SetupEdges
  imports SetupOutcome
begin

text \<open>
  The edges of the setup: keystores that are already there, the wait for funds, the arithmetic of the
  first mint, and the password in the setup file.
\<close>

section \<open>An existing keystore\<close>

definition map_result :: "('a \<Rightarrow> 'b) \<Rightarrow> 'e + 'a \<Rightarrow> 'e + 'b" where
  "map_result f r = (case r of Inl e \<Rightarrow> Inl e | Inr x \<Rightarrow> Inr (f x))"

lemma stays_keystore_steps: "stays (- {WriteKeystore}) (setup_steps T W v keys result)"
proof -
  obtain a public secret where keys: "keys = (a, public, secret)" by (cases keys) auto
  have sub: "reads \<subseteq> - {WriteKeystore}" "trades \<subseteq> - {WriteKeystore}" by auto
  have mint: "stays (- {WriteKeystore}) (mint_nft_pair W public b a)" for b
    unfolding mint_nft_pair_def by (intro stays stays_mono [OF stays_prompt_confirm sub(1)]) auto
  show ?thesis
    unfolding setup_steps_def keys prod.case nft_step_def trading_step_def Let_def
    by (intro stays mint stays_finish_setup stays_mono [OF stays_funding sub(1)] stays_mono [OF stays_existing sub(1)]
        stays_mono [OF stays_register sub(2)] stays_mono [OF stays_auto_mint sub(2)]) auto
qed

lemma stays_keystore_after: "stays (- {WriteKeystore}) (run_setup_after_keystore T W dir v keys result)"
  using stays_keystore_steps by (simp add: stays_def run_setup_after_keystore_def Let_def)

lemma stays_keystore_llm: "stays (- {WriteKeystore}) (run_setup_noninteractive_llm_assisted T W dir cfg password)"
  unfolding run_setup_noninteractive_llm_assisted_def Let_def
  by (cases "validate_for_llm_assisted cfg") (simp_all add: stays_finish stays_step [OF stays_unlock stays_keystore_after])

text \<open>
  A non-interactive setup never replaces a keystore. A fresh setup that finds one fails at once, and
  leaves it and the chain alone; an assisted setup works with the one that is there.
\<close>
theorem keystore_survives:
  "(case run_setup_noninteractive_fresh T W dir cfg (s\<lparr>ss_keystore := Some f\<rparr>) of
      None \<Rightarrow> False
    | Some (s', r) \<Rightarrow> s' = s\<lparr>ss_keystore := Some f\<rparr> \<and> \<not> sr_success r \<and> sr_error r \<noteq> None)
   \<and> (case run_setup_noninteractive_llm_assisted T W dir cfg password s of
      None \<Rightarrow> True
    | Some (s', r) \<Rightarrow> ss_keystore s' = ss_keystore s)"
proof
  show "case run_setup_noninteractive_fresh T W dir cfg (s\<lparr>ss_keystore := Some f\<rparr>) of
      None \<Rightarrow> False
    | Some (s', r) \<Rightarrow> s' = s\<lparr>ss_keystore := Some f\<rparr> \<and> \<not> sr_success r \<and> sr_error r \<noteq> None"
    by (cases "validate_for_fresh_setup cfg")
      (auto simp: run_setup_noninteractive_fresh_def finish_def fail_result_def step_or_fail_def
        generate_keystore_noninteractive_def abort_with_def Let_def split: prod.split)
  show "case run_setup_noninteractive_llm_assisted T W dir cfg password s of
      None \<Rightarrow> True
    | Some (s', r) \<Rightarrow> ss_keystore s' = ss_keystore s"
    using stays_keystore_llm [of T W dir cfg password]
    by (auto simp: stays_def within_def split: option.split)
qed

lemma prompt_password_once:
  "prompt_password W False s = Some (s\<lparr>ss_trace := ss_trace s @ [ReadLine]\<rparr>, map_result trim_newlines (ou_line W (ss_trace s)))"
  by (subst prompt_password.simps)
    (auto simp: act_bind_def read_line_def call_def give_def map_result_def split: sum.split)

lemma saved_keystore:
  "write_keystore T W secret public password s = Some (s', Inr ()) \<Longrightarrow>
     \<exists>salt nonce. save_keystore (tb_crypto T) (tb_vault T) salt nonce (tb_print T) secret public password
       = Inr (ss_keystore s')"
  by (auto simp: write_keystore_def Let_def split: prod.splits sum.splits) blast+

lemma act_bind_Inr:
  "act_bind m f s = Some (s', Inr y) \<longleftrightarrow> (\<exists>u x. m s = Some (u, Inr x) \<and> f x u = Some (s', Inr y))"
  by (auto simp: act_bind_Some split: sum.splits) (metis sum.exhaust)+

text \<open>
  The wizard throws a keystore away on a mistyped password. With a keystore on disk and a first
  password that does not open it, whenever the wizard's key step ends well it has drawn a new key pair
  and written it over the old keystore: the file now holds the new key, encrypted with a password typed after.
\<close>
theorem wizard_overwrites_keystore:
  assumes "ss_keystore s = Some f" and "ou_line W (ss_trace s) = Inr typed"
    and "load_keystore (tb_crypto T) (tb_vault T) (tb_parse T) (Some f) (trim (trim_newlines typed)) = Some (Inl e)"
    and "wizard_generate_keypair T W s = Some (s', Inr (address, public, secret))"
  shows "(secret, public) = ou_keypair W (ss_trace s @ [ReadLine]) \<and> address = derive_trustee_address T public
    \<and> (\<exists>salt nonce password. save_keystore (tb_crypto T) (tb_vault T) salt nonce (tb_print T) secret public password
         = Inr (ss_keystore s'))"
proof -
  let ?s = "s\<lparr>ss_trace := ss_trace s @ [ReadLine]\<rparr>"
  let ?pair = "ou_keypair W (ss_trace s @ [ReadLine])"
  let ?fresh = "act_bind (generate_keypair W) (\<lambda>(secret, public).
                act_bind (prompt_password W True) (\<lambda>password.
                act_bind (write_keystore T W secret public (trim password)) (\<lambda>_.
                  give (derive_trustee_address T public, public, secret))))"
  have first: "prompt_password W False s = Some (?s, Inr (trim_newlines typed))"
    by (simp add: prompt_password_once assms(2) map_result_def)
  have "open_keystore T (trim (trim_newlines typed)) ?s = Some (?s, Inl (KeystoreErr e))"
    using assms(1,3) by (simp add: open_keystore_def)
  with assms(1,4) first have fresh: "?fresh ?s = Some (s', Inr (address, public, secret))"
    by (simp add: wizard_generate_keypair_def Let_def act_bind_def [of "prompt_password W False"] act_try_def)
  obtain sk pk where pair: "?pair = (sk, pk)" by fastforce
  from iffD1 [OF act_bind_Inr fresh] obtain w x where w: "generate_keypair W ?s = Some (w, Inr x)"
    and rest: "(case x of (secret, public) \<Rightarrow>
                act_bind (prompt_password W True) (\<lambda>password.
                act_bind (write_keystore T W secret public (trim password)) (\<lambda>_.
                  give (derive_trustee_address T public, public, secret)))) w = Some (s', Inr (address, public, secret))"
    by blast
  from w pair have "x = (sk, pk)" by (auto simp: generate_keypair_def call_def)
  from iffD1 [OF act_bind_Inr rest [unfolded this prod.case]] obtain u password where
    u: "act_bind (write_keystore T W sk pk (trim password)) (\<lambda>_.
      give (derive_trustee_address T pk, pk, sk)) u = Some (s', Inr (address, public, secret))"
    by blast
  then have saved: "write_keystore T W sk pk (trim password) u = Some (s', Inr ())"
    and keys: "address = derive_trustee_address T pk" "public = pk" "secret = sk"
    by (auto simp: act_bind_Inr give_def)
  from saved_keystore [OF saved] obtain salt nonce where
    "save_keystore (tb_crypto T) (tb_vault T) salt nonce (tb_print T) sk pk (trim password) = Inr (ss_keystore s')" by blast
  then show ?thesis unfolding keys pair by (intro conjI exI) simp_all
qed

text \<open>A keystore that is no JSON, a typed password, and a new one typed twice.\<close>

definition example_toolbox :: toolbox where
  "example_toolbox = \<lparr>tb_crypto = example_crypto, tb_vault = example_vault, tb_sha3 = (\<lambda>b. replicate 32 7),
     tb_parse = (\<lambda>text. if text = ''junk'' then None else json_of_text text), tb_print = text_of_json, tb_show = (\<lambda>_. ''error'')\<rparr>"

definition example_world :: outside where
  "example_world = \<lparr>ou_submit = (\<lambda>_ _. Inl Aborted), ou_query = (\<lambda>_ _. Inl Aborted), ou_balances = (\<lambda>_ _. Inl Aborted),
     ou_is_trustee = (\<lambda>_ _. Inl Aborted), ou_nft_config = (\<lambda>_. Inl Aborted), ou_metadata = (\<lambda>_ _. Inl Aborted),
     ou_mint_state = (\<lambda>_ _. Inl Aborted), ou_claimable_at = (\<lambda>_ _. Inl Aborted), ou_line = (\<lambda>_. Inr ''secret''),
     ou_interrupted = (\<lambda>_. False), ou_now = (\<lambda>_. 0), ou_keypair = (\<lambda>_. (replicate 32 3, replicate 32 4)),
     ou_token = (\<lambda>_. ''token''), ou_salt_nonce = (\<lambda>_. (replicate 32 1, replicate 12 2)), ou_write = (\<lambda>_. Inr ())\<rparr>"

definition example_setup_session :: session where
  "example_setup_session = \<lparr>ss_trace = [], ss_keystore = Some (Inr ''junk''), ss_config = None\<rparr>"

lemma example_save:
  "\<exists>st. save_keystore example_crypto example_vault (replicate 32 1) (replicate 12 2) text_of_json
       (replicate 32 3) (replicate 32 4) password = Inr st"
  by (simp add: save_keystore_def derive_key_def new_cipher_def example_vault_def)

theorem wizard_overwrites_keystore_witness:
  "\<exists>s' address. wizard_generate_keypair example_toolbox example_world example_setup_session
       = Some (s', Inr (address, replicate 32 4, replicate 32 3))
     \<and> (\<exists>salt nonce password. save_keystore example_crypto example_vault salt nonce text_of_json
          (replicate 32 3) (replicate 32 4) password = Inr (ss_keystore s'))"
proof -
  have typed: "ou_line example_world h = Inr ''secret''" for h by (simp add: example_world_def)
  have shut: "load_keystore (tb_crypto example_toolbox) (tb_vault example_toolbox) (tb_parse example_toolbox)
      (Some (Inr ''junk'')) password = Some (Inl (KsJsonError ''junk''))" for password
    by (simp add: load_keystore_def read_json_def example_toolbox_def)
  obtain st where st: "save_keystore example_crypto example_vault (replicate 32 1) (replicate 12 2) text_of_json
       (replicate 32 3) (replicate 32 4) (trim (trim_newlines ''secret'')) = Inr st" using example_save by blast
  have twice: "prompt_password example_world True s
      = Some (s\<lparr>ss_trace := ss_trace s @ [ReadLine, ReadLine]\<rparr>, Inr (trim_newlines ''secret''))" for s
    by (subst prompt_password.simps) (simp add: act_bind_def read_line_def call_def give_def typed)
  have opened: "open_keystore example_toolbox password s = Some (s, Inl (KeystoreErr (KsJsonError ''junk'')))"
    if "ss_keystore s = Some (Inr ''junk'')" for password s
    using that shut by (simp add: open_keystore_def)
  have pair: "generate_keypair example_world s
      = Some (s\<lparr>ss_trace := ss_trace s @ [NewKeypair]\<rparr>, Inr (replicate 32 3, replicate 32 4))" for s
    by (simp add: generate_keypair_def call_def example_world_def)
  have written: "write_keystore example_toolbox example_world (replicate 32 3) (replicate 32 4) (trim (trim_newlines ''secret'')) s
      = Some (s\<lparr>ss_trace := ss_trace s @ [WriteKeystore], ss_keystore := st\<rparr>, Inr ())" for s
    using st by (simp add: write_keystore_def example_world_def example_toolbox_def)
  have run: "\<exists>s' address. wizard_generate_keypair example_toolbox example_world example_setup_session
       = Some (s', Inr (address, replicate 32 4, replicate 32 3))"
    by (simp add: wizard_generate_keypair_def Let_def act_bind_def prompt_password_once typed map_result_def act_try_def
        opened pair twice written give_def example_setup_session_def del: replicate_Suc)
  then obtain s' address where key: "wizard_generate_keypair example_toolbox example_world example_setup_session
       = Some (s', Inr (address, replicate 32 4, replicate 32 3))" by blast
  have "ss_keystore example_setup_session = Some (Inr ''junk'')" by (simp add: example_setup_session_def)
  from wizard_overwrites_keystore [OF this typed shut key] key show ?thesis
    by (auto simp: example_toolbox_def)
qed

section \<open>Waiting for funds\<close>

text \<open>Round \<open>k\<close> of the wait finds nothing and is not interrupted.\<close>

definition wait_log :: "string \<Rightarrow> nat \<Rightarrow> nat \<Rightarrow> effect list" where
  "wait_log a i k = concat (replicate k [GetAllBalances a, Sleep i])"

definition idle_round :: "outside \<Rightarrow> string \<Rightarrow> nat \<Rightarrow> effect list \<Rightarrow> nat \<Rightarrow> bool" where
  "idle_round W a i h k \<longleftrightarrow>
     (\<exists>b. ou_balances W (h @ wait_log a i k) a = Inr b \<and> wb_supra b = 0 \<and> wb_tokens b = [])
     \<and> \<not> ou_interrupted W (h @ wait_log a i k @ [GetAllBalances a])"

lemma wait_log_simps [simp]: "wait_log a i 0 = []" "wait_log a i (Suc k) = GetAllBalances a # Sleep i # wait_log a i k"
  by (simp_all add: wait_log_def)

lemma wait_step:
  "wait_for_supra W a i s =
     (if idle_round W a i (ss_trace s) 0
      then wait_for_supra W a i (s\<lparr>ss_trace := ss_trace s @ [GetAllBalances a, Sleep i]\<rparr>)
      else Some (case ou_balances W (ss_trace s) a of
          Inl e \<Rightarrow> (s\<lparr>ss_trace := ss_trace s @ [GetAllBalances a]\<rparr>, Inl e)
        | Inr b \<Rightarrow> if 0 < wb_supra b \<or> wb_tokens b \<noteq> []
            then (s\<lparr>ss_trace := ss_trace s @ [GetAllBalances a]\<rparr>, Inr (wb_supra b))
            else (s\<lparr>ss_trace := ss_trace s @ [GetAllBalances a, Sleep i]\<rparr>, Inl Aborted)))"
  by (subst wait_for_supra.simps)
    (auto simp: act_bind_def get_all_balances_def call_def cancellable_sleep_def give_def idle_round_def
      word_gt_0 split: sum.split)

lemma idle_shift:
  "idle_round W a i (h @ [GetAllBalances a, Sleep i]) k = idle_round W a i h (Suc k)"
  by (simp add: idle_round_def)

lemma wait_returns:
  "\<not> idle_round W a i (ss_trace s) k \<Longrightarrow> \<exists>y. wait_for_supra W a i s = Some y"
proof (induction k arbitrary: s)
  case 0
  then show ?case by (subst wait_step) simp
next
  case (Suc k)
  show ?case
  proof (cases "idle_round W a i (ss_trace s) 0")
    case True
    have "\<exists>y. wait_for_supra W a i (s\<lparr>ss_trace := ss_trace s @ [GetAllBalances a, Sleep i]\<rparr>) = Some y"
      using Suc by (intro Suc.IH) (simp add: idle_shift)
    with True show ?thesis by (subst wait_step) simp
  qed (subst wait_step, simp)
qed

lemma wait_forever:
  assumes "wait_for_supra W a i s = Some y"
  shows "\<exists>k. \<not> idle_round W a i (ss_trace s) k"
  using assms
proof (rule wait_for_supra.raw_induct [where P = "\<lambda>W a i s y. \<exists>k. \<not> idle_round W a i (ss_trace s) k", rotated])
  fix f W a i s y
  assume ih: "\<And>W a i s y. f W a i s = Some y \<Longrightarrow> \<exists>k. \<not> idle_round W a i (ss_trace s) k"
    and round: "act_bind (get_all_balances W a) (\<lambda>balance u.
       if 0 < wb_supra balance \<or> wb_tokens balance \<noteq> [] then give (wb_supra balance) u
       else act_bind (cancellable_sleep W i) (\<lambda>_ v. f W a i v) u) s = Some y"
  show "\<exists>k. \<not> idle_round W a i (ss_trace s) k"
  proof (cases "idle_round W a i (ss_trace s) 0")
    case True
    then obtain b where "ou_balances W (ss_trace s) a = Inr b" "wb_supra b = 0" "wb_tokens b = []"
      "\<not> ou_interrupted W (ss_trace s @ [GetAllBalances a])" by (auto simp: idle_round_def)
    with round have "f W a i (s\<lparr>ss_trace := ss_trace s @ [GetAllBalances a, Sleep i]\<rparr>) = Some y"
      by (simp add: act_bind_def get_all_balances_def call_def cancellable_sleep_def)
    from ih [OF this] show ?thesis by (auto simp: idle_shift)
  qed blast
qed

text \<open>
  C34. The wait for funds ends exactly when it should. On the test network it goes on for ever if and
  only if every round finds no SUPRA and no token, the chain never fails and the operator never
  interrupts; otherwise it returns.
\<close>
theorem funding_wait_ends_iff:
  "wait_for_funding W a Testnet i s = None \<longleftrightarrow> (\<forall>k. idle_round W a i (ss_trace s) k)"
proof -
  have "wait_for_funding W a Testnet i s = None \<longleftrightarrow> wait_for_supra W a i s = None"
    by (cases "wait_for_supra W a i s") (auto simp: wait_for_funding_def act_bind_def give_def split: sum.split)
  also have "\<dots> \<longleftrightarrow> (\<forall>k. idle_round W a i (ss_trace s) k)"
    using wait_returns wait_forever by (metis not_None_eq)
  finally show ?thesis .
qed

section \<open>The first mint\<close>

lemma mint_total_nat:
  "unat (mint_total b) = unat (b * 70) div 100 div 100 div 1000000 * 1000000"
proof -
  have "unat (b * 70) div 100 div 100 div 1000000 * 1000000 \<le> unat (b * 70)"
    by (rule order_trans [OF div_times_less_eq_dividend order_trans [OF div_le_dividend div_le_dividend]])
  also have "\<dots> < 2 ^ 64" using unat_bound [of "b * 70"] by simp
  finally show ?thesis
    by (simp add: mint_total_def MINT_SUPRA_FRACTION_PCT_def SUPRA_PER_TOKEN_UNIT_def Let_def unat_div unat_word_ariths(2))
qed

lemma mint_total_small: "unat (mint_total b) < 2 ^ 51" "10000 * unat (mint_total b) \<le> unat (b * 70)"
proof -
  have *: "10000 * (x div 100 div 100 div 1000000 * 1000000) \<le> x" for x :: nat
  proof -
    have "x div 100 div 100 div 1000000 * 1000000 \<le> x div 100 div 100" by (rule div_times_less_eq_dividend)
    also have "x div 100 div 100 = x div 10000" by (simp add: div_mult2_eq [symmetric])
    finally show ?thesis using div_times_less_eq_dividend [of x 10000] by simp
  qed
  show "10000 * unat (mint_total b) \<le> unat (b * 70)" unfolding mint_total_nat by (rule *)
  then show "unat (mint_total b) < 2 ^ 51" using unat_bound [of "b * 70"] by simp
qed

text \<open>The two shares of a budget that is a multiple of ten tokens.\<close>

lemma mint_shares:
  fixes total :: u64
  assumes "unat total = 1000000 * q" and "unat total < 2 ^ 51"
  defines "heavy \<equiv> (total * 4 div 10 div 100000) * 100000" and "light \<equiv> (total * 3 div 10 div 100000) * 100000"
  shows "unat light = 300000 * q" "unat (heavy + (total - heavy - 2 * light)) = 400000 * q"
proof -
  have q: "q < 2 ^ 51 div 1000000 + 1" using assms(1,2) by simp
  have t4: "unat (total * 4) = 4000000 * q" and t3: "unat (total * 3) = 3000000 * q"
    using assms(1) q by (simp_all add: unat_word_ariths)
  have h: "unat heavy = 400000 * q" using q t4 by (simp add: heavy_def unat_word_ariths(2) unat_div)
  show l: "unat light = 300000 * q" using q t3 by (simp add: light_def unat_word_ariths(2) unat_div)
  have l2: "unat (2 * light) = 600000 * q" using q l by (simp add: unat_word_ariths(2))
  have "heavy \<le> total" using h assms(1) by (simp add: word_le_nat_alt)
  then have th: "unat (total - heavy) = 600000 * q" using h assms(1) by (simp add: unat_sub)
  then have "total - heavy = 2 * light" using l2 by (simp add: word_unat_eq_iff)
  then have "heavy + (total - heavy - 2 * light) = heavy" by simp
  then show "unat (heavy + (total - heavy - 2 * light)) = 400000 * q" using h by simp
qed

text \<open>
  The first mint stays within its budget. Whatever the balance, when a split exists its three
  amounts are in the ratio 4:3:3 with the chosen token ahead and sum up to a whole number of ten tokens
  that cost at most 70 percent of the balance. Without overflow there is a split exactly when 70 percent
  buy ten tokens; from 263524915338707881 quanta on the product wraps, and that balance itself is told to be insufficient.
\<close>
theorem mint_within_budget:
  assumes "unat balance * 70 < 2 ^ 64"
  shows "(case mint_split balance w of
       None \<Rightarrow> unat balance * 70 div 10000 < 1000000
     | Some (m, k, t) \<Rightarrow> \<exists>q > 0. 1000000 * q \<le> unat balance * 70 div 10000
         \<and> unat m + unat k + unat t = 1000000 * q
         \<and> (unat m, unat k, unat t) = (if w = 0 then (400000 * q, 300000 * q, 300000 * q)
             else if w = 1 then (300000 * q, 400000 * q, 300000 * q) else (300000 * q, 300000 * q, 400000 * q)))
   \<and> mint_split 263524915338707881 w = None"
proof
  let ?total = "mint_total balance"
  have b: "unat (balance * 70) = unat balance * 70" using assms by (simp add: unat_word_ariths(2))
  define q where "q = unat balance * 70 div 10000 div 1000000"
  have tq: "unat ?total = 1000000 * q"
    by (simp add: mint_total_nat b q_def div_mult2_eq [symmetric])
  have le: "1000000 * q \<le> unat balance * 70 div 10000"
    by (simp add: q_def)
  show "case mint_split balance w of
       None \<Rightarrow> unat balance * 70 div 10000 < 1000000
     | Some (m, k, t) \<Rightarrow> \<exists>q > 0. 1000000 * q \<le> unat balance * 70 div 10000
         \<and> unat m + unat k + unat t = 1000000 * q
         \<and> (unat m, unat k, unat t) = (if w = 0 then (400000 * q, 300000 * q, 300000 * q)
             else if w = 1 then (300000 * q, 400000 * q, 300000 * q) else (300000 * q, 300000 * q, 400000 * q))"
  proof (cases "q = 0")
    case True
    then have "?total < 1000000" using tq by (simp add: word_less_nat_alt)
    then have "mint_split balance w = None" by (simp add: mint_split_def Let_def)
    moreover have "unat balance * 70 div 10000 < 1000000" using True by (simp add: q_def div_eq_0_iff)
    ultimately show ?thesis by simp
  next
    case False
    then have big: "\<not> ?total < 1000000" using tq by (simp add: word_less_nat_alt)
    note shares = mint_shares [OF tq mint_total_small(1)]
    show ?thesis
      using big shares False le unfolding mint_split_def Let_def
      by (cases "w = 0"; cases "w = 1") (auto intro!: exI [of _ q])
  qed
  show "mint_split 263524915338707881 w = None"
    by (simp add: mint_split_def mint_total_def MINT_SUPRA_FRACTION_PCT_def SUPRA_PER_TOKEN_UNIT_def)
qed

theorem mint_within_budget_witness:
  "mint_split 100000000000 2 = Some (210000000, 210000000, 280000000)
   \<and> unat (100000000000 :: u64) * 70 < 2 ^ 64 \<and> mint_split 263524915338707881 2 = None"
proof -
  have small: "unat (100000000000 :: u64) * 70 < 2 ^ 64" by simp
  have "mint_split 100000000000 2 = Some (210000000, 210000000, 280000000)"
    by (simp add: mint_split_def mint_total_def MINT_SUPRA_FRACTION_PCT_def SUPRA_PER_TOKEN_UNIT_def)
  with small conjunct2 [OF mint_within_budget [OF small, of 2]] show ?thesis by blast
qed

section \<open>The password in the setup file\<close>

lemma jget_scrubbed:
  "jget k (JObject (filter (\<lambda>(k, v). k \<noteq> p) kvs)) = (if k = p then None else jget k (JObject kvs))"
  by (induction kvs) auto

lemma field_scrubbed:
  "k \<noteq> p \<Longrightarrow> field f k (JObject (filter (\<lambda>(k, v). k \<noteq> p) kvs)) = field f k (JObject kvs)"
  "k \<noteq> p \<Longrightarrow> field_or d f k (JObject (filter (\<lambda>(k, v). k \<noteq> p) kvs)) = field_or d f k (JObject kvs)"
  "field_or d f p (JObject (filter (\<lambda>(k, v). k \<noteq> p) kvs)) = Some d"
  by (simp_all add: field_def field_or_def jget_scrubbed del: jget.simps)

lemma setup_config_scrubbed:
  assumes "setup_config_of_json (JObject kvs) = Some cfg"
  shows "setup_config_of_json (JObject (filter (\<lambda>(k, v). k \<noteq> ''keystore_password'') kvs))
    = Some (cfg\<lparr>sc_keystore_password := None\<rparr>)"
  using assms by (auto simp: setup_config_of_json_def field_scrubbed bind_eq_Some_conv)

lemma validate_without_password [simp]:
  "validate_common (cfg\<lparr>sc_keystore_password := p\<rparr>) = validate_common cfg"
  by (simp add: validate_common_def)

text \<open>
  The scrubbed setup file has lost the password and nothing else. When scrubbing a readable setup
  file rewrites it, the new file reads as the same configuration without the password: a fresh
  setup refuses it, and an assisted setup accepts it exactly when its other fields are valid.
\<close>
theorem scrubbed_file_reads:
  assumes "\<And>j. parse (print j) = Some j"
    and "load_setup_config parse json_error path (Inr body) = Inr cfg"
    and "scrub_password_from_setup_file parse print json_error path (Inr body) (Inr ()) = Inr (Some text)"
  shows "load_setup_config parse json_error path (Inr text) = Inr (cfg\<lparr>sc_keystore_password := None\<rparr>)
    \<and> (\<exists>e. validate_for_fresh_setup (cfg\<lparr>sc_keystore_password := None\<rparr>) = Inl e)
    \<and> validate_for_llm_assisted (cfg\<lparr>sc_keystore_password := None\<rparr>) = validate_common cfg"
proof -
  obtain kvs where kvs: "parse body = Some (JObject kvs)"
    "text = print (JObject (filter (\<lambda>(k, v). k \<noteq> ''keystore_password'') kvs))"
    using assms(3) by (auto simp: scrub_password_from_setup_file_def split: option.splits json.splits if_splits)
  have "setup_config_of_json (JObject kvs) = Some cfg"
    using assms(2) kvs by (auto simp: load_setup_config_def ok_or_def split: option.splits)
  from setup_config_scrubbed [OF this] have "load_setup_config parse json_error path (Inr text) = Inr (cfg\<lparr>sc_keystore_password := None\<rparr>)"
    by (simp add: load_setup_config_def kvs(2) assms(1))
  moreover have "\<exists>e. validate_for_fresh_setup (cfg\<lparr>sc_keystore_password := None\<rparr>) = Inl e"
    by (cases "validate_common cfg") (simp_all add: validate_for_fresh_setup_def)
  ultimately show ?thesis by (simp add: validate_for_llm_assisted_def)
qed

definition example_setup_json :: json where
  "example_setup_json = JObject [(''payout_address'', JString ''0x1234567890''), (''keystore_password'', JString ''verysecret'')]"

definition example_setup :: setup_config where
  "example_setup = \<lparr>sc_network = ''testnet'', sc_payout_address = ''0x1234567890'', sc_sponsor_address = None,
     sc_node_role = ''trading'', sc_keystore_password = Some ''verysecret'', sc_mint_amounts = mint_amounts_default,
     sc_withdrawal_rules = withdrawal_input_default, sc_faucet = faucet_cfg_default\<rparr>"

lemma example_setup_reads: "setup_config_of_json example_setup_json = Some example_setup"
  by (simp add: setup_config_of_json_def example_setup_json_def example_setup_def field_def field_or_def
      default_network_def default_node_role_def)

theorem scrubbed_file_reads_witness:
  "\<exists>text. scrub_password_from_setup_file json_of_text text_of_json id ''setup.json''
       (Inr (text_of_json example_setup_json)) (Inr ()) = Inr (Some text)
     \<and> load_setup_config json_of_text id ''setup.json'' (Inr text) = Inr (example_setup\<lparr>sc_keystore_password := None\<rparr>)"
proof -
  have readable: "load_setup_config json_of_text id ''setup.json'' (Inr (text_of_json example_setup_json)) = Inr example_setup"
    by (simp add: load_setup_config_def example_setup_reads)
  have "\<exists>text. scrub_password_from_setup_file json_of_text text_of_json id ''setup.json''
       (Inr (text_of_json example_setup_json)) (Inr ()) = Inr (Some text)"
    by (simp add: scrub_password_from_setup_file_def) (simp add: example_setup_json_def)
  then obtain contents where scrubbed: "scrub_password_from_setup_file json_of_text text_of_json id ''setup.json''
       (Inr (text_of_json example_setup_json)) (Inr ()) = Inr (Some contents)" ..
  with scrubbed_file_reads [OF json_text_inverse readable scrubbed] show ?thesis by blast
qed

end
