(* ===== verification/SetupBridge.thy ===== *)
theory SetupBridge
  imports SettlementTx SetupEdges RpcClient
begin

text \<open>
  \<open>src/setup_bridge.rs\<close>: the real \<open>ChainClient\<close>, on the RPC client of theory RpcClient. A query is a
  view call and what is made of its answer; a submission reads the sequence number, builds, signs and
  encodes the transaction with the structures of theory SettlementTx, posts it and waits for it. The
  prompts of \<open>StdIO\<close> are calls of the dialog library and the spinners of a progress library.
  \<open>None\<close> is a panic.
\<close>

section \<open>The client\<close>

record signer_state =
  sg_secret_key :: bytes
  sg_public_key :: bytes
  sg_address :: bytes

record setup_client =
  sb_client :: supra_client
  sb_contract_addr :: bytes
  sb_signer :: "signer_state option"
  sb_chain_id :: u8
  sb_max_gas_amount :: u64
  sb_gas_unit_price :: u64

text \<open>The encoders and texts of other crates that the bridge uses.\<close>

record bridge_codec =
  bc_tx :: tx_codec
  bc_crypto :: crypto
  bc_bool :: "bool \<Rightarrow> string + bytes"
  bc_address :: "bytes \<Rightarrow> string + bytes"
  bc_parse :: "string \<Rightarrow> json option"
  bc_json_text :: "json \<Rightarrow> string"
  bc_json_error :: "string \<Rightarrow> string"
  bc_status_text :: "nat \<Rightarrow> string"
  bc_int_error :: "string \<Rightarrow> string"

definition bridge_address :: "bridge_codec \<Rightarrow> string \<Rightarrow> setup_error + bytes" where
  "bridge_address X addr =
     (let hex_str = strip_0x addr;
          padded = (if odd (length hex_str) then CHR ''0'' # hex_str else hex_str)
      in case hex_decode padded of
           None \<Rightarrow> Inl (SetupChainErr (''invalid address hex: '' @ hex_error (bc_tx X) padded))
         | Some bs \<Rightarrow>
             if 32 < length bs
             then Inl (SetupChainErr (''address too long: '' @ nat_str (length bs) @ '' bytes''))
             else Inr (replicate (32 - length bs) 0 @ bs))"

definition address_or_zero :: "bridge_codec \<Rightarrow> string \<Rightarrow> bytes" where
  "address_or_zero X addr = (case bridge_address X addr of Inl _ \<Rightarrow> replicate 32 0 | Inr a \<Rightarrow> a)"

definition positive_env :: "environment \<Rightarrow> string \<Rightarrow> u64 \<Rightarrow> u64" where
  "positive_env env name d =
     (case Option.bind (env name) parse_u64 of Some v \<Rightarrow> if 0 < v then v else d | None \<Rightarrow> d)"

definition setup_client_new :: "bridge_codec \<Rightarrow> environment \<Rightarrow> string list \<Rightarrow> string \<Rightarrow> setup_client" where
  "setup_client_new X env rpc_urls contract_addr =
     \<lparr>sb_client = client_new rpc_urls contract_addr, sb_contract_addr = address_or_zero X contract_addr,
      sb_signer = None, sb_chain_id = 6, sb_max_gas_amount = positive_env env ''DEADMKT_MAX_GAS'' 5000,
      sb_gas_unit_price = positive_env env ''DEADMKT_GAS_PRICE'' 100000\<rparr>"

definition bridge_gas_config :: "u8 \<Rightarrow> u64 \<Rightarrow> u64 \<Rightarrow> setup_client \<Rightarrow> setup_client" where
  "bridge_gas_config chain max_gas gas_price B =
     B\<lparr>sb_chain_id := chain, sb_max_gas_amount := max_gas, sb_gas_unit_price := gas_price\<rparr>"

definition bridge_set_signer :: "bridge_codec \<Rightarrow> bytes \<Rightarrow> bytes \<Rightarrow> string \<Rightarrow> setup_client \<Rightarrow> setup_client" where
  "bridge_set_signer X secret public address B =
     B\<lparr>sb_signer := Some \<lparr>sg_secret_key = secret, sg_public_key = public, sg_address = address_or_zero X address\<rparr>\<rparr>"

text \<open>\<open>parse_u64\<close>: a number as text or as a number; zero otherwise.\<close>

definition text_or_number :: "json \<Rightarrow> u64" where
  "text_or_number v = (case Option.bind (as_str v) parse_u64 of
     Some n \<Rightarrow> n | None \<Rightarrow> or_default 0 (as_u64 v))"

section \<open>Queries\<close>

type_synonym view_server = "nat \<Rightarrow> string \<Rightarrow> json \<Rightarrow> http_answer"

definition bridge_view ::
  "bridge_codec \<Rightarrow> view_server \<Rightarrow> string \<Rightarrow> string \<Rightarrow> json list \<Rightarrow> (chain_error + json \<Rightarrow> setup_error + 'a)
     \<Rightarrow> setup_client \<Rightarrow> (setup_client \<times> (setup_error + 'a)) option" where
  "bridge_view X server module function args k B =
     map_option (\<lambda>(cl, r). (B\<lparr>sb_client := cl\<rparr>, k r))
       (view_raw (bc_parse X) server module function [] args (sb_client B))"

text \<open>\<open>Ok(val) => ..., Err(_) => Ok(default)\<close>\<close>

definition answer_or :: "'a \<Rightarrow> (json \<Rightarrow> 'a) \<Rightarrow> chain_error + json \<Rightarrow> setup_error + 'a" where
  "answer_or d f r = (case r of Inl _ \<Rightarrow> Inr d | Inr v \<Rightarrow> Inr (f v))"

definition bool_at :: "nat \<Rightarrow> json \<Rightarrow> bool" where
  "bool_at i v = or_default False (Option.bind (jindex i v) as_bool)"

definition number_at :: "u64 \<Rightarrow> nat \<Rightarrow> json \<Rightarrow> u64" where
  "number_at d i v = or_default d (map_option text_or_number (jindex i v))"

definition bridge_is_trustee where
  "bridge_is_trustee X server address =
     bridge_view X server ''nft'' ''is_trustee'' [JString address] (answer_or False (bool_at 0))"

definition bridge_nft_id where
  "bridge_nft_id X server address =
     bridge_view X server ''nft'' ''get_trustee_nft_id'' [JString address]
       (answer_or 0 (\<lambda>v. if \<not> bool_at 0 v then 0 else number_at 0 1 v))"

definition bridge_nft_config where
  "bridge_nft_config X server =
     bridge_view X server ''nft'' ''get_nft_config'' []
       (answer_or \<lparr>nc_burn_cooldown_seconds = 3600, nc_admin = []\<rparr>
          (\<lambda>v. \<lparr>nc_burn_cooldown_seconds = number_at 3600 0 v, nc_admin = or_default [] (Option.bind (jindex 1 v) as_str)\<rparr>))"

text \<open>A single number as text; every other shape, and every failed call, is an error.\<close>

definition strict_number :: "bridge_codec \<Rightarrow> string \<Rightarrow> chain_error + json \<Rightarrow> setup_error + u64" where
  "strict_number X name r =
     (case r of
        Inl e \<Rightarrow> Inl (SetupChainErr (chain_error_display e))
      | Inr v \<Rightarrow>
          res_bind (ok_or (SetupChainErr (name @ '': unexpected view result shape''))
              (Option.bind (Option.bind (as_array v) (\<lambda>xs. if xs = [] then None else Some (hd xs))) as_str))
            (\<lambda>raw. ok_or (SetupChainErr (bc_int_error X raw)) (parse_u64 raw)))"

definition preview_burn_refund where
  "preview_burn_refund X server nft_id =
     bridge_view X server ''exits'' ''preview_burn_refund'' [JString (u64_str nft_id)]
       (strict_number X ''preview_burn_refund'')"

definition bridge_mint_fee where
  "bridge_mint_fee X server =
     bridge_view X server ''ops_treasury'' ''get_mint_fee'' [] (strict_number X ''get_mint_fee'')"

definition bridge_total_minted where
  "bridge_total_minted X server =
     bridge_view X server ''nft'' ''get_total_minted'' [] (answer_or 0 (number_at 0 0))"

definition bridge_escrow_balance where
  "bridge_escrow_balance X server nft_id meta =
     bridge_view X server ''escrow'' ''get_balance'' [JString (u64_str nft_id), JString meta]
       (answer_or 0 (number_at 0 0))"

definition bridge_mint_state where
  "bridge_mint_state X server address =
     bridge_view X server ''tokens'' ''get_nft_mint_state'' [JString address]
       (answer_or (False, False) (\<lambda>v. (bool_at 0 v, bool_at 1 v)))"

definition bridge_claimable_at where
  "bridge_claimable_at X server address =
     bridge_view X server ''tokens'' ''get_pending_mint'' [JString address]
       (answer_or None (\<lambda>v.
          case Option.bind (Option.bind (jindex 0 v) (jget ''vec'')) as_array of
            Some (mint # _) \<Rightarrow> Some (or_default 0 (map_option text_or_number (jget ''claimable_at'' mint)))
          | _ \<Rightarrow> None))"

definition bridge_fa_balance ::
  "bridge_codec \<Rightarrow> view_server \<Rightarrow> string \<Rightarrow> setup_client \<Rightarrow> (setup_client \<times> (setup_error + u64)) option" where
  "bridge_fa_balance X server meta B =
     (case sb_signer B of
        None \<Rightarrow> Some (B, Inr 0)
      | Some sg \<Rightarrow>
          map_option (\<lambda>(cl, r). (B\<lparr>sb_client := cl\<rparr>,
              answer_or 0 (\<lambda>v. or_default 0 (Option.bind (jindex 0 v) number_or_text)) r))
            (view_absolute (bc_parse X) server ''0x1::primary_fungible_store::balance''
               [''0x1::fungible_asset::Metadata''] [JString (''0x'' @ hex_encode (sg_address sg)), JString meta]
               (sb_client B)))"

text \<open>The balance asks the current endpoint once; whatever goes wrong is a balance of zero.\<close>

definition balances_of_answer :: "bridge_codec \<Rightarrow> http_answer \<Rightarrow> setup_error + wallet_balance" where
  "balances_of_answer X answer =
     Inr \<lparr>wb_supra = (case answer of
         Inl _ \<Rightarrow> 0
       | Inr resp \<Rightarrow>
           if \<not> is_success resp then 0
           else (case hr_body resp of
               Inl _ \<Rightarrow> 0
             | Inr body \<Rightarrow> or_default 0 (map_option text_or_number
                 (Option.bind (Option.bind (bc_parse X body) (jget ''result'')) (jindex 0))))),
       wb_tokens = []\<rparr>"

definition bridge_all_balances ::
  "bridge_codec \<Rightarrow> (string \<Rightarrow> json \<Rightarrow> http_answer) \<Rightarrow> string \<Rightarrow> setup_client
     \<Rightarrow> (setup_error + wallet_balance) option" where
  "bridge_all_balances X server address B =
     map_option (\<lambda>base. balances_of_answer X (server (base @ ''/rpc/v2/view'')
         (JObject [(''function'', JString ''0x1::coin::balance''),
                   (''type_arguments'', jstrs [''0x1::supra_coin::SupraCoin'']),
                   (''arguments'', JArray [JString address])])))
       (current_base (sb_client B))"

definition bridge_metadata :: "bridge_codec \<Rightarrow> u8 \<Rightarrow> setup_client \<Rightarrow> setup_error + string" where
  "bridge_metadata X symbol B =
     (let seeds = [''deadmkt_emm'', ''deadmkt_kay'', ''deadmkt_tee'']
      in if unat symbol < length seeds
         then Inr (''0x'' @ hex_encode (sha3_256 (bc_tx X) (sb_contract_addr B @ char_bytes (seeds ! unat symbol) @ [0xFE])))
         else Inl (SetupChainErr (''Invalid symbol '' @ nat_str (unat symbol))))"

section \<open>Submissions\<close>

text \<open>The node's answers to one submission: the account, the post, the polls; and the clock.\<close>

record submit_world =
  sw_account :: "string \<Rightarrow> http_answer"
  sw_now :: u64
  sw_post :: "string \<Rightarrow> bytes \<Rightarrow> http_answer"
  sw_poll :: "nat \<Rightarrow> string \<Rightarrow> http_answer"

definition sequence_of_answer :: "bridge_codec \<Rightarrow> http_answer \<Rightarrow> setup_error + u64" where
  "sequence_of_answer X answer =
     res_bind (map_err SetupChainErr answer) (\<lambda>resp.
     res_bind (map_err SetupChainErr (hr_body resp)) (\<lambda>body.
     res_bind (ok_or (SetupChainErr (bc_json_error X body)) (bc_parse X body)) (\<lambda>j.
       Inr (or_default 0 (map_option text_or_number (jget ''sequence_number'' j))))))"

definition signed_entry ::
  "bridge_codec \<Rightarrow> string \<Rightarrow> string \<Rightarrow> bytes list \<Rightarrow> u64 \<Rightarrow> u64 \<Rightarrow> signer_state \<Rightarrow> setup_client \<Rightarrow> setup_error + bytes" where
  "signed_entry X module function args seq now sg B =
     (let bcs_error = (\<lambda>e. SetupChainErr (''BCS error: '' @ e));
          raw_tx = build_raw_tx (sg_address sg) (sb_contract_addr B) module function args seq (now + 60)
                     (sb_chain_id B) (sb_max_gas_amount B) (sb_gas_unit_price B)
      in res_bind (map_err bcs_error (bcs_raw_tx (bc_tx X) raw_tx)) (\<lambda>raw_bytes.
         res_bind (map_err bcs_error (bcs_signed_tx (bc_tx X)
             \<lparr>st_raw_txn = raw_tx, st_public_key = sg_public_key sg,
              st_signature = ed25519_sign (bc_crypto X) (sg_secret_key sg) (signing_prefix (bc_tx X) @ raw_bytes)\<rparr>))
           (\<lambda>signed_bytes. Inr (1 # signed_bytes))))"

definition no_result :: "string \<Rightarrow> tx_result_info" where
  "no_result status = \<lparr>ti_success = False, ti_gas_used = 0, ti_vm_status = status, ti_tx_hash = []\<rparr>"

text \<open>The answer to the post: a result, or a hash to wait for.\<close>

datatype submit_verdict = Finished tx_result_info | Await string

definition judge_submit :: "bridge_codec \<Rightarrow> nat \<Rightarrow> string \<Rightarrow> submit_verdict option" where
  "judge_submit X status body =
     (case bc_parse X body of
        None \<Rightarrow>
          if 200 \<le> status \<and> status < 300 then Some (Await (trim_quotes (trim body)))
          else map_option (\<lambda>shown. Finished (no_result (''HTTP '' @ bc_status_text X status @ '' ''
                 @ map char_of [226 :: nat, 128, 148] @ '' '' @ shown))) (preview 200 body)
      | Some j \<Rightarrow>
          Some (case str_field ''status'' j of
              Some st \<Rightarrow> Finished \<lparr>ti_success = (st = ''Success''), ti_gas_used = 0, ti_vm_status = st, ti_tx_hash = []\<rparr>
            | None \<Rightarrow>
               (case str_field ''hash'' j of
                  Some hash \<Rightarrow> Await hash
                | None \<Rightarrow>
                   (case as_str j of
                      Some hash \<Rightarrow> Await hash
                    | None \<Rightarrow> Finished (no_result (or_default (bc_json_text X j)
                        (Option.bind (case jget ''message'' j of Some m \<Rightarrow> Some m | None \<Rightarrow> jget ''error_code'' j) as_str)))))))"

text \<open>One poll of the confirmation: a result, or go on.\<close>

definition judge_poll :: "bridge_codec \<Rightarrow> string \<Rightarrow> http_answer \<Rightarrow> tx_result_info option" where
  "judge_poll X tx_hash answer =
     (case answer of
        Inl _ \<Rightarrow> None
      | Inr resp \<Rightarrow>
         (case bc_parse X (case hr_body resp of Inl _ \<Rightarrow> [] | Inr b \<Rightarrow> b) of
            None \<Rightarrow> None
          | Some j \<Rightarrow>
             (let aptos = map_option (\<lambda>ok. \<lparr>ti_success = ok,
                      ti_gas_used = or_default 0 (map_option text_or_number (jget ''gas_used'' j)),
                      ti_vm_status = or_default [] (str_field ''vm_status'' j), ti_tx_hash = tx_hash\<rparr>)
                    (Option.bind (jget ''success'' j) as_bool)
              in case str_field ''status'' j of
                   Some st \<Rightarrow>
                     if st \<noteq> ''Pending''
                     then Some \<lparr>ti_success = (st = ''Success''), ti_gas_used = 0,
                            ti_vm_status = or_default st (Option.bind (Option.bind (move_output j) (jget ''vm_status'')) as_str),
                            ti_tx_hash = tx_hash\<rparr>
                     else aptos
                 | None \<Rightarrow> aptos)))"

fun bridge_wait :: "bridge_codec \<Rightarrow> string \<Rightarrow> (nat \<Rightarrow> http_answer) \<Rightarrow> nat \<Rightarrow> nat \<Rightarrow> setup_error + tx_result_info" where
  "bridge_wait X tx_hash polls i 0 = Inl (SetupChainErr ''Transaction confirmation timeout (30s)'')"
| "bridge_wait X tx_hash polls i (Suc n) =
     (case judge_poll X tx_hash (polls i) of
        Some r \<Rightarrow> Inr r
      | None \<Rightarrow> bridge_wait X tx_hash polls (Suc i) n)"

definition bridge_wait_for_tx :: "bridge_codec \<Rightarrow> submit_world \<Rightarrow> string \<Rightarrow> string \<Rightarrow> setup_error + tx_result_info" where
  "bridge_wait_for_tx X S base tx_hash =
     (let url = base @ ''/rpc/v3/transactions/'' @ strip_0x tx_hash @ ''?type=user''
      in bridge_wait X tx_hash (\<lambda>i. sw_poll S i url) 0 30)"

definition post_transaction ::
  "bridge_codec \<Rightarrow> submit_world \<Rightarrow> string \<Rightarrow> bytes \<Rightarrow> (setup_error + tx_result_info) option" where
  "post_transaction X S base supra_tx =
     (case sw_post S (base @ ''/rpc/v3/transactions/submit'') supra_tx of
        Inl e \<Rightarrow> Some (Inl (SetupChainErr (''submit failed: '' @ e)))
      | Inr resp \<Rightarrow>
         (case hr_body resp of
            Inl e \<Rightarrow> Some (Inl (SetupChainErr (''response read error: '' @ e)))
          | Inr body \<Rightarrow>
              map_option (\<lambda>v. case v of Finished r \<Rightarrow> Inr r | Await hash \<Rightarrow> bridge_wait_for_tx X S base hash)
                (judge_submit X (hr_status resp) body)))"

definition submit_entry_function ::
  "bridge_codec \<Rightarrow> submit_world \<Rightarrow> string \<Rightarrow> string \<Rightarrow> bytes list \<Rightarrow> setup_client \<Rightarrow> (setup_error + tx_result_info) option" where
  "submit_entry_function X S module function args B =
     (case sb_signer B of
        None \<Rightarrow> Some (Inl (SetupChainErr ''Signer not set''))
      | Some sg \<Rightarrow>
         Option.bind (current_base (sb_client B)) (\<lambda>base.
           case res_bind (sequence_of_answer X (sw_account S (base @ ''/rpc/v2/accounts/0x'' @ hex_encode (sg_address sg))))
                  (\<lambda>seq. signed_entry X module function args seq (sw_now S) sg B) of
             Inl e \<Rightarrow> Some (Inl e)
           | Inr supra_tx \<Rightarrow> post_transaction X S base supra_tx))"

text \<open>Which entry function a transaction calls, with the encoded arguments.\<close>

definition arg_u64 :: "bridge_codec \<Rightarrow> u64 \<Rightarrow> setup_error + bytes" where
  "arg_u64 X w = map_err SetupChainErr (bcs_u64 (bc_crypto X) w)"

definition arg_u8 :: "bridge_codec \<Rightarrow> u8 \<Rightarrow> setup_error + bytes" where
  "arg_u8 X w = map_err SetupChainErr (bcs_u8 (bc_crypto X) w)"

text \<open>An address that does not parse is refused before any argument is encoded.\<close>

definition with_address :: "bridge_codec \<Rightarrow> string \<Rightarrow> (setup_error + bytes) list \<Rightarrow> setup_error + bytes list" where
  "with_address X a before =
     res_bind (bridge_address X a) (\<lambda>b. collect_results (before @ [map_err SetupChainErr (bc_address X b)]))"

fun entry_call :: "bridge_codec \<Rightarrow> chain_tx \<Rightarrow> string \<times> string \<times> (setup_error + bytes list)" where
  "entry_call X (SubmitMint pubkey sponsor) = (''nft'', ''mint_trustee_nft'',
     with_address X sponsor [map_err SetupChainErr (bcs_vec (bc_crypto X) pubkey)])"
| "entry_call X (SubmitRegister nft_id days rushed) = (''escrow'', ''register_trader'',
     collect_results [arg_u64 X nft_id, arg_u64 X days, map_err SetupChainErr (bc_bool X rushed)])"
| "entry_call X (SubmitDeposit meta amount) = (''escrow'', ''deposit'',
     res_bind (bridge_address X meta) (\<lambda>b.
       collect_results [map_err SetupChainErr (bc_address X b), arg_u64 X amount]))"
| "entry_call X (SubmitRequestMint m k t) = (''tokens'', ''request_mint'',
     collect_results [arg_u64 X m, arg_u64 X k, arg_u64 X t])"
| "entry_call X SubmitClaimMint = (''tokens'', ''claim_mint'', Inr [])"
| "entry_call X (SubmitBurnFromEscrow amount) = (''tokens'', ''burn_from_escrow'', collect_results [arg_u64 X amount])"
| "entry_call X (SubmitBurnForProfit amount recipient) = (''tokens'', ''burn_for_profit'',
     with_address X recipient [arg_u64 X amount])"
| "entry_call X (SubmitLockFromEscrow symbol amount secs) = (''tokens'', ''lock_from_escrow'',
     collect_results [arg_u8 X symbol, arg_u64 X amount, arg_u64 X secs])"
| "entry_call X (SubmitUnlockToEscrow i) = (''tokens'', ''unlock_to_escrow'', collect_results [arg_u64 X i])"
| "entry_call X (SubmitDonateDust nft_id symbol amount) = (''tokens'', ''donate_dust'',
     collect_results [arg_u64 X nft_id, arg_u8 X symbol, arg_u64 X amount])"
| "entry_call X (SubmitRequestRushedWithdrawal nft_id) = (''escrow'', ''request_rushed_withdrawal'',
     collect_results [arg_u64 X nft_id])"
| "entry_call X (SubmitCancelRushedWithdrawal nft_id) = (''escrow'', ''cancel_rushed_withdrawal'',
     collect_results [arg_u64 X nft_id])"
| "entry_call X (SubmitRushedWithdrawalAsSupra nft_id recipient) = (''tokens'', ''rushed_withdrawal_as_supra'',
     with_address X recipient [arg_u64 X nft_id])"
| "entry_call X (SubmitStartHoldingPeriod nft_id) = (''escrow'', ''start_holding_period'', collect_results [arg_u64 X nft_id])"
| "entry_call X (SubmitCancelHoldingPeriod nft_id) = (''escrow'', ''cancel_holding_period'', collect_results [arg_u64 X nft_id])"
| "entry_call X (SubmitClaimAllAsSupra nft_id recipient) = (''tokens'', ''claim_all_as_supra'',
     with_address X recipient [arg_u64 X nft_id])"
| "entry_call X (SubmitBurnTrusteeNft nft_id recipient) = (''exits'', ''burn_trustee_nft'',
     with_address X recipient [arg_u64 X nft_id])"

definition bridge_submit :: "bridge_codec \<Rightarrow> submit_world \<Rightarrow> chain_tx \<Rightarrow> setup_client \<Rightarrow> (setup_error + tx_result_info) option" where
  "bridge_submit X S tx B =
     (case entry_call X tx of (module, function, args) \<Rightarrow>
        (case args of
           Inl e \<Rightarrow> Some (Inl e)
         | Inr bs \<Rightarrow> submit_entry_function X S module function bs B))"

section \<open>An outage\<close>

lemma view_attempts_down:
  "cl_endpoints cl \<noteq> [] \<Longrightarrow> \<exists>cl' x. view_attempts parse (\<lambda>_ _. Inl e) n i err cl = Some (cl', Inl x)"
proof (induction n arbitrary: i err cl)
  case (Suc n)
  have "cl_endpoints (advanced 1 cl) \<noteq> []" using Suc.prems by simp
  from Suc.IH [OF this] show ?case using Suc.prems by (simp add: next_endpoint_some judge_view_def)
qed simp

lemma bridge_view_down:
  assumes "cl_endpoints (sb_client B) \<noteq> []"
  shows "\<exists>B' x. bridge_view X (\<lambda>_ _ _. Inl e) m f args k B = Some (B', k (Inl x))"
proof -
  obtain cl' x where "view_raw (bc_parse X) (\<lambda>_ _ _. Inl e) m f [] args (sb_client B) = Some (cl', Inl x)"
    using view_attempts_down [OF assms] unfolding view_raw_def view_absolute_def Let_def by blast
  then show ?thesis by (auto simp: bridge_view_def)
qed

text \<open>
  An outage looks like a node without an NFT. When no endpoint answers, the bridge does not fail: it
  says that the address is no trustee, that its NFT is number 0, that its escrow is empty and that no mint
  is pending; only the mint fee is an error. So with that answer the setup goes on as if there were no
  NFT, and after a mint whose look-up fails it would write NFT 0 into the configuration.
\<close>
theorem outage_reads_as_no_nft:
  assumes "cl_endpoints (sb_client B) \<noteq> []"
    and "\<And>h. map_option snd (bridge_is_trustee X (\<lambda>_ _ _. Inl e) a B) = Some (ou_is_trustee W h a)"
  shows "(\<exists>B'. bridge_is_trustee X (\<lambda>_ _ _. Inl e) a B = Some (B', Inr False))
    \<and> (\<exists>B'. bridge_nft_id X (\<lambda>_ _ _. Inl e) a B = Some (B', Inr 0))
    \<and> (\<exists>B'. bridge_escrow_balance X (\<lambda>_ _ _. Inl e) nft meta B = Some (B', Inr 0))
    \<and> (\<exists>B'. bridge_mint_state X (\<lambda>_ _ _. Inl e) a B = Some (B', Inr (False, False)))
    \<and> (\<exists>B' x. bridge_mint_fee X (\<lambda>_ _ _. Inl e) B = Some (B', Inl x))
    \<and> (\<exists>s'. check_existing_nft W a s = Some (s', Inr NotFound))"
proof -
  have trustee: "\<exists>B'. bridge_is_trustee X (\<lambda>_ _ _. Inl e) a B = Some (B', Inr False)"
    using bridge_view_down [OF assms(1), of X e "''nft''" "''is_trustee''" "[JString a]" "answer_or False (bool_at 0)"]
    by (auto simp: bridge_is_trustee_def answer_or_def)
  then have "ou_is_trustee W h a = Inr False" for h using assms(2) [of h] by auto
  then have "\<exists>s'. check_existing_nft W a s = Some (s', Inr NotFound)"
    by (simp add: check_existing_nft_def act_bind_def is_trustee_def call_def give_def)
  moreover have "\<exists>B'. bridge_nft_id X (\<lambda>_ _ _. Inl e) a B = Some (B', Inr 0)"
    using bridge_view_down [OF assms(1), of X e "''nft''" "''get_trustee_nft_id''" "[JString a]"
        "answer_or 0 (\<lambda>v. if \<not> bool_at 0 v then 0 else number_at 0 1 v)"]
    by (auto simp: bridge_nft_id_def answer_or_def)
  moreover have "\<exists>B'. bridge_escrow_balance X (\<lambda>_ _ _. Inl e) nft meta B = Some (B', Inr 0)"
    using bridge_view_down [OF assms(1), of X e "''escrow''" "''get_balance''" "[JString (u64_str nft), JString meta]"
        "answer_or 0 (number_at 0 0)"]
    by (auto simp: bridge_escrow_balance_def answer_or_def)
  moreover have "\<exists>B'. bridge_mint_state X (\<lambda>_ _ _. Inl e) a B = Some (B', Inr (False, False))"
    using bridge_view_down [OF assms(1), of X e "''tokens''" "''get_nft_mint_state''" "[JString a]"
        "answer_or (False, False) (\<lambda>v. (bool_at 0 v, bool_at 1 v))"]
    by (auto simp: bridge_mint_state_def answer_or_def)
  moreover have "\<exists>B' x. bridge_mint_fee X (\<lambda>_ _ _. Inl e) B = Some (B', Inl x)"
    using bridge_view_down [OF assms(1), of X e "''ops_treasury''" "''get_mint_fee''" "[]"
        "strict_number X ''get_mint_fee''"]
    by (auto simp: bridge_mint_fee_def strict_number_def)
  ultimately show ?thesis using trustee by blast
qed

definition example_bridge_codec :: bridge_codec where
  "example_bridge_codec = \<lparr>bc_tx = example_codec, bc_crypto = example_crypto, bc_bool = (\<lambda>b. Inr [if b then 1 else 0]),
     bc_address = Inr, bc_parse = json_of_text, bc_json_text = text_of_json, bc_json_error = id, bc_status_text = nat_str,
     bc_int_error = id\<rparr>"

definition example_bridge :: setup_client where
  "example_bridge = setup_client_new example_bridge_codec (\<lambda>_. None) [''http://a'', ''http://b''] ''0x1''"

theorem outage_reads_as_no_nft_witness:
  "\<exists>s'. check_existing_nft (example_world\<lparr>ou_is_trustee := \<lambda>_ _. Inr False\<rparr>) ''0x2'' example_setup_session = Some (s', Inr NotFound)"
proof -
  have up: "cl_endpoints (sb_client example_bridge) \<noteq> []"
    by (simp add: example_bridge_def setup_client_new_def client_new_def)
  obtain B' where "bridge_is_trustee example_bridge_codec (\<lambda>_ _ _. Inl ''refused'') ''0x2'' example_bridge = Some (B', Inr False)"
    using bridge_view_down [OF up, of example_bridge_codec "''refused''" "''nft''" "''is_trustee''" "[JString ''0x2'']"
        "answer_or False (bool_at 0)"]
    by (auto simp: bridge_is_trustee_def answer_or_def)
  then have "map_option snd (bridge_is_trustee example_bridge_codec (\<lambda>_ _ _. Inl ''refused'') ''0x2'' example_bridge)
      = Some (ou_is_trustee (example_world\<lparr>ou_is_trustee := \<lambda>_ _. Inr False\<rparr>) h ''0x2'')" for h by simp
  from outage_reads_as_no_nft [OF up this, where s = example_setup_session] show ?thesis by blast
qed

section \<open>The main network\<close>

text \<open>A world whose balances come from the bridge.\<close>

definition bridge_like :: "outside \<Rightarrow> bool" where
  "bridge_like W \<longleftrightarrow> (\<forall>h a. \<exists>X answer. ou_balances W h a = balances_of_answer X answer)"

lemma bridge_no_tokens: "bridge_like W \<Longrightarrow> ou_balances W h a = Inr b \<Longrightarrow> wb_tokens b = []"
  unfolding bridge_like_def balances_of_answer_def by (metis (no_types, lifting) Inr_inject wallet_balance.select_convs(2))

lemma tokens_never_come:
  assumes "wait_for_tokens W a i s = Some y"
  shows "bridge_like W \<longrightarrow> (\<exists>e. snd y = Inl e)"
  using assms
proof (rule wait_for_tokens.raw_induct [where P = "\<lambda>W a i s y. bridge_like W \<longrightarrow> (\<exists>e. snd y = Inl e)", rotated])
  fix f W a i s y
  assume ih: "\<And>W a i s y. f W a i s = Some y \<Longrightarrow> bridge_like W \<longrightarrow> (\<exists>e. snd y = Inl e)"
    and round: "act_bind (get_all_balances W a) (\<lambda>balance u.
       if 0 < wb_supra balance \<and> wb_tokens balance \<noteq> [] then give balance u
       else act_bind (cancellable_sleep W i) (\<lambda>_ v. f W a i v) u) s = Some y"
  show "bridge_like W \<longrightarrow> (\<exists>e. snd y = Inl e)"
  proof
    assume W: "bridge_like W"
    show "\<exists>e. snd y = Inl e"
    proof (cases "ou_balances W (ss_trace s) a")
      case (Inl e)
      then show ?thesis using round by (auto simp: act_bind_def get_all_balances_def call_def)
    next
      case (Inr b)
      then have "wb_tokens b = []" using bridge_no_tokens [OF W] by blast
      with round Inr show ?thesis
        using ih W by (auto simp: act_bind_def get_all_balances_def call_def cancellable_sleep_def split: if_splits)
    qed
  qed
qed

lemma mainnet_funding:
  assumes "bridge_like W" and "wait_for_funding W a Mainnet i s = Some (s', r)"
  shows "\<exists>e. r = Inl e"
proof -
  from iffD1 [OF act_bind_Some assms(2) [unfolded wait_for_funding_def]] obtain u q where
    q: "case q of Inl e \<Rightarrow> s' = u \<and> r = Inl e
      | Inr x \<Rightarrow> (if Mainnet = Testnet then give \<lparr>wb_supra = x, wb_tokens = []\<rparr> else wait_for_tokens W a i) u = Some (s', r)"
    by blast
  show ?thesis
  proof (cases q)
    case (Inr x)
    with q have "wait_for_tokens W a i u = Some (s', r)" by simp
    from tokens_never_come [OF this] assms(1) show ?thesis by simp
  qed (use q in simp)
qed

lemma step_or_fail_cases:
  assumes "step_or_fail name result m k s = Some (s', r)"
  obtains (failed) e where "m s = Some (s', Inl e)" "r = fail_result name (Inl e) result"
    | (went_on) u x where "m s = Some (u, Inr x)" "k x u = Some (s', r)"
proof -
  obtain u q where m: "m s = Some (u, q)"
    "(case q of Inl e \<Rightarrow> Some (u, fail_result name (Inl e) result) | Inr x \<Rightarrow> k x u) = Some (s', r)"
    using assms by (auto simp: step_or_fail_def bind_eq_Some_conv)
  then show ?thesis using failed went_on by (cases q) auto
qed

lemma fail_result_failed [simp]: "\<not> sr_success (fail_result name e result)"
  by (simp add: fail_result_def)

lemma mainnet_steps_fail:
  assumes "bridge_like W" and "vs_network v = Mainnet" and "setup_steps T W v keys result s = Some (s', r)"
  shows "\<not> sr_success r"
proof -
  obtain a public secret where "keys = (a, public, secret)" by (cases keys) auto
  note run = assms(3) [unfolded setup_steps_def this prod.case assms(2)]
  from run show ?thesis
  proof (cases rule: step_or_fail_cases)
    case (went_on u x)
    from went_on(2) show ?thesis
    proof (cases rule: step_or_fail_cases)
      case (went_on w y)
      from mainnet_funding [OF assms(1) went_on(1)] show ?thesis by simp
    qed simp
  qed simp
qed

text \<open>
  C33. On the main network no setup can succeed. The bridge never reports a token, and the wait for funds
  ends well only when it sees one: with it, a fresh setup for the main network runs until it is
  interrupted or fails, and never succeeds, however well the address is funded.
\<close>
theorem mainnet_setup_never_succeeds:
  assumes "bridge_like W" and "to_lower (sc_network cfg) = ''mainnet''"
    and "run_setup_noninteractive_fresh T W dir cfg s = Some (s', r)"
  shows "\<not> sr_success r"
proof (cases "validate_for_fresh_setup cfg")
  case (Inl e)
  then show ?thesis using assms(3) by (auto simp: run_setup_noninteractive_fresh_def finish_def fail_result_def)
next
  case (Inr p)
  obtain v password where p: "p = (v, password)" by fastforce
  have net: "vs_network v = Mainnet"
    using Inr p assms(2)
    by (auto simp: validate_for_fresh_setup_def validate_common_def validate_network_def res_bind_Inr Let_def)
  have W: "bridge_like (silent W)" using assms(1) by (simp add: bridge_like_def silent_def)
  from assms(3) [unfolded run_setup_noninteractive_fresh_def Inr p sum.case prod.case Let_def]
  show ?thesis
  proof (cases rule: step_or_fail_cases)
    case (went_on u keys)
    then show ?thesis using mainnet_steps_fail [OF W net] by (auto simp: run_setup_after_keystore_def Let_def)
  qed simp
qed

text \<open>The operator interrupts the wait.\<close>

definition mainnet_world :: outside where
  "mainnet_world = example_world\<lparr>ou_balances := \<lambda>_ _. balances_of_answer example_bridge_codec (Inl ''refused''),
     ou_interrupted := \<lambda>_. True\<rparr>"

definition mainnet_session :: session where
  "mainnet_session = \<lparr>ss_trace = [], ss_keystore = None, ss_config = None\<rparr>"

lemma mainnet_validated:
  "\<exists>v. validate_for_fresh_setup (example_setup\<lparr>sc_network := ''mainnet''\<rparr>) = Inr (v, ''verysecret'') \<and> vs_network v = Mainnet"
proof -
  have "validate_network ''mainnet'' = Inr Mainnet" "validate_address ''0x1234567890'' = Inr ''0x1234567890''"
    "validate_node_role ''trading'' = Inr False" "validate_mint_amounts mint_amounts_default = Inr ()"
    "validate_withdrawal_rules withdrawal_input_default = Inr ()" "validate_password ''verysecret'' = Inr ()"
    by code_simp+
  then show ?thesis
    by (simp add: validate_for_fresh_setup_def validate_common_def example_setup_def validate_sponsor_def)
qed

theorem mainnet_setup_never_succeeds_witness:
  "\<exists>s' r. run_setup_noninteractive_fresh example_toolbox mainnet_world ''data'' (example_setup\<lparr>sc_network := ''mainnet''\<rparr>)
       mainnet_session = Some (s', r) \<and> \<not> sr_success r"
proof -
  obtain v where v: "validate_for_fresh_setup (example_setup\<lparr>sc_network := ''mainnet''\<rparr>) = Inr (v, ''verysecret'')"
    "vs_network v = Mainnet" using mainnet_validated by blast
  obtain st where st: "save_keystore example_crypto example_vault (replicate 32 1) (replicate 12 2) text_of_json
       (replicate 32 3) (replicate 32 4) ''verysecret'' = Inr st" using example_save by blast
  have pair: "generate_keypair mainnet_world s
      = Some (s\<lparr>ss_trace := ss_trace s @ [NewKeypair]\<rparr>, Inr (replicate 32 3, replicate 32 4))" for s
    by (simp add: generate_keypair_def call_def mainnet_world_def example_world_def)
  have written: "write_keystore example_toolbox mainnet_world (replicate 32 3) (replicate 32 4) ''verysecret'' s
      = Some (s\<lparr>ss_trace := ss_trace s @ [WriteKeystore], ss_keystore := st\<rparr>, Inr ())" for s
    using st by (simp add: write_keystore_def mainnet_world_def example_world_def example_toolbox_def)
  have wait: "\<exists>u. wait_for_funding (silent mainnet_world) a Mainnet i s = Some (u, Inl setup_error.Aborted)" for a i s
  proof -
    have "ou_balances (silent mainnet_world) h a = Inr \<lparr>wb_supra = 0, wb_tokens = []\<rparr>"
      "ou_interrupted (silent mainnet_world) h" for h
      by (simp_all add: silent_def mainnet_world_def balances_of_answer_def)
    then have "\<exists>u. wait_for_supra (silent mainnet_world) a i s = Some (u, Inl setup_error.Aborted)"
      by (subst wait_step) (simp add: idle_round_def)
    then show ?thesis by (auto simp: wait_for_funding_def act_bind_def)
  qed
  have steps: "\<exists>s' r. setup_steps example_toolbox (silent mainnet_world) v keys result s = Some (s', r)" for keys result s
  proof -
    obtain a public secret where keys: "keys = (a, public, secret)" by (cases keys) auto
    obtain u where u: "wait_for_funding (silent mainnet_world) a Mainnet 5
        (s\<lparr>ss_trace := ss_trace s @ [SetSigner secret public a]\<rparr>) = Some (u, Inl setup_error.Aborted)" using wait by blast
    show ?thesis
      unfolding setup_steps_def keys prod.case v(2)
      by (simp add: step_or_fail_def [of "''set_signer''"] set_signer_def call_def step_or_fail_def [of "''wait_for_funding''"] u)
  qed
  obtain u keys where made: "generate_keystore_noninteractive example_toolbox mainnet_world path ''verysecret'' mainnet_session
      = Some (u, Inr keys)" for path
    by (simp add: generate_keystore_noninteractive_def mainnet_session_def act_bind_def pair written give_def)
  have "\<exists>s' r. run_setup_noninteractive_fresh example_toolbox mainnet_world ''data'' (example_setup\<lparr>sc_network := ''mainnet''\<rparr>)
       mainnet_session = Some (s', r)"
    unfolding run_setup_noninteractive_fresh_def v(1) sum.case prod.case Let_def step_or_fail_def [of "''generate_keystore''"] made
    using steps by (simp add: run_setup_after_keystore_def Let_def)
  then obtain s' r where run: "run_setup_noninteractive_fresh example_toolbox mainnet_world ''data''
      (example_setup\<lparr>sc_network := ''mainnet''\<rparr>) mainnet_session = Some (s', r)" by blast
  have "bridge_like mainnet_world" unfolding bridge_like_def by (auto simp: mainnet_world_def)
  moreover have "to_lower (sc_network (example_setup\<lparr>sc_network := ''mainnet''\<rparr>)) = ''mainnet''" by code_simp
  ultimately have "\<not> sr_success r" using run by (rule mainnet_setup_never_succeeds)
  with run show ?thesis by blast
qed

end
