(* ===== verification/TokenWorker.thy ===== *)
theory TokenWorker
  imports StrategyTypes SetupWorld
begin

text \<open>
  \<open>src/token_worker.rs\<close>: the task that submits the token actions of the strategy, one at a time, and
  answers each with an event. The calls to the chain are logged as in theory SetupWorld; a
  submission returns what the world answers, a confirmation that does not come in time being an
  error as any other. The event channel is the strategy server's: a send finds room, at once or
  after a wait, or finds the receiver gone, which the worker ignores, or waits for ever, which stops
  the worker with the transaction lock held.
\<close>

section \<open>The worker\<close>

datatype send_fate = Delivered | ReceiverGone | NeverRoom

record token_worker =
  wk_log :: "effect list"
  wk_sends :: nat
  wk_events :: "strategy_event list"

text \<open>The number of sends made so far decides which fate the next one has. The second component
  says that the call returned.\<close>

definition notify ::
  "(nat \<Rightarrow> send_fate) \<Rightarrow> string \<Rightarrow> bool \<Rightarrow> string \<Rightarrow> token_worker \<Rightarrow> token_worker \<times> bool" where
  "notify fate action success message w =
     (let event = EvTokenActionResult \<lparr>ta_action = action, ta_success = success, ta_message = message\<rparr>
      in case fate (wk_sends w) of
           Delivered \<Rightarrow> (w\<lparr>wk_sends := Suc (wk_sends w), wk_events := wk_events w @ [event]\<rparr>, True)
         | ReceiverGone \<Rightarrow> (w\<lparr>wk_sends := Suc (wk_sends w)\<rparr>, True)
         | NeverRoom \<Rightarrow> (w, False))"

text \<open>\<open>client.submit_...\<close> with the log of calls as its state.\<close>

definition chain_submit ::
  "outside \<Rightarrow> chain_tx \<Rightarrow> token_worker \<Rightarrow> token_worker \<times> (setup_error + tx_result_info)" where
  "chain_submit W tx w = (w\<lparr>wk_log := wk_log w @ [Submit tx]\<rparr>, ou_submit W (wk_log w) tx)"

text \<open>The three arms behind every submission.\<close>

definition report_submit ::
  "outside \<Rightarrow> (setup_error \<Rightarrow> string) \<Rightarrow> (nat \<Rightarrow> send_fate) \<Rightarrow> string \<Rightarrow> chain_tx \<Rightarrow> token_worker
     \<Rightarrow> token_worker \<times> bool" where
  "report_submit W show fate action tx w =
     (let (w', r) = chain_submit W tx w
      in case r of
           Inr info \<Rightarrow>
             if ti_success info then notify fate action True (''gas='' @ u64_str (ti_gas_used info)) w'
             else notify fate action False (ti_vm_status info) w'
         | Inl e \<Rightarrow> notify fate action False (show e) w')"

definition symbol_id :: "string \<Rightarrow> u8 option" where
  "symbol_id s = (if s = ''EMM'' then Some 0 else if s = ''KAY'' then Some 1 else if s = ''TEE'' then Some 2 else None)"

definition unknown_symbol ::
  "(nat \<Rightarrow> send_fate) \<Rightarrow> string \<Rightarrow> string \<Rightarrow> token_worker \<Rightarrow> token_worker \<times> bool" where
  "unknown_symbol fate action symbol w = notify fate action False (''unknown symbol: '' @ symbol) w"

fun token_action ::
  "outside \<Rightarrow> (setup_error \<Rightarrow> string) \<Rightarrow> (nat \<Rightarrow> send_fate) \<Rightarrow> string \<Rightarrow> strategy_action \<Rightarrow> token_worker
     \<Rightarrow> token_worker \<times> bool" where
  "token_action W show fate payout (ActMint m k t) w =
     report_submit W show fate ''mint'' (SubmitRequestMint m k t) w"
| "token_action W show fate payout ActClaimMint w =
     report_submit W show fate ''claim_mint'' SubmitClaimMint w"
| "token_action W show fate payout (ActBurnFromEscrow x) w =
     report_submit W show fate ''burn_from_escrow'' (SubmitBurnFromEscrow x) w"
| "token_action W show fate payout (ActBurnForProfit x) w =
     report_submit W show fate ''burn_for_profit'' (SubmitBurnForProfit x payout) w"
| "token_action W show fate payout (ActLock symbol x secs) w =
     (case symbol_id symbol of
        None \<Rightarrow> unknown_symbol fate ''lock'' symbol w
      | Some i \<Rightarrow> report_submit W show fate ''lock'' (SubmitLockFromEscrow i x secs) w)"
| "token_action W show fate payout (ActUnlock i) w =
     report_submit W show fate ''unlock'' (SubmitUnlockToEscrow i) w"
| "token_action W show fate payout (ActDonateDust nft symbol x) w =
     (case symbol_id symbol of
        None \<Rightarrow> unknown_symbol fate ''donate_dust'' symbol w
      | Some i \<Rightarrow> report_submit W show fate ''donate_dust'' (SubmitDonateDust nft i x) w)"
| "token_action W show fate payout _ w = (w, True)"

text \<open>The loop over the received actions, until the channel closes or a send never returns; the
  second component says which.\<close>

fun token_worker_loop ::
  "outside \<Rightarrow> (setup_error \<Rightarrow> string) \<Rightarrow> (nat \<Rightarrow> send_fate) \<Rightarrow> string \<Rightarrow> strategy_action list \<Rightarrow> token_worker
     \<Rightarrow> token_worker \<times> bool" where
  "token_worker_loop W show fate payout [] w = (w, True)"
| "token_worker_loop W show fate payout (a # acts) w =
     (let (w', returned) = token_action W show fate payout a w
      in if returned then token_worker_loop W show fate payout acts w' else (w', False))"

section \<open>What is due\<close>

text \<open>The numbers the contract gives the three tokens, what one action asks of the chain, and what its
  answer is called.\<close>

definition token_numbers :: "(string \<times> u8) list" where
  "token_numbers = [(''EMM'', 0), (''KAY'', 1), (''TEE'', 2)]"

fun asked_tx :: "string \<Rightarrow> strategy_action \<Rightarrow> chain_tx option" where
  "asked_tx payout (ActMint m k t) = Some (SubmitRequestMint m k t)"
| "asked_tx payout ActClaimMint = Some SubmitClaimMint"
| "asked_tx payout (ActBurnFromEscrow x) = Some (SubmitBurnFromEscrow x)"
| "asked_tx payout (ActBurnForProfit x) = Some (SubmitBurnForProfit x payout)"
| "asked_tx payout (ActLock symbol x secs) =
     map_option (\<lambda>i. SubmitLockFromEscrow i x secs) (map_of token_numbers symbol)"
| "asked_tx payout (ActUnlock i) = Some (SubmitUnlockToEscrow i)"
| "asked_tx payout (ActDonateDust nft symbol x) =
     map_option (\<lambda>i. SubmitDonateDust nft i x) (map_of token_numbers symbol)"
| "asked_tx payout _ = None"

fun answer_name :: "strategy_action \<Rightarrow> string" where
  "answer_name (ActMint _ _ _) = ''mint''"
| "answer_name ActClaimMint = ''claim_mint''"
| "answer_name (ActBurnFromEscrow _) = ''burn_from_escrow''"
| "answer_name (ActBurnForProfit _) = ''burn_for_profit''"
| "answer_name (ActLock _ _ _) = ''lock''"
| "answer_name (ActUnlock _) = ''unlock''"
| "answer_name (ActDonateDust _ _ _) = ''donate_dust''"
| "answer_name _ = []"

fun asked_symbol :: "strategy_action \<Rightarrow> string" where
  "asked_symbol (ActLock symbol _ _) = symbol"
| "asked_symbol (ActDonateDust _ symbol _) = symbol"
| "asked_symbol _ = []"

type_synonym token_answer = "string \<times> bool \<times> string"

fun answer_to :: "(setup_error \<Rightarrow> string) \<Rightarrow> string \<Rightarrow> setup_error + tx_result_info \<Rightarrow> token_answer" where
  "answer_to show name (Inl e) = (name, False, show e)"
| "answer_to show name (Inr info) =
     (name, ti_success info, if ti_success info then ''gas='' @ u64_str (ti_gas_used info) else ti_vm_status info)"

text \<open>The log and the answers a list of token actions must leave when every send returns.\<close>

fun answers_due ::
  "outside \<Rightarrow> (setup_error \<Rightarrow> string) \<Rightarrow> string \<Rightarrow> strategy_action list \<Rightarrow> effect list
     \<Rightarrow> effect list \<times> token_answer list" where
  "answers_due W show payout [] h = (h, [])"
| "answers_due W show payout (a # acts) h =
     (let (h', answer) = (case asked_tx payout a of
            Some tx \<Rightarrow> (h @ [Submit tx], answer_to show (answer_name a) (ou_submit W h tx))
          | None \<Rightarrow> (h, (answer_name a, False, ''unknown symbol: '' @ asked_symbol a)));
          (h'', answers) = answers_due W show payout acts h'
      in (h'', answer # answers))"

fun answer_of :: "strategy_event \<Rightarrow> token_answer" where
  "answer_of (EvTokenActionResult d) = (ta_action d, ta_success d, ta_message d)"
| "answer_of _ = ([], False, [])"

text \<open>How many of the next \<open>n\<close> sends return before one that never does.\<close>

definition sends_returned :: "(nat \<Rightarrow> send_fate) \<Rightarrow> nat \<Rightarrow> nat \<Rightarrow> nat" where
  "sends_returned fate m n = length (takeWhile (\<lambda>i. fate i \<noteq> NeverRoom) [m..<m + n])"

lemma sends_returned_0 [simp]: "sends_returned fate m 0 = 0"
  by (simp add: sends_returned_def)

lemma sends_returned_Suc:
  "sends_returned fate m (Suc n) =
     (if fate m = NeverRoom then 0 else Suc (sends_returned fate (Suc m) n))"
  by (simp add: sends_returned_def upt_conv_Cons del: upt_Suc)

lemma symbol_id_numbers: "symbol_id = map_of token_numbers"
  by (rule ext) (simp add: symbol_id_def token_numbers_def)

text \<open>A token action is one call, if any, and one send of the answer due.\<close>

lemma token_action_due:
  assumes "is_token_action a"
  shows "token_action W show fate payout a w =
     (let (h, name, success, message) = (case asked_tx payout a of
            Some tx \<Rightarrow> (wk_log w @ [Submit tx], answer_to show (answer_name a) (ou_submit W (wk_log w) tx))
          | None \<Rightarrow> (wk_log w, (answer_name a, False, ''unknown symbol: '' @ asked_symbol a)))
      in notify fate name success message (w\<lparr>wk_log := h\<rparr>))"
  using assms
  by (cases a)
    (auto simp: unknown_symbol_def report_submit_def chain_submit_def symbol_id_numbers
      split: option.split sum.split)

lemma notify_answer:
  "notify fate name success message w =
     (if fate (wk_sends w) = NeverRoom then (w, False)
      else (w\<lparr>wk_sends := Suc (wk_sends w),
        wk_events := wk_events w @ (if fate (wk_sends w) = Delivered
          then [EvTokenActionResult \<lparr>ta_action = name, ta_success = success, ta_message = message\<rparr>] else [])\<rparr>,
        True))"
  by (cases "fate (wk_sends w)") (simp_all add: notify_def)

text \<open>The answers among \<open>xs\<close>, sent from the \<open>m\<close>-th send on, that were delivered before the worker stopped.\<close>

definition delivered_of :: "(nat \<Rightarrow> send_fate) \<Rightarrow> nat \<Rightarrow> 'a list \<Rightarrow> 'a list" where
  "delivered_of fate m xs =
     nths xs {i. i < sends_returned fate m (length xs) \<and> fate (m + i) = Delivered}"

lemma delivered_of_Nil [simp]: "delivered_of fate m [] = []"
  by (simp add: delivered_of_def)

lemma delivered_of_Cons:
  "delivered_of fate m (x # xs) =
     (if fate m = NeverRoom then []
      else (if fate m = Delivered then [x] else []) @ delivered_of fate (Suc m) xs)"
  by (simp add: delivered_of_def sends_returned_Suc nths_Cons)

lemma length_answers_due [simp]: "length (snd (answers_due W show payout acts h)) = length acts"
  by (induction acts arbitrary: h) (simp_all add: case_prod_beta)

text \<open>The loop from any state.\<close>

lemma token_worker_loop_due:
  "(let (w', returned) = token_worker_loop W show fate payout acts w;
        token_acts = filter is_token_action acts;
        k = sends_returned fate (wk_sends w) (length token_acts)
    in wk_log w' = fst (answers_due W show payout (take (Suc k) token_acts) (wk_log w)) \<and>
       map answer_of (wk_events w') = map answer_of (wk_events w) @
         delivered_of fate (wk_sends w) (snd (answers_due W show payout token_acts (wk_log w))) \<and>
       (returned \<longleftrightarrow> k = length token_acts))"
proof (induction acts arbitrary: w)
  case (Cons a acts)
  show ?case
  proof (cases "is_token_action a")
    case False
    then have "token_action W show fate payout a w = (w, True)" by (cases a) simp_all
    with False show ?thesis using Cons.IH [of w] by simp
  next
    case True
    obtain h name success message where due: "(case asked_tx payout a of
            Some tx \<Rightarrow> (wk_log w @ [Submit tx], answer_to show (answer_name a) (ou_submit W (wk_log w) tx))
          | None \<Rightarrow> (wk_log w, (answer_name a, False, ''unknown symbol: '' @ asked_symbol a)))
        = (h, name, success, message)"
      by (rule prod_cases4)
    let ?e = "EvTokenActionResult \<lparr>ta_action = name, ta_success = success, ta_message = message\<rparr>"
    let ?w = "w\<lparr>wk_log := h, wk_sends := Suc (wk_sends w),
      wk_events := wk_events w @ (if fate (wk_sends w) = Delivered then [?e] else [])\<rparr>"
    show ?thesis
    proof (cases "fate (wk_sends w) = NeverRoom")
      case never: True
      then show ?thesis
        using True by (simp add: token_action_due due notify_answer sends_returned_Suc delivered_of_Cons
            case_prod_beta)
    next
      case False
      have "token_action W show fate payout a w = (?w, True)"
        using True False by (simp add: token_action_due due notify_answer)
      then show ?thesis
        using True False Cons.IH [of ?w]
        by (auto simp: due sends_returned_Suc delivered_of_Cons case_prod_beta Let_def)
    qed
  qed
qed simp

text \<open>
  C35. The token worker answers every action it can. Batch actions, which should not arrive here, change
  nothing. Of the token actions it submits exactly the transactions asked for, in order, with token
  number 0 for EMM, 1 for KAY and 2 for TEE; another symbol reaches no chain call. It sends one
  answer for each, with the action's name, success exactly when the submission returned a
  successful result, and the gas used, the VM status or the error: a submission whose confirmation
  does not come in time is answered as a failure, though the chain may still accept it. An answer
  whose receiver is gone is lost. The worker goes on to the end exactly when no send waits for
  ever; the first that does stops it, after its transaction was submitted, with the answers
  delivered before it.
\<close>
theorem token_actions_answered:
  "(let (w, returned) = token_worker_loop W show fate payout acts \<lparr>wk_log = h, wk_sends = 0, wk_events = []\<rparr>;
        token_acts = filter is_token_action acts;
        k = length (takeWhile (\<lambda>i. fate i \<noteq> NeverRoom) [0..<length token_acts])
    in wk_log w = fst (answers_due W show payout (take (Suc k) token_acts) h) \<and>
       map answer_of (wk_events w) =
         nths (snd (answers_due W show payout token_acts h)) {i. i < k \<and> fate i = Delivered} \<and>
       (returned \<longleftrightarrow> k = length token_acts))
   \<and> token_numbers = [(''EMM'', 0), (''KAY'', 1), (''TEE'', 2)]"
  using token_worker_loop_due [of W "show" fate payout acts "\<lparr>wk_log = h, wk_sends = 0, wk_events = []\<rparr>"]
  by (simp add: delivered_of_def sends_returned_def token_numbers_def case_prod_beta Let_def)

end
