(* ===== verification/Poller.thy ===== *)
theory Poller
  imports Batch RpcClient
begin

text \<open>
  The two tasks that watch the block height: \<open>run_block_poller\<close> (\<open>crates/chain/src/poller.rs\<close>), which
  turns heights into phase events, and the chain poller of the main program (\<open>src/run.rs\<close>), which
  publishes heights and slows down on errors and on a chain that stands still. The answers of the RPC
  client come as a list, one per poll; time is in milliseconds.
\<close>

section \<open>Phase events\<close>

datatype poller_event =
    PhaseChanged u64 phase u64
  | NewBatch u64 u64
  | PauseDetected

record poller_state =
  ps_last_block :: u64
  ps_last_batch_id :: u64
  ps_last_phase :: phase
  ps_stall_count :: u32

text \<open>One turn of the loop; \<open>None\<close> is a division by a batch length of zero.\<close>

definition on_new_height ::
  "batch_epoch \<Rightarrow> batch_params \<Rightarrow> u64 \<Rightarrow> poller_state \<Rightarrow> (poller_state \<times> poller_event list) option" where
  "on_new_height epoch params height st =
     Option.bind (compute_batch_id height epoch params) (\<lambda>new_batch_id.
     Option.bind (compute_phase height epoch params) (\<lambda>new_phase.
       Some (if new_batch_id \<noteq> ps_last_batch_id st then
               (st\<lparr>ps_last_batch_id := new_batch_id, ps_last_phase := new_phase, ps_last_block := height\<rparr>,
                [NewBatch new_batch_id height])
             else if new_phase \<noteq> ps_last_phase st then
               (st\<lparr>ps_last_phase := new_phase, ps_last_block := height\<rparr>, [PhaseChanged new_batch_id new_phase height])
             else (st\<lparr>ps_last_block := height\<rparr>, []))))"

definition poll_step ::
  "batch_epoch \<Rightarrow> batch_params \<Rightarrow> u32 \<Rightarrow> chain_error + ledger_info \<Rightarrow> poller_state
     \<Rightarrow> (poller_state \<times> poller_event list) option" where
  "poll_step epoch params stall_threshold answer st =
     (case answer of
        Inl e \<Rightarrow>
          (let st' = st\<lparr>ps_stall_count := ps_stall_count st + 1\<rparr>
           in Some (st', if stall_threshold \<le> ps_stall_count st' then [PauseDetected] else []))
      | Inr ledger \<Rightarrow>
          (let st' = st\<lparr>ps_stall_count := 0\<rparr>
           in if li_block_height ledger \<le> ps_last_block st then Some (st', [])
              else on_new_height epoch params (li_block_height ledger) st'))"

fun poll_run ::
  "batch_epoch \<Rightarrow> batch_params \<Rightarrow> u32 \<Rightarrow> (chain_error + ledger_info) list \<Rightarrow> poller_state
     \<Rightarrow> (poller_state \<times> poller_event list) option" where
  "poll_run epoch params thr [] st = Some (st, [])"
| "poll_run epoch params thr (a # answers) st =
     Option.bind (poll_step epoch params thr a st) (\<lambda>(st1, evs).
       map_option (\<lambda>(st2, rest). (st2, evs @ rest)) (poll_run epoch params thr answers st1))"

definition run_block_poller ::
  "batch_epoch \<Rightarrow> batch_params \<Rightarrow> u32 \<Rightarrow> nat \<Rightarrow> chain_error + ledger_info \<Rightarrow> (chain_error + ledger_info) list
     \<Rightarrow> (poller_event list \<times> (chain_error + unit)) option" where
  "run_block_poller epoch params stall_threshold max_polls first answers =
     (case first of
        Inl e \<Rightarrow> Some ([], Inl e)
      | Inr ledger \<Rightarrow>
          Option.bind (compute_batch_id (li_block_height ledger) epoch params) (\<lambda>batch.
          Option.bind (compute_phase (li_block_height ledger) epoch params) (\<lambda>phase.
            map_option (\<lambda>(st, evs). (evs, Inr ()))
              (poll_run epoch params stall_threshold (if 0 < max_polls then take max_polls answers else answers)
                 \<lparr>ps_last_block = li_block_height ledger, ps_last_batch_id = batch, ps_last_phase = phase,
                  ps_stall_count = 0\<rparr>))))"

text \<open>What an event claims, at a height above the last one.\<close>

definition synced :: "batch_epoch \<Rightarrow> batch_params \<Rightarrow> poller_state \<Rightarrow> bool" where
  "synced epoch params st \<longleftrightarrow> compute_batch_id (ps_last_block st) epoch params = Some (ps_last_batch_id st)
     \<and> compute_phase (ps_last_block st) epoch params = Some (ps_last_phase st)"

fun event_true :: "batch_epoch \<Rightarrow> batch_params \<Rightarrow> poller_event \<Rightarrow> bool" where
  "event_true epoch params (PhaseChanged b p h) =
     (compute_batch_id h epoch params = Some b \<and> compute_phase h epoch params = Some p)"
| "event_true epoch params (NewBatch b h) = (compute_batch_id h epoch params = Some b)"
| "event_true epoch params PauseDetected = True"

fun event_heights :: "poller_event list \<Rightarrow> u64 list" where
  "event_heights [] = []"
| "event_heights (PhaseChanged b p h # es) = h # event_heights es"
| "event_heights (NewBatch b h # es) = h # event_heights es"
| "event_heights (PauseDetected # es) = event_heights es"

lemma event_heights_append [simp]: "event_heights (a @ b) = event_heights a @ event_heights b"
  by (induction a rule: event_heights.induct) simp_all

text \<open>Heights as far as the list of answers tells.\<close>

definition heights :: "(chain_error + ledger_info) list \<Rightarrow> u64 list" where
  "heights answers = List.map_filter (\<lambda>a. case a of Inl _ \<Rightarrow> None | Inr l \<Rightarrow> Some (li_block_height l)) answers"

lemma heights_simps [simp]: "heights [] = []" "heights (Inl e # as') = heights as'"
  "heights (Inr l # as') = li_block_height l # heights as'"
  by (simp_all add: heights_def List.map_filter_simps)

lemma poll_step_synced:
  assumes "poll_step epoch params thr a st = Some (st', evs)" and "synced epoch params st"
  shows "synced epoch params st' \<and> (\<forall>e \<in> set evs. event_true epoch params e)
      \<and> ps_last_block st' = foldl max (ps_last_block st) (heights [a]) \<and> sorted_wrt (<) (event_heights evs)
      \<and> (\<forall>h \<in> set (event_heights evs). ps_last_block st < h \<and> h \<le> ps_last_block st')"
proof (cases a)
  case (Inl e)
  then show ?thesis using assms by (auto simp: poll_step_def synced_def Let_def split: if_splits)
next
  case (Inr l)
  then show ?thesis
    using assms by (auto simp: poll_step_def on_new_height_def synced_def Let_def bind_eq_Some_conv max_def
        split: if_splits)
qed

lemma poll_run_synced:
  "poll_run epoch params thr answers st = Some (st', evs) \<Longrightarrow> synced epoch params st \<Longrightarrow>
     synced epoch params st' \<and> (\<forall>e \<in> set evs. event_true epoch params e)
     \<and> ps_last_block st' = foldl max (ps_last_block st) (heights answers) \<and> sorted_wrt (<) (event_heights evs)
     \<and> (\<forall>h \<in> set (event_heights evs). ps_last_block st < h \<and> h \<le> ps_last_block st') \<and> ps_last_block st \<le> ps_last_block st'"
proof (induction answers arbitrary: st evs)
  case (Cons a answers)
  from Cons.prems(1) obtain st1 e1 e2 where step: "poll_step epoch params thr a st = Some (st1, e1)"
    and rest: "poll_run epoch params thr answers st1 = Some (st', e2)" and evs: "evs = e1 @ e2"
    by (auto simp: bind_eq_Some_conv)
  note one = poll_step_synced [OF step Cons.prems(2)]
  note more = Cons.IH [OF rest conjunct1 [OF one]]
  have le: "ps_last_block st \<le> ps_last_block st1"
    using one by (cases a) auto
  have "foldl max (ps_last_block st1) (heights answers) = foldl max (ps_last_block st) (heights (a # answers))"
    using one by (cases a) simp_all
  then show ?case
    using one more le evs by (auto simp: sorted_wrt_append intro: order.strict_trans1 order_trans) 
qed simp

text \<open>
  The events of the block poller are true and in order. However the answers fall (errors, old heights,
  jumps), every event is raised at a strictly higher block than the one before and names the batch, and
  for a phase event the phase, that the batch clock computes there; the poller never panics when the batches
  have a length, and its last block is the highest it saw.
\<close>
theorem poller_events_true:
  assumes "blocks_per_batch params \<noteq> 0"
  shows "\<exists>evs. run_block_poller epoch params thr max_polls (Inr ledger) answers = Some (evs, Inr ())
    \<and> (\<forall>e \<in> set evs. event_true epoch params e) \<and> sorted_wrt (<) (event_heights evs)"
proof -
  have clock: "\<exists>b. compute_batch_id h epoch params = Some b" "\<exists>p. compute_phase h epoch params = Some p" for h
    using assms by (simp_all add: compute_batch_id_def compute_phase_def checked_div_def checked_rem_def Let_def)
  have new: "\<exists>y. on_new_height epoch params h st = Some y" for h st
  proof -
    obtain b p where "compute_batch_id h epoch params = Some b" "compute_phase h epoch params = Some p" using clock by blast
    then show ?thesis by (simp add: on_new_height_def)
  qed
  have step: "\<exists>y. poll_step epoch params thr a st = Some y" for a st
    using new by (cases a) (simp_all add: poll_step_def Let_def)
  have run: "\<exists>y. poll_run epoch params thr as' st = Some y" for as' st
  proof (induction as' arbitrary: st)
    case (Cons a as')
    obtain st1 e1 where "poll_step epoch params thr a st = Some (st1, e1)" using step by fastforce
    moreover obtain y where "poll_run epoch params thr as' st1 = Some y" using Cons.IH by blast
    ultimately show ?case by simp
  qed simp
  obtain b p where bp: "compute_batch_id (li_block_height ledger) epoch params = Some b"
    "compute_phase (li_block_height ledger) epoch params = Some p" using clock by blast
  let ?st = "\<lparr>ps_last_block = li_block_height ledger, ps_last_batch_id = b, ps_last_phase = p, ps_stall_count = 0\<rparr>"
    and ?as = "if 0 < max_polls then take max_polls answers else answers"
  obtain st' evs where polled: "poll_run epoch params thr ?as ?st = Some (st', evs)" using run by fastforce
  have "synced epoch params ?st" using bp by (simp add: synced_def)
  from poll_run_synced [OF polled this] polled bp show ?thesis
    by (auto simp: run_block_poller_def)
qed

theorem poller_events_true_witness:
  "\<exists>evs. run_block_poller example_epoch example_params 3 0 (Inr \<lparr>li_block_height = 7, li_ledger_timestamp = 0\<rparr>)
       [Inl RpcTimeout, Inr \<lparr>li_block_height = 9, li_ledger_timestamp = 0\<rparr>, Inr \<lparr>li_block_height = 31, li_ledger_timestamp = 0\<rparr>]
     = Some (evs, Inr ()) \<and> sorted_wrt (<) (event_heights evs)"
  using poller_events_true [of example_params example_epoch 3 0 "\<lparr>li_block_height = 7, li_ledger_timestamp = 0\<rparr>"
      "[Inl RpcTimeout, Inr \<lparr>li_block_height = 9, li_ledger_timestamp = 0\<rparr>, Inr \<lparr>li_block_height = 31, li_ledger_timestamp = 0\<rparr>]"]
  by (auto simp: example_params_def)

section \<open>The chain poller\<close>

record chain_poller =
  cp_backoff :: nat
  cp_consecutive_errors :: u32
  cp_last_new_block :: u64
  cp_stall_backoff :: nat

definition poll_base :: nat where "poll_base = 200"
definition max_backoff :: nat where "max_backoff = 30000"
definition max_stall_backoff :: nat where "max_stall_backoff = 300000"

definition chain_poller_new :: chain_poller where
  "chain_poller_new = \<lparr>cp_backoff = 0, cp_consecutive_errors = 0, cp_last_new_block = 0, cp_stall_backoff = 0\<rparr>"

definition sleep_dur :: "chain_poller \<Rightarrow> nat" where
  "sleep_dur p = poll_base + cp_backoff p + cp_stall_backoff p"

text \<open>One answer: the state for the next sleep, and the height put into the watch channel.\<close>

definition note_height :: "u64 \<Rightarrow> chain_poller \<Rightarrow> chain_poller" where
  "note_height height p =
     (if cp_last_new_block p < height
      then p\<lparr>cp_last_new_block := height, cp_stall_backoff := 0\<rparr>
      else if cp_stall_backoff p < max_stall_backoff
      then p\<lparr>cp_stall_backoff := (if cp_stall_backoff p = 0 then 1000 else min (cp_stall_backoff p * 2) max_stall_backoff)\<rparr>
      else p)"

definition chain_poll ::
  "chain_error + ledger_info \<Rightarrow> chain_poller \<Rightarrow> chain_poller \<times> u64 option" where
  "chain_poll answer p =
     (case answer of
        Inr l \<Rightarrow>
          (let p' = (if 0 < cp_consecutive_errors p then p\<lparr>cp_consecutive_errors := 0, cp_backoff := 0\<rparr> else p)
           in (note_height (li_block_height l) p', Some (li_block_height l)))
      | Inl e \<Rightarrow>
          (let n = cp_consecutive_errors p + 1
           in (p\<lparr>cp_consecutive_errors := n, cp_backoff := 1000 * min (2 ^ unat (min n 5)) 30\<rparr>, None)))"

fun chain_poll_run :: "(chain_error + ledger_info) list \<Rightarrow> chain_poller \<Rightarrow> chain_poller \<times> u64 list" where
  "chain_poll_run [] p = (p, [])"
| "chain_poll_run (a # answers) p =
     (let (p1, published) = chain_poll a p;
          (p2, rest) = chain_poll_run answers p1
      in (p2, (case published of None \<Rightarrow> rest | Some h \<Rightarrow> h # rest)))"

definition poller_inv :: "chain_poller \<Rightarrow> bool" where
  "poller_inv p \<longleftrightarrow> cp_backoff p \<le> max_backoff \<and> cp_stall_backoff p \<le> max_stall_backoff"

lemma chain_poll_inv: "poller_inv p \<Longrightarrow> poller_inv (fst (chain_poll a p))"
  by (cases a) (auto simp: poller_inv_def chain_poll_def note_height_def max_backoff_def max_stall_backoff_def Let_def)

lemma chain_poll_run_inv: "poller_inv p \<Longrightarrow> poller_inv (fst (chain_poll_run answers p))"
proof (induction answers arbitrary: p)
  case (Cons a answers)
  have "poller_inv (fst (chain_poll_run answers (fst (chain_poll a p))))"
    using Cons.IH [OF chain_poll_inv [OF Cons.prems]] .
  then show ?case by (simp add: case_prod_beta Let_def)
qed simp

lemma chain_poll_run_heights: "snd (chain_poll_run answers p) = heights answers"
proof (induction answers arbitrary: p)
  case (Cons a answers)
  then show ?case by (cases a) (auto simp: chain_poll_def case_prod_beta Let_def)
qed simp

text \<open>
  C32. The chain poller neither floods the node nor gives up on it, and it stays on one endpoint. After any
  answers the next poll comes between 200 milliseconds and 330.2 seconds later; what the main loop
  gets to see are exactly the heights of the good answers, in order. But as long as the first
  endpoint of its client is dead no height reaches the loop at all, however many endpoints are healthy.
\<close>
theorem poller_bounded_and_stuck:
  "200 \<le> sleep_dur (fst (chain_poll_run answers chain_poller_new))
   \<and> sleep_dur (fst (chain_poll_run answers chain_poller_new)) \<le> 330200
   \<and> snd (chain_poll_run answers chain_poller_new) = heights answers
   \<and> snd (chain_poll_run
       (replicate n (the (get_ledger_info parse (\<lambda>url. if starts_with a url then Inl e else server url)
          (client_new (a # rest) addr)))) chain_poller_new) = []"
proof -
  have "poller_inv chain_poller_new" by (simp add: poller_inv_def chain_poller_new_def)
  then have "poller_inv (fst (chain_poll_run answers chain_poller_new))" by (rule chain_poll_run_inv)
  moreover have "get_ledger_info parse (\<lambda>url. if starts_with a url then Inl e else server url) (client_new (a # rest) addr)
      = Some (Inl (NetworkError e))"
    by (simp add: get_ledger_info_def current_base_def client_new_def endpoint_at_def starts_with_def)
  moreover have "heights (replicate n (Inl x)) = []" for x by (induction n) simp_all
  ultimately show ?thesis
    by (simp add: sleep_dur_def poll_base_def poller_inv_def max_backoff_def max_stall_backoff_def chain_poll_run_heights)
qed

end
