(* ===== verification/NodeQueries.thy ===== *)
theory NodeQueries
  imports RpcClient StrategyTypes SettlementTx Escrow
begin

text \<open>
  What the node of \<open>src/run.rs\<close> asks the chain (the \<open>fetch_*\<close> helpers), what it makes of the answers,
  and the two transactions it sends about itself: the heartbeat and the reactivation. Several calls in
  a row go through one client, whose endpoint rotation the model threads; the k-th call gets the k-th
  answer of the world. A quantity is shown as a float quotient: \<open>qw_ratio\<close> is the text of a raw amount
  over a divisor with the given digits after the point, \<open>qw_scaled\<close> the text of an amount over the power
  of ten of its decimals. \<open>None\<close> is a panic.
\<close>

section \<open>Calls in a row\<close>

record query_world =
  qw_parse :: "string \<Rightarrow> json option"
  qw_view :: "nat \<Rightarrow> nat \<Rightarrow> string \<Rightarrow> json \<Rightarrow> http_answer"
  qw_ratio :: "nat option \<Rightarrow> u64 \<Rightarrow> u64 \<Rightarrow> string"
  qw_scaled :: "u8 \<Rightarrow> u64 \<Rightarrow> string"
  qw_json_text :: "json \<Rightarrow> string"
  qw_sha3 :: "bytes \<Rightarrow> bytes"

type_synonym 'a query = "supra_client \<times> nat \<Rightarrow> ((supra_client \<times> nat) \<times> 'a) option"

definition answer :: "'a \<Rightarrow> 'a query" where
  "answer x st = Some (st, x)"

definition then_ask :: "'a query \<Rightarrow> ('a \<Rightarrow> 'b query) \<Rightarrow> 'b query" where
  "then_ask q f st = Option.bind (q st) (\<lambda>(st', x). f x st')"

definition ask_view :: "query_world \<Rightarrow> string \<Rightarrow> string \<Rightarrow> json list \<Rightarrow> (chain_error + json) query" where
  "ask_view Q module function args st =
     (case st of (cl, k) \<Rightarrow>
        map_option (\<lambda>(cl', r). ((cl', Suc k), r)) (view_raw (qw_parse Q) (qw_view Q k) module function [] args cl))"

definition ask_absolute :: "query_world \<Rightarrow> string \<Rightarrow> string list \<Rightarrow> json list \<Rightarrow> (chain_error + json) query" where
  "ask_absolute Q function types args st =
     (case st of (cl, k) \<Rightarrow>
        map_option (\<lambda>(cl', r). ((cl', Suc k), r)) (view_absolute (qw_parse Q) (qw_view Q k) function types args cl))"

section \<open>Settings of the protocol\<close>

datatype query_error = QChain chain_error | QTypes types_error | QShape string | QNumber string

definition fetch_batch_params :: "query_world \<Rightarrow> (query_error + batch_params) query" where
  "fetch_batch_params Q =
     then_ask (ask_view Q ''pool_config'' ''get_batch_params'' []) (\<lambda>r.
       answer (res_bind (map_err QChain r) (\<lambda>j. map_err QTypes (batch_params_from_view j))))"

definition fetch_batch_epoch :: "query_world \<Rightarrow> (query_error + batch_epoch) query" where
  "fetch_batch_epoch Q =
     then_ask (ask_view Q ''pool_config'' ''get_batch_epoch'' []) (\<lambda>r.
       answer (res_bind (map_err QChain r) (\<lambda>j. map_err QTypes (batch_epoch_from_view j))))"

text \<open>A single number, as text in the first element.\<close>

definition text_number :: "string \<Rightarrow> chain_error + json \<Rightarrow> query_error + u64" where
  "text_number shape r =
     res_bind (map_err QChain r) (\<lambda>j.
     res_bind (ok_or (QShape shape) (Option.bind (jindex 0 j) as_str)) (\<lambda>s.
       ok_or (QNumber s) (parse_u64 s)))"

definition fetch_setting :: "query_world \<Rightarrow> string \<Rightarrow> string \<Rightarrow> (query_error + u64) query" where
  "fetch_setting Q function shape =
     then_ask (ask_view Q ''pool_config'' function []) (\<lambda>r. answer (text_number shape r))"

definition fetch_num_pools :: "query_world \<Rightarrow> (query_error + u64) query" where
  "fetch_num_pools Q = fetch_setting Q ''get_num_pools'' ''unexpected num_pools response format''"

definition fetch_protocol_version :: "query_world \<Rightarrow> (query_error + u64) query" where
  "fetch_protocol_version Q = fetch_setting Q ''get_protocol_version'' ''unexpected protocol version response format''"

definition fetch_heartbeat_interval :: "query_world \<Rightarrow> (query_error + u64) query" where
  "fetch_heartbeat_interval Q =
     fetch_setting Q ''get_recommended_heartbeat_interval'' ''unexpected heartbeat interval response format''"

definition fetch_heartbeat_timeout :: "query_world \<Rightarrow> (query_error + u64) query" where
  "fetch_heartbeat_timeout Q = fetch_setting Q ''get_heartbeat_timeout'' ''unexpected heartbeat timeout response format''"

definition check_is_active :: "query_world \<Rightarrow> u64 \<Rightarrow> bool option query" where
  "check_is_active Q nft_id =
     then_ask (ask_view Q ''escrow'' ''is_active'' [JString (u64_str nft_id)]) (\<lambda>r.
       answer (case r of Inl _ \<Rightarrow> None | Inr j \<Rightarrow> Option.bind (jindex 0 j) as_bool))"

definition fetch_supra_balance :: "query_world \<Rightarrow> string \<Rightarrow> u64 option query" where
  "fetch_supra_balance Q address =
     then_ask (ask_absolute Q ''0x1::coin::balance'' [''0x1::supra_coin::SupraCoin''] [JString address]) (\<lambda>r.
       answer (case r of Inl _ \<Rightarrow> None | Inr j \<Rightarrow> Option.bind (jindex 0 j) number_or_text))"

section \<open>Tokens\<close>

definition market_hex :: "string \<Rightarrow> string" where
  "market_hex market = ''0x'' @ hex_encode (char_bytes market)"

definition ask_pair :: "query_world \<Rightarrow> string \<Rightarrow> (chain_error + json) query" where
  "ask_pair Q market = ask_view Q ''settlement'' ''get_market_pair'' [JString (market_hex market)]"

definition pair_object :: "json \<Rightarrow> json" where
  "pair_object r = or_default r (jindex 0 r)"

text \<open>The two tokens of a market with the addresses of their metadata; none unless the symbol has
  exactly one slash.\<close>

definition pair_tokens :: "string \<Rightarrow> json \<Rightarrow> (string \<times> string) list" where
  "pair_tokens market r =
     (let p = pair_object r;
          base_meta = or_default [] (str_field ''base_metadata'' p);
          quote_meta = or_default [] (str_field ''quote_metadata'' p)
      in case split_on (CHR ''/'') market of
           [base, quote] \<Rightarrow> [(base, base_meta), (quote, quote_meta)]
         | _ \<Rightarrow> [])"

definition decimals_number :: "json \<Rightarrow> u8" where
  "decimals_number v = ucast (or_default 5 (as_u64 v) :: u64)"

fun decimals_of_value :: "json option \<Rightarrow> u8 option" where
  "decimals_of_value (Some (JString s)) = Some (or_default 5 (parse_u8 s))"
| "decimals_of_value (Some (JInt i)) = Some (decimals_number (JInt i))"
| "decimals_of_value (Some (JFloat f)) = Some (decimals_number (JFloat f))"
| "decimals_of_value _ = None"

definition decimals_of_answer :: "json \<Rightarrow> u8" where
  "decimals_of_answer r =
     (case decimals_of_value (jindex 0 r) of
        Some d \<Rightarrow> d
      | None \<Rightarrow> or_default 8 (decimals_of_value (Some r)))"

fun ask_decimals :: "query_world \<Rightarrow> (string \<times> string) list \<Rightarrow> (string, u8) hmap \<Rightarrow> (string, u8) hmap query" where
  "ask_decimals Q [] ds = answer ds"
| "ask_decimals Q ((token, meta) # ts) ds =
     (if meta = [] \<or> hm_contains ds token then ask_decimals Q ts ds
      else then_ask (ask_absolute Q ''0x1::fungible_asset::decimals'' [''0x1::fungible_asset::Metadata''] [JString meta])
             (\<lambda>r. ask_decimals Q ts (hm_insert token (case r of Inr j \<Rightarrow> decimals_of_answer j | Inl _ \<Rightarrow> 5) ds)))"

fun fetch_decimals_from :: "query_world \<Rightarrow> string list \<Rightarrow> (string, u8) hmap \<Rightarrow> (string, u8) hmap query" where
  "fetch_decimals_from Q [] ds = answer ds"
| "fetch_decimals_from Q (market # ms) ds =
     then_ask (ask_pair Q market) (\<lambda>r. case r of
         Inl _ \<Rightarrow> fetch_decimals_from Q ms ds
       | Inr j \<Rightarrow> then_ask (ask_decimals Q (pair_tokens market j) ds) (fetch_decimals_from Q ms))"

definition fetch_token_decimals :: "query_world \<Rightarrow> string list \<Rightarrow> (string, u8) hmap query" where
  "fetch_token_decimals Q markets = fetch_decimals_from Q markets []"

text \<open>An amount in the first element as a person reads it; nothing when it is no number.\<close>

definition amount_text :: "query_world \<Rightarrow> json option \<Rightarrow> string" where
  "amount_text Q v = (case v of
     Some (JString s) \<Rightarrow> s | Some j \<Rightarrow> trim_quotes (qw_json_text Q j) | None \<Rightarrow> ''0'')"

definition shown_amount :: "query_world \<Rightarrow> nat option \<Rightarrow> (string, u8) hmap \<Rightarrow> string \<Rightarrow> u64 \<Rightarrow> string" where
  "shown_amount Q digits ds token raw =
     qw_ratio Q digits raw (10 ^ unat (or_default 5 (hm_get ds token)))"

definition note_amount ::
  "query_world \<Rightarrow> nat option \<Rightarrow> (string, u8) hmap \<Rightarrow> string \<Rightarrow> json option \<Rightarrow> (string, string) hmap \<Rightarrow> (string, string) hmap" where
  "note_amount Q digits ds token v m =
     (case parse_u64 (amount_text Q v) of
        Some raw \<Rightarrow> hm_insert token (shown_amount Q digits ds token raw) m
      | None \<Rightarrow> m)"

fun ask_balances ::
  "query_world \<Rightarrow> u64 \<Rightarrow> (string, u8) hmap \<Rightarrow> (string \<times> string) list \<Rightarrow> (string, string) hmap \<Rightarrow> (string, string) hmap query" where
  "ask_balances Q nft_id ds [] m = answer m"
| "ask_balances Q nft_id ds ((token, meta) # ts) m =
     (if meta = [] then ask_balances Q nft_id ds ts m
      else then_ask (ask_view Q ''escrow'' ''get_balance'' [JString (u64_str nft_id), JString meta]) (\<lambda>r.
             ask_balances Q nft_id ds ts (case r of Inl _ \<Rightarrow> m | Inr j \<Rightarrow> note_amount Q None ds token (jindex 0 j) m)))"

fun fetch_balances_from ::
  "query_world \<Rightarrow> u64 \<Rightarrow> (string, u8) hmap \<Rightarrow> string list \<Rightarrow> (string, string) hmap \<Rightarrow> (string, string) hmap query" where
  "fetch_balances_from Q nft_id ds [] m = answer m"
| "fetch_balances_from Q nft_id ds (market # ms) m =
     then_ask (ask_pair Q market) (\<lambda>r. case r of
         Inl _ \<Rightarrow> fetch_balances_from Q nft_id ds ms m
       | Inr j \<Rightarrow> then_ask (ask_balances Q nft_id ds (pair_tokens market j) m) (fetch_balances_from Q nft_id ds ms))"

definition fetch_escrow_balances :: "query_world \<Rightarrow> u64 \<Rightarrow> string list \<Rightarrow> (string, u8) hmap \<Rightarrow> (string, string) hmap query" where
  "fetch_escrow_balances Q nft_id markets ds = fetch_balances_from Q nft_id ds markets []"

definition token_names :: "string list" where
  "token_names = [''EMM'', ''KAY'', ''TEE'']"

definition token_seeds :: "(string \<times> string) list" where
  "token_seeds = [(''EMM'', ''deadmkt_emm''), (''KAY'', ''deadmkt_kay''), (''TEE'', ''deadmkt_tee'')]"

definition wallet_meta :: "query_world \<Rightarrow> string \<Rightarrow> string \<Rightarrow> string" where
  "wallet_meta Q contract seed =
     ''0x'' @ hex_encode (qw_sha3 Q (or_default [] (hex_decode (trim_0x contract)) @ char_bytes seed @ [0xFE]))"

fun ask_wallet ::
  "query_world \<Rightarrow> string \<Rightarrow> string \<Rightarrow> (string, u8) hmap \<Rightarrow> (string \<times> string) list \<Rightarrow> (string, string) hmap \<Rightarrow> (string, string) hmap query" where
  "ask_wallet Q address contract ds [] m = answer m"
| "ask_wallet Q address contract ds ((name, seed) # ts) m =
     then_ask (ask_absolute Q ''0x1::primary_fungible_store::balance'' [''0x1::fungible_asset::Metadata'']
         [JString address, JString (wallet_meta Q contract seed)]) (\<lambda>r.
       ask_wallet Q address contract ds ts (case r of
           Inl _ \<Rightarrow> hm_insert name ''0.00000'' m
         | Inr j \<Rightarrow> note_amount Q (Some 5) ds name (jindex 0 j) m))"

definition fetch_wallet_balances :: "query_world \<Rightarrow> string \<Rightarrow> string \<Rightarrow> (string, u8) hmap \<Rightarrow> (string, string) hmap query" where
  "fetch_wallet_balances Q address contract ds = ask_wallet Q address contract ds token_seeds []"

definition fetch_circulating_supply :: "query_world \<Rightarrow> (string, u8) hmap \<Rightarrow> (string, string) hmap query" where
  "fetch_circulating_supply Q ds =
     then_ask (ask_view Q ''tokens'' ''get_circulating_supply'' []) (\<lambda>r.
       answer (case r of
           Inl _ \<Rightarrow> []
         | Inr j \<Rightarrow> foldl (\<lambda>m (i, name). note_amount Q (Some 5) ds name (jindex i j) m) [] (enumerate 0 token_names)))"

section \<open>Vault locks and mints\<close>

text \<open>A field of a lock, by name or else by position.\<close>

definition lock_field :: "(string \<Rightarrow> 'a option) \<Rightarrow> string \<Rightarrow> nat \<Rightarrow> json \<Rightarrow> 'a option" where
  "lock_field f k i lock =
     (case Option.bind (str_field k lock) f of
        Some x \<Rightarrow> Some x
      | None \<Rightarrow> Option.bind (Option.bind (jindex i lock) as_str) f)"

definition vault_lock_of :: "query_world \<Rightarrow> (string, u8) hmap \<Rightarrow> json \<Rightarrow> vault_lock_data" where
  "vault_lock_of Q ds lock =
     (let sym_id = unat (or_default 0 (lock_field parse_u8 ''symbol'' 0 lock));
          raw = or_default 0 (lock_field parse_u64 ''amount'' 1 lock);
          claimed = (case Option.bind (jget ''claimed'' lock) as_bool of
              Some b \<Rightarrow> b | None \<Rightarrow> or_default False (Option.bind (jindex 3 lock) as_bool));
          name = (if sym_id < length token_names then token_names ! sym_id else ''UNK'')
      in \<lparr>vl_symbol = name, vl_amount = shown_amount Q (Some 5) ds name raw,
          vl_unlock_at = or_default 0 (lock_field parse_u64 ''minimum_unlock_at'' 2 lock), vl_claimed = claimed\<rparr>)"

definition fetch_vault_locks :: "query_world \<Rightarrow> string \<Rightarrow> (string, u8) hmap \<Rightarrow> vault_lock_data list query" where
  "fetch_vault_locks Q address ds =
     then_ask (ask_view Q ''tokens'' ''get_vault_locks'' [JString address]) (\<lambda>r.
       answer (case r of Inl _ \<Rightarrow> [] | Inr j \<Rightarrow> map (vault_lock_of Q ds) (or_default [] (as_array j))))"

definition text_u64_at :: "nat \<Rightarrow> json \<Rightarrow> u64" where
  "text_u64_at i j = or_default 0 (Option.bind (Option.bind (jindex i j) as_str) parse_u64)"

definition mint_state_name :: "u8 \<Rightarrow> string" where
  "mint_state_name n = (if n = 0 then ''AWAITING_TRIGGER'' else if n = 1 then ''DVRF_PENDING''
     else if n = 2 then ''OPEN'' else if n = 3 then ''BLOCKED'' else ''UNKNOWN'')"

text \<open>\<open>Option<PendingMint>\<close> arrives wrapped in \<open>vec\<close>, or bare.\<close>

definition wrapped_mint :: "json \<Rightarrow> json option" where
  "wrapped_mint j = Option.bind (Option.bind (jindex 0 j) (jget ''vec'')) (jindex 0)"

definition claimable_of :: "json \<Rightarrow> u64" where
  "claimable_of j =
     (let time = (\<lambda>v. Option.bind (str_field ''claimable_at'' v) parse_u64)
      in case Option.bind (wrapped_mint j) time of
           Some n \<Rightarrow> n
         | None \<Rightarrow> or_default 0 (Option.bind (jindex 0 j) time))"

definition ask_pending :: "query_world \<Rightarrow> string \<Rightarrow> (chain_error + json) query" where
  "ask_pending Q address = ask_view Q ''tokens'' ''get_pending_mint'' [JString address]"

definition ask_own_mint :: "query_world \<Rightarrow> string \<Rightarrow> (bool \<times> u64) query" where
  "ask_own_mint Q address =
     then_ask (ask_view Q ''tokens'' ''get_nft_mint_state'' [JString address]) (\<lambda>r. case r of
         Inl _ \<Rightarrow> answer (False, 0)
       | Inr j \<Rightarrow>
           (if or_default False (Option.bind (jindex 1 j) as_bool)
            then then_ask (ask_pending Q address)
                   (\<lambda>r. answer (True, case r of Inl _ \<Rightarrow> 0 | Inr p \<Rightarrow> claimable_of p))
            else answer (False, 0)))"

definition fetch_mint_state :: "query_world \<Rightarrow> string \<Rightarrow> mint_state_data query" where
  "fetch_mint_state Q address =
     then_ask (ask_view Q ''tokens'' ''get_mint_state'' []) (\<lambda>r. case r of
         Inl _ \<Rightarrow> answer \<lparr>ms_state = ''UNKNOWN'', ms_hold_duration_secs = 0, ms_period_end = 0, ms_block_end = 0,
                    ms_has_pending_mint = False, ms_pending_claimable_at = 0\<rparr>
       | Inr j \<Rightarrow>
           then_ask (ask_own_mint Q address) (\<lambda>(pending, claimable).
             answer \<lparr>ms_state = mint_state_name (or_default 0 (Option.bind (Option.bind (jindex 0 j) as_str) parse_u8)),
               ms_hold_duration_secs = text_u64_at 2 j, ms_period_end = text_u64_at 1 j,
               ms_block_end = text_u64_at 3 j, ms_has_pending_mint = pending,
               ms_pending_claimable_at = claimable\<rparr>))"

record pending_mint_full =
  pm_m_amount :: u64
  pm_k_amount :: u64
  pm_t_amount :: u64
  pm_supra_cost :: u64
  pm_claimable_at :: u64

definition pending_mint_of :: "json \<Rightarrow> pending_mint_full option" where
  "pending_mint_of j =
     Option.bind (case wrapped_mint j of Some v \<Rightarrow> Some v | None \<Rightarrow> jindex 0 j) (\<lambda>pm.
       let read_u64 = (\<lambda>k. or_default 0 (Option.bind (str_field k pm) parse_u64))
       in if read_u64 ''claimable_at'' = 0 then None
          else Some \<lparr>pm_m_amount = read_u64 ''m_amount'', pm_k_amount = read_u64 ''k_amount'',
                     pm_t_amount = read_u64 ''t_amount'', pm_supra_cost = read_u64 ''supra_cost'',
                     pm_claimable_at = read_u64 ''claimable_at''\<rparr>)"

definition fetch_pending_mint_full :: "query_world \<Rightarrow> string \<Rightarrow> pending_mint_full option query" where
  "fetch_pending_mint_full Q address =
     then_ask (ask_pending Q address) (\<lambda>r. answer (case r of Inl _ \<Rightarrow> None | Inr j \<Rightarrow> pending_mint_of j))"

section \<open>What the strategy is shown\<close>

definition build_escrow_views ::
  "query_world \<Rightarrow> (string, u8) hmap \<Rightarrow> escrow_tracker \<Rightarrow> (string, string) hmap \<times> (string, string) hmap" where
  "build_escrow_views Q ds t =
     (let shown = (\<lambda>token raw. qw_scaled Q (or_default 5 (hm_get ds token)) raw)
      in foldl (\<lambda>(proj, conf) token.
             (hm_insert token (shown token (projected token t)) proj,
              case get_balance token t of
                None \<Rightarrow> conf | Some b \<Rightarrow> hm_insert token (shown token (confirmed b)) conf))
           ([], []) (tracked_tokens t))"

definition make_batch_start where
  "make_batch_start batch_id pool_id params num_pools proj conf wallet gas_text peers last_batch pending health
       mint_state circulating vault_locks min_trade =
     \<lparr>bs_batch_id = batch_id, bs_pool_id = pool_id, bs_escrow = proj, bs_escrow_confirmed = conf,
      bs_wallet = wallet, bs_gas_balance = gas_text, bs_last_batch = last_batch,
      bs_batch_params = \<lparr>bp_blocks_per_batch = blocks_per_batch params,
        bp_commits_per_batch = ucast (commits_per_batch params), bp_num_pools = num_pools\<rparr>,
      bs_pending_settlements = pending, bs_peers_in_pool = peers, bs_mint_state = mint_state,
      bs_circulating = circulating, bs_vault_locks = vault_locks, bs_node_health = health,
      bs_min_trade_quantity = u64_str min_trade\<rparr>"

definition sp10_format_duration :: "u64 \<Rightarrow> string" where
  "sp10_format_duration secs =
     (let days = secs div 86400; hours = (secs mod 86400) div 3600; mins = (secs mod 3600) div 60
      in if 0 < days then u64_str days @ ''d '' @ u64_str hours @ ''h '' @ u64_str mins @ ''m''
         else if 0 < hours then u64_str hours @ ''h '' @ u64_str mins @ ''m''
         else u64_str (max mins 1) @ ''m'')"

section \<open>Transactions of the node itself\<close>

record node_wallet =
  nw_signing_key :: bytes
  nw_contract :: string
  nw_address :: string
  nw_chain_id :: u8
  nw_max_gas :: u64
  nw_gas_price :: u64

record send_world =
  sn_account :: "string \<Rightarrow> http_answer"
  sn_post :: "string \<Rightarrow> bytes \<Rightarrow> http_answer"
  sn_now :: u64

datatype send_error =
    BadContract settlement_error
  | BadSender settlement_error
  | NoAccount chain_error
  | BuildFailed settlement_error
  | SubmitFailed chain_error

text \<open>The account's sequence number, the signed call of an entry function, and its submission.\<close>

definition send_entry ::
  "crypto \<Rightarrow> tx_codec \<Rightarrow> (string \<Rightarrow> json option) \<Rightarrow> node_wallet \<Rightarrow> bytes \<Rightarrow> bytes \<Rightarrow> string \<Rightarrow> string \<Rightarrow> bytes list
    \<Rightarrow> send_world \<Rightarrow> supra_client \<Rightarrow> (send_error + string) option" where
  "send_entry C X parse N sender contract module function args S cl =
     Option.bind (get_account parse (sn_account S) (''0x'' @ hex_encode sender) cl) (\<lambda>account.
       case account of
         Inl e \<Rightarrow> Some (Inl (NoAccount e))
       | Inr a \<Rightarrow>
          (case build_and_sign_entry_function C X (nw_signing_key N) sender contract module function args
                  (ai_sequence_number a) (sn_now S + 60) (nw_chain_id N) (nw_max_gas N) (nw_gas_price N) of
             Inl e \<Rightarrow> Some (Inl (BuildFailed e))
           | Inr tx \<Rightarrow> map_option (map_err SubmitFailed) (submit_raw (sn_post S) tx cl)))"

definition submit_own ::
  "crypto \<Rightarrow> tx_codec \<Rightarrow> (string \<Rightarrow> json option) \<Rightarrow> string \<Rightarrow> node_wallet \<Rightarrow> send_world \<Rightarrow> supra_client \<Rightarrow> (send_error + string) option" where
  "submit_own C X parse function N S cl =
     (case parse_address X (nw_contract N) of
        Inl e \<Rightarrow> Some (Inl (BadContract e))
      | Inr contract \<Rightarrow>
       (case parse_address X (nw_address N) of
          Inl e \<Rightarrow> Some (Inl (BadSender e))
        | Inr sender \<Rightarrow> send_entry C X parse N sender contract ''escrow'' function [] S cl))"

definition submit_heartbeat where
  "submit_heartbeat C X parse = submit_own C X parse ''heartbeat''"

definition submit_reactivate where
  "submit_reactivate C X parse = submit_own C X parse ''reactivate''"

section \<open>Vault locks are misread\<close>

lemma misread_lock:
  "vault_lock_of Q ds (JArray (map JObject locks))
     = \<lparr>vl_symbol = ''EMM'', vl_amount = shown_amount Q (Some 5) ds ''EMM'' 0, vl_unlock_at = 0, vl_claimed = False\<rparr>"
proof -
  have "Option.bind (Option.bind (jindex i (JArray (map JObject locks))) as_str) f = None"
    "Option.bind (jindex i (JArray (map JObject locks))) as_bool = None" for i and f :: "string \<Rightarrow> 'a option"
    by (simp_all split: if_splits)
  then show ?thesis
    by (simp add: vault_lock_of_def lock_field_def str_field_def token_names_def Let_def)
qed

text \<open>
  The strategy never sees a vault lock. A view answers with the list of its return values, as every other
  query of the node expects; the vault query takes that list for the list of locks. Whatever locks the
  contract returns, and also when it returns none, the node reports one lock: an unclaimed zero
  amount of EMM, unlocked since the beginning of time.
\<close>
theorem vault_locks_misread:
  assumes "ask_view Q ''tokens'' ''get_vault_locks'' [JString address] st = Some (st', Inr (JArray [JArray (map JObject locks)]))"
  shows "fetch_vault_locks Q address ds st = Some (st',
     [\<lparr>vl_symbol = ''EMM'', vl_amount = shown_amount Q (Some 5) ds ''EMM'' 0, vl_unlock_at = 0, vl_claimed = False\<rparr>])"
  using assms by (simp add: fetch_vault_locks_def then_ask_def answer_def misread_lock)

text \<open>An endpoint whose every answer parses as two locks.\<close>

definition example_locks :: "(string \<times> json) list list" where
  "example_locks = [[(''symbol'', JString ''1''), (''amount'', JString ''500000''), (''minimum_unlock_at'', JString ''99''),
       (''claimed'', JBool False)], [(''symbol'', JString ''2''), (''amount'', JString ''7'')]]"

definition example_query :: query_world where
  "example_query = \<lparr>qw_parse = (\<lambda>_. Some (JArray [JArray (map JObject example_locks)])),
     qw_view = (\<lambda>_ _ _ _. Inr example_reply), qw_ratio = (\<lambda>_ raw divisor. u64_str (raw div divisor)),
     qw_scaled = (\<lambda>_ raw. u64_str raw), qw_json_text = (\<lambda>_. []), qw_sha3 = (\<lambda>_. replicate 32 0)\<rparr>"

lemma example_vault_answer:
  "ask_view example_query ''tokens'' ''get_vault_locks'' [JString ''0x1''] (example_client, 0)
     = Some ((advanced 1 example_client, 1), Inr (JArray [JArray (map JObject example_locks)]))"
proof -
  have "judge_view (qw_parse example_query) (Inr example_reply) = Some (Return (Inr (JArray [JArray (map JObject example_locks)])))"
    by (simp add: judge_view_def check_response_limit_def example_reply_def parse_response_def example_query_def unwrap_result_def)
  moreover have "cl_endpoints example_client \<noteq> []" "cl_max_retries example_client = 3"
    by (simp_all add: example_client_def client_new_def)
  ultimately show ?thesis
    by (simp add: ask_view_def view_raw_def view_absolute_def numeral_eq_Suc next_endpoint_some example_query_def)
qed

theorem vault_locks_misread_witness:
  "fetch_vault_locks example_query ''0x1'' [] (example_client, 0) = Some ((advanced 1 example_client, 1),
     [\<lparr>vl_symbol = ''EMM'', vl_amount = ''0'', vl_unlock_at = 0, vl_claimed = False\<rparr>])"
proof -
  have "u64_str 0 = ''0''" by code_simp
  with vault_locks_misread [OF example_vault_answer, of "[]"] show ?thesis
    by (simp add: shown_amount_def example_query_def)
qed

end
