(* ===== verification/NodeLiveness.thy ===== *)
theory NodeLiveness
  imports NodeQueries Gas
begin

text \<open>
  How the main loop of \<open>src/run.rs\<close> keeps its NFT alive on the chain: at a batch boundary it sends the
  heartbeat when it is due, asks whether the contract still holds the NFT for active and, when not,
  reactivates it, and reads the heartbeat settings again every hundred batches. One boundary is
  \<open>liveness_batch\<close>; a run also yields the transactions sent, in order. \<open>None\<close> is a panic, or a wait for
  a transaction whose answers end before it does.
\<close>

section \<open>State\<close>

record liveness =
  lv_interval :: u64
  lv_timeout :: u64
  lv_hb_failures :: u64
  lv_inactive :: u32
  lv_attempts :: u64
  lv_successes :: u64
  lv_chain :: "supra_client \<times> nat"
  lv_pool :: "supra_client \<times> nat"

record liveness_config =
  lc_wallet :: node_wallet
  lc_nft_id :: u64
  lc_escrow_client :: supra_client
  lc_balances :: "(string, string) hmap"
  lc_check_interval :: u64
  lc_positive :: "string \<Rightarrow> bool"

record liveness_input =
  li_batch :: u64
  li_last_settlement :: u64
  li_heartbeat_send :: send_world
  li_reactivate_send :: send_world
  li_wait :: "(nat \<times> http_answer) list"
  li_chain :: query_world
  li_pool :: query_world

datatype own_tx =
    is_heartbeat: Heartbeat "send_error + string"
  | is_reactivate: Reactivate "send_error + string"

text \<open>The interval of the self-check: a number in the environment, or 50.\<close>

definition liveness_check_interval :: "string option \<Rightarrow> u64" where
  "liveness_check_interval env = or_default 50 (Option.bind env parse_u64)"

text \<open>The heartbeat settings at the start, with the fallbacks for a failed query and for zero.\<close>

definition starting_liveness :: "query_error + u64 \<Rightarrow> query_error + u64 \<Rightarrow> supra_client \<Rightarrow> supra_client \<Rightarrow> liveness" where
  "starting_liveness interval timeout chain pool =
     \<lparr>lv_interval = clamp_heartbeat_interval (case interval of Inr v \<Rightarrow> v | Inl _ \<Rightarrow> 10),
      lv_timeout = (case timeout of Inr v \<Rightarrow> v | Inl _ \<Rightarrow> 50),
      lv_hb_failures = 0, lv_inactive = 0, lv_attempts = 0, lv_successes = 0,
      lv_chain = (chain, 0), lv_pool = (pool, 0)\<rparr>"

section \<open>Heartbeat\<close>

text \<open>Whether a balance shown at the start reads as a number above zero.\<close>

definition has_capital :: "liveness_config \<Rightarrow> bool" where
  "has_capital L = list_ex (\<lambda>(_, v). lc_positive L v) (lc_balances L)"

definition note_heartbeat :: "send_error + string \<Rightarrow> liveness \<Rightarrow> liveness" where
  "note_heartbeat r st =
     (case r of Inr _ \<Rightarrow> st\<lparr>lv_hb_failures := 0\<rparr> | Inl _ \<Rightarrow> st\<lparr>lv_hb_failures := lv_hb_failures st + 1\<rparr>)"

definition heartbeat_step ::
  "crypto \<Rightarrow> tx_codec \<Rightarrow> liveness_config \<Rightarrow> liveness_input \<Rightarrow> liveness \<Rightarrow> (liveness \<times> own_tx list) option" where
  "heartbeat_step C X L I st =
     (if heartbeat_due (has_capital L) (li_last_settlement I) (lv_interval st) (lc_nft_id L) (li_batch I)
      then map_option (\<lambda>r. (note_heartbeat r st, [Heartbeat r]))
             (submit_heartbeat C X (qw_parse (li_chain I)) (lc_wallet L) (li_heartbeat_send I) (lc_escrow_client L))
      else Some (st, []))"

section \<open>Self-check\<close>

definition check_due :: "liveness_config \<Rightarrow> u64 \<Rightarrow> bool" where
  "check_due L batch =
     (0 < lc_check_interval L \<and> batch mod lc_check_interval L = lc_nft_id L mod lc_check_interval L)"

text \<open>The reactivation and the wait of at most twenty seconds for its outcome.\<close>

definition tx_took_effect :: "chain_error + tx_outcome \<Rightarrow> bool" where
  "tx_took_effect w = (case w of Inr t \<Rightarrow> tx_success t | Inl _ \<Rightarrow> False)"

definition reactivate_step ::
  "crypto \<Rightarrow> tx_codec \<Rightarrow> liveness_config \<Rightarrow> liveness_input \<Rightarrow> liveness \<Rightarrow> (liveness \<times> own_tx list) option" where
  "reactivate_step C X L I st =
     (let st1 = st\<lparr>lv_inactive := lv_inactive st + 1, lv_attempts := lv_attempts st + 1\<rparr>
      in Option.bind (submit_reactivate C X (qw_parse (li_chain I)) (lc_wallet L) (li_reactivate_send I) (lc_escrow_client L))
           (\<lambda>r. map_option (\<lambda>ok. (if ok then st1\<lparr>lv_successes := lv_successes st1 + 1\<rparr> else st1, [Reactivate r]))
              (case r of
                 Inl _ \<Rightarrow> Some False
               | Inr hash \<Rightarrow> map_option tx_took_effect (wait_for_tx (qw_parse (li_chain I)) 20 (li_wait I)))))"

definition check_step ::
  "crypto \<Rightarrow> tx_codec \<Rightarrow> liveness_config \<Rightarrow> liveness_input \<Rightarrow> liveness \<Rightarrow> (liveness \<times> own_tx list) option" where
  "check_step C X L I st =
     (if check_due L (li_batch I)
      then Option.bind (check_is_active (li_chain I) (lc_nft_id L) (lv_chain st)) (\<lambda>(chain, active).
             let st1 = st\<lparr>lv_chain := chain\<rparr>
             in case active of
                  Some True \<Rightarrow> Some (st1\<lparr>lv_inactive := 0\<rparr>, [])
                | Some False \<Rightarrow> reactivate_step C X L I st1
                | None \<Rightarrow> Some (st1, []))
      else Some (st, []))"

section \<open>Settings\<close>

definition refetch_due :: "liveness_config \<Rightarrow> u64 \<Rightarrow> bool" where
  "refetch_due L batch = (batch mod 100 = lc_nft_id L mod 100)"

definition refetch_settings :: "liveness_config \<Rightarrow> liveness_input \<Rightarrow> liveness \<Rightarrow> liveness option" where
  "refetch_settings L I st =
     (if refetch_due L (li_batch I)
      then map_option (\<lambda>(pool, interval, timeout).
             let st1 = (case interval of Inr v \<Rightarrow> st\<lparr>lv_interval := clamp_heartbeat_interval v\<rparr> | Inl _ \<Rightarrow> st);
                 st2 = (case timeout of Inr v \<Rightarrow> st1\<lparr>lv_timeout := v\<rparr> | Inl _ \<Rightarrow> st1)
             in st2\<lparr>lv_pool := pool\<rparr>)
             (then_ask (fetch_heartbeat_interval (li_pool I)) (\<lambda>interval.
              then_ask (fetch_heartbeat_timeout (li_pool I)) (\<lambda>timeout. answer (interval, timeout))) (lv_pool st))
      else Some st)"

section \<open>One boundary, and a run\<close>

definition liveness_batch ::
  "crypto \<Rightarrow> tx_codec \<Rightarrow> liveness_config \<Rightarrow> liveness_input \<Rightarrow> liveness \<Rightarrow> (liveness \<times> own_tx list) option" where
  "liveness_batch C X L I st =
     Option.bind (heartbeat_step C X L I st) (\<lambda>(st1, sent1).
     Option.bind (check_step C X L I st1) (\<lambda>(st2, sent2).
     map_option (\<lambda>st3. (st3, sent1 @ sent2)) (refetch_settings L I st2)))"

fun liveness_run ::
  "crypto \<Rightarrow> tx_codec \<Rightarrow> liveness_config \<Rightarrow> liveness_input list \<Rightarrow> liveness \<Rightarrow> (liveness \<times> own_tx list) option" where
  "liveness_run C X L [] st = Some (st, [])"
| "liveness_run C X L (I # Is) st =
     Option.bind (liveness_batch C X L I st) (\<lambda>(st1, sent).
       map_option (\<lambda>(st2, rest). (st2, sent @ rest)) (liveness_run C X L Is st1))"

section \<open>What one boundary sends\<close>

lemma note_heartbeat_keeps [simp]:
  "lv_interval (note_heartbeat r st) = lv_interval st" "lv_inactive (note_heartbeat r st) = lv_inactive st"
  "lv_attempts (note_heartbeat r st) = lv_attempts st" "lv_successes (note_heartbeat r st) = lv_successes st"
  "lv_hb_failures (note_heartbeat r st) = (if isl r then lv_hb_failures st + 1 else 0)"
  by (simp_all add: note_heartbeat_def split: sum.split)

lemma heartbeat_step_cases:
  assumes "heartbeat_step C X L I st = Some (st', sent)"
  obtains (due) r where "heartbeat_due (has_capital L) (li_last_settlement I) (lv_interval st) (lc_nft_id L) (li_batch I)"
      "st' = note_heartbeat r st" "sent = [Heartbeat r]"
  | (idle) "\<not> heartbeat_due (has_capital L) (li_last_settlement I) (lv_interval st) (lc_nft_id L) (li_batch I)"
      "st' = st" "sent = []"
  using assms by (auto simp: heartbeat_step_def split: if_splits)

lemma reactivate_step_sent:
  assumes "reactivate_step C X L I st = Some (st', sent)"
  shows "lv_interval st' = lv_interval st" "lv_hb_failures st' = lv_hb_failures st" "\<exists>r. sent = [Reactivate r]"
    "lv_attempts st' = lv_attempts st + 1" "lv_inactive st' = lv_inactive st + 1"
    "lv_successes st' \<in> {lv_successes st, lv_successes st + 1}"
  using assms by (auto simp: reactivate_step_def Let_def bind_eq_Some_conv)

lemma check_step_cases:
  assumes "check_step C X L I st = Some (st', sent)"
  obtains (idle) chain inactive where "st' = st\<lparr>lv_chain := chain, lv_inactive := inactive\<rparr>" "sent = []"
      "inactive \<in> {0, lv_inactive st}"
  | (reactivate) chain where "reactivate_step C X L I (st\<lparr>lv_chain := chain\<rparr>) = Some (st', sent)"
proof (cases "check_due L (li_batch I)")
  case True
  then obtain chain active where f: "check_is_active (li_chain I) (lc_nft_id L) (lv_chain st) = Some (chain, active)"
    using assms by (auto simp: check_step_def bind_eq_Some_conv)
  have r: "(case active of Some True \<Rightarrow> Some (st\<lparr>lv_chain := chain\<rparr>\<lparr>lv_inactive := 0\<rparr>, [])
        | Some False \<Rightarrow> reactivate_step C X L I (st\<lparr>lv_chain := chain\<rparr>)
        | None \<Rightarrow> Some (st\<lparr>lv_chain := chain\<rparr>, [])) = Some (st', sent)"
    using assms True f by (simp add: check_step_def Let_def)
  show thesis
  proof (cases active)
    case None
    with r show thesis by (intro idle [where chain = chain and inactive = "lv_inactive st"]) auto
  next
    case (Some b)
    with r show thesis by (cases b) (auto intro: idle [where chain = chain and inactive = 0] reactivate)
  qed
next
  case False
  with assms show thesis by (intro idle [where chain = "lv_chain st" and inactive = "lv_inactive st"]) (simp_all add: check_step_def)
qed

lemma check_step_sent:
  assumes "check_step C X L I st = Some (st', sent)"
  shows "lv_interval st' = lv_interval st" "lv_hb_failures st' = lv_hb_failures st" "filter is_heartbeat sent = []"
    "sent = [] \<and> lv_attempts st' = lv_attempts st \<and> lv_successes st' = lv_successes st
       \<and> lv_inactive st' \<in> {0, lv_inactive st}
     \<or> (\<exists>r. sent = [Reactivate r]) \<and> lv_attempts st' = lv_attempts st + 1 \<and> lv_inactive st' = lv_inactive st + 1
       \<and> lv_successes st' \<in> {lv_successes st, lv_successes st + 1}"
proof -
  have "lv_interval st' = lv_interval st \<and> lv_hb_failures st' = lv_hb_failures st \<and> filter is_heartbeat sent = []
    \<and> (sent = [] \<and> lv_attempts st' = lv_attempts st \<and> lv_successes st' = lv_successes st
       \<and> lv_inactive st' \<in> {0, lv_inactive st}
     \<or> (\<exists>r. sent = [Reactivate r]) \<and> lv_attempts st' = lv_attempts st + 1 \<and> lv_inactive st' = lv_inactive st + 1
       \<and> lv_successes st' \<in> {lv_successes st, lv_successes st + 1})"
    using assms
  proof (cases rule: check_step_cases)
    case (reactivate chain)
    from reactivate_step_sent [OF this] show ?thesis by auto
  qed auto
  then show "lv_interval st' = lv_interval st" "lv_hb_failures st' = lv_hb_failures st" "filter is_heartbeat sent = []"
    "sent = [] \<and> lv_attempts st' = lv_attempts st \<and> lv_successes st' = lv_successes st
       \<and> lv_inactive st' \<in> {0, lv_inactive st}
     \<or> (\<exists>r. sent = [Reactivate r]) \<and> lv_attempts st' = lv_attempts st + 1 \<and> lv_inactive st' = lv_inactive st + 1
       \<and> lv_successes st' \<in> {lv_successes st, lv_successes st + 1}"
    by blast+
qed

text \<open>The interval of a state is kept or read from an answer, and is never zero.\<close>

lemma refetch_settings_cases:
  assumes "refetch_settings L I st = Some st'"
  obtains interval timeout pool where
    "st' = st\<lparr>lv_interval := interval, lv_timeout := timeout, lv_pool := pool\<rparr>"
    "interval = lv_interval st \<or> refetch_due L (li_batch I) \<and> (\<exists>q q' v. fetch_heartbeat_interval (li_pool I) q = Some (q', Inr v) \<and> interval = clamp_heartbeat_interval v)"
proof (cases "refetch_due L (li_batch I)")
  case True
  then obtain q ri pool rt where f: "fetch_heartbeat_interval (li_pool I) (lv_pool st) = Some (q, ri)"
    and g: "fetch_heartbeat_timeout (li_pool I) q = Some (pool, rt)"
    using assms by (auto simp: refetch_settings_def then_ask_def answer_def bind_eq_Some_conv)
  have "st' = (let st1 = (case ri of Inr v \<Rightarrow> st\<lparr>lv_interval := clamp_heartbeat_interval v\<rparr> | Inl _ \<Rightarrow> st);
                 st2 = (case rt of Inr v \<Rightarrow> st1\<lparr>lv_timeout := v\<rparr> | Inl _ \<Rightarrow> st1) in st2\<lparr>lv_pool := pool\<rparr>)"
    using assms True f g by (simp add: refetch_settings_def then_ask_def answer_def Let_def)
  then have "st' = st\<lparr>lv_interval := (case ri of Inr v \<Rightarrow> clamp_heartbeat_interval v | Inl _ \<Rightarrow> lv_interval st),
      lv_timeout := (case rt of Inr v \<Rightarrow> v | Inl _ \<Rightarrow> lv_timeout st), lv_pool := pool\<rparr>"
    by (simp split: sum.split)
  then show thesis
    by (rule that) (use f True in \<open>cases ri; fastforce\<close>)
next
  case False
  with assms show thesis
    by (intro that [where interval = "lv_interval st" and timeout = "lv_timeout st" and pool = "lv_pool st"]) (simp_all add: refetch_settings_def)
qed

lemma refetch_settings_keeps:
  assumes "refetch_settings L I st = Some st'"
  shows "lv_hb_failures st' = lv_hb_failures st" "lv_inactive st' = lv_inactive st" "lv_attempts st' = lv_attempts st"
    "lv_successes st' = lv_successes st"
    "lv_interval st' = lv_interval st \<or> (\<exists>v. lv_interval st' = clamp_heartbeat_interval v)"
  using assms by (auto elim!: refetch_settings_cases)

lemma clamped_positive: "0 < clamp_heartbeat_interval v"
  by (simp add: clamp_heartbeat_interval_def word_gt_0)

lemma liveness_batch_split:
  assumes "liveness_batch C X L I st = Some (st', sent)"
  obtains st1 sent1 st2 sent2 where "heartbeat_step C X L I st = Some (st1, sent1)"
    "check_step C X L I st1 = Some (st2, sent2)" "refetch_settings L I st2 = Some st'" "sent = sent1 @ sent2"
  using assms by (auto simp: liveness_batch_def bind_eq_Some_conv)

lemma liveness_run_Cons:
  assumes "liveness_run C X L (I # Is) st = Some (st', sent)"
  obtains st1 sent1 sent2 where "liveness_batch C X L I st = Some (st1, sent1)"
    "liveness_run C X L Is st1 = Some (st', sent2)" "sent = sent1 @ sent2"
  using assms by (auto simp: bind_eq_Some_conv)

section \<open>The counters of a run\<close>

text \<open>The failed heartbeats since the last one that was taken.\<close>

fun failed_heartbeats :: "nat \<Rightarrow> own_tx list \<Rightarrow> nat" where
  "failed_heartbeats n [] = n"
| "failed_heartbeats n (Heartbeat (Inr _) # sent) = failed_heartbeats 0 sent"
| "failed_heartbeats n (Heartbeat (Inl _) # sent) = failed_heartbeats (Suc n) sent"
| "failed_heartbeats n (Reactivate _ # sent) = failed_heartbeats n sent"

lemma failed_heartbeats_append [simp]:
  "failed_heartbeats n (xs @ ys) = failed_heartbeats (failed_heartbeats n xs) ys"
  by (induction n xs rule: failed_heartbeats.induct) simp_all

lemma failed_heartbeats_none: "filter is_heartbeat sent = [] \<Longrightarrow> failed_heartbeats n sent = n"
  by (induction n sent rule: failed_heartbeats.induct) (simp_all split: if_splits)

text \<open>The counters tell how often what was sent, as long as they do not wrap.\<close>

definition counters_tell :: "own_tx list \<Rightarrow> liveness \<Rightarrow> bool" where
  "counters_tell sent st =
     (0 < lv_interval st \<and> unat (lv_attempts st) = length (filter is_reactivate sent)
      \<and> unat (lv_successes st) \<le> unat (lv_attempts st) \<and> unat (lv_inactive st) \<le> unat (lv_attempts st)
      \<and> unat (lv_hb_failures st) = failed_heartbeats 0 sent)"

lemma unat_inc: "unat (w :: 'a::len word) + 1 < 2 ^ LENGTH('a) \<Longrightarrow> unat (w + 1) = Suc (unat w)"
  by (simp add: unat_word_ariths)

lemma heartbeat_step_counts:
  assumes "heartbeat_step C X L I st = Some (st', sent)" "counters_tell before st" "failed_heartbeats 0 before + 1 < 2 ^ 32"
  shows "counters_tell (before @ sent) st' \<and> failed_heartbeats 0 (before @ sent) \<le> Suc (failed_heartbeats 0 before)
    \<and> filter is_reactivate sent = []"
  using assms(1)
proof (cases rule: heartbeat_step_cases)
  case (due r)
  then show ?thesis using assms(2,3) by (cases r) (simp_all add: counters_tell_def unat_inc)
next
  case idle
  then show ?thesis using assms(2) by simp
qed

lemma check_step_counts:
  assumes "check_step C X L I st = Some (st', sent)" "counters_tell before st" "length (filter is_reactivate before) + 1 < 2 ^ 32"
  shows "counters_tell (before @ sent) st'" "length (filter is_reactivate sent) \<le> 1"
    "failed_heartbeats 0 (before @ sent) = failed_heartbeats 0 before"
proof -
  note c = check_step_sent [OF assms(1)]
  have *: "unat (lv_attempts st) + 1 < 2 ^ 32" "unat (lv_inactive st) + 1 < 2 ^ 32" "unat (lv_successes st) + 1 < 2 ^ 32"
    using assms(2,3) by (auto simp: counters_tell_def)
  show "failed_heartbeats 0 (before @ sent) = failed_heartbeats 0 before"
    using failed_heartbeats_none [OF c(3)] by simp
  then show "counters_tell (before @ sent) st'" using c(1,2,4) * assms(2)
    by (auto simp: counters_tell_def unat_inc)
  show "length (filter is_reactivate sent) \<le> 1" using c(4) by auto
qed

lemma liveness_batch_counts:
  assumes "liveness_batch C X L I st = Some (st', sent)" "counters_tell before st"
    and "failed_heartbeats 0 before + 1 < 2 ^ 32" "length (filter is_reactivate before) + 1 < 2 ^ 32"
  shows "counters_tell (before @ sent) st'"
    "failed_heartbeats 0 (before @ sent) \<le> Suc (failed_heartbeats 0 before)"
    "length (filter is_reactivate (before @ sent)) \<le> Suc (length (filter is_reactivate before))"
proof -
  obtain st1 sent1 st2 sent2 where s: "heartbeat_step C X L I st = Some (st1, sent1)"
    "check_step C X L I st1 = Some (st2, sent2)" "refetch_settings L I st2 = Some st'" "sent = sent1 @ sent2"
    by (rule liveness_batch_split [OF assms(1)])
  have h: "counters_tell (before @ sent1) st1" "failed_heartbeats 0 (before @ sent1) \<le> Suc (failed_heartbeats 0 before)"
    and n: "filter is_reactivate sent1 = []"
    using heartbeat_step_counts [OF s(1) assms(2,3)] by simp_all
  have k: "counters_tell ((before @ sent1) @ sent2) st2" "length (filter is_reactivate sent2) \<le> 1"
    "failed_heartbeats 0 ((before @ sent1) @ sent2) = failed_heartbeats 0 (before @ sent1)"
    using check_step_counts [OF s(2) h(1)] assms(4) n by simp_all
  have "0 < lv_interval st'"
    using refetch_settings_keeps(5) [OF s(3)] k(1) clamped_positive by (auto simp: counters_tell_def)
  then show "counters_tell (before @ sent) st'"
    using k(1) refetch_settings_keeps [OF s(3)] s(4) by (simp add: counters_tell_def)
  show "failed_heartbeats 0 (before @ sent) \<le> Suc (failed_heartbeats 0 before)" using k(3) h(2) s(4) by simp
  show "length (filter is_reactivate (before @ sent)) \<le> Suc (length (filter is_reactivate before))"
    using k(2) n s(4) by simp
qed

lemma liveness_run_counts:
  assumes "liveness_run C X L Is st = Some (st', sent)" "counters_tell before st"
    and "failed_heartbeats 0 before + length Is < 2 ^ 32" "length (filter is_reactivate before) + length Is < 2 ^ 32"
  shows "counters_tell (before @ sent) st'"
  using assms
proof (induction Is arbitrary: st sent before)
  case (Cons I Is)
  obtain st1 sent1 sent2 where s: "liveness_batch C X L I st = Some (st1, sent1)"
    "liveness_run C X L Is st1 = Some (st', sent2)" "sent = sent1 @ sent2"
    by (rule liveness_run_Cons [OF Cons.prems(1)])
  have "counters_tell (before @ sent1) st1"
    "failed_heartbeats 0 (before @ sent1) \<le> Suc (failed_heartbeats 0 before)"
    "length (filter is_reactivate (before @ sent1)) \<le> Suc (length (filter is_reactivate before))"
    using Cons.prems(3,4) by (intro liveness_batch_counts [OF s(1) Cons.prems(2)]; simp)+
  then have "counters_tell ((before @ sent1) @ sent2) st'"
    using Cons.prems(3,4) by (intro Cons.IH [OF s(2)]) simp_all
  then show ?case using s(3) by simp
qed simp

section \<open>Heartbeats of a run\<close>

lemma liveness_run_append:
  assumes "liveness_run C X L (pre @ Is) st = Some (st', sent)"
  obtains st1 before after where "liveness_run C X L pre st = Some (st1, before)"
    "liveness_run C X L Is st1 = Some (st', after)" "sent = before @ after"
  using assms
proof (induction pre arbitrary: st sent thesis)
  case Nil
  then show ?case by simp
next
  case (Cons I pre)
  have "liveness_run C X L (I # (pre @ Is)) st = Some (st', sent)" using Cons.prems(2) by simp
  then obtain st0 sent1 sent2 where s: "liveness_batch C X L I st = Some (st0, sent1)"
    "liveness_run C X L (pre @ Is) st0 = Some (st', sent2)" "sent = sent1 @ sent2"
    by (rule liveness_run_Cons)
  obtain st1 before after where r: "liveness_run C X L pre st0 = Some (st1, before)"
    "liveness_run C X L Is st1 = Some (st', after)" "sent2 = before @ after"
    by (rule Cons.IH [OF _ s(2)])
  show ?case by (rule Cons.prems(1) [of st1 "sent1 @ before" after]) (simp_all add: s(1,3) r)
qed

text \<open>The rule over the natural numbers.\<close>

lemma heartbeat_due_nat:
  "heartbeat_due capital lst i nft batch \<longleftrightarrow> capital \<and> 0 < unat i \<and> unat batch mod unat i = unat nft mod unat i \<and>
     \<not> (0 < unat lst \<and> unat batch - unat lst < unat i)"
  by (auto simp: heartbeat_due_def settlement_refreshed_def word_less_nat_alt word_unat_eq_iff unat_mod)

lemma liveness_batch_beats:
  assumes "liveness_batch C X L I st = Some (st', sent)"
  shows "length (filter is_heartbeat sent) =
       (if heartbeat_due (has_capital L) (li_last_settlement I) (lv_interval st) (lc_nft_id L) (li_batch I) then 1 else 0)"
    "lv_interval st' = lv_interval st \<or> refetch_due L (li_batch I) \<and>
       (\<exists>q q' v. fetch_heartbeat_interval (li_pool I) q = Some (q', Inr v) \<and> lv_interval st' = clamp_heartbeat_interval v)"
proof -
  obtain st1 sent1 st2 sent2 where s: "heartbeat_step C X L I st = Some (st1, sent1)"
    "check_step C X L I st1 = Some (st2, sent2)" "refetch_settings L I st2 = Some st'" "sent = sent1 @ sent2"
    by (rule liveness_batch_split [OF assms(1)])
  show "length (filter is_heartbeat sent) =
     (if heartbeat_due (has_capital L) (li_last_settlement I) (lv_interval st) (lc_nft_id L) (li_batch I) then 1 else 0)"
    using check_step_sent(3) [OF s(2)] s(1,4) by (auto elim: heartbeat_step_cases)
  have "lv_interval st2 = lv_interval st"
    using check_step_sent(1) [OF s(2)] s(1) by (auto elim: heartbeat_step_cases)
  with s(3) show "lv_interval st' = lv_interval st \<or> refetch_due L (li_batch I) \<and>
       (\<exists>q q' v. fetch_heartbeat_interval (li_pool I) q = Some (q', Inr v) \<and> lv_interval st' = clamp_heartbeat_interval v)"
    by (elim refetch_settings_cases) auto
qed

text \<open>
  C29. A heartbeat is attempted at the boundaries where it is due and at no other. For every boundary of
  a run that returns, with \<open>i\<close> the interval the node holds then: exactly one heartbeat is attempted
  there if a balance shown at the start reads as positive, \<open>i\<close> is not zero, batch and NFT number
  leave the same remainder modulo \<open>i\<close>, and no settlement is known or the last one is at least \<open>i\<close>
  batches back; otherwise none. The interval stays as it is, except where the batch and the NFT
  number agree modulo 100: there it may become what the contract answers, or 10 for an answer of zero.
  So a node that starts without capital attempts none for as long as it runs. (A boundary the loop
  skips is no boundary of the run.)
\<close>

theorem heartbeats_exactly_due:
  assumes "liveness_run C X L (pre @ I # post) st = Some (st', sent)"
  shows "\<exists>st1 before st2 now after. liveness_run C X L pre st = Some (st1, before) \<and>
    liveness_batch C X L I st1 = Some (st2, now) \<and> liveness_run C X L post st2 = Some (st', after) \<and>
    sent = before @ now @ after \<and>
    (let i = unat (lv_interval st1); batch = unat (li_batch I); nft = unat (lc_nft_id L);
         settled = unat (li_last_settlement I)
     in length (filter is_heartbeat now) =
          (if (\<exists>token text. (token, text) \<in> set (lc_balances L) \<and> lc_positive L text) \<and>
              0 < i \<and> batch mod i = nft mod i \<and> (settled = 0 \<or> i \<le> batch - settled) then 1 else 0) \<and>
        (lv_interval st2 = lv_interval st1 \<or> batch mod 100 = nft mod 100 \<and>
          (\<exists>q q' v. fetch_heartbeat_interval (li_pool I) q = Some (q', Inr v) \<and>
             lv_interval st2 = (if v = 0 then 10 else v))))"
proof -
  obtain st1 before rest where r: "liveness_run C X L pre st = Some (st1, before)"
    "liveness_run C X L (I # post) st1 = Some (st', rest)" "sent = before @ rest"
    by (rule liveness_run_append [OF assms])
  obtain st2 now after where b: "liveness_batch C X L I st1 = Some (st2, now)"
    "liveness_run C X L post st2 = Some (st', after)" "rest = now @ after"
    by (rule liveness_run_Cons [OF r(2)])
  have cap: "has_capital L \<longleftrightarrow> (\<exists>token text. (token, text) \<in> set (lc_balances L) \<and> lc_positive L text)"
    by (auto simp: has_capital_def list_ex_iff)
  have slot: "refetch_due L (li_batch I) \<longleftrightarrow> unat (li_batch I) mod 100 = unat (lc_nft_id L) mod 100"
    by (simp add: refetch_due_def word_unat_eq_iff unat_mod)
  show ?thesis
    using r b liveness_batch_beats [OF b(1)]
    by (auto simp: cap slot heartbeat_due_nat clamp_heartbeat_interval_def Let_def not_less)
qed

text \<open>
  The counters of the node tell the truth: after any sequence of batch boundaries from the start, with
  fewer than 2^32 of them, the heartbeat interval is positive, the reactivation attempts are the
  reactivations sent, the successes and the checks in a row that found the node inactive are at most as
  many, and the failure counter is the number of failed heartbeats since the last one that was taken.
\<close>

theorem liveness_counters_tell:
  assumes "liveness_run C X L Is (starting_liveness interval timeout chain pool) = Some (st, sent)" "length Is < 2 ^ 32"
  shows "0 < lv_interval st \<and> unat (lv_attempts st) = length (filter is_reactivate sent)
    \<and> unat (lv_successes st) \<le> unat (lv_attempts st) \<and> unat (lv_inactive st) \<le> unat (lv_attempts st)
    \<and> unat (lv_hb_failures st) = failed_heartbeats 0 sent"
proof -
  have "counters_tell [] (starting_liveness interval timeout chain pool)"
    by (simp add: counters_tell_def starting_liveness_def clamped_positive)
  from liveness_run_counts [OF assms(1) this] assms(2) show ?thesis by (simp add: counters_tell_def)
qed

text \<open>An operator whose contract address is misspelled: every heartbeat fails.\<close>

definition example_send :: send_world where
  "example_send = \<lparr>sn_account = (\<lambda>_. Inl ''refused''), sn_post = (\<lambda>_ _. Inl ''refused''), sn_now = 0\<rparr>"

definition example_boundary :: "u64 \<Rightarrow> liveness_input" where
  "example_boundary batch = \<lparr>li_batch = batch, li_last_settlement = 0, li_heartbeat_send = example_send,
     li_reactivate_send = example_send, li_wait = [], li_chain = example_query, li_pool = example_query\<rparr>"

definition example_liveness_config :: liveness_config where
  "example_liveness_config = \<lparr>lc_wallet = \<lparr>nw_signing_key = [], nw_contract = ''zz'', nw_address = ''0x1'',
       nw_chain_id = 6, nw_max_gas = 1000, nw_gas_price = 100\<rparr>, lc_nft_id = 7, lc_escrow_client = example_client,
     lc_balances = [(''EMM'', ''12.5'')], lc_check_interval = 0, lc_positive = (\<lambda>s. s = ''12.5'')\<rparr>"

abbreviation "example_liveness \<equiv> starting_liveness (Inr 10) (Inr 50) example_client example_client"

lemma example_submission:
  "submit_heartbeat C example_codec parse (lc_wallet example_liveness_config) S cl = Some (Inl (BadContract (InvalidAddress [])))"
proof -
  have "hex_decode ''zz'' = None" by code_simp
  then show ?thesis
    by (simp add: submit_heartbeat_def submit_own_def parse_address_def example_codec_def example_liveness_config_def strip_0x_def)
qed

lemma example_liveness_batch:
  "liveness_batch C example_codec example_liveness_config (example_boundary b) st =
     (let due = heartbeat_due True 0 (lv_interval st) 7 b; r = Inl (BadContract (InvalidAddress []))
      in map_option (\<lambda>st'. (st', if due then [Heartbeat r] else []))
           (refetch_settings example_liveness_config (example_boundary b) (if due then note_heartbeat r st else st)))"
proof -
  have "has_capital example_liveness_config" "lc_nft_id example_liveness_config = 7" "\<not> check_due example_liveness_config b'" for b'
    by (simp_all add: has_capital_def example_liveness_config_def check_due_def)
  then show ?thesis
    by (simp add: liveness_batch_def heartbeat_step_def check_step_def example_submission Let_def example_boundary_def)
qed

lemma example_liveness_run:
  "liveness_run example_crypto example_codec example_liveness_config (map example_boundary [17, 18, 27]) example_liveness
     = Some (example_liveness\<lparr>lv_hb_failures := 2\<rparr>,
         [Heartbeat (Inl (BadContract (InvalidAddress []))), Heartbeat (Inl (BadContract (InvalidAddress [])))])"
proof -
  have "heartbeat_due True 0 10 7 17" "\<not> heartbeat_due True 0 10 7 18" "heartbeat_due True 0 10 7 27"
    by (simp_all add: heartbeat_due_def settlement_refreshed_def)
  moreover have "refetch_settings example_liveness_config (example_boundary b) st = Some st" if "b mod 100 \<noteq> 7" for b st
    using that by (simp add: refetch_settings_def refetch_due_def example_liveness_config_def example_boundary_def)
  ultimately show ?thesis
    by (simp add: example_liveness_batch Let_def note_heartbeat_def starting_liveness_def clamp_heartbeat_interval_def)
qed

lemma heartbeats_exactly_due_witness:
  "\<exists>st1 before st2 now. liveness_run example_crypto example_codec example_liveness_config
       (map example_boundary [17, 18]) example_liveness = Some (st1, before) \<and>
     liveness_batch example_crypto example_codec example_liveness_config (example_boundary 27) st1 = Some (st2, now) \<and>
     lv_interval st2 = lv_interval st1"
proof -
  have "liveness_run example_crypto example_codec example_liveness_config
      (map example_boundary [17, 18] @ example_boundary 27 # []) example_liveness =
      Some (example_liveness\<lparr>lv_hb_failures := 2\<rparr>,
         [Heartbeat (Inl (BadContract (InvalidAddress []))), Heartbeat (Inl (BadContract (InvalidAddress [])))])"
    using example_liveness_run by simp
  from heartbeats_exactly_due [OF this] show ?thesis
    by (auto simp: Let_def example_boundary_def example_liveness_config_def)
qed

lemma liveness_counters_tell_witness:
  "unat (lv_hb_failures (example_liveness\<lparr>lv_hb_failures := 2\<rparr>)) = failed_heartbeats 0
     [Heartbeat (Inl (BadContract (InvalidAddress []))), Heartbeat (Inl (BadContract (InvalidAddress [])))]"
  using liveness_counters_tell [OF example_liveness_run] by simp

end
