(* ===== verification/GossipNetwork.thy ===== *)
theory GossipNetwork
  imports GossipMessages
begin

text \<open>
  \<open>crates/gossip/src/network.rs\<close>: the gossip node over the swarm of libp2p. The swarm is a state of any
  type with the operations of the library the code calls (record \<open>swarm_lib\<close>); each that can fail answers
  with the text of its error. Driving the swarm for some milliseconds yields the payloads of the messages
  that arrived. Topics are named by their text.
\<close>

datatype gossip_error =
    PublishError string
  | GSerializationError string
  | NotSubscribedToPool
  | SwarmError string

fun gossip_error_display :: "gossip_error \<Rightarrow> string" where
  "gossip_error_display (PublishError e) = ''gossipsub publish failed: '' @ e"
| "gossip_error_display (GSerializationError e) = ''serialization error: '' @ e"
| "gossip_error_display NotSubscribedToPool = ''not subscribed to pool topic''"
| "gossip_error_display (SwarmError e) = ''swarm error: '' @ e"

record 's swarm_lib =
  sl_subscribe :: "string \<Rightarrow> 's \<Rightarrow> 's \<times> string option"
  sl_unsubscribe :: "string \<Rightarrow> 's \<Rightarrow> 's \<times> string option"
  sl_publish :: "string \<Rightarrow> bytes \<Rightarrow> 's \<Rightarrow> 's \<times> string option"
  sl_listen :: "string \<Rightarrow> 's \<Rightarrow> 's \<times> string option"
  sl_dial :: "string \<Rightarrow> 's \<Rightarrow> 's \<times> string option"
  sl_external :: "string \<Rightarrow> 's \<Rightarrow> 's"
  sl_explicit :: "string \<Rightarrow> 's \<Rightarrow> 's"
  sl_drive :: "nat \<Rightarrow> 's \<Rightarrow> 's \<times> bytes list"
  sl_peers :: "'s \<Rightarrow> (string \<times> string list) list"
  sl_multiaddr :: "string \<Rightarrow> string option"

record 's gossip_node =
  gn_swarm :: 's
  gn_pool_topics :: "u64 set"

definition global_complete_topic :: string where
  "global_complete_topic = ''global:batch_complete''"

definition global_report_topic :: string where
  "global_report_topic = ''global:settlement_report''"

definition pool_topic :: "u64 \<Rightarrow> string" where
  "pool_topic pool_id = ''pool:'' @ u64_str pool_id"

section \<open>Start\<close>

text \<open>An operation of the swarm whose error becomes one of the node's.\<close>

definition on_swarm ::
  "(string \<Rightarrow> gossip_error) \<Rightarrow> ('s \<Rightarrow> 's \<times> string option) \<Rightarrow> 's gossip_node \<Rightarrow> 's gossip_node \<times> (gossip_error + unit)" where
  "on_swarm err f n =
     (let (w, e) = f (gn_swarm n)
      in (n\<lparr>gn_swarm := w\<rparr>, case e of None \<Rightarrow> Inr () | Some text \<Rightarrow> Inl (err text)))"

text \<open>\<open>built\<close> is the swarm of the library's builder for the node's key, or the text of its error.\<close>

definition gossip_node_new :: "'s swarm_lib \<Rightarrow> string + 's \<Rightarrow> gossip_error + 's gossip_node" where
  "gossip_node_new W built =
     res_bind (map_err SwarmError built) (\<lambda>swarm.
       let (n1, r1) = on_swarm SwarmError (sl_subscribe W global_complete_topic) \<lparr>gn_swarm = swarm, gn_pool_topics = {}\<rparr>
       in res_bind r1 (\<lambda>_.
          let (n2, r2) = on_swarm SwarmError (sl_subscribe W global_report_topic) n1
          in res_bind r2 (\<lambda>_. Inr n2)))"

definition listen_on_random_port :: "'s swarm_lib \<Rightarrow> 's gossip_node \<Rightarrow> 's gossip_node \<times> (gossip_error + unit)" where
  "listen_on_random_port W = on_swarm SwarmError (sl_listen W ''/ip4/127.0.0.1/tcp/0'')"

definition listen_on_port :: "'s swarm_lib \<Rightarrow> u16 \<Rightarrow> 's gossip_node \<Rightarrow> 's gossip_node \<times> (gossip_error + unit)" where
  "listen_on_port W port = on_swarm SwarmError (sl_listen W (''/ip4/0.0.0.0/tcp/'' @ nat_str (unat port)))"

definition add_external_address :: "'s swarm_lib \<Rightarrow> string \<Rightarrow> 's gossip_node \<Rightarrow> 's gossip_node" where
  "add_external_address W addr n = n\<lparr>gn_swarm := sl_external W addr (gn_swarm n)\<rparr>"

definition dial :: "'s swarm_lib \<Rightarrow> string \<Rightarrow> 's gossip_node \<Rightarrow> 's gossip_node \<times> (gossip_error + unit)" where
  "dial W addr = on_swarm SwarmError (sl_dial W addr)"

definition add_explicit_peer :: "'s swarm_lib \<Rightarrow> string \<Rightarrow> 's gossip_node \<Rightarrow> 's gossip_node" where
  "add_explicit_peer W peer n = n\<lparr>gn_swarm := sl_explicit W peer (gn_swarm n)\<rparr>"

section \<open>Topics\<close>

definition subscribe_pool :: "'s swarm_lib \<Rightarrow> u64 \<Rightarrow> 's gossip_node \<Rightarrow> 's gossip_node \<times> (gossip_error + unit)" where
  "subscribe_pool W pool_id n =
     (let (n1, r) = on_swarm SwarmError (sl_subscribe W (pool_topic pool_id)) n
      in (if isl r then n1 else n1\<lparr>gn_pool_topics := insert pool_id (gn_pool_topics n1)\<rparr>, r))"

definition unsubscribe_pool :: "'s swarm_lib \<Rightarrow> u64 \<Rightarrow> 's gossip_node \<Rightarrow> 's gossip_node \<times> (gossip_error + unit)" where
  "unsubscribe_pool W pool_id n =
     (let (n1, r) = on_swarm SwarmError (sl_unsubscribe W (pool_topic pool_id)) n
      in (if isl r then n1 else n1\<lparr>gn_pool_topics := gn_pool_topics n1 - {pool_id}\<rparr>, r))"

definition is_subscribed_to_pool :: "u64 \<Rightarrow> 's gossip_node \<Rightarrow> bool" where
  "is_subscribed_to_pool pool_id n = (pool_id \<in> gn_pool_topics n)"

definition publish_on ::
  "bincode \<Rightarrow> 's swarm_lib \<Rightarrow> string \<Rightarrow> gossip_message \<Rightarrow> 's gossip_node \<Rightarrow> 's gossip_node \<times> (gossip_error + unit)" where
  "publish_on B W topic msg n =
     (case serialize B msg of
        Inl e \<Rightarrow> (n, Inl (GSerializationError (codec_error_display e)))
      | Inr bs \<Rightarrow> on_swarm PublishError (sl_publish W topic bs) n)"

definition publish_to_pool ::
  "bincode \<Rightarrow> 's swarm_lib \<Rightarrow> u64 \<Rightarrow> gossip_message \<Rightarrow> 's gossip_node \<Rightarrow> 's gossip_node \<times> (gossip_error + unit)" where
  "publish_to_pool B W pool_id msg n =
     (if pool_id \<notin> gn_pool_topics n then (n, Inl NotSubscribedToPool)
      else publish_on B W (pool_topic pool_id) msg n)"

definition publish_global_complete where
  "publish_global_complete B W = publish_on B W global_complete_topic"

definition publish_global_report where
  "publish_global_report B W = publish_on B W global_report_topic"

definition peer_count_for_topic :: "'s swarm_lib \<Rightarrow> string \<Rightarrow> 's gossip_node \<Rightarrow> nat" where
  "peer_count_for_topic W topic n = length (filter (\<lambda>(_, topics). topic \<in> set topics) (sl_peers W (gn_swarm n)))"

section \<open>Driving the swarm\<close>

definition collect_messages :: "bincode \<Rightarrow> 's swarm_lib \<Rightarrow> nat \<Rightarrow> 's \<Rightarrow> 's \<times> gossip_message list" where
  "collect_messages B W duration w =
     (let (w', payloads) = sl_drive W duration w
      in (w', List.map_filter (\<lambda>bs. case deserialize B bs of Inr msg \<Rightarrow> Some msg | Inl _ \<Rightarrow> None) payloads))"

text \<open>The retries: after a failure the swarm is driven for the delay, and what arrives meanwhile is
  dropped. The last component lists the messages dropped.\<close>

fun retry_publish ::
  "bincode \<Rightarrow> 's swarm_lib \<Rightarrow> ('s gossip_node \<Rightarrow> 's gossip_node \<times> (gossip_error + unit)) \<Rightarrow> nat \<Rightarrow> nat
    \<Rightarrow> gossip_error option \<Rightarrow> 's gossip_node \<Rightarrow> 's gossip_node \<times> (gossip_error + unit) \<times> gossip_message list" where
  "retry_publish B W publish delay 0 last_err n =
     (n, Inl (case last_err of Some e \<Rightarrow> e | None \<Rightarrow> PublishError ''max attempts reached''), [])"
| "retry_publish B W publish delay (Suc k) last_err n =
     (case publish n of
        (n1, Inr _) \<Rightarrow> (n1, Inr (), [])
      | (n1, Inl e) \<Rightarrow>
         (let (w, lost) = collect_messages B W delay (gn_swarm n1);
              (n2, r, more) = retry_publish B W publish delay k (Some e) (n1\<lparr>gn_swarm := w\<rparr>)
          in (n2, r, lost @ more)))"

definition publish_to_pool_with_retry where
  "publish_to_pool_with_retry B W pool_id msg max_attempts delay n =
     (if pool_id \<notin> gn_pool_topics n then (n, Inl NotSubscribedToPool, [])
      else retry_publish B W (publish_to_pool B W pool_id msg) delay (unat (max_attempts :: u32)) None n)"

definition publish_global_complete_with_retry where
  "publish_global_complete_with_retry B W msg max_attempts delay n =
     retry_publish B W (publish_global_complete B W msg) delay (unat (max_attempts :: u32)) None n"

section \<open>The subscriptions of a node\<close>

text \<open>What the node relies on of the library: a successful subscription adds the topic to the swarm's
  and a successful removal takes it away, a failed one changes no topic, and nothing else does.\<close>

definition topics_kept :: "('s \<Rightarrow> string set) \<Rightarrow> ('s \<Rightarrow> 's) \<Rightarrow> bool" where
  "topics_kept topics f = (\<forall>w. topics (f w) = topics w)"

definition swarm_ok :: "('s \<Rightarrow> string set) \<Rightarrow> 's swarm_lib \<Rightarrow> bool" where
  "swarm_ok topics W =
     ((\<forall>t w. topics (fst (sl_subscribe W t w)) = (if snd (sl_subscribe W t w) = None then insert t (topics w) else topics w))
    \<and> (\<forall>t w. topics (fst (sl_unsubscribe W t w)) = (if snd (sl_unsubscribe W t w) = None then topics w - {t} else topics w))
    \<and> (\<forall>t bs. topics_kept topics (\<lambda>w. fst (sl_publish W t bs w)))
    \<and> (\<forall>a. topics_kept topics (\<lambda>w. fst (sl_listen W a w)))
    \<and> (\<forall>a. topics_kept topics (\<lambda>w. fst (sl_dial W a w)))
    \<and> (\<forall>a. topics_kept topics (sl_external W a)) \<and> (\<forall>p. topics_kept topics (sl_explicit W p))
    \<and> (\<forall>d. topics_kept topics (\<lambda>w. fst (sl_drive W d w))))"

text \<open>The pools the node thinks it is subscribed to are those its swarm has.\<close>

definition pools_agree :: "('s \<Rightarrow> string set) \<Rightarrow> 's gossip_node \<Rightarrow> bool" where
  "pools_agree topics n =
     (topics (gn_swarm n) = {global_complete_topic, global_report_topic} \<union> pool_topic ` gn_pool_topics n)"

lemma pool_topic_inject [simp]: "pool_topic p = pool_topic q \<longleftrightarrow> p = q"
  by (simp add: pool_topic_def)

lemma pool_topic_global [simp]:
  "pool_topic p \<noteq> global_complete_topic" "pool_topic p \<noteq> global_report_topic"
  "global_complete_topic \<noteq> pool_topic p" "global_report_topic \<noteq> pool_topic p"
  by (simp_all add: pool_topic_def global_complete_topic_def global_report_topic_def)

lemma on_swarm_simps [simp]:
  "gn_swarm (fst (on_swarm err f n)) = fst (f (gn_swarm n))" "gn_pool_topics (fst (on_swarm err f n)) = gn_pool_topics n"
  "isl (snd (on_swarm err f n)) \<longleftrightarrow> snd (f (gn_swarm n)) \<noteq> None"
  by (simp_all add: on_swarm_def split_beta split: option.split)

lemma image_remove_pool: "pool_topic ` (P - {p}) = pool_topic ` P - {pool_topic p}"
  by auto

lemma subscribe_pool_agree:
  "swarm_ok topics W \<Longrightarrow> pools_agree topics n \<Longrightarrow> pools_agree topics (fst (subscribe_pool W p n))"
  by (auto simp: pools_agree_def swarm_ok_def subscribe_pool_def split_beta Let_def)

lemma unsubscribe_pool_agree:
  "swarm_ok topics W \<Longrightarrow> pools_agree topics n \<Longrightarrow> pools_agree topics (fst (unsubscribe_pool W p n))"
  by (auto simp: pools_agree_def swarm_ok_def unsubscribe_pool_def split_beta Let_def image_remove_pool)

lemma publish_to_pool_agree:
  "swarm_ok topics W \<Longrightarrow> pools_agree topics n \<Longrightarrow> pools_agree topics (fst (publish_to_pool B W p msg n))"
  by (auto simp: pools_agree_def swarm_ok_def topics_kept_def publish_to_pool_def publish_on_def split: sum.split)

lemma swarm_calls_agree:
  assumes "swarm_ok topics W" "pools_agree topics n"
  shows "pools_agree topics (fst (dial W a n))" "pools_agree topics (add_explicit_peer W a n)"
    "pools_agree topics (add_external_address W a n)" "pools_agree topics (fst (listen_on_port W port n))"
  using assms by (auto simp: pools_agree_def swarm_ok_def topics_kept_def dial_def add_explicit_peer_def
      add_external_address_def listen_on_port_def)

lemma gossip_node_new_agree:
  assumes "swarm_ok topics W" "gossip_node_new W built = Inr n" "\<forall>w. built = Inr w \<longrightarrow> topics w = {}"
  shows "pools_agree topics n" "gn_pool_topics n = {}"
  using assms by (auto simp: gossip_node_new_def on_swarm_def pools_agree_def swarm_ok_def res_bind_def map_err_def split_beta Let_def
      split: sum.splits option.splits)

section \<open>Retries\<close>

text \<open>A publication with retries calls the library at most as often as it is told to, and succeeds exactly when
  one of the attempts does.\<close>

fun attempts_fail :: "bincode \<Rightarrow> 's swarm_lib \<Rightarrow> ('s gossip_node \<Rightarrow> 's gossip_node \<times> (gossip_error + unit)) \<Rightarrow> nat \<Rightarrow> nat \<Rightarrow> 's gossip_node \<Rightarrow> bool" where
  "attempts_fail B W publish delay 0 n = True"
| "attempts_fail B W publish delay (Suc k) n =
     (isl (snd (publish n)) \<and> attempts_fail B W publish delay k
        ((fst (publish n))\<lparr>gn_swarm := fst (collect_messages B W delay (gn_swarm (fst (publish n))))\<rparr>))"

lemma retry_publish_result:
  "isl (fst (snd (retry_publish B W publish delay k e n))) \<longleftrightarrow> attempts_fail B W publish delay k n"
  by (induction k arbitrary: e n) (auto simp: split_beta Let_def split: sum.split prod.split)

end
