(* ===== verification/GossipTask.thy ===== *)
theory GossipTask
  imports GossipNetwork LoopOrder "HOL-Library.Sublist"
begin

text \<open>
  The gossip side of \<open>src/run.rs\<close>: the peers dialled at the start, and the task that owns the gossip node
  while the main loop runs. It takes what the swarm delivers into the bounded channel to the main loop,
  executes the commands of the main loop, and dials the bootstrap peers again when no peer is
  connected. A DNS lookup answers with the addresses found, as texts of address and port. \<open>None\<close> is a panic of the
  task; the node around it goes on.
\<close>

type_synonym resolver = "string \<Rightarrow> string + (string \<times> u16) list"

section \<open>Dialling\<close>

definition socket_multiaddr :: "string \<times> u16 \<Rightarrow> string" where
  "socket_multiaddr sock = ''/ip4/'' @ fst sock @ ''/tcp/'' @ nat_str (unat (snd sock))"

definition resolve_and_dial ::
  "'s swarm_lib \<Rightarrow> resolver \<Rightarrow> string \<Rightarrow> string \<Rightarrow> 's gossip_node \<Rightarrow> 's gossip_node \<times> (string + unit)" where
  "resolve_and_dial W resolve hostname port n =
     (case resolve (hostname @ '':'' @ port) of
        Inl e \<Rightarrow> (n, Inl e)
      | Inr [] \<Rightarrow> (n, Inl (''DNS resolution failed for '' @ hostname))
      | Inr (sock # _) \<Rightarrow>
         (case sl_multiaddr W (socket_multiaddr sock) of
            Some e \<Rightarrow> (n, Inl e)
          | None \<Rightarrow> (case dial W (socket_multiaddr sock) n of (n', r) \<Rightarrow> (n', map_err gossip_error_display r))))"

text \<open>An address of the library's own format.\<close>

definition dial_multiaddr :: "'s swarm_lib \<Rightarrow> string \<Rightarrow> 's gossip_node \<Rightarrow> 's gossip_node" where
  "dial_multiaddr W addr n = (if sl_multiaddr W addr = None then fst (dial W addr n) else n)"

definition dial_host_port :: "'s swarm_lib \<Rightarrow> resolver \<Rightarrow> string \<Rightarrow> 's gossip_node \<Rightarrow> 's gossip_node" where
  "dial_host_port W resolve peer n =
     (case split_on (CHR '':'') peer of
        [host, port] \<Rightarrow> fst (resolve_and_dial W resolve host port n)
      | _ \<Rightarrow> n)"

definition dial_bootstrap_peer :: "'s swarm_lib \<Rightarrow> resolver \<Rightarrow> string \<Rightarrow> 's gossip_node \<Rightarrow> 's gossip_node" where
  "dial_bootstrap_peer W resolve peer n =
     (if starts_with ''/'' peer then dial_multiaddr W peer n else dial_host_port W resolve peer n)"

definition dial_bootstrap_peers :: "'s swarm_lib \<Rightarrow> resolver \<Rightarrow> string list \<Rightarrow> 's gossip_node \<Rightarrow> 's gossip_node" where
  "dial_bootstrap_peers W resolve peers n = fold (dial_bootstrap_peer W resolve) peers n"

text \<open>The peers of \<open>DEADMKT_DIAL_PEERS\<close>: here a DNS name inside a multiaddress is resolved as well.\<close>

definition dial_extra_peer :: "'s swarm_lib \<Rightarrow> resolver \<Rightarrow> string \<Rightarrow> 's gossip_node \<Rightarrow> 's gossip_node" where
  "dial_extra_peer W resolve peer n =
     (if starts_with ''/'' peer then
        (if starts_with ''/dns4/'' peer \<or> starts_with ''/dns6/'' peer then
           (let parts = split_on (CHR ''/'') peer
            in if 5 \<le> length parts then fst (resolve_and_dial W resolve (parts ! 2) (parts ! 4) n) else n)
         else dial_multiaddr W peer n)
      else dial_host_port W resolve peer n)"

definition dial_extra_peers :: "'s swarm_lib \<Rightarrow> resolver \<Rightarrow> string option \<Rightarrow> 's gossip_node \<Rightarrow> 's gossip_node" where
  "dial_extra_peers W resolve env n =
     (case env of
        None \<Rightarrow> n
      | Some peers \<Rightarrow> fold (dial_extra_peer W resolve) (filter (\<lambda>s. s \<noteq> []) (map trim (split_on (CHR '','') peers))) n)"

definition parse_u16 :: "string \<Rightarrow> u16 option" where
  "parse_u16 s = (case parse_digits s of
     Some n \<Rightarrow> if n < 2 ^ 16 then Some (word_of_nat n) else None | None \<Rightarrow> None)"

text \<open>The external port, when the environment names one that is not the configured one.\<close>

definition advertise_port :: "'s swarm_lib \<Rightarrow> string option \<Rightarrow> u16 \<Rightarrow> 's gossip_node \<Rightarrow> 's gossip_node" where
  "advertise_port W env gossip_port n =
     (case Option.bind env parse_u16 of
        Some ext \<Rightarrow> if ext \<noteq> gossip_port
                    then add_external_address W (''/ip4/0.0.0.0/tcp/'' @ nat_str (unat ext)) n else n
      | None \<Rightarrow> n)"

section \<open>The task\<close>

record 's gossip_task =
  gt_node :: "'s gossip_node"
  gt_inbound :: "gossip_message list"
  gt_dropped :: u64
  gt_insufficient :: u64
  gt_peers :: u64

record 's task_config =
  tc_lib :: "'s swarm_lib"
  tc_bincode :: bincode
  tc_relay_only :: bool
  tc_capacity :: nat
  tc_bootstrap :: "string list"

text \<open>What the task sees: events of the swarm, commands, the minute's tick with the answers of the DNS, and the
  main loop taking a message out of the channel.\<close>

datatype task_event =
    MessageArrived bytes
  | PeerConnected string
  | PeerClosed string
  | OtherSwarmEvent
  | TaskCommand swarm_command
  | RedialTick resolver
  | MainTakes

definition receive_message :: "'s task_config \<Rightarrow> bytes \<Rightarrow> 's gossip_task \<Rightarrow> 's gossip_task" where
  "receive_message T payload g =
     (case deserialize (tc_bincode T) payload of
        Inl _ \<Rightarrow> g
      | Inr msg \<Rightarrow>
          if tc_relay_only T then g
          else if length (gt_inbound g) < tc_capacity T then g\<lparr>gt_inbound := gt_inbound g @ [msg]\<rparr>
          else g\<lparr>gt_dropped := gt_dropped g + 1\<rparr>)"

definition note_publish :: "gossip_error + unit \<Rightarrow> 's gossip_task \<Rightarrow> 's gossip_task" where
  "note_publish r g =
     (case r of
        Inr _ \<Rightarrow> if 0 < gt_insufficient g then g\<lparr>gt_insufficient := 0\<rparr> else g
      | Inl e \<Rightarrow> if contains_str ''InsufficientPeers'' (gossip_error_display e)
                 then g\<lparr>gt_insufficient := gt_insufficient g + 1\<rparr> else g)"

fun run_command :: "'s task_config \<Rightarrow> swarm_command \<Rightarrow> 's gossip_task \<Rightarrow> 's gossip_task" where
  "run_command T (Publish pool_id msg) g =
     (let (n, r) = publish_to_pool (tc_bincode T) (tc_lib T) pool_id msg (gt_node g) in note_publish r (g\<lparr>gt_node := n\<rparr>))"
| "run_command T (SubscribePool pool_id) g = g\<lparr>gt_node := fst (subscribe_pool (tc_lib T) pool_id (gt_node g))\<rparr>"
| "run_command T (UnsubscribePool pool_id) g = g\<lparr>gt_node := fst (unsubscribe_pool (tc_lib T) pool_id (gt_node g))\<rparr>"

text \<open>A redial resolves the peers that have exactly one colon; the address built from the answer is parsed
  with \<open>unwrap\<close>.\<close>

definition redial_peer :: "'s swarm_lib \<Rightarrow> resolver \<Rightarrow> string \<Rightarrow> 's gossip_node \<Rightarrow> 's gossip_node option" where
  "redial_peer W resolve peer n =
     (case split_on (CHR '':'') peer of
        [host, port] \<Rightarrow>
          (case resolve (host @ '':'' @ port) of
             Inr (sock # _) \<Rightarrow>
               (if sl_multiaddr W (socket_multiaddr sock) = None then Some (fst (dial W (socket_multiaddr sock) n)) else None)
           | _ \<Rightarrow> Some n)
      | _ \<Rightarrow> Some n)"

fun redial_peers :: "'s swarm_lib \<Rightarrow> resolver \<Rightarrow> string list \<Rightarrow> 's gossip_node \<Rightarrow> 's gossip_node option" where
  "redial_peers W resolve [] n = Some n"
| "redial_peers W resolve (peer # peers) n = Option.bind (redial_peer W resolve peer n) (redial_peers W resolve peers)"

fun task_step :: "'s task_config \<Rightarrow> task_event \<Rightarrow> 's gossip_task \<Rightarrow> 's gossip_task option" where
  "task_step T (MessageArrived payload) g = Some (receive_message T payload g)"
| "task_step T (PeerConnected peer) g =
     Some (g\<lparr>gt_node := add_explicit_peer (tc_lib T) peer (gt_node g), gt_peers := gt_peers g + 1\<rparr>)"
| "task_step T (PeerClosed peer) g = Some (g\<lparr>gt_peers := gt_peers g - 1\<rparr>)"
| "task_step T OtherSwarmEvent g = Some g"
| "task_step T (TaskCommand c) g = Some (run_command T c g)"
| "task_step T (RedialTick resolve) g =
     (if gt_peers g = 0
      then map_option (\<lambda>n. g\<lparr>gt_node := n\<rparr>) (redial_peers (tc_lib T) resolve (tc_bootstrap T) (gt_node g))
      else Some g)"
| "task_step T MainTakes g = Some (g\<lparr>gt_inbound := tl (gt_inbound g)\<rparr>)"

fun task_run :: "'s task_config \<Rightarrow> task_event list \<Rightarrow> 's gossip_task \<Rightarrow> 's gossip_task option" where
  "task_run T [] g = Some g"
| "task_run T (ev # evs) g = Option.bind (task_step T ev g) (task_run T evs)"

definition task_start :: "'s gossip_node \<Rightarrow> 's gossip_task" where
  "task_start n = \<lparr>gt_node = n, gt_inbound = [], gt_dropped = 0, gt_insufficient = 0, gt_peers = 0\<rparr>"

section \<open>The redial, by its plan\<close>

text \<open>The addresses a redial dials: one for each peer with exactly one colon whose name resolves.\<close>

definition redial_target :: "resolver \<Rightarrow> string \<Rightarrow> string option" where
  "redial_target resolve peer =
     (case split_on (CHR '':'') peer of
        [host, port] \<Rightarrow>
          (case resolve (host @ '':'' @ port) of Inr (sock # _) \<Rightarrow> Some (socket_multiaddr sock) | _ \<Rightarrow> None)
      | _ \<Rightarrow> None)"

definition redial_targets :: "resolver \<Rightarrow> string list \<Rightarrow> string list" where
  "redial_targets resolve peers = List.map_filter (redial_target resolve) peers"

lemma redial_peer_target:
  "redial_peer W resolve peer n =
     (case redial_target resolve peer of
        None \<Rightarrow> Some n
      | Some a \<Rightarrow> if sl_multiaddr W a = None then Some (fst (dial W a n)) else None)"
  by (auto simp: redial_peer_def redial_target_def split: list.split sum.split)

lemma redial_peers_plan:
  "redial_peers W resolve peers n =
     (if list_ex (\<lambda>a. sl_multiaddr W a \<noteq> None) (redial_targets resolve peers) then None
      else Some (fold (\<lambda>a n. fst (dial W a n)) (redial_targets resolve peers) n))"
  by (induction peers arbitrary: n)
    (auto simp: redial_targets_def redial_peer_target map_filter_simps split: option.split)

text \<open>A peer written as a multiaddress has no colon, as a rule.\<close>

lemma split_on_single: "c \<notin> set xs \<Longrightarrow> split_on c xs = [xs]"
  by (induction xs) auto

lemma redial_target_multiaddr: "CHR '':'' \<notin> set peer \<Longrightarrow> redial_target resolve peer = None"
  by (simp add: redial_target_def split_on_single)

lemma redial_targets_none: "list_all (\<lambda>peer. CHR '':'' \<notin> set peer) peers \<Longrightarrow> redial_targets resolve peers = []"
  by (induction peers) (simp_all add: redial_targets_def map_filter_simps redial_target_multiaddr)

text \<open>
  The redial of the gossip task: with no peer connected, the tick of the minute dials, in order, the first
  address each bootstrap peer of the form host:port resolves to, and no other peer, so that peers written
  as multiaddresses are never dialled again. When one of these addresses does not parse as an
  IPv4 multiaddress, as the IPv6 address of a name does not, the task panics instead, and with it ends all
  gossip of the node, while the node runs on.
\<close>

theorem redial_plan_exact:
  "task_step T (RedialTick resolve) g =
     (if gt_peers g \<noteq> 0 then Some g
      else if list_ex (\<lambda>a. sl_multiaddr (tc_lib T) a \<noteq> None) (redial_targets resolve (tc_bootstrap T)) then None
      else Some (g\<lparr>gt_node := fold (\<lambda>a n. fst (dial (tc_lib T) a n)) (redial_targets resolve (tc_bootstrap T)) (gt_node g)\<rparr>))
   \<and> (list_all (\<lambda>peer. CHR '':'' \<notin> set peer) (tc_bootstrap T) \<longrightarrow> task_step T (RedialTick resolve) g = Some g)"
  by (simp add: redial_peers_plan redial_targets_none)

section \<open>What the channel and the counters hold\<close>

definition arrival :: "'s task_config \<Rightarrow> task_event \<Rightarrow> gossip_message list" where
  "arrival T ev = (case ev of
     MessageArrived payload \<Rightarrow> (case deserialize (tc_bincode T) payload of Inr msg \<Rightarrow> [msg] | Inl _ \<Rightarrow> [])
   | _ \<Rightarrow> [])"

definition arrivals :: "'s task_config \<Rightarrow> task_event list \<Rightarrow> gossip_message list" where
  "arrivals T evs = concat (map (arrival T) evs)"

text \<open>Connections opened less connections closed, when no connection closes that was not opened.\<close>

fun open_connections :: "nat \<Rightarrow> task_event list \<Rightarrow> nat option" where
  "open_connections k [] = Some k"
| "open_connections k (PeerConnected _ # evs) = open_connections (Suc k) evs"
| "open_connections k (PeerClosed _ # evs) = (if k = 0 then None else open_connections (k - 1) evs)"
| "open_connections k (_ # evs) = open_connections k evs"

definition task_invariant :: "('s \<Rightarrow> string set) \<Rightarrow> 's task_config \<Rightarrow> gossip_message list \<Rightarrow> 's gossip_task \<Rightarrow> bool" where
  "task_invariant topics T before g =
     (pools_agree topics (gt_node g) \<and> length (gt_inbound g) \<le> tc_capacity T \<and> subseq (gt_inbound g) before
      \<and> (tc_relay_only T \<longrightarrow> gt_inbound g = []))"

lemma redial_agree:
  assumes "swarm_ok topics W" "pools_agree topics n"
  shows "pools_agree topics (fold (\<lambda>a n. fst (dial W a n)) as n)"
  using assms(2) by (induction as arbitrary: n) (simp_all add: swarm_calls_agree(1) [OF assms(1)])

lemma note_publish_keeps [simp]:
  "gt_node (note_publish r g) = gt_node g" "gt_inbound (note_publish r g) = gt_inbound g"
  "gt_peers (note_publish r g) = gt_peers g" "gt_dropped (note_publish r g) = gt_dropped g"
  by (simp_all add: note_publish_def split: sum.split)

lemma run_command_keeps [simp]:
  "gt_inbound (run_command T c g) = gt_inbound g" "gt_peers (run_command T c g) = gt_peers g"
  "gt_dropped (run_command T c g) = gt_dropped g"
  by (cases c; simp add: split_beta Let_def)+

lemma run_command_agree:
  "swarm_ok topics (tc_lib T) \<Longrightarrow> pools_agree topics (gt_node g) \<Longrightarrow> pools_agree topics (gt_node (run_command T c g))"
  by (cases c) (simp_all add: split_beta Let_def subscribe_pool_agree unsubscribe_pool_agree publish_to_pool_agree)

lemma subseq_tl: "subseq xs ys \<Longrightarrow> subseq (tl xs) ys"
  by (cases xs) (auto dest: subseq_Cons')

lemma task_step_invariant:
  assumes "swarm_ok topics (tc_lib T)" "task_invariant topics T before g" "task_step T ev g = Some g'"
  shows "task_invariant topics T (before @ arrival T ev) g'"
proof (cases ev)
  case (MessageArrived payload)
  have "subseq (gt_inbound g @ [m]) (before @ [m])" "subseq (gt_inbound g) (before @ [m])" for m
    using assms(2) by (auto simp: task_invariant_def intro: list_emb_append_mono list_emb_prefix)
  then show ?thesis using assms MessageArrived
    by (auto simp: task_invariant_def receive_message_def arrival_def split: sum.split)
next
  case (RedialTick resolve)
  then show ?thesis using assms
    by (auto simp: task_invariant_def arrival_def redial_peers_plan redial_agree split: if_splits)
next
  case MainTakes
  then show ?thesis using assms
    by (auto simp: task_invariant_def arrival_def subseq_tl)
qed (use assms in \<open>auto simp: task_invariant_def arrival_def run_command_agree swarm_calls_agree(2)\<close>)

lemma task_run_invariant:
  assumes "swarm_ok topics (tc_lib T)" "task_invariant topics T before g" "task_run T evs g = Some g'"
  shows "task_invariant topics T (before @ arrivals T evs) g'"
  using assms(2,3)
proof (induction evs arbitrary: before g)
  case (Cons ev evs)
  then obtain g1 where "task_step T ev g = Some g1" "task_run T evs g1 = Some g'" by (auto simp: bind_eq_Some_conv)
  with Cons.IH [OF task_step_invariant [OF assms(1) Cons.prems(1)]] show ?case by (simp add: arrivals_def)
qed (simp add: arrivals_def)

lemma task_step_peers:
  assumes "task_step T ev g = Some g'" "open_connections (unat (gt_peers g)) (ev # evs) = Some k" "unat (gt_peers g) + 1 < 2 ^ 64"
  shows "open_connections (unat (gt_peers g')) evs = Some k" "unat (gt_peers g') \<le> Suc (unat (gt_peers g))"
proof -
  have up: "unat (gt_peers g + 1) = Suc (unat (gt_peers g))" using assms(3) by (simp add: unat_word_ariths)
  have down: "unat (gt_peers g - 1) = unat (gt_peers g) - 1" if "unat (gt_peers g) \<noteq> 0"
    using that by (simp add: unat_minus_one unat_eq_0)
  have "open_connections (unat (gt_peers g')) evs = Some k \<and> unat (gt_peers g') \<le> Suc (unat (gt_peers g))"
    using assms(1,2) up down by (cases ev) (auto simp: receive_message_def split: sum.splits if_splits)
  then show "open_connections (unat (gt_peers g')) evs = Some k" "unat (gt_peers g') \<le> Suc (unat (gt_peers g))"
    by blast+
qed

lemma task_run_peers:
  assumes "task_run T evs g = Some g'" "open_connections (unat (gt_peers g)) evs = Some k"
    and "unat (gt_peers g) + length evs < 2 ^ 64"
  shows "unat (gt_peers g') = k"
  using assms
proof (induction evs arbitrary: g)
  case (Cons ev evs)
  then obtain g1 where s: "task_step T ev g = Some g1" "task_run T evs g1 = Some g'" by (auto simp: bind_eq_Some_conv)
  have "unat (gt_peers g) + 1 < 2 ^ 64" using Cons.prems(3) by simp
  note task_step_peers [OF s(1) Cons.prems(2) this]
  then show ?case using Cons.IH [OF s(2)] Cons.prems(3) by simp
qed simp

text \<open>
  C12. What the gossip task guarantees, in every state it reaches without a panic, over any interleaving of swarm events,
  commands, redials and reads of the main loop, when the library keeps its topics: the node believes to
  be subscribed to exactly the pools its swarm is subscribed to; the channel to the main loop holds at most its
  capacity, and what it holds are messages of the right version, in the order they arrived; a relay hands on
  none; and the peer counter is the number of open connections.
\<close>

theorem gossip_task_sound:
  assumes "swarm_ok topics (tc_lib T)" "gossip_node_new (tc_lib T) built = Inr n" "\<forall>w. built = Inr w \<longrightarrow> topics w = {}"
    and "task_run T evs (task_start n) = Some g" "length evs < 2 ^ 64"
  shows "topics (gn_swarm (gt_node g)) =
      {global_complete_topic, global_report_topic} \<union> pool_topic ` gn_pool_topics (gt_node g)
    \<and> length (gt_inbound g) \<le> tc_capacity T \<and> subseq (gt_inbound g) (arrivals T evs)
    \<and> (tc_relay_only T \<longrightarrow> gt_inbound g = [])
    \<and> (\<forall>k. open_connections 0 evs = Some k \<longrightarrow> unat (gt_peers g) = k)"
proof -
  have "task_invariant topics T [] (task_start n)"
    using gossip_node_new_agree(1) [OF assms(1-3)] by (simp add: task_invariant_def task_start_def)
  from task_run_invariant [OF assms(1) this assms(4)] task_run_peers [OF assms(4)] assms(5) show ?thesis
    by (auto simp: task_invariant_def pools_agree_def task_start_def)
qed

section \<open>The pool of the main loop and the pool of the task\<close>

text \<open>The commands of the main loop, executed in the order of the channel.\<close>

definition run_commands :: "'s task_config \<Rightarrow> swarm_command list \<Rightarrow> 's gossip_task \<Rightarrow> 's gossip_task" where
  "run_commands T cs g = fold (run_command T) cs g"

definition subscriptions_succeed :: "'s swarm_lib \<Rightarrow> bool" where
  "subscriptions_succeed W = (\<forall>t w. snd (sl_subscribe W t w) = None \<and> snd (sl_unsubscribe W t w) = None)"

lemma run_command_pools:
  assumes "subscriptions_succeed (tc_lib T)"
  shows "gn_pool_topics (gt_node (run_command T (SubscribePool p) g)) = insert p (gn_pool_topics (gt_node g))"
    "gn_pool_topics (gt_node (run_command T (UnsubscribePool p) g)) = gn_pool_topics (gt_node g) - {p}"
    "gn_pool_topics (gt_node (run_command T (Publish p msg) g)) = gn_pool_topics (gt_node g)"
  using assms by (simp_all add: subscriptions_succeed_def subscribe_pool_def unsubscribe_pool_def publish_to_pool_def
      publish_on_def split_beta Let_def split: sum.split)

lemma reassign_pool_cases:
  assumes "reassign_pool C N b s = Some s'"
  obtains (stays) "lp_my_pool s' = lp_my_pool s" "lp_swarm s' = lp_swarm s"
  | (moves) "lp_my_pool s' \<noteq> lp_my_pool s"
      "lp_swarm s' = try_send (nc_swarm_capacity N) (SubscribePool (lp_my_pool s'))
         (try_send (nc_swarm_capacity N) (UnsubscribePool (lp_my_pool s)) (lp_swarm s))"
proof -
  obtain p where s': "s' = (if p \<noteq> lp_my_pool s
      then s\<lparr>lp_swarm := try_send (nc_swarm_capacity N) (SubscribePool p)
               (try_send (nc_swarm_capacity N) (UnsubscribePool (lp_my_pool s)) (lp_swarm s)), lp_my_pool := p\<rparr> else s)"
    using assms unfolding reassign_pool_def map_option_eq_Some by blast
  show thesis
  proof (cases "p = lp_my_pool s")
    case True
    with s' show thesis by (intro stays) simp_all
  next
    case False
    with s' show thesis by (intro moves) simp_all
  qed
qed

text \<open>
  C28. How the gossip task's subscriptions follow the main loop's pool, with a library whose subscriptions
  succeed. At a batch boundary that keeps the pool nothing changes. At one that moves the node, with
  \<open>P0\<close> the pools the task is subscribed to once it has executed the commands that wait: with two
  places free in the command channel the task drops the old pool and takes the new one; with one
  free it drops the old and takes none; with none it keeps \<open>P0\<close>. So from agreement, \<open>P0\<close> being the
  old pool alone, two free places keep the agreement, and with fewer the task refuses every message
  for the new pool. And nothing repairs a lapse: with two places free, a pool other than the loop's
  old and new one stays subscribed exactly if it was.
\<close>

theorem pool_switch:
  assumes "reassign_pool C N b s = Some s'" "subscriptions_succeed (tc_lib T)"
  shows "(let old = lp_my_pool s; new = lp_my_pool s';
        P0 = gn_pool_topics (gt_node (run_commands T (lp_swarm s) g));
        P = gn_pool_topics (gt_node (run_commands T (lp_swarm s') g));
        waiting = length (lp_swarm s)
    in (new = old \<longrightarrow> P = P0) \<and>
       (new \<noteq> old \<longrightarrow>
          P = (if waiting + 2 \<le> nc_swarm_capacity N then insert new (P0 - {old})
               else if waiting + 1 = nc_swarm_capacity N then P0 - {old} else P0)) \<and>
       (P0 = {old} \<and> waiting + 2 \<le> nc_swarm_capacity N \<longrightarrow> P = {new}) \<and>
       (P0 = {old} \<and> new \<noteq> old \<and> nc_swarm_capacity N < waiting + 2 \<longrightarrow>
          snd (publish_to_pool B W new msg (gt_node (run_commands T (lp_swarm s') g))) = Inl NotSubscribedToPool) \<and>
       (waiting + 2 \<le> nc_swarm_capacity N \<longrightarrow> (\<forall>p. p \<noteq> old \<and> p \<noteq> new \<longrightarrow> (p \<in> P \<longleftrightarrow> p \<in> P0))))"
  using assms(1)
proof (cases rule: reassign_pool_cases)
  case stays
  then show ?thesis by simp
next
  case moves
  let ?before = "gn_pool_topics (gt_node (run_commands T (lp_swarm s) g))"
  let ?now = "gn_pool_topics (gt_node (run_commands T (lp_swarm s') g))"
  have P: "?now = (if length (lp_swarm s) + 2 \<le> nc_swarm_capacity N then insert (lp_my_pool s') (?before - {lp_my_pool s})
       else if length (lp_swarm s) + 1 = nc_swarm_capacity N then ?before - {lp_my_pool s} else ?before)"
  proof -
    have "lp_swarm s' = (if length (lp_swarm s) + 2 \<le> nc_swarm_capacity N
         then lp_swarm s @ [UnsubscribePool (lp_my_pool s), SubscribePool (lp_my_pool s')]
         else if length (lp_swarm s) + 1 = nc_swarm_capacity N then lp_swarm s @ [UnsubscribePool (lp_my_pool s)]
         else lp_swarm s)"
      using moves(2) by (auto simp: try_send_def)
    then show ?thesis
      by (simp only: run_commands_def fold_append comp_apply fold_simps id_apply run_command_pools [OF assms(2)]
          split: if_split) auto
  qed
  have refused: "snd (publish_to_pool B W (lp_my_pool s') msg (gt_node (run_commands T (lp_swarm s') g)))
      = Inl NotSubscribedToPool" if "lp_my_pool s' \<notin> ?now"
    using that by (simp add: publish_to_pool_def)
  show ?thesis
    unfolding Let_def
  proof (intro conjI)
    show "lp_my_pool s' = lp_my_pool s \<longrightarrow> ?now = ?before" using moves(1) by simp
    show "lp_my_pool s' \<noteq> lp_my_pool s \<longrightarrow>
      ?now = (if length (lp_swarm s) + 2 \<le> nc_swarm_capacity N then insert (lp_my_pool s') (?before - {lp_my_pool s})
       else if length (lp_swarm s) + 1 = nc_swarm_capacity N then ?before - {lp_my_pool s} else ?before)"
      by (rule impI) (rule P)
    show "?before = {lp_my_pool s} \<and> length (lp_swarm s) + 2 \<le> nc_swarm_capacity N \<longrightarrow> ?now = {lp_my_pool s'}"
      by (simp only: P) simp
    show "?before = {lp_my_pool s} \<and> lp_my_pool s' \<noteq> lp_my_pool s \<and> nc_swarm_capacity N < length (lp_swarm s) + 2 \<longrightarrow>
      snd (publish_to_pool B W (lp_my_pool s') msg (gt_node (run_commands T (lp_swarm s') g))) = Inl NotSubscribedToPool"
      by (intro impI refused) (simp only: P, simp)
    show "length (lp_swarm s) + 2 \<le> nc_swarm_capacity N \<longrightarrow>
      (\<forall>p. p \<noteq> lp_my_pool s \<and> p \<noteq> lp_my_pool s' \<longrightarrow> (p \<in> ?now \<longleftrightarrow> p \<in> ?before))"
      by (simp only: P) simp
  qed
qed

text \<open>A swarm that is the list of its topics.\<close>

definition example_swarm_lib :: "string list swarm_lib" where
  "example_swarm_lib = \<lparr>sl_subscribe = (\<lambda>t w. (List.insert t w, None)), sl_unsubscribe = (\<lambda>t w. (removeAll t w, None)),
     sl_publish = (\<lambda>_ _ w. (w, Some ''InsufficientPeers'')), sl_listen = (\<lambda>_ w. (w, None)), sl_dial = (\<lambda>_ w. (w, None)),
     sl_external = (\<lambda>_ w. w), sl_explicit = (\<lambda>_ w. w), sl_drive = (\<lambda>_ w. (w, [])), sl_peers = (\<lambda>_. []),
     sl_multiaddr = (\<lambda>a. if a = ''/ip4/::1/tcp/9'' then Some ''invalid'' else None)\<rparr>"

definition example_bincode :: bincode where
  "example_bincode = \<lparr>bincode_write = (\<lambda>_. Inr []), bincode_read = (\<lambda>bs. if bs = [] then Inl ''short''
     else Inr \<lparr>ge_version = PROTOCOL_VERSION, ge_message = SettlementReport 1 [] True 0 (ucast (hd bs)) []\<rparr>)\<rparr>"

definition example_task :: "string list task_config" where
  "example_task = \<lparr>tc_lib = example_swarm_lib, tc_bincode = example_bincode, tc_relay_only = False, tc_capacity = 2,
     tc_bootstrap = [''/ip4/10.0.0.1/tcp/9191'', ''peer:9'']\<rparr>"

lemma example_swarm_ok: "swarm_ok set example_swarm_lib"
  by (auto simp: swarm_ok_def topics_kept_def example_swarm_lib_def)

definition example_gossip_node :: "string list gossip_node" where
  "example_gossip_node = \<lparr>gn_swarm = [global_report_topic, global_complete_topic], gn_pool_topics = {}\<rparr>"

lemma example_gossip_start: "gossip_node_new example_swarm_lib (Inr []) = Inr example_gossip_node"
  by (simp add: gossip_node_new_def on_swarm_def example_swarm_lib_def example_gossip_node_def global_report_topic_def
      global_complete_topic_def List.insert_def)

lemma gossip_task_sound_witness:
  "length (gt_inbound (the (task_run example_task [PeerConnected ''p'', MessageArrived [7], MessageArrived [],
       TaskCommand (SubscribePool 3), MessageArrived [8], MessageArrived [9], PeerClosed ''p''] (task_start example_gossip_node)))) \<le> 2"
proof -
  let ?evs = "[PeerConnected ''p'', MessageArrived [7], MessageArrived [], TaskCommand (SubscribePool 3),
     MessageArrived [8], MessageArrived [9], PeerClosed ''p'']"
  obtain g where g: "task_run example_task ?evs (task_start example_gossip_node) = Some g" by simp
  have "swarm_ok set (tc_lib example_task)" "gossip_node_new (tc_lib example_task) (Inr []) = Inr example_gossip_node"
    using example_swarm_ok example_gossip_start by (simp_all add: example_task_def)
  from gossip_task_sound [OF this _ g] have "length (gt_inbound g) \<le> tc_capacity example_task" by simp
  then show ?thesis unfolding g by (simp add: example_task_def)
qed

lemma redial_plan_exact_witness:
  "task_step example_task (RedialTick (\<lambda>_. Inr [(''::1'', 9)])) (task_start example_gossip_node) = None"
proof -
  have "redial_targets (\<lambda>_. Inr [(''::1'', 9)]) (tc_bootstrap example_task) = [''/ip4/::1/tcp/9'']"
    by code_simp
  moreover have "gt_peers (task_start example_gossip_node) = 0" by (simp add: task_start_def)
  ultimately show ?thesis
    using redial_plan_exact [of example_task "\<lambda>_. Inr [(''::1'', 9)]" "task_start example_gossip_node"]
    by (simp add: example_task_def example_swarm_lib_def)
qed

lemma pool_switch_witness:
  "\<exists>s'. reassign_pool wire_crypto example_config 11 (example_loop\<lparr>lp_my_pool := 5\<rparr>) = Some s'
    \<and> gn_pool_topics (gt_node (run_commands example_task (lp_swarm s')
         (task_start (fst (subscribe_pool example_swarm_lib 5 example_gossip_node))))) = {lp_my_pool s'}"
proof -
  let ?s = "example_loop\<lparr>lp_my_pool := 5\<rparr>" and ?g = "task_start (fst (subscribe_pool example_swarm_lib 5 example_gossip_node))"
  have "bb_num_pools (or_batch_state (lp_orch example_loop)) = 1"
    by (simp add: example_loop_def example_node_def orchestrator_new_def batch_bridge_new_def)
  then obtain s' where s': "reassign_pool wire_crypto example_config 11 ?s = Some s'"
    by (simp add: reassign_pool_def compute_pool_assignment_def Let_def checked_rem_def)
  have lib: "subscriptions_succeed (tc_lib example_task)"
    by (simp add: subscriptions_succeed_def example_task_def example_swarm_lib_def)
  have p0: "gn_pool_topics (gt_node (run_commands example_task (lp_swarm ?s) ?g)) = {lp_my_pool ?s}"
    by (simp add: run_commands_def example_loop_def task_start_def subscribe_pool_def split_beta Let_def
        example_swarm_lib_def on_swarm_def example_gossip_node_def)
  have room: "length (lp_swarm ?s) + 2 \<le> nc_swarm_capacity example_config"
    by (simp add: example_loop_def example_config_def)
  from pool_switch [OF s' lib, of ?g] p0 room s' show ?thesis unfolding Let_def by blast
qed

end
