(* ===== verification/NodeStartup.thy ===== *)
theory NodeStartup
  imports GossipTask NodeLiveness Config Keystore
begin

text \<open>
  The start of the node (\<open>run\<close> of \<open>src/run.rs\<close> up to its main loop): configuration and key, the chain's
  settings and the check of the protocol version, the balances with which the escrow tracker is seeded, the
  gossip node with its first pool, the heartbeat settings, the strategy server, a pending mint, the market
  configurations, and the state the main loop begins with. What the start reads is the record
  \<open>startup_world\<close>; \<open>None\<close> is a panic. Printing is left out, except where it can panic.
\<close>

section \<open>World and errors\<close>

datatype run_error =
    RunConfig config_error
  | RunKeystore keystore_error
  | RunInput string
  | KeystoreAbsent
  | RunChain chain_error
  | RunQuery query_error
  | ProtocolMismatch u64 u64
  | RunGossip gossip_error
  | RunServer string

text \<open>\<open>su_seed\<close> is the float computation of the seeding: the text of a balance read as a number, times the
  power of ten of the decimals, truncated. \<open>su_server\<close> is the bind of the strategy server.\<close>

record 's startup_world =
  su_env :: environment
  su_config :: "string + string"
  su_keystore :: stored_file
  su_stdin :: "string + string"
  su_crypto :: crypto
  su_vault :: vault
  su_codec :: tx_codec
  su_production :: bool
  su_parse :: "string \<Rightarrow> json option"
  su_ledger :: "string \<Rightarrow> http_answer"
  su_chain :: query_world
  su_pool :: query_world
  su_seed :: "string \<Rightarrow> u8 \<Rightarrow> u64 option"
  su_lib :: "'s swarm_lib"
  su_swarm :: "bytes \<Rightarrow> string + 's"
  su_resolve :: resolver
  su_server :: "u16 \<Rightarrow> string + unit"
  su_now :: u64

type_synonym 'a startup = "(run_error + 'a) option"

definition run_then :: "'a startup \<Rightarrow> ('a \<Rightarrow> 'b startup) \<Rightarrow> 'b startup" where
  "run_then m f = Option.bind m (\<lambda>r. case r of Inl e \<Rightarrow> Some (Inl e) | Inr x \<Rightarrow> f x)"

definition run_ok :: "'e + 'a \<Rightarrow> ('e \<Rightarrow> run_error) \<Rightarrow> 'a startup" where
  "run_ok r err = Some (map_err err r)"

lemma run_then_Inr: "run_then m f = Some (Inr y) \<longleftrightarrow> (\<exists>x. m = Some (Inr x) \<and> f x = Some (Inr y))"
  unfolding run_then_def by (cases m) (auto split: sum.split)

lemma run_ok_Inr: "run_ok r err = Some (Inr y) \<longleftrightarrow> r = Inr y"
  by (cases r) (simp_all add: run_ok_def)

section \<open>Configuration and key\<close>

definition read_password :: "string + string \<Rightarrow> string + string" where
  "read_password stdin = (case stdin of Inl e \<Rightarrow> Inl e | Inr line \<Rightarrow> Inr (trim line))"

definition unlock_keystore :: "'s startup_world \<Rightarrow> keystore_mode \<Rightarrow> (bytes \<times> bytes) startup" where
  "unlock_keystore W mode =
     (case mode of
        KsMissing \<Rightarrow> Some (Inl KeystoreAbsent)
      | KsInsecure \<Rightarrow> run_ok (load_keystore_insecure (su_crypto W) (su_production W) (su_parse W) (su_keystore W)) RunKeystore
      | KsEncrypted \<Rightarrow>
          Option.bind (load_keystore_from_env (su_crypto W) (su_vault W) (su_env W) (su_parse W) (su_keystore W)) (\<lambda>r.
            case r of
              Inr keys \<Rightarrow> Some (Inr keys)
            | Inl _ \<Rightarrow>
               (case read_password (su_stdin W) of
                  Inl e \<Rightarrow> Some (Inl (RunInput e))
                | Inr password \<Rightarrow>
                    map_option (map_err RunKeystore)
                      (load_keystore (su_crypto W) (su_vault W) (su_parse W) (su_keystore W) password))))"

text \<open>The address is printed by its first eight and last six bytes, which panics when it is shorter or when one
  of the cuts falls inside a character.\<close>

definition char_boundary :: "nat \<Rightarrow> string \<Rightarrow> bool" where
  "char_boundary i s = (i = length s \<or> i < length s \<and> \<not> continuation_byte (s ! i))"

definition shown_address :: "string \<Rightarrow> string option" where
  "shown_address a =
     (if 8 \<le> length a \<and> char_boundary 8 a \<and> char_boundary (length a - 6) a
      then Some (take 8 a @ ''...'' @ drop (length a - 6) a) else None)"

definition open_node :: "'s startup_world \<Rightarrow> keystore_mode \<Rightarrow> (node_settings \<times> bytes \<times> bytes) startup" where
  "open_node W mode =
     run_then (run_ok (load_settings (su_parse W) (su_env W) (su_config W)) RunConfig) (\<lambda>config.
     run_then (unlock_keystore W mode) (\<lambda>(secret, public).
       map_option (\<lambda>_. Inr (config, secret, public)) (shown_address (ns_trustee_address config))))"

section \<open>Settings of the chain\<close>

record chain_start =
  cs_block :: u64
  cs_params :: batch_params
  cs_epoch :: batch_epoch
  cs_batch :: u64
  cs_phase :: phase
  cs_pool_client :: "supra_client \<times> nat"

definition ask_fallible :: "(query_error + 'a) query \<Rightarrow> supra_client \<times> nat \<Rightarrow> ((supra_client \<times> nat) \<times> 'a) startup" where
  "ask_fallible q st = map_option (\<lambda>(st', r). map_err RunQuery (map_sum id (Pair st') r)) (q st)"

text \<open>The version is compared only when the chain answers; otherwise the node goes on.\<close>

definition check_version :: "query_world \<Rightarrow> supra_client \<times> nat \<Rightarrow> (supra_client \<times> nat) startup" where
  "check_version Q st =
     map_option (\<lambda>(st', r).
         case r of
           Inr v \<Rightarrow> if v \<noteq> ucast PROTOCOL_VERSION then Inl (ProtocolMismatch v (ucast PROTOCOL_VERSION)) else Inr st'
         | Inl _ \<Rightarrow> Inr st')
       (fetch_protocol_version Q st)"

definition read_chain :: "'s startup_world \<Rightarrow> supra_client \<Rightarrow> supra_client \<Rightarrow> chain_start startup" where
  "read_chain W chain pool_client =
     run_then (map_option (map_err RunChain) (get_ledger_info (su_parse W) (su_ledger W) chain)) (\<lambda>ledger.
     run_then (ask_fallible (fetch_batch_params (su_pool W)) (pool_client, 0)) (\<lambda>(p1, params).
     run_then (ask_fallible (fetch_batch_epoch (su_pool W)) p1) (\<lambda>(p2, epoch).
       Option.bind (compute_batch_id (li_block_height ledger) epoch params) (\<lambda>batch_id.
       Option.bind (compute_phase (li_block_height ledger) epoch params) (\<lambda>phase.
         run_then (check_version (su_pool W) p2) (\<lambda>p3.
           Some (Inr \<lparr>cs_block = li_block_height ledger, cs_params = params, cs_epoch = epoch, cs_batch = batch_id,
                      cs_phase = phase, cs_pool_client = p3\<rparr>)))))))"

section \<open>Balances\<close>

definition seed_tracker :: "'s startup_world \<Rightarrow> (string, u8) hmap \<Rightarrow> (string, string) hmap \<Rightarrow> escrow_tracker" where
  "seed_tracker W ds shown =
     foldl (\<lambda>t (token, text). case su_seed W text (or_default 5 (hm_get ds token)) of
              Some raw \<Rightarrow> set_confirmed token raw t | None \<Rightarrow> t)
       escrow_new shown"

record money_start =
  mo_decimals :: "(string, u8) hmap"
  mo_escrow :: "(string, string) hmap"
  mo_tracker :: escrow_tracker
  mo_wallet :: "(string, string) hmap"
  mo_mint_state :: mint_state_data
  mo_circulating :: "(string, string) hmap"
  mo_vault_locks :: "vault_lock_data list"

definition read_money :: "'s startup_world \<Rightarrow> node_settings \<Rightarrow> money_start query" where
  "read_money W config =
     (let Q = su_chain W; address = ns_trustee_address config
      in then_ask (fetch_token_decimals Q (ns_markets config)) (\<lambda>ds.
         then_ask (fetch_escrow_balances Q (ns_nft_id config) (ns_markets config) ds) (\<lambda>escrow.
         then_ask (fetch_wallet_balances Q address (ca_settlement (ns_contracts config)) ds) (\<lambda>wallet.
         then_ask (fetch_mint_state Q address) (\<lambda>mint.
         then_ask (fetch_circulating_supply Q ds) (\<lambda>circulating.
         then_ask (fetch_vault_locks Q address ds) (\<lambda>locks.
           answer \<lparr>mo_decimals = ds, mo_escrow = escrow, mo_tracker = seed_tracker W ds escrow, mo_wallet = wallet,
                   mo_mint_state = mint, mo_circulating = circulating, mo_vault_locks = locks\<rparr>)))))))"

section \<open>Gossip and heartbeat\<close>

definition with_gossip_error :: "'s gossip_node \<times> (gossip_error + unit) \<Rightarrow> 's gossip_node startup" where
  "with_gossip_error r = Some (map_err RunGossip (map_sum id (\<lambda>_. fst r) (snd r)))"

record 's gossip_start =
  go_node :: "'s gossip_node"
  go_num_pools :: u64
  go_my_pool :: u64
  go_interval :: "query_error + u64"
  go_timeout :: "query_error + u64"
  go_pool_client :: "supra_client \<times> nat"

definition open_gossip :: "'s startup_world \<Rightarrow> bytes \<Rightarrow> node_settings \<Rightarrow> chain_start \<Rightarrow> 's gossip_start startup" where
  "open_gossip W secret config c =
     (let L = su_lib W; Q = su_pool W
      in run_then (run_ok (gossip_node_new L (su_swarm W secret)) RunGossip) (\<lambda>n0.
         run_then (with_gossip_error (listen_on_port L (ns_gossip_port config) n0)) (\<lambda>n1.
           let n2 = advertise_port L (su_env W ''GOSSIP_PORT'') (ns_gossip_port config) n1
           in Option.bind (fetch_num_pools Q (cs_pool_client c)) (\<lambda>(q1, pools).
              let num_pools = (case pools of Inr v \<Rightarrow> v | Inl _ \<Rightarrow> 1)
              in Option.bind (compute_pool_assignment (su_crypto W) (ns_nft_id config) (cs_batch c) (max num_pools 1)) (\<lambda>my_pool.
                 run_then (with_gossip_error (subscribe_pool L my_pool n2)) (\<lambda>n3.
                   Option.bind (fetch_heartbeat_interval Q q1) (\<lambda>(q2, interval).
                   map_option (\<lambda>(q3, timeout).
                       Inr \<lparr>go_node = dial_extra_peers L (su_resolve W) (su_env W ''DEADMKT_DIAL_PEERS'')
                                (dial_bootstrap_peers L (su_resolve W) (ns_bootstrap_peers config) n3),
                             go_num_pools = num_pools, go_my_pool = my_pool,
                             go_interval = interval, go_timeout = timeout, go_pool_client = q3\<rparr>)
                     (fetch_heartbeat_timeout Q q2))))))))"

text \<open>The token of the strategy server, and its start.\<close>

definition strategy_token :: "environment \<Rightarrow> node_settings \<Rightarrow> string" where
  "strategy_token env config = or_default (ns_strategy_auth_token config) (env ''DEADMKT_AUTH_TOKEN'')"

definition relay_only :: "environment \<Rightarrow> bool" where
  "relay_only env = (env ''DEADMKT_NO_STRATEGY'' = Some ''1'')"

section \<open>A pending mint\<close>

text \<open>\<open>claimable_at as i64 - now as i64\<close>, and the seconds the claim task sleeps.\<close>

definition remaining_secs :: "pending_mint_full \<Rightarrow> u64 \<Rightarrow> int" where
  "remaining_secs pm now = sint (pm_claimable_at pm - now)"

definition claim_delay :: "pending_mint_full \<Rightarrow> u64 \<Rightarrow> nat" where
  "claim_delay pm now = nat (remaining_secs pm now)"

text \<open>The amounts are printed with the decimals of EMM; the power of ten wraps, and a zero divides.\<close>

definition mint_shown :: "(string, u8) hmap \<Rightarrow> pending_mint_full \<Rightarrow> bool" where
  "mint_shown ds pm = (gm_factor (or_default 5 (hm_get ds ''EMM'')) \<noteq> 0)"

definition pending_claim ::
  "'s startup_world \<Rightarrow> node_settings \<Rightarrow> (string, u8) hmap \<Rightarrow> supra_client \<times> nat \<Rightarrow> ((supra_client \<times> nat) \<times> (pending_mint_full \<times> nat) option) option" where
  "pending_claim W config ds st =
     Option.bind (fetch_pending_mint_full (su_chain W) (ns_trustee_address config) st) (\<lambda>(st', pm).
       case pm of
         None \<Rightarrow> Some (st', None)
       | Some p \<Rightarrow> if mint_shown ds p then Some (st', Some (p, claim_delay p (su_now W))) else None)"

text \<open>The claim task: one submission of the setup client; the pending mint is cleared when it succeeds.\<close>

definition claim_step :: "'e + bool \<Rightarrow> pending_mint_full option \<Rightarrow> pending_mint_full option" where
  "claim_step outcome pending = (case outcome of Inr True \<Rightarrow> None | _ \<Rightarrow> pending)"

section \<open>Markets\<close>

definition text_number_at :: "u64 \<Rightarrow> json option \<Rightarrow> u64" where
  "text_number_at d v = or_default d (Option.bind (Option.bind v as_str) parse_u64)"

definition fetch_global_min :: "query_world \<Rightarrow> u64 query" where
  "fetch_global_min Q =
     then_ask (ask_view Q ''pool_config'' ''get_min_trade_quantity'' []) (\<lambda>r.
       answer (case r of Inl _ \<Rightarrow> 0 | Inr j \<Rightarrow> text_number_at 0 (jindex 0 j)))"

definition pair_minimum :: "json \<Rightarrow> u64" where
  "pair_minimum r =
     (let p = pair_object r
      in text_number_at 1 (case jget ''min_quantity'' p of Some v \<Rightarrow> Some v | None \<Rightarrow> jindex 3 p))"

fun read_markets :: "query_world \<Rightarrow> u64 \<Rightarrow> string list \<Rightarrow> market_config list query" where
  "read_markets Q global_min [] = answer []"
| "read_markets Q global_min (pair # pairs) =
     then_ask (ask_pair Q pair) (\<lambda>r.
     then_ask (read_markets Q global_min pairs) (\<lambda>rest.
       answer (\<lparr>mc_symbol = char_bytes pair,
                mc_min_quantity = max global_min (case r of Inl _ \<Rightarrow> 1 | Inr j \<Rightarrow> pair_minimum j)\<rparr> # rest)))"

section \<open>The state of the main loop\<close>

definition starting_gas :: "u64 option \<Rightarrow> gas_manager" where
  "starting_gas supra = (case supra of Some bal \<Rightarrow> fst (update_balance bal (gm_new 8)) | None \<Rightarrow> gm_new 8)"

definition starting_submitter :: "'s startup_world \<Rightarrow> bytes \<Rightarrow> node_settings \<Rightarrow> submitter option" where
  "starting_submitter W secret config =
     (case submitter_new (su_codec W) secret (ca_settlement (ns_contracts config)) (ns_trustee_address config) (ns_chain_id config) of
        Inl _ \<Rightarrow> None
      | Inr s \<Rightarrow> Some (set_gas_config (ns_max_gas_amount config) (ns_gas_unit_price config) s))"

definition starting_loop ::
  "node_settings \<Rightarrow> chain_start \<Rightarrow> money_start \<Rightarrow> 's gossip_start \<Rightarrow> u64 option \<Rightarrow> market_config list \<Rightarrow> loop_state" where
  "starting_loop config c money g supra markets =
     (let nft = ns_nft_id config; bridge = batch_bridge_new (cs_epoch c) (cs_params c) (go_num_pools g) nft
      in \<lparr>lp_orch = (orchestrator_new gossip_bridge_new bridge nft (ucast (commits_per_batch (cs_params c))))\<lparr>market_configs := markets\<rparr>,
          lp_validator = iv_new (cs_batch c), lp_cache = cache_new 30 10000,
          lp_manager = manager_new (mo_tracker money) nft, lp_node = apply_event SetupComplete sm_new,
          lp_gas = starting_gas supra, lp_pause = gas_pause_start, lp_params = cs_params c, lp_epoch = cs_epoch c,
          lp_num_pools = go_num_pools g, lp_my_pool = go_my_pool g, lp_last_block = cs_block c, lp_last_phase = cs_phase c,
          lp_last_batch = cs_batch c, lp_last_event_block = cs_block c, lp_last_settlement_batch = 0,
          lp_was_connected = False, lp_first_batch_entered = False, lp_failed_recent = 0, lp_swarm = [], lp_settle_queue = []\<rparr>)"

record 's node_start =
  st_config :: node_settings
  st_keys :: "bytes \<times> bytes"
  st_chain :: chain_start
  st_money :: money_start
  st_task :: "'s gossip_task"
  st_liveness :: liveness
  st_token :: string
  st_claim :: "(pending_mint_full \<times> nat) option"
  st_submitter :: "submitter option"
  st_loop :: loop_state
  st_relay_only :: bool

definition loop_config :: "'s node_start \<Rightarrow> node_config" where
  "loop_config r =
     \<lparr>nc_nft_id = ns_nft_id (st_config r), nc_signing_key = fst (st_keys r), nc_token_decimals = hm_get (mo_decimals (st_money r)),
      nc_has_submitter = (st_submitter r \<noteq> None), nc_swarm_capacity = 64, nc_settle_capacity = 64\<rparr>"

definition gossip_config :: "'s startup_world \<Rightarrow> bincode \<Rightarrow> 's node_start \<Rightarrow> 's task_config" where
  "gossip_config W B r =
     \<lparr>tc_lib = su_lib W, tc_bincode = B, tc_relay_only = st_relay_only r, tc_capacity = 32768,
      tc_bootstrap = ns_bootstrap_peers (st_config r)\<rparr>"

definition liveness_settings :: "'s startup_world \<Rightarrow> (string \<Rightarrow> bool) \<Rightarrow> 's node_start \<Rightarrow> liveness_config" where
  "liveness_settings W above_zero r =
     (let config = st_config r
      in \<lparr>lc_wallet = \<lparr>nw_signing_key = fst (st_keys r), nw_contract = ca_escrow (ns_contracts config),
            nw_address = ns_trustee_address config, nw_chain_id = ns_chain_id config,
            nw_max_gas = ns_max_gas_amount config, nw_gas_price = ns_gas_unit_price config\<rparr>,
          lc_nft_id = ns_nft_id config, lc_escrow_client = client_new (ns_rpc_urls config) (ca_escrow (ns_contracts config)),
          lc_balances = mo_escrow (st_money r),
          lc_check_interval = liveness_check_interval (su_env W ''DEADMKT_LIVENESS_CHECK_INTERVAL''), lc_positive = above_zero\<rparr>)"

section \<open>The start\<close>

definition start_loop ::
  "'s startup_world \<Rightarrow> node_settings \<Rightarrow> bytes \<times> bytes \<Rightarrow> chain_start \<Rightarrow> supra_client \<times> nat \<Rightarrow> money_start \<Rightarrow> 's gossip_start \<Rightarrow> 's node_start startup" where
  "start_loop W config keys c q0 money g =
     Option.bind (pending_claim W config (mo_decimals money) q0) (\<lambda>(q1, claim).
     Option.bind (fetch_supra_balance (su_chain W) (ns_trustee_address config) q1) (\<lambda>(q2, supra).
     Option.bind (balance_display (starting_gas supra)) (\<lambda>_.
     Option.bind (fetch_global_min (su_chain W) q2) (\<lambda>(q3, global_min).
     map_option (\<lambda>(q4, markets).
         Inr \<lparr>st_config = config, st_keys = keys, st_chain = c, st_money = money, st_task = task_start (go_node g),
              st_liveness = (starting_liveness (go_interval g) (go_timeout g) (fst q4) (fst (go_pool_client g)))\<lparr>lv_chain := q4, lv_pool := go_pool_client g\<rparr>,
              st_token = strategy_token (su_env W) config, st_claim = claim, st_submitter = starting_submitter W (fst keys) config,
              st_loop = starting_loop config c money g supra markets, st_relay_only = relay_only (su_env W)\<rparr>)
       (read_markets (su_chain W) global_min (ns_markets config) q3)))))"

definition start_node :: "'s startup_world \<Rightarrow> keystore_mode \<Rightarrow> 's node_start startup" where
  "start_node W mode =
     run_then (open_node W mode) (\<lambda>(config, keys).
       let chain = client_new (ns_rpc_urls config) (ca_settlement (ns_contracts config));
           pool_client = client_new (ns_rpc_urls config) (ca_pool_config (ns_contracts config))
       in run_then (read_chain W chain pool_client) (\<lambda>c.
          Option.bind (read_money W config (chain, 0)) (\<lambda>(q, money).
          run_then (open_gossip W (fst keys) config c) (\<lambda>g.
          run_then (run_ok (su_server W (ns_strategy_port config)) RunServer) (\<lambda>_.
            start_loop W config keys c q money g)))))"

section \<open>What a start establishes\<close>

lemma read_chain_alive:
  assumes "read_chain W chain pool_client = Some (Inr c)"
  shows "blocks_per_batch (cs_params c) \<noteq> 0"
    "compute_batch_id (cs_block c) (cs_epoch c) (cs_params c) = Some (cs_batch c)"
    "compute_phase (cs_block c) (cs_epoch c) (cs_params c) = Some (cs_phase c)"
proof -
  show b: "compute_batch_id (cs_block c) (cs_epoch c) (cs_params c) = Some (cs_batch c)"
    and "compute_phase (cs_block c) (cs_epoch c) (cs_params c) = Some (cs_phase c)"
    using assms by (auto simp: read_chain_def run_then_Inr bind_eq_Some_conv)
  show "blocks_per_batch (cs_params c) \<noteq> 0"
    using b by (auto simp: compute_batch_id_def checked_div_def split: if_splits)
qed

lemma dial_keeps_pools [simp]: "gn_pool_topics (fst (dial W a n)) = gn_pool_topics n"
  by (simp add: dial_def)

lemma resolve_and_dial_keeps [simp]: "gn_pool_topics (fst (resolve_and_dial W resolve h p n)) = gn_pool_topics n"
  by (simp add: resolve_and_dial_def split_beta split: sum.split list.split option.split)

lemma dial_host_port_keeps [simp]: "gn_pool_topics (dial_host_port W resolve peer n) = gn_pool_topics n"
  by (simp add: dial_host_port_def split: list.split)

lemma dial_peer_keeps [simp]:
  "gn_pool_topics (dial_bootstrap_peer W resolve peer n) = gn_pool_topics n"
  "gn_pool_topics (dial_extra_peer W resolve peer n) = gn_pool_topics n"
  by (simp_all add: dial_bootstrap_peer_def dial_extra_peer_def dial_multiaddr_def Let_def)

lemma fold_keeps: "(\<And>x n. f (g x n) = f n) \<Longrightarrow> f (fold g xs n) = f n"
  by (induction xs arbitrary: n) simp_all

lemma dial_peers_keep [simp]:
  "gn_pool_topics (dial_bootstrap_peers W resolve peers n) = gn_pool_topics n"
  "gn_pool_topics (dial_extra_peers W resolve env n) = gn_pool_topics n"
  by (simp_all add: dial_bootstrap_peers_def dial_extra_peers_def fold_keeps [where f = gn_pool_topics] split: option.split)

lemma advertise_keeps [simp]: "gn_pool_topics (advertise_port W env port n) = gn_pool_topics n"
  by (simp add: advertise_port_def add_external_address_def split: option.split)

lemma gossip_node_new_pools: "gossip_node_new L built = Inr n \<Longrightarrow> gn_pool_topics n = {}"
  by (auto simp: gossip_node_new_def res_bind_Inr on_swarm_def split_beta Let_def)

lemma with_gossip_error_Inr: "with_gossip_error r = Some (Inr n) \<longleftrightarrow> n = fst r \<and> \<not> isl (snd r)"
  by (cases r; cases "snd r") (auto simp: with_gossip_error_def)

lemma open_gossip_pools:
  assumes "open_gossip W secret config c = Some (Inr g)"
  shows "gn_pool_topics (go_node g) = {go_my_pool g}"
    "compute_pool_assignment (su_crypto W) (ns_nft_id config) (cs_batch c) (max (go_num_pools g) 1) = Some (go_my_pool g)"
proof -
  obtain n0 n1 n3 n4 q1 pools where n: "gossip_node_new (su_lib W) (su_swarm W secret) = Inr n0"
    "with_gossip_error (listen_on_port (su_lib W) (ns_gossip_port config) n0) = Some (Inr n1)"
    and pool: "compute_pool_assignment (su_crypto W) (ns_nft_id config) (cs_batch c) (max (go_num_pools g) 1) = Some (go_my_pool g)"
    and sub: "with_gossip_error (subscribe_pool (su_lib W) (go_my_pool g)
        (advertise_port (su_lib W) (su_env W ''GOSSIP_PORT'') (ns_gossip_port config) n1)) = Some (Inr n3)"
    and g: "go_node g = dial_extra_peers (su_lib W) (su_resolve W) (su_env W ''DEADMKT_DIAL_PEERS'')
        (dial_bootstrap_peers (su_lib W) (su_resolve W) (ns_bootstrap_peers config) n3)"
    using assms by (auto simp: open_gossip_def Let_def run_then_Inr run_ok_Inr bind_eq_Some_conv)
  have "gn_pool_topics n1 = {}"
    using n by (auto simp: with_gossip_error_Inr listen_on_port_def dest: gossip_node_new_pools)
  then have "gn_pool_topics n3 = {go_my_pool g}"
    using sub by (simp add: with_gossip_error_Inr subscribe_pool_def Let_def split_beta)
  then show "gn_pool_topics (go_node g) = {go_my_pool g}" by (simp add: g)
  show "compute_pool_assignment (su_crypto W) (ns_nft_id config) (cs_batch c) (max (go_num_pools g) 1) = Some (go_my_pool g)"
    by (rule pool)
qed

lemma start_node_parts:
  assumes "start_node W mode = Some (Inr r)"
  obtains q money g supra markets where
    "open_node W mode = Some (Inr (st_config r, st_keys r))"
    "read_chain W (client_new (ns_rpc_urls (st_config r)) (ca_settlement (ns_contracts (st_config r))))
       (client_new (ns_rpc_urls (st_config r)) (ca_pool_config (ns_contracts (st_config r)))) = Some (Inr (st_chain r))"
    "open_gossip W (fst (st_keys r)) (st_config r) (st_chain r) = Some (Inr g)"
    "st_loop r = starting_loop (st_config r) (st_chain r) (st_money r) g supra markets"
    "st_task r = task_start (go_node g)"
    "st_liveness r = (starting_liveness (go_interval g) (go_timeout g) (fst (lv_chain (st_liveness r)))
        (fst (go_pool_client g)))\<lparr>lv_chain := lv_chain (st_liveness r), lv_pool := go_pool_client g\<rparr>"
proof -
  obtain config keys c q money g where s: "open_node W mode = Some (Inr (config, keys))"
    "read_chain W (client_new (ns_rpc_urls config) (ca_settlement (ns_contracts config)))
       (client_new (ns_rpc_urls config) (ca_pool_config (ns_contracts config))) = Some (Inr c)"
    "open_gossip W (fst keys) config c = Some (Inr g)" "start_loop W config keys c q money g = Some (Inr r)"
    using assms by (auto simp: start_node_def Let_def run_then_Inr bind_eq_Some_conv)
  from s(4) obtain q4 supra markets claim where
    "r = \<lparr>st_config = config, st_keys = keys, st_chain = c, st_money = money, st_task = task_start (go_node g),
              st_liveness = (starting_liveness (go_interval g) (go_timeout g) (fst q4) (fst (go_pool_client g)))\<lparr>lv_chain := q4, lv_pool := go_pool_client g\<rparr>,
              st_token = strategy_token (su_env W) config, st_claim = claim, st_submitter = starting_submitter W (fst keys) config,
              st_loop = starting_loop config c money g supra markets, st_relay_only = relay_only (su_env W)\<rparr>"
    by (auto simp: start_loop_def bind_eq_Some_conv)
  with s show thesis by (intro that [of g supra markets]) simp_all
qed

lemma starting_gas_prints: "gm_factor (gm_decimals (starting_gas supra)) \<noteq> 0"
  by (simp add: starting_gas_def gm_new_def gm_factor_def update_balance_def Let_def split: option.split)

text \<open>
  C11. A start that succeeds makes a node that runs: the main loop begins at the batch and phase of the block it
  read, its pool is the one the chain's numbers give, the gossip task is subscribed to that pool and no
  other, and the heartbeat interval is positive. And no sequence of blocks makes the main loop
  panic that starts there, under the conditions of C8: a total order encoding and 32-byte digests,
  token decimals for which no price divisor is zero, polls that answer with settlements, unknown
  events or an error, refreshed parameters with a positive batch length, and requests to the chain
  and sends to the strategy that return.
\<close>

theorem start_makes_running_node:
  assumes "start_node W mode = Some (Inr r)"
  shows "compute_batch_id (lp_last_block (st_loop r)) (lp_epoch (st_loop r)) (lp_params (st_loop r)) = Some (lp_last_batch (st_loop r))
    \<and> compute_phase (lp_last_block (st_loop r)) (lp_epoch (st_loop r)) (lp_params (st_loop r)) = Some (lp_last_phase (st_loop r))
    \<and> gn_pool_topics (gt_node (st_task r)) = {lp_my_pool (st_loop r)}
    \<and> compute_pool_assignment (su_crypto W) (ns_nft_id (st_config r)) (lp_last_batch (st_loop r)) (max (lp_num_pools (st_loop r)) 1)
        = Some (lp_my_pool (st_loop r))
    \<and> 0 < lv_interval (st_liveness r)
    \<and> (crypto_total C \<and> decimals_ok (nc_token_decimals (loop_config r)) \<and> list_all settlements_only Is \<and> list_all refresh_alive Is \<and> list_all calls_return Is
        \<longrightarrow> run_blocks C (loop_config r) Is (st_loop r) \<noteq> None)"
proof -
  obtain g supra markets where s:
    "read_chain W (client_new (ns_rpc_urls (st_config r)) (ca_settlement (ns_contracts (st_config r))))
       (client_new (ns_rpc_urls (st_config r)) (ca_pool_config (ns_contracts (st_config r)))) = Some (Inr (st_chain r))"
    "open_gossip W (fst (st_keys r)) (st_config r) (st_chain r) = Some (Inr g)"
    and l: "st_loop r = starting_loop (st_config r) (st_chain r) (st_money r) g supra markets"
    and t: "st_task r = task_start (go_node g)"
    and v: "lv_interval (st_liveness r) = lv_interval (starting_liveness (go_interval g) (go_timeout g) (fst (lv_chain (st_liveness r))) (fst (go_pool_client g)))"
    using start_node_parts [OF assms] by (metis (no_types, lifting) liveness.select_convs(1) liveness.update_convs(7) liveness.update_convs(8) liveness.surjective)
  note c = read_chain_alive [OF s(1)] and o = open_gossip_pools [OF s(2)]
  have "clock_alive (st_loop r)"
    using c(1) by (simp add: l starting_gas_prints clock_alive_def bridge_alive_def starting_loop_def orchestrator_new_def batch_bridge_new_def Let_def)
  then have "run_blocks C (loop_config r) Is (st_loop r) \<noteq> None"
    if "crypto_total C" "decimals_ok (nc_token_decimals (loop_config r))" "list_all settlements_only Is" "list_all refresh_alive Is"
      "list_all calls_return Is"
    using run_total [OF that(1,2) _ that(3,4,5)] by auto
  then show ?thesis using c o by (simp add: l t v starting_loop_def task_start_def Let_def starting_liveness_def clamped_positive)
qed

section \<open>A start\<close>

text \<open>A server that answers every request with one text: the pool contract's is a list of numbers, the other
  contracts' is no JSON.\<close>

definition constant_world :: "json option \<Rightarrow> query_world" where
  "constant_world j = \<lparr>qw_parse = (\<lambda>_. j), qw_view = (\<lambda>_ _ _ _. Inr example_reply),
     qw_ratio = (\<lambda>_ _ _. []), qw_scaled = (\<lambda>_ _. []), qw_json_text = (\<lambda>_. []), qw_sha3 = (\<lambda>_. [])\<rparr>"

definition example_numbers :: json where
  "example_numbers = JArray (map JString [''1'', ''1'', ''0'', ''0'', ''0'', ''3''])"

definition live_client :: "supra_client \<times> nat \<Rightarrow> bool" where
  "live_client st = (cl_endpoints (fst st) \<noteq> [] \<and> cl_max_retries (fst st) = 3)"

definition one_call :: "supra_client \<times> nat \<Rightarrow> supra_client \<times> nat" where
  "one_call st = (advanced 1 (fst st), Suc (snd st))"

lemma live_one_call [simp]: "live_client (one_call st) = live_client st"
  by (simp add: live_client_def one_call_def advanced_def)

lemma example_ask:
  assumes "live_client st"
  shows "ask_absolute (constant_world (Some (JArray xs))) function types args st = Some (one_call st, Inr (JArray xs))"
    "ask_view (constant_world (Some (JArray xs))) module function' args st = Some (one_call st, Inr (JArray xs))"
    "ask_absolute (constant_world None) function types args st = Some (one_call st, Inl (RpcDeserializationError ''[]''))"
    "ask_view (constant_world None) module function' args st = Some (one_call st, Inl (RpcDeserializationError ''[]''))"
proof -
  have "judge_view (\<lambda>_. Some (JArray xs)) (Inr example_reply) = Some (Return (Inr (JArray xs)))"
    "judge_view (\<lambda>_. None) (Inr example_reply) = Some (Return (Inl (RpcDeserializationError ''[]'')))"
    by (simp_all add: judge_view_def check_response_limit_def example_reply_def parse_response_def unwrap_result_def)
  with assms show "ask_absolute (constant_world (Some (JArray xs))) function types args st = Some (one_call st, Inr (JArray xs))"
    "ask_view (constant_world (Some (JArray xs))) module function' args st = Some (one_call st, Inr (JArray xs))"
    "ask_absolute (constant_world None) function types args st = Some (one_call st, Inl (RpcDeserializationError ''[]''))"
    "ask_view (constant_world None) module function' args st = Some (one_call st, Inl (RpcDeserializationError ''[]''))"
    by (cases st; simp add: ask_absolute_def ask_view_def view_raw_def view_absolute_def numeral_eq_Suc next_endpoint_some
        constant_world_def live_client_def one_call_def)+
qed

definition example_start_settings :: node_settings where
  "example_start_settings = example_settings\<lparr>ns_markets := [], ns_bootstrap_peers := []\<rparr>"

definition example_startup :: "string list startup_world" where
  "example_startup = \<lparr>su_env = (\<lambda>_. None), su_config = Inr ''c'', su_keystore = Some (Inr ''k''), su_stdin = Inl [],
     su_crypto = wire_crypto, su_vault = example_vault, su_codec = example_codec, su_production = False,
     su_parse = (\<lambda>t. if t = ''c'' then Some (settings_json example_start_settings)
        else if t = ''k'' then Some (insecure_json \<lparr>ik_mode = ''insecure'', ik_secret_key = hex_encode (replicate 32 3), ik_public_key = []\<rparr>)
        else Some (JObject [(''height'', JInt 5)])),
     su_ledger = (\<lambda>_. Inr example_reply), su_chain = constant_world None, su_pool = constant_world (Some example_numbers),
     su_seed = (\<lambda>_ _. None), su_lib = example_swarm_lib, su_swarm = (\<lambda>_. Inr []), su_resolve = (\<lambda>_. Inr []),
     su_server = (\<lambda>_. Inr ()), su_now = 0\<rparr>"

lemma example_open: "\<exists>keys. open_node example_startup KsInsecure = Some (Inr (example_start_settings, keys))"
proof -
  have "settings_wf example_start_settings" "backfill_contracts example_start_settings = example_start_settings"
    using example_settings_wf
    by (simp_all add: example_start_settings_def settings_wf_def example_settings_def settings_new_def apply_env_empty
        backfill_contracts_def default_contract_addresses_def all_contracts_def backfill_def Let_def)
  then have "load_settings (su_parse example_startup) (su_env example_startup) (su_config example_startup) = Inr example_start_settings"
    by (simp add: load_settings_def example_startup_def settings_roundtrip apply_env_empty)
  moreover have "shown_address (ns_trustee_address example_start_settings) \<noteq> None"
    by (simp add: shown_address_def char_boundary_def example_start_settings_def example_settings_def settings_new_def
        apply_env_empty continuation_byte_def)
  ultimately show ?thesis
    by (auto simp: open_node_def run_then_def run_ok_def unlock_keystore_def load_keystore_insecure_def read_json_def example_startup_def
        hex_field_def opened_key_def)
qed

abbreviation "example_pool \<equiv> constant_world (Some example_numbers)"
abbreviation "example_start_params \<equiv> \<lparr>blocks_per_batch = 1, commit_blocks = 1, reveal_blocks = 0, match_blocks = 0,
   swap_blocks = 0, commits_per_batch = 3\<rparr>"
abbreviation "example_start_epoch \<equiv> \<lparr>anchor_block = 1, anchor_batch_id = 1\<rparr>"

lemma example_number_texts: "parse_u64 ''1'' = Some 1" "parse_u64 ''0'' = Some 0" "parse_u64 ''3'' = Some 3"
  by (simp_all add: parse_u64_def parse_digits_def char_digit_def)

lemma example_elements:
  "element_u64 example_numbers 0 = Inr 1" "element_u64 example_numbers 1 = Inr 1" "element_u64 example_numbers 2 = Inr 0"
  "element_u64 example_numbers 3 = Inr 0" "element_u64 example_numbers 4 = Inr 0" "element_u64 example_numbers 5 = Inr 3"
  by (simp_all add: element_u64_def get_element_def view_u64_def number_of_str_def example_number_texts example_numbers_def)

lemma constant_fetch:
  assumes "live_client st"
  shows "fetch_batch_params example_pool st = Some (one_call st, Inr example_start_params)"
    "fetch_batch_epoch example_pool st = Some (one_call st, Inr example_start_epoch)"
    "fetch_setting example_pool function shape st = Some (one_call st, Inr 1)"
proof -
  have "ask_view example_pool module function' args st = Some (one_call st, Inr example_numbers)" for module function' args
    using example_ask(2) [OF assms] by (simp add: example_numbers_def)
  moreover have "batch_params_from_view example_numbers = Inr example_start_params"
  proof -
    have "Option.bind (jindex 0 example_numbers) as_object = None" by (simp add: example_numbers_def)
    then show ?thesis
      by (simp add: batch_params_from_view_def params_of_array_def example_elements [unfolded One_nat_def])
  qed
  moreover have "batch_epoch_from_view example_numbers = Inr example_start_epoch"
    by (simp add: batch_epoch_from_view_def example_elements [unfolded One_nat_def])
  moreover have "text_number shape (Inr example_numbers) = Inr 1"
    by (simp add: text_number_def example_numbers_def example_number_texts)
  ultimately show "fetch_batch_params example_pool st = Some (one_call st, Inr example_start_params)"
    "fetch_batch_epoch example_pool st = Some (one_call st, Inr example_start_epoch)"
    "fetch_setting example_pool function shape st = Some (one_call st, Inr 1)"
    by (simp_all add: fetch_batch_params_def fetch_batch_epoch_def fetch_setting_def then_ask_def answer_def)
qed

lemma constant_clock:
  "compute_batch_id 5 example_start_epoch example_start_params = Some 5"
  "compute_phase 5 example_start_epoch example_start_params = Some Commit"
  by code_simp+

lemma example_read_chain:
  assumes "live_client (pool_client, 0)" "cl_endpoints chain \<noteq> []"
  shows "\<exists>c. read_chain example_startup chain pool_client = Some (Inr c) \<and> live_client (cs_pool_client c)"
proof -
  have "get_ledger_info (su_parse example_startup) (su_ledger example_startup) chain = Some (Inr \<lparr>li_block_height = 5, li_ledger_timestamp = 0\<rparr>)"
    using assms(2) by (simp add: get_ledger_info_def current_base_def endpoint_at_def example_startup_def example_reply_def
        check_response_limit_def parse_response_def ledger_of_json_def number_or_text_def)
  moreover have "su_pool example_startup = example_pool" by (simp add: example_startup_def)
  ultimately show ?thesis using assms(1)
    by (simp add: read_chain_def run_then_def ask_fallible_def constant_fetch constant_clock check_version_def
        fetch_protocol_version_def PROTOCOL_VERSION_def)
qed

lemma example_dead_ask:
  assumes "live_client st"
  shows "fetch_mint_state (constant_world None) a st = Some (one_call st, \<lparr>ms_state = ''UNKNOWN'', ms_hold_duration_secs = 0,
      ms_period_end = 0, ms_block_end = 0, ms_has_pending_mint = False, ms_pending_claimable_at = 0\<rparr>)"
    "fetch_circulating_supply (constant_world None) ds st = Some (one_call st, [])"
    "fetch_vault_locks (constant_world None) a ds st = Some (one_call st, [])"
    "fetch_pending_mint_full (constant_world None) a st = Some (one_call st, None)"
    "fetch_supra_balance (constant_world None) a st = Some (one_call st, None)"
    "fetch_global_min (constant_world None) st = Some (one_call st, 0)"
    "\<exists>m. fetch_wallet_balances (constant_world None) a contract ds st = Some (one_call (one_call (one_call st)), m)"
  using assms by (simp_all add: fetch_mint_state_def fetch_circulating_supply_def fetch_vault_locks_def fetch_pending_mint_full_def
      ask_pending_def fetch_supra_balance_def fetch_global_min_def fetch_wallet_balances_def token_seeds_def then_ask_def answer_def example_ask)

lemma example_read_money:
  assumes "live_client st" "ns_markets config = []"
  shows "\<exists>st' money. read_money example_startup config st = Some (st', money) \<and> live_client st'"
proof -
  obtain m where "fetch_wallet_balances (constant_world None) (ns_trustee_address config) (ca_settlement (ns_contracts config)) [] st
      = Some (one_call (one_call (one_call st)), m)"
    using example_dead_ask(7) [OF assms(1)] by blast
  moreover have "su_chain example_startup = constant_world None" by (simp add: example_startup_def)
  ultimately show ?thesis using assms
    by (simp add: read_money_def Let_def then_ask_def answer_def fetch_token_decimals_def fetch_escrow_balances_def example_dead_ask del: split_paired_Ex)
qed

lemma example_open_gossip:
  assumes "live_client (cs_pool_client c)" "ns_bootstrap_peers config = []"
  shows "\<exists>g. open_gossip example_startup secret config c = Some (Inr g)"
proof -
  have "su_pool example_startup = example_pool" "su_lib example_startup = example_swarm_lib" "su_env example_startup = (\<lambda>_. None)"
    "su_swarm example_startup secret = Inr []"
    by (simp_all add: example_startup_def)
  moreover have "compute_pool_assignment C nft b 1 = Some 0" for C nft b
    by (simp add: compute_pool_assignment_def Let_def checked_rem_def)
  moreover have "snd (listen_on_port example_swarm_lib port n) = Inr ()" "snd (subscribe_pool example_swarm_lib p n) = Inr ()" for port p n
    by (simp_all add: listen_on_port_def subscribe_pool_def on_swarm_def example_swarm_lib_def split_beta Let_def)
  ultimately show ?thesis using assms
    by (simp add: open_gossip_def Let_def run_then_def run_ok_def with_gossip_error_def example_gossip_start fetch_num_pools_def
        fetch_heartbeat_interval_def fetch_heartbeat_timeout_def constant_fetch dial_bootstrap_peers_def dial_extra_peers_def)
qed

lemma example_start: "\<exists>r. start_node example_startup KsInsecure = Some (Inr r)"
proof -
  let ?s = example_start_settings
  let ?chain = "client_new (ns_rpc_urls ?s) (ca_settlement (ns_contracts ?s))"
  let ?pool = "client_new (ns_rpc_urls ?s) (ca_pool_config (ns_contracts ?s))"
  have s: "ns_markets ?s = []" "ns_bootstrap_peers ?s = []" "ns_rpc_urls ?s \<noteq> []"
    by (simp_all add: example_start_settings_def example_settings_def settings_new_def apply_env_empty default_rpc_urls_def)
  then have live: "live_client (?pool, 0)" "live_client (?chain, 0)" "cl_endpoints ?chain \<noteq> []"
    by (simp_all add: live_client_def client_new_def)
  obtain keys where o: "open_node example_startup KsInsecure = Some (Inr (?s, keys))" using example_open by blast
  obtain c where c: "read_chain example_startup ?chain ?pool = Some (Inr c)" "live_client (cs_pool_client c)"
    using example_read_chain [OF live(1,3)] by blast
  obtain st money where m: "read_money example_startup ?s (?chain, 0) = Some (st, money)" "live_client st"
    using example_read_money [OF live(2) s(1)] by blast
  obtain g where g: "open_gossip example_startup (fst keys) ?s c = Some (Inr g)"
    using example_open_gossip [OF c(2) s(2)] by blast
  have "su_chain example_startup = constant_world None" "su_server example_startup = (\<lambda>_. Inr ())"
    by (simp_all add: example_startup_def)
  moreover have "balance_display (starting_gas None) \<noteq> None"
    by (simp add: starting_gas_def balance_display_def gm_new_def gm_factor_def checked_div_def checked_rem_def)
  ultimately show ?thesis using s(1) o c m g
    by (auto simp: start_node_def Let_def run_then_def run_ok_def start_loop_def pending_claim_def example_dead_ask answer_def)
qed

lemma start_makes_running_node_witness:
  "\<exists>r. start_node example_startup KsInsecure = Some (Inr r) \<and> gn_pool_topics (gt_node (st_task r)) = {lp_my_pool (st_loop r)}"
proof -
  obtain r where r: "start_node example_startup KsInsecure = Some (Inr r)" using example_start by blast
  with start_makes_running_node [OF r] show ?thesis by blast
qed

end
