(* ===== verification/ActionCommands.thy ===== *)
theory ActionCommands
  imports SetupBridge Keystore
begin

text \<open>
  The action commands of \<open>src/main.rs\<close> with their arguments (\<open>src/cli.rs\<close>): withdrawals, burns, the exit
  of a pair, and the token of the strategy. A command ends the process: the model gives its exit code,
  the envelope it built, what it showed (\<open>Inr\<close> on the standard output, \<open>Inl\<close> on the error output), the
  transactions it submitted and the configuration it wrote. What it reads is the record
  \<open>command_world\<close>; \<open>None\<close> is a panic. The display texts of errors are parameters.
\<close>

section \<open>Arguments\<close>

datatype withdraw_action = Rushed | RequestRushed | CancelRushed | ClaimAll | StartHolding | CancelHolding

datatype burn_target = ToEscrow | ToPayout

datatype burn_pair_action = PairRequest | PairExecute | PairPreview

text \<open>The flags of a sub-action; a preview takes no password.\<close>

record action_flags =
  fl_json :: bool
  fl_password_stdin :: bool

definition pair_password_stdin :: "burn_pair_action \<Rightarrow> action_flags \<Rightarrow> bool" where
  "pair_password_stdin action fl = (case action of PairPreview \<Rightarrow> False | _ \<Rightarrow> fl_password_stdin fl)"

section \<open>World and outcome\<close>

record command_world =
  cw_env :: environment
  cw_config :: "string + string"
  cw_keystore :: stored_file
  cw_stdin :: "string + string"
  cw_codec :: bridge_codec
  cw_vault :: vault
  cw_production :: bool
  cw_submit :: submit_world
  cw_view :: view_server
  cw_now :: u64
  cw_token :: string
  cw_write_error :: "string \<Rightarrow> config_error option"
  cw_print :: "json \<Rightarrow> string"
  cw_setup_text :: "setup_error \<Rightarrow> string"
  cw_config_text :: "config_error \<Rightarrow> string"
  cw_keystore_text :: "keystore_error \<Rightarrow> string"
  cw_supra :: "u64 \<Rightarrow> string"

abbreviation cw_parse :: "command_world \<Rightarrow> string \<Rightarrow> json option" where
  "cw_parse W \<equiv> bc_parse (cw_codec W)"

record command_result =
  co_exit :: nat
  co_envelope :: json
  co_shown :: "string + string"
  co_sent :: "chain_tx list"
  co_config :: "string option"

section \<open>The envelope\<close>

record action_builder =
  ab_command :: string
  ab_fields :: json

definition success_tx :: "u64 \<Rightarrow> action_builder \<Rightarrow> tx_result_info \<Rightarrow> json" where
  "success_tx ts b tx = JObject [(''schema_version'', JString ''v1''), (''command'', JString (ab_command b)),
     (''success'', JBool True), (''timestamp_unix'', jnum ts), (''tx_hash'', JString (ti_tx_hash tx)),
     (''gas_used'', jnum (ti_gas_used tx)), (''vm_status'', JString (ti_vm_status tx)), (''fields'', ab_fields b)]"

definition success_read_only :: "u64 \<Rightarrow> action_builder \<Rightarrow> json" where
  "success_read_only ts b = JObject [(''schema_version'', JString ''v1''), (''command'', JString (ab_command b)),
     (''success'', JBool True), (''timestamp_unix'', jnum ts), (''fields'', ab_fields b)]"

definition action_failure :: "u64 \<Rightarrow> action_builder \<Rightarrow> string \<Rightarrow> string \<Rightarrow> json" where
  "action_failure ts b step error = JObject [(''schema_version'', JString ''v1''), (''command'', JString (ab_command b)),
     (''success'', JBool False), (''timestamp_unix'', jnum ts), (''error'', JString error),
     (''step'', JString step), (''fields'', ab_fields b)]"

text \<open>The error as the plain output shows it: read back from the printed envelope.\<close>

definition error_of_envelope :: "command_world \<Rightarrow> json \<Rightarrow> string" where
  "error_of_envelope W body = or_default [] (Option.bind (cw_parse W (cw_print W body)) (str_field ''error''))"

definition ended :: "nat \<Rightarrow> json \<Rightarrow> string + string \<Rightarrow> chain_tx list \<Rightarrow> command_result" where
  "ended code body shown sent = \<lparr>co_exit = code, co_envelope = body, co_shown = shown, co_sent = sent, co_config = None\<rparr>"

definition emit_action_failure :: "command_world \<Rightarrow> action_builder \<Rightarrow> string \<Rightarrow> string \<Rightarrow> bool \<Rightarrow> command_result" where
  "emit_action_failure W b step error as_json =
     (let body = action_failure (cw_now W) b step error
      in ended 1 body (if as_json then Inr (cw_print W body)
           else Inl (ab_command b @ '' failed at '' @ step @ '': '' @ error_of_envelope W body)) [])"

definition emit_action_tx_result ::
  "command_world \<Rightarrow> action_builder \<Rightarrow> chain_tx \<Rightarrow> setup_error + tx_result_info \<Rightarrow> bool \<Rightarrow> command_result" where
  "emit_action_tx_result W b sent r as_json =
     (case r of
        Inr tx \<Rightarrow>
          (if ti_success tx then
            (let body = success_tx (cw_now W) b tx
             in ended 0 body (Inr (if as_json then cw_print W body
                  else ab_command b @ '' succeeded (tx='' @ ti_tx_hash tx @ '', gas='' @ u64_str (ti_gas_used tx) @ '')'')) [sent])
           else
            (let body = action_failure (cw_now W) b ''await_tx'' (ti_vm_status tx)
             in ended 1 body (if as_json then Inr (cw_print W body)
                  else Inl (ab_command b @ '' failed: '' @ ti_vm_status tx @ '' (tx='' @ ti_tx_hash tx @ '')'')) [sent]))
      | Inl e \<Rightarrow>
          (let body = action_failure (cw_now W) b ''submit_tx'' (cw_setup_text W e)
           in ended 1 body (if as_json then Inr (cw_print W body)
                else Inl (ab_command b @ '' error: '' @ error_of_envelope W body)) [sent]))"

section \<open>Password and client\<close>

text \<open>One line of the standard input; the empty line is its end.\<close>

definition password_line :: "string \<Rightarrow> string + string \<Rightarrow> string + string" where
  "password_line closed stdin =
     (case stdin of
        Inl e \<Rightarrow> Inl (''read stdin: '' @ e)
      | Inr line \<Rightarrow>
          if line = [] then Inl closed
          else if trim_newlines line = [] then Inl ''empty password''
          else Inr (trim_newlines line))"

definition prompt_keystore_password :: "string + string \<Rightarrow> string + string" where
  "prompt_keystore_password = password_line ''stdin closed without password input (need a TTY or piped password)''"

definition read_action_password :: "bool \<Rightarrow> string + string \<Rightarrow> string + string" where
  "read_action_password from_stdin =
     (if from_stdin then password_line ''stdin closed without password input'' else prompt_keystore_password)"

text \<open>\<open>detect_keystore_mode(..).unwrap_or(Missing)\<close>\<close>

definition keystore_mode_of :: "(string \<Rightarrow> json option) \<Rightarrow> stored_file \<Rightarrow> keystore_mode" where
  "keystore_mode_of parse file = (case detect_keystore_mode parse file of Inl _ \<Rightarrow> KsMissing | Inr m \<Rightarrow> m)"

definition unlock_for_action :: "command_world \<Rightarrow> bool \<Rightarrow> ((string \<times> string) + (bytes \<times> bytes)) option" where
  "unlock_for_action W from_stdin =
     (let C = bc_crypto (cw_codec W); failed = map_err (\<lambda>e. (''unlock_keystore'', cw_keystore_text W e))
      in case keystore_mode_of (cw_parse W) (cw_keystore W) of
           KsInsecure \<Rightarrow> Some (failed (load_keystore_insecure C (cw_production W) (cw_parse W) (cw_keystore W)))
         | KsEncrypted \<Rightarrow>
            (case read_action_password from_stdin (cw_stdin W) of
               Inl e \<Rightarrow> Some (Inl (''prompt_password'', e))
             | Inr password \<Rightarrow> map_option failed (load_keystore C (cw_vault W) (cw_parse W) (cw_keystore W) password))
         | KsMissing \<Rightarrow> Some (Inl (''unlock_keystore'', ''no keystore found -- run `deadmkt-node setup` first'')))"

text \<open>The client signs for the chain of the network, not for the chain id of the configuration.\<close>

definition action_client :: "command_world \<Rightarrow> node_settings \<Rightarrow> bytes \<times> bytes \<Rightarrow> setup_client" where
  "action_client W config keys =
     (let rpc_url = (case ns_rpc_urls config of [] \<Rightarrow> ''https://rpc-testnet.supra.com'' | url # _ \<Rightarrow> url)
      in bridge_set_signer (cw_codec W) (fst keys) (snd keys) (ns_trustee_address config)
           (bridge_gas_config (network_chain_id (ns_network config)) (ns_max_gas_amount config) (ns_gas_unit_price config)
             (setup_client_new (cw_codec W) (cw_env W) [rpc_url] (ca_escrow (ns_contracts config)))))"

definition mr3_load_signed_chain ::
  "command_world \<Rightarrow> bool \<Rightarrow> ((string \<times> string) + (node_settings \<times> setup_client)) option" where
  "mr3_load_signed_chain W from_stdin =
     (case load_settings (cw_parse W) (cw_env W) (cw_config W) of
        Inl e \<Rightarrow> Some (Inl (''load_config'', cw_config_text W e))
      | Inr config \<Rightarrow>
          map_option (\<lambda>r. res_bind r (\<lambda>keys. Inr (config, action_client W config keys))) (unlock_for_action W from_stdin))"

section \<open>Transactions\<close>

text \<open>A command that submits one transaction: \<open>early\<close> is the envelope before the client is up, \<open>late\<close> the one
  made from the configuration.\<close>

definition run_transaction ::
  "command_world \<Rightarrow> action_builder \<Rightarrow> (node_settings \<Rightarrow> action_builder) \<Rightarrow> (node_settings \<Rightarrow> chain_tx) \<Rightarrow> action_flags
     \<Rightarrow> command_result option" where
  "run_transaction W early late tx fl =
     Option.bind (mr3_load_signed_chain W (fl_password_stdin fl)) (\<lambda>r. case r of
         Inl (step, e) \<Rightarrow> Some (emit_action_failure W early step e (fl_json fl))
       | Inr (config, chain) \<Rightarrow>
           map_option (\<lambda>res. emit_action_tx_result W (late config) (tx config) res (fl_json fl))
             (bridge_submit (cw_codec W) (cw_submit W) (tx config) chain))"

definition withdraw_name :: "withdraw_action \<Rightarrow> string" where
  "withdraw_name action = (case action of
     Rushed \<Rightarrow> ''withdraw-rushed'' | RequestRushed \<Rightarrow> ''withdraw-request-rushed''
   | CancelRushed \<Rightarrow> ''withdraw-cancel-rushed'' | ClaimAll \<Rightarrow> ''withdraw-claim-all''
   | StartHolding \<Rightarrow> ''withdraw-start-holding'' | CancelHolding \<Rightarrow> ''withdraw-cancel-holding'')"

definition withdraw_tx :: "withdraw_action \<Rightarrow> node_settings \<Rightarrow> chain_tx" where
  "withdraw_tx action config = (let nft = ns_nft_id config in case action of
     Rushed \<Rightarrow> SubmitRushedWithdrawalAsSupra nft (ns_payout_address config)
   | RequestRushed \<Rightarrow> SubmitRequestRushedWithdrawal nft
   | CancelRushed \<Rightarrow> SubmitCancelRushedWithdrawal nft
   | ClaimAll \<Rightarrow> SubmitClaimAllAsSupra nft (ns_payout_address config)
   | StartHolding \<Rightarrow> SubmitStartHoldingPeriod nft
   | CancelHolding \<Rightarrow> SubmitCancelHoldingPeriod nft)"

definition withdraw_fields :: "withdraw_action \<Rightarrow> node_settings \<Rightarrow> json" where
  "withdraw_fields action config =
     JObject ((''nft_id'', jnum (ns_nft_id config)) #
       (if action \<in> {StartHolding, CancelHolding}
        then [(''holding_period_days'', jnum (wc_holding_period_days (ns_withdrawal_rules config)))] else []))"

definition run_mr3_withdraw :: "command_world \<Rightarrow> withdraw_action \<Rightarrow> action_flags \<Rightarrow> command_result option" where
  "run_mr3_withdraw W action fl =
     (let named = \<lambda>fields. \<lparr>ab_command = withdraw_name action, ab_fields = fields\<rparr>
      in run_transaction W (named (JObject [])) (\<lambda>config. named (withdraw_fields action config)) (withdraw_tx action) fl)"

definition burn_builder :: "burn_target \<Rightarrow> u64 \<Rightarrow> action_builder" where
  "burn_builder target amount = (case target of
     ToEscrow \<Rightarrow> \<lparr>ab_command = ''burn-to-escrow'', ab_fields = JObject [(''to'', JString ''escrow''), (''amount'', jnum amount)]\<rparr>
   | ToPayout \<Rightarrow> \<lparr>ab_command = ''burn-for-profit'', ab_fields = JObject [(''to'', JString ''payout''), (''amount'', jnum amount)]\<rparr>)"

definition burn_tx :: "burn_target \<Rightarrow> u64 \<Rightarrow> node_settings \<Rightarrow> chain_tx" where
  "burn_tx target amount config = (case target of
     ToEscrow \<Rightarrow> SubmitBurnFromEscrow amount | ToPayout \<Rightarrow> SubmitBurnForProfit amount (ns_payout_address config))"

definition run_mr3_burn :: "command_world \<Rightarrow> burn_target \<Rightarrow> u64 \<Rightarrow> action_flags \<Rightarrow> command_result option" where
  "run_mr3_burn W target amount fl =
     run_transaction W (burn_builder target amount) (\<lambda>_. burn_builder target amount) (burn_tx target amount) fl"

section \<open>The exit of a pair\<close>

definition pair_no_config :: "command_world \<Rightarrow> config_error \<Rightarrow> action_flags \<Rightarrow> command_result" where
  "pair_no_config W e fl =
     (let body = action_failure (cw_now W) \<lparr>ab_command = ''burn-pair'', ab_fields = JObject []\<rparr> ''load_config'' (cw_config_text W e)
      in ended 1 body (if fl_json fl then Inr (cw_print W body)
           else Inl (''burn-pair: config load failed: '' @ cw_config_text W e)) [])"

definition nft_fields :: "node_settings \<Rightarrow> json" where
  "nft_fields config = JObject [(''nft_id'', jnum (ns_nft_id config))]"

definition preview_pair :: "command_world \<Rightarrow> node_settings \<Rightarrow> action_flags \<Rightarrow> command_result option" where
  "preview_pair W config fl =
     (let name = ''burn-pair-preview'';
          client = setup_client_new (cw_codec W) (cw_env W) (ns_rpc_urls config) (ca_settlement (ns_contracts config))
      in map_option (\<lambda>(_, r). case r of
             Inr refund \<Rightarrow>
               (let supra = cw_supra W refund;
                    body = success_read_only (cw_now W) \<lparr>ab_command = name, ab_fields = JObject [(''nft_id'', jnum (ns_nft_id config)),
                       (''preview_refund_raw'', jnum refund), (''preview_refund_supra'', JFloat supra)]\<rparr>
                in ended 0 body (Inr (if fl_json fl then cw_print W body
                     else ''Preview refund for NFT #'' @ u64_str (ns_nft_id config) @ '': '' @ supra @ '' SUPRA (''
                       @ u64_str refund @ '' raw)'')) [])
           | Inl e \<Rightarrow>
               (let body = action_failure (cw_now W) \<lparr>ab_command = name, ab_fields = nft_fields config\<rparr> ''preview_view_call'' (cw_setup_text W e)
                in ended 1 body (if fl_json fl then Inr (cw_print W body)
                     else Inl (''burn-pair preview failed: '' @ cw_setup_text W e)) []))
           (preview_burn_refund (cw_codec W) (cw_view W) (ns_nft_id config) client))"

definition refuse_request :: "command_world \<Rightarrow> node_settings \<Rightarrow> action_flags \<Rightarrow> command_result" where
  "refuse_request W config fl =
     (let body = action_failure (cw_now W) \<lparr>ab_command = ''burn-pair-request'', ab_fields = nft_fields config\<rparr> ''no_longer_supported''
            (''DMKT14 removed the burn-exit request step. Burn-exit is now a '' @
             ''single trustee-signed call -- use `deadmkt-node burn-pair execute`.'')
      in ended 2 body (if fl_json fl then Inr (cw_print W body)
           else Inl (''burn-pair request: removed in DMKT14. Use '' @
             ''`deadmkt-node burn-pair execute` (single trustee-signed call).'')) [])"

definition execute_builder :: "node_settings \<Rightarrow> action_builder" where
  "execute_builder config = \<lparr>ab_command = ''burn-pair-execute'',
     ab_fields = JObject [(''nft_id'', jnum (ns_nft_id config)), (''recipient'', JString (ns_payout_address config))]\<rparr>"

text \<open>The configuration is read twice: for the envelope, and for the transaction.\<close>

definition run_burn_pair :: "command_world \<Rightarrow> burn_pair_action \<Rightarrow> action_flags \<Rightarrow> command_result option" where
  "run_burn_pair W action fl =
     (case load_settings (cw_parse W) (cw_env W) (cw_config W) of
        Inl e \<Rightarrow> Some (pair_no_config W e fl)
      | Inr config \<Rightarrow>
         (case action of
            PairPreview \<Rightarrow> preview_pair W config fl
          | PairRequest \<Rightarrow> Some (refuse_request W config fl)
          | PairExecute \<Rightarrow>
              run_transaction W (execute_builder config) (\<lambda>_. execute_builder config)
                (\<lambda>c. SubmitBurnTrusteeNft (ns_nft_id c) (ns_payout_address c))
                (fl\<lparr>fl_password_stdin := pair_password_stdin action fl\<rparr>)))"

section \<open>The token of the strategy\<close>

definition token_fields :: "node_settings \<Rightarrow> bool \<Rightarrow> json" where
  "token_fields config requires_restart =
     JObject [(''strategy_url'', JString (''ws://127.0.0.1:'' @ nat_str (unat (ns_strategy_port config)))),
       (''strategy_port'', jnum (ns_strategy_port config)), (''strategy_auth_token'', JString (ns_strategy_auth_token config)),
       (''auth_token_length'', JInt (int (length (ns_strategy_auth_token config)))), (''requires_restart'', JBool requires_restart)]"

definition token_shown :: "node_settings \<Rightarrow> bool \<Rightarrow> string" where
  "token_shown config requires_restart =
     ''Strategy bridge config:'' @ [CHR 0x0A] @ ''  URL:        ws://127.0.0.1:'' @ nat_str (unat (ns_strategy_port config)) @ [CHR 0x0A]
     @ ''  Port:       '' @ nat_str (unat (ns_strategy_port config)) @ [CHR 0x0A]
     @ ''  Auth token: '' @ ns_strategy_auth_token config @ '' ('' @ nat_str (length (ns_strategy_auth_token config)) @ '' chars)''
     @ (if requires_restart then [CHR 0x0A, CHR 0x0A] @ ''  Token rotated. Restart the node to apply.'' else [])"

definition show_token :: "command_world \<Rightarrow> node_settings \<Rightarrow> bool \<Rightarrow> bool \<Rightarrow> string option \<Rightarrow> command_result" where
  "show_token W config rotated as_json written =
     (let body = success_read_only (cw_now W) \<lparr>ab_command = ''agent-config'', ab_fields = token_fields config rotated\<rparr>
      in (ended 0 body (Inr (if as_json then cw_print W body else token_shown config rotated)) [])\<lparr>co_config := written\<rparr>)"

definition run_mr3_agent_config :: "command_world \<Rightarrow> bool \<Rightarrow> bool \<Rightarrow> command_result" where
  "run_mr3_agent_config W rotate_token as_json =
     (let plain = \<lparr>ab_command = ''agent-config'', ab_fields = JObject []\<rparr>
      in case load_settings (cw_parse W) (cw_env W) (cw_config W) of
           Inl e \<Rightarrow> emit_action_failure W plain ''load_config'' (cw_config_text W e) as_json
         | Inr config \<Rightarrow>
            (if rotate_token then
               (let rotated = config\<lparr>ns_strategy_auth_token := cw_token W\<rparr>; text = save_settings (cw_print W) rotated
                in case cw_write_error W text of
                     Some e \<Rightarrow> emit_action_failure W (plain\<lparr>ab_fields := JObject [(''rotate_token'', JBool True)]\<rparr>)
                                 ''write_config'' (cw_config_text W e) as_json
                   | None \<Rightarrow> show_token W rotated True as_json (Some text))
             else show_token W config False as_json None))"

section \<open>The dispatch of the transaction commands\<close>

datatype tx_command =
    Withdraw withdraw_action
  | Burn burn_target u64
  | PairExit

fun run_tx_command :: "command_world \<Rightarrow> tx_command \<Rightarrow> action_flags \<Rightarrow> command_result option" where
  "run_tx_command W (Withdraw action) fl = run_mr3_withdraw W action fl"
| "run_tx_command W (Burn target amount) fl = run_mr3_burn W target amount fl"
| "run_tx_command W PairExit fl = run_burn_pair W PairExecute fl"

fun tx_of_command :: "tx_command \<Rightarrow> node_settings \<Rightarrow> chain_tx" where
  "tx_of_command (Withdraw action) config = withdraw_tx action config"
| "tx_of_command (Burn target amount) config = burn_tx target amount config"
| "tx_of_command PairExit config = SubmitBurnTrusteeNft (ns_nft_id config) (ns_payout_address config)"

section \<open>What the commands tell\<close>

text \<open>Whether the chain executed the transaction of a command, on the client it brings up.\<close>

definition executed :: "command_world \<Rightarrow> (node_settings \<Rightarrow> chain_tx) \<Rightarrow> bool \<Rightarrow> bool" where
  "executed W tx from_stdin =
     (case load_settings (cw_parse W) (cw_env W) (cw_config W) of
        Inl _ \<Rightarrow> False
      | Inr config \<Rightarrow>
         (case unlock_for_action W from_stdin of
            Some (Inr keys) \<Rightarrow>
              (case bridge_submit (cw_codec W) (cw_submit W) (tx config) (action_client W config keys) of
                 Some (Inr r) \<Rightarrow> ti_success r | _ \<Rightarrow> False)
          | _ \<Rightarrow> False))"

definition tells_truth :: "command_world \<Rightarrow> (node_settings \<Rightarrow> chain_tx) \<Rightarrow> action_flags \<Rightarrow> command_result \<Rightarrow> bool" where
  "tells_truth W tx fl out =
     ((co_exit out = 0 \<longleftrightarrow> executed W tx (fl_password_stdin fl)) \<and> co_exit out \<le> 1
      \<and> jget ''success'' (co_envelope out) = Some (JBool (co_exit out = 0))
      \<and> (fl_json fl \<longrightarrow> co_shown out = Inr (cw_print W (co_envelope out)))
      \<and> (co_sent out = [] \<or> (\<exists>config. load_settings (cw_parse W) (cw_env W) (cw_config W) = Inr config \<and> co_sent out = [tx config]))
      \<and> (co_exit out = 0 \<longrightarrow> co_sent out \<noteq> []))"

lemma envelope_success [simp]:
  "jget ''success'' (success_tx ts b r) = Some (JBool True)" "jget ''success'' (action_failure ts b step e) = Some (JBool False)"
  by (simp_all add: success_tx_def action_failure_def)

lemma emit_failure_fields [simp]:
  "co_exit (emit_action_failure W b step e j) = 1" "co_sent (emit_action_failure W b step e j) = []"
  "jget ''success'' (co_envelope (emit_action_failure W b step e j)) = Some (JBool False)"
  "j \<Longrightarrow> co_shown (emit_action_failure W b step e j) = Inr (cw_print W (co_envelope (emit_action_failure W b step e j)))"
  by (simp_all add: emit_action_failure_def ended_def Let_def)

lemma emit_tx_fields [simp]:
  "co_exit (emit_action_tx_result W b t r j) = (case r of Inr x \<Rightarrow> if ti_success x then 0 else 1 | Inl _ \<Rightarrow> 1)"
  "co_sent (emit_action_tx_result W b t r j) = [t]"
  "jget ''success'' (co_envelope (emit_action_tx_result W b t r j)) = Some (JBool (case r of Inr x \<Rightarrow> ti_success x | Inl _ \<Rightarrow> False))"
  "j \<Longrightarrow> co_shown (emit_action_tx_result W b t r j) = Inr (cw_print W (co_envelope (emit_action_tx_result W b t r j)))"
  by (simp_all add: emit_action_tx_result_def ended_def Let_def split: sum.split)

lemma run_transaction_tells:
  assumes "run_transaction W early late tx fl = Some out"
  shows "tells_truth W tx fl out"
proof (cases "load_settings (cw_parse W) (cw_env W) (cw_config W)")
  case (Inl e)
  then have "out = emit_action_failure W early ''load_config'' (cw_config_text W e) (fl_json fl)"
    using assms by (simp add: run_transaction_def mr3_load_signed_chain_def)
  then show ?thesis using Inl by (simp add: tells_truth_def executed_def)
next
  case (Inr config)
  then obtain u where u: "unlock_for_action W (fl_password_stdin fl) = Some u"
    using assms by (auto simp: run_transaction_def mr3_load_signed_chain_def bind_eq_Some_conv)
  show ?thesis
  proof (cases u)
    case (Inl x)
    obtain step e where x: "x = (step, e)" by (cases x)
    then have "out = emit_action_failure W early step e (fl_json fl)"
      using assms Inr Inl u by (simp add: run_transaction_def mr3_load_signed_chain_def)
    then show ?thesis using Inr Inl u by (simp add: tells_truth_def executed_def)
  next
    case keys: (Inr keys)
    then obtain r where r: "bridge_submit (cw_codec W) (cw_submit W) (tx config) (action_client W config keys) = Some r"
      "out = emit_action_tx_result W (late config) (tx config) r (fl_json fl)"
      using assms Inr u by (auto simp: run_transaction_def mr3_load_signed_chain_def)
    then show ?thesis using Inr keys u by (simp add: tells_truth_def executed_def split: sum.split)
  qed
qed

text \<open>
  C14. What an action command tells is what happened. A withdrawal, a burn or the exit of a pair submits at most one
  transaction, the one of its arguments and of the configuration; it ends with exit code 0 exactly when the
  configuration loads, the keystore opens and the chain reports that transaction as executed; its
  envelope says success exactly then, and with the JSON flag the envelope is all it prints, on
  the standard output.
\<close>

theorem action_command_truthful:
  assumes "run_tx_command W cmd fl = Some out"
  shows "tells_truth W (tx_of_command cmd) fl out"
proof (cases cmd)
  case (Withdraw action)
  then show ?thesis using assms run_transaction_tells
    by (simp add: run_mr3_withdraw_def Let_def fun_eq_iff) (metis (no_types, lifting) ext tx_of_command.simps(1))
next
  case (Burn target amount)
  then show ?thesis using assms run_transaction_tells
    by (simp add: run_mr3_burn_def) (metis (no_types, lifting) ext tx_of_command.simps(2))
next
  case PairExit
  show ?thesis
  proof (cases "load_settings (cw_parse W) (cw_env W) (cw_config W)")
    case (Inl e)
    then have "out = pair_no_config W e fl" using assms PairExit by (simp add: run_burn_pair_def)
    then show ?thesis using Inl by (simp add: tells_truth_def executed_def pair_no_config_def ended_def Let_def)
  next
    case (Inr config)
    have "tx_of_command PairExit = (\<lambda>c. SubmitBurnTrusteeNft (ns_nft_id c) (ns_payout_address c))"
      by (simp add: fun_eq_iff)
    then have "run_transaction W (execute_builder config) (\<lambda>_. execute_builder config) (tx_of_command PairExit) fl = Some out"
      using assms PairExit Inr by (simp add: run_burn_pair_def pair_password_stdin_def)
    then show ?thesis using PairExit run_transaction_tells by simp
  qed
qed

text \<open>A node whose chain executes every transaction, with a keystore in the clear.\<close>

definition example_account :: http_answer where
  "example_account = Inr \<lparr>hr_status = 200, hr_content_type = None, hr_body = Inr (text_of_json (JObject []))\<rparr>"

definition example_command_world :: command_world where
  "example_command_world =
     \<lparr>cw_env = (\<lambda>_. None), cw_config = Inr (save_settings text_of_json example_settings),
      cw_keystore = projr (save_keystore_insecure False text_of_json (replicate 32 3) (replicate 32 4)),
      cw_stdin = Inr [], cw_codec = example_bridge_codec, cw_vault = example_vault, cw_production = False,
      cw_submit = \<lparr>sw_account = \<lambda>_. example_account, sw_now = 9,
         sw_post = \<lambda>_ _. Inr \<lparr>hr_status = 200, hr_content_type = None,
            hr_body = Inr (text_of_json (JObject [(''status'', JString ''Success'')]))\<rparr>,
         sw_poll = \<lambda>_ _. Inl ''refused''\<rparr>,
      cw_view = (\<lambda>_ _ _. Inl ''refused''), cw_now = 9, cw_token = ''fresh'', cw_write_error = (\<lambda>_. None),
      cw_print = text_of_json, cw_setup_text = (\<lambda>_. []), cw_config_text = (\<lambda>_. []), cw_keystore_text = (\<lambda>_. []),
      cw_supra = (\<lambda>_. [])\<rparr>"

lemma example_config_loads:
  "load_settings json_of_text (\<lambda>_. None) (Inr (save_settings text_of_json example_settings)) = Inr example_settings"
  using settings_roundtrip [OF example_settings_wf]
  by (simp add: load_settings_def save_settings_def apply_env_empty example_settings_filled)

lemma example_unlock:
  "unlock_for_action example_command_world b = Some (Inr (replicate 32 3, ed25519_public example_crypto (replicate 32 3)))"
proof -
  let ?st = "projr (save_keystore_insecure False text_of_json (replicate 32 3) (replicate 32 4))"
  have mode: "detect_keystore_mode json_of_text ?st = Inr KsInsecure"
    by (simp add: detect_keystore_mode_def save_keystore_insecure_def str_field_def) (simp add: insecure_json_def)
  have "load_keystore_insecure example_crypto False json_of_text ?st
      = Inr (replicate 32 3, ed25519_public example_crypto (replicate 32 3))"
    by (simp add: save_keystore_insecure_def load_keystore_insecure_def read_json_def hex_field_def opened_key_def)
  with mode show ?thesis
    by (simp add: unlock_for_action_def keystore_mode_of_def example_command_world_def example_bridge_codec_def)
qed

lemma example_entry_signed: "signed_entry example_bridge_codec m f args seq now sg B = Inr (1 # le64 seq)"
  by (simp add: signed_entry_def example_bridge_codec_def example_codec_def build_raw_tx_def Let_def)

lemma example_bcs: "bcs_u64 (bc_crypto example_bridge_codec) w = Inr (le64 w)"
  by (simp add: example_bridge_codec_def example_crypto_def)

lemma example_sequence:
  "sequence_of_answer example_bridge_codec (sw_account (cw_submit example_command_world) url) = Inr 0"
  by (simp add: sequence_of_answer_def example_bridge_codec_def example_command_world_def example_account_def)

theorem action_command_truthful_witness:
  "\<exists>out. run_tx_command example_command_world (Withdraw StartHolding) \<lparr>fl_json = True, fl_password_stdin = False\<rparr> = Some out
     \<and> co_exit out = 0 \<and> co_sent out = [SubmitStartHoldingPeriod 7]
     \<and> tells_truth example_command_world (tx_of_command (Withdraw StartHolding)) \<lparr>fl_json = True, fl_password_stdin = False\<rparr> out"
proof -
  let ?W = example_command_world and ?fl = "\<lparr>fl_json = True, fl_password_stdin = False\<rparr>"
  have codec: "cw_codec ?W = example_bridge_codec" "bc_parse example_bridge_codec = json_of_text"
    by (simp_all add: example_command_world_def example_bridge_codec_def)
  have load: "load_settings (cw_parse ?W) (cw_env ?W) (cw_config ?W) = Inr example_settings"
    using example_config_loads by (simp add: codec) (simp add: example_command_world_def)
  have "\<exists>r. bridge_submit (cw_codec ?W) (cw_submit ?W) (SubmitStartHoldingPeriod 7)
          (action_client ?W example_settings keys) = Some (Inr r) \<and> ti_success r" for keys
  proof -
    obtain sg where "sb_signer (action_client ?W example_settings keys) = Some sg"
      by (simp add: action_client_def bridge_set_signer_def Let_def)
    moreover obtain base where "current_base (sb_client (action_client ?W example_settings keys)) = Some base"
      by (simp add: action_client_def bridge_set_signer_def bridge_gas_config_def setup_client_new_def client_new_def
          current_base_def endpoint_at_def Let_def split: list.split)
    ultimately show ?thesis
      by (simp add: bridge_submit_def submit_entry_function_def codec arg_u64_def example_bcs example_sequence example_entry_signed
          post_transaction_def)
        (simp add: example_command_world_def judge_submit_def codec str_field_def)
  qed
  then obtain r where r: "bridge_submit (cw_codec ?W) (cw_submit ?W) (SubmitStartHoldingPeriod 7)
      (action_client ?W example_settings (replicate 32 3, ed25519_public example_crypto (replicate 32 3))) = Some (Inr r)"
    "ti_success r" by blast
  have tx: "withdraw_tx StartHolding example_settings = SubmitStartHoldingPeriod 7"
    by (simp add: withdraw_tx_def example_settings_def settings_new_def apply_env_empty)
  obtain out where out: "run_tx_command ?W (Withdraw StartHolding) ?fl = Some out" "co_exit out = 0"
    "co_sent out = [SubmitStartHoldingPeriod 7]"
    using r by (simp add: run_mr3_withdraw_def run_transaction_def mr3_load_signed_chain_def load example_unlock tx Let_def)
  then show ?thesis using action_command_truthful [OF out(1)] by blast
qed

section \<open>Rotating the token\<close>

text \<open>
  Rotating the token freezes the environment. \<open>agent-config --rotate-token\<close> writes the configuration it loaded,
  overrides of the environment included: the file it leaves gives, without any environment, exactly the settings
  loaded with it, with the new token in the place of the old. An address or a gas limit that was set
  for one run stays. Nothing is sent to the chain; without the flag nothing is written.
\<close>

theorem rotation_freezes_environment:
  assumes "load_settings (cw_parse W) (cw_env W) (cw_config W) = Inr config"
    and "\<And>j. cw_parse W (cw_print W j) = Some j"
    and "\<And>text. cw_write_error W text = None"
  shows "(\<exists>text. co_config (run_mr3_agent_config W True as_json) = Some text
            \<and> load_settings (cw_parse W) (\<lambda>_. None) (Inr text) = Inr (config\<lparr>ns_strategy_auth_token := cw_token W\<rparr>))
    \<and> co_config (run_mr3_agent_config W False as_json) = None
    \<and> (\<forall>rotate. co_exit (run_mr3_agent_config W rotate as_json) = 0 \<and> co_sent (run_mr3_agent_config W rotate as_json) = [])"
proof -
  obtain t where t: "settings_wf t" and config: "config = apply_env_overrides (cw_env W) (backfill_contracts t)"
    using assms(1) settings_of_json_wf
    by (auto simp: load_settings_def bind_eq_Some_conv split: sum.splits option.splits)
  let ?new = "config\<lparr>ns_strategy_auth_token := cw_token W\<rparr>"
  have "settings_wf config" using t by (simp add: config wf_loaded)
  then have wf: "settings_wf ?new" by (simp add: settings_wf_def)
  have "backfill_contracts config = config" by (simp add: config backfill_loaded)
  then have filled: "backfill_contracts ?new = ?new"
    by (cases config) (simp add: backfill_contracts_def Let_def)
  have "load_settings (cw_parse W) (\<lambda>_. None) (Inr (save_settings (cw_print W) ?new)) = Inr ?new"
    using settings_roundtrip [OF wf] by (simp add: load_settings_def save_settings_def assms(2) apply_env_empty filled)
  moreover have "run_mr3_agent_config W True as_json = show_token W ?new True as_json (Some (save_settings (cw_print W) ?new))"
    "run_mr3_agent_config W False as_json = show_token W config False as_json None"
    by (simp_all add: run_mr3_agent_config_def assms(1,3) Let_def)
  ultimately show ?thesis by (simp add: show_token_def ended_def Let_def all_bool_eq)
qed

definition rotation_world :: command_world where
  "rotation_world = example_command_world\<lparr>cw_env := \<lambda>k. if k = ''DEADMKT_MAX_GAS'' then Some ''9'' else None\<rparr>"

theorem rotation_freezes_environment_witness:
  "\<exists>config text. load_settings json_of_text (cw_env rotation_world) (cw_config rotation_world) = Inr config
     \<and> co_config (run_mr3_agent_config rotation_world True True) = Some text
     \<and> load_settings json_of_text (\<lambda>_. None) (Inr text) = Inr (config\<lparr>ns_strategy_auth_token := ''fresh''\<rparr>)"
proof -
  have parse: "cw_parse rotation_world = json_of_text" "cw_print rotation_world = text_of_json" "cw_token rotation_world = ''fresh''"
    "\<And>text. cw_write_error rotation_world text = None"
    by (simp_all add: rotation_world_def example_command_world_def example_bridge_codec_def)
  obtain config where "load_settings (cw_parse rotation_world) (cw_env rotation_world) (cw_config rotation_world) = Inr config"
    using settings_roundtrip [OF example_settings_wf]
    by (simp add: rotation_world_def example_command_world_def example_bridge_codec_def load_settings_def save_settings_def)
  from rotation_freezes_environment [OF this, of True] this show ?thesis by (auto simp: parse)
qed

end
