(* ===== verification/OperatorCommands.thy ===== *)
theory OperatorCommands
  imports NodeQueries Config Keystore
begin

text \<open>
  The commands of \<open>src/main.rs\<close> that send transactions through the node's own RPC client: \<open>deposit\<close>,
  \<open>reactivate\<close>, \<open>apply-params\<close> and \<open>update-params\<close>. A command ends in one of the ways of \<open>operator_end\<close>,
  each with its exit code; beside it stand the entry functions it posted, in order. \<open>None\<close> is a panic: most
  failures are \<open>expect\<close>s. The outside is the record \<open>operator_world\<close>; view calls and transactions are
  numbered from zero.
\<close>

section \<open>World and outcome\<close>

record operator_world =
  ow_env :: environment
  ow_config :: "string + string"
  ow_keystore :: stored_file
  ow_stdin :: "string + string"
  ow_crypto :: crypto
  ow_vault :: vault
  ow_codec :: tx_codec
  ow_address_bcs :: "bytes \<Rightarrow> bytes option"
  ow_production :: bool
  ow_parse :: "string \<Rightarrow> json option"
  ow_view :: "nat \<Rightarrow> nat \<Rightarrow> string \<Rightarrow> json \<Rightarrow> http_answer"
  ow_send :: "nat \<Rightarrow> send_world"
  ow_rounds :: "string \<Rightarrow> (nat \<times> http_answer) list"
  ow_now :: u64

datatype operator_end =
    NoKeystore
  | SubmitRefused chain_error
  | Deposited string
  | ParamsApplied string
  | UpdateQueued string u64
  | ActivityUnknown chain_error
  | NothingToDo
  | NodeReactivated
  | BecameActive
  | HoldingExpired
  | ReactivateRefused string
  | ReactivateUnconfirmed chain_error
  | MintClaimed string
  | MintNotYet u64
  | MintTimeUnknown
  | MintRequested string

definition exit_of_end :: "operator_end \<Rightarrow> nat" where
  "exit_of_end e = (case e of
     NoKeystore \<Rightarrow> 1 | SubmitRefused _ \<Rightarrow> 1 | ActivityUnknown _ \<Rightarrow> 1 | HoldingExpired \<Rightarrow> 1
   | ReactivateRefused _ \<Rightarrow> 1 | ReactivateUnconfirmed _ \<Rightarrow> 1 | _ \<Rightarrow> 0)"

type_synonym posted_call = "string \<times> string \<times> bytes list"

type_synonym operator_outcome = "(operator_end \<times> posted_call list) option"

section \<open>Key and transactions\<close>

text \<open>The password comes from the environment, or else from a line of the standard input, spaces trimmed.\<close>

definition operator_password :: "operator_world \<Rightarrow> string option" where
  "operator_password W =
     (case ow_env W ''DEADMKT_KEYSTORE_PASSWORD'' of
        Some password \<Rightarrow> Some password
      | None \<Rightarrow> (case ow_stdin W of Inl _ \<Rightarrow> None | Inr line \<Rightarrow> Some (trim line)))"

definition expect :: "'e + 'a \<Rightarrow> 'a option" where
  "expect r = (case r of Inl _ \<Rightarrow> None | Inr x \<Rightarrow> Some x)"

definition operator_mode :: "operator_world \<Rightarrow> keystore_mode" where
  "operator_mode W = (case detect_keystore_mode (ow_parse W) (ow_keystore W) of Inl _ \<Rightarrow> KsMissing | Inr m \<Rightarrow> m)"

definition operator_key :: "operator_world \<Rightarrow> (operator_end + bytes) option" where
  "operator_key W =
     (case operator_mode W of
        KsInsecure \<Rightarrow> map_option (Inr \<circ> fst)
          (expect (load_keystore_insecure (ow_crypto W) (ow_production W) (ow_parse W) (ow_keystore W)))
      | KsEncrypted \<Rightarrow>
          Option.bind (operator_password W) (\<lambda>password.
          Option.bind (load_keystore (ow_crypto W) (ow_vault W) (ow_parse W) (ow_keystore W) password) (\<lambda>r.
            map_option (Inr \<circ> fst) (expect r)))
      | KsMissing \<Rightarrow> Some (Inl NoKeystore))"

text \<open>The signed call of an entry function: only a refused submission is told, everything else panics.\<close>

definition operator_send ::
  "operator_world \<Rightarrow> nat \<Rightarrow> node_settings \<Rightarrow> bytes \<Rightarrow> bytes \<Rightarrow> bytes \<Rightarrow> posted_call \<Rightarrow> supra_client \<Rightarrow> (chain_error + string) option" where
  "operator_send W k config key sender contract call cl =
     (case call of (module, function, args) \<Rightarrow>
        Option.bind (send_entry (ow_crypto W) (ow_codec W) (ow_parse W)
          \<lparr>nw_signing_key = key, nw_contract = [], nw_address = [], nw_chain_id = network_chain_id (ns_network config),
           nw_max_gas = ns_max_gas_amount config, nw_gas_price = ns_gas_unit_price config\<rparr>
          sender contract module function args (ow_send W k) cl) (\<lambda>r. case r of
             Inl (SubmitFailed e) \<Rightarrow> Some (Inl e)
           | Inl _ \<Rightarrow> None
           | Inr hash \<Rightarrow> Some (Inr hash)))"

text \<open>A command's last transaction: what its end says comes from the hash alone.\<close>

definition send_and_end ::
  "operator_world \<Rightarrow> nat \<Rightarrow> node_settings \<Rightarrow> bytes \<Rightarrow> bytes \<Rightarrow> bytes \<Rightarrow> posted_call \<Rightarrow> (string \<Rightarrow> operator_end) \<Rightarrow> supra_client
     \<Rightarrow> operator_outcome" where
  "send_and_end W k config key sender contract call ok cl =
     map_option (\<lambda>r. (case r of Inl e \<Rightarrow> SubmitRefused e | Inr hash \<Rightarrow> ok hash, [call]))
       (operator_send W k config key sender contract call cl)"

definition with_key :: "operator_world \<Rightarrow> (bytes \<Rightarrow> operator_outcome) \<Rightarrow> operator_outcome" where
  "with_key W f = Option.bind (operator_key W) (\<lambda>r. case r of Inl e \<Rightarrow> Some (e, []) | Inr key \<Rightarrow> f key)"

definition address_of :: "operator_world \<Rightarrow> string \<Rightarrow> bytes option" where
  "address_of W text = expect (parse_address (ow_codec W) text)"

definition operator_config :: "operator_world \<Rightarrow> node_settings option" where
  "operator_config W = expect (load_settings (ow_parse W) (ow_env W) (ow_config W))"

definition u64_args :: "operator_world \<Rightarrow> u64 list \<Rightarrow> bytes list option" where
  "u64_args W ws = expect (collect_results (map (bcs_u64 (ow_crypto W)) ws))"

section \<open>Deposit and the parameters\<close>

definition run_deposit :: "operator_world \<Rightarrow> string \<Rightarrow> u64 \<Rightarrow> operator_outcome" where
  "run_deposit W token amount =
     Option.bind (operator_config W) (\<lambda>config.
     with_key W (\<lambda>key.
       Option.bind (address_of W (ns_trustee_address config)) (\<lambda>sender.
       Option.bind (address_of W (ca_escrow (ns_contracts config))) (\<lambda>contract.
       Option.bind (address_of W token) (\<lambda>token_addr.
       Option.bind (ow_address_bcs W token_addr) (\<lambda>a.
       Option.bind (u64_args W [amount]) (\<lambda>args.
         send_and_end W 0 config key sender contract (''escrow'', ''deposit'', a # args) Deposited
           (client_new (ns_rpc_urls config) (ca_escrow (ns_contracts config))))))))))"

definition run_apply_params :: "operator_world \<Rightarrow> operator_outcome" where
  "run_apply_params W =
     Option.bind (operator_config W) (\<lambda>config.
     with_key W (\<lambda>key.
       Option.bind (address_of W (ns_trustee_address config)) (\<lambda>sender.
       Option.bind (address_of W (ca_pool_config (ns_contracts config))) (\<lambda>contract.
         send_and_end W 0 config key sender contract (''pool_config'', ''auto_adjust_pools'', []) ParamsApplied
           (client_new (ns_rpc_urls config) (ca_pool_config (ns_contracts config)))))))"

record new_params =
  np_blocks_per_batch :: u64
  np_commit_blocks :: u64
  np_reveal_blocks :: u64
  np_match_blocks :: u64
  np_swap_blocks :: u64
  np_commits_per_batch :: u64
  np_settlement_max_age :: u64
  np_rushed_grace_batches :: u64

definition np_values :: "new_params \<Rightarrow> u64 list" where
  "np_values p = [np_blocks_per_batch p, np_commit_blocks p, np_reveal_blocks p, np_match_blocks p, np_swap_blocks p,
     np_commits_per_batch p, np_settlement_max_age p, np_rushed_grace_batches p]"

definition phases_fill :: "new_params \<Rightarrow> bool" where
  "phases_fill p = (np_commit_blocks p + np_reveal_blocks p + np_match_blocks p + np_swap_blocks p = np_blocks_per_batch p)"

definition batch_number :: "json \<Rightarrow> u64 option" where
  "batch_number j =
     (case Option.bind (Option.bind (jindex 0 j) as_str) parse_u64 of
        Some n \<Rightarrow> Some n | None \<Rightarrow> Option.bind (jindex 0 j) as_u64)"

definition run_update_params :: "operator_world \<Rightarrow> new_params \<Rightarrow> operator_outcome" where
  "run_update_params W p =
     Option.bind (operator_config W) (\<lambda>config.
     if \<not> phases_fill p then None
     else with_key W (\<lambda>key.
       Option.bind (address_of W (ns_trustee_address config)) (\<lambda>sender.
       Option.bind (address_of W (ca_pool_config (ns_contracts config))) (\<lambda>contract.
       Option.bind (view_raw (ow_parse W) (ow_view W 0) ''pool_config'' ''get_current_batch_id'' [] []
           (client_new (ns_rpc_urls config) (ca_pool_config (ns_contracts config)))) (\<lambda>(cl, r).
       Option.bind (Option.bind (expect r) batch_number) (\<lambda>current.
       Option.bind (u64_args W (np_values p @ [current + 2])) (\<lambda>args.
         send_and_end W 0 config key sender contract (''pool_config'', ''queue_param_update'', args)
           (\<lambda>hash. UpdateQueued hash (current + 2)) cl)))))))"

section \<open>Reactivation\<close>

definition operator_confirm :: "operator_world \<Rightarrow> string \<Rightarrow> (chain_error + tx_outcome) option" where
  "operator_confirm W hash = wait_for_tx (ow_parse W) 30 (ow_rounds W hash)"

text \<open>The pending mint as this command reads it: only in the wrapped form, and none when the view fails.\<close>

definition mint_read :: "chain_error + json \<Rightarrow> json option" where
  "mint_read r = (case r of Inl _ \<Rightarrow> None | Inr j \<Rightarrow> wrapped_mint j)"

definition mint_time :: "json \<Rightarrow> u64" where
  "mint_time pm = or_default 0 (Option.bind (str_field ''claimable_at'' pm) parse_u64)"

definition mint_fallback ::
  "operator_world \<Rightarrow> node_settings \<Rightarrow> bytes \<Rightarrow> bytes \<Rightarrow> bytes \<Rightarrow> supra_client \<Rightarrow> operator_outcome" where
  "mint_fallback W config key sender contract cl =
     Option.bind (view_raw (ow_parse W) (ow_view W 1) ''tokens'' ''get_pending_mint'' []
         [JString (ns_trustee_address config)] cl) (\<lambda>(cl', r). case mint_read r of
       Some pm \<Rightarrow>
         (let claimable_at = mint_time pm in
          if 0 < claimable_at \<and> claimable_at \<le> ow_now W
          then send_and_end W 1 config key sender contract (''tokens'', ''claim_mint'', []) MintClaimed cl'
          else if 0 < claimable_at then Some (MintNotYet (claimable_at - ow_now W), [])
          else Some (MintTimeUnknown, []))
     | None \<Rightarrow>
         Option.bind (u64_args W [400000, 300000, 300000]) (\<lambda>args.
           send_and_end W 1 config key sender contract (''tokens'', ''request_mint'', args) MintRequested cl'))"

definition needs_mint :: "string \<Rightarrow> bool" where
  "needs_mint vs = (contains_str ''E_INSUFFICIENT_ESCROW'' vs \<or> contains_str ''E_GRACE_NOT_MET'' vs)"

definition after_reactivate ::
  "operator_world \<Rightarrow> node_settings \<Rightarrow> bytes \<Rightarrow> bytes \<Rightarrow> bytes \<Rightarrow> supra_client \<Rightarrow> chain_error + tx_outcome \<Rightarrow> operator_outcome" where
  "after_reactivate W config key sender contract cl told =
     (case told of
        Inl e \<Rightarrow> Some (ReactivateUnconfirmed e, [])
      | Inr r \<Rightarrow>
         (let vs = tx_vm_status r in
          if tx_success r then Some (NodeReactivated, [])
          else if needs_mint vs then mint_fallback W config key sender contract cl
          else if contains_str ''E_HOLDING_EXPIRED'' vs then Some (HoldingExpired, [])
          else if contains_str ''E_ALREADY_ACTIVE'' vs then Some (BecameActive, [])
          else Some (ReactivateRefused vs, [])))"

definition reactivate_call :: posted_call where
  "reactivate_call = (''escrow'', ''reactivate'', [])"

definition try_reactivate ::
  "operator_world \<Rightarrow> node_settings \<Rightarrow> bytes \<Rightarrow> bytes \<Rightarrow> bytes \<Rightarrow> supra_client \<Rightarrow> operator_outcome" where
  "try_reactivate W config key sender contract cl =
     Option.bind (operator_send W 0 config key sender contract reactivate_call cl) (\<lambda>r. case r of
         Inl e \<Rightarrow> Some (SubmitRefused e, [reactivate_call])
       | Inr hash \<Rightarrow>
           Option.bind (operator_confirm W hash) (\<lambda>told.
             map_option (apsnd ((#) reactivate_call)) (after_reactivate W config key sender contract cl told)))"

definition run_reactivate :: "operator_world \<Rightarrow> operator_outcome" where
  "run_reactivate W =
     Option.bind (operator_config W) (\<lambda>config.
     Option.bind (view_raw (ow_parse W) (ow_view W 0) ''escrow'' ''is_active'' [] [JString (u64_str (ns_nft_id config))]
         (client_new (ns_rpc_urls config) (ca_settlement (ns_contracts config)))) (\<lambda>(cl, r). case r of
       Inl e \<Rightarrow> Some (ActivityUnknown e, [])
     | Inr j \<Rightarrow>
        if or_default False (Option.bind (jindex 0 j) as_bool) then Some (NothingToDo, [])
        else with_key W (\<lambda>key.
          Option.bind (address_of W (ns_trustee_address config)) (\<lambda>sender.
          Option.bind (address_of W (ca_settlement (ns_contracts config))) (\<lambda>contract.
            try_reactivate W config key sender contract cl)))))"

section \<open>What a reactivation may send\<close>

text \<open>The second transaction: claiming is for a mint whose time has come, requesting for a node that reads no mint.\<close>

definition second_call_due :: "operator_world \<Rightarrow> chain_error + json \<Rightarrow> posted_call \<Rightarrow> bool" where
  "second_call_due W r call =
     (case mint_read r of
        Some pm \<Rightarrow> 0 < mint_time pm \<and> mint_time pm \<le> ow_now W \<and> call = (''tokens'', ''claim_mint'', [])
      | None \<Rightarrow> \<exists>args. u64_args W [400000, 300000, 300000] = Some args \<and> call = (''tokens'', ''request_mint'', args))"

lemma send_and_end_calls: "send_and_end W k config key sender contract call ok cl = Some (e, calls) \<Longrightarrow> calls = [call]"
  by (auto simp: send_and_end_def)

lemma mint_fallback_calls:
  assumes "mint_fallback W config key sender contract cl = Some (e, calls)"
  obtains cl' r where "view_raw (ow_parse W) (ow_view W 1) ''tokens'' ''get_pending_mint'' []
       [JString (ns_trustee_address config)] cl = Some (cl', r)"
    and "calls = [] \<and> exit_of_end e = 0 \<or> (\<exists>call. calls = [call] \<and> second_call_due W r call)"
proof -
  obtain cl' r where v: "view_raw (ow_parse W) (ow_view W 1) ''tokens'' ''get_pending_mint'' []
       [JString (ns_trustee_address config)] cl = Some (cl', r)"
    using assms by (auto simp: mint_fallback_def bind_eq_Some_conv)
  have "calls = [] \<and> exit_of_end e = 0 \<or> (\<exists>call. calls = [call] \<and> second_call_due W r call)"
  proof (cases "mint_read r")
    case None
    then show ?thesis using assms v
      by (auto simp: mint_fallback_def second_call_due_def bind_eq_Some_conv dest: send_and_end_calls)
  next
    case (Some pm)
    then show ?thesis using assms v
      by (auto simp: mint_fallback_def second_call_due_def exit_of_end_def Let_def dest: send_and_end_calls split: if_split_asm)
  qed
  with v show ?thesis by (rule that)
qed

text \<open>The chain refused a reactivation for a reason only a mint can mend.\<close>

definition refused_for_mint :: "operator_world \<Rightarrow> string \<Rightarrow> bool" where
  "refused_for_mint W hash =
     (\<exists>out. operator_confirm W hash = Some (Inr out) \<and> \<not> tx_success out \<and> needs_mint (tx_vm_status out))"

lemma after_reactivate_calls:
  assumes "after_reactivate W config key sender contract cl told = Some (e, calls)" "calls \<noteq> []"
  shows "\<exists>out. told = Inr out \<and> \<not> tx_success out \<and> needs_mint (tx_vm_status out)
     \<and> mint_fallback W config key sender contract cl = Some (e, calls)"
  using assms by (auto simp: after_reactivate_def Let_def split: sum.split_asm if_split_asm)

definition reactivation_calls_ok :: "operator_world \<Rightarrow> node_settings \<Rightarrow> supra_client \<Rightarrow> posted_call list \<Rightarrow> bool" where
  "reactivation_calls_ok W config cl calls =
     (calls \<in> {[], [reactivate_call]}
      \<or> (\<exists>hash cl' r call. calls = [reactivate_call, call] \<and> refused_for_mint W hash \<and> second_call_due W r call
           \<and> view_raw (ow_parse W) (ow_view W 1) ''tokens'' ''get_pending_mint'' [] [JString (ns_trustee_address config)] cl
               = Some (cl', r)))"

lemma try_reactivate_calls:
  assumes "try_reactivate W config key sender contract cl = Some (e, calls)"
  shows "reactivation_calls_ok W config cl calls"
proof -
  obtain r where r: "operator_send W 0 config key sender contract reactivate_call cl = Some r"
    using assms by (auto simp: try_reactivate_def bind_eq_Some_conv)
  show ?thesis
  proof (cases r)
    case (Inl x)
    then show ?thesis using assms r by (simp add: try_reactivate_def reactivation_calls_ok_def)
  next
    case (Inr hash)
    then obtain told rest where t: "operator_confirm W hash = Some told"
      "after_reactivate W config key sender contract cl told = Some (e, rest)" "calls = reactivate_call # rest"
      using assms r by (auto simp: try_reactivate_def bind_eq_Some_conv)
    show ?thesis
    proof (cases "rest = []")
      case True
      then show ?thesis using t by (simp add: reactivation_calls_ok_def)
    next
      case False
      from after_reactivate_calls [OF t(2) False] obtain out where out: "told = Inr out" "\<not> tx_success out"
        "needs_mint (tx_vm_status out)" "mint_fallback W config key sender contract cl = Some (e, rest)" by blast
      from mint_fallback_calls [OF out(4)] False t out(1-3) show ?thesis
        unfolding reactivation_calls_ok_def refused_for_mint_def by metis
    qed
  qed
qed

text \<open>
  C15. A reactivation sends only what is due. A node the chain reports active sends nothing and opens no keystore. An
  inactive one posts \<open>reactivate\<close> first; it posts at most one more transaction, and only when the
  chain executed and refused the first for an empty escrow or a passed grace period: \<open>claim_mint\<close> when the
  pending mint it reads has come due, \<open>request_mint\<close> when it reads none. It reads none as well when the view
  fails or answers in the bare form, so a node with a mint waiting requests another.
\<close>

theorem reactivation_sends_what_is_due:
  assumes "run_reactivate W = Some (e, calls)"
  shows "\<exists>config cl r. operator_config W = Some config
     \<and> view_raw (ow_parse W) (ow_view W 0) ''escrow'' ''is_active'' [] [JString (u64_str (ns_nft_id config))]
         (client_new (ns_rpc_urls config) (ca_settlement (ns_contracts config))) = Some (cl, r)
     \<and> (calls \<noteq> [] \<longrightarrow> (\<exists>j. r = Inr j \<and> Option.bind (jindex 0 j) as_bool \<noteq> Some True) \<and> operator_mode W \<noteq> KsMissing)
     \<and> reactivation_calls_ok W config cl calls"
proof -
  obtain config cl r where c: "operator_config W = Some config"
    and v: "view_raw (ow_parse W) (ow_view W 0) ''escrow'' ''is_active'' [] [JString (u64_str (ns_nft_id config))]
         (client_new (ns_rpc_urls config) (ca_settlement (ns_contracts config))) = Some (cl, r)"
    using assms by (auto simp: run_reactivate_def bind_eq_Some_conv)
  show ?thesis
  proof (cases "calls = []")
    case True
    with c v show ?thesis by (auto simp: reactivation_calls_ok_def)
  next
    case False
    then obtain j where j: "r = Inr j" "\<not> or_default False (Option.bind (jindex 0 j) as_bool)"
      using assms c v by (auto simp: run_reactivate_def split: sum.split_asm if_split_asm)
    then obtain key sender contract where k: "operator_key W = Some (Inr key)"
      "try_reactivate W config key sender contract cl = Some (e, calls)"
    proof (cases "operator_key W")
      case None
      then show thesis using assms c v j by (simp add: run_reactivate_def with_key_def)
    next
      case (Some u)
      then show thesis using assms c v j False that
        by (cases u) (auto simp: run_reactivate_def with_key_def bind_eq_Some_conv)
    qed
    have "operator_mode W \<noteq> KsMissing" using k(1) by (auto simp: operator_key_def)
    moreover have "Option.bind (jindex 0 j) as_bool \<noteq> Some True" using j(2) by auto
    ultimately show ?thesis using c v j(1) try_reactivate_calls [OF k(2)] by blast
  qed
qed

text \<open>An inactive node with an empty escrow and a due mint, which the chain tells in the bare form.\<close>

definition said :: "json \<Rightarrow> http_answer" where
  "said j = Inr \<lparr>hr_status = 200, hr_content_type = None, hr_body = Inr (text_of_json j)\<rparr>"

definition example_replies :: send_world where
  "example_replies = \<lparr>sn_account = \<lambda>_. said (JObject [(''sequence_number'', JInt 5)]),
     sn_post = \<lambda>_ _. Inr \<lparr>hr_status = 200, hr_content_type = None, hr_body = Inr ''a''\<rparr>, sn_now = 9\<rparr>"

definition example_operator :: operator_world where
  "example_operator = \<lparr>ow_env = \<lambda>_. None, ow_config = Inr (save_settings text_of_json example_settings),
     ow_keystore = projr (save_keystore_insecure False text_of_json (replicate 32 3) (replicate 32 4)),
     ow_stdin = Inr [], ow_crypto = example_crypto, ow_vault = example_vault, ow_codec = example_codec,
     ow_address_bcs = Some, ow_production = False, ow_parse = json_of_text,
     ow_view = \<lambda>k _ _ _. said (if k = 0 then JArray [JBool False] else JArray [JObject [(''claimable_at'', JString ''1'')]]),
     ow_send = \<lambda>_. example_replies,
     ow_rounds = \<lambda>_. [(0, said (JObject [(''status'', JString ''Fail''),
        (''output'', JObject [(''Move'', JObject [(''vm_status'', JString ''E_INSUFFICIENT_ESCROW'')])])]))],
     ow_now = 9\<rparr>"

lemma said_view:
  assumes "cl_endpoints cl \<noteq> []" "cl_max_retries cl = 3"
  shows "view_raw json_of_text (\<lambda>_ _ _. said (JArray xs)) module function types args cl = Some (advanced 1 cl, Inr (JArray xs))"
proof -
  have "judge_view json_of_text (said (JArray xs)) = Some (Return (Inr (JArray xs)))"
    by (simp add: judge_view_def check_response_limit_def said_def parse_response_def unwrap_result_def)
  with assms show ?thesis
    by (simp add: view_raw_def view_absolute_def numeral_eq_Suc next_endpoint_some)
qed

lemma example_sent:
  assumes "cl_endpoints cl \<noteq> []" "\<And>m f args seq e c. \<exists>t. build_and_sign_entry_function example_crypto example_codec key sender
      contract m f args seq e c (ns_max_gas_amount config) (ns_gas_unit_price config) = Inr t"
  shows "operator_send example_operator k config key sender contract call cl = Some (Inr ''a'')"
proof -
  obtain base where b: "current_base cl = Some base" using assms(1) by (auto simp: current_base_def endpoint_at_def)
  obtain m f args where call: "call = (m, f, args)" by (cases call) auto
  obtain a where a: "get_account json_of_text (sn_account example_replies) url cl = Some (Inr a)" for url
    by (simp add: get_account_def b example_replies_def said_def parse_response_def number_or_text_def)
  obtain t where t: "build_and_sign_entry_function example_crypto example_codec key sender contract m f args
      (ai_sequence_number a) (sn_now example_replies + 60) (network_chain_id (ns_network config)) (ns_max_gas_amount config)
      (ns_gas_unit_price config) = Inr t" using assms(2) by blast
  have "submit_raw (sn_post example_replies) t cl = Some (Inr ''a'')"
    by (simp add: submit_raw_def b example_replies_def is_success_def trim_quotes_def) code_simp
  then show ?thesis using a t by (simp add: operator_send_def call send_entry_def example_operator_def)
qed

lemma example_operator_config: "operator_config example_operator = Some example_settings"
  using settings_roundtrip [OF example_settings_wf]
  by (simp add: operator_config_def expect_def example_operator_def load_settings_def save_settings_def apply_env_empty
      example_settings_filled)

lemma example_operator_key: "operator_key example_operator = Some (Inr (replicate 32 3))"
proof -
  let ?st = "projr (save_keystore_insecure False text_of_json (replicate 32 3) (replicate 32 4))"
  have "detect_keystore_mode json_of_text ?st = Inr KsInsecure"
    by (simp add: detect_keystore_mode_def save_keystore_insecure_def str_field_def) (simp add: insecure_json_def)
  moreover have "load_keystore_insecure example_crypto False json_of_text ?st
      = Inr (replicate 32 3, ed25519_public example_crypto (replicate 32 3))"
    by (simp add: save_keystore_insecure_def load_keystore_insecure_def read_json_def hex_field_def opened_key_def)
  ultimately show ?thesis by (simp add: operator_key_def operator_mode_def example_operator_def expect_def)
qed

lemma example_addresses:
  "\<exists>a. parse_address example_codec (ns_trustee_address example_settings) = Inr a"
  "\<exists>a. parse_address example_codec (ca_settlement (ns_contracts example_settings)) = Inr a"
proof -
  have "\<not> isl (parse_address example_codec (ns_trustee_address example_settings))"
    "\<not> isl (parse_address example_codec (ca_settlement (ns_contracts example_settings)))"
    by (simp_all add: example_settings_def settings_new_def apply_env_empty default_contract_addresses_def all_contracts_def)
      code_simp+
  then show "\<exists>a. parse_address example_codec (ns_trustee_address example_settings) = Inr a"
    "\<exists>a. parse_address example_codec (ca_settlement (ns_contracts example_settings)) = Inr a"
    by (simp_all add: isl_def) (metis sum.exhaust)+
qed

theorem reactivation_sends_what_is_due_witness:
  "\<exists>args. run_reactivate example_operator = Some (MintRequested ''a'', [reactivate_call, (''tokens'', ''request_mint'', args)])
     \<and> (\<exists>config cl. reactivation_calls_ok example_operator config cl [reactivate_call, (''tokens'', ''request_mint'', args)])"
proof -
  let ?W = example_operator
  let ?cl = "client_new (ns_rpc_urls example_settings) (ca_settlement (ns_contracts example_settings))"
  have up: "cl_endpoints ?cl \<noteq> []" "cl_max_retries ?cl = 3"
    by (simp_all add: client_new_def example_settings_def settings_new_def apply_env_empty default_rpc_urls_def)
  have up2: "cl_endpoints (advanced 1 ?cl) \<noteq> []" "cl_max_retries (advanced 1 ?cl) = 3"
    using up by (simp_all add: advanced_def)
  obtain sender contract where a: "parse_address example_codec (ns_trustee_address example_settings) = Inr sender"
    "parse_address example_codec (ca_settlement (ns_contracts example_settings)) = Inr contract"
    using example_addresses by blast
  have sign: "\<exists>t. build_and_sign_entry_function example_crypto example_codec key s c m f args seq e ch g p = Inr t"
    for key s c m f args seq e ch g p
    by (simp add: build_and_sign_entry_function_def encode_signed_tx_def build_raw_tx_def example_codec_def Let_def)
  note sent = example_sent [OF up2(1) sign]
  have parts: "ow_parse ?W = json_of_text" "ow_codec ?W = example_codec" "ow_crypto ?W = example_crypto"
    "ow_view ?W k = (\<lambda>_ _ _. said (if k = 0 then JArray [JBool False] else JArray [JObject [(''claimable_at'', JString ''1'')]]))"
    for k by (simp_all add: example_operator_def)
  note codec = parts(2)
  have active: "view_raw (ow_parse ?W) (ow_view ?W 0) ''escrow'' ''is_active'' [] args ?cl = Some (advanced 1 ?cl, Inr (JArray [JBool False]))"
    for args using said_view [OF up] by (simp add: parts)
  have bare: "view_raw (ow_parse ?W) (ow_view ?W 1) ''tokens'' ''get_pending_mint'' [] args (advanced 1 ?cl)
      = Some (advanced 1 (advanced 1 ?cl), Inr (JArray [JObject [(''claimable_at'', JString ''1'')]]))"
    for args using said_view [OF up2] by (simp add: parts)
  have up3: "cl_endpoints (advanced 1 (advanced 1 ?cl)) \<noteq> []" using up2 by (simp add: advanced_def)
  obtain args where args: "u64_args ?W [400000, 300000, 300000] = Some args"
    by (simp add: u64_args_def parts example_crypto_def expect_def)
  have "mint_fallback ?W example_settings (replicate 32 3) sender contract (advanced 1 ?cl)
      = Some (MintRequested ''a'', [(''tokens'', ''request_mint'', args)])"
    using example_sent [OF up3 sign]
    by (simp add: mint_fallback_def bare [simplified] mint_read_def wrapped_mint_def args send_and_end_def)
  moreover have "operator_confirm ?W ''a'' = Some (Inr \<lparr>tx_success = False, tx_gas_used = 0, tx_vm_status = ''E_INSUFFICIENT_ESCROW''\<rparr>)"
    by (simp add: operator_confirm_def example_operator_def said_def wait_round_def str_field_def outcome_of_json_def move_output_def)
  moreover have "needs_mint ''E_INSUFFICIENT_ESCROW''" by code_simp
  ultimately have run: "run_reactivate ?W = Some (MintRequested ''a'', [reactivate_call, (''tokens'', ''request_mint'', args)])"
    by (simp add: run_reactivate_def example_operator_config active [simplified] with_key_def example_operator_key address_of_def
        codec a expect_def try_reactivate_def sent [simplified] after_reactivate_def Let_def)
  with reactivation_sends_what_is_due [OF this] show ?thesis by blast
qed

end
