(* ===== verification/SetupCommands.thy ===== *)
theory SetupCommands
  imports ActionCommands OperatorCommands
begin

text \<open>
  The dispatch of \<open>src/main.rs\<close> and the two setups it runs without a subcommand: the one from a setup file
  (\<open>--config\<close>) and the restore of a keystore. A run gives the session it leaves (files and trace), the exit
  code, the result that is printed, and the new text of the setup file if it was rewritten. \<open>None\<close> is a
  panic or a run that never ends. The setups themselves are in \<open>SetupRun\<close>.
\<close>

section \<open>The route of an invocation\<close>

datatype command =
    RunNode
  | SetupNode
  | Status bool
  | ShowEscrow
  | ShowToken
  | Version
  | Deposit string u64
  | Reactivate
  | ApplyParams
  | UpdateParams new_params
  | WithdrawAs withdraw_action action_flags
  | BurnTo burn_target u64 action_flags
  | AgentConfig bool bool
  | BurnPair burn_pair_action action_flags

record cli =
  cli_command :: "command option"
  cli_config :: "string option"

definition resolve_command :: "cli \<Rightarrow> command" where
  "resolve_command c = or_default RunNode (cli_command c)"

datatype route =
    SetupFromFile string
  | RestoreKeystore
  | NotConfigured
  | StartNode
  | AlreadyConfigured
  | Wizard
  | OtherCommand command

text \<open>Which files the data directory holds decides what a plain start and \<open>setup\<close> do.\<close>

definition main_route :: "cli \<Rightarrow> bool \<Rightarrow> bool \<Rightarrow> route" where
  "main_route c config_exists keystore_exists =
     (case cli_config c of
        Some path \<Rightarrow> SetupFromFile path
      | None \<Rightarrow>
         (case resolve_command c of
            RunNode \<Rightarrow>
              if keystore_exists \<and> \<not> config_exists then RestoreKeystore
              else if is_first_boot config_exists keystore_exists then NotConfigured
              else StartNode
          | SetupNode \<Rightarrow> if \<not> is_first_boot config_exists keystore_exists then AlreadyConfigured else Wizard
          | other \<Rightarrow> OtherCommand other))"

section \<open>Outcome\<close>

text \<open>The setup file as the command meets it: its path, its text, its mode bits, how a rewrite ends.\<close>

record setup_file =
  sf_path :: string
  sf_contents :: "string + string"
  sf_mode_bits :: "string + u32"
  sf_rewrite :: "string + unit"
  sf_json_error :: "string \<Rightarrow> string"

record setup_ended =
  se_exit :: nat
  se_result :: setup_result
  se_file :: "string option"

definition setup_ends :: "setup_result \<Rightarrow> string option \<Rightarrow> setup_ended" where
  "setup_ends r file = \<lparr>se_exit = (if sr_success r then 0 else 1), se_result = r, se_file = file\<rparr>"

definition failed_setup :: "setup_mode \<Rightarrow> string \<Rightarrow> setup_error + string \<Rightarrow> setup_result" where
  "failed_setup mode step e = fail_result step e (with_mode mode (fresh_in_progress [] []))"

section \<open>Setup from a file\<close>

definition has_password :: "setup_config \<Rightarrow> bool" where
  "has_password cfg = (sc_keystore_password cfg \<noteq> None)"

text \<open>After the setup: a password in the file is removed once the setup succeeded; a failure to do so warns.\<close>

definition scrub_after :: "toolbox \<Rightarrow> setup_file \<Rightarrow> setup_config \<Rightarrow> setup_result \<Rightarrow> setup_ended" where
  "scrub_after T F cfg r =
     (if sr_success r \<and> has_password cfg then
        (case scrub_password_from_setup_file (tb_parse T) (tb_print T) (sf_json_error F) (sf_path F) (sf_contents F) (sf_rewrite F) of
           Inr file \<Rightarrow> setup_ends (performed ''scrub_password_from_config'' r) file
         | Inl e \<Rightarrow> setup_ends (warned (''failed to scrub keystore_password from '' @ sf_path F @ '': '' @ tb_show T e
                     @ '' -- delete the file manually or chmod 600 it'') r) None)
      else setup_ends r None)"

definition password_in_both :: string where
  "password_in_both = ''setup.json contains keystore_password but a keystore already exists at the data dir. MR1b (LLM-assisted) refuses password-in-config for the existing-keystore path -- the operator types the password interactively. Remove keystore_password from setup.json.''"

definition run_noninteractive_setup ::
  "toolbox \<Rightarrow> outside \<Rightarrow> string \<Rightarrow> setup_file \<Rightarrow> string + string \<Rightarrow> session \<Rightarrow> (session \<times> setup_ended) option" where
  "run_noninteractive_setup T W dir F stdin s =
     (let existing = (ss_keystore s \<noteq> None);
          mode = (if existing then ConfigWithKeystore else Fresh);
          refuse = (\<lambda>step e. Some (s, setup_ends (failed_setup mode step e) None))
      in case load_setup_config (tb_parse T) (sf_json_error F) (sf_path F) (sf_contents F) of
           Inl e \<Rightarrow> refuse ''load_config'' (Inl e)
         | Inr cfg \<Rightarrow>
            (case (if has_password cfg then enforce_setup_config_permissions (sf_path F) (sf_mode_bits F) else Inr ()) of
               Inl e \<Rightarrow> refuse ''enforce_config_permissions'' (Inl e)
             | Inr _ \<Rightarrow>
                (if existing then
                   (if has_password cfg then refuse ''validate_for_llm_assisted'' (Inr password_in_both)
                    else (case prompt_keystore_password stdin of
                       Inl e \<Rightarrow> refuse ''prompt_password'' (Inr e)
                     | Inr password \<Rightarrow> map_option (apsnd (scrub_after T F cfg))
                         (run_setup_noninteractive_llm_assisted T W dir cfg password s)))
                 else map_option (apsnd (scrub_after T F cfg)) (run_setup_noninteractive_fresh T W dir cfg s))))"

section \<open>Restore\<close>

definition restore_network :: "environment \<Rightarrow> network" where
  "restore_network env = (if env ''DEADMKT_NETWORK'' = Some ''mainnet'' then Mainnet else Testnet)"

text \<open>The client of a setup: the contract of the environment, or else the network's settlement contract.\<close>

definition setup_contract :: "environment \<Rightarrow> network \<Rightarrow> string" where
  "setup_contract env n =
     (case env ''DEADMKT_CONTRACT_ADDR'' of
        Some a \<Rightarrow> if a = [] then ca_settlement (default_contract_addresses n) else a
      | None \<Rightarrow> ca_settlement (default_contract_addresses n))"

definition setup_rpc :: "network \<Rightarrow> string" where
  "setup_rpc n = (case n of Testnet \<Rightarrow> ''https://rpc-testnet.supra.com'' | Mainnet \<Rightarrow> ''https://rpc-mainnet.supra.com'')"

definition setup_client_for :: "bridge_codec \<Rightarrow> environment \<Rightarrow> network \<Rightarrow> setup_client" where
  "setup_client_for X env n = setup_client_new X env [setup_rpc n] (setup_contract env n)"

definition run_restore_setup ::
  "toolbox \<Rightarrow> outside \<Rightarrow> string \<Rightarrow> environment \<Rightarrow> string + string \<Rightarrow> session \<Rightarrow> (session \<times> setup_ended) option" where
  "run_restore_setup T W dir env stdin s =
     (case prompt_keystore_password stdin of
        Inl e \<Rightarrow> Some (s, setup_ends (failed_setup Restore ''prompt_password'' (Inr e)) None)
      | Inr password \<Rightarrow> map_option (apsnd (\<lambda>r. setup_ends r None))
          (run_setup_noninteractive_restore T W dir password (restore_network env) s))"

section \<open>The wizard command and the placeholders\<close>

datatype wizard_end = WizardRefused | WizardDone node_settings | WizardFailed string bool

text \<open>A failure that mentions the gas ceiling prints a hint; every end leaves the exit code zero.\<close>

definition run_wizard_command :: "toolbox \<Rightarrow> outside \<Rightarrow> session \<Rightarrow> (session \<times> wizard_end) option" where
  "run_wizard_command T W s =
     (if \<not> is_first_boot (ss_config s \<noteq> None) (ss_keystore s \<noteq> None) then Some (s, WizardRefused)
      else map_option (apsnd (\<lambda>r. case r of
             Inr settings \<Rightarrow> WizardDone settings
           | Inl e \<Rightarrow> WizardFailed (tb_show T e) (contains_str ''out of gas'' (to_lower (tb_show T e)))))
        (run_wizard T W s))"

definition exit_of_wizard :: "wizard_end \<Rightarrow> nat" where
  "exit_of_wizard e = 0"

text \<open>Two commands print a fixed text, whatever the node holds.\<close>

definition placeholder_lines :: "command \<Rightarrow> string list" where
  "placeholder_lines c = (case c of
     ShowEscrow \<Rightarrow> [''Escrow balances:'', ''  (Requires running node '' @ map char_of [226 :: nat, 128, 148] @ '' escrow tracker not loaded)'']
   | ShowToken \<Rightarrow> [''Strategy auth token:'', ''  (Token generated at node startup)'']
   | _ \<Rightarrow> [])"

section \<open>What a setup command guarantees\<close>

lemma ends_fields [simp]:
  "se_exit (setup_ends r f) = (if sr_success r then 0 else 1)" "se_result (setup_ends r f) = r" "se_file (setup_ends r f) = f"
  by (simp_all add: setup_ends_def)

lemma failed_fields [simp]:
  "sr_success (failed_setup m step e) = False" "told T W None (ss_config s) s (failed_setup m step e)"
  by (simp_all add: failed_setup_def told_def fail_result_def)

lemma told_noted [simp]: "told T W ru c s (performed x r) = told T W ru c s r"
  "told T W ru c s (warned x r) = told T W ru c s r"
  by (simp_all add: told_def stored_as_told_def write_failed_def performed_def warned_def)

lemma success_noted [simp]: "sr_success (performed x r) = sr_success r" "sr_success (warned x r) = sr_success r"
  by (simp_all add: performed_def warned_def)

lemma scrub_after_fields [simp]:
  "se_exit (scrub_after T F cfg r) = (if sr_success r then 0 else 1)"
  "told T W ru c s (se_result (scrub_after T F cfg r)) = told T W ru c s r"
  "sr_success (se_result (scrub_after T F cfg r)) = sr_success r"
  by (auto simp: scrub_after_def split: sum.split)

lemma scrub_failed [simp]: "\<not> sr_success r \<Longrightarrow> se_file (scrub_after T F cfg r) = None"
  by (simp add: scrub_after_def)

text \<open>The password left the file, or the result warns that it is still there.\<close>

definition password_gone :: "toolbox \<Rightarrow> setup_file \<Rightarrow> setup_config \<Rightarrow> setup_ended \<Rightarrow> bool" where
  "password_gone T F cfg out =
     (case se_file out of
        Some text \<Rightarrow> load_setup_config (tb_parse T) (sf_json_error F) (sf_path F) (Inr text) = Inr (cfg\<lparr>sc_keystore_password := None\<rparr>)
      | None \<Rightarrow> sr_warnings (se_result out) \<noteq> [])"

lemma password_field: "setup_config_of_json (JObject kvs) = Some cfg \<Longrightarrow> has_password cfg \<Longrightarrow> map_of kvs ''keystore_password'' \<noteq> None"
proof
  assume read: "setup_config_of_json (JObject kvs) = Some cfg" and "has_password cfg" and "map_of kvs ''keystore_password'' = None"
  then have "filter (\<lambda>(k, v). k \<noteq> ''keystore_password'') kvs = kvs"
    by (auto simp: map_of_eq_None_iff image_iff filter_id_conv)
  with setup_config_scrubbed [OF read] read have "cfg = cfg\<lparr>sc_keystore_password := None\<rparr>" by simp
  then have "sc_keystore_password cfg = None" by (metis setup_config.select_convs(5) setup_config.surjective setup_config.update_convs(5))
  with \<open>has_password cfg\<close> show False by (simp add: has_password_def)
qed

lemma scrubbed_gone:
  assumes print: "\<And>j. tb_parse T (tb_print T j) = Some j"
    and load: "load_setup_config (tb_parse T) (sf_json_error F) (sf_path F) (sf_contents F) = Inr cfg"
    and cfg: "has_password cfg" "sr_success r"
  shows "password_gone T F cfg (scrub_after T F cfg r)"
proof -
  obtain body j where body: "sf_contents F = Inr body" "tb_parse T body = Some j" "setup_config_of_json j = Some cfg"
    using load by (auto simp: load_setup_config_def ok_or_def bind_eq_Some_conv split: sum.split_asm option.split_asm)
  show ?thesis
  proof (cases "scrub_password_from_setup_file (tb_parse T) (tb_print T) (sf_json_error F) (sf_path F) (sf_contents F) (sf_rewrite F)")
    case (Inl e)
    then show ?thesis using cfg by (simp add: scrub_after_def password_gone_def warned_def)
  next
    case (Inr new)
    then obtain kvs where j: "j = JObject kvs"
      using body by (auto simp: scrub_password_from_setup_file_def split: json.split_asm)
    then have "map_of kvs ''keystore_password'' \<noteq> None" using password_field body(3) cfg(1) by blast
    then have "new = Some (tb_print T (JObject (filter (\<lambda>(k, v). k \<noteq> ''keystore_password'') kvs)))"
      using Inr body j by (auto simp: scrub_password_from_setup_file_def split: sum.split_asm)
    then show ?thesis using cfg Inr setup_config_scrubbed [of kvs cfg] body(3) j
      by (simp add: scrub_after_def password_gone_def load_setup_config_def print ok_or_def)
  qed
qed

lemma told_run:
  "run_setup_noninteractive_fresh T W dir cfg s = Some (s', r) \<Longrightarrow> told T W None (ss_config s) s' r"
  "run_setup_noninteractive_llm_assisted T W dir cfg password s = Some (s', r) \<Longrightarrow> told T W None (ss_config s) s' r"
  "run_setup_noninteractive_restore T W dir password n s = Some (s', r) \<Longrightarrow> told T W None (ss_config s) s' r"
  using leads_fresh [of "ss_config s" T W cfg dir] leads_llm [of "ss_config s" T W cfg dir password]
    leads_restore [of "ss_config s" T W dir password n]
  unfolding leads_def by (blast intro: told_unspecific)+

lemma keystore_kept:
  "run_setup_noninteractive_llm_assisted T W dir cfg password s = Some (s', r) \<Longrightarrow> ss_keystore s' = ss_keystore s"
  using stays_keystore_llm [of T W dir cfg password] by (auto simp: stays_def within_def)

text \<open>A run of the command: refused with nothing touched, or one of the two setups, scrubbed after.\<close>

lemma setup_command_cases:
  assumes "run_noninteractive_setup T W dir F stdin s = Some (s', out)"
  obtains (refused) m step e where "s' = s" "out = setup_ends (failed_setup m step e) None"
  | (assisted) cfg password r where "load_setup_config (tb_parse T) (sf_json_error F) (sf_path F) (sf_contents F) = Inr cfg"
      "\<not> has_password cfg" "ss_keystore s \<noteq> None" "out = scrub_after T F cfg r"
      "run_setup_noninteractive_llm_assisted T W dir cfg password s = Some (s', r)"
  | (fresh) cfg r where "load_setup_config (tb_parse T) (sf_json_error F) (sf_path F) (sf_contents F) = Inr cfg"
      "has_password cfg \<longrightarrow> enforce_setup_config_permissions (sf_path F) (sf_mode_bits F) = Inr ()"
      "ss_keystore s = None" "out = scrub_after T F cfg r" "run_setup_noninteractive_fresh T W dir cfg s = Some (s', r)"
proof (cases "load_setup_config (tb_parse T) (sf_json_error F) (sf_path F) (sf_contents F)")
  case (Inl e)
  then show thesis using assms by (auto simp: run_noninteractive_setup_def Let_def intro: refused)
next
  case cfg: (Inr cfg)
  show thesis
  proof (cases "if has_password cfg then enforce_setup_config_permissions (sf_path F) (sf_mode_bits F) else Inr ()")
    case (Inl e)
    then show thesis using assms cfg by (auto simp: run_noninteractive_setup_def Let_def intro: refused)
  next
    case ok: (Inr u)
    show thesis
    proof (cases "ss_keystore s = None")
      case True
      then show thesis using assms cfg ok
        by (cases "has_password cfg") (auto simp: run_noninteractive_setup_def intro: fresh)
    next
      case False
      show thesis
      proof (cases "has_password cfg")
        case True
        then show thesis using assms cfg ok False by (auto simp: run_noninteractive_setup_def Let_def intro: refused)
      next
        case none: False
        then show thesis using assms cfg ok False
          by (cases "prompt_keystore_password stdin")
            (auto simp: run_noninteractive_setup_def Let_def intro: refused assisted)
      qed
    qed
  qed
qed

text \<open>
  C13. A setup from a file is careful with what it finds. Its exit code is zero exactly when the printed result says
  success, and the result tells the truth about the configuration file. A keystore that is there stays as it is.
  A setup file that holds a password is refused, with nothing touched, when the data directory has a
  keystore already or when the file is open to others; and when the setup succeeds, the
  password is gone from the rewritten file or the result warns. A failed setup never rewrites the file.
\<close>

theorem setup_command_guards_secrets:
  assumes "\<And>j. tb_parse T (tb_print T j) = Some j"
    and "run_noninteractive_setup T W dir F stdin s = Some (s', out)"
  shows "(se_exit out = 0 \<longleftrightarrow> sr_success (se_result out)) \<and> told T W None (ss_config s) s' (se_result out)
    \<and> (ss_keystore s \<noteq> None \<longrightarrow> ss_keystore s' = ss_keystore s)
    \<and> (se_exit out \<noteq> 0 \<longrightarrow> se_file out = None)
    \<and> (\<forall>cfg. load_setup_config (tb_parse T) (sf_json_error F) (sf_path F) (sf_contents F) = Inr cfg \<and> has_password cfg \<longrightarrow>
         (se_exit out = 0 \<longrightarrow> password_gone T F cfg out)
         \<and> (ss_keystore s \<noteq> None \<or> (\<forall>bits. sf_mode_bits F = Inr bits \<longrightarrow> bits AND 0x1FF \<noteq> 0x180) \<longrightarrow> s' = s \<and> se_exit out = 1))"
  using assms(2)
proof (cases rule: setup_command_cases)
  case (refused m step e)
  then show ?thesis by simp
next
  case (assisted cfg password r)
  then show ?thesis using told_run(2) [OF assisted(5)] keystore_kept [OF assisted(5)] by auto
next
  case (fresh cfg r)
  have closed: "\<exists>bits. sf_mode_bits F = Inr bits \<and> bits AND 0x1FF = 0x180" if "has_password cfg"
    using fresh(2) that by (auto simp: enforce_setup_config_permissions_def Let_def split: sum.split_asm if_split_asm)
  have gone: "password_gone T F cfg (scrub_after T F cfg r)" if "has_password cfg" "sr_success r"
    using scrubbed_gone [OF assms(1) fresh(1) that] .
  show ?thesis using fresh told_run(1) [OF fresh(5)] closed gone by (auto split: if_split_asm)
qed

definition example_setup_file :: setup_file where
  "example_setup_file = \<lparr>sf_path = ''setup.json'', sf_contents = Inr (text_of_json example_setup_json), sf_mode_bits = Inr 0x1A4,
     sf_rewrite = Inr (), sf_json_error = id\<rparr>"

theorem setup_command_guards_secrets_witness:
  "\<exists>out. run_noninteractive_setup (example_toolbox\<lparr>tb_parse := json_of_text\<rparr>) example_world ''data'' example_setup_file (Inr [])
       (example_setup_session\<lparr>ss_keystore := None\<rparr>) = Some (example_setup_session\<lparr>ss_keystore := None\<rparr>, out)
     \<and> se_exit out = 1 \<and> sr_step (se_result out) = Some ''enforce_config_permissions''"
proof -
  let ?T = "example_toolbox\<lparr>tb_parse := json_of_text\<rparr>" and ?s = "example_setup_session\<lparr>ss_keystore := None\<rparr>"
  have print: "tb_parse ?T (tb_print ?T j) = Some j" for j by (simp add: example_toolbox_def)
  have cfg: "load_setup_config (tb_parse ?T) (sf_json_error example_setup_file) (sf_path example_setup_file)
      (sf_contents example_setup_file) = Inr example_setup"
    by (simp add: load_setup_config_def example_setup_file_def example_setup_reads)
  have pw: "has_password example_setup" by (simp add: has_password_def example_setup_def)
  have bits: "sf_mode_bits example_setup_file = Inr 0x1A4" "(0x1A4 :: u32) AND 0x1FF \<noteq> 0x180"
    by (simp_all add: example_setup_file_def)
  have "\<exists>out. run_noninteractive_setup ?T example_world ''data'' example_setup_file (Inr []) ?s = Some (?s, out)
      \<and> sr_step (se_result out) = Some ''enforce_config_permissions''"
    using cfg pw bits by (simp add: run_noninteractive_setup_def enforce_setup_config_permissions_def failed_setup_def
        fail_result_def Let_def)
  then obtain out where out: "run_noninteractive_setup ?T example_world ''data'' example_setup_file (Inr []) ?s = Some (?s, out)"
    "sr_step (se_result out) = Some ''enforce_config_permissions''" by blast
  show ?thesis using setup_command_guards_secrets [OF print out(1)] cfg pw bits out by auto
qed

end
