(* ===== verification/NodeStatus.thy ===== *)
theory NodeStatus
  imports RpcClient Config
begin

text \<open>
  The status endpoint: the JSON body that \<open>src/run.rs\<close> writes by hand (\<open>build_status_v1_json\<close> and the form
  without a running node), the server on port 9292 with its limit on connections, and the client of
  \<open>src/main.rs\<close> that reads it (\<open>status --json\<close>). The values are those of the atomics at the time of the
  connection; the clock and the answers of the socket are arguments.
\<close>

section \<open>The body\<close>

record shown_mint =
  sm_emm :: u64
  sm_kay :: u64
  sm_tee :: u64
  sm_supra_cost :: u64
  sm_claimable_at :: u64

record status_view =
  hv_network :: string
  hv_role :: string
  hv_nft_id :: u64
  hv_trustee :: string
  hv_payout :: string
  hv_uptime :: u64
  hv_batch :: u64
  hv_phase :: u8
  hv_pool_id :: u64
  hv_num_pools :: u64
  hv_peers :: u64
  hv_block :: u64
  hv_gas_micro :: u64
  hv_gas_status :: u8
  hv_paused :: bool
  hv_paused_since :: u64
  hv_emm :: u64
  hv_kay :: u64
  hv_tee :: u64
  hv_inactive :: u32
  hv_attempts :: u64
  hv_successes :: u64
  hv_submits :: u64
  hv_aborts :: u64
  hv_mint :: "shown_mint option"

definition phase_str :: "u8 \<Rightarrow> string" where
  "phase_str p = (if p = 0 then ''Commit'' else if p = 1 then ''Reveal'' else if p = 2 then ''Match''
     else if p = 3 then ''Swap'' else ''Unknown'')"

definition gas_status_str :: "u8 \<Rightarrow> string" where
  "gas_status_str g = (if g = 0 then ''Normal'' else if g = 1 then ''Low'' else if g = 2 then ''Critical'' else ''Unknown'')"

text \<open>\<open>{:02}\<close>\<close>

definition two_digits :: "nat \<Rightarrow> string" where
  "two_digits n = (if n < 10 then ''0'' else []) @ nat_str n"

definition gas_supra_str :: "u64 \<Rightarrow> string" where
  "gas_supra_str micro = u64_str (micro div 100000000) @ ''.'' @ two_digits (unat ((micro mod 100000000) div 1000000))"

text \<open>\<open>(claimable as i64 - now as i64).max(0)\<close>, on two's complement.\<close>

definition seconds_remaining :: "u64 \<Rightarrow> u64 \<Rightarrow> u64" where
  "seconds_remaining now claimable = (if 0 \<le> sint (claimable - now) then claimable - now else 0)"

definition bool_str :: "bool \<Rightarrow> string" where
  "bool_str b = (if b then ''true'' else ''false'')"

definition mint_obj :: "u64 \<Rightarrow> shown_mint option \<Rightarrow> string" where
  \<open>mint_obj now m = (case m of
     None \<Rightarrow> ''null''
   | Some pm \<Rightarrow> ''{"emm_amount":'' @ u64_str (sm_emm pm) @ '',"kay_amount":'' @ u64_str (sm_kay pm)
       @ '',"tee_amount":'' @ u64_str (sm_tee pm) @ '',"supra_cost":'' @ u64_str (sm_supra_cost pm)
       @ '',"claimable_at_unix":'' @ u64_str (sm_claimable_at pm)
       @ '',"seconds_remaining":'' @ u64_str (seconds_remaining now (sm_claimable_at pm)) @ ''}'')\<close>

definition identity_obj :: "string \<Rightarrow> string \<Rightarrow> u64 \<Rightarrow> string \<Rightarrow> string \<Rightarrow> string" where
  \<open>identity_obj network role nft_id trustee payout =
     ''{"network":"'' @ network @ ''","node_role":"'' @ role @ ''","nft_id":'' @ u64_str nft_id
     @ '',"trustee_address":"'' @ trustee @ ''","payout_address":"'' @ payout @ ''"}''\<close>

definition runtime_obj :: "status_view \<Rightarrow> string" where
  \<open>runtime_obj v = ''{"uptime_batches":'' @ u64_str (hv_uptime v) @ '',"current_batch":'' @ u64_str (hv_batch v)
     @ '',"current_phase":"'' @ phase_str (hv_phase v) @ ''","pool_id":'' @ u64_str (hv_pool_id v)
     @ '',"num_pools":'' @ u64_str (hv_num_pools v) @ '',"peers":'' @ u64_str (hv_peers v)
     @ '',"last_block":'' @ u64_str (hv_block v) @ ''}''\<close>

definition gas_obj :: "status_view \<Rightarrow> string" where
  \<open>gas_obj v = ''{"balance_supra":"'' @ gas_supra_str (hv_gas_micro v) @ ''","status":"'' @ gas_status_str (hv_gas_status v)
     @ ''","trading_paused":'' @ bool_str (hv_paused v) @ '',"paused_since_batch":''
     @ (if hv_paused v then u64_str (hv_paused_since v) else ''null'') @ ''}''\<close>

definition build_status_v1_json :: "u64 \<Rightarrow> status_view \<Rightarrow> string" where
  \<open>build_status_v1_json now v =
     ''{"schema_version":"v1","node_running":true,"timestamp_unix":'' @ u64_str now
     @ '',"identity":'' @ identity_obj (hv_network v) (hv_role v) (hv_nft_id v) (hv_trustee v) (hv_payout v)
     @ '',"runtime":'' @ runtime_obj v @ '',"gas":'' @ gas_obj v
     @ '',"mint":{"has_pending_mint":'' @ bool_str (hv_mint v \<noteq> None) @ '',"pending":'' @ mint_obj now (hv_mint v)
     @ ''},"escrow":{"emm":'' @ u64_str (hv_emm v) @ '',"kay":'' @ u64_str (hv_kay v) @ '',"tee":'' @ u64_str (hv_tee v)
     @ ''},"liveness":{"consecutive_inactive":'' @ nat_str (unat (hv_inactive v))
     @ '',"auto_reactivate_attempts":'' @ u64_str (hv_attempts v)
     @ '',"auto_reactivate_successes":'' @ u64_str (hv_successes v)
     @ ''},"settle":{"submits_total":'' @ u64_str (hv_submits v) @ '',"aborts_total":'' @ u64_str (hv_aborts v) @ ''}}''\<close>

definition escape_quotes :: "string \<Rightarrow> string" where
  \<open>escape_quotes s = concat (map (\<lambda>c. if c = CHR 0x5C \<or> c = CHR 0x22 then [CHR 0x5C, c] else [c]) s)\<close>

definition build_status_v1_disk_only_json :: "u64 \<Rightarrow> string \<Rightarrow> string \<Rightarrow> u64 \<Rightarrow> string \<Rightarrow> string \<Rightarrow> string \<Rightarrow> string" where
  \<open>build_status_v1_disk_only_json now network role nft_id trustee payout error =
     ''{"schema_version":"v1","node_running":false,"timestamp_unix":'' @ u64_str now
     @ '',"identity":'' @ identity_obj network role nft_id trustee payout
     @ '',"error":"'' @ escape_quotes error @ ''"}''\<close>

section \<open>The server\<close>

record health_server =
  hs_count :: u32
  hs_last_reset :: nat

text \<open>A connection at \<open>now\<close> (milliseconds): more than ten in a second are dropped.\<close>

definition admit :: "nat \<Rightarrow> health_server \<Rightarrow> health_server \<times> bool" where
  "admit now h =
     (let h1 = (if 1000 \<le> now - hs_last_reset h then \<lparr>hs_count = 0, hs_last_reset = now\<rparr> else h);
          h2 = h1\<lparr>hs_count := hs_count h1 + 1\<rparr>
      in (h2, hs_count h2 \<le> 10))"

definition crlf :: string where
  "crlf = [CHR 0x0D, CHR 0x0A]"

definition http_ok :: "string \<Rightarrow> string" where
  "http_ok body =
     ''HTTP/1.1 200 OK'' @ crlf @ ''Content-Type: application/json'' @ crlf @ ''Content-Length: '' @ nat_str (length body) @ crlf
     @ ''Connection: close'' @ crlf @ crlf @ body"

fun serve :: "(nat \<times> u64 \<times> status_view) list \<Rightarrow> health_server \<Rightarrow> string option list" where
  "serve [] h = []"
| "serve ((at, now, v) # conns) h =
     (case admit at h of (h', ok) \<Rightarrow>
        (if ok then Some (http_ok (build_status_v1_json now v)) else None) # serve conns h')"

section \<open>The client\<close>

record status_socket =
  so_connect :: "string + unit"
  so_write :: "string + unit"
  so_read :: "string + string"

definition first_chars :: "nat \<Rightarrow> string \<Rightarrow> string" where
  "first_chars n s = fst (foldl (\<lambda>(shown, k) c.
      let k' = (if continuation_byte c then k else k + 1) in if k' \<le> n then (shown @ [c], k') else (shown, k')) ([], 0) s)"

text \<open>\<open>lossy\<close> is the lossy reading of UTF-8.\<close>

definition fetch_status_v1 :: "(string \<Rightarrow> string) \<Rightarrow> status_socket \<Rightarrow> string + string" where
  "fetch_status_v1 lossy K =
     res_bind (so_connect K) (\<lambda>_. res_bind (so_write K) (\<lambda>_. res_bind (so_read K) (\<lambda>buf.
     res_bind (ok_or ''no body delimiter'' (after_str (crlf @ crlf) buf)) (\<lambda>rest.
       let trimmed = trim (lossy rest)
       in if starts_with ''{'' trimmed then Inr trimmed else Inl (''non-JSON body: '' @ first_chars 80 trimmed)))))"

text \<open>What \<open>status --json\<close> prints; it always exits with zero.\<close>

definition status_json ::
  "(string \<Rightarrow> json option) \<Rightarrow> environment \<Rightarrow> string + string \<Rightarrow> (string \<Rightarrow> string) \<Rightarrow> status_socket \<Rightarrow> u64 \<Rightarrow> string" where
  "status_json parse env contents lossy K now =
     (case fetch_status_v1 lossy K of
        Inr body \<Rightarrow> body
      | Inl e \<Rightarrow>
         (case load_settings parse env contents of
            Inr cfg \<Rightarrow> build_status_v1_disk_only_json now (network_name (ns_network cfg))
              (if env ''DEADMKT_NO_STRATEGY'' = Some ''1'' then ''bootstrap'' else ''trading'') (ns_nft_id cfg)
              (ns_trustee_address cfg) (ns_payout_address cfg)
              (''could not connect to running node on 127.0.0.1:9292: '' @ e)
          | Inl _ \<Rightarrow> build_status_v1_disk_only_json now ''unknown'' ''unknown'' 0 [] [] ''node not configured and not running''))"

section \<open>The body is JSON\<close>

text \<open>Compact JSON as the standard has it (RFC 8259): in a string, a quote, a backslash and every control
  character is escaped. The program escapes by hand, and only the first two.\<close>

definition plain_text :: "string \<Rightarrow> bool" where
  "plain_text s = (\<forall>c \<in> set s. c \<noteq> CHR 0x22 \<and> c \<noteq> CHR 0x5C \<and> 32 \<le> (of_char c :: nat))"

definition no_control :: "string \<Rightarrow> bool" where
  "no_control s = (\<forall>c \<in> set s. 32 \<le> (of_char c :: nat))"

definition hex_digit :: "nat \<Rightarrow> char" where
  "hex_digit d = ''0123456789abcdef'' ! d"

definition json_char :: "char \<Rightarrow> string" where
  \<open>json_char c =
     (if c = CHR 0x22 \<or> c = CHR 0x5C then [CHR 0x5C, c]
      else if c = CHR 0x08 then [CHR 0x5C, CHR ''b''] else if c = CHR 0x09 then [CHR 0x5C, CHR ''t'']
      else if c = CHR 0x0A then [CHR 0x5C, CHR ''n''] else if c = CHR 0x0C then [CHR 0x5C, CHR ''f'']
      else if c = CHR 0x0D then [CHR 0x5C, CHR ''r'']
      else if (of_char c :: nat) < 32
      then [CHR 0x5C, CHR ''u'', CHR ''0'', CHR ''0'', hex_digit (of_char c div 16), hex_digit (of_char c mod 16)]
      else [c])\<close>

definition json_quoted :: "string \<Rightarrow> string" where
  \<open>json_quoted s = ''"'' @ concat (map json_char s) @ ''"''\<close>

fun joined :: "string \<Rightarrow> string list \<Rightarrow> string" where
  "joined sep [] = []"
| "joined sep [x] = x"
| "joined sep (x # y # xs) = x @ sep @ joined sep (y # xs)"

fun compact :: "json \<Rightarrow> string" where
  "compact JNull = ''null''"
| "compact (JBool b) = bool_str b"
| "compact (JInt i) = (if i < 0 then ''-'' else []) @ nat_str (nat \<bar>i\<bar>)"
| "compact (JFloat f) = f"
| "compact (JString s) = json_quoted s"
| "compact (JArray xs) = ''['' @ joined '','' (map compact xs) @ '']''"
| "compact (JObject kvs) = ''{'' @ joined '','' (map (\<lambda>(k, v). json_quoted k @ '':'' @ compact v) kvs) @ ''}''"

definition identity_json :: "string \<Rightarrow> string \<Rightarrow> u64 \<Rightarrow> string \<Rightarrow> string \<Rightarrow> json" where
  "identity_json network role nft_id trustee payout =
     JObject [(''network'', JString network), (''node_role'', JString role), (''nft_id'', jnum nft_id),
       (''trustee_address'', JString trustee), (''payout_address'', JString payout)]"

definition mint_json :: "u64 \<Rightarrow> shown_mint option \<Rightarrow> json" where
  "mint_json now m = (case m of None \<Rightarrow> JNull | Some pm \<Rightarrow>
     JObject [(''emm_amount'', jnum (sm_emm pm)), (''kay_amount'', jnum (sm_kay pm)), (''tee_amount'', jnum (sm_tee pm)),
       (''supra_cost'', jnum (sm_supra_cost pm)), (''claimable_at_unix'', jnum (sm_claimable_at pm)),
       (''seconds_remaining'', jnum (seconds_remaining now (sm_claimable_at pm)))])"

definition status_tree :: "u64 \<Rightarrow> status_view \<Rightarrow> json" where
  "status_tree now v =
     JObject [(''schema_version'', JString ''v1''), (''node_running'', JBool True), (''timestamp_unix'', jnum now),
       (''identity'', identity_json (hv_network v) (hv_role v) (hv_nft_id v) (hv_trustee v) (hv_payout v)),
       (''runtime'', JObject [(''uptime_batches'', jnum (hv_uptime v)), (''current_batch'', jnum (hv_batch v)),
          (''current_phase'', JString (phase_str (hv_phase v))), (''pool_id'', jnum (hv_pool_id v)),
          (''num_pools'', jnum (hv_num_pools v)), (''peers'', jnum (hv_peers v)), (''last_block'', jnum (hv_block v))]),
       (''gas'', JObject [(''balance_supra'', JString (gas_supra_str (hv_gas_micro v))),
          (''status'', JString (gas_status_str (hv_gas_status v))), (''trading_paused'', JBool (hv_paused v)),
          (''paused_since_batch'', if hv_paused v then jnum (hv_paused_since v) else JNull)]),
       (''mint'', JObject [(''has_pending_mint'', JBool (hv_mint v \<noteq> None)), (''pending'', mint_json now (hv_mint v))]),
       (''escrow'', JObject [(''emm'', jnum (hv_emm v)), (''kay'', jnum (hv_kay v)), (''tee'', jnum (hv_tee v))]),
       (''liveness'', JObject [(''consecutive_inactive'', jnum (hv_inactive v)),
          (''auto_reactivate_attempts'', jnum (hv_attempts v)), (''auto_reactivate_successes'', jnum (hv_successes v))]),
       (''settle'', JObject [(''submits_total'', jnum (hv_submits v)), (''aborts_total'', jnum (hv_aborts v))])]"

lemma json_char_plain: "32 \<le> (of_char c :: nat) \<Longrightarrow> json_char c = (if c = CHR 0x5C \<or> c = CHR 0x22 then [CHR 0x5C, c] else [c])"
  by (auto simp: json_char_def)

lemma json_quoted_plain: "no_control s \<Longrightarrow> json_quoted s = ''\"'' @ escape_quotes s @ ''\"''"
proof -
  assume "no_control s"
  then have "map json_char s = map (\<lambda>c. if c = CHR 0x5C \<or> c = CHR 0x22 then [CHR 0x5C, c] else [c]) s"
    by (simp add: no_control_def json_char_plain)
  then show ?thesis unfolding json_quoted_def escape_quotes_def by (rule arg_cong [of _ _ "\<lambda>body. ''\"'' @ concat body @ ''\"''"])
qed

lemma no_control_simps [simp]:
  "no_control []" "no_control (c # s) \<longleftrightarrow> 32 \<le> (of_char c :: nat) \<and> no_control s"
  "no_control (s @ t) \<longleftrightarrow> no_control s \<and> no_control t"
  by (auto simp: no_control_def)

lemma plain_no_control: "plain_text s \<Longrightarrow> no_control s"
  by (simp add: plain_text_def no_control_def)

lemma escape_plain: "plain_text s \<Longrightarrow> escape_quotes s = s"
  by (induction s) (simp_all add: escape_quotes_def plain_text_def)

lemma escape_append [simp]: "escape_quotes (a @ b) = escape_quotes a @ escape_quotes b" "escape_quotes [] = []"
  by (simp_all add: escape_quotes_def)

lemma escape_cons: "escape_quotes (c # s) = (if c = CHR 0x5C \<or> c = CHR 0x22 then [CHR 0x5C, c] else [c]) @ escape_quotes s"
  by (simp add: escape_quotes_def)

lemma compact_num [simp]: "compact (jnum (w :: 'a::len word)) = nat_str (unat w)"
  by (simp add: jnum_def)

lemma plain_nat_str: "plain_text (nat_str n)"
  unfolding plain_text_def
proof
  fix c assume "c \<in> set (nat_str n)"
  then have "char_digit c \<noteq> None" by (rule set_nat_str)
  then show "c \<noteq> CHR 0x22 \<and> c \<noteq> CHR 0x5C \<and> 32 \<le> (of_char c :: nat)"
    by (auto simp: char_digit_def Let_def split: if_split_asm)
qed

lemma escape_nat_str [simp]: "escape_quotes (nat_str n) = nat_str n"
  by (rule escape_plain [OF plain_nat_str])

lemma escape_names [simp]:
  "escape_quotes (phase_str p) = phase_str p" "escape_quotes (gas_status_str g) = gas_status_str g"
  "escape_quotes (gas_supra_str m) = gas_supra_str m"
  by (simp_all add: phase_str_def gas_status_str_def gas_supra_str_def two_digits_def u64_str_def escape_cons)

lemma no_control_names [simp]:
  "no_control (nat_str n)" "no_control (phase_str p)" "no_control (gas_status_str g)" "no_control (gas_supra_str m)"
  by (simp_all add: plain_no_control plain_nat_str phase_str_def gas_status_str_def gas_supra_str_def two_digits_def u64_str_def)

lemma compact_identity:
  assumes "plain_text network" "plain_text role" "plain_text trustee" "plain_text payout"
  shows "compact (identity_json network role nft_id trustee payout) = identity_obj network role nft_id trustee payout"
  using assms by (simp add: identity_json_def identity_obj_def json_quoted_plain plain_no_control escape_plain escape_cons u64_str_def)

lemma compact_mint: "compact (mint_json now m) = mint_obj now m"
  by (simp add: mint_json_def mint_obj_def json_quoted_plain escape_cons u64_str_def split: option.split)

lemma compact_status:
  assumes "plain_text (hv_network v)" "plain_text (hv_role v)" "plain_text (hv_trustee v)" "plain_text (hv_payout v)"
  shows "compact (status_tree now v) = build_status_v1_json now v"
  using assms
  by (simp add: status_tree_def build_status_v1_json_def compact_identity compact_mint runtime_obj_def gas_obj_def json_quoted_plain
      escape_cons u64_str_def bool_str_def)

definition disk_only_tree :: "u64 \<Rightarrow> string \<Rightarrow> string \<Rightarrow> u64 \<Rightarrow> string \<Rightarrow> string \<Rightarrow> string \<Rightarrow> json" where
  "disk_only_tree now network role nft_id trustee payout error =
     JObject [(''schema_version'', JString ''v1''), (''node_running'', JBool False), (''timestamp_unix'', jnum now),
       (''identity'', identity_json network role nft_id trustee payout), (''error'', JString error)]"

lemma compact_disk_only:
  assumes "plain_text network" "plain_text role" "plain_text trustee" "plain_text payout" "no_control error"
  shows "compact (disk_only_tree now network role nft_id trustee payout error)
    = build_status_v1_disk_only_json now network role nft_id trustee payout error"
  using assms
  by (simp add: disk_only_tree_def build_status_v1_disk_only_json_def compact_identity json_quoted_plain escape_cons u64_str_def bool_str_def)

section \<open>What the operator reads\<close>

lemma after_str_skip: "set ds \<inter> set p = {} \<Longrightarrow> p \<noteq> [] \<Longrightarrow> after_str p (ds @ rest) = after_str p rest"
proof (induction ds)
  case (Cons d ds)
  then have "hd p \<noteq> d" by (cases p) auto
  then have "\<not> starts_with p (d # ds @ rest)" using Cons.prems by (cases p) (auto simp: starts_with_def)
  then show ?case using Cons by simp
qed simp

lemma body_found: "after_str (crlf @ crlf) (http_ok body) = Some body"
proof -
  have digits: "set (nat_str n) \<inter> set (crlf @ crlf) = {}" for n
    using set_nat_str [of "CHR 0x0D" n] set_nat_str [of "CHR 0x0A" n]
    by (auto simp: crlf_def char_digit_def)
  show ?thesis
    unfolding http_ok_def
    by (simp add: crlf_def starts_with_def after_str_skip [OF digits, unfolded crlf_def, simplified])
qed

lemma trim_braces: "trim (CHR 0x7B # s @ [CHR 0x7D]) = CHR 0x7B # s @ [CHR 0x7D]"
  by (simp add: trim_def is_white_def)

lemma status_braces: "\<exists>s. build_status_v1_json now v = CHR 0x7B # s @ [CHR 0x7D]"
  by (simp add: build_status_v1_json_def)

lemma fetch_served:
  assumes "so_connect K = Inr ()" "so_write K = Inr ()" "so_read K = Inr (http_ok (build_status_v1_json now v))"
    and "lossy (build_status_v1_json now v) = build_status_v1_json now v"
  shows "fetch_status_v1 lossy K = Inr (build_status_v1_json now v)"
proof -
  obtain s where s: "build_status_v1_json now v = CHR 0x7B # s @ [CHR 0x7D]" using status_braces by blast
  then show ?thesis using assms
    by (simp add: fetch_status_v1_def body_found Let_def) (simp add: trim_braces starts_with_def)
qed

text \<open>
  C16. \<open>status --json\<close> prints the node's own account. When the endpoint answers, the text printed is, byte for byte, the
  compact JSON of the node's identity, batch, gas, mint, escrow, liveness and settlement figures. When
  it does not, for a reason without control characters, and the configuration loads, it is the compact JSON
  of the identity in the file, with \<open>node_running\<close> false, the reason, and the role \<open>bootstrap\<close> exactly when
  \<open>DEADMKT_NO_STRATEGY\<close> is 1; when the configuration does not load either, it is the JSON of an unknown
  identity. Identities with a quote, a backslash or a control character are left out, as nothing escapes them,
  and so is a reason with a control character, which the program prints as it is.
\<close>

theorem status_reaches_operator:
  assumes "plain_text (hv_network v)" "plain_text (hv_role v)" "plain_text (hv_trustee v)" "plain_text (hv_payout v)"
    and "lossy (compact (status_tree now v)) = compact (status_tree now v)"
    and "so_connect K = Inr ()" "so_write K = Inr ()"
  shows "(\<forall>h at. snd (admit at h) \<longrightarrow> (\<forall>answer. serve [(at, now, v)] h = [Some answer] \<and> so_read K = Inr answer \<longrightarrow>
            status_json parse env contents lossy K later = compact (status_tree now v)))
    \<and> (\<forall>K' e cfg. fetch_status_v1 lossy K' = Inl e \<and> no_control e \<and> load_settings parse env contents = Inr cfg
          \<and> plain_text (ns_trustee_address cfg) \<and> plain_text (ns_payout_address cfg) \<longrightarrow>
         status_json parse env contents lossy K' now
            = compact (disk_only_tree now (case ns_network cfg of Testnet \<Rightarrow> ''testnet'' | Mainnet \<Rightarrow> ''mainnet'')
                (if env ''DEADMKT_NO_STRATEGY'' = Some ''1'' then ''bootstrap'' else ''trading'') (ns_nft_id cfg)
                (ns_trustee_address cfg) (ns_payout_address cfg)
                (''could not connect to running node on 127.0.0.1:9292: '' @ e)))
    \<and> (\<forall>K' e e'. fetch_status_v1 lossy K' = Inl e \<and> load_settings parse env contents = Inl e' \<longrightarrow>
         status_json parse env contents lossy K' now
            = compact (disk_only_tree now ''unknown'' ''unknown'' 0 [] [] ''node not configured and not running''))"
proof (intro conjI allI impI)
  fix h at answer
  assume "snd (admit at h)" "serve [(at, now, v)] h = [Some answer] \<and> so_read K = Inr answer"
  then have "so_read K = Inr (http_ok (build_status_v1_json now v))" by (auto split: prod.split_asm)
  from fetch_served [OF assms(6,7) this] assms(1-5) show "status_json parse env contents lossy K later = compact (status_tree now v)"
    by (simp add: status_json_def compact_status)
next
  fix K' e cfg
  assume a: "fetch_status_v1 lossy K' = Inl e \<and> no_control e \<and> load_settings parse env contents = Inr cfg
          \<and> plain_text (ns_trustee_address cfg) \<and> plain_text (ns_payout_address cfg)"
  let ?role = "if env ''DEADMKT_NO_STRATEGY'' = Some ''1'' then ''bootstrap'' else ''trading''"
  have "plain_text (network_name (ns_network cfg))" "plain_text ?role"
    by (simp_all add: network_name_def plain_text_def split: network.split)
  with a show "status_json parse env contents lossy K' now
            = compact (disk_only_tree now (case ns_network cfg of Testnet \<Rightarrow> ''testnet'' | Mainnet \<Rightarrow> ''mainnet'') ?role
                (ns_nft_id cfg) (ns_trustee_address cfg) (ns_payout_address cfg)
                (''could not connect to running node on 127.0.0.1:9292: '' @ e))"
    by (simp add: status_json_def compact_disk_only network_name_def)
next
  fix K' e e'
  assume "fetch_status_v1 lossy K' = Inl e \<and> load_settings parse env contents = Inl e'"
  moreover have "plain_text ''unknown''" "plain_text []" by (simp_all add: plain_text_def)
  ultimately show "status_json parse env contents lossy K' now
      = compact (disk_only_tree now ''unknown'' ''unknown'' 0 [] [] ''node not configured and not running'')"
    by (simp add: status_json_def compact_disk_only)
qed

section \<open>The limit on connections\<close>

lemma admit_within:
  assumes "t < hs_last_reset h + 1000"
  shows "admit t h = (h\<lparr>hs_count := hs_count h + 1\<rparr>, hs_count h + 1 \<le> 10)"
proof -
  have "\<not> 1000 \<le> t - hs_last_reset h" using assms by linarith
  then show ?thesis by (simp add: admit_def Let_def)
qed

lemma served_within:
  assumes "\<forall>c \<in> set conns. fst c < hs_last_reset h + 1000" "unat (hs_count h) + length conns < 2 ^ 32"
  shows "length (filter (\<lambda>x. x \<noteq> None) (serve conns h)) \<le> 10 - unat (hs_count h)"
  using assms
proof (induction conns arbitrary: h)
  case (Cons c conns)
  obtain t now v where c: "c = (t, now, v)" by (cases c) auto
  let ?h = "h\<lparr>hs_count := hs_count h + 1\<rparr>"
  have up: "unat (hs_count h + 1) = Suc (unat (hs_count h))"
    using Cons.prems(2) by (simp add: unat_add_no_wrap)
  have ih: "length (filter (\<lambda>x. x \<noteq> None) (serve conns ?h)) \<le> 10 - Suc (unat (hs_count h))"
    using Cons.IH [of ?h] Cons.prems by (simp add: up)
  have "hs_count h + 1 \<le> 10 \<longleftrightarrow> Suc (unat (hs_count h)) \<le> 10" using up by (simp add: word_le_nat_alt)
  then show ?case using ih Cons.prems(1) by (auto simp: c admit_within)
qed simp

text \<open>
  Between two resets of its counter the endpoint answers at most ten connections, and a connection a second or
  more after the last reset is always answered.
\<close>

theorem health_rate_limited:
  assumes "unat (hs_count h) + length conns < 2 ^ 32"
  shows "((\<forall>c \<in> set conns. fst c < hs_last_reset h + 1000) \<longrightarrow>
      length (filter (\<lambda>x. x \<noteq> None) (serve conns h)) \<le> 10 - unat (hs_count h))
    \<and> (\<forall>t now v. hs_last_reset h + 1000 \<le> t \<longrightarrow> serve [(t, now, v)] h = [Some (http_ok (build_status_v1_json now v))])"
proof -
  have "1000 \<le> t - hs_last_reset h" if "hs_last_reset h + 1000 \<le> t" for t using that by linarith
  then show ?thesis using served_within [OF _ assms] by (simp add: admit_def Let_def)
qed

text \<open>A node in its first batch, asked once.\<close>

definition example_status :: status_view where
  "example_status = \<lparr>hv_network = ''testnet'', hv_role = ''trading'', hv_nft_id = 7, hv_trustee = ''0x1'', hv_payout = ''0x2'',
     hv_uptime = 0, hv_batch = 5, hv_phase = 1, hv_pool_id = 0, hv_num_pools = 1, hv_peers = 2, hv_block = 9,
     hv_gas_micro = 123456789, hv_gas_status = 0, hv_paused = False, hv_paused_since = 0, hv_emm = 1, hv_kay = 2, hv_tee = 3,
     hv_inactive = 0, hv_attempts = 0, hv_successes = 0, hv_submits = 0, hv_aborts = 0, hv_mint = None\<rparr>"

definition example_health :: health_server where
  "example_health = \<lparr>hs_count = 9, hs_last_reset = 100\<rparr>"

theorem status_reaches_operator_witness:
  "status_json json_of_text (\<lambda>_. None) (Inl ''gone'') id
     \<lparr>so_connect = Inr (), so_write = Inr (), so_read = Inr (http_ok (build_status_v1_json 4 example_status))\<rparr> 5
   = compact (status_tree 4 example_status)"
proof -
  let ?K = "\<lparr>so_connect = Inr (), so_write = Inr (), so_read = Inr (http_ok (build_status_v1_json 4 example_status))\<rparr>"
  have plain: "plain_text (hv_network example_status)" "plain_text (hv_role example_status)"
    "plain_text (hv_trustee example_status)" "plain_text (hv_payout example_status)"
    by (simp_all add: example_status_def plain_text_def)
  have "snd (admit 200 example_health)" by (simp add: admit_def example_health_def Let_def)
  moreover have "serve [(200, 4, example_status)] example_health = [Some (http_ok (build_status_v1_json 4 example_status))]"
    by (simp add: admit_def example_health_def Let_def)
  ultimately show ?thesis
    using status_reaches_operator [OF plain, of id 4 ?K json_of_text "\<lambda>_. None" "Inl ''gone''" 5] by simp
qed

theorem health_rate_limited_witness:
  "length (filter (\<lambda>x. x \<noteq> None) (serve (replicate 5 (200, 4, example_status)) example_health)) \<le> 1"
  using health_rate_limited [of example_health "replicate 5 (200, 4, example_status)"] by (simp add: example_health_def)

end
