(* ===== verification/NodeReport.thy ===== *)
theory NodeReport
  imports LoopTrades NodeQueries
begin

text \<open>
  What the main loop of \<open>src/run.rs\<close> reports: the counters of the last batch, the figures that the status
  endpoint shows, and the messages of a batch for the strategy: BatchStart in COMMIT, RevealStart in
  REVEAL, MatchResult in MATCH. None of it flows back into the loop, so it stands beside the loop state.
\<close>

section \<open>The last batch\<close>

record report_state =
  rp_matches :: u64
  rp_volume :: u64
  rp_last :: "last_batch_data option"
  rp_uptime :: u64
  rp_start_sent :: u64

definition report_boundary :: "u64 \<Rightarrow> report_state \<Rightarrow> report_state" where
  "report_boundary last_batch_id R =
     R\<lparr>rp_last := (if 0 < last_batch_id
           then Some \<lparr>lb_batch_id = last_batch_id, lb_matches = rp_matches R, lb_volume = u64_str (rp_volume R)\<rparr>
           else rp_last R),
       rp_matches := 0, rp_volume := 0, rp_uptime := rp_uptime R + 1\<rparr>"

definition report_matches :: "match_rec list \<Rightarrow> report_state \<Rightarrow> report_state" where
  "report_matches ms R = R\<lparr>rp_matches := of_nat (length ms), rp_volume := sum_list (map fill_quantity ms)\<rparr>"

section \<open>The status figures\<close>

record batch_figures =
  bf_batch :: u64
  bf_phase :: u8
  bf_pool_id :: u64
  bf_num_pools :: u64
  bf_uptime :: u64
  bf_emm :: u64
  bf_kay :: u64
  bf_tee :: u64

definition confirmed_of :: "string \<Rightarrow> escrow_tracker \<Rightarrow> u64" where
  "confirmed_of token t = (case get_balance token t of None \<Rightarrow> 0 | Some b \<Rightarrow> confirmed b)"

fun phase_number :: "orc_phase \<Rightarrow> u8" where
  "phase_number OrcCommit = 0"
| "phase_number OrcReveal = 1"
| "phase_number OrcMatch = 2"
| "phase_number OrcSwap = 3"

text \<open>What a boundary publishes; \<open>None\<close> is a panic of the clock.\<close>

definition figures_at_boundary :: "crypto \<Rightarrow> u64 \<Rightarrow> u64 \<Rightarrow> report_state \<Rightarrow> loop_state \<Rightarrow> batch_figures option" where
  "figures_at_boundary C nft_id new_batch_id R s =
     (let b = or_batch_state (lp_orch s); t = mg_tracker (lp_manager s) in
      Option.bind (bridge_current_phase b) (\<lambda>phase.
      Option.bind (bridge_current_pool_id C b nft_id) (\<lambda>pool_id.
        Some \<lparr>bf_batch = new_batch_id, bf_phase = phase_number phase, bf_pool_id = pool_id,
          bf_num_pools = max (lp_num_pools s) 1, bf_uptime = rp_uptime R,
          bf_emm = confirmed_of ''EMM'' t, bf_kay = confirmed_of ''KAY'' t, bf_tee = confirmed_of ''TEE'' t\<rparr>)))"

section \<open>BatchStart and RevealStart\<close>

text \<open>What the node has cached of the chain since it started.\<close>

record shown_chain =
  sc_wallet :: "(string, string) hmap"
  sc_mint :: mint_state_data
  sc_circulating :: "(string, string) hmap"
  sc_vault_locks :: "vault_lock_data list"
  sc_min_trade :: u64
  sc_decimals :: "(string, u8) hmap"

definition gas_status_name :: "gas_status \<Rightarrow> string" where
  "gas_status_name g = (case g of GasNormal \<Rightarrow> ''Normal'' | GasLow \<Rightarrow> ''Low'' | GasCriticalStatus \<Rightarrow> ''Critical'')"

definition pending_shown :: "settlement_manager \<Rightarrow> pending_settlement_data list" where
  "pending_shown M = map (\<lambda>(h, b, st). \<lparr>pd_match_hash = h, pd_batch_id = b, pd_status = st\<rparr>) (pending_summary M)"

definition node_health :: "u64 \<Rightarrow> u64 \<Rightarrow> u64 \<Rightarrow> report_state \<Rightarrow> loop_state \<Rightarrow> node_health_data" where
  "node_health peers block now R s =
     \<lparr>nh_gas_status = gas_status_name (check_status (lp_gas s)), nh_gossip_connected = (0 < peers), nh_gossip_peers = peers,
      nh_settle_pending_count = of_nat (length (pending_shown (lp_manager s))),
      nh_settle_failed_recent = lp_failed_recent s, nh_uptime_batches = rp_uptime R, nh_block_height = block,
      nh_timestamp = now\<rparr>"

text \<open>The message is sent once per batch; the mint state in it was just fetched.\<close>

definition batch_start_message ::
  "query_world \<Rightarrow> shown_chain \<Rightarrow> u64 \<Rightarrow> u64 \<Rightarrow> u64 \<Rightarrow> u64 \<Rightarrow> u64 \<Rightarrow> report_state \<Rightarrow> loop_state
     \<Rightarrow> (report_state \<times> strategy_event option) option" where
  "batch_start_message Q K new_batch_id pool_id peers block now R s =
     (let (proj, conf) = build_escrow_views Q (sc_decimals K) (mg_tracker (lp_manager s))
      in if rp_start_sent R < new_batch_id
         then map_option (\<lambda>gas_text. (R\<lparr>rp_start_sent := new_batch_id\<rparr>,
               Some (EvBatchStart (make_batch_start new_batch_id pool_id (lp_params s) (lp_num_pools s) proj conf
                  (sc_wallet K) gas_text peers (rp_last R) (pending_shown (lp_manager s))
                  (Some (node_health peers block now R s)) (sc_mint K) (sc_circulating K) (sc_vault_locks K) (sc_min_trade K)))))
            (balance_display (lp_gas s))
         else Some (R, None))"

definition reveal_start_message :: "u64 \<Rightarrow> loop_state \<Rightarrow> strategy_event" where
  "reveal_start_message new_batch_id s =
     EvRevealStart \<lparr>rs_batch_id = new_batch_id,
       rs_my_commits = map (\<lambda>c. hex_encode (cm_commit_hash c)) (published_commits (lp_orch s))\<rparr>"

section \<open>MatchResult\<close>

definition match_summary_of :: "u64 \<Rightarrow> match_rec \<Rightarrow> match_summary" where
  "match_summary_of own m =
     (let is_buyer = (r_nft (buyer m) = own)
      in \<lparr>sm_pair = bytes_str (m_symbol m), sm_side = (if is_buyer then ''buy'' else ''sell''),
          sm_price = u64_str (settlement_price m), sm_quantity = u64_str (fill_quantity m),
          sm_counterparty_nft_id = (if is_buyer then r_nft (seller m) else r_nft (buyer m))\<rparr>)"

definition match_result_message :: "u64 \<Rightarrow> u64 \<Rightarrow> bool \<Rightarrow> match_rec list \<Rightarrow> strategy_event option" where
  "match_result_message own new_batch_id connected ms =
     (if connected then Some (EvMatchResult \<lparr>mr_batch_id = new_batch_id, mr_matches = map (match_summary_of own) ms\<rparr>)
      else None)"

text \<open>The MATCH handler with what it reports.\<close>

definition match_reported ::
  "crypto \<Rightarrow> u64 \<Rightarrow> block_input \<Rightarrow> u64 \<Rightarrow> loop_state \<Rightarrow> report_state
     \<Rightarrow> (loop_state \<times> report_state \<times> strategy_event option) option" where
  "match_reported C own I new_batch_id s R =
     map_option (\<lambda>s'. (s', report_matches (current_matches (lp_orch s')) R,
         match_result_message own new_batch_id (bi_connected I) (current_matches (lp_orch s'))))
       (match_handler C I s)"

section \<open>What the strategy is told of the matches\<close>

lemma reported_matches:
  assumes "match_reported C own I new_batch_id s R = Some (s', R', msg)"
  shows "R' = report_matches (current_matches (lp_orch s')) R
    \<and> msg = match_result_message own new_batch_id (bi_connected I) (current_matches (lp_orch s'))
    \<and> match_handler C I s = Some s'"
  using assms by (auto simp: match_reported_def)

text \<open>
  C10. The strategy is told of every trade as its own. The message after MATCH has one entry per match of the whole pool, in
  the order of the list; for the node's own trades side and counterparty are right, but a trade of two
  others is told as a sale of the node to the buyer. The count and the volume that the next BatchStart gives
  as the last batch are those of the whole pool too, the volume modulo the word size.
\<close>

theorem match_result_claims_foreign_trades:
  assumes "match_reported C own I new_batch_id s R = Some (s', R', msg)" and "bi_connected I"
  shows "(\<exists>shown. msg = Some (EvMatchResult \<lparr>mr_batch_id = new_batch_id, mr_matches = shown\<rparr>)
      \<and> length shown = length (current_matches (lp_orch s'))
      \<and> (\<forall>i < length shown. let m = current_matches (lp_orch s') ! i; told = shown ! i in
           sm_pair told = bytes_str (m_symbol m) \<and> sm_quantity told = u64_str (fill_quantity m)
           \<and> sm_price told = u64_str (settlement_price m)
           \<and> (r_nft (buyer m) = own \<longrightarrow> sm_side told = ''buy'' \<and> sm_counterparty_nft_id told = r_nft (seller m))
           \<and> (r_nft (buyer m) \<noteq> own \<longrightarrow> sm_side told = ''sell'' \<and> sm_counterparty_nft_id told = r_nft (buyer m))))
    \<and> (0 < batch \<longrightarrow> rp_last (report_boundary batch R') = Some \<lparr>lb_batch_id = batch,
         lb_matches = of_nat (length (current_matches (lp_orch s'))),
         lb_volume = nat_str ((\<Sum>m\<leftarrow>current_matches (lp_orch s'). unat (fill_quantity m)) mod 2 ^ 64)\<rparr>)"
proof -
  let ?ms = "current_matches (lp_orch s')"
  have sum: "unat (sum_list (map fill_quantity ms)) = (\<Sum>m\<leftarrow>ms. unat (fill_quantity m)) mod 2 ^ 64" for ms
    by (induction ms) (simp_all add: unat_word_ariths mod_add_right_eq)
  from reported_matches [OF assms(1)] assms(2)
  have "msg = Some (EvMatchResult \<lparr>mr_batch_id = new_batch_id, mr_matches = map (match_summary_of own) ?ms\<rparr>)"
    and "R' = report_matches ?ms R" by (simp_all add: match_result_message_def)
  then show ?thesis by (simp add: match_summary_of_def Let_def report_boundary_def report_matches_def u64_str_def sum)
qed

text \<open>A third node that received the reveals of two others.\<close>

definition told_reveal :: "revealed_order \<Rightarrow> reveal_message" where
  "told_reveal r = \<lparr>rm_nft_id = r_nft r, rm_pool_id = 0, rm_batch_id = anchor_batch_id example_epoch,
     rm_order_bytes = wire_order (r_order r), rm_signature = replicate 64 0\<rparr>"

definition onlooker :: loop_state where
  "onlooker = example_loop\<lparr>lp_orch := deliver [told_reveal (example_reveal 1 1 50 10 7), told_reveal (example_reveal 2 0 48 4 9)]
     (example_node 3)\<rparr>"

definition onlooker_block :: block_input where
  "onlooker_block = (example_block 144 (example_epoch, example_params))\<lparr>bi_connected := True\<rparr>"

definition fresh_report :: report_state where
  "fresh_report = \<lparr>rp_matches = 0, rp_volume = 0, rp_last = None, rp_uptime = 0, rp_start_sent = 0\<rparr>"

lemma onlooker_matches:
  "\<exists>s'. match_handler wire_crypto onlooker_block onlooker = Some s' \<and> length (current_matches (lp_orch s')) = 1
     \<and> (\<forall>m \<in> set (current_matches (lp_orch s')). r_nft (buyer m) = 1)"
proof -
  let ?o = "lp_orch onlooker"
  have o: "or_batch_state ?o = or_batch_state (example_node 3)" "market_configs ?o = [\<lparr>mc_symbol = [69, 47, 75], mc_min_quantity = 1\<rparr>]"
    "committed_orders ?o = []" "or_node_nft_id ?o = 3"
    by (simp_all add: onlooker_def example_node_def orchestrator_new_def)
  have "bridge_received_reveals (or_gossip (example_node 3)) b = []" for b
    by (simp add: example_node_def orchestrator_new_def gossip_bridge_new_def bridge_received_reveals_def hm_get_or_def)
  then have p: "payloads_of ex_gossip (anchor_batch_id example_epoch) ?o
      = map (\<lambda>r. (wire_order (r_order r), replicate 64 0)) [example_reveal 1 1 50 10 7, example_reveal 2 0 48 4 9]"
    using payloads_deliver [of "[told_reveal (example_reveal 1 1 50 10 7), told_reveal (example_reveal 2 0 48 4 9)]"
        "anchor_batch_id example_epoch" "example_node 3" wire_crypto] o(3)
    by (simp add: onlooker_def told_reveal_def peer_payloads_def own_payloads_def)
  have c: "bp_current_batch_id ex_batch (or_batch_state ?o) = Some (anchor_batch_id example_epoch)"
    "bp_current_pool_id ex_batch (or_batch_state ?o) (or_node_nft_id ?o) = Some 0"
    by (simp_all add: o bridge_batch_def example_clock)
  have "collect_revealed wire_crypto (payloads_of ex_gossip (anchor_batch_id example_epoch) ?o) = Some [ex_buy, ex_sell]"
    unfolding p ex_collect by (simp add: ex_buy_def ex_sell_def)
  from on_match_phase_eq [OF c this] obtain x' where
    x: "on_match_phase wire_crypto ex_gossip ex_batch ?o = Some (x', length (current_matches x'))"
    "current_matches x' = run_matching wire_crypto (ex_input [ex_buy, ex_sell])"
    unfolding o(2) ex_input_def by blast
  have "\<forall>m \<in> set (run_matching wire_crypto (ex_input [ex_buy, ex_sell])). r_nft (buyer m) = 1"
    by (simp add: ex_input_def ex_buy_def ex_sell_def example_order_reveal_def example_matching_simps mk_match_def)
  moreover have "drain_gossip wire_crypto (bi_late_gossip onlooker_block) onlooker = onlooker"
    by (simp add: drain_gossip_def drain_inbound_def onlooker_block_def example_block_def onlooker_def)
  moreover have "bi_returns onlooker_block SendMatchResult" by (simp add: onlooker_block_def example_block_def)
  ultimately show ?thesis using x ex_matching(1) by (simp add: match_handler_def Let_def)
qed

theorem match_result_claims_foreign_trades_witness:
  "\<exists>s' R' told. match_reported wire_crypto 3 onlooker_block 10 onlooker fresh_report
       = Some (s', R', Some (EvMatchResult \<lparr>mr_batch_id = 10, mr_matches = [told]\<rparr>))
     \<and> sm_side told = ''sell'' \<and> sm_counterparty_nft_id told = 1"
proof -
  obtain s' where s': "match_handler wire_crypto onlooker_block onlooker = Some s'" "length (current_matches (lp_orch s')) = 1"
    "\<forall>m \<in> set (current_matches (lp_orch s')). r_nft (buyer m) = 1" using onlooker_matches by blast
  then obtain m where m: "current_matches (lp_orch s') = [m]" "r_nft (buyer m) = 1"
    by (cases "current_matches (lp_orch s')") auto
  have con: "bi_connected onlooker_block" by (simp add: onlooker_block_def)
  obtain R' msg where r: "match_reported wire_crypto 3 onlooker_block 10 onlooker fresh_report = Some (s', R', msg)"
    using s'(1) by (simp add: match_reported_def)
  from match_result_claims_foreign_trades [OF r con, THEN conjunct1] obtain shown where
    shown: "msg = Some (EvMatchResult \<lparr>mr_batch_id = 10, mr_matches = shown\<rparr>)" "length shown = 1"
    "sm_side (shown ! 0) = ''sell''" "sm_counterparty_nft_id (shown ! 0) = 1"
    unfolding m(1) by (auto simp: m(2) Let_def)
  then obtain told where "shown = [told]" by (cases shown) auto
  with shown r show ?thesis by auto
qed

end
