(* ===== verification/LoopArms.thy ===== *)
theory LoopArms
  imports NodeLoop
begin

text \<open>
  The select loop of \<open>src/run.rs\<close> with all its arms: a message from gossip, the timer that drains what is queued, and
  a block. In bootstrap mode (\<open>DEADMKT_NO_STRATEGY\<close> = 1) the node only relays: the message and the block arm are
  off and the timer discards what is queued. The theorem reduces every interleaving of the arms to a run of blocks,
  which the other theories are about.
\<close>

section \<open>Arms\<close>

datatype loop_arm =
    ArmMessage gossip_message
  | ArmTimer "gossip_message list"
  | ArmBlock block_input

definition bootstrap_mode :: "(string \<Rightarrow> string option) \<Rightarrow> bool" where
  "bootstrap_mode env = (env ''DEADMKT_NO_STRATEGY'' = Some ''1'')"

fun arm_enabled :: "bool \<Rightarrow> loop_arm \<Rightarrow> bool" where
  "arm_enabled bootstrap (ArmMessage _) = (\<not> bootstrap)"
| "arm_enabled bootstrap (ArmTimer _) = True"
| "arm_enabled bootstrap (ArmBlock _) = (\<not> bootstrap)"

text \<open>The period of the timer in milliseconds.\<close>

definition drain_ms :: "bool \<Rightarrow> nat" where
  "drain_ms bootstrap = (if bootstrap then 50 else 500)"

fun arm_step :: "crypto \<Rightarrow> node_config \<Rightarrow> bool \<Rightarrow> loop_arm \<Rightarrow> loop_state \<Rightarrow> loop_state option" where
  "arm_step C N bootstrap (ArmMessage m) s = Some (drain_gossip C [m] s)"
| "arm_step C N bootstrap (ArmTimer ms) s = Some (if bootstrap then s else drain_gossip C ms s)"
| "arm_step C N bootstrap (ArmBlock I) s = map_option fst (on_block C N I s)"

text \<open>A run of the loop: arms that are off do not fire.\<close>

fun run_arms :: "crypto \<Rightarrow> node_config \<Rightarrow> bool \<Rightarrow> loop_arm list \<Rightarrow> loop_state \<Rightarrow> loop_state option" where
  "run_arms C N bootstrap [] s = Some s"
| "run_arms C N bootstrap (a # as) s =
     (if arm_enabled bootstrap a then Option.bind (arm_step C N bootstrap a s) (run_arms C N bootstrap as)
      else run_arms C N bootstrap as s)"

section \<open>Reduction to blocks\<close>

text \<open>The blocks of a run, each with the messages that came since the one before; and the messages after the last.\<close>

fun as_blocks :: "gossip_message list \<Rightarrow> loop_arm list \<Rightarrow> block_input list \<times> gossip_message list" where
  "as_blocks waiting [] = ([], waiting)"
| "as_blocks waiting (ArmMessage m # as) = as_blocks (waiting @ [m]) as"
| "as_blocks waiting (ArmTimer ms # as) = as_blocks (waiting @ ms) as"
| "as_blocks waiting (ArmBlock I # as) =
     (case as_blocks [] as of (Is, rest) \<Rightarrow> (I\<lparr>bi_gossip := waiting @ bi_gossip I\<rparr> # Is, rest))"

lemma drain_drain: "drain_gossip C b (drain_gossip C a s) = drain_gossip C (a @ b) s"
  by (simp add: drain_gossip_def drain_inbound_def split: prod.split)

lemma drain_nothing [simp]: "drain_gossip C [] s = s"
  by (simp add: drain_gossip_def drain_inbound_def)

lemma gossip_fields:
  "bi_gossip (I\<lparr>bi_gossip := g\<rparr>) = g" "bi_block (I\<lparr>bi_gossip := g\<rparr>) = bi_block I"
  "bi_late_gossip (I\<lparr>bi_gossip := g\<rparr>) = bi_late_gossip I" "bi_connected (I\<lparr>bi_gossip := g\<rparr>) = bi_connected I"
  "bi_params (I\<lparr>bi_gossip := g\<rparr>) = bi_params I" "bi_epoch (I\<lparr>bi_gossip := g\<rparr>) = bi_epoch I"
  "bi_pools (I\<lparr>bi_gossip := g\<rparr>) = bi_pools I" "bi_supra (I\<lparr>bi_gossip := g\<rparr>) = bi_supra I"
  "bi_view (I\<lparr>bi_gossip := g\<rparr>) = bi_view I" "bi_now (I\<lparr>bi_gossip := g\<rparr>) = bi_now I"
  "bi_commit_action (I\<lparr>bi_gossip := g\<rparr>) = bi_commit_action I" "bi_reveal_action (I\<lparr>bi_gossip := g\<rparr>) = bi_reveal_action I"
  "bi_nonces (I\<lparr>bi_gossip := g\<rparr>) = bi_nonces I" "bi_results (I\<lparr>bi_gossip := g\<rparr>) = bi_results I"
  "bi_events (I\<lparr>bi_gossip := g\<rparr>) = bi_events I" "bi_returns (I\<lparr>bi_gossip := g\<rparr>) = bi_returns I"
  by simp_all

lemma begin_unused: "begin_batch C N (I\<lparr>bi_gossip := g\<rparr>) b s = begin_batch C N I b s"
  unfolding begin_batch_def refresh_chain_config_def gossip_fields ..

lemma phase_unused: "phase_handler C N (I\<lparr>bi_gossip := g\<rparr>) p b s = phase_handler C N I p b s"
  unfolding phase_handler_def commit_handler_def strategy_orders_def reveal_handler_def strategy_indices_def
    match_handler_def swap_handler_def gossip_fields ..

lemma finish_unused: "finish_block C (I\<lparr>bi_gossip := g\<rparr>) p b s = finish_block C I p b s"
  unfolding finish_block_def poll_events_def gossip_fields ..

lemma handlers_unused:
  "transition_to C N (I\<lparr>bi_gossip := g\<rparr>) = transition_to C N I" "finish_block C (I\<lparr>bi_gossip := g\<rparr>) = finish_block C I"
proof -
  have ph: "phase_handler C N (I\<lparr>bi_gossip := g\<rparr>) = phase_handler C N I" by (rule ext)+ (rule phase_unused)
  show "transition_to C N (I\<lparr>bi_gossip := g\<rparr>) = transition_to C N I"
    by (rule ext)+ (simp add: transition_to_def ph begin_unused)
  show "finish_block C (I\<lparr>bi_gossip := g\<rparr>) = finish_block C I" by (rule ext)+ (rule finish_unused)
qed

lemma block_gossip:
  assumes "g = w @ bi_gossip I"
  shows "on_block C N (I\<lparr>bi_gossip := g\<rparr>) s = on_block C N I (drain_gossip C w s)"
  unfolding on_block_def handlers_unused gossip_fields drain_drain assms ..

lemmas block_after_drain = block_gossip [OF refl, symmetric]

lemma run_arms_blocks:
  "run_arms C N False as (drain_gossip C w s)
     = (case as_blocks w as of (Is, rest) \<Rightarrow> map_option (drain_gossip C rest) (run_blocks C N Is s))"
proof (induction w as arbitrary: s rule: as_blocks.induct)
  case (4 w I as)
  show ?case
  proof (cases "on_block C N (I\<lparr>bi_gossip := w @ bi_gossip I\<rparr>) s")
    case None
    then show ?thesis by (simp add: block_after_drain split: prod.split)
  next
    case (Some p)
    then show ?thesis using 4 [of "fst p"]
      by (cases p) (simp add: block_after_drain split: prod.split)
  qed
qed (simp_all add: drain_drain)

lemma bootstrap_idle: "run_arms C N True as s = Some s"
proof (induction as)
  case (Cons a as)
  then show ?case by (cases a) simp_all
qed simp

text \<open>
  C9. However the arms of the main loop interleave, the node ends where a run of its blocks ends. A message handled on its own or by
  the timer has the effect it has when it waits for the next block; so what holds for runs of blocks holds for
  the loop. In bootstrap mode nothing ever changes the state: no message is validated or stored, and no
  block is handled.
\<close>

theorem arms_reduce_to_blocks:
  "run_arms C N False as s
     = (case as_blocks [] as of (Is, rest) \<Rightarrow> map_option (drain_gossip C rest) (run_blocks C N Is s))
   \<and> run_arms C N True as s = Some s"
  using run_arms_blocks [of C N as "[]" s] bootstrap_idle by simp

end
