(* ===== verification/Spec2Isabelle.thy ===== *)
theory Spec2Isabelle
  imports Prelude Text Crypto Batch Matching GossipValidation NodeState Gas Escrow SettlementTx
    SettlementManager Convert ActiveCache Json StrategyTypes
    ChainEvents GossipMessages Orchestrator RunBridges InboundGossip Agreement
    NodeLoop LoopProps LoopOrder LoopTrades Replay BatchLifecycle ChainTypes StrategyServer
    Config Keystore Storage RpcClient ChainCaches SetupInput SetupWorld SetupWizard SetupRun SetupProps
    SetupOutcome SetupEdges SetupBridge TokenWorker Poller NodeQueries NodeLiveness GossipNetwork GossipTask NodeStartup
    ActionCommands OperatorCommands SetupCommands NodeStatus NodeReport LoopArms
begin

text \<open>
  A verification development of the deadmkt trading node: a Rust program that takes part in a
  decentralised batch auction on the Supra chain. Blocks of the chain are divided into batches and
  batches into the phases COMMIT, REVEAL, MATCH and SWAP. In COMMIT a node publishes hashes of signed orders
  over a gossip network, in REVEAL the orders themselves, in MATCH every node computes the same list of
  matches on its own, and in SWAP the two parties of a match settle it in a transaction of the chain. A
  strategy program, connected over a WebSocket, decides the orders. File names below are those of the
  repository (crates/ and src/ under its root); a name after a file is a function or type of it.

  \<^bold>\<open>Parts and how they interact.\<close> The main loop (run.rs) sees block heights from the chain poller, messages
  from gossip, actions and token actions from the strategy server, results from the settlement worker.
  At each height it computes batch and phase (batch.rs) and calls the phase handlers of the orchestrator
  (orchestrator), which reaches gossip and the clock through two traits; run.rs implements both. Orders
  come from the strategy (strategy/convert.rs), matches from the engine (matching), the balances the
  orders may use from the escrow tracker (escrow_tracker), shared with the settlement manager
  (settlement), which books a match before its transaction and releases it afterwards. Inbound messages
  pass the validator of run.rs, which keeps quotas per NFT and asks the chain for public keys. All
  chain requests go through the RPC client (chain/client.rs). The setup (crates/setup) makes keystore,
  NFT and configuration before the node first runs; it reaches the chain through the bridge
  src/setup_bridge.rs. The commands of src/main.rs go through that bridge too, or through the node's own client.

  \<^bold>\<open>Vocabulary.\<close>
  Prelude: machine integers as words, Rust's operators in the release profile (wrapping + - *, saturating
  and checked forms, division that panics), HashMap as association list in iteration order, the
  collections of simplification rules. Text: strings as bytes, printing and parsing of integers,
  trimming. Json: serde_json::Value with its accessors.

  \<^bold>\<open>One batch.\<close>
  Crypto (crates/crypto: Order and the byte layouts that are hashed and signed); Batch (chain/batch.rs:
  epoch, batch number, phase; the theorem compares the u64 code with quotient and remainder over the naturals);
  Matching (crates/matching: extraction, sorting, the two-pointer walk; no order is overfilled, every
  match can be settled, the list does not depend on arrival or iteration order, no crossing pair is left);
  GossipValidation (crates/gossip_validation: the three validators and the quota tracker, whose
  contract is the locale commit_quota); BatchLifecycle (crates/batch_state); Convert (strategy/convert.rs
  and convert_strategy_orders of run.rs: decimal parsing, order building, validation against escrow); Agreement
  (COMMIT, REVEAL and MATCH put together: nodes that reveal all compute the same matches, and a
  withheld reveal breaks that).

  \<^bold>\<open>Money.\<close>
  Escrow (crates/escrow_tracker: confirmed, pending outflow, earmark; the locale settlement_ledger states
  what booking, confirming and releasing promise, interpreted on the tracker), ActiveCache
  (is_active_cache.rs), SettlementTx and SettlementManager (crates/settlement: abort codes, transactions, the two
  submission pipelines, the worker, the manager with its pending map and isolation counters), Gas
  (crates/gas_manager), NodeState (crates/node_state: the state machine).

  \<^bold>\<open>The running node.\<close>
  Orchestrator (crates/orchestrator, the traits as records of operations; the locale gossip_mailbox is the
  contract of the gossip port), RunBridges (the implementations of the two traits in run.rs),
  GossipMessages (gossip/messages.rs), InboundGossip (process_inbound_gossip and its storage;
  every stored reveal is signed), Replay (what that validator does not tie to a reveal), NodeLoop (the block
  arm of the select loop of run.rs), LoopProps, LoopOrder, LoopTrades (runs of the loop: a refinement to a clock
  machine, the order of the handlers, no panic, the orders and settlements of a round), NodeQueries
  (the fetch helpers of run.rs and the node's own transactions), NodeLiveness (the heartbeat and the
  is_active check of a batch boundary: heartbeats go out exactly when due), GossipNetwork (gossip/network.rs on the
  operations of a swarm), GossipTask (the task of run.rs that owns the gossip node, and dialling: an
  invariant of every reachable state, exact redials, the pool of the batch), NodeStartup (run of run.rs
  up to the main loop: a successful start gives a state the loop never panics from),
  TokenWorker (src/token_worker.rs), Poller (chain/poller.rs and the chain poller of run.rs),
  NodeStatus (the status endpoint: its JSON, its server, its client), NodeReport (the counters and messages of
  a batch, among them a match report that takes trades of others for the node's own), LoopArms (the other
  arms of the select loop and the bootstrap mode: every interleaving reduces to a run of blocks).

  \<^bold>\<open>Commands.\<close>
  ActionCommands (main.rs and cli.rs: withdraw, burn, burn-pair, agent-config, with envelope and exit code: success
  is told exactly when the chain executed), OperatorCommands (deposit, reactivate, apply-params,
  update-params: what a reactivation may send), SetupCommands (the dispatch of main, the wizard command,
  setup from a file and restore: exit codes, and what happens to a password in the file).

  \<^bold>\<open>Chain, disk and strategy.\<close>
  ChainEvents and ChainTypes (chain/types.rs: parsers of view results and events), RpcClient
  (chain/client.rs), ChainCaches (chain/pubkey.rs, market.rs), Storage (crates/storage: each SQL
  statement on lists of rows; the locale keyed_table is proved on lists and every table uses it;
  the database refines finite maps and recovery is exact), StrategyTypes and StrategyServer
  (crates/strategy: events, actions, and the server's tasks as a step relation), Config
  (crates/config), Keystore (crates/keystore).

  \<^bold>\<open>Setup.\<close>
  SetupInput (first half of setup/noninteractive.rs: setup.json and its validation), SetupWorld (the
  traits ChainClient and WizardIO as a world that answers, with the history of effects), SetupWizard
  (setup/lib.rs), SetupRun (second half of noninteractive.rs), SetupBridge (src/setup_bridge.rs on the RPC
  client), SetupProps, SetupOutcome, SetupEdges (what the setup guarantees: at most one mint, a truthful
  result, restores only read, when the wait for funds ends).

  \<^bold>\<open>Conventions.\<close> A Rust panic is None, also where a task would wait for ever (partial_function loops
  and full channels); an Err is a value of a sum or an option. Records keep the names of the structs'
  fields with a prefix. The release profile is taken throughout: arithmetic wraps, debug assertions
  are absent. Mutexes are not modelled: the operations under one lock are one definition. A HashMap
  is a list in an arbitrary iteration order, and what depends on that order is shown as such or
  shown not to.

  \<^bold>\<open>Parameters and hypotheses.\<close> Third-party code is an argument: SHA-256, Ed25519 and BCS (record crypto, with
  crypto_total: the encoding never fails and digests have 32 bytes), bincode (record bincode, with its
  round trip), Argon2 and AES-GCM (record vault, with aead_ok: decryption inverts encryption), serde_json's
  text layer (a printer and a parser, with parse after print the identity), the HTTP server (a function
  that answers each request), libp2p's swarm (record swarm_lib, with swarm_ok: what subscribing, publishing and
  leaving a topic do), name resolution, SHA3, the text of a float quotient and the float seeds of balances (lc_positive,
  su_seed), the display texts of errors, the lossy reading of UTF-8, the clock and random bytes. decimals_ok
  says that no pair of token decimals makes a divisor of zero. Each hypothesis has a concrete
  instance in a witness.

  \<^bold>\<open>Bounds and fuel.\<close> Retry loops have the bound of the source as a natural number (endpoint retries,
  polls of a transaction, 60 rounds of the wait for funds of the main network), so no fuel can run out before the source
  gives up; loops over events are recursion over the list of what arrives; loops that may never end (the wait for
  funds on the test network) are partial_function, and a theorem says when they end.

  \<^bold>\<open>Not modelled.\<close> Building the libp2p swarm and the wait for its first address; the parsing of command line
  arguments (clap); dialog and progress output (StdIO), logging and tracing, the plain output of the version and status
  commands; floating point conversions of TokenDecimalsMap and the printed amounts; failures of SQLite; the order in which tokio runs its tasks, except as the
  sequences of events the step functions take; the integration tests and the example clients.
\<close>

end
